(* ===== verification/Prelude.thy ===== *)
theory Prelude
  imports Complex_Main "HOL-Library.List_Lexorder" "HOL-Library.Char_ord"
    "HOL-Library.Product_Lexorder"
begin

text \<open>
  Shared vocabulary of the development: the errors the TypeScript sources throw, the renderings
  \<open>String(n)\<close> and \<open>padStart\<close>, JavaScript's \<open>sort\<close> and insertion-ordered sets, and the
  generic list lemmas the component theories use. A JavaScript string is a \<open>string\<close> (a list of
  code units, ordered by code unit, which is what \<open><\<close> on strings and the default \<open>sort\<close> do).
  A function that can throw returns a sum: \<open>Inl\<close> the thrown error, \<open>Inr\<close> the value.
\<close>

section \<open>Collections of facts\<close>

named_theorems walk_simps \<open>rewriting of the checker's walks over assignments\<close>
named_theorems cal_intros \<open>introduction rules for calendar validity\<close>

section \<open>Thrown errors\<close>

datatype thrown =
    InvalidCalendarDateError string
  | ZonedTimeBadDate string
  | ZonedTimeBadTime string
  | DegenerateShiftIntervalError string int int
  | AmbiguousInForceError "string list" int
  | RangeError
  | GenericError string

type_synonym 'a result = "thrown + 'a"

fun collect :: "('a \<Rightarrow> 'b list result) \<Rightarrow> 'a list \<Rightarrow> 'b list result" where
  "collect f [] = Inr []"
| "collect f (x # xs) =
     (case f x of
        Inl e \<Rightarrow> Inl e
      | Inr ys \<Rightarrow> (case collect f xs of Inl e \<Rightarrow> Inl e | Inr zs \<Rightarrow> Inr (ys @ zs)))"

lemma collect_Inr_Nil_iff:
  "collect f xs = Inr [] \<longleftrightarrow> (\<forall>x \<in> set xs. f x = Inr [])"
  by (induction xs) (auto split: sum.splits)

lemma collect_Inr:
  "(\<And>x. x \<in> set xs \<Longrightarrow> f x = Inr (g x)) \<Longrightarrow> collect f xs = Inr (concat (map g xs))"
  by (induction xs) auto

section \<open>White space\<close>


text \<open>White space and line terminators among the code units below 256.\<close>
definition js_space :: "char \<Rightarrow> bool" where
  "js_space c \<longleftrightarrow> (of_char c :: nat) \<in> {9, 10, 11, 12, 13, 32, 160}"

definition trim :: "string \<Rightarrow> string" where
  "trim s = rev (dropWhile js_space (rev (dropWhile js_space s)))"

section \<open>Rendering numbers\<close>

definition digit_char :: "nat \<Rightarrow> char" where
  "digit_char d = char_of (48 + d)"

fun string_of_nat :: "nat \<Rightarrow> string" where
  "string_of_nat n =
     (if n < 10 then [digit_char n] else string_of_nat (n div 10) @ [digit_char (n mod 10)])"

declare string_of_nat.simps [simp del]

definition string_of_int :: "int \<Rightarrow> string" where
  "string_of_int i = (if i < 0 then CHR ''-'' # string_of_nat (nat (- i)) else string_of_nat (nat i))"

definition pad_start :: "nat \<Rightarrow> string \<Rightarrow> string" where
  "pad_start w s = replicate (w - length s) (CHR ''0'') @ s"

definition is_digit :: "char \<Rightarrow> bool" where
  "is_digit c \<longleftrightarrow> 48 \<le> (of_char c :: nat) \<and> (of_char c :: nat) \<le> 57"

definition digit_val :: "char \<Rightarrow> int" where
  "digit_val c = int (of_char c) - 48"

definition number_of_digits :: "string \<Rightarrow> int" where
  "number_of_digits s = foldl (\<lambda>acc c. 10 * acc + digit_val c) 0 s"

lemma of_char_digit_char: "d < 10 \<Longrightarrow> (of_char (digit_char d) :: nat) = 48 + d"
  by (simp add: digit_char_def)

lemma is_digit_digit_char [simp]: "d < 10 \<Longrightarrow> is_digit (digit_char d)"
  by (simp add: is_digit_def of_char_digit_char)

lemma digit_val_digit_char [simp]: "d < 10 \<Longrightarrow> digit_val (digit_char d) = int d"
  by (simp add: digit_val_def of_char_digit_char)

lemma digit_val_bounds: "is_digit c \<Longrightarrow> 0 \<le> digit_val c \<and> digit_val c \<le> 9"
  by (auto simp: is_digit_def digit_val_def)

lemma digit_char_digit_val: "is_digit c \<Longrightarrow> digit_char (nat (digit_val c)) = c"
  by (simp add: digit_char_def digit_val_def is_digit_def nat_diff_distrib)

lemma digit_val_less_iff: "digit_val c < digit_val d \<longleftrightarrow> c < d"
  by (simp add: digit_val_def less_char_def)

lemma digit_val_eq_iff: "digit_val c = digit_val d \<longleftrightarrow> c = d"
  by (simp add: digit_val_def)

section \<open>Digit strings\<close>

lemma number_of_digits_foldl:
  "foldl (\<lambda>acc c. 10 * acc + digit_val c) a s = a * 10 ^ length s + number_of_digits s"
proof (induction s arbitrary: a)
  case Nil
  then show ?case by (simp add: number_of_digits_def)
next
  case (Cons c s)
  show ?case using Cons[of "10 * a + digit_val c"] Cons[of "digit_val c"]
    by (simp add: number_of_digits_def algebra_simps)
qed

lemma number_of_digits_Nil [simp]: "number_of_digits [] = 0"
  by (simp add: number_of_digits_def)

lemma number_of_digits_Cons [simp]:
  "number_of_digits (c # s) = digit_val c * 10 ^ length s + number_of_digits s"
  using number_of_digits_foldl[of "digit_val c" s] by (simp add: number_of_digits_def)

lemma number_of_digits_append [simp]:
  "number_of_digits (s @ t) = number_of_digits s * 10 ^ length t + number_of_digits t"
  by (induction s) (simp_all add: power_add algebra_simps)

lemma number_of_digits_bounds:
  "list_all is_digit s \<Longrightarrow> 0 \<le> number_of_digits s \<and> number_of_digits s < 10 ^ length s"
proof (induction s)
  case (Cons c s)
  have "0 \<le> digit_val c" "digit_val c \<le> 9" using Cons.prems digit_val_bounds by auto
  then have "digit_val c * 10 ^ length s \<le> 9 * 10 ^ length s"
    by (intro mult_right_mono) simp_all
  moreover have "0 \<le> digit_val c * 10 ^ length s"
    using \<open>0 \<le> digit_val c\<close> by simp
  moreover have "0 \<le> number_of_digits s" "number_of_digits s < 10 ^ length s" using Cons by auto
  ultimately have "0 \<le> digit_val c * 10 ^ length s + number_of_digits s"
    "digit_val c * 10 ^ length s + number_of_digits s < 10 * 10 ^ length s" by linarith+
  then show ?case by simp
qed simp

lemma list_less_append_iff:
  fixes a c :: "'a::linorder list"
  shows "length a = length c \<Longrightarrow> a @ b < c @ d \<longleftrightarrow> a < c \<or> a = c \<and> b < d"
proof (induction a c rule: list_induct2)
  case (Cons x xs y ys)
  then show ?case by auto
qed simp

text \<open>Digit strings of one length compare as the numbers they denote.\<close>
lemma digits_less_iff:
  "length s = length t \<Longrightarrow> list_all is_digit s \<Longrightarrow> list_all is_digit t \<Longrightarrow>
     number_of_digits s < number_of_digits t \<longleftrightarrow> s < t"
proof (induction s t rule: list_induct2)
  case (Cons c s d t)
  let ?k = "10 ^ length t :: int"
  have b: "0 \<le> number_of_digits s" "number_of_digits s < ?k" "0 \<le> number_of_digits t" "number_of_digits t < ?k"
    using number_of_digits_bounds[of s] number_of_digits_bounds[of t] Cons.prems Cons.hyps by auto
  consider "digit_val c < digit_val d" | "digit_val c = digit_val d" | "digit_val d < digit_val c"
    by linarith
  then show ?case
  proof cases
    case 1
    then have "(digit_val c + 1) * ?k \<le> digit_val d * ?k" by (intro mult_right_mono) auto
    then have "number_of_digits (c # s) < number_of_digits (d # t)"
      using b Cons.hyps by (simp add: algebra_simps)
    then show ?thesis using 1 by (simp add: digit_val_less_iff)
  next
    case 2
    then show ?thesis using Cons by (simp add: digit_val_eq_iff)
  next
    case 3
    then have "(digit_val d + 1) * ?k \<le> digit_val c * ?k" by (intro mult_right_mono) auto
    then have "\<not> number_of_digits (c # s) < number_of_digits (d # t)"
      using b Cons.hyps by (simp add: algebra_simps)
    then show ?thesis using 3 by (auto simp: digit_val_less_iff)
  qed
qed simp

lemma digits_eq_iff:
  "length s = length t \<Longrightarrow> list_all is_digit s \<Longrightarrow> list_all is_digit t \<Longrightarrow>
     number_of_digits s = number_of_digits t \<longleftrightarrow> s = t"
  using digits_less_iff[of s t] digits_less_iff[of t s] by (metis less_irrefl neq_iff)

lemma append_sep:
  "c \<notin> set a \<Longrightarrow> c \<notin> set a' \<Longrightarrow> a @ c # b = a' @ c # b' \<longleftrightarrow> a = a' \<and> b = b'"
proof (induction a arbitrary: a')
  case Nil
  then show ?case by (cases a') auto
next
  case (Cons x a)
  then show ?case by (cases a') auto
qed

lemma string_of_nat_props:
  "list_all is_digit (string_of_nat n) \<and> number_of_digits (string_of_nat n) = int n"
proof (induction n rule: string_of_nat.induct)
  case (1 n)
  show ?case
  proof (cases "n < 10")
    case True
    then show ?thesis by (simp add: string_of_nat.simps[of n])
  next
    case False
    have "int n = int (n div 10) * 10 + int (n mod 10)"
      by (metis div_mult_mod_eq of_nat_add of_nat_mult of_nat_numeral)
    then show ?thesis using 1 False by (simp add: string_of_nat.simps[of n])
  qed
qed

lemma string_of_nat_digits: "c \<in> set (string_of_nat n) \<Longrightarrow> is_digit c"
  using string_of_nat_props[of n] by (auto simp: list_all_iff)

lemma string_of_nat_nonempty [simp]: "string_of_nat n \<noteq> []"
  by (subst string_of_nat.simps) simp

lemma string_of_nat_inj: "string_of_nat n = string_of_nat m \<longleftrightarrow> n = m"
  using string_of_nat_props[of n] string_of_nat_props[of m] by (metis of_nat_eq_iff)

lemma string_of_nat_length: "n < 10 ^ Suc w \<Longrightarrow> length (string_of_nat n) \<le> Suc w"
proof (induction w arbitrary: n)
  case 0
  then show ?case by (simp add: string_of_nat.simps[of n])
next
  case (Suc w)
  have "n div 10 < 10 ^ Suc w" using Suc.prems by (simp add: less_mult_imp_div_less)
  then show ?case using Suc.IH[of "n div 10"] by (simp add: string_of_nat.simps[of n])
qed

lemma pad_start_props:
  assumes "n < 10 ^ Suc w"
  shows "length (pad_start (Suc w) (string_of_nat n)) = Suc w"
    and "list_all is_digit (pad_start (Suc w) (string_of_nat n))"
    and "number_of_digits (pad_start (Suc w) (string_of_nat n)) = int n"
proof -
  have z: "digit_val (CHR ''0'') = 0" "is_digit (CHR ''0'')" by (simp_all add: digit_val_def is_digit_def)
  have r: "number_of_digits (replicate k (CHR ''0'')) = 0" for k by (induction k) (simp_all add: z)
  show "length (pad_start (Suc w) (string_of_nat n)) = Suc w"
    using string_of_nat_length[OF assms] by (simp add: pad_start_def)
  show "list_all is_digit (pad_start (Suc w) (string_of_nat n))"
    using string_of_nat_props[of n] by (auto simp: pad_start_def z(2) list_all_iff)
  show "number_of_digits (pad_start (Suc w) (string_of_nat n)) = int n"
    using string_of_nat_props[of n] r by (simp add: pad_start_def)
qed

lemma pad_start_of_digits:
  assumes "list_all is_digit s" "length s = Suc w"
  shows "pad_start (Suc w) (string_of_nat (nat (number_of_digits s))) = s"
proof -
  have "0 \<le> number_of_digits s" "number_of_digits s < 10 ^ Suc w"
    using number_of_digits_bounds[OF assms(1)] assms(2) by auto
  then have "nat (number_of_digits s) < 10 ^ Suc w" by (simp add: nat_less_iff)
  from pad_start_props[OF this] show ?thesis
    using assms \<open>0 \<le> number_of_digits s\<close> digits_eq_iff by (metis int_nat_eq)
qed
end
