(* ===== verification/CalendarDate.thy ===== *)
theory CalendarDate
  imports Prelude
begin

text \<open>
  \<open>packages/domain/src/calendar/calendar-date.ts\<close>: real calendar dates. The first half models the
  arithmetic on \<open>(year, month, day)\<close> triples: the leap year rule, the month lengths and Hinnant's
  era-based day count with its inverse (\<open>Math.floor (a / b)\<close> is \<open>a div b\<close>; every number the code
  forms on this path is an integer far below 2^53). The second half models the functions on
  \<open>YYYY-MM-DD\<close> strings, which throw \<open>InvalidCalendarDateError\<close> on anything else.
\<close>

section \<open>Calendar arithmetic\<close>


definition isLeapYear :: "int \<Rightarrow> bool" where
  "isLeapYear y \<longleftrightarrow> (y mod 4 = 0 \<and> y mod 100 \<noteq> 0) \<or> y mod 400 = 0"

definition daysInMonth :: "int \<Rightarrow> int \<Rightarrow> int" where
  "daysInMonth y m =
     (if m \<in> {1, 3, 5, 7, 8, 10, 12} then 31
      else if m \<in> {4, 6, 9, 11} then 30
      else if m = 2 then (if isLeapYear y then 29 else 28)
      else 0)"

definition civil_to_days :: "int \<Rightarrow> int \<Rightarrow> int \<Rightarrow> int" where
  "civil_to_days yr m d =
     (let y = (if m \<le> 2 then yr - 1 else yr);
          era = y div 400;
          yoe = y - era * 400;
          doy = (153 * (m + (if m > 2 then - 3 else 9)) + 2) div 5 + d - 1;
          doe = yoe * 365 + yoe div 4 - yoe div 100 + doy
      in era * 146097 + doe - 719468)"

definition days_to_civil :: "int \<Rightarrow> int \<times> int \<times> int" where
  "days_to_civil days =
     (let z = days + 719468;
          era = z div 146097;
          doe = z - era * 146097;
          yoe = (doe - doe div 1460 + doe div 36524 - doe div 146096) div 365;
          y = yoe + era * 400;
          doy = doe - (365 * yoe + yoe div 4 - yoe div 100);
          mp = (5 * doy + 2) div 153;
          d = doy - (153 * mp + 2) div 5 + 1;
          m = mp + (if mp < 10 then 3 else - 9)
      in (if m \<le> 2 then y + 1 else y, m, d))"

definition valid_civil :: "int \<Rightarrow> int \<Rightarrow> int \<Rightarrow> bool" where
  "valid_civil y m d \<longleftrightarrow> 1 \<le> m \<and> m \<le> 12 \<and> 1 \<le> d \<and> d \<le> daysInMonth y m"

definition march_month :: "int \<Rightarrow> int" where
  "march_month m = m + (if m > 2 then - 3 else 9)"

definition march_year :: "int \<Rightarrow> int \<Rightarrow> int" where
  "march_year y m = (if m \<le> 2 then y - 1 else y)"

text \<open>Days before the March-based year yoe of an era.\<close>
definition yoe_start :: "int \<Rightarrow> int" where
  "yoe_start y = 365 * y + y div 4 - y div 100"

lemma yoe_decomp:
  assumes "0 \<le> (y::int)" "y < 400"
  obtains c q r where "y = 100 * c + 4 * q + r" "0 \<le> c" "c \<le> 3" "0 \<le> q" "q \<le> 24" "0 \<le> r" "r \<le> 3"
    "y div 4 = 25 * c + q" "y div 100 = c"
proof -
  define c w where "c = y div 100" and "w = y mod 100"
  define q r where "q = w div 4" and "r = w mod 4"
  have y: "y = 100 * c + w" and w: "w = 4 * q + r" "0 \<le> w" "w < 100" "0 \<le> r" "r < 4"
    by (simp_all add: c_def w_def q_def r_def)
  have c: "0 \<le> c" "c \<le> 3" and q: "0 \<le> q" "q \<le> 24"
    using assms y w by linarith+
  have yq: "y = 4 * (25 * c + q) + r" using y w by simp
  have "y div 4 = 25 * c + q" by (rule int_div_pos_eq[OF yq]) (use w in linarith)+
  moreover have "y div 100 = c" by (simp only: c_def)
  ultimately show ?thesis using that[of c q r] c q w y by auto
qed

lemma mod_0_trans: "(k::int) dvd j \<Longrightarrow> x mod j = 0 \<Longrightarrow> x mod k = 0"
  by (simp add: dvd_trans flip: dvd_eq_mod_eq_0)

lemma leap_in_decomp:
  assumes "y = 100 * c + 4 * q + r" "0 \<le> (c::int)" "c \<le> 3" "0 \<le> q" "q \<le> 24" "0 \<le> r" "r \<le> 3"
    and "isLeapYear (y + 1)"
  shows "r = 3 \<and> (q = 24 \<longrightarrow> c = 3)"
proof -
  have "r = 0 \<or> r = 1 \<or> r = 2 \<or> r = 3" "c = 0 \<or> c = 1 \<or> c = 2 \<or> c = 3" using assms by auto
  moreover have "(y + 1) mod 4 = (r + 1) mod 4"
  proof -
    have "y + 1 = r + 1 + 4 * (25 * c + q)" using assms(1) by simp
    then show ?thesis by (simp only: mod_mult_self2)
  qed
  moreover have "(y + 1) mod 4 = 0"
  proof -
    have "(y + 1) mod 400 = 0 \<Longrightarrow> (y + 1) mod 4 = 0"
      by (rule mod_0_trans[of 4 400]) simp_all
    then show ?thesis using assms(8) by (auto simp: isLeapYear_def)
  qed
  ultimately have r: "r = 3" by auto
  moreover have "q = 24 \<Longrightarrow> c = 3"
    using assms(1,8) r \<open>c = 0 \<or> c = 1 \<or> c = 2 \<or> c = 3\<close> by (auto simp: isLeapYear_def)
  ultimately show ?thesis by blast
qed

text \<open>The last day of a March-based year is day 364, or 365 when the following February is long.\<close>
definition doy_max :: "int \<Rightarrow> int" where
  "doy_max y = (if isLeapYear (y + 1) then 365 else 364)"

lemma yoe_recover:
  assumes y: "0 \<le> y" "y < 400" and d: "0 \<le> doy" "doy \<le> doy_max y"
  defines "doe \<equiv> yoe_start y + doy"
  shows "(doe - doe div 1460 + doe div 36524 - doe div 146096) div 365 = y"
    and "0 \<le> doe" and "doe < 146097"
proof -
  obtain c q r where dec: "y = 100 * c + 4 * q + r" "0 \<le> c" "c \<le> 3" "0 \<le> q" "q \<le> 24" "0 \<le> r" "r \<le> 3"
    "y div 4 = 25 * c + q" "y div 100 = c"
    using yoe_decomp[OF y] by metis
  have doe: "doe = 36524 * c + 1461 * q + 365 * r + doy"
    unfolding doe_def yoe_start_def dec(8,9) using dec(1) by simp
  have leap: "doy = 365 \<Longrightarrow> r = 3 \<and> (q = 24 \<longrightarrow> c = 3)"
    using d leap_in_decomp[OF dec(1-7)] by (auto simp: doy_max_def split: if_splits)
  have dle: "doy \<le> 365" using d by (auto simp: doy_max_def split: if_splits)
  show "0 \<le> doe" using doe dec d by linarith
  show lt: "doe < 146097" using doe dec dle by linarith
  let ?e = "if 1460 \<le> 24 * c + q + 365 * r + doy then 1 else 0 :: int"
  have a: "doe div 1460 = 25 * c + q + ?e"
  proof -
    have "24 * c + q + 365 * r + doy < 2920" using dec dle by linarith
    moreover have "0 \<le> 24 * c + q + 365 * r + doy" using dec d by linarith
    moreover have "doe = 1460 * (25 * c + q) + (24 * c + q + 365 * r + doy)" using doe by simp
    ultimately show ?thesis
      by (intro int_div_pos_eq[where r = "24 * c + q + 365 * r + doy - 1460 * ?e"])
        (auto split: if_splits)
  qed
  have b: "doe div 36524 - doe div 146096 = c"
  proof (cases "doe = 146096")
    case True
    then have "c = 3" using doe dec(2-7) dle by linarith
    then show ?thesis using True by simp
  next
    case False
    have "1461 * q + 365 * r + doy < 36524"
    proof (cases "doy = 365")
      case True
      then have "r = 3" "q = 24 \<longrightarrow> c = 3" using leap by auto
      then show ?thesis using True False doe dec(2-7) by (cases "q = 24") auto
    next
      case False
      then show ?thesis using dle dec(2-7) by linarith
    qed
    moreover have "0 \<le> 1461 * q + 365 * r + doy" using dec d by linarith
    ultimately have "doe div 36524 = c"
      using doe by (intro int_div_pos_eq[where r = "1461 * q + 365 * r + doy"]) auto
    moreover have "doe div 146096 = 0"
      using False lt \<open>0 \<le> doe\<close> by (intro div_pos_pos_trivial) auto
    ultimately show ?thesis by simp
  qed
  have sum: "doe - A + B - C = 365 * y + (doy - E)"
    if "A = 25 * c + q + E" "B - C = c" for A B C E
    using that doe dec(1) by linarith
  have "0 \<le> doy - ?e \<and> doy - ?e < 365"
    using dec(2-7) d(1) dle leap by (cases "doy = 365") (auto split: if_splits)
  then show "(doe - doe div 1460 + doe div 36524 - doe div 146096) div 365 = y"
    by (intro int_div_pos_eq[OF sum[OF a b]]) auto
qed

lemma two_steps:
  "a' = a + (if P then 1 else 0) \<Longrightarrow> b' = b + (if Q then 1 else 0) \<Longrightarrow> (Q \<Longrightarrow> P) \<Longrightarrow>
     a' - b' = a - b + (if P \<and> \<not> Q then 1 else (0::int))"
  by auto

lemma year_step: "365 * (y + 1) + a - b - (365 * y + c - d) = 365 + ((a - b) - (c - (d::int)))"
  by simp

lemma step_sum:
  "m = (if P then 365 else 364) \<Longrightarrow> u = v + (if P then 1 else 0) \<Longrightarrow> x - y = 365 + (u - v) \<Longrightarrow>
     x = y + m + (1::int)"
  by (auto split: if_splits)

lemma yoe_start_next:
  assumes "0 \<le> y" "y + 1 < 400"
  shows "yoe_start (y + 1) = yoe_start y + doy_max y + 1"
proof -
  have step: "(y + 1) div k = y div k + (if (y + 1) mod k = 0 then 1 else 0)" if "0 < k" for k :: int
  proof (cases "(y + 1) mod k = 0")
    case True
    then obtain j where "y + 1 = k * j" by (auto simp: mod_eq_0_iff_dvd)
    then have "y = k * (j - 1) + (k - 1)" by (simp add: algebra_simps)
    then have "y div k = j - 1" using that by (intro int_div_pos_eq[where r = "k - 1"]) auto
    then show ?thesis using True \<open>y + 1 = k * j\<close> that by simp
  next
    case False
    have "y + 1 = k * ((y + 1) div k) + (y + 1) mod k" by simp
    then have "y = k * ((y + 1) div k) + ((y + 1) mod k - 1)" by linarith
    moreover have "0 \<le> (y + 1) mod k" "(y + 1) mod k < k" using that by auto
    ultimately have "y div k = (y + 1) div k"
      using False by (intro int_div_pos_eq[where r = "(y + 1) mod k - 1"]) auto
    then show ?thesis using False by simp
  qed
  have "(y + 1) mod 400 = y + 1" using assms by (intro mod_pos_pos_trivial) auto
  then have n400: "(y + 1) mod 400 \<noteq> 0" using assms by linarith
  have c4: "(y + 1) mod 100 = 0 \<Longrightarrow> (y + 1) mod 4 = 0"
    by (rule mod_0_trans[of 4 100]) simp_all
  have "doy_max y = (if (y + 1) mod 4 = 0 \<and> (y + 1) mod 100 \<noteq> 0 then 365 else 364)"
    using n400 by (simp add: doy_max_def isLeapYear_def)
  moreover have "(y + 1) div 4 - (y + 1) div 100 =
      y div 4 - y div 100 + (if (y + 1) mod 4 = 0 \<and> (y + 1) mod 100 \<noteq> 0 then 1 else 0)"
    by (rule two_steps[OF step step c4]) simp_all
  moreover have "yoe_start (y + 1) - yoe_start y =
      365 + (((y + 1) div 4 - (y + 1) div 100) - (y div 4 - y div 100))"
    unfolding yoe_start_def by (rule year_step)
  ultimately show ?thesis by (rule step_sum)
qed

lemma yoe_exists:
  fixes doe :: int
  assumes "0 \<le> doe" "doe < 146097"
  shows "\<exists>y. 0 \<le> y \<and> y < 400 \<and> yoe_start y \<le> doe \<and> doe \<le> yoe_start y + doy_max y"
proof -
  have "n \<le> 399 \<Longrightarrow> doe \<le> yoe_start (int n) + doy_max (int n) \<Longrightarrow> ?thesis" for n
  proof (induction n)
    case 0
    then show ?case using assms by (intro exI[of _ 0]) (auto simp: yoe_start_def)
  next
    case (Suc n)
    show ?case
    proof (cases "yoe_start (int (Suc n)) \<le> doe")
      case True
      then show ?thesis using Suc.prems by (intro exI[of _ "int (Suc n)"]) auto
    next
      case False
      then have "doe \<le> yoe_start (int n) + doy_max (int n)"
        using yoe_start_next[of "int n"] Suc.prems by (simp add: add.commute)
      then show ?thesis using Suc by simp
    qed
  qed
  from this[of 399] show ?thesis using assms by (simp add: yoe_start_def doy_max_def isLeapYear_def)
qed

lemma div_numeral_eq: "(q::int) * k \<le> x \<Longrightarrow> x < (q + 1) * k \<Longrightarrow> 0 < k \<Longrightarrow> x div k = q"
  by (rule int_div_pos_eq[where r = "x - q * k"]) (auto simp: algebra_simps)

lemma leap_march: "isLeapYear ((y + 400 * e) + 1) = isLeapYear (y + 1)"
proof -
  have "y + 400 * e + 1 = (y + 1) + 400 * e" "y + 400 * e + 1 = (y + 1) + 100 * (4 * e)"
    "y + 400 * e + 1 = (y + 1) + 4 * (100 * e)" by simp_all
  then show ?thesis unfolding isLeapYear_def by (metis mod_mult_self2)
qed

lemma month_cases:
  "1 \<le> (m::int) \<Longrightarrow> m \<le> 12 \<Longrightarrow>
     m = 1 \<or> m = 2 \<or> m = 3 \<or> m = 4 \<or> m = 5 \<or> m = 6 \<or> m = 7 \<or> m = 8 \<or> m = 9 \<or> m = 10 \<or> m = 11 \<or> m = 12"
  by arith

lemma month_recover:
  assumes "valid_civil y m d"
  defines "mm \<equiv> march_month m"
  defines "doy \<equiv> (153 * mm + 2) div 5 + d - 1"
  shows "(5 * doy + 2) div 153 = mm" "0 \<le> doy" "doy \<le> doy_max (march_year y m)"
proof -
  have d: "1 \<le> d" "d \<le> daysInMonth y m" and
    m: "m = 1 \<or> m = 2 \<or> m = 3 \<or> m = 4 \<or> m = 5 \<or> m = 6 \<or> m = 7 \<or> m = 8 \<or> m = 9 \<or> m = 10 \<or> m = 11 \<or> m = 12"
    using assms(1) month_cases unfolding valid_civil_def by blast+
  show "(5 * doy + 2) div 153 = mm"
    by (rule div_numeral_eq)
      (use m d in \<open>auto simp: doy_def mm_def march_month_def daysInMonth_def split: if_splits\<close>)
  show "0 \<le> doy" using m d by (auto simp: doy_def mm_def march_month_def)
  show "doy \<le> doy_max (march_year y m)"
    using m d by (auto simp: doy_def mm_def march_month_def march_year_def doy_max_def daysInMonth_def
        split: if_splits)
qed


lemma era_split:
  "0 \<le> r \<Longrightarrow> r < (k::int) \<Longrightarrow> (e * k + r) div k = e \<and> (e * k + r) - e * k = r"
  by (auto intro!: int_div_pos_eq)

lemma civil_to_days_march:
  "civil_to_days y m d =
     (march_year y m div 400) * 146097 +
     (yoe_start (march_year y m mod 400) + ((153 * march_month m + 2) div 5 + d - 1)) - 719468"
proof -
  have "x - x div 400 * 400 = x mod 400" for x :: int by (simp add: minus_div_mult_eq_mod)
  then show ?thesis
    unfolding civil_to_days_def march_year_def march_month_def yoe_start_def Let_def by simp
qed

lemma doy_max_mod: "doy_max (y mod 400) = doy_max y"
proof -
  have "y = y mod 400 + 400 * (y div 400)" by simp
  then show ?thesis using leap_march[of "y mod 400" "y div 400"] by (simp add: doy_max_def)
qed

lemma era_bounds:
  assumes "0 \<le> doy" "doy \<le> doy_max y"
  shows "0 \<le> yoe_start (y mod 400) + doy" "yoe_start (y mod 400) + doy < 146097"
  by (rule yoe_recover(2,3)[of "y mod 400" doy, unfolded doy_max_mod, OF _ _ assms]; simp)+

lemma days_to_civil_march:
  assumes "0 \<le> doy" "doy \<le> doy_max y" "mp = (5 * doy + 2) div 153"
  shows "days_to_civil ((y div 400) * 146097 + (yoe_start (y mod 400) + doy) - 719468) =
    (let m = mp + (if mp < 10 then 3 else - 9)
     in (if m \<le> 2 then y + 1 else y, m, doy - (153 * mp + 2) div 5 + 1))"
proof -
  let ?doe = "yoe_start (y mod 400) + doy"
  have b: "0 \<le> ?doe" "?doe < 146097" using era_bounds[OF assms(1,2)] .
  have e: "((y div 400) * 146097 + ?doe) div 146097 = y div 400"
    "(y div 400) * 146097 + ?doe - (y div 400) * 146097 = ?doe"
    using era_split[OF b, of "y div 400"] by (rule conjunct1, rule conjunct2)
  have r: "(?doe - ?doe div 1460 + ?doe div 36524 - ?doe div 146096) div 365 = y mod 400"
    by (rule yoe_recover(1)[of "y mod 400" doy, unfolded doy_max_mod, OF _ _ assms(1,2)]; simp)
  have s: "365 * (y mod 400) + y mod 400 div 4 - y mod 400 div 100 = yoe_start (y mod 400)"
    by (simp only: yoe_start_def)
  have z: "(y div 400) * 146097 + ?doe - 719468 + 719468 = (y div 400) * 146097 + ?doe"
    by (rule diff_add_cancel)
  have y: "y mod 400 + y div 400 * 400 = y" by (rule mod_div_mult_eq)
  show ?thesis
    unfolding days_to_civil_def z Let_def e r s y add_diff_cancel_left' assms(3)[symmetric] ..
qed


lemma march_month_inv:
  assumes "valid_civil y m d"
  shows "march_month m + (if march_month m < 10 then 3 else - 9) = m"
    "(if m \<le> 2 then march_year y m + 1 else march_year y m) = y"
  using assms by (auto simp: march_month_def march_year_def valid_civil_def)

lemma days_to_civil_inverse:
  assumes v: "valid_civil y m d"
  shows "days_to_civil (civil_to_days y m d) = (y, m, d)"
  unfolding civil_to_days_march
    days_to_civil_march[OF month_recover(2,3)[OF v] month_recover(1)[OF v, symmetric]]
    march_month_inv(1)[OF v] Let_def march_month_inv(2)[OF v]
  by simp

lemma month_exists:
  assumes "0 \<le> doy" "doy \<le> doy_max y"
  shows "\<exists>yr m d. valid_civil yr m d \<and> march_year yr m = y \<and>
    (153 * march_month m + 2) div 5 + d - 1 = doy"
proof -
  have late: ?thesis if "3 \<le> m" "m \<le> 12" "(153 * (m - 3) + 2) div 5 \<le> doy"
    "doy < (153 * (m - 3) + 2) div 5 + daysInMonth y m" for m
    by (rule exI[of _ y], rule exI[of _ m],
        rule exI[of _ "doy - (153 * (m - 3) + 2) div 5 + 1"])
      (use that in \<open>simp add: valid_civil_def march_month_def march_year_def\<close>)
  have early: ?thesis if "m = 1 \<or> m = 2" "(153 * (m + 9) + 2) div 5 \<le> doy"
    "doy < (153 * (m + 9) + 2) div 5 + daysInMonth (y + 1) m" for m
    by (rule exI[of _ "y + 1"], rule exI[of _ m],
        rule exI[of _ "doy - (153 * (m + 9) + 2) div 5 + 1"])
      (use that in \<open>auto simp: valid_civil_def march_month_def march_year_def\<close>)
  have len: "daysInMonth y m = 31" if "m \<in> {1, 3, 5, 7, 8, 10, 12}" for y m
    using that by (auto simp: daysInMonth_def)
  have len': "daysInMonth y m = 30" if "m \<in> {4, 6, 9, 11}" for y m
    using that by (auto simp: daysInMonth_def)
  consider "doy < 31" | "31 \<le> doy" "doy < 61" | "61 \<le> doy" "doy < 92" | "92 \<le> doy" "doy < 122"
    | "122 \<le> doy" "doy < 153" | "153 \<le> doy" "doy < 184" | "184 \<le> doy" "doy < 214"
    | "214 \<le> doy" "doy < 245" | "245 \<le> doy" "doy < 275" | "275 \<le> doy" "doy < 306"
    | "306 \<le> doy" "doy < 337" | "337 \<le> doy" by linarith
  then show ?thesis
  proof cases
    case 1 then show ?thesis using late[of 3] assms by (simp add: len)
  next
    case 2 then show ?thesis using late[of 4] by (simp add: len')
  next
    case 3 then show ?thesis using late[of 5] by (simp add: len)
  next
    case 4 then show ?thesis using late[of 6] by (simp add: len')
  next
    case 5 then show ?thesis using late[of 7] by (simp add: len)
  next
    case 6 then show ?thesis using late[of 8] by (simp add: len)
  next
    case 7 then show ?thesis using late[of 9] by (simp add: len')
  next
    case 8 then show ?thesis using late[of 10] by (simp add: len)
  next
    case 9 then show ?thesis using late[of 11] by (simp add: len')
  next
    case 10 then show ?thesis using late[of 12] by (simp add: len)
  next
    case 11 then show ?thesis using early[of 1] by (simp add: len)
  next
    case 12 then show ?thesis
      using early[of 2] assms(2) by (simp add: daysInMonth_def doy_max_def split: if_splits)
  qed
qed

lemma civil_exists: "\<exists>y m d. valid_civil y m d \<and> civil_to_days y m d = n"
proof -
  define z where "z = n + 719468"
  obtain yoe where yoe: "0 \<le> yoe" "yoe < 400" "yoe_start yoe \<le> z mod 146097"
    "z mod 146097 \<le> yoe_start yoe + doy_max yoe"
    using yoe_exists[of "z mod 146097"] by auto
  let ?y = "yoe + 400 * (z div 146097)"
  have ym: "?y mod 400 = yoe" "?y div 400 = z div 146097" using yoe(1,2) by simp_all
  have dm: "doy_max ?y = doy_max yoe" by (simp only: doy_max_def leap_march)
  obtain yr m d where v: "valid_civil yr m d" "march_year yr m = ?y"
    "(153 * march_month m + 2) div 5 + d - 1 = z mod 146097 - yoe_start yoe"
    using month_exists[of "z mod 146097 - yoe_start yoe" ?y] yoe dm by auto
  have "civil_to_days yr m d = (z div 146097) * 146097 + (yoe_start yoe + (z mod 146097 - yoe_start yoe)) - 719468"
    unfolding civil_to_days_march v ym ..
  also have "\<dots> = z - 719468" by simp
  finally show ?thesis using v(1) by (auto simp: z_def)
qed

lemma civil_to_days_inverse:
  assumes "days_to_civil n = (y, m, d)"
  shows "valid_civil y m d \<and> civil_to_days y m d = n"
  using civil_exists[of n] days_to_civil_inverse assms by auto

text \<open>The order of the day numbers is the lexicographic order of the triples.\<close>

definition march_year_start :: "int \<Rightarrow> int" where
  "march_year_start y = (y div 400) * 146097 + yoe_start (y mod 400) - 719468"

definition march_doy :: "int \<Rightarrow> int \<Rightarrow> int" where
  "march_doy m d = (153 * march_month m + 2) div 5 + d - 1"

lemma civil_to_days_split: "civil_to_days y m d = march_year_start (march_year y m) + march_doy m d"
  by (simp only: civil_to_days_march march_year_start_def march_doy_def)

lemma march_year_start_next: "march_year_start (y + 1) = march_year_start y + doy_max y + 1"
proof (cases "y mod 400 = 399")
  case True
  have "y + 1 = 400 * (y div 400 + 1)"
    using True mult_div_mod_eq[of 400 y] by (simp add: algebra_simps)
  then obtain e where e: "y + 1 = 400 * e" "e = y div 400 + 1" by blast
  have "(y + 1) mod 400 = 0" "(y + 1) div 400 = y div 400 + 1"
    unfolding e(1) using e(2) by simp_all
  moreover have "doy_max y = 365" using True doy_max_mod[of y] by (simp add: doy_max_def isLeapYear_def)
  ultimately show ?thesis using True by (simp add: march_year_start_def yoe_start_def)
next
  case False
  have b: "0 \<le> y mod 400" "y mod 400 < 400" by simp_all
  then have "y mod 400 + 1 < 400" using False by linarith
  have "y + 1 = 400 * (y div 400) + (y mod 400 + 1)" by simp
  then have "(y + 1) div 400 = y div 400"
    using b \<open>y mod 400 + 1 < 400\<close> by (intro int_div_pos_eq[where r = "y mod 400 + 1"]) auto
  moreover have "(y + 1) mod 400 = y mod 400 + 1"
    using \<open>y + 1 = _\<close> b \<open>y mod 400 + 1 < 400\<close> by (intro int_mod_pos_eq[where q = "y div 400"]) auto
  moreover have "yoe_start (y mod 400 + 1) = yoe_start (y mod 400) + doy_max y + 1"
    using yoe_start_next[of "y mod 400"] b \<open>y mod 400 + 1 < 400\<close> by (simp only: doy_max_mod)
  ultimately show ?thesis by (simp add: march_year_start_def)
qed

lemma doy_max_pos: "0 < doy_max y"
  by (simp add: doy_max_def)

lemma march_year_start_later:
  "march_year_start y + doy_max y + 1 \<le> march_year_start (y + 1 + int k)"
proof (induction k)
  case 0
  then show ?case using march_year_start_next[of y] by simp
next
  case (Suc k)
  have "march_year_start (y + 1 + int (Suc k)) = march_year_start (y + 1 + int k + 1)"
    by (simp add: algebra_simps)
  then show ?case using Suc doy_max_pos[of "y + 1 + int k"] march_year_start_next[of "y + 1 + int k"]
    by linarith
qed

lemma march_doy_mono:
  assumes "valid_civil y m d" "valid_civil y' m' d'"
    and "march_month m < march_month m' \<or> march_month m = march_month m' \<and> d < d'"
  shows "march_doy m d < march_doy m' d'"
proof (cases "march_month m = march_month m'")
  case True
  then show ?thesis using assms(3) by (simp add: march_doy_def)
next
  case False
  then have "march_month m < march_month m'" using assms(3) by blast
  moreover have "(5 * march_doy m d + 2) div 153 = march_month m"
    "(5 * march_doy m' d' + 2) div 153 = march_month m'"
    using month_recover(1) assms(1,2) by (simp_all add: march_doy_def)
  moreover have "(5 * b + 2) div 153 \<le> (5 * a + 2) div 153" if "b \<le> a" for a b :: int
    using that by (intro zdiv_mono1) auto
  ultimately show ?thesis by (metis not_less)
qed

lemma civil_to_days_mono:
  assumes v: "valid_civil y m d" "valid_civil y' m' d'" and lt: "(y, m, d) < (y', m', d')"
  shows "civil_to_days y m d < civil_to_days y' m' d'"
proof -
  have "march_year y m < march_year y' m' \<or> march_year y m = march_year y' m' \<and>
    (march_month m < march_month m' \<or> march_month m = march_month m' \<and> d < d')"
    using lt v by (auto simp: march_year_def march_month_def less_prod_def valid_civil_def)
  then show ?thesis
  proof
    assume "march_year y m < march_year y' m'"
    then obtain k where k: "march_year y' m' = march_year y m + 1 + int k"
      by (metis add.assoc add.commute zless_iff_Suc_zadd of_nat_Suc)
    have "march_doy m d \<le> doy_max (march_year y m)" "0 \<le> march_doy m' d'"
      using month_recover(2,3) v unfolding march_doy_def by blast+
    then show ?thesis
      using march_year_start_later[of "march_year y m" k] k by (simp add: civil_to_days_split)
  next
    assume "march_year y m = march_year y' m' \<and>
      (march_month m < march_month m' \<or> march_month m = march_month m' \<and> d < d')"
    then show ?thesis using march_doy_mono[OF v] by (simp add: civil_to_days_split)
  qed
qed

lemma civil_to_days_less_iff:
  assumes v: "valid_civil y m d" "valid_civil y' m' d'"
  shows "civil_to_days y m d < civil_to_days y' m' d' \<longleftrightarrow> (y, m, d) < (y', m', d')"
proof (cases "(y, m, d) = (y', m', d')")
  case False
  then have "(y, m, d) < (y', m', d') \<or> (y', m', d') < (y, m, d)" by (simp only: neq_iff)
  then show ?thesis
    using civil_to_days_mono[OF v] civil_to_days_mono[OF v(2,1)] by (metis less_asym)
qed simp

lemma days_to_civil_less_iff:
  "days_to_civil a < days_to_civil b \<longleftrightarrow> a < b"
  using civil_to_days_inverse civil_to_days_less_iff by (metis prod_cases3)



section \<open>Dates as strings\<close>

record CalendarParts =
  cal_year :: int
  cal_month :: int
  cal_day :: int

definition MIN_CALENDAR_YEAR :: int where "MIN_CALENDAR_YEAR = 1"
definition MAX_CALENDAR_YEAR :: int where "MAX_CALENDAR_YEAR = 9999"

text \<open>The three groups of \<open>/^(\d{4})-(\d{2})-(\d{2})$/\<close>.\<close>
definition SHAPE :: "string \<Rightarrow> (string \<times> string \<times> string) option" where
  "SHAPE s =
     (if length s = 10 \<and> s ! 4 = CHR ''-'' \<and> s ! 7 = CHR ''-'' \<and>
         list_all is_digit (take 4 s) \<and> list_all is_digit (take 2 (drop 5 s)) \<and>
         list_all is_digit (drop 8 s)
      then Some (take 4 s, take 2 (drop 5 s), drop 8 s) else None)"

definition parseCalendarDate :: "string \<Rightarrow> CalendarParts option" where
  "parseCalendarDate value =
     (case SHAPE value of
        None \<Rightarrow> None
      | Some (ys, ms, ds) \<Rightarrow>
          (let y = number_of_digits ys; m = number_of_digits ms; d = number_of_digits ds in
           if y < MIN_CALENDAR_YEAR \<or> y > MAX_CALENDAR_YEAR then None
           else if m < 1 \<or> m > 12 then None
           else if d < 1 \<or> d > daysInMonth y m then None
           else Some \<lparr>cal_year = y, cal_month = m, cal_day = d\<rparr>))"

definition isCalendarDate :: "string \<Rightarrow> bool" where
  "isCalendarDate value \<longleftrightarrow> parseCalendarDate value \<noteq> None"

definition formatCalendarDate :: "CalendarParts \<Rightarrow> string" where
  "formatCalendarDate p =
     pad_start 4 (string_of_int (cal_year p)) @ ''-'' @
     pad_start 2 (string_of_int (cal_month p)) @ ''-'' @
     pad_start 2 (string_of_int (cal_day p))"

definition assertCalendarDate :: "string \<Rightarrow> CalendarParts result" where
  "assertCalendarDate value =
     (case parseCalendarDate value of
        None \<Rightarrow> Inl (InvalidCalendarDateError value)
      | Some parts \<Rightarrow> Inr parts)"

definition daysFromEpoch :: "string \<Rightarrow> int result" where
  "daysFromEpoch date =
     (case assertCalendarDate date of
        Inl e \<Rightarrow> Inl e
      | Inr p \<Rightarrow> Inr (civil_to_days (cal_year p) (cal_month p) (cal_day p)))"

definition dateFromEpochDays :: "int \<Rightarrow> string" where
  "dateFromEpochDays days =
     (case days_to_civil days of
        (y, m, d) \<Rightarrow> formatCalendarDate \<lparr>cal_year = y, cal_month = m, cal_day = d\<rparr>)"

definition addDays :: "string \<Rightarrow> int \<Rightarrow> string result" where
  "addDays date delta =
     (case daysFromEpoch date of Inl e \<Rightarrow> Inl e | Inr n \<Rightarrow> Inr (dateFromEpochDays (n + delta)))"

definition daysBetween :: "string \<Rightarrow> string \<Rightarrow> int result" where
  "daysBetween fromD toD =
     (case daysFromEpoch toD of
        Inl e \<Rightarrow> Inl e
      | Inr b \<Rightarrow> (case daysFromEpoch fromD of Inl e \<Rightarrow> Inl e | Inr a \<Rightarrow> Inr (b - a)))"

definition inclusiveDayCount :: "string \<Rightarrow> string \<Rightarrow> int result" where
  "inclusiveDayCount start endD =
     (case daysBetween start endD of Inl e \<Rightarrow> Inl e | Inr n \<Rightarrow> Inr (n + 1))"

definition compareCalendarDates :: "string \<Rightarrow> string \<Rightarrow> int" where
  "compareCalendarDates a b = (if a < b then - 1 else if a > b then 1 else 0)"

definition isWithinDateRange :: "string \<Rightarrow> string \<Rightarrow> string \<Rightarrow> bool" where
  "isWithinDateRange date start endD \<longleftrightarrow> date \<ge> start \<and> date \<le> endD"

text \<open>JavaScript's \<open>%\<close> takes the sign of the dividend.\<close>
definition js_rem :: "int \<Rightarrow> int \<Rightarrow> int" where
  "js_rem a b = sgn a * (\<bar>a\<bar> mod \<bar>b\<bar>)"

definition dayOfWeek :: "string \<Rightarrow> int result" where
  "dayOfWeek date =
     (case daysFromEpoch date of
        Inl e \<Rightarrow> Inl e
      | Inr n \<Rightarrow> Inr (js_rem (js_rem (n + 4) 7 + 7) 7))"

function days_loop :: "int \<Rightarrow> int \<Rightarrow> string list" where
  "days_loop d lastN =
     (if d \<le> lastN then dateFromEpochDays d # days_loop (d + 1) lastN else [])"
  by auto
termination by (relation "measure (\<lambda>(d, lastN). nat (lastN + 1 - d))") auto

declare days_loop.simps [simp del]

definition datesInRange :: "string \<Rightarrow> string \<Rightarrow> string list result" where
  "datesInRange start endD =
     (case daysFromEpoch start of
        Inl e \<Rightarrow> Inl e
      | Inr first \<Rightarrow>
          (case daysFromEpoch endD of Inl e \<Rightarrow> Inl e | Inr lastN \<Rightarrow> Inr (days_loop first lastN)))"

subsection \<open>The string form and the triple\<close>

lemma nth_split: "length s = 10 \<Longrightarrow>
   s = take 4 s @ s ! 4 # take 2 (drop 5 s) @ s ! 7 # drop 8 s"
  by (rule nth_equalityI) (auto simp: nth_append nth_Cons' less_Suc_eq numeral_eq_Suc)

lemma SHAPE_Some:
  "SHAPE s = Some (a, b, c) \<longleftrightarrow>
     s = a @ ''-'' @ b @ ''-'' @ c \<and> length a = 4 \<and> length b = 2 \<and> length c = 2 \<and>
     list_all is_digit a \<and> list_all is_digit b \<and> list_all is_digit c"
  (is "?l \<longleftrightarrow> ?r")
proof
  assume ?l
  then have "length s = 10" and *: "s ! 4 = CHR ''-''" "s ! 7 = CHR ''-''" "a = take 4 s"
    "b = take 2 (drop 5 s)" "c = drop 8 s" "list_all is_digit a" "list_all is_digit b" "list_all is_digit c"
    by (auto simp: SHAPE_def split: if_splits)
  then show ?r using nth_split[of s] by simp
next
  assume ?r
  then show ?l by (auto simp: SHAPE_def nth_append)
qed

lemma daysInMonth_le: "daysInMonth y m \<le> 31"
  by (simp add: daysInMonth_def)

definition valid_parts :: "CalendarParts \<Rightarrow> bool" where
  "valid_parts p \<longleftrightarrow> 1 \<le> cal_year p \<and> cal_year p \<le> 9999 \<and> valid_civil (cal_year p) (cal_month p) (cal_day p)"

lemma parse_valid: "parseCalendarDate s = Some p \<Longrightarrow> valid_parts p"
  by (auto simp: parseCalendarDate_def Let_def valid_parts_def valid_civil_def MIN_CALENDAR_YEAR_def
      MAX_CALENDAR_YEAR_def split: option.splits if_splits)

lemma pad_int:
  assumes "0 \<le> i" "i < 10 ^ Suc w"
  shows "length (pad_start (Suc w) (string_of_int i)) = Suc w"
    and "list_all is_digit (pad_start (Suc w) (string_of_int i))"
    and "number_of_digits (pad_start (Suc w) (string_of_int i)) = i"
proof -
  have "nat i < 10 ^ Suc w" using assms by (simp add: nat_less_iff)
  from pad_start_props[OF this] show "length (pad_start (Suc w) (string_of_int i)) = Suc w"
    "list_all is_digit (pad_start (Suc w) (string_of_int i))"
    "number_of_digits (pad_start (Suc w) (string_of_int i)) = i"
    using assms by (simp_all add: string_of_int_def)
qed

lemma parse_format:
  assumes "valid_parts p"
  shows "parseCalendarDate (formatCalendarDate p) = Some p"
proof -
  have b: "0 \<le> cal_year p" "cal_year p < 10 ^ Suc 3" "0 \<le> cal_month p" "cal_month p < 10 ^ Suc 1"
    "0 \<le> cal_day p" "cal_day p < 10 ^ Suc 1"
    using assms daysInMonth_le[of "cal_year p" "cal_month p"] by (auto simp: valid_parts_def valid_civil_def)
  note y = pad_int[OF b(1,2)] and m = pad_int[OF b(3,4)] and d = pad_int[OF b(5,6)]
  have n: "Suc 3 = 4" "Suc 1 = 2" by simp_all
  have "SHAPE (formatCalendarDate p) = Some (pad_start 4 (string_of_int (cal_year p)),
      pad_start 2 (string_of_int (cal_month p)), pad_start 2 (string_of_int (cal_day p)))"
    unfolding SHAPE_Some formatCalendarDate_def using y m d unfolding n by simp
  then show ?thesis
    using assms y(3) m(3) d(3) unfolding n
    by (simp add: parseCalendarDate_def Let_def valid_parts_def valid_civil_def MIN_CALENDAR_YEAR_def
        MAX_CALENDAR_YEAR_def)
qed

lemma pad_of_digits:
  assumes "list_all is_digit s" "length s = Suc w"
  shows "pad_start (Suc w) (string_of_int (number_of_digits s)) = s"
  using pad_start_of_digits[OF assms] number_of_digits_bounds[OF assms(1)]
  by (simp add: string_of_int_def)

lemma parse_SHAPE:
  assumes "parseCalendarDate s = Some p"
  shows "\<exists>a b c. SHAPE s = Some (a, b, c) \<and> cal_year p = number_of_digits a \<and>
     cal_month p = number_of_digits b \<and> cal_day p = number_of_digits c"
  using assms by (auto simp: parseCalendarDate_def Let_def split: option.splits if_splits)

lemma format_parse:
  assumes "parseCalendarDate s = Some p"
  shows "formatCalendarDate p = s"
proof -
  obtain a b c where *: "SHAPE s = Some (a, b, c)" "cal_year p = number_of_digits a"
     "cal_month p = number_of_digits b" "cal_day p = number_of_digits c"
    using parse_SHAPE[OF assms] by blast
  then have "length a = Suc 3" "length b = Suc 1" "length c = Suc 1" "list_all is_digit a"
    "list_all is_digit b" "list_all is_digit c" and s: "s = a @ ''-'' @ b @ ''-'' @ c"
    by (auto simp: SHAPE_Some)
  then have "pad_start 4 (string_of_int (cal_year p)) = a" "pad_start 2 (string_of_int (cal_month p)) = b"
    "pad_start 2 (string_of_int (cal_day p)) = c"
    using pad_of_digits[of a 3] pad_of_digits[of b 1] pad_of_digits[of c 1] *
    by (simp_all add: numeral_2_eq_2)
  then show ?thesis using s by (simp add: formatCalendarDate_def)
qed

lemma parse_less_iff:
  assumes "parseCalendarDate s = Some p" "parseCalendarDate t = Some q"
  shows "s < t \<longleftrightarrow> (cal_year p, cal_month p, cal_day p) < (cal_year q, cal_month q, cal_day q)"
proof -
  obtain a b c where s: "SHAPE s = Some (a, b, c)" "cal_year p = number_of_digits a"
     "cal_month p = number_of_digits b" "cal_day p = number_of_digits c"
    using parse_SHAPE[OF assms(1)] by blast
  obtain a' b' c' where t: "SHAPE t = Some (a', b', c')" "cal_year q = number_of_digits a'"
     "cal_month q = number_of_digits b'" "cal_day q = number_of_digits c'"
    using parse_SHAPE[OF assms(2)] by blast
  from s(1) t(1) have len: "length a = length a'" "length b = length b'" "length c = length c'"
    and dg: "list_all is_digit a" "list_all is_digit b" "list_all is_digit c"
      "list_all is_digit a'" "list_all is_digit b'" "list_all is_digit c'"
    and st: "s = a @ ''-'' @ b @ ''-'' @ c" "t = a' @ ''-'' @ b' @ ''-'' @ c'"
    by (simp_all add: SHAPE_Some)
  have "s < t \<longleftrightarrow> a < a' \<or> a = a' \<and> (b < b' \<or> b = b' \<and> c < c')"
    unfolding st by (simp add: list_less_append_iff len)
  then show ?thesis
    unfolding s t less_prod_simp le_less
      digits_less_iff[OF len(1) dg(1,4)] digits_less_iff[OF len(2) dg(2,5)]
      digits_less_iff[OF len(3) dg(3,6)] digits_eq_iff[OF len(1) dg(1,4)] digits_eq_iff[OF len(2) dg(2,5)]
    by blast
qed


subsection \<open>Day numbers of date strings\<close>

definition first_day :: int where "first_day = - 719162"
definition last_day :: int where "last_day = 2932896"

lemma valid_days_range:
  assumes "valid_civil y m d"
  shows "1 \<le> y \<and> y \<le> 9999 \<longleftrightarrow>
    first_day \<le> civil_to_days y m d \<and> civil_to_days y m d \<le> last_day"
proof -
  have v: "valid_civil 1 1 1" "valid_civil 9999 12 31"
    and c: "civil_to_days 1 1 1 = first_day" "civil_to_days 9999 12 31 = last_day"
    by (simp_all add: valid_civil_def daysInMonth_def civil_to_days_def Let_def first_day_def last_day_def)
  have "first_day \<le> civil_to_days y m d \<longleftrightarrow> \<not> (y, m, d) < (1, 1, 1)"
    using civil_to_days_less_iff[OF assms v(1)] c(1) by linarith
  moreover have "civil_to_days y m d \<le> last_day \<longleftrightarrow> \<not> (9999, 12, 31) < (y, m, d)"
    using civil_to_days_less_iff[OF v(2) assms] c(2) by linarith
  ultimately show ?thesis
    using assms daysInMonth_le[of y m] unfolding less_prod_simp valid_civil_def by auto
qed

lemma daysFromEpoch_parse:
  "daysFromEpoch s = Inr n \<longleftrightarrow>
     (\<exists>p. parseCalendarDate s = Some p \<and> civil_to_days (cal_year p) (cal_month p) (cal_day p) = n)"
  by (simp add: daysFromEpoch_def assertCalendarDate_def split: option.split)

lemma daysFromEpoch_error:
  "\<not> isCalendarDate s \<Longrightarrow> daysFromEpoch s = Inl (InvalidCalendarDateError s)"
  by (simp add: daysFromEpoch_def assertCalendarDate_def isCalendarDate_def)

lemma isCalendarDate_days: "isCalendarDate s \<longleftrightarrow> (\<exists>n. daysFromEpoch s = Inr n)"
  by (auto simp: isCalendarDate_def daysFromEpoch_parse)

lemma days_bij:
  "daysFromEpoch s = Inr n \<longleftrightarrow> first_day \<le> n \<and> n \<le> last_day \<and> s = dateFromEpochDays n"
proof
  assume "daysFromEpoch s = Inr n"
  then obtain p where p: "parseCalendarDate s = Some p" "civil_to_days (cal_year p) (cal_month p) (cal_day p) = n"
    by (auto simp: daysFromEpoch_parse)
  have v: "valid_civil (cal_year p) (cal_month p) (cal_day p)" "1 \<le> cal_year p" "cal_year p \<le> 9999"
    using parse_valid[OF p(1)] by (simp_all add: valid_parts_def)
  have "days_to_civil n = (cal_year p, cal_month p, cal_day p)" using days_to_civil_inverse[OF v(1)] p(2) by simp
  then have "dateFromEpochDays n = s"
    using format_parse[OF p(1)] by (cases p) (simp add: dateFromEpochDays_def)
  then show "first_day \<le> n \<and> n \<le> last_day \<and> s = dateFromEpochDays n"
    using valid_days_range[OF v(1)] v(2,3) p(2) by simp
next
  assume r: "first_day \<le> n \<and> n \<le> last_day \<and> s = dateFromEpochDays n"
  obtain y m d where c: "days_to_civil n = (y, m, d)" by (cases "days_to_civil n") auto
  have v: "valid_civil y m d" "civil_to_days y m d = n" using civil_to_days_inverse[OF c] by auto
  then have "valid_parts \<lparr>cal_year = y, cal_month = m, cal_day = d\<rparr>"
    using valid_days_range[OF v(1)] r by (simp add: valid_parts_def)
  from parse_format[OF this] show "daysFromEpoch s = Inr n"
    using r c v(2) by (simp add: daysFromEpoch_parse dateFromEpochDays_def)
qed

lemma days_of_date: "first_day \<le> n \<Longrightarrow> n \<le> last_day \<Longrightarrow> daysFromEpoch (dateFromEpochDays n) = Inr n"
  by (simp add: days_bij)

lemma date_of_days: "daysFromEpoch s = Inr n \<Longrightarrow> dateFromEpochDays n = s"
  by (simp add: days_bij)

lemma days_less_iff:
  assumes "daysFromEpoch s = Inr a" "daysFromEpoch t = Inr b"
  shows "a < b \<longleftrightarrow> s < t"
proof -
  obtain p q where p: "parseCalendarDate s = Some p" "civil_to_days (cal_year p) (cal_month p) (cal_day p) = a"
    and q: "parseCalendarDate t = Some q" "civil_to_days (cal_year q) (cal_month q) (cal_day q) = b"
    using assms by (auto simp: daysFromEpoch_parse)
  have "valid_civil (cal_year p) (cal_month p) (cal_day p)" "valid_civil (cal_year q) (cal_month q) (cal_day q)"
    using parse_valid p(1) q(1) by (auto simp: valid_parts_def)
  from civil_to_days_less_iff[OF this] show ?thesis
    using parse_less_iff[OF p(1) q(1)] p(2) q(2) by simp
qed

lemma days_le_iff:
  "daysFromEpoch s = Inr a \<Longrightarrow> daysFromEpoch t = Inr b \<Longrightarrow> a \<le> b \<longleftrightarrow> s \<le> t"
  using days_less_iff[of t b s a] by (simp add: not_less[symmetric])

lemma days_eq_iff:
  "daysFromEpoch s = Inr a \<Longrightarrow> daysFromEpoch t = Inr b \<Longrightarrow> a = b \<longleftrightarrow> s = t"
  using date_of_days by (metis sum.inject(2))

lemma js_rem_nonneg: "0 \<le> a \<Longrightarrow> 0 < b \<Longrightarrow> js_rem a b = a mod b"
  by (cases "a = 0") (simp_all add: js_rem_def)

lemma js_rem_range: "0 < b \<Longrightarrow> - b < js_rem a b \<and> js_rem a b < b"
proof -
  assume b: "0 < b"
  have "0 \<le> x mod b" "x mod b < b" for x using b by simp_all
  then have "- b < - (x mod b)" "- (x mod b) < b" "- b < x mod b" "x mod b < b" for x
    using b by (smt (verit))+
  then show ?thesis using b by (cases "a = 0"; cases "a < 0") (simp_all add: js_rem_def)
qed

lemma js_rem_cong:
  assumes "0 < b"
  shows "js_rem a b mod b = a mod b"
proof (cases "a < 0")
  case True
  then have "js_rem a b = - ((- a) mod b)" using assms by (simp add: js_rem_def)
  then show ?thesis by (simp only: mod_minus_eq minus_minus)
next
  case False
  then show ?thesis using assms js_rem_nonneg[of a b] by simp
qed

lemma js_rem_7: "js_rem (js_rem a 7 + 7) 7 = a mod 7"
proof -
  have "0 \<le> js_rem a 7 + 7" using js_rem_range[of 7 a] by simp
  then have "js_rem (js_rem a 7 + 7) 7 = (js_rem a 7 + 7) mod 7" by (rule js_rem_nonneg) simp
  then show ?thesis using js_rem_cong[of 7 a] by (simp only: mod_add_self2)
qed

lemma days_loop_simps:
  "a \<le> b \<Longrightarrow> days_loop a b = dateFromEpochDays a # days_loop (a + 1) b"
  "b < a \<Longrightarrow> days_loop a b = []"
  by (subst days_loop.simps, simp)+

lemma days_loop_map: "days_loop a b = map dateFromEpochDays [a..b]"
proof (induction a b rule: days_loop.induct)
  case (1 a b)
  show ?case
  proof (cases "a \<le> b")
    case True
    then show ?thesis
      unfolding days_loop_simps(1)[OF True] upto_rec1[OF True] 1[OF True] by (simp only: list.map)
  next
    case False
    then show ?thesis using days_loop_simps(2)[of b a] by simp
  qed
qed

section \<open>Properties\<close>

text \<open>C38: the day number and the date string are inverse to each other: \<open>daysFromEpoch s\<close> returns
  \<open>n\<close> exactly when \<open>n\<close> is a day of the years 1 to 9999 and \<open>s\<close> is the string
  \<open>dateFromEpochDays n\<close> prints.\<close>
theorem epoch_day_bijection:
  "daysFromEpoch s = Inr n \<longleftrightarrow> - 719162 \<le> n \<and> n \<le> 2932896 \<and> s = dateFromEpochDays n"
  using days_bij[of s n] by (simp add: first_day_def last_day_def)

text \<open>On real dates the lexical comparison of the strings is the comparison of the days, in
  the comparator and in the range test.\<close>
theorem lexical_is_chronological:
  assumes "daysFromEpoch s = Inr a" "daysFromEpoch t = Inr b" "daysFromEpoch u = Inr c"
  shows "compareCalendarDates s t = sgn (a - b) \<and>
    (isWithinDateRange s t u \<longleftrightarrow> b \<le> a \<and> a \<le> c)"
  using days_less_iff[OF assms(1,2)] days_less_iff[OF assms(2,1)] days_eq_iff[OF assms(1,2)]
    days_le_iff[OF assms(2,1)] days_le_iff[OF assms(1,3)]
  by (auto simp: compareCalendarDates_def isWithinDateRange_def sgn_if)

lemma lexical_is_chronological_witness:
  "compareCalendarDates ''2024-02-29'' ''2024-03-01'' = - 1 \<and>
   isWithinDateRange ''2024-02-29'' ''2024-03-01'' ''2024-03-02'' = False"
proof -
  have d: "daysFromEpoch ''2024-02-29'' = Inr 19782" "daysFromEpoch ''2024-03-01'' = Inr 19783"
    "daysFromEpoch ''2024-03-02'' = Inr 19784" by code_simp+
  show ?thesis using lexical_is_chronological[OF d] by simp
qed

text \<open>\<open>datesInRange\<close> of two real dates is the ascending list of exactly the real dates between
  them, both ends included, and \<open>inclusiveDayCount\<close> is its length when the range is not reversed.\<close>
theorem datesInRange_exact:
  assumes "daysFromEpoch s = Inr a" "daysFromEpoch t = Inr b"
  shows "\<exists>ds. datesInRange s t = Inr ds \<and> sorted_wrt (<) ds \<and>
    (\<forall>x. x \<in> set ds \<longleftrightarrow> isCalendarDate x \<and> s \<le> x \<and> x \<le> t) \<and>
    inclusiveDayCount s t = Inr (if a \<le> b then int (length ds) else b - a + 1)"
proof (intro exI[of _ "days_loop a b"] conjI allI)
  have ab: "first_day \<le> a" "b \<le> last_day" using assms by (simp_all add: days_bij)
  have inr: "daysFromEpoch (dateFromEpochDays n) = Inr n" if "n \<in> {a..b}" for n
    using that ab by (intro days_of_date) auto
  show "datesInRange s t = Inr (days_loop a b)" using assms by (simp add: datesInRange_def)
  have mono: "dateFromEpochDays x < dateFromEpochDays y" if "x \<in> {a..b}" "y \<in> {a..b}" "x < y" for x y
    using days_less_iff[OF inr[OF that(1)] inr[OF that(2)]] that(3) by blast
  have "sorted_wrt (<) [a..b]" by simp
  then show "sorted_wrt (<) (days_loop a b)"
    unfolding days_loop_map sorted_wrt_map
    by (rule sorted_wrt_mono_rel[rotated]) (rule mono, simp_all)
  show "inclusiveDayCount s t = Inr (if a \<le> b then int (length (days_loop a b)) else b - a + 1)"
    using assms by (simp add: inclusiveDayCount_def daysBetween_def days_loop_map)
  fix x
  show "x \<in> set (days_loop a b) \<longleftrightarrow> isCalendarDate x \<and> s \<le> x \<and> x \<le> t"
  proof
    assume "x \<in> set (days_loop a b)"
    then obtain n where n: "n \<in> {a..b}" "x = dateFromEpochDays n" by (auto simp: days_loop_map)
    then show "isCalendarDate x \<and> s \<le> x \<and> x \<le> t"
      using days_le_iff[OF assms(1) inr[OF n(1)]] days_le_iff[OF inr[OF n(1)] assms(2)] inr[OF n(1)]
      by (auto simp: isCalendarDate_days)
  next
    assume x: "isCalendarDate x \<and> s \<le> x \<and> x \<le> t"
    then obtain n where n: "daysFromEpoch x = Inr n" by (auto simp: isCalendarDate_days)
    then have "n \<in> {a..b}" using x days_le_iff[OF assms(1) n] days_le_iff[OF n assms(2)] by simp
    then show "x \<in> set (days_loop a b)" using date_of_days[OF n] by (auto simp: days_loop_map)
  qed
qed

lemma datesInRange_exact_witness:
  "\<exists>ds. datesInRange ''2023-12-31'' ''2024-01-01'' = Inr ds \<and> sorted_wrt (<) ds \<and>
    (\<forall>x. x \<in> set ds \<longleftrightarrow> isCalendarDate x \<and> ''2023-12-31'' \<le> x \<and> x \<le> ''2024-01-01'') \<and>
    inclusiveDayCount ''2023-12-31'' ''2024-01-01'' = Inr (int (length ds))"
proof -
  have d: "daysFromEpoch ''2023-12-31'' = Inr 19722" "daysFromEpoch ''2024-01-01'' = Inr 19723"
    by code_simp+
  show ?thesis using datesInRange_exact[OF d] by simp
qed

text \<open>\<open>addDays\<close> moves a real date by whole days: inside the supported years its result is the
  real date \<open>k\<close> days later, which \<open>daysBetween\<close> measures back, and the day of the week is the
  Thursday-anchored residue of the day number.\<close>
theorem addDays_moves:
  assumes "daysFromEpoch s = Inr n" "first_day \<le> n + k" "n + k \<le> last_day"
  shows "\<exists>t. addDays s k = Inr t \<and> isCalendarDate t \<and> daysBetween s t = Inr k \<and>
    dayOfWeek t = Inr ((n + k + 4) mod 7) \<and> addDays t (- k) = Inr s"
  using assms days_of_date[OF assms(2,3)] date_of_days[OF assms(1)]
  by (intro exI[of _ "dateFromEpochDays (n + k)"])
    (auto simp: addDays_def isCalendarDate_days daysBetween_def dayOfWeek_def js_rem_7)

lemma addDays_moves_witness:
  "\<exists>t. addDays ''2024-02-28'' 2 = Inr t \<and> isCalendarDate t \<and> daysBetween ''2024-02-28'' t = Inr 2 \<and>
    dayOfWeek t = Inr 5 \<and> addDays t (- 2) = Inr ''2024-02-28''"
proof -
  have d: "daysFromEpoch ''2024-02-28'' = Inr 19781" by code_simp
  show ?thesis using addDays_moves[OF d, of 2] by (simp add: first_day_def last_day_def)
qed
end
