(* ===== verification/JsNumber.thy ===== *)
theory JsNumber
  imports Prelude "HOL-Library.Log_Nat"
begin

text \<open>
  JavaScript's \<open>number\<close>: IEEE 754 binary64 with round-to-nearest, ties to even. A finite number is the
  rational it denotes (the sign of zero is dropped: no modelled function observes it), \<open>fl\<close> rounds
  an exact result to a representable one. Integers below 2^53 are exact, so the theories that handle
  days, counts and milliseconds use \<open>int\<close> directly and this theory is for the parameters that an author
  can set to any number.
\<close>

section \<open>Rounding\<close>

datatype jsnum = Fin rat | NaN | PosInf | NegInf

text \<open>The binary exponent: \<open>2 powi bexp x \<le> \<bar>x\<bar> < 2 powi (bexp x + 1)\<close> for \<open>x \<noteq> 0\<close>.\<close>
definition bexp :: "rat \<Rightarrow> int" where
  "bexp x =
     (case quotient_of \<bar>x\<bar> of (n, d) \<Rightarrow>
        let e = int (floorlog 2 (nat n)) - int (floorlog 2 (nat d)) in
        if 2 powi e \<le> \<bar>x\<bar> then e else e - 1)"

definition round_half_even :: "rat \<Rightarrow> int" where
  "round_half_even x =
     (let f = \<lfloor>x\<rfloor>; r = x - of_int f in
      if r < 1 / 2 then f else if r > 1 / 2 then f + 1 else if even f then f else f + 1)"

definition fl :: "rat \<Rightarrow> jsnum" where
  "fl x =
     (if x = 0 then Fin 0
      else let u = 2 powi (max (bexp x) (- 1022) - 52);
               r = of_int (round_half_even (x / u)) * u
           in if r \<ge> 2 ^ 1024 then PosInf else if r \<le> - (2 ^ 1024) then NegInf else Fin r)"

section \<open>Operators\<close>

definition num :: "int \<Rightarrow> jsnum" where
  "num i = Fin (of_int i)"

fun js_neg :: "jsnum \<Rightarrow> jsnum" where
  "js_neg (Fin a) = Fin (- a)"
| "js_neg PosInf = NegInf"
| "js_neg NegInf = PosInf"
| "js_neg NaN = NaN"

fun js_add :: "jsnum \<Rightarrow> jsnum \<Rightarrow> jsnum" where
  "js_add (Fin a) (Fin b) = fl (a + b)"
| "js_add NaN _ = NaN"
| "js_add _ NaN = NaN"
| "js_add PosInf NegInf = NaN"
| "js_add NegInf PosInf = NaN"
| "js_add PosInf _ = PosInf"
| "js_add NegInf _ = NegInf"
| "js_add _ PosInf = PosInf"
| "js_add _ NegInf = NegInf"

definition js_sub :: "jsnum \<Rightarrow> jsnum \<Rightarrow> jsnum" where
  "js_sub a b = js_add a (js_neg b)"

definition js_sign_inf :: "bool \<Rightarrow> jsnum" where
  "js_sign_inf p = (if p then PosInf else NegInf)"

fun js_mul :: "jsnum \<Rightarrow> jsnum \<Rightarrow> jsnum" where
  "js_mul (Fin a) (Fin b) = fl (a * b)"
| "js_mul NaN _ = NaN"
| "js_mul _ NaN = NaN"
| "js_mul (Fin a) PosInf = (if a = 0 then NaN else js_sign_inf (a > 0))"
| "js_mul (Fin a) NegInf = (if a = 0 then NaN else js_sign_inf (a < 0))"
| "js_mul PosInf (Fin a) = (if a = 0 then NaN else js_sign_inf (a > 0))"
| "js_mul NegInf (Fin a) = (if a = 0 then NaN else js_sign_inf (a < 0))"
| "js_mul PosInf PosInf = PosInf"
| "js_mul NegInf NegInf = PosInf"
| "js_mul PosInf NegInf = NegInf"
| "js_mul NegInf PosInf = NegInf"

text \<open>Division by zero: only positive zero divisors occur in the sources, so the sign is the dividend's.\<close>
fun js_div :: "jsnum \<Rightarrow> jsnum \<Rightarrow> jsnum" where
  "js_div (Fin a) (Fin b) =
     (if b = 0 then (if a = 0 then NaN else js_sign_inf (a > 0)) else fl (a / b))"
| "js_div NaN _ = NaN"
| "js_div _ NaN = NaN"
| "js_div (Fin a) _ = Fin 0"
| "js_div PosInf (Fin b) = js_sign_inf (b \<ge> 0)"
| "js_div NegInf (Fin b) = js_sign_inf (b < 0)"
| "js_div _ _ = NaN"

definition rat_trunc :: "rat \<Rightarrow> int" where
  "rat_trunc a = (if a < 0 then \<lceil>a\<rceil> else \<lfloor>a\<rfloor>)"

text \<open>\<open>%\<close> takes the sign of the dividend and is exact.\<close>
fun js_mod :: "jsnum \<Rightarrow> jsnum \<Rightarrow> jsnum" where
  "js_mod (Fin a) (Fin b) = (if b = 0 then NaN else Fin (a - b * of_int (rat_trunc (a / b))))"
| "js_mod (Fin a) PosInf = Fin a"
| "js_mod (Fin a) NegInf = Fin a"
| "js_mod _ _ = NaN"

fun js_lt :: "jsnum \<Rightarrow> jsnum \<Rightarrow> bool" where
  "js_lt (Fin a) (Fin b) \<longleftrightarrow> a < b"
| "js_lt NaN _ \<longleftrightarrow> False"
| "js_lt _ NaN \<longleftrightarrow> False"
| "js_lt PosInf _ \<longleftrightarrow> False"
| "js_lt _ NegInf \<longleftrightarrow> False"
| "js_lt NegInf _ \<longleftrightarrow> True"
| "js_lt _ PosInf \<longleftrightarrow> True"

definition js_eq :: "jsnum \<Rightarrow> jsnum \<Rightarrow> bool" where
  "js_eq a b \<longleftrightarrow> a = b \<and> a \<noteq> NaN"

definition js_le :: "jsnum \<Rightarrow> jsnum \<Rightarrow> bool" where
  "js_le a b \<longleftrightarrow> js_lt a b \<or> js_eq a b"

fun js_ceil :: "jsnum \<Rightarrow> jsnum" where
  "js_ceil (Fin a) = num \<lceil>a\<rceil>"
| "js_ceil x = x"

fun js_min2 :: "jsnum \<Rightarrow> jsnum \<Rightarrow> jsnum" where
  "js_min2 NaN _ = NaN"
| "js_min2 _ NaN = NaN"
| "js_min2 a b = (if js_lt b a then b else a)"

definition js_min :: "jsnum list \<Rightarrow> jsnum" where
  "js_min xs = foldl js_min2 PosInf xs"

fun js_isFinite :: "jsnum \<Rightarrow> bool" where
  "js_isFinite (Fin _) \<longleftrightarrow> True"
| "js_isFinite _ \<longleftrightarrow> False"

fun js_isInteger :: "jsnum \<Rightarrow> bool" where
  "js_isInteger (Fin a) \<longleftrightarrow> of_int \<lfloor>a\<rfloor> = a"
| "js_isInteger _ \<longleftrightarrow> False"

section \<open>Integers are exact\<close>

lemma floorlog_bounds: "0 < n \<Longrightarrow> 2 ^ (floorlog 2 n - 1) \<le> n \<and> n < 2 ^ floorlog 2 n"
  using floorlog_bounds[of n 2] by simp

lemma bexp_int:
  assumes "k \<noteq> 0" "\<bar>k\<bar> < 2 ^ 53"
  shows "0 \<le> bexp (of_int k) \<and> bexp (of_int k) \<le> 52"
proof -
  have q: "quotient_of \<bar>of_int k\<bar> = (\<bar>k\<bar>, 1)"
    unfolding of_int_abs[symmetric] by (simp add: of_int_rat quotient_of_Fract normalize_def)
  let ?n = "nat \<bar>k\<bar>" and ?f = "floorlog 2 (nat \<bar>k\<bar>)"
  have n: "0 < ?n" "?n < 2 ^ 53" using assms by (auto simp: nat_less_iff)
  have "2 ^ (?f - 1) \<le> ?n" "?n < 2 ^ ?f" using floorlog_bounds[OF n(1)] by auto
  then have "(2::nat) ^ (?f - 1) < 2 ^ 53" using n(2) by linarith
  then have f53: "?f \<le> 53" using power_less_imp_less_exp[of "2::nat" "?f - 1" 53] by linarith
  have f1: "floorlog 2 (Suc 0) = 1" by (simp add: floorlog_eq_zero_iff compute_floorlog)
  have "0 < ?f" using floorlog_eq_zero_iff[of 2 ?n] n(1) by linarith
  have "bexp (of_int k) = (if 2 powi (int ?f - 1) \<le> \<bar>of_int k::rat\<bar> then int ?f - 1 else int ?f - 1 - 1)"
    by (simp add: bexp_def q f1 Let_def)
  moreover have "2 powi (int ?f - 1) \<le> \<bar>of_int k::rat\<bar>"
  proof -
    have "(2::rat) powi (int ?f - 1) = 2 ^ (?f - 1)"
      using \<open>0 < ?f\<close> by (simp add: power_int_def nat_diff_distrib)
    also have "\<dots> = of_nat (2 ^ (?f - 1))" by simp
    also have "\<dots> \<le> of_nat ?n" using \<open>2 ^ (?f - 1) \<le> ?n\<close> by (simp only: of_nat_le_iff)
    also have "\<dots> = \<bar>of_int k\<bar>" by simp
    finally show ?thesis .
  qed
  ultimately show ?thesis using f53 \<open>0 < ?f\<close> by simp
qed

lemma round_half_even_int [simp]: "round_half_even (of_int m) = m"
  by (simp add: round_half_even_def)

lemma fl_int:
  assumes "\<bar>k\<bar> < 2 ^ 53"
  shows "fl (of_int k) = num k"
proof (cases "k = 0")
  case False
  define j where "j = nat (52 - bexp (of_int k))"
  have b: "0 \<le> bexp (of_int k)" "bexp (of_int k) \<le> 52" using bexp_int[OF False assms] by auto
  have u: "(2::rat) powi (max (bexp (of_int k)) (- 1022) - 52) = inverse (2 ^ j)"
    using b by (cases "bexp (of_int k) = 52") (auto simp: j_def power_int_def power_one_over inverse_eq_divide)
  have d: "of_int k / inverse (2 ^ j :: rat) = of_int (k * 2 ^ j)" by (simp add: divide_inverse)
  have r: "of_int (round_half_even (of_int (k * 2 ^ j))) * inverse (2 ^ j :: rat) = of_int k"
    by (simp only: round_half_even_int) simp
  have lt: "k < 2 ^ 1024" "- (2 ^ 1024) < k"
    using assms power_strict_increasing[of 53 1024 "2::int"] by linarith+
  have "of_int k < (of_int (2 ^ 1024) :: rat)" "of_int (- (2 ^ 1024)) < (of_int k :: rat)"
    using lt by (simp_all only: of_int_less_iff)
  then show ?thesis
    using False by (simp only: fl_def u d r Let_def num_def) (simp add: not_le)
qed (simp add: fl_def num_def)

lemma num_ops [simp]:
  "\<bar>a + b\<bar> < 2 ^ 53 \<Longrightarrow> js_add (num a) (num b) = num (a + b)"
  "\<bar>a - b\<bar> < 2 ^ 53 \<Longrightarrow> js_sub (num a) (num b) = num (a - b)"
  "\<bar>a * b\<bar> < 2 ^ 53 \<Longrightarrow> js_mul (num a) (num b) = num (a * b)"
  using fl_int[of "a + b"] fl_int[of "a - b"] fl_int[of "a * b"]
  by (simp_all add: num_def js_sub_def)

lemma num_compare [simp]:
  "js_lt (num a) (num b) \<longleftrightarrow> a < b" "js_le (num a) (num b) \<longleftrightarrow> a \<le> b"
  "js_eq (num a) (num b) \<longleftrightarrow> a = b" "num a = num b \<longleftrightarrow> a = b"
  by (auto simp: num_def js_le_def js_eq_def)

lemma num_kind [simp]: "js_isFinite (num a)" "js_isInteger (num a)" "num a \<noteq> NaN" "js_ceil (num a) = num a"
  by (simp_all add: num_def)

lemma js_isInteger_num: "js_isInteger x \<longleftrightarrow> (\<exists>k. x = num k)"
proof (cases x)
  case (Fin a)
  then show ?thesis by (auto simp: num_def intro: sym)
qed (simp_all add: num_def)

lemma js_mod_num: "0 < b \<Longrightarrow> js_mod (num a) (num b) = num (sgn a * (\<bar>a\<bar> mod b))"
proof -
  assume b: "0 < b"
  have t: "rat_trunc (of_int a / of_int b) = sgn a * (\<bar>a\<bar> div b)"
  proof (cases "a < 0")
    case True
    then have "(of_int a / of_int b :: rat) < 0" using b by (simp add: divide_neg_pos)
    moreover have "\<lceil>of_int a / of_int b :: rat\<rceil> = - ((- a) div b)"
      unfolding ceiling_def minus_divide_left of_int_minus[symmetric] floor_divide_of_int_eq ..
    ultimately show ?thesis using True by (simp add: rat_trunc_def)
  next
    case False
    then have "\<not> (of_int a / of_int b :: rat) < 0" using b by (simp add: not_less)
    then show ?thesis using False by (cases "a = 0") (auto simp: rat_trunc_def floor_divide_of_int_eq)
  qed
  have "a - b * (sgn a * q) = sgn a * (\<bar>a\<bar> - b * q)" for q
    by (cases "a < 0"; cases "a = 0") (auto simp: algebra_simps)
  from this[of "\<bar>a\<bar> div b"] have e: "a - b * (sgn a * (\<bar>a\<bar> div b)) = sgn a * (\<bar>a\<bar> mod b)"
    by (simp only: minus_mult_div_eq_mod)
  have "of_int a - of_int b * of_int (sgn a * (\<bar>a\<bar> div b)) = (of_int (sgn a * (\<bar>a\<bar> mod b)) :: rat)"
    by (simp only: e[symmetric] of_int_diff of_int_mult)
  then show ?thesis using b unfolding num_def js_mod.simps t by simp
qed

lemma js_le_min2: "js_le (Fin c) (js_min2 a b) \<longleftrightarrow> js_le (Fin c) a \<and> js_le (Fin c) b"
  by (cases a; cases b) (auto simp: js_le_def js_eq_def)

text \<open>A number is at most \<open>Math.min\<close> of a list iff it is at most every entry.\<close>
lemma js_le_min: "js_le (num c) (js_min xs) \<longleftrightarrow> (\<forall>x \<in> set xs. js_le (num c) x)"
proof -
  have "js_le (Fin c) (foldl js_min2 a xs) \<longleftrightarrow> js_le (Fin c) a \<and> (\<forall>x \<in> set xs. js_le (Fin c) x)"
    for c a by (induction xs arbitrary: a) (auto simp: js_le_min2)
  then show ?thesis by (simp add: js_min_def num_def js_le_def)
qed

end
