(* ===== verification/EcmaDate.thy ===== *)
theory EcmaDate
  imports CalendarDate JsNumber
begin

text \<open>
  The parts of ECMAScript's \<open>Date\<close> the sources use: \<open>Date.UTC\<close> (with its mapping of the years 0 to 99
  to 1900 to 1999 and its roll-over of months and days), the time clip, and the calendar date of
  \<open>toISOString\<close>. Day and year arithmetic follow the ECMA-262 formulas, and the theory proves them equal
  to the era-based count of \<open>CalendarDate\<close>.
\<close>

section \<open>The ECMA-262 day formulas\<close>

definition DayFromYear :: "int \<Rightarrow> int" where
  "DayFromYear y = 365 * (y - 1970) + (y - 1969) div 4 - (y - 1901) div 100 + (y - 1601) div 400"

definition month_offset :: "int \<Rightarrow> int \<Rightarrow> int" where
  "month_offset y mn =
     [0, 31, 59, 90, 120, 151, 181, 212, 243, 273, 304, 334] ! nat mn +
     (if mn \<ge> 2 \<and> isLeapYear y then 1 else 0)"

text \<open>\<open>MakeDay\<close> for whole arguments: months beyond the year roll over, days are added.\<close>
definition MakeDay :: "int \<Rightarrow> int \<Rightarrow> int \<Rightarrow> int" where
  "MakeDay y mon dt =
     (let ym = y + mon div 12; mn = mon mod 12 in DayFromYear ym + month_offset ym mn + dt - 1)"

text \<open>The day number \<open>Math.floor (Date.UTC (y, mon, dt) / 86400000)\<close>.\<close>
definition date_utc_day :: "int \<Rightarrow> int \<Rightarrow> int \<Rightarrow> int" where
  "date_utc_day y mon dt = MakeDay (if 0 \<le> y \<and> y \<le> 99 then 1900 + y else y) mon dt"

section \<open>toISOString\<close>

text \<open>The date part of \<open>toISOString\<close> of an instant on day \<open>n\<close>, cut to ten characters as the callers do.\<close>
definition iso_date :: "int \<Rightarrow> string" where
  "iso_date n =
     (case days_to_civil n of
        (y, m, d) \<Rightarrow>
          take 10
            ((if 0 \<le> y \<and> y \<le> 9999 then pad_start 4 (string_of_int y)
              else (if y < 0 then CHR ''-'' else CHR ''+'') # pad_start 6 (string_of_int \<bar>y\<bar>)) @
             ''-'' @ pad_start 2 (string_of_int m) @ ''-'' @ pad_start 2 (string_of_int d)))"

definition MS_PER_DAY :: int where
  "MS_PER_DAY = 86400000"

text \<open>\<open>new Date(day * MS_PER_DAY).toISOString().slice(0, 10)\<close>: \<open>TimeClip\<close> makes a non-finite or too
  distant instant invalid, on which \<open>toISOString\<close> throws a \<open>RangeError\<close>.\<close>
definition isoOfDayNumber :: "jsnum \<Rightarrow> string result" where
  "isoOfDayNumber day =
     (case js_mul day (num MS_PER_DAY) of
        Fin t \<Rightarrow>
          (if \<bar>t\<bar> > 8640000000000000 then Inl RangeError
           else Inr (iso_date (rat_trunc t div MS_PER_DAY)))
      | _ \<Rightarrow> Inl RangeError)"

lemma isoOfDayNumber_num:
  assumes "\<bar>n\<bar> \<le> 100000000"
  shows "isoOfDayNumber (num n) = Inr (iso_date n)"
proof -
  let ?t = "n * MS_PER_DAY"
  have b: "\<bar>?t\<bar> \<le> 8640000000000000" using assms by (simp add: MS_PER_DAY_def abs_mult)
  then have "js_mul (num n) (num MS_PER_DAY) = num ?t" by (intro num_ops) simp
  then have t: "js_mul (num n) (num MS_PER_DAY) = Fin (of_int ?t)" by (simp only: num_def)
  have "\<bar>of_int ?t :: rat\<bar> \<le> of_int 8640000000000000" using b by (simp only: of_int_abs[symmetric] of_int_le_iff)
  then have "\<not> \<bar>of_int ?t :: rat\<bar> > 8640000000000000" by simp
  moreover have "rat_trunc (of_int k) = k" for k by (simp add: rat_trunc_def)
  moreover have "?t div MS_PER_DAY = n" by (simp add: MS_PER_DAY_def)
  ultimately show ?thesis unfolding isoOfDayNumber_def t by (simp only: jsnum.case if_False)
qed

section \<open>Agreement with the era-based count\<close>

lemma div_succ: "0 < k \<Longrightarrow> (y + 1) div k = y div k + (if (y + 1) mod k = 0 then 1 else (0::int))"
proof (cases "(y + 1) mod k = 0")
  case True
  assume k: "0 < k"
  obtain j where j: "y + 1 = k * j" using True by (auto simp: mod_eq_0_iff_dvd)
  then have "y = k * (j - 1) + (k - 1)" by (simp add: algebra_simps)
  then have "y div k = j - 1" using k by (intro int_div_pos_eq[where r = "k - 1"]) auto
  then show ?thesis using True j k by simp
next
  case False
  assume k: "0 < k"
  have "y + 1 = k * ((y + 1) div k) + (y + 1) mod k" by simp
  then have "y = k * ((y + 1) div k) + ((y + 1) mod k - 1)" by linarith
  moreover have "0 \<le> (y + 1) mod k" "(y + 1) mod k < k" using k by auto
  ultimately have "y div k = (y + 1) div k"
    using False by (intro int_div_pos_eq[where r = "(y + 1) mod k - 1"]) auto
  then show ?thesis using False by simp
qed

definition year_day :: "int \<Rightarrow> int" where
  "year_day y = civil_to_days y 1 1"

lemma year_day_march: "year_day y = march_year_start (y - 1) + 306"
  by (simp add: year_day_def civil_to_days_split march_year_def march_doy_def march_month_def)

lemma year_day_next: "year_day (y + 1) = year_day y + (if isLeapYear y then 366 else 365)"
  using march_year_start_next[of "y - 1"] by (simp add: year_day_march doy_max_def)

lemma mod_shift: "(x - c * k) mod k = x mod (k::int)"
  by (metis add_diff_cancel_right' mod_add_self2 diff_add_cancel mod_mult_self1 mod_diff_right_eq mod_mult_self1_is_0 diff_zero)

lemma leap_mods:
  "(y - 1968) mod 4 = y mod 4" "(y - 1900) mod 100 = y mod 100" "(y - 1600) mod 400 = y mod (400::int)"
  using mod_shift[of y 492 4] mod_shift[of y 19 100] mod_shift[of y 4 400] by simp_all

lemma year_sum:
  "l = (p \<and> \<not> q \<or> r) \<Longrightarrow> (q \<Longrightarrow> p) \<Longrightarrow> (r \<Longrightarrow> q) \<Longrightarrow>
    a' = a + (if p then 1 else 0) \<Longrightarrow> b' = b + (if q then 1 else 0) \<Longrightarrow> c' = c + (if r then 1 else 0) \<Longrightarrow>
    365 * (x + 1) + a' - b' + c' = 365 * x + a - b + c + (if l then 366 else (365::int))"
  by auto

lemma DayFromYear_next: "DayFromYear (y + 1) = DayFromYear y + (if isLeapYear y then 366 else 365)"
proof -
  have e: "y + 1 - 1970 = (y - 1970) + 1" "y + 1 - 1969 = (y - 1969) + 1" "y + 1 - 1901 = (y - 1901) + 1"
    "y + 1 - 1601 = (y - 1601) + 1" by simp_all
  have m: "(y - 1969 + 1) mod 4 = y mod 4" "(y - 1901 + 1) mod 100 = y mod 100"
    "(y - 1601 + 1) mod 400 = y mod 400"
    using leap_mods by (simp_all add: algebra_simps)
  have leap: "isLeapYear y = (y mod 4 = 0 \<and> \<not> y mod 100 = 0 \<or> y mod 400 = 0)"
    by (simp only: isLeapYear_def)
  have d: "y mod 100 = 0 \<Longrightarrow> y mod 4 = 0" "y mod 400 = 0 \<Longrightarrow> y mod 100 = 0"
    using mod_0_trans[of 4 100 y] mod_0_trans[of 100 400 y] by simp_all
  show ?thesis
    unfolding DayFromYear_def e
    by (rule year_sum[OF leap d div_succ[of 4 "y - 1969", unfolded m]
          div_succ[of 100 "y - 1901", unfolded m] div_succ[of 400 "y - 1601", unfolded m]]) simp_all
qed

lemma DayFromYear_eq: "DayFromYear y = year_day y"
proof -
  have base: "DayFromYear 1970 = year_day 1970" by code_simp
  have up: "DayFromYear (1970 + int k) = year_day (1970 + int k)" for k
  proof (induction k)
    case (Suc k)
    have "1970 + int (Suc k) = (1970 + int k) + 1" by simp
    then show ?case using Suc by (simp only: DayFromYear_next year_day_next)
  qed (simp add: base)
  have down: "DayFromYear (1970 - int k) = year_day (1970 - int k)" for k
  proof (induction k)
    case (Suc k)
    have "1970 - int k = (1970 - int (Suc k)) + 1" by simp
    then show ?case using Suc DayFromYear_next[of "1970 - int (Suc k)"] year_day_next[of "1970 - int (Suc k)"]
      by (simp only: add_right_cancel)
  qed (simp add: base)
  show ?thesis
    using up[of "nat (y - 1970)"] down[of "nat (1970 - y)"] by (cases "1970 \<le> y") simp_all
qed

lemma month_offset_eq:
  assumes "1 \<le> m" "m \<le> 12"
  shows "civil_to_days y m 1 = year_day y + month_offset y (m - 1)"
proof (cases "m \<le> 2")
  case True
  then have "m = 1 \<or> m = 2" using assms by auto
  then show ?thesis
    by (auto simp: year_day_march civil_to_days_split march_year_def march_doy_def march_month_def
        month_offset_def)
next
  case False
  have "march_year_start y = march_year_start (y - 1) + (if isLeapYear y then 366 else 365)"
    using march_year_start_next[of "y - 1"] by (simp add: doy_max_def)
  moreover have "m = 3 \<or> m = 4 \<or> m = 5 \<or> m = 6 \<or> m = 7 \<or> m = 8 \<or> m = 9 \<or> m = 10 \<or> m = 11 \<or> m = 12"
    using month_cases[OF assms] False by (elim disjE) simp_all
  ultimately show ?thesis
    by (auto simp: year_day_march civil_to_days_split march_year_def march_doy_def march_month_def
        month_offset_def eval_nat_numeral)
qed

text \<open>\<open>Date.UTC\<close> is the era-based count for months in range and years from 100.\<close>
lemma date_utc_day_civil:
  assumes "1 \<le> m" "m \<le> 12" "\<not> (0 \<le> y \<and> y \<le> 99)"
  shows "date_utc_day y (m - 1) d = civil_to_days y m d"
proof -
  have "(m - 1) div 12 = 0" "(m - 1) mod 12 = m - 1" using assms(1,2) by simp_all
  then have "date_utc_day y (m - 1) d = year_day y + month_offset y (m - 1) + d - 1"
    unfolding date_utc_day_def if_not_P[OF assms(3)] MakeDay_def DayFromYear_eq Let_def by simp
  moreover have "civil_to_days y m d = civil_to_days y m 1 + (d - 1)"
    by (simp add: civil_to_days_split march_doy_def)
  ultimately show ?thesis using month_offset_eq[OF assms(1,2), of y] by simp
qed

lemma iso_date_dateFromEpochDays:
  assumes "first_day \<le> n" "n \<le> last_day"
  shows "iso_date n = dateFromEpochDays n"
proof -
  obtain y m d where c: "days_to_civil n = (y, m, d)" by (cases "days_to_civil n") auto
  have "valid_civil y m d" "civil_to_days y m d = n" using civil_to_days_inverse[OF c] by auto
  then have "1 \<le> y" "y \<le> 9999" using valid_days_range assms by blast+
  moreover have "length (dateFromEpochDays n) = 10"
    using days_of_date[OF assms] by (auto simp: daysFromEpoch_parse dest!: parse_SHAPE simp: SHAPE_def split: if_splits)
  ultimately show ?thesis using c by (simp add: iso_date_def dateFromEpochDays_def formatCalendarDate_def)
qed
end
