(* ===== verification/ZonedTime.thy ===== *)
theory ZonedTime
  imports EcmaDate
begin

text \<open>
  \<open>packages/domain/src/time/zoned-time.ts\<close>: wall-clock times in a zone. The host's time-zone database is the
  parameter: \<open>tz zone\<close> is \<open>None\<close> for a zone \<open>Intl.DateTimeFormat\<close> does not know, on which it throws a
  \<open>RangeError\<close>, and otherwise gives the UTC offset in force at an instant, in milliseconds; the parts
  \<open>formatToParts\<close> renders are those of the instant moved by that offset (documented for \<open>Intl\<close>, for the years
  from 1 on). An instant is the number of milliseconds of its \<open>Date\<close>.
\<close>

section \<open>Wall-clock times\<close>

definition MS_PER_MINUTE :: int where "MS_PER_MINUTE = 60000"
definition MS_PER_HOUR :: int where "MS_PER_HOUR = 3600000"

text \<open>The two groups of \<open>/^([01]\d|2[0-3]):([0-5]\d)$/\<close>.\<close>
definition TIME_SHAPE :: "string \<Rightarrow> (string \<times> string) option" where
  "TIME_SHAPE s =
     (if length s = 5 \<and> s ! 2 = CHR '':'' \<and> is_digit (s ! 0) \<and> is_digit (s ! 1) \<and> is_digit (s ! 3) \<and> is_digit (s ! 4) \<and>
         (digit_val (s ! 0) \<le> 1 \<or> digit_val (s ! 0) = 2 \<and> digit_val (s ! 1) \<le> 3) \<and> digit_val (s ! 3) \<le> 5
      then Some (take 2 s, drop 3 s) else None)"

definition isWallClockTime :: "string \<Rightarrow> bool" where
  "isWallClockTime value \<longleftrightarrow> TIME_SHAPE value \<noteq> None"

definition minutesOfDay :: "string \<Rightarrow> int option" where
  "minutesOfDay value =
     (case TIME_SHAPE value of
        None \<Rightarrow> None
      | Some (h, m) \<Rightarrow> Some (number_of_digits h * 60 + number_of_digits m))"

text \<open>The \<open>HH:MM\<close> template of the code.\<close>
definition clock_text :: "int \<Rightarrow> int \<Rightarrow> string" where
  "clock_text h m = pad_start 2 (string_of_int h) @ '':'' @ pad_start 2 (string_of_int m)"

section \<open>Reading an instant in a zone\<close>

type_synonym zone_database = "string \<Rightarrow> (int \<Rightarrow> int) option"

record ZonedParts =
  zp_date :: string
  zp_time :: string
  zp_year :: int
  zp_month :: int
  zp_day :: int
  zp_hour :: int
  zp_minute :: int

definition isKnownTimeZone :: "zone_database \<Rightarrow> string \<Rightarrow> bool" where
  "isKnownTimeZone tz zone \<longleftrightarrow> tz zone \<noteq> None"

definition parts_at :: "(int \<Rightarrow> int) \<Rightarrow> int \<Rightarrow> ZonedParts" where
  "parts_at off t =
     (let w = t + off t; ms = w mod MS_PER_DAY; h = ms div MS_PER_HOUR; mn = ms mod MS_PER_HOUR div MS_PER_MINUTE in
      case days_to_civil (w div MS_PER_DAY) of
        (y, m, d) \<Rightarrow>
          \<lparr>zp_date = formatCalendarDate \<lparr>cal_year = y, cal_month = m, cal_day = d\<rparr>,
           zp_time = clock_text h mn, zp_year = y, zp_month = m, zp_day = d, zp_hour = h, zp_minute = mn\<rparr>)"

definition zonedParts :: "zone_database \<Rightarrow> string \<Rightarrow> int \<Rightarrow> ZonedParts result" where
  "zonedParts tz zone t = (case tz zone of None \<Rightarrow> Inl RangeError | Some off \<Rightarrow> Inr (parts_at off t))"

text \<open>\<open>Date.UTC\<close> of the date and the minutes of the day.\<close>
definition utc_millis :: "int \<Rightarrow> int \<Rightarrow> int \<Rightarrow> int \<Rightarrow> int" where
  "utc_millis y m d minutes = date_utc_day y (m - 1) d * MS_PER_DAY + minutes * MS_PER_MINUTE"

definition wall_at :: "(int \<Rightarrow> int) \<Rightarrow> int \<Rightarrow> int" where
  "wall_at off t = (let p = parts_at off t in
     utc_millis (zp_year p) (zp_month p) (zp_day p) (zp_hour p * 60 + zp_minute p))"

definition wallMillis :: "zone_database \<Rightarrow> string \<Rightarrow> int \<Rightarrow> int result" where
  "wallMillis tz zone t = (case tz zone of None \<Rightarrow> Inl RangeError | Some off \<Rightarrow> Inr (wall_at off t))"

definition offset_at :: "(int \<Rightarrow> int) \<Rightarrow> int \<Rightarrow> int" where
  "offset_at off t = wall_at off t - t"

definition offsetMillisAt :: "zone_database \<Rightarrow> string \<Rightarrow> int \<Rightarrow> int result" where
  "offsetMillisAt tz zone t = (case tz zone of None \<Rightarrow> Inl RangeError | Some off \<Rightarrow> Inr (offset_at off t))"

definition offsetMinutesAt :: "zone_database \<Rightarrow> string \<Rightarrow> int \<Rightarrow> jsnum result" where
  "offsetMinutesAt tz zone t =
     (case offsetMillisAt tz zone t of Inl e \<Rightarrow> Inl e | Inr n \<Rightarrow> Inr (js_div (num n) (num MS_PER_MINUTE)))"

section \<open>Resolving a local time\<close>

datatype FoldPolicy = Earliest | Latest

text \<open>Unique: instant and offset; gap: instant, offset, the shift in milliseconds and the time it becomes; fold:
  instant, offset, policy, and the earliest and the latest instant.\<close>
datatype LocalResolution =
    UniqueTime (res_instant: int) int
  | GapTime (res_instant: int) int int string
  | FoldTime (res_instant: int) int FoldPolicy int int

definition resolve :: "(int \<Rightarrow> int) \<Rightarrow> int \<Rightarrow> FoldPolicy \<Rightarrow> LocalResolution" where
  "resolve off nominal foldPolicy =
     (let probeBefore = offset_at off (nominal - MS_PER_DAY);
          probeAfter = offset_at off (nominal + MS_PER_DAY);
          first = nominal - probeBefore;
          second = nominal - probeAfter;
          candidates = (if first = second then [first] else [first, second]);
          valid = sort (filter (\<lambda>t. wall_at off t = nominal) candidates)
      in case valid of
           [t] \<Rightarrow> UniqueTime t (offset_at off t)
         | earliest # _ # _ \<Rightarrow>
             (let t = (if foldPolicy = Earliest then earliest else last valid) in
              FoldTime t (offset_at off t) foldPolicy earliest (last valid))
         | [] \<Rightarrow>
             (let t = (if first < second then second else first) in
              GapTime t (offset_at off t) (wall_at off t - nominal) (zp_time (parts_at off t))))"

definition resolveLocalTime ::
  "zone_database \<Rightarrow> string \<Rightarrow> string \<Rightarrow> string \<Rightarrow> FoldPolicy \<Rightarrow> LocalResolution result" where
  "resolveLocalTime tz zone date time foldPolicy =
     (if SHAPE date = None then Inl (ZonedTimeBadDate date)
      else case assertCalendarDate date of
        Inl e \<Rightarrow> Inl e
      | Inr p \<Rightarrow>
          (case minutesOfDay time of
             None \<Rightarrow> Inl (ZonedTimeBadTime time)
           | Some minutes \<Rightarrow>
               (let nominal = utc_millis (cal_year p) (cal_month p) (cal_day p) minutes in
                case tz zone of
                  None \<Rightarrow> Inl RangeError
                | Some off \<Rightarrow> Inr (resolve off nominal foldPolicy))))"

section \<open>Shift intervals\<close>

record ShiftInterval =
  si_startsAt :: int
  si_endsAt :: int
  si_crossesMidnight :: bool
  si_endDate :: string
  si_start :: LocalResolution
  si_end :: LocalResolution
  si_nominalMinutes :: int
  si_elapsedMinutes :: jsnum

definition addLocalMinutes :: "string \<Rightarrow> string \<Rightarrow> int \<Rightarrow> (string \<times> string) result" where
  "addLocalMinutes date time delta =
     (let minutes = (case minutesOfDay time of None \<Rightarrow> 0 | Some n \<Rightarrow> n) + delta;
          dayShift = minutes div 1440;
          withinDay = js_rem (js_rem minutes 1440 + 1440) 1440;
          text = clock_text (withinDay div 60) (withinDay mod 60)
      in if dayShift = 0 then Inr (date, text)
         else (case addDays date dayShift of Inl e \<Rightarrow> Inl e | Inr d \<Rightarrow> Inr (d, text)))"

text \<open>\<open>Math.round (shiftedByMillis / MS_PER_MINUTE)\<close> of a gap.\<close>
fun gapShiftMinutes :: "LocalResolution \<Rightarrow> int" where
  "gapShiftMinutes (GapTime _ _ shifted _) = (shifted + 30000) div MS_PER_MINUTE"
| "gapShiftMinutes (UniqueTime _ _) = 0"
| "gapShiftMinutes (FoldTime _ _ _ _ _) = 0"

definition resolveShiftInterval ::
  "zone_database \<Rightarrow> string \<Rightarrow> string \<Rightarrow> string \<Rightarrow> string \<Rightarrow> ShiftInterval result" where
  "resolveShiftInterval tz zone date startTime endTime =
     (case (minutesOfDay startTime, minutesOfDay endTime) of
        (Some startMinutes, Some endMinutes) \<Rightarrow>
          (let crossesMidnight = endMinutes \<le> startMinutes in
           case (if crossesMidnight then addDays date 1 else Inr date) of
             Inl e \<Rightarrow> Inl e
           | Inr endDate \<Rightarrow>
          (case resolveLocalTime tz zone date startTime Earliest of
             Inl e \<Rightarrow> Inl e
           | Inr start \<Rightarrow>
          (case addLocalMinutes endDate endTime (gapShiftMinutes start) of
             Inl e \<Rightarrow> Inl e
           | Inr (d, t) \<Rightarrow>
          (case resolveLocalTime tz zone d t Latest of
             Inl e \<Rightarrow> Inl e
           | Inr ending \<Rightarrow>
               (if res_instant ending \<le> res_instant start
                then Inl (DegenerateShiftIntervalError zone (res_instant start) (res_instant ending))
                else Inr
                  \<lparr>si_startsAt = res_instant start, si_endsAt = res_instant ending,
                   si_crossesMidnight = crossesMidnight, si_endDate = d, si_start = start, si_end = ending,
                   si_nominalMinutes = (if crossesMidnight then 1440 - startMinutes + endMinutes
                                        else endMinutes - startMinutes),
                   si_elapsedMinutes = js_div (num (res_instant ending - res_instant start)) (num MS_PER_MINUTE)\<rparr>)))))
      | _ \<Rightarrow> Inl (ZonedTimeBadTime ''a shift interval needs two HH:MM times''))"

text \<open>The start and the end of the local days \<open>fromD\<close> to \<open>toD\<close>.\<close>
definition zonedDayWindow :: "zone_database \<Rightarrow> string \<Rightarrow> string \<Rightarrow> string \<Rightarrow> (int \<times> int) result" where
  "zonedDayWindow tz zone fromD toD =
     (case resolveLocalTime tz zone fromD ''00:00'' Earliest of
        Inl e \<Rightarrow> Inl e
      | Inr a \<Rightarrow>
          (case addDays toD 1 of
             Inl e \<Rightarrow> Inl e
           | Inr next \<Rightarrow>
               (case resolveLocalTime tz zone next ''00:00'' Earliest of
                  Inl e \<Rightarrow> Inl e
                | Inr b \<Rightarrow> Inr (res_instant a, res_instant b))))"

definition localDayLengthHours :: "zone_database \<Rightarrow> string \<Rightarrow> string \<Rightarrow> jsnum result" where
  "localDayLengthHours tz zone date =
     (case zonedDayWindow tz zone date date of
        Inl e \<Rightarrow> Inl e
      | Inr (a, b) \<Rightarrow> Inr (js_div (num (b - a)) (num MS_PER_HOUR)))"

section \<open>One change of offset around a day\<close>

text \<open>\<open>Date.UTC\<close> reads the years 0 to 99 as 1900 to 1999; from the year 101 on, every instant a resolution
  touches is clear of them.\<close>
definition modern_day :: int where
  "modern_day = civil_to_days 100 1 1"

lemma modern_day_value: "modern_day = - 683003"
  by (simp add: modern_day_def civil_to_days_def Let_def)

lemma modern_year:
  assumes "days_to_civil n = (y, m, d)" "modern_day \<le> n"
  shows "1 \<le> m \<and> m \<le> 12 \<and> \<not> (0 \<le> y \<and> y \<le> 99) \<and> civil_to_days y m d = n"
proof -
  have v: "valid_civil y m d" "civil_to_days y m d = n" using civil_to_days_inverse[OF assms(1)] by auto
  have "valid_civil 100 1 1" by (simp add: valid_civil_def daysInMonth_def)
  then have "\<not> (y, m, d) < (100, 1, 1)"
    using civil_to_days_less_iff[OF v(1), of 100 1 1] assms(2) v(2) by (simp add: modern_day_def)
  then have "100 \<le> y" unfolding less_prod_simp by auto
  then show ?thesis using v by (simp add: valid_civil_def)
qed

lemma minute_sum:
  "q * 86400000 + r = w \<Longrightarrow> h * 3600000 + s = r \<Longrightarrow> m * 60000 + u = s \<Longrightarrow> u = v \<Longrightarrow>
     q * 86400000 + (h * 60 + m) * 60000 = w - (v :: int)"
  by simp

lemma minute_floor:
  "w div 86400000 * 86400000 + (w mod 86400000 div 3600000 * 60 + w mod 86400000 mod 3600000 div 60000) * 60000
     = w - w mod (60000::int)"
proof (rule minute_sum)
  show "w div 86400000 * 86400000 + w mod 86400000 = w" by (rule div_mult_mod_eq)
  show "w mod 86400000 div 3600000 * 3600000 + w mod 86400000 mod 3600000 = w mod 86400000" by (rule div_mult_mod_eq)
  show "w mod 86400000 mod 3600000 div 60000 * 60000 + w mod 86400000 mod 3600000 mod 60000 = w mod 86400000 mod 3600000"
    by (rule div_mult_mod_eq)
  show "w mod 86400000 mod 3600000 mod 60000 = w mod 60000" by (simp add: mod_mod_cancel)
qed

lemma wall_at_modern:
  assumes "modern_day * MS_PER_DAY \<le> t + off t"
  shows "wall_at off t = t + off t - (t + off t) mod MS_PER_MINUTE"
proof -
  define w where "w = t + off t"
  obtain y m d where c: "days_to_civil (w div MS_PER_DAY) = (y, m, d)" by (cases "days_to_civil (w div MS_PER_DAY)") auto
  have "modern_day * MS_PER_DAY div MS_PER_DAY \<le> w div MS_PER_DAY"
    by (rule zdiv_mono1) (use assms in \<open>simp_all add: w_def MS_PER_DAY_def\<close>)
  then have "modern_day \<le> w div MS_PER_DAY" by (simp add: MS_PER_DAY_def)
  note y = modern_year[OF c this]
  then have e: "date_utc_day y (m - 1) d = w div MS_PER_DAY" using date_utc_day_civil[of m y d] by presburger
  show ?thesis
    unfolding wall_at_def parts_at_def Let_def w_def[symmetric] c prod.case ZonedParts.select_convs utc_millis_def e
    unfolding MS_PER_DAY_def MS_PER_HOUR_def MS_PER_MINUTE_def
    by (rule minute_floor)
qed

text \<open>Inside the window the zone has offset \<open>a\<close> before the instant \<open>T\<close> and \<open>b\<close> from it on, both whole minutes
  and less than a day.\<close>
definition one_transition :: "(int \<Rightarrow> int) \<Rightarrow> int \<Rightarrow> int \<Rightarrow> int \<Rightarrow> int \<Rightarrow> int \<Rightarrow> bool" where
  "one_transition off lo hi T a b \<longleftrightarrow>
     (\<forall>t. lo \<le> t \<and> t \<le> hi \<longrightarrow> off t = (if t < T then a else b)) \<and>
     a mod MS_PER_MINUTE = 0 \<and> b mod MS_PER_MINUTE = 0 \<and> \<bar>a\<bar> < MS_PER_DAY \<and> \<bar>b\<bar> < MS_PER_DAY"

lemma one_transition_window:
  "one_transition off lo hi T a b \<Longrightarrow> lo \<le> lo' \<Longrightarrow> hi' \<le> hi \<Longrightarrow> one_transition off lo' hi' T a b"
  by (auto simp: one_transition_def)

lemma one_transition_at: "one_transition off lo hi T a b \<Longrightarrow> lo \<le> t \<Longrightarrow> t \<le> hi \<Longrightarrow> off t = (if t < T then a else b)"
  by (simp add: one_transition_def)

lemma one_transition_offset:
  assumes "one_transition off lo hi T a b" "lo \<le> t" "t \<le> hi" "t mod MS_PER_MINUTE = 0"
    and "(modern_day + 2) * MS_PER_DAY \<le> t"
  shows "wall_at off t = t + (if t < T then a else b)" and "off t = (if t < T then a else b)"
proof -
  let ?o = "if t < T then a else b"
  have o: "off t = ?o" "?o mod MS_PER_MINUTE = 0" "\<bar>?o\<bar> < MS_PER_DAY" using assms by (auto simp: one_transition_def)
  then have "modern_day * MS_PER_DAY \<le> t + off t" using assms(5) by (simp add: algebra_simps)
  moreover have "(t + off t) mod MS_PER_MINUTE = 0" using o assms(4) by (simp add: mod_add_eq[symmetric])
  ultimately show "wall_at off t = t + ?o" using wall_at_modern[of t off] o by simp
  show "off t = ?o" by (rule o(1))
qed

lemma resolve_one_transition:
  assumes tr: "one_transition off (N - MS_PER_DAY) (N + MS_PER_DAY) T a b"
    and N: "N mod MS_PER_MINUTE = 0" "(modern_day + 4) * MS_PER_DAY \<le> N"
  shows "resolve off N pol =
    (if N - a < T \<and> T \<le> N - b then
       (let t = (if pol = Earliest then N - a else N - b) in
        FoldTime t (if pol = Earliest then a else b) pol (N - a) (N - b))
     else if N - a < T then UniqueTime (N - a) a
     else if T \<le> N - b then UniqueTime (N - b) b
     else GapTime (N - a) b (b - a) (zp_time (parts_at off (N - a))))"
proof -
  have ab: "a mod MS_PER_MINUTE = 0" "b mod MS_PER_MINUTE = 0" "\<bar>a\<bar> < MS_PER_DAY" "\<bar>b\<bar> < MS_PER_DAY"
    using tr by (auto simp: one_transition_def)
  have D: "MS_PER_DAY mod MS_PER_MINUTE = 0" by (simp add: MS_PER_DAY_def MS_PER_MINUTE_def)
  have w: "wall_at off t = t + (if t < T then a else b)"
    if "N - MS_PER_DAY \<le> t" "t \<le> N + MS_PER_DAY" "t mod MS_PER_MINUTE = 0" for t
    using one_transition_offset(1)[OF tr that] that(1) N(2) by (simp add: algebra_simps MS_PER_DAY_def)
  have m: "(N - c) mod MS_PER_MINUTE = 0" "(N + c) mod MS_PER_MINUTE = 0" if "c mod MS_PER_MINUTE = 0" for c
    using that N(1) by (auto simp: mod_eq_0_iff_dvd)
  have wa: "wall_at off (N - a) = N - a + (if N - a < T then a else b)"
    by (rule w) (use ab m(1)[OF ab(1)] in linarith)+
  have wb: "wall_at off (N - b) = N - b + (if N - b < T then a else b)"
    by (rule w) (use ab m(1)[OF ab(2)] in linarith)+
  have wl: "wall_at off (N - MS_PER_DAY) = N - MS_PER_DAY + (if N - MS_PER_DAY < T then a else b)"
    by (rule w) (use m(1)[OF D] MS_PER_DAY_def in linarith)+
  have wh: "wall_at off (N + MS_PER_DAY) = N + MS_PER_DAY + (if N + MS_PER_DAY < T then a else b)"
    by (rule w) (use m(2)[OF D] MS_PER_DAY_def in linarith)+
  have ol: "offset_at off (N - MS_PER_DAY) = (if N - MS_PER_DAY < T then a else b)"
    and oh: "offset_at off (N + MS_PER_DAY) = (if N + MS_PER_DAY < T then a else b)"
    and oa: "offset_at off (N - a) = (if N - a < T then a else b)"
    and ob: "offset_at off (N - b) = (if N - b < T then a else b)"
    by (simp_all add: offset_at_def wl wh wa wb)
  consider "T \<le> N - MS_PER_DAY" | "N + MS_PER_DAY < T" | "N - MS_PER_DAY < T" "T \<le> N + MS_PER_DAY" by linarith
  then show ?thesis
  proof cases
    case 1
    then have le: "\<not> N - a < T" "\<not> N - b < T" "\<not> N + MS_PER_DAY < T" "\<not> N - MS_PER_DAY < T"
      using ab by linarith+
    show ?thesis unfolding resolve_def ol oh using le by (simp add: wb ob Let_def not_less)
  next
    case 2
    then have le: "N - a < T" "N - b < T" "N - MS_PER_DAY < T" using ab by linarith+
    show ?thesis unfolding resolve_def ol oh using le 2 by (simp add: wa oa Let_def)
  next
    case 3
    have o: "offset_at off (N - MS_PER_DAY) = a" "offset_at off (N + MS_PER_DAY) = b" using 3 ol oh by simp_all
    show ?thesis
    proof (cases "a = b")
      case True
      then show ?thesis unfolding resolve_def o using wa oa by (simp add: Let_def not_less)
    next
      case False
      then show ?thesis unfolding resolve_def o
        by (cases "N - a < T"; cases "N - b < T")
          (use wa wb oa ob in \<open>simp_all add: Let_def not_less\<close>)
    qed
  qed
qed


lemma TIME_SHAPE_digits:
  assumes "TIME_SHAPE s = Some (h, m)"
  shows "0 \<le> number_of_digits h \<and> number_of_digits h \<le> 23 \<and> 0 \<le> number_of_digits m \<and> number_of_digits m \<le> 59"
proof -
  have c: "length s = 5" "is_digit (s ! 0)" "is_digit (s ! 1)" "is_digit (s ! 3)" "is_digit (s ! 4)"
    "digit_val (s ! 0) \<le> 1 \<or> digit_val (s ! 0) = 2 \<and> digit_val (s ! 1) \<le> 3" "digit_val (s ! 3) \<le> 5"
    "h = take 2 s" "m = drop 3 s"
    using assms by (auto simp: TIME_SHAPE_def split: if_splits)
  obtain c0 c1 c2 c3 c4 where s: "s = [c0, c1, c2, c3, c4]"
    using c(1) by (auto simp: numeral_eq_Suc length_Suc_conv)
  have b: "0 \<le> digit_val c0" "0 \<le> digit_val c1" "digit_val c1 \<le> 9" "0 \<le> digit_val c3" "0 \<le> digit_val c4" "digit_val c4 \<le> 9"
    using c digit_val_bounds s by auto
  have "h = [c0, c1]" "m = [c3, c4]" using c s by (simp_all add: numeral_eq_Suc)
  then show ?thesis using c(6,7) b s by auto
qed

lemma minutesOfDay_range: "minutesOfDay s = Some k \<Longrightarrow> 0 \<le> k \<and> k < 1440"
  using TIME_SHAPE_digits by (fastforce simp: minutesOfDay_def split: option.splits)

lemma pad_two:
  assumes "0 \<le> n" "n < 60"
  shows "\<exists>a b. pad_start 2 (string_of_int n) = [a, b] \<and> is_digit a \<and> is_digit b \<and> digit_val a * 10 + digit_val b = n"
proof -
  let ?s = "pad_start 2 (string_of_int n)"
  have e: "?s = pad_start (Suc 1) (string_of_nat (nat n))" using assms by (simp add: string_of_int_def numeral_2_eq_2)
  have "nat n < 10 ^ Suc 1" using assms by simp
  from pad_start_props[OF this] have p: "length ?s = 2" "list_all is_digit ?s" "number_of_digits ?s = n"
    using assms unfolding e by simp_all
  obtain a b where "?s = [a, b]" using p(1) by (auto simp: numeral_eq_Suc length_Suc_conv)
  then show ?thesis using p by auto
qed

lemma minutes_clock_text:
  assumes "0 \<le> h" "h < 24" "0 \<le> m" "m < 60"
  shows "minutesOfDay (clock_text h m) = Some (h * 60 + m)"
proof -
  obtain a b where h: "pad_start 2 (string_of_int h) = [a, b]" "is_digit a" "is_digit b" "digit_val a * 10 + digit_val b = h"
    using pad_two[of h] assms by auto
  obtain c d where m: "pad_start 2 (string_of_int m) = [c, d]" "is_digit c" "is_digit d" "digit_val c * 10 + digit_val d = m"
    using pad_two[of m] assms by auto
  have v: "0 \<le> digit_val b" "digit_val b \<le> 9" "0 \<le> digit_val d" "0 \<le> digit_val a" using h m digit_val_bounds by auto
  have "digit_val a \<le> 1 \<or> digit_val a = 2 \<and> digit_val b \<le> 3" "digit_val c \<le> 5" using h(4) m(4) v assms by presburger+
  then show ?thesis using h m by (simp add: minutesOfDay_def TIME_SHAPE_def clock_text_def)
qed

lemma nominal_modern:
  assumes "parseCalendarDate date = Some p" "daysFromEpoch date = Inr n" "modern_day \<le> n"
  shows "utc_millis (cal_year p) (cal_month p) (cal_day p) k = n * MS_PER_DAY + k * MS_PER_MINUTE"
proof -
  have v: "valid_civil (cal_year p) (cal_month p) (cal_day p)" using parse_valid[OF assms(1)] by (simp add: valid_parts_def)
  have "civil_to_days (cal_year p) (cal_month p) (cal_day p) = n" using assms(1,2) by (auto simp: daysFromEpoch_parse)
  then have c: "days_to_civil n = (cal_year p, cal_month p, cal_day p)" using days_to_civil_inverse[OF v] by simp
  have "date_utc_day (cal_year p) (cal_month p - 1) (cal_day p) = n"
    using modern_year[OF c assms(3)] date_utc_day_civil by presburger
  then show ?thesis by (simp add: utc_millis_def)
qed

text \<open>The nominal instant of a date and a time: its local reading as if in UTC.\<close>
definition nominal_of :: "int \<Rightarrow> int \<Rightarrow> int" where
  "nominal_of n minutes = n * MS_PER_DAY + minutes * MS_PER_MINUTE"

lemma nominal_of_minute [simp]: "nominal_of n k mod MS_PER_MINUTE = 0"
proof -
  have "nominal_of n k = (n * 1440 + k) * MS_PER_MINUTE" by (simp add: nominal_of_def MS_PER_DAY_def MS_PER_MINUTE_def)
  then show ?thesis by simp
qed

lemma resolveLocalTime_modern:
  assumes "daysFromEpoch date = Inr n" "minutesOfDay time = Some k" "tz zone = Some off" "modern_day + 4 \<le> n"
  shows "resolveLocalTime tz zone date time pol = Inr (resolve off (nominal_of n k) pol)"
proof -
  obtain p where p: "parseCalendarDate date = Some p" using assms(1) by (auto simp: daysFromEpoch_parse)
  then have "SHAPE date \<noteq> None" by (auto simp: parseCalendarDate_def split: option.splits)
  moreover have "modern_day \<le> n" using assms(4) by simp
  note nominal_modern[OF p assms(1) this]
  ultimately show ?thesis
    using p assms by (simp add: resolveLocalTime_def assertCalendarDate_def nominal_of_def)
qed

lemma nominal_of_modern: "modern_day + 4 \<le> n \<Longrightarrow> 0 \<le> k \<Longrightarrow> (modern_day + 4) * MS_PER_DAY \<le> nominal_of n k"
proof -
  assume "modern_day + 4 \<le> n" "0 \<le> k"
  then have "(modern_day + 4) * MS_PER_DAY \<le> n * MS_PER_DAY" by (intro mult_right_mono) (simp_all add: MS_PER_DAY_def)
  then show ?thesis using \<open>0 \<le> k\<close> by (simp add: nominal_of_def MS_PER_MINUTE_def)
qed

text \<open>The instants of the window that read as \<open>N\<close> on the wall clock.\<close>
definition instants_reading :: "(int \<Rightarrow> int) \<Rightarrow> int \<Rightarrow> int set" where
  "instants_reading off N = {t. N - MS_PER_DAY \<le> t \<and> t \<le> N + MS_PER_DAY \<and> t + off t = N}"

lemma instants_reading_one:
  assumes "one_transition off (N - MS_PER_DAY) (N + MS_PER_DAY) T a b"
  shows "instants_reading off N = (if N - a < T then {N - a} else {}) \<union> (if T \<le> N - b then {N - b} else {})"
proof -
  have ab: "\<bar>a\<bar> < MS_PER_DAY" "\<bar>b\<bar> < MS_PER_DAY" using assms by (auto simp: one_transition_def)
  have "t \<in> instants_reading off N \<longleftrightarrow> t = N - a \<and> t < T \<or> t = N - b \<and> T \<le> t" for t
  proof
    assume "t \<in> instants_reading off N"
    then have "N - MS_PER_DAY \<le> t" "t \<le> N + MS_PER_DAY" "t + off t = N" by (simp_all add: instants_reading_def)
    then show "t = N - a \<and> t < T \<or> t = N - b \<and> T \<le> t"
      using one_transition_at[OF assms, of t] by (cases "t < T") simp_all
  next
    assume t: "t = N - a \<and> t < T \<or> t = N - b \<and> T \<le> t"
    then have "N - MS_PER_DAY \<le> t" "t \<le> N + MS_PER_DAY" using ab by linarith+
    then show "t \<in> instants_reading off N"
      using one_transition_at[OF assms, of t] t by (auto simp: instants_reading_def)
  qed
  then have "t \<in> instants_reading off N \<longleftrightarrow>
      t \<in> (if N - a < T then {N - a} else {}) \<union> (if T \<le> N - b then {N - b} else {})" for t
    by (simp only:) auto
  then show ?thesis by (rule set_eqI)
qed

lemma minutes_within_day: "w mod MS_PER_DAY div MS_PER_MINUTE = w div MS_PER_MINUTE mod 1440"
proof -
  have d: "MS_PER_DAY = MS_PER_MINUTE * 1440" by (simp add: MS_PER_DAY_def MS_PER_MINUTE_def)
  have m: "MS_PER_MINUTE \<noteq> 0" by (simp add: MS_PER_MINUTE_def)
  have "w mod (MS_PER_MINUTE * 1440) = MS_PER_MINUTE * (w div MS_PER_MINUTE mod 1440) + w mod MS_PER_MINUTE"
    by (rule zmod_zmult2_eq) simp
  then show ?thesis unfolding d by (simp only: div_mult_self4[OF m] mod_div_trivial add_0_right)
qed

lemma zp_time_minutes: "minutesOfDay (zp_time (parts_at off t)) = Some ((t + off t) div MS_PER_MINUTE mod 1440)"
proof -
  define r where "r = (t + off t) mod MS_PER_DAY"
  have r: "0 \<le> r" "r < 86400000" by (simp_all add: r_def MS_PER_DAY_def)
  have h: "0 \<le> r div 3600000" "r div 3600000 < 24" using r by (simp_all add: div_less_iff_less_mult pos_imp_zdiv_nonneg_iff)
  have u: "0 \<le> r mod 3600000" "r mod 3600000 < 3600000" by simp_all
  then have m: "0 \<le> r mod 3600000 div 60000" "r mod 3600000 div 60000 < 60"
    by (simp_all add: div_less_iff_less_mult pos_imp_zdiv_nonneg_iff)
  have "r = r mod 3600000 + r div 3600000 * 60 * 60000" by simp
  then have "r div 60000 = (r mod 3600000 + r div 3600000 * 60 * 60000) div 60000" by (rule arg_cong)
  also have "\<dots> = r div 3600000 * 60 + r mod 3600000 div 60000" by (rule div_mult_self1) simp
  finally have "r div 60000 = r div 3600000 * 60 + r mod 3600000 div 60000" .
  then have "minutesOfDay (clock_text (r div 3600000) (r mod 3600000 div 60000)) = Some (r div 60000)"
    using minutes_clock_text[OF h m] by simp
  moreover have "zp_time (parts_at off t) = clock_text (r div 3600000) (r mod 3600000 div 60000)"
    by (simp add: parts_at_def Let_def r_def MS_PER_HOUR_def MS_PER_MINUTE_def split: prod.split)
  ultimately show ?thesis using minutes_within_day[of "t + off t"] by (simp add: r_def MS_PER_MINUTE_def)
qed

lemma nominal_shift_minutes: "c mod MS_PER_MINUTE = 0 \<Longrightarrow>
  (nominal_of n k + c) div MS_PER_MINUTE mod 1440 = (k + c div MS_PER_MINUTE) mod 1440"
proof -
  assume "c mod MS_PER_MINUTE = 0"
  then have c: "c = c div MS_PER_MINUTE * MS_PER_MINUTE" by (simp add: mod_eq_0_iff_dvd)
  have "nominal_of n k + c = (n * 1440 + (k + c div MS_PER_MINUTE)) * MS_PER_MINUTE"
    using c by (simp add: nominal_of_def MS_PER_DAY_def MS_PER_MINUTE_def algebra_simps)
  then have "(nominal_of n k + c) div MS_PER_MINUTE = n * 1440 + (k + c div MS_PER_MINUTE)"
    by (simp add: MS_PER_MINUTE_def)
  then show ?thesis by simp
qed

text \<open>New York around its changes of 2024, and a zone whose clocks skip midnight.\<close>
definition sample_zones :: zone_database where
  "sample_zones zone =
     (if zone = ''America/New_York'' then
        Some (\<lambda>t. if t < 1710054000000 then - 18000000 else if t < 1730613600000 then - 14400000 else - 18000000)
      else if zone = ''America/Havana'' then Some (\<lambda>t. if t < 1710046800000 then - 18000000 else - 14400000)
      else None)"

text \<open>C22: Around at most one change of offset, a local time resolves to exactly the instants that read as it:
  \<open>unique\<close> when there is one, \<open>fold\<close> with both in order and the one the policy selects when there are two, and
  \<open>gap\<close> when there is none; then the instant taken reads later by exactly the width of the gap.\<close>
theorem local_time_resolution:
  assumes "daysFromEpoch date = Inr n" "modern_day + 4 \<le> n" "minutesOfDay time = Some k" "tz zone = Some off"
    and tr: "one_transition off (nominal_of n k - MS_PER_DAY) (nominal_of n k + MS_PER_DAY) T a b"
  shows "\<exists>r. resolveLocalTime tz zone date time pol = Inr r \<and>
    (case r of
       UniqueTime t ofs \<Rightarrow> instants_reading off (nominal_of n k) = {t} \<and> ofs = off t
     | FoldTime t ofs q e l \<Rightarrow>
         q = pol \<and> e < l \<and> instants_reading off (nominal_of n k) = {e, l} \<and>
         t = (if pol = Earliest then e else l) \<and> ofs = off t
     | GapTime t ofs shift text \<Rightarrow>
         instants_reading off (nominal_of n k) = {} \<and> ofs = off t \<and> shift = b - a \<and> 0 < shift \<and>
         t + ofs = nominal_of n k + shift \<and> minutesOfDay text = Some ((k + shift div MS_PER_MINUTE) mod 1440))"
proof -
  let ?N = "nominal_of n k"
  have k: "0 \<le> k" using minutesOfDay_range[OF assms(3)] by simp
  have ab: "\<bar>a\<bar> < MS_PER_DAY" "\<bar>b\<bar> < MS_PER_DAY" "(b - a) mod MS_PER_MINUTE = 0"
    using tr by (auto simp: one_transition_def mod_diff_eq[symmetric])
  have o: "off (?N - a) = (if ?N - a < T then a else b)" "off (?N - b) = (if ?N - b < T then a else b)"
    by (rule one_transition_at[OF tr]; use ab in linarith)+
  have gap: "minutesOfDay (zp_time (parts_at off (?N - a))) = Some ((k + (b - a) div MS_PER_MINUTE) mod 1440)"
    if "\<not> ?N - a < T"
  proof -
    have e: "?N - a + off (?N - a) = ?N + (b - a)" using o(1) that by simp
    show ?thesis unfolding zp_time_minutes e nominal_shift_minutes[OF ab(3)] ..
  qed
  note r = resolve_one_transition[OF tr nominal_of_minute nominal_of_modern[OF assms(2) k], of pol]
  show ?thesis
    unfolding resolveLocalTime_modern[where tz = tz and zone = zone, OF assms(1,3,4,2)] r instants_reading_one[OF tr]
    using o gap by (cases pol) (auto simp: Let_def)
qed


lemma local_time_resolution_witness:
  "\<exists>r. resolveLocalTime sample_zones ''America/New_York'' ''2024-03-10'' ''02:30'' Earliest = Inr r \<and>
    (case r of
       UniqueTime t ofs \<Rightarrow> False
     | FoldTime t ofs q e l \<Rightarrow> False
     | GapTime t ofs shift text \<Rightarrow> shift = 3600000 \<and> minutesOfDay text = Some 210)"
proof -
  let ?off = "\<lambda>t::int. if t < 1710054000000 then - 18000000 else if t < 1730613600000 then - 14400000 else - 18000000 :: int"
  have N: "nominal_of 19792 150 = 1710037800000" by (simp add: nominal_of_def MS_PER_DAY_def MS_PER_MINUTE_def)
  have d: "daysFromEpoch ''2024-03-10'' = Inr 19792" "minutesOfDay ''02:30'' = Some 150" by code_simp+
  have z: "sample_zones ''America/New_York'' = Some ?off" by (simp add: sample_zones_def)
  have tr: "one_transition ?off (nominal_of 19792 150 - MS_PER_DAY) (nominal_of 19792 150 + MS_PER_DAY) 1710054000000
      (- 18000000) (- 14400000)"
    unfolding N by (simp add: one_transition_def MS_PER_DAY_def MS_PER_MINUTE_def)
  have "instants_reading ?off (nominal_of 19792 150) = {}"
    unfolding instants_reading_one[OF tr] by (simp add: N)
  moreover have "modern_day + 4 \<le> 19792" by (simp add: modern_day_value)
  note local_time_resolution[where tz = sample_zones and zone = "''America/New_York''", OF d(1) this d(2) z tr, of Earliest]
  ultimately show ?thesis
    by (elim exE conjE, intro exI conjI) (assumption, auto simp: MS_PER_MINUTE_def split: LocalResolution.splits)
qed

section \<open>Intervals advance\<close>

lemma js_rem_1440: "js_rem (js_rem m 1440 + 1440) 1440 = m mod 1440"
proof -
  have "0 \<le> js_rem m 1440 + 1440" using js_rem_range[of 1440 m] by simp
  then have "js_rem (js_rem m 1440 + 1440) 1440 = (js_rem m 1440 + 1440) mod 1440" by (rule js_rem_nonneg) simp
  then show ?thesis using js_rem_cong[of 1440 m] by (simp only: mod_add_self2)
qed

lemma addLocalMinutes_at:
  assumes "daysFromEpoch date = Inr n" "minutesOfDay time = Some k"
    and "first_day \<le> n + (k + g) div 1440" "n + (k + g) div 1440 \<le> last_day"
  shows "\<exists>d t. addLocalMinutes date time g = Inr (d, t) \<and> daysFromEpoch d = Inr (n + (k + g) div 1440) \<and>
    minutesOfDay t = Some ((k + g) mod 1440)"
proof -
  let ?r = "(k + g) mod 1440"
  have r: "0 \<le> ?r" "?r < 1440" by simp_all
  have "0 \<le> ?r div 60" "?r div 60 < 24" "0 \<le> ?r mod 60" "?r mod 60 < 60"
    using r by (simp_all add: div_less_iff_less_mult pos_imp_zdiv_nonneg_iff)
  then have "minutesOfDay (clock_text (?r div 60) (?r mod 60)) = Some ?r" using minutes_clock_text by simp
  moreover have "daysFromEpoch (dateFromEpochDays (n + (k + g) div 1440)) = Inr (n + (k + g) div 1440)"
    by (rule days_of_date[OF assms(3,4)])
  ultimately show ?thesis
    using assms(1,2) by (auto simp: addLocalMinutes_def Let_def js_rem_1440 addDays_def)
qed

lemma nominal_of_split: "nominal_of (n + m div 1440) (m mod 1440) = nominal_of n 0 + m * MS_PER_MINUTE"
proof -
  define q u where "q = m div 1440" and "u = m mod 1440"
  have "m = q * 1440 + u" by (simp add: q_def u_def)
  then have "nominal_of (n + q) u = nominal_of n 0 + m * MS_PER_MINUTE"
    by (simp add: nominal_of_def MS_PER_DAY_def MS_PER_MINUTE_def)
  then show ?thesis by (simp only: q_def u_def)
qed

text \<open>The end of the interval for a start at \<open>S\<close> and an end at \<open>E\<close>, as instants.\<close>
lemma interval_advances:
  assumes tr: "one_transition off (S - MS_PER_DAY) (E + max 0 (b - a) + MS_PER_DAY) T a b"
    and N: "S mod MS_PER_MINUTE = 0" "E mod MS_PER_MINUTE = 0" "(modern_day + 4) * MS_PER_DAY \<le> S" "S < E"
    and r: "r = resolve off S Earliest"
    and q: "q = resolve off (E + gapShiftMinutes r * MS_PER_MINUTE) Latest"
  shows "res_instant r < res_instant q \<and>
    res_instant q - res_instant r =
      E - S + (case q of GapTime _ _ _ _ \<Rightarrow> 0 | _ \<Rightarrow> off (res_instant r) - off (res_instant q))"
proof -
  have ab: "\<bar>a\<bar> < MS_PER_DAY" "\<bar>b\<bar> < MS_PER_DAY" "(b - a) mod MS_PER_MINUTE = 0"
    using tr by (auto simp: one_transition_def mod_diff_eq[symmetric])
  have o: "off t = (if t < T then a else b)" if "S - MS_PER_DAY \<le> t" "t \<le> E + max 0 (b - a) + MS_PER_DAY" for t
    by (rule one_transition_at[OF tr that])
  have g: "((b - a) + 30000) div MS_PER_MINUTE * MS_PER_MINUTE = b - a"
  proof -
    obtain j where "b - a = MS_PER_MINUTE * j" using ab(3) by (auto simp: mod_eq_0_iff_dvd)
    then show ?thesis by (simp add: MS_PER_MINUTE_def)
  qed
  have w1: "one_transition off (S - MS_PER_DAY) (S + MS_PER_DAY) T a b"
    by (rule one_transition_window[OF tr]) (use N in auto)
  have r': "r = (if S - a < T \<and> T \<le> S - b then FoldTime (S - a) a Earliest (S - a) (S - b)
      else if S - a < T then UniqueTime (S - a) a
      else if T \<le> S - b then UniqueTime (S - b) b
      else GapTime (S - a) b (b - a) (zp_time (parts_at off (S - a))))"
    unfolding r resolve_one_transition[OF w1 N(1,3)] by (simp add: Let_def)
  have w2: "one_transition off (E' - MS_PER_DAY) (E' + MS_PER_DAY) T a b" if "S < E'" "E' \<le> E + max 0 (b - a)" for E'
    by (rule one_transition_window[OF tr]) (use that in auto)
  have q': "resolve off E' Latest = (if E' - a < T \<and> T \<le> E' - b then FoldTime (E' - b) b Latest (E' - a) (E' - b)
      else if E' - a < T then UniqueTime (E' - a) a
      else if T \<le> E' - b then UniqueTime (E' - b) b
      else GapTime (E' - a) b (b - a) (zp_time (parts_at off (E' - a))))"
    if "S < E'" "E' \<le> E + max 0 (b - a)" "E' mod MS_PER_MINUTE = 0" for E'
  proof -
    have "(modern_day + 4) * MS_PER_DAY \<le> E'" using N(3) that(1) by linarith
    from resolve_one_transition[OF w2[OF that(1,2)] that(3) this] show ?thesis by (simp add: Let_def)
  qed
  show ?thesis
  proof (cases "T \<le> S - a \<and> S - b < T")
    case True
    let ?E = "E + (b - a)"
    have "gapShiftMinutes r * MS_PER_MINUTE = b - a" using True r' g by simp
    moreover have "S < ?E" "?E \<le> E + max 0 (b - a)" "?E mod MS_PER_MINUTE = 0" using True N ab(3) by (auto simp: mod_add_eq[symmetric])
    note q'[OF this]
    moreover have "\<not> ?E - a < T" "T \<le> ?E - b" using True N by auto
    ultimately have "q = UniqueTime (E - a) b" using q by simp
    moreover have "off (S - a) = b" "off (E - a) = b" using o[of "S - a"] o[of "E - a"] True ab N by auto
    moreover have "res_instant r = S - a" using True r' by simp
    ultimately show ?thesis using N by simp
  next
    case False
    then have "gapShiftMinutes r = 0" using r' by auto
    then have q2: "q = (if E - a < T \<and> T \<le> E - b then FoldTime (E - b) b Latest (E - a) (E - b)
      else if E - a < T then UniqueTime (E - a) a
      else if T \<le> E - b then UniqueTime (E - b) b
      else GapTime (E - a) b (b - a) (zp_time (parts_at off (E - a))))" using q q'[of E] N by simp
    have "off (S - a) = (if S - a < T then a else b)" "off (S - b) = (if S - b < T then a else b)"
      "off (E - a) = (if E - a < T then a else b)" "off (E - b) = (if E - b < T then a else b)"
      by (rule o; use ab N(4) in linarith)+
    then show ?thesis using False N(4) r' q2 by (auto split: if_splits)
  qed
qed


lemma addDays_one: "daysFromEpoch date = Inr n \<Longrightarrow> n < last_day \<Longrightarrow> first_day \<le> n \<Longrightarrow>
  \<exists>d. addDays date 1 = Inr d \<and> daysFromEpoch d = Inr (n + 1)"
  by (simp add: addDays_def days_of_date)

text \<open>C23: Around at most one change of offset, a shift interval of the catalogue always resolves, its end is after
  its start, and it lasts as long as its wall-clock times say, but for the change of offset between the two; a
  start in a gap moves the whole interval, so that its length is exactly the authored one.\<close>
theorem shift_interval_advances:
  assumes "daysFromEpoch date = Inr n" "modern_day + 4 \<le> n" "n + 5 \<le> last_day"
    and "minutesOfDay startTime = Some s" "minutesOfDay endTime = Some e" "tz zone = Some off"
    and len: "len = (if e \<le> s then 1440 - s + e else e - s)"
    and tr: "one_transition off (nominal_of n s - MS_PER_DAY)
      (nominal_of n (s + len) + max 0 (b - a) + MS_PER_DAY) T a b"
  shows "\<exists>iv. resolveShiftInterval tz zone date startTime endTime = Inr iv \<and>
    si_startsAt iv < si_endsAt iv \<and> si_nominalMinutes iv = len \<and>
    si_endsAt iv - si_startsAt iv = len * MS_PER_MINUTE +
      (case si_end iv of GapTime _ _ _ _ \<Rightarrow> 0 | _ \<Rightarrow> off (si_startsAt iv) - off (si_endsAt iv))"
proof -
  have se: "0 \<le> s" "s < 1440" "0 \<le> e" "e < 1440" using minutesOfDay_range assms(4,5) by auto
  define ne where "ne = (if e \<le> s then n + 1 else n)"
  let ?S = "nominal_of n s" and ?E = "nominal_of n (s + len)"
  have ab: "\<bar>a\<bar> < MS_PER_DAY" "\<bar>b\<bar> < MS_PER_DAY" using tr by (auto simp: one_transition_def)
  have first: "first_day \<le> n" "n < last_day" using assms(2,3) by (auto simp: modern_day_value first_day_def)
  obtain endDate where ed: "(if e \<le> s then addDays date 1 else Inr date) = Inr endDate" "daysFromEpoch endDate = Inr ne"
    using addDays_one[OF assms(1) first(2,1)] assms(1) by (cases "e \<le> s") (auto simp: ne_def)
  have SE: "?S < ?E" "?E = nominal_of ne e" using se by (auto simp: nominal_of_def len ne_def MS_PER_DAY_def MS_PER_MINUTE_def)
  have hiS: "(modern_day + 4) * MS_PER_DAY \<le> ?S" by (rule nominal_of_modern[OF assms(2) se(1)])
  have w1: "one_transition off (?S - MS_PER_DAY) (?S + MS_PER_DAY) T a b"
    by (rule one_transition_window[OF tr]) (use SE in auto)
  define r where "r = resolve off ?S Earliest"
  have start: "resolveLocalTime tz zone date startTime Earliest = Inr r"
    unfolding r_def by (rule resolveLocalTime_modern[where tz = tz and zone = zone, OF assms(1,4,6,2)])
  let ?g = "gapShiftMinutes r"
  have g: "0 \<le> ?g \<and> ?g < 2881"
  proof -
    have "?g \<le> (2 * MS_PER_DAY + 30000) div MS_PER_MINUTE \<and> 0 \<le> ?g"
      unfolding r_def resolve_one_transition[OF w1 nominal_of_minute hiS]
      using ab by (auto simp: Let_def MS_PER_MINUTE_def intro!: zdiv_mono1)
    then show ?thesis by (simp add: MS_PER_DAY_def MS_PER_MINUTE_def)
  qed
  have dd: "0 \<le> (e + ?g) div 1440" "(e + ?g) div 1440 \<le> 3" using g se by (auto simp: pos_imp_zdiv_nonneg_iff)
  have "first_day \<le> ne + (e + ?g) div 1440" "ne + (e + ?g) div 1440 \<le> last_day"
    using dd first assms(3) by (auto simp: ne_def)
  from addLocalMinutes_at[OF ed(2) assms(5) this] obtain d t where
    dt: "addLocalMinutes endDate endTime ?g = Inr (d, t)" "daysFromEpoch d = Inr (ne + (e + ?g) div 1440)"
      "minutesOfDay t = Some ((e + ?g) mod 1440)" by blast
  define q where "q = resolve off (nominal_of (ne + (e + ?g) div 1440) ((e + ?g) mod 1440)) Latest"
  have "modern_day + 4 \<le> ne + (e + ?g) div 1440" using assms(2) dd by (auto simp: ne_def)
  from resolveLocalTime_modern[where tz = tz and zone = zone, OF dt(2,3) assms(6) this]
  have ending: "resolveLocalTime tz zone d t Latest = Inr q" by (simp add: q_def)
  have "nominal_of (ne + (e + ?g) div 1440) ((e + ?g) mod 1440) = ?E + ?g * MS_PER_MINUTE"
    unfolding nominal_of_split SE(2) by (simp add: nominal_of_def algebra_simps)
  then have q: "q = resolve off (?E + ?g * MS_PER_MINUTE) Latest" by (simp only: q_def)
  have adv: "res_instant r < res_instant q \<and> res_instant q - res_instant r =
      ?E - ?S + (case q of GapTime _ _ _ _ \<Rightarrow> 0 | _ \<Rightarrow> off (res_instant r) - off (res_instant q))"
    by (rule interval_advances[OF tr nominal_of_minute nominal_of_minute hiS SE(1) r_def q])
  have "?E - ?S = len * MS_PER_MINUTE" by (simp add: nominal_of_def algebra_simps)
  then show ?thesis
    using adv
    by (simp add: resolveShiftInterval_def assms(4,5) ed(1) start dt(1) ending Let_def len split: LocalResolution.split)
qed

lemma shift_interval_advances_witness:
  "\<exists>iv. resolveShiftInterval sample_zones ''America/New_York'' ''2024-03-10'' ''02:30'' ''03:00'' = Inr iv \<and>
    si_startsAt iv < si_endsAt iv \<and> si_nominalMinutes iv = 30"
proof -
  let ?off = "\<lambda>t::int. if t < 1710054000000 then - 18000000 else if t < 1730613600000 then - 14400000 else - 18000000 :: int"
  have N: "nominal_of 19792 150 = 1710037800000" "nominal_of 19792 180 = 1710039600000"
    by (simp_all add: nominal_of_def MS_PER_DAY_def MS_PER_MINUTE_def)
  have d: "daysFromEpoch ''2024-03-10'' = Inr 19792" "minutesOfDay ''02:30'' = Some 150"
    "minutesOfDay ''03:00'' = Some 180" by code_simp+
  have z: "sample_zones ''America/New_York'' = Some ?off" by (simp add: sample_zones_def)
  have tr: "one_transition ?off (nominal_of 19792 150 - MS_PER_DAY)
      (nominal_of 19792 (150 + 30) + max 0 (- 14400000 - - 18000000) + MS_PER_DAY) 1710054000000 (- 18000000) (- 14400000)"
    by (simp add: N one_transition_def MS_PER_DAY_def MS_PER_MINUTE_def)
  show ?thesis
    using shift_interval_advances[where tz = sample_zones and zone = "''America/New_York''" and len = 30,
      OF d(1) _ _ d(2,3) z _ tr]
    by (auto simp: modern_day_value last_day_def)
qed

end
