(* ===== verification/RuleAst.thy ===== *)
theory RuleAst
  imports JsNumber
begin

text \<open>
  \<open>packages/domain/src/rules/ast.ts\<close>: the closed rule language. A node is one constructor per member of
  the \<open>RuleNode\<close> union, fields in the order of the interface; string unions stay strings because
  the validator tests membership at run time. JSON values (\<open>unknown\<close>, \<open>Json\<close>) are \<open>jsval\<close>.
\<close>

section \<open>JSON values\<close>

datatype jsval =
    Undef
  | Null
  | Bool bool
  | Num jsnum
  | Str string
  | Arr "jsval list"
  | Obj "(string \<times> jsval) list"

type_synonym json_object = "(string \<times> jsval) list"

text \<open>Property access on an object: an absent property is \<open>undefined\<close>.\<close>
definition get :: "json_object \<Rightarrow> string \<Rightarrow> jsval" where
  "get ob k = (case map_of ob k of None \<Rightarrow> Undef | Some v \<Rightarrow> v)"

text \<open>\<open>typeof v === 'string' ? v : null\<close> and its companions.\<close>
fun as_string :: "jsval \<Rightarrow> string option" where
  "as_string (Str s) = Some s"
| "as_string _ = None"

fun as_number :: "jsval \<Rightarrow> jsnum option" where
  "as_number (Num n) = Some n"
| "as_number _ = None"

fun as_array :: "jsval \<Rightarrow> jsval list option" where
  "as_array (Arr vs) = Some vs"
| "as_array _ = None"

definition strings_of :: "jsval list \<Rightarrow> string list" where
  "strings_of vs = List.map_filter as_string vs"

definition numbers_of :: "jsval list \<Rightarrow> jsnum list" where
  "numbers_of vs = List.map_filter as_number vs"

lemma get_simps [simp]:
  "get [] k = Undef"
  "get ((j, v) # ob) k = (if k = j then v else get ob k)"
  by (simp_all add: get_def)

lemma strings_of_Str [simp]: "strings_of (map Str xs) = xs"
  by (induction xs) (simp_all add: strings_of_def List.map_filter_def)

lemma numbers_of_Num [simp]: "numbers_of (map Num xs) = xs"
  by (induction xs) (simp_all add: numbers_of_def List.map_filter_def)

text \<open>\<open>forEach((x, i) => ...)\<close>: the elements with their indices.\<close>
fun number_list :: "nat \<Rightarrow> 'a list \<Rightarrow> (nat \<times> 'a) list" where
  "number_list i [] = []"
| "number_list i (x # xs) = (i, x) # number_list (Suc i) xs"

lemma set_number_list: "set (number_list i xs) = {(i + j, xs ! j) | j. j < length xs}"
proof (induction xs arbitrary: i)
  case (Cons x xs)
  have "{(i + j, (x # xs) ! j) | j. j < length (x # xs)} =
    insert (i, x) {(Suc i + j, xs ! j) | j. j < length xs}"
    by (auto simp: less_Suc_eq_0_disj)
  then show ?case using Cons by simp
qed simp

lemma map_snd_number_list [simp]: "map snd (number_list i xs) = xs"
  by (induction xs arbitrary: i) simp_all

section \<open>Vocabularies\<close>

definition RULE_CLASSIFICATIONS :: "string list" where
  "RULE_CLASSIFICATIONS = [''HARD'', ''SOFT'']"

definition RULE_WEEKDAYS :: "string list" where
  "RULE_WEEKDAYS = [''mon'', ''tue'', ''wed'', ''thu'', ''fri'', ''sat'', ''sun'', ''holiday'']"

definition PREFERENCE_STRENGTHS :: "string list" where
  "PREFERENCE_STRENGTHS = [''strong_prefer'', ''prefer'', ''avoid'', ''strong_avoid'']"

definition FAIRNESS_METRICS :: "string list" where
  "FAIRNESS_METRICS = [''credits'', ''assignments'', ''weekend_load'', ''call_load'']"

definition FAIRNESS_NORMALISATIONS :: "string list" where
  "FAIRNESS_NORMALISATIONS = [''none'', ''per_fte'', ''per_eligible_day'']"

definition LOCUM_RESTRICTIONS :: "string list" where
  "LOCUM_RESTRICTIONS = [''no_locum'', ''locum_only'', ''locum_last_resort'']"

section \<open>Scope and nodes\<close>

record DateRange =
  dr_from :: string
  dr_to :: string

record RuleScope =
  dateRange :: "DateRange option"
  shiftTypes :: "string list option"
  staffGroups :: "string list option"
  memberships :: "string list option"

record PatternSegment =
  offsetDays :: jsnum
  seg_shiftType :: string

datatype RuleNode =
    RequiredCount jsnum
  | MinCoverage jsnum
  | MaxCoverage jsnum
  | RequiresQualification string string
  | MemberOfStaffGroup string
  | ValidGroupRestriction string
  | PickPositionRestriction "jsnum list"
  | MaxAssignmentsInWindow jsnum jsnum
  | WeekdayFteLimit string jsnum
  | WorkPercentageTarget jsnum
  | MaxConsecutive jsnum
  | MinimumRestBetween jsnum
  | CallSpacing jsnum
  | NoAdjacent string string
  | ForbiddenSequence "string list"
  | PatternRule string "string list" "PatternSegment list"
  | AlternatingWeek string jsnum
  | TemplateAdherence string jsnum
  | LinkedShifts "string list"
  | ImpliesAssignment string string
  | MutuallyExclusive "string list"
  | RequestHonoured string
  | ShiftPreference string string
  | AvoidDate string
  | FairnessBalance string string
  | CreditDistribution string
  | StaffOverLocumPriority jsnum
  | LocumRestriction string
  | FixedAssignment string
  | ProtectedRange string string

fun node_kind :: "RuleNode \<Rightarrow> string" where
  "node_kind (RequiredCount _) = ''RequiredCount''"
| "node_kind (MinCoverage _) = ''MinCoverage''"
| "node_kind (MaxCoverage _) = ''MaxCoverage''"
| "node_kind (RequiresQualification _ _) = ''RequiresQualification''"
| "node_kind (MemberOfStaffGroup _) = ''MemberOfStaffGroup''"
| "node_kind (ValidGroupRestriction _) = ''ValidGroupRestriction''"
| "node_kind (PickPositionRestriction _) = ''PickPositionRestriction''"
| "node_kind (MaxAssignmentsInWindow _ _) = ''MaxAssignmentsInWindow''"
| "node_kind (WeekdayFteLimit _ _) = ''WeekdayFteLimit''"
| "node_kind (WorkPercentageTarget _) = ''WorkPercentageTarget''"
| "node_kind (MaxConsecutive _) = ''MaxConsecutive''"
| "node_kind (MinimumRestBetween _) = ''MinimumRestBetween''"
| "node_kind (CallSpacing _) = ''CallSpacing''"
| "node_kind (NoAdjacent _ _) = ''NoAdjacent''"
| "node_kind (ForbiddenSequence _) = ''ForbiddenSequence''"
| "node_kind (PatternRule _ _ _) = ''PatternRule''"
| "node_kind (AlternatingWeek _ _) = ''AlternatingWeek''"
| "node_kind (TemplateAdherence _ _) = ''TemplateAdherence''"
| "node_kind (LinkedShifts _) = ''LinkedShifts''"
| "node_kind (ImpliesAssignment _ _) = ''ImpliesAssignment''"
| "node_kind (MutuallyExclusive _) = ''MutuallyExclusive''"
| "node_kind (RequestHonoured _) = ''RequestHonoured''"
| "node_kind (ShiftPreference _ _) = ''ShiftPreference''"
| "node_kind (AvoidDate _) = ''AvoidDate''"
| "node_kind (FairnessBalance _ _) = ''FairnessBalance''"
| "node_kind (CreditDistribution _) = ''CreditDistribution''"
| "node_kind (StaffOverLocumPriority _) = ''StaffOverLocumPriority''"
| "node_kind (LocumRestriction _) = ''LocumRestriction''"
| "node_kind (FixedAssignment _) = ''FixedAssignment''"
| "node_kind (ProtectedRange _ _) = ''ProtectedRange''"

definition RULE_NODE_KINDS :: "string list" where
  "RULE_NODE_KINDS =
     [''RequiredCount'', ''MinCoverage'', ''MaxCoverage'', ''RequiresQualification'',
      ''MemberOfStaffGroup'', ''ValidGroupRestriction'', ''PickPositionRestriction'',
      ''MaxAssignmentsInWindow'', ''WeekdayFteLimit'', ''WorkPercentageTarget'', ''MaxConsecutive'',
      ''MinimumRestBetween'', ''CallSpacing'', ''NoAdjacent'', ''ForbiddenSequence'', ''PatternRule'',
      ''AlternatingWeek'', ''TemplateAdherence'', ''LinkedShifts'', ''ImpliesAssignment'',
      ''MutuallyExclusive'', ''RequestHonoured'', ''ShiftPreference'', ''AvoidDate'',
      ''FairnessBalance'', ''CreditDistribution'', ''StaffOverLocumPriority'', ''LocumRestriction'',
      ''FixedAssignment'', ''ProtectedRange'']"

definition isRuleNodeKind :: "string \<Rightarrow> bool" where
  "isRuleNodeKind k \<longleftrightarrow> k \<in> set RULE_NODE_KINDS"

definition RULE_SCHEMA_VERSION :: int where
  "RULE_SCHEMA_VERSION = 1"

section \<open>Rules\<close>

text \<open>What an untyped author can add to a rule beyond the declared members: surplus members of the
  predicate, of the segments of a pattern (by index), of the scope and of its date range.\<close>
record Surplus =
  on_node :: json_object
  on_segment :: "nat \<Rightarrow> json_object"
  on_scope :: json_object
  on_range :: json_object

definition no_surplus :: Surplus where
  "no_surplus = \<lparr>on_node = [], on_segment = (\<lambda>_. []), on_scope = [], on_range = []\<rparr>"

text \<open>\<open>HardRule | SoftRule\<close>. The weight of a hard rule is absent (\<open>undefined\<close>) by its type; the validator
  still tests it, so both members carry an optional weight and the classification string.\<close>
record Rule =
  ruleKey :: string
  rule_name :: string
  ruleSchemaVersion :: int
  classification :: string
  weight :: "jsnum option"
  rscope :: RuleScope
  predicate :: RuleNode
  surplus :: Surplus

definition ruleSensitivity :: "Rule \<Rightarrow> string" where
  "ruleSensitivity rule =
     (case memberships (rscope rule) of
        None \<Rightarrow> ''NONE''
      | Some ms \<Rightarrow> if length ms > 0 then ''INTERNAL'' else ''NONE'')"

section \<open>A node as the object it is at run time\<close>

definition segment_members :: "PatternSegment \<Rightarrow> json_object" where
  "segment_members s = [(''offsetDays'', Num (offsetDays s)), (''shiftType'', Str (seg_shiftType s))]"

text \<open>The members of each interface besides \<open>kind\<close>, in declaration order.\<close>
fun node_members :: "RuleNode \<Rightarrow> json_object" where
  "node_members (RequiredCount n) = [(''count'', Num n)]"
| "node_members (MinCoverage n) = [(''min'', Num n)]"
| "node_members (MaxCoverage n) = [(''max'', Num n)]"
| "node_members (RequiresQualification q v) = [(''qualification'', Str q), (''validAt'', Str v)]"
| "node_members (MemberOfStaffGroup g) = [(''staffGroup'', Str g)]"
| "node_members (ValidGroupRestriction g) = [(''validGroup'', Str g)]"
| "node_members (PickPositionRestriction ps) = [(''allowedPickPositions'', Arr (map Num ps))]"
| "node_members (MaxAssignmentsInWindow m w) = [(''max'', Num m), (''windowDays'', Num w)]"
| "node_members (WeekdayFteLimit d f) = [(''weekday'', Str d), (''fteFraction'', Num f)]"
| "node_members (WorkPercentageTarget t) = [(''targetPercentage'', Num t)]"
| "node_members (MaxConsecutive d) = [(''maxDays'', Num d)]"
| "node_members (MinimumRestBetween h) = [(''minHours'', Num h)]"
| "node_members (CallSpacing d) = [(''minDaysBetweenCalls'', Num d)]"
| "node_members (NoAdjacent a b) = [(''shiftTypeA'', Str a), (''shiftTypeB'', Str b)]"
| "node_members (ForbiddenSequence cs) = [(''sequence'', Arr (map Str cs))]"
| "node_members (PatternRule t ds ss) =
     [(''trigger'', Str t), (''daysOfWeek'', Arr (map Str ds)),
      (''segments'', Arr (map (\<lambda>s. Obj (segment_members s)) ss))]"
| "node_members (AlternatingWeek c w) = [(''onShiftType'', Str c), (''cycleWeeks'', Num w)]"
| "node_members (TemplateAdherence t w) = [(''template'', Str t), (''cycleWeeks'', Num w)]"
| "node_members (LinkedShifts cs) = [(''shiftTypes'', Arr (map Str cs))]"
| "node_members (ImpliesAssignment a b) = [(''ifShiftType'', Str a), (''thenShiftType'', Str b)]"
| "node_members (MutuallyExclusive cs) = [(''shiftTypes'', Arr (map Str cs))]"
| "node_members (RequestHonoured t) = [(''requestType'', Str t)]"
| "node_members (ShiftPreference c st) = [(''shiftType'', Str c), (''strength'', Str st)]"
| "node_members (AvoidDate d) = [(''date'', Str d)]"
| "node_members (FairnessBalance m n) = [(''metric'', Str m), (''normalisation'', Str n)]"
| "node_members (CreditDistribution m) = [(''metric'', Str m)]"
| "node_members (StaffOverLocumPriority w) = [(''windowDays'', Num w)]"
| "node_members (LocumRestriction r) = [(''restriction'', Str r)]"
| "node_members (FixedAssignment i) = [(''assignmentIdentity'', Str i)]"
| "node_members (ProtectedRange f t) = [(''from'', Str f), (''to'', Str t)]"

text \<open>The whole predicate object: the kind, the declared members and the surplus of an untyped author.\<close>
fun with_segments :: "(nat \<Rightarrow> json_object) \<Rightarrow> jsval \<Rightarrow> jsval" where
  "with_segments f (Arr vs) =
     Arr (map (\<lambda>(i, v). case v of Obj ob \<Rightarrow> Obj (ob @ f i) | _ \<Rightarrow> v) (number_list 0 vs))"
| "with_segments f v = v"

definition node_object :: "RuleNode \<Rightarrow> Surplus \<Rightarrow> json_object" where
  "node_object n su =
     (''kind'', Str (node_kind n)) #
     map (\<lambda>(k, v). (k, if k = ''segments'' then with_segments (on_segment su) v else v))
       (node_members n) @ on_node su"

lemma node_kind_known: "isRuleNodeKind (node_kind n)"
  by (cases n) (simp_all add: isRuleNodeKind_def RULE_NODE_KINDS_def)

end
