(* ===== verification/RuleBounds.thy ===== *)
theory RuleBounds
  imports RuleAst
begin

text \<open>
  \<open>packages/domain/src/rules/bounds.ts\<close>: the limits on an authored rule. \<open>problems.push\<close> is a list
  that grows at the end, so each helper returns the problems it pushes.
\<close>

record BoundProblem =
  path :: string
  message :: string

definition problem :: "string \<Rightarrow> string \<Rightarrow> BoundProblem" where
  "problem p m = \<lparr>path = p, message = m\<rparr>"

definition maxNodeDepth :: nat where "maxNodeDepth = 3"
definition maxSequenceLength :: nat where "maxSequenceLength = 32"
definition maxShiftTypesInNode :: nat where "maxShiftTypesInNode = 64"
definition maxPatternSegments :: nat where "maxPatternSegments = 64"
definition maxDaysOfWeek :: nat where "maxDaysOfWeek = 8"
definition maxPickPositions :: nat where "maxPickPositions = 64"
definition maxCount :: nat where "maxCount = 10000"
definition maxWindowDays :: nat where "maxWindowDays = 366"
definition maxDays :: nat where "maxDays = 366"
definition maxRestHours :: nat where "maxRestHours = 8760"
definition maxCycleWeeks :: nat where "maxCycleWeeks = 260"
definition maxSegmentOffsetDays :: nat where "maxSegmentOffsetDays = 366"
definition maxScopeShiftTypes :: nat where "maxScopeShiftTypes = 200"
definition maxScopeStaffGroups :: nat where "maxScopeStaffGroups = 200"
definition maxScopeMemberships :: nat where "maxScopeMemberships = 1000"
definition maxIdentifierLength :: nat where "maxIdentifierLength = 64"
definition maxFindingsPerRule :: nat where "maxFindingsPerRule = 100"

lemmas AST_BOUNDS = maxNodeDepth_def maxSequenceLength_def maxShiftTypesInNode_def
  maxPatternSegments_def maxDaysOfWeek_def maxPickPositions_def maxCount_def maxWindowDays_def
  maxDays_def maxRestHours_def maxCycleWeeks_def maxSegmentOffsetDays_def maxScopeShiftTypes_def
  maxScopeStaffGroups_def maxScopeMemberships_def maxIdentifierLength_def maxFindingsPerRule_def

fun valueDepth :: "jsval \<Rightarrow> nat" where
  "valueDepth (Arr vs) = 1 + foldl max 0 (map valueDepth vs)"
| "valueDepth (Obj ms) = 1 + foldl max 0 (map (\<lambda>(k, v). valueDepth v) ms)"
| "valueDepth _ = 0"

definition tooLong :: "string \<Rightarrow> 'a list \<Rightarrow> nat \<Rightarrow> string \<Rightarrow> BoundProblem list" where
  "tooLong p vs limit label =
     (if length vs > limit
      then [problem p (label @ '' may not have more than '' @ string_of_nat limit @ '' entries.'')]
      else [])"

definition js_abs_gt :: "jsnum \<Rightarrow> nat \<Rightarrow> bool" where
  "js_abs_gt x limit \<longleftrightarrow> js_isFinite x \<and> (js_lt (num (int limit)) x \<or> js_lt x (num (- int limit)))"

definition tooLarge :: "string \<Rightarrow> jsnum \<Rightarrow> nat \<Rightarrow> string \<Rightarrow> BoundProblem list" where
  "tooLarge p x limit label =
     (if js_abs_gt x limit
      then [problem p (label @ '' may not exceed '' @ string_of_nat limit @ ''.'')] else [])"

definition tooLongIdentifier :: "string \<Rightarrow> string \<Rightarrow> BoundProblem list" where
  "tooLongIdentifier p s =
     (if length s > maxIdentifierLength
      then [problem p (''This identifier may not be longer than '' @
              string_of_nat maxIdentifierLength @ '' characters.'')] else [])"

definition each :: "(string \<Rightarrow> 'a \<Rightarrow> BoundProblem list) \<Rightarrow> 'a list \<Rightarrow> BoundProblem list" where
  "each f xs = concat (map (\<lambda>(i, x). f (string_of_nat i) x) (number_list 0 xs))"

fun node_limits :: "(string \<Rightarrow> string) \<Rightarrow> RuleNode \<Rightarrow> BoundProblem list" where
  "node_limits fld (RequiredCount n) = tooLarge (fld ''count'') n maxCount ''The required count''"
| "node_limits fld (MinCoverage n) = tooLarge (fld ''min'') n maxCount ''The minimum coverage''"
| "node_limits fld (MaxCoverage n) = tooLarge (fld ''max'') n maxCount ''The maximum coverage''"
| "node_limits fld (RequiresQualification q v) = tooLongIdentifier (fld ''qualification'') q"
| "node_limits fld (MemberOfStaffGroup g) = tooLongIdentifier (fld ''staffGroup'') g"
| "node_limits fld (ValidGroupRestriction g) = tooLongIdentifier (fld ''validGroup'') g"
| "node_limits fld (PickPositionRestriction ps) =
     tooLong (fld ''allowedPickPositions'') ps maxPickPositions ''The pick-position list'' @
     each (\<lambda>i p. tooLarge (fld (''allowedPickPositions.'' @ i)) p maxCount ''A pick position'') ps"
| "node_limits fld (MaxAssignmentsInWindow m w) =
     tooLarge (fld ''max'') m maxCount ''The maximum'' @
     tooLarge (fld ''windowDays'') w maxWindowDays ''The window length in days''"
| "node_limits fld (WeekdayFteLimit d f) = []"
| "node_limits fld (WorkPercentageTarget t) = []"
| "node_limits fld (MaxConsecutive d) =
     tooLarge (fld ''maxDays'') d maxDays ''The maximum consecutive days''"
| "node_limits fld (MinimumRestBetween h) =
     tooLarge (fld ''minHours'') h maxRestHours ''The minimum rest in hours''"
| "node_limits fld (CallSpacing d) =
     tooLarge (fld ''minDaysBetweenCalls'') d maxDays ''The minimum days between calls''"
| "node_limits fld (NoAdjacent a b) =
     tooLongIdentifier (fld ''shiftTypeA'') a @ tooLongIdentifier (fld ''shiftTypeB'') b"
| "node_limits fld (ForbiddenSequence cs) =
     tooLong (fld ''sequence'') cs maxSequenceLength ''A forbidden sequence'' @
     each (\<lambda>i c. tooLongIdentifier (fld (''sequence.'' @ i)) c) cs"
| "node_limits fld (PatternRule t ds ss) =
     tooLongIdentifier (fld ''trigger'') t @
     tooLong (fld ''daysOfWeek'') ds maxDaysOfWeek ''The days-of-week list'' @
     tooLong (fld ''segments'') ss maxPatternSegments ''A pattern'' @
     each (\<lambda>i s.
       tooLarge (fld (''segments.'' @ i @ ''.offsetDays'')) (offsetDays s) maxSegmentOffsetDays
         ''A segment offset in days'' @
       tooLongIdentifier (fld (''segments.'' @ i @ ''.shiftType'')) (seg_shiftType s)) ss"
| "node_limits fld (AlternatingWeek c w) =
     tooLongIdentifier (fld ''onShiftType'') c @
     tooLarge (fld ''cycleWeeks'') w maxCycleWeeks ''The cycle length in weeks''"
| "node_limits fld (TemplateAdherence t w) =
     tooLongIdentifier (fld ''template'') t @
     tooLarge (fld ''cycleWeeks'') w maxCycleWeeks ''The cycle length in weeks''"
| "node_limits fld (LinkedShifts cs) =
     tooLong (fld ''shiftTypes'') cs maxShiftTypesInNode ''The shift-type list'' @
     each (\<lambda>i c. tooLongIdentifier (fld (''shiftTypes.'' @ i)) c) cs"
| "node_limits fld (MutuallyExclusive cs) =
     tooLong (fld ''shiftTypes'') cs maxShiftTypesInNode ''The shift-type list'' @
     each (\<lambda>i c. tooLongIdentifier (fld (''shiftTypes.'' @ i)) c) cs"
| "node_limits fld (ImpliesAssignment a b) =
     tooLongIdentifier (fld ''ifShiftType'') a @ tooLongIdentifier (fld ''thenShiftType'') b"
| "node_limits fld (RequestHonoured t) = tooLongIdentifier (fld ''requestType'') t"
| "node_limits fld (ShiftPreference c st) = tooLongIdentifier (fld ''shiftType'') c"
| "node_limits fld (AvoidDate d) = []"
| "node_limits fld (ProtectedRange f t) = []"
| "node_limits fld (FairnessBalance m n) = []"
| "node_limits fld (CreditDistribution m) = []"
| "node_limits fld (StaffOverLocumPriority w) =
     tooLarge (fld ''windowDays'') w maxWindowDays ''The window length in days''"
| "node_limits fld (LocumRestriction r) = []"
| "node_limits fld (FixedAssignment i) = tooLongIdentifier (fld ''assignmentIdentity'') i"

definition nodeBoundProblems :: "RuleNode \<Rightarrow> Surplus \<Rightarrow> string \<Rightarrow> BoundProblem list" where
  "nodeBoundProblems node su base =
     (if valueDepth (Obj (node_object node su)) > maxNodeDepth
      then [problem base (''A rule predicate may not nest more than '' @ string_of_nat maxNodeDepth @
              '' levels deep.'')] else []) @
     node_limits (\<lambda>suffix. base @ ''.'' @ suffix) node"

definition or_empty :: "'a list option \<Rightarrow> 'a list" where
  "or_empty x = (case x of None \<Rightarrow> [] | Some vs \<Rightarrow> vs)"

definition scope_fields :: "RuleScope \<Rightarrow> (string \<times> string list option) list" where
  "scope_fields s =
     [(''shiftTypes'', shiftTypes s), (''staffGroups'', staffGroups s), (''memberships'', memberships s)]"

definition scopeBoundProblems :: "Rule \<Rightarrow> BoundProblem list" where
  "scopeBoundProblems rule =
     tooLong ''scope.shiftTypes'' (or_empty (shiftTypes (rscope rule))) maxScopeShiftTypes
       ''The shift-type scope'' @
     tooLong ''scope.staffGroups'' (or_empty (staffGroups (rscope rule))) maxScopeStaffGroups
       ''The staff-group scope'' @
     tooLong ''scope.memberships'' (or_empty (memberships (rscope rule))) maxScopeMemberships
       ''The membership scope'' @
     concat (map (\<lambda>(field, values).
         each (\<lambda>i v. tooLongIdentifier (''scope.'' @ field @ ''.'' @ i) v) (or_empty values))
       (scope_fields (rscope rule)))"

definition scopeCardinality :: "Rule \<Rightarrow> nat" where
  "scopeCardinality rule =
     length (or_empty (shiftTypes (rscope rule))) + length (or_empty (staffGroups (rscope rule))) +
     length (or_empty (memberships (rscope rule)))"

text \<open>\<open>Math.log2\<close> is the real logarithm here (its last bit is implementation-defined in JavaScript).\<close>
definition evaluationCostBound :: "Rule \<Rightarrow> nat \<Rightarrow> int" where
  "evaluationCostBound rule assignmentCount =
     (let a = max assignmentCount 1 in
      \<lceil>real a * log 2 (real a + 1)\<rceil> + int (a * (scopeCardinality rule + 1)))"

definition maximumEvaluationCostBound :: "nat \<Rightarrow> int" where
  "maximumEvaluationCostBound assignmentCount =
     (let a = max assignmentCount 1;
          maxScope = maxScopeShiftTypes + maxScopeStaffGroups + maxScopeMemberships
      in \<lceil>real a * log 2 (real a + 1)\<rceil> + int (a * (maxScope + 1)))"

lemma each_Nil_iff: "each f xs = [] \<longleftrightarrow> (\<forall>i < length xs. f (string_of_nat i) (xs ! i) = [])"
  by (auto simp: each_def set_number_list)

lemma tooLong_Nil [simp]: "tooLong p vs l m = [] \<longleftrightarrow> length vs \<le> l"
  by (simp add: tooLong_def)

lemma tooLongIdentifier_Nil [simp]: "tooLongIdentifier p s = [] \<longleftrightarrow> length s \<le> 64"
  by (simp add: tooLongIdentifier_def maxIdentifierLength_def)

lemma tooLarge_num [simp]: "tooLarge p (num k) l m = [] \<longleftrightarrow> \<bar>k\<bar> \<le> int l"
  by (auto simp: tooLarge_def js_abs_gt_def)

lemma scope_within_bounds:
  assumes "scopeBoundProblems rule = []"
  shows "scopeCardinality rule \<le> 1400"
  using assms by (simp add: scopeBoundProblems_def scopeCardinality_def AST_BOUNDS)

text \<open>No rule the bound checks admit costs more than the declared ceiling, at any number of
  assignments.\<close>
theorem evaluation_cost_capped:
  assumes "scopeBoundProblems rule = []"
  shows "evaluationCostBound rule n \<le> maximumEvaluationCostBound n"
  using scope_within_bounds[OF assms]
  by (simp add: evaluationCostBound_def maximumEvaluationCostBound_def Let_def AST_BOUNDS
      mult_le_mono2 flip: of_nat_add of_nat_mult)

lemma evaluation_cost_capped_witness:
  "evaluationCostBound \<lparr>ruleKey = ''r'', rule_name = ''Rest'', ruleSchemaVersion = 1, classification = ''HARD'',
      weight = None,
      rscope = \<lparr>dateRange = None, shiftTypes = Some [''D''], staffGroups = None, memberships = Some [''m'']\<rparr>,
      predicate = MinimumRestBetween (num 11), surplus = no_surplus\<rparr> 500 \<le> maximumEvaluationCostBound 500"
  by (rule evaluation_cost_capped)
    (simp add: scopeBoundProblems_def scope_fields_def or_empty_def each_Nil_iff less_Suc_eq AST_BOUNDS)

end
