(* ===== verification/RuleValidate.thy ===== *)
theory RuleValidate
  imports RuleBounds EcmaDate
begin

text \<open>
  \<open>packages/domain/src/rules/validate.ts\<close>: structural validation of an authored rule. Every check
  returns the problems it pushes, in order; a rule is valid when the list is empty.
\<close>

type_synonym RuleProblem = BoundProblem

section \<open>Field checks\<close>

definition isFiniteNumber :: "jsnum \<Rightarrow> bool" where
  "isFiniteNumber x \<longleftrightarrow> js_isFinite x"

definition isPositiveInt :: "jsnum \<Rightarrow> bool" where
  "isPositiveInt x \<longleftrightarrow> isFiniteNumber x \<and> js_isInteger x \<and> js_lt (num 0) x"

definition isNonNegativeInt :: "jsnum \<Rightarrow> bool" where
  "isNonNegativeInt x \<longleftrightarrow> isFiniteNumber x \<and> js_isInteger x \<and> js_le (num 0) x"

text \<open>\<open>Date.parse(value + 'T00:00:00Z')\<close> for a ten-character date: months 1 to 12 and days 1 to 31 parse,
  and a day past the end of its month rolls over. The result is a day number.\<close>
definition date_parse_day :: "string \<Rightarrow> int option" where
  "date_parse_day value =
     (case SHAPE value of
        None \<Rightarrow> None
      | Some (ys, ms, ds) \<Rightarrow>
          (let m = number_of_digits ms; d = number_of_digits ds in
           if 1 \<le> m \<and> m \<le> 12 \<and> 1 \<le> d \<and> d \<le> 31
           then Some (MakeDay (number_of_digits ys) (m - 1) d) else None))"

definition isValidDate :: "string \<Rightarrow> bool" where
  "isValidDate value \<longleftrightarrow>
     (case SHAPE value of
        None \<Rightarrow> False
      | Some _ \<Rightarrow>
          (case date_parse_day value of
             None \<Rightarrow> False
           | Some n \<Rightarrow>
               (case days_to_civil n of
                  (y, m, d) \<Rightarrow>
                    pad_start 4 (string_of_int y) @ ''-'' @ pad_start 2 (string_of_int m) @ ''-'' @
                    pad_start 2 (string_of_int d) = value)))"

definition isNonEmptyString :: "string \<Rightarrow> bool" where
  "isNonEmptyString s \<longleftrightarrow> length (trim s) > 0"

definition is_lower :: "char \<Rightarrow> bool" where
  "is_lower c \<longleftrightarrow> 97 \<le> (of_char c :: nat) \<and> (of_char c :: nat) \<le> 122"

text \<open>\<open>/^[a-z][a-z0-9_]*$/\<close>\<close>
fun RULE_KEY :: "string \<Rightarrow> bool" where
  "RULE_KEY [] \<longleftrightarrow> False"
| "RULE_KEY (c # cs) \<longleftrightarrow> is_lower c \<and> list_all (\<lambda>c. is_lower c \<or> is_digit c \<or> c = CHR ''_'') cs"

section \<open>Closed shapes\<close>

definition RULE_NODE_KEYS :: "(string \<times> string list) list" where
  "RULE_NODE_KEYS =
     [(''RequiredCount'', [''kind'', ''count'']),
      (''MinCoverage'', [''kind'', ''min'']),
      (''MaxCoverage'', [''kind'', ''max'']),
      (''RequiresQualification'', [''kind'', ''qualification'', ''validAt'']),
      (''MemberOfStaffGroup'', [''kind'', ''staffGroup'']),
      (''ValidGroupRestriction'', [''kind'', ''validGroup'']),
      (''PickPositionRestriction'', [''kind'', ''allowedPickPositions'']),
      (''MaxAssignmentsInWindow'', [''kind'', ''max'', ''windowDays'']),
      (''WeekdayFteLimit'', [''kind'', ''weekday'', ''fteFraction'']),
      (''WorkPercentageTarget'', [''kind'', ''targetPercentage'']),
      (''MaxConsecutive'', [''kind'', ''maxDays'']),
      (''MinimumRestBetween'', [''kind'', ''minHours'']),
      (''CallSpacing'', [''kind'', ''minDaysBetweenCalls'']),
      (''NoAdjacent'', [''kind'', ''shiftTypeA'', ''shiftTypeB'']),
      (''ForbiddenSequence'', [''kind'', ''sequence'']),
      (''PatternRule'', [''kind'', ''trigger'', ''daysOfWeek'', ''segments'']),
      (''AlternatingWeek'', [''kind'', ''onShiftType'', ''cycleWeeks'']),
      (''TemplateAdherence'', [''kind'', ''template'', ''cycleWeeks'']),
      (''LinkedShifts'', [''kind'', ''shiftTypes'']),
      (''ImpliesAssignment'', [''kind'', ''ifShiftType'', ''thenShiftType'']),
      (''MutuallyExclusive'', [''kind'', ''shiftTypes'']),
      (''RequestHonoured'', [''kind'', ''requestType'']),
      (''ShiftPreference'', [''kind'', ''shiftType'', ''strength'']),
      (''AvoidDate'', [''kind'', ''date'']),
      (''FairnessBalance'', [''kind'', ''metric'', ''normalisation'']),
      (''CreditDistribution'', [''kind'', ''metric'']),
      (''StaffOverLocumPriority'', [''kind'', ''windowDays'']),
      (''LocumRestriction'', [''kind'', ''restriction'']),
      (''FixedAssignment'', [''kind'', ''assignmentIdentity'']),
      (''ProtectedRange'', [''kind'', ''from'', ''to''])]"

definition PATTERN_SEGMENT_KEYS :: "string list" where
  "PATTERN_SEGMENT_KEYS = [''offsetDays'', ''shiftType'']"

definition SCOPE_KEYS :: "string list" where
  "SCOPE_KEYS = [''dateRange'', ''shiftTypes'', ''staffGroups'', ''memberships'']"

definition DATE_RANGE_KEYS :: "string list" where
  "DATE_RANGE_KEYS = [''from'', ''to'']"

definition unexpectedKeyProblems :: "json_object \<Rightarrow> string list \<Rightarrow> string \<Rightarrow> RuleProblem list" where
  "unexpectedKeyProblems value allowed base =
     map (\<lambda>key. problem (if base = '''' then key else base @ ''.'' @ key)
            ''This field is not part of the rule language.'')
       (filter (\<lambda>key. key \<notin> set allowed) (map fst value))"

section \<open>Nodes\<close>

definition require :: "bool \<Rightarrow> string \<Rightarrow> string \<Rightarrow> RuleProblem list" where
  "require ok p m = (if ok then [] else [problem p m])"

definition requirePositive :: "string \<Rightarrow> jsnum \<Rightarrow> string \<Rightarrow> RuleProblem list" where
  "requirePositive p x label = require (isPositiveInt x) p (label @ '' must be a positive whole number.'')"

definition requireShiftType :: "string \<Rightarrow> string \<Rightarrow> RuleProblem list" where
  "requireShiftType p s = require (isNonEmptyString s) p ''A shift type is required.''"

fun node_checks :: "(string \<Rightarrow> string) \<Rightarrow> RuleNode \<Rightarrow> Surplus \<Rightarrow> RuleProblem list" where
  "node_checks fld (RequiredCount n) su = requirePositive (fld ''count'') n ''The required count''"
| "node_checks fld (MinCoverage n) su = requirePositive (fld ''min'') n ''The minimum coverage''"
| "node_checks fld (MaxCoverage n) su = requirePositive (fld ''max'') n ''The maximum coverage''"
| "node_checks fld (RequiresQualification q v) su =
     require (isNonEmptyString q) (fld ''qualification'') ''A qualification is required.'' @
     require (v = ''shift_date'') (fld ''validAt'') ''Eligibility is evaluated as of the shift date.''"
| "node_checks fld (MemberOfStaffGroup g) su =
     require (isNonEmptyString g) (fld ''staffGroup'') ''A staff group is required.''"
| "node_checks fld (ValidGroupRestriction g) su =
     require (isNonEmptyString g) (fld ''validGroup'') ''A valid group is required.''"
| "node_checks fld (PickPositionRestriction ps) su =
     require (length ps \<noteq> 0) (fld ''allowedPickPositions'') ''At least one pick position is required.'' @
     each (\<lambda>i p. require (isNonNegativeInt p) (fld (''allowedPickPositions.'' @ i))
       ''A pick position must be a whole number of zero or more.'') ps"
| "node_checks fld (MaxAssignmentsInWindow m w) su =
     requirePositive (fld ''max'') m ''The maximum'' @
     requirePositive (fld ''windowDays'') w ''The window length in days''"
| "node_checks fld (WeekdayFteLimit d f) su =
     require (d \<in> set RULE_WEEKDAYS) (fld ''weekday'') ''A weekday (or holiday) is required.'' @
     require (\<not> (\<not> isFiniteNumber f \<or> js_lt f (num 0) \<or> js_lt (num 1) f)) (fld ''fteFraction'')
       ''The FTE fraction must be between 0 and 1.''"
| "node_checks fld (WorkPercentageTarget t) su =
     require (\<not> (\<not> isFiniteNumber t \<or> js_le t (num 0) \<or> js_lt (num 100) t)) (fld ''targetPercentage'')
       ''The work percentage must be greater than 0 and at most 100.''"
| "node_checks fld (MaxConsecutive d) su =
     requirePositive (fld ''maxDays'') d ''The maximum consecutive days''"
| "node_checks fld (MinimumRestBetween h) su =
     requirePositive (fld ''minHours'') h ''The minimum rest in hours''"
| "node_checks fld (CallSpacing d) su =
     requirePositive (fld ''minDaysBetweenCalls'') d ''The minimum days between calls''"
| "node_checks fld (NoAdjacent a b) su =
     requireShiftType (fld ''shiftTypeA'') a @ requireShiftType (fld ''shiftTypeB'') b"
| "node_checks fld (ForbiddenSequence cs) su =
     require (\<not> length cs < 2) (fld ''sequence'') ''A forbidden sequence needs at least two shift types.'' @
     each (\<lambda>i c. requireShiftType (fld (''sequence.'' @ i)) c) cs"
| "node_checks fld (PatternRule t ds ss) su =
     requireShiftType (fld ''trigger'') t @
     require (length ds \<noteq> 0) (fld ''daysOfWeek'') ''At least one day of the week is required.'' @
     each (\<lambda>i d. require (d \<in> set RULE_WEEKDAYS) (fld (''daysOfWeek.'' @ i))
       ''A weekday (or holiday) is required.'') ds @
     require (length ss \<noteq> 0) (fld ''segments'') ''A pattern needs at least one segment.'' @
     concat (map (\<lambda>(i, s).
       unexpectedKeyProblems (segment_members s @ on_segment su i) PATTERN_SEGMENT_KEYS
         (fld (''segments.'' @ string_of_nat i)) @
       require (\<not> (\<not> isFiniteNumber (offsetDays s) \<or> \<not> js_isInteger (offsetDays s)))
         (fld (''segments.'' @ string_of_nat i @ ''.offsetDays''))
         ''A segment offset must be a whole number of days.'' @
       require (isNonEmptyString (seg_shiftType s))
         (fld (''segments.'' @ string_of_nat i @ ''.shiftType'')) ''A shift type is required.'')
       (number_list 0 ss))"
| "node_checks fld (AlternatingWeek c w) su =
     requireShiftType (fld ''onShiftType'') c @
     requirePositive (fld ''cycleWeeks'') w ''The cycle length in weeks''"
| "node_checks fld (TemplateAdherence t w) su =
     require (isNonEmptyString t) (fld ''template'') ''A template is required.'' @
     requirePositive (fld ''cycleWeeks'') w ''The cycle length in weeks''"
| "node_checks fld (LinkedShifts cs) su =
     require (\<not> length cs < 2) (fld ''shiftTypes'') ''Linked shifts need at least two shift types.'' @
     each (\<lambda>i c. requireShiftType (fld (''shiftTypes.'' @ i)) c) cs"
| "node_checks fld (ImpliesAssignment a b) su =
     requireShiftType (fld ''ifShiftType'') a @ requireShiftType (fld ''thenShiftType'') b"
| "node_checks fld (MutuallyExclusive cs) su =
     require (\<not> length cs < 2) (fld ''shiftTypes'') ''Mutual exclusion needs at least two shift types.'' @
     each (\<lambda>i c. requireShiftType (fld (''shiftTypes.'' @ i)) c) cs"
| "node_checks fld (RequestHonoured t) su =
     require (isNonEmptyString t) (fld ''requestType'') ''A request type is required.''"
| "node_checks fld (ShiftPreference c st) su =
     requireShiftType (fld ''shiftType'') c @
     require (st \<in> set PREFERENCE_STRENGTHS) (fld ''strength'') ''A preference strength is required.''"
| "node_checks fld (AvoidDate d) su =
     require (isValidDate d) (fld ''date'') ''A valid calendar date is required.''"
| "node_checks fld (FairnessBalance m n) su =
     require (m \<in> set FAIRNESS_METRICS) (fld ''metric'') ''A fairness metric is required.'' @
     require (n \<in> set FAIRNESS_NORMALISATIONS) (fld ''normalisation'') ''A normalisation is required.''"
| "node_checks fld (CreditDistribution m) su =
     require (m \<in> set FAIRNESS_METRICS) (fld ''metric'') ''A fairness metric is required.''"
| "node_checks fld (StaffOverLocumPriority w) su =
     requirePositive (fld ''windowDays'') w ''The window length in days''"
| "node_checks fld (LocumRestriction r) su =
     require (r \<in> set LOCUM_RESTRICTIONS) (fld ''restriction'') ''A locum restriction is required.''"
| "node_checks fld (FixedAssignment i) su =
     require (isNonEmptyString i) (fld ''assignmentIdentity'') ''An assignment identity is required.''"
| "node_checks fld (ProtectedRange f t) su =
     require (isValidDate f) (fld ''from'') ''A valid start date is required.'' @
     require (isValidDate t) (fld ''to'') ''A valid end date is required.'' @
     require (\<not> (isValidDate f \<and> isValidDate t \<and> f > t)) (fld ''to'')
       ''The end date must not be before the start date.''"

definition nodeProblems :: "RuleNode \<Rightarrow> Surplus \<Rightarrow> string \<Rightarrow> RuleProblem list" where
  "nodeProblems node su base =
     unexpectedKeyProblems (node_object node su)
       (case map_of RULE_NODE_KEYS (node_kind node) of None \<Rightarrow> [''kind''] | Some ks \<Rightarrow> ks) base @
     nodeBoundProblems node su base @
     node_checks (\<lambda>suffix. if suffix = '''' then base else base @ ''.'' @ suffix) node su"

section \<open>Rules\<close>

definition scope_object :: "RuleScope \<Rightarrow> json_object" where
  "scope_object s =
     (case dateRange s of None \<Rightarrow> [] | Some r \<Rightarrow>
        [(''dateRange'', Obj [(''from'', Str (dr_from r)), (''to'', Str (dr_to r))])]) @
     concat (map (\<lambda>(k, vs). case vs of None \<Rightarrow> [] | Some xs \<Rightarrow> [(k, Arr (map Str xs))]) (scope_fields s))"

definition range_checks :: "DateRange \<Rightarrow> Surplus \<Rightarrow> RuleProblem list" where
  "range_checks r su =
     unexpectedKeyProblems
       ([(''from'', Str (dr_from r)), (''to'', Str (dr_to r))] @ on_range su) DATE_RANGE_KEYS
       ''scope.dateRange'' @
     require (isValidDate (dr_from r)) ''scope.dateRange.from'' ''A valid start date is required.'' @
     require (isValidDate (dr_to r)) ''scope.dateRange.to'' ''A valid end date is required.'' @
     require (\<not> (isValidDate (dr_from r) \<and> isValidDate (dr_to r) \<and> dr_from r > dr_to r))
       ''scope.dateRange.to'' ''The end date must not be before the start date.''"

definition scopeProblems :: "Rule \<Rightarrow> RuleProblem list" where
  "scopeProblems rule =
     unexpectedKeyProblems (scope_object (rscope rule) @ on_scope (surplus rule)) SCOPE_KEYS ''scope'' @
     scopeBoundProblems rule @
     (case dateRange (rscope rule) of None \<Rightarrow> [] | Some r \<Rightarrow> range_checks r (surplus rule)) @
     concat (map (\<lambda>(field, values).
         each (\<lambda>i v. require (isNonEmptyString v) (''scope.'' @ field @ ''.'' @ i)
           ''This value must not be blank.'') (or_empty values))
       (scope_fields (rscope rule)))"

definition weight_checks :: "Rule \<Rightarrow> RuleProblem list" where
  "weight_checks rule =
     (if classification rule = ''HARD'' then
        require (weight rule = None) ''weight'' ''A hard rule must not carry a weight.''
      else if classification rule = ''SOFT'' then
        require (case weight rule of None \<Rightarrow> False | Some w \<Rightarrow> \<not> (\<not> isFiniteNumber w \<or> js_le w (num 0)))
          ''weight'' ''A soft rule must carry a weight greater than zero.''
      else [problem ''classification'' ''A rule is either HARD or SOFT.''])"

definition ruleProblems :: "Rule \<Rightarrow> RuleProblem list" where
  "ruleProblems rule =
     require (\<not> (\<not> isNonEmptyString (ruleKey rule) \<or> \<not> RULE_KEY (ruleKey rule))) ''ruleKey''
       ''A rule key is lowercase letters, digits, and underscores, starting with a letter.'' @
     require (isNonEmptyString (rule_name rule)) ''name'' ''A name is required.'' @
     weight_checks rule @
     scopeProblems rule @
     (if \<not> isRuleNodeKind (node_kind (predicate rule))
      then [problem ''predicate'' ''A recognised rule node is required.'']
      else nodeProblems (predicate rule) (surplus rule) ''predicate'')"

definition isValidRule :: "Rule \<Rightarrow> bool" where
  "isValidRule rule \<longleftrightarrow> length (ruleProblems rule) = 0"

section \<open>What the validator accepts\<close>

definition whole :: "int \<Rightarrow> int \<Rightarrow> jsnum \<Rightarrow> bool" where
  "whole a b x \<longleftrightarrow> js_isInteger x \<and> js_le (num a) x \<and> js_le x (num b)"

definition real_between :: "rat \<Rightarrow> rat \<Rightarrow> jsnum \<Rightarrow> bool" where
  "real_between a b x \<longleftrightarrow> (case x of Fin q \<Rightarrow> a \<le> q \<and> q \<le> b | _ \<Rightarrow> False)"

definition ident :: "string \<Rightarrow> bool" where
  "ident s \<longleftrightarrow> isNonEmptyString s \<and> length s \<le> 64"

definition ordered_dates :: "string \<Rightarrow> string \<Rightarrow> bool" where
  "ordered_dates a b \<longleftrightarrow> isValidDate a \<and> isValidDate b \<and> a \<le> b"

text \<open>The language as a specification: which nodes mean something.\<close>
fun node_wf :: "RuleNode \<Rightarrow> bool" where
  "node_wf (RequiredCount n) \<longleftrightarrow> whole 1 10000 n"
| "node_wf (MinCoverage n) \<longleftrightarrow> whole 1 10000 n"
| "node_wf (MaxCoverage n) \<longleftrightarrow> whole 1 10000 n"
| "node_wf (RequiresQualification q v) \<longleftrightarrow> ident q \<and> v = ''shift_date''"
| "node_wf (MemberOfStaffGroup g) \<longleftrightarrow> ident g"
| "node_wf (ValidGroupRestriction g) \<longleftrightarrow> ident g"
| "node_wf (PickPositionRestriction ps) \<longleftrightarrow> ps \<noteq> [] \<and> length ps \<le> 64 \<and> list_all (whole 0 10000) ps"
| "node_wf (MaxAssignmentsInWindow m w) \<longleftrightarrow> whole 1 10000 m \<and> whole 1 366 w"
| "node_wf (WeekdayFteLimit d f) \<longleftrightarrow> d \<in> set RULE_WEEKDAYS \<and> real_between 0 1 f"
| "node_wf (WorkPercentageTarget t) \<longleftrightarrow> real_between 0 100 t \<and> t \<noteq> num 0"
| "node_wf (MaxConsecutive d) \<longleftrightarrow> whole 1 366 d"
| "node_wf (MinimumRestBetween h) \<longleftrightarrow> whole 1 8760 h"
| "node_wf (CallSpacing d) \<longleftrightarrow> whole 1 366 d"
| "node_wf (NoAdjacent a b) \<longleftrightarrow> ident a \<and> ident b"
| "node_wf (ForbiddenSequence cs) \<longleftrightarrow> 2 \<le> length cs \<and> length cs \<le> 32 \<and> list_all ident cs"
| "node_wf (PatternRule t ds ss) \<longleftrightarrow>
     ident t \<and> ds \<noteq> [] \<and> length ds \<le> 8 \<and> list_all (\<lambda>d. d \<in> set RULE_WEEKDAYS) ds \<and>
     ss \<noteq> [] \<and> length ss \<le> 64 \<and>
     list_all (\<lambda>s. whole (- 366) 366 (offsetDays s) \<and> ident (seg_shiftType s)) ss"
| "node_wf (AlternatingWeek c w) \<longleftrightarrow> ident c \<and> whole 1 260 w"
| "node_wf (TemplateAdherence t w) \<longleftrightarrow> ident t \<and> whole 1 260 w"
| "node_wf (LinkedShifts cs) \<longleftrightarrow> 2 \<le> length cs \<and> length cs \<le> 64 \<and> list_all ident cs"
| "node_wf (ImpliesAssignment a b) \<longleftrightarrow> ident a \<and> ident b"
| "node_wf (MutuallyExclusive cs) \<longleftrightarrow> 2 \<le> length cs \<and> length cs \<le> 64 \<and> list_all ident cs"
| "node_wf (RequestHonoured t) \<longleftrightarrow> ident t"
| "node_wf (ShiftPreference c st) \<longleftrightarrow> ident c \<and> st \<in> set PREFERENCE_STRENGTHS"
| "node_wf (AvoidDate d) \<longleftrightarrow> isValidDate d"
| "node_wf (FairnessBalance m n) \<longleftrightarrow> m \<in> set FAIRNESS_METRICS \<and> n \<in> set FAIRNESS_NORMALISATIONS"
| "node_wf (CreditDistribution m) \<longleftrightarrow> m \<in> set FAIRNESS_METRICS"
| "node_wf (StaffOverLocumPriority w) \<longleftrightarrow> whole 1 366 w"
| "node_wf (LocumRestriction r) \<longleftrightarrow> r \<in> set LOCUM_RESTRICTIONS"
| "node_wf (FixedAssignment i) \<longleftrightarrow> ident i"
| "node_wf (ProtectedRange f t) \<longleftrightarrow> ordered_dates f t"

lemma whole_num [simp]: "whole a b (num k) \<longleftrightarrow> a \<le> k \<and> k \<le> b"
  by (simp add: whole_def)

lemma whole_iff: "whole a b x \<longleftrightarrow> (\<exists>k. x = num k \<and> a \<le> k \<and> k \<le> b)"
  by (auto simp: whole_def js_isInteger_num)

lemma require_Nil [simp]: "require ok p m = [] \<longleftrightarrow> ok"
  by (simp add: require_def)

lemma js_le_iff_not_lt: "js_isFinite x \<Longrightarrow> js_le x (num k) \<longleftrightarrow> \<not> js_lt (num k) x"
  "js_isFinite x \<Longrightarrow> js_le (num k) x \<longleftrightarrow> \<not> js_lt x (num k)"
  by (cases x; auto simp: num_def js_le_def js_eq_def)+

lemma js_isInteger_finite: "js_isInteger x \<Longrightarrow> js_isFinite x"
  by (cases x) simp_all

lemma tooLarge_Nil: "tooLarge p x l m = [] \<longleftrightarrow> \<not> js_abs_gt x l"
  by (simp add: tooLarge_def)

lemma requirePositive_Nil: "requirePositive p x l = [] \<longleftrightarrow> isPositiveInt x"
  by (simp add: requirePositive_def)

lemma requireShiftType_Nil: "requireShiftType p s = [] \<longleftrightarrow> isNonEmptyString s"
  by (simp add: requireShiftType_def)

lemma js_abs_gt_num: "js_abs_gt (num k) n \<longleftrightarrow> int n < \<bar>k\<bar>"
  by (auto simp: js_abs_gt_def)

text \<open>A positive whole number within a limit is what the two checks of a field leave.\<close>
lemma whole_pos: "whole 1 (int n) x \<longleftrightarrow> isPositiveInt x \<and> \<not> js_abs_gt x n"
  by (cases "js_isInteger x")
    (auto simp: js_isInteger_num isPositiveInt_def isFiniteNumber_def js_abs_gt_num whole_def)

lemma whole_nonneg: "whole 0 (int n) x \<longleftrightarrow> isNonNegativeInt x \<and> \<not> js_abs_gt x n"
  by (cases "js_isInteger x")
    (auto simp: js_isInteger_num isNonNegativeInt_def isFiniteNumber_def js_abs_gt_num whole_def)

lemma whole_offset:
  "whole (- int n) (int n) x \<longleftrightarrow> isFiniteNumber x \<and> js_isInteger x \<and> \<not> js_abs_gt x n"
  by (cases "js_isInteger x") (auto simp: js_isInteger_num isFiniteNumber_def js_abs_gt_num whole_def)

lemmas whole_fields = whole_pos[of 10000, simplified] whole_pos[of 366, simplified]
  whole_pos[of 8760, simplified] whole_pos[of 260, simplified] whole_nonneg[of 10000, simplified]
  whole_offset[of 366, simplified]

lemma fraction_check:
  "\<not> (\<not> isFiniteNumber f \<or> js_lt f (num 0) \<or> js_lt (num 1) f) \<longleftrightarrow> real_between 0 1 f"
  "\<not> (\<not> isFiniteNumber f \<or> js_le f (num 0) \<or> js_lt (num 100) f) \<longleftrightarrow> real_between 0 100 f \<and> f \<noteq> num 0"
  by (cases f; auto simp: isFiniteNumber_def real_between_def num_def js_le_def js_eq_def)+

lemma foldl_max_le: "foldl max a xs \<le> (n::nat) \<longleftrightarrow> a \<le> n \<and> (\<forall>x \<in> set xs. x \<le> n)"
  by (induction xs arbitrary: a) auto

lemma flat_depth: "valueDepth (Obj (node_object n no_surplus)) \<le> 3"
  by (cases n) (auto simp: node_object_def no_surplus_def foldl_max_le segment_members_def
      numeral_eq_Suc set_number_list)

lemma declared_keys:
  "unexpectedKeyProblems (node_object n no_surplus)
     (case map_of RULE_NODE_KEYS (node_kind n) of None \<Rightarrow> [''kind''] | Some ks \<Rightarrow> ks) base = []"
  by (cases n) (simp_all add: unexpectedKeyProblems_def node_object_def no_surplus_def RULE_NODE_KEYS_def)

lemma nodeProblems_split:
  "nodeProblems n no_surplus base = [] \<longleftrightarrow>
     node_limits (\<lambda>s. base @ ''.'' @ s) n = [] \<and>
     node_checks (\<lambda>s. if s = '''' then base else base @ ''.'' @ s) n no_surplus = []"
  using flat_depth[of n] declared_keys[of n base]
  by (simp add: nodeProblems_def nodeBoundProblems_def AST_BOUNDS not_less)

lemma segment_checks_Nil:
  "concat (map (\<lambda>(i, s). unexpectedKeyProblems (segment_members s @ on_segment no_surplus i)
       PATTERN_SEGMENT_KEYS (f i) @ g i s) (number_list 0 ss)) = [] \<longleftrightarrow>
   (\<forall>i < length ss. g i (ss ! i) = [])"
  by (auto simp: set_number_list unexpectedKeyProblems_def segment_members_def no_surplus_def
      PATTERN_SEGMENT_KEYS_def)

lemmas check_simps = each_Nil_iff segment_checks_Nil list_all_length tooLarge_Nil requirePositive_Nil
  requireShiftType_Nil require_Nil append_is_Nil_conv tooLong_Nil tooLongIdentifier_Nil
  whole_fields ident_def AST_BOUNDS ordered_dates_def

lemma nodeProblems_wf:
  "nodeProblems n no_surplus base = [] \<longleftrightarrow> node_wf n"
  unfolding nodeProblems_split
  by (cases n; simp only: node_limits.simps node_checks.simps node_wf.simps check_simps
      fraction_check; auto simp: not_less)

definition scope_wf :: "RuleScope \<Rightarrow> bool" where
  "scope_wf s \<longleftrightarrow>
     (case dateRange s of None \<Rightarrow> True | Some r \<Rightarrow> ordered_dates (dr_from r) (dr_to r)) \<and>
     list_all ident (or_empty (shiftTypes s)) \<and> length (or_empty (shiftTypes s)) \<le> 200 \<and>
     list_all ident (or_empty (staffGroups s)) \<and> length (or_empty (staffGroups s)) \<le> 200 \<and>
     list_all ident (or_empty (memberships s)) \<and> length (or_empty (memberships s)) \<le> 1000"

definition weight_wf :: "Rule \<Rightarrow> bool" where
  "weight_wf r \<longleftrightarrow>
     classification r = ''HARD'' \<and> weight r = None \<or>
     classification r = ''SOFT'' \<and> (\<exists>q > 0. weight r = Some (Fin q))"

definition rule_wf :: "Rule \<Rightarrow> bool" where
  "rule_wf r \<longleftrightarrow>
     isNonEmptyString (ruleKey r) \<and> RULE_KEY (ruleKey r) \<and> isNonEmptyString (rule_name r) \<and>
     weight_wf r \<and> scope_wf (rscope r) \<and> node_wf (predicate r)"

lemma weight_checks_wf: "weight_checks r = [] \<longleftrightarrow> weight_wf r"
proof -
  have "(\<not> (\<not> isFiniteNumber w \<or> js_le w (num 0))) \<longleftrightarrow> (\<exists>q > 0. w = Fin q)" for w
    by (cases w) (auto simp: isFiniteNumber_def num_def js_le_def js_eq_def)
  then show ?thesis by (auto simp: weight_checks_def weight_wf_def split: option.splits)
qed

lemma scopeProblems_wf:
  assumes "surplus r = no_surplus"
  shows "scopeProblems r = [] \<longleftrightarrow> scope_wf (rscope r)"
proof -
  have keys: "unexpectedKeyProblems (scope_object (rscope r) @ on_scope (surplus r)) SCOPE_KEYS ''scope'' = []"
    by (auto simp: unexpectedKeyProblems_def scope_object_def SCOPE_KEYS_def assms no_surplus_def
        scope_fields_def split: option.splits)
  have range: "range_checks d (surplus r) = [] \<longleftrightarrow> ordered_dates (dr_from d) (dr_to d)" for d
    by (auto simp: range_checks_def unexpectedKeyProblems_def assms no_surplus_def DATE_RANGE_KEYS_def
        ordered_dates_def not_less)
  have opt: "(case dateRange (rscope r) of None \<Rightarrow> [] | Some d \<Rightarrow> range_checks d (surplus r)) = [] \<longleftrightarrow>
    (case dateRange (rscope r) of None \<Rightarrow> True | Some d \<Rightarrow> ordered_dates (dr_from d) (dr_to d))"
    by (auto simp: range split: option.splits)
  show ?thesis
    unfolding scopeProblems_def keys append_is_Nil_conv opt scope_wf_def scopeBoundProblems_def
      scope_fields_def
    by (simp only: list.map concat.simps prod.case append_is_Nil_conv check_simps) auto
qed

text \<open>C36: the validator accepts a rule without surplus members exactly when it is well formed: key and
  name present, the weight its classification asks for, a scope of bounded identifiers and ordered real
  dates, and a node whose every parameter means something.\<close>
theorem validator_accepts_wf:
  assumes "surplus r = no_surplus"
  shows "isValidRule r \<longleftrightarrow> rule_wf r"
  using scopeProblems_wf[OF assms] node_kind_known[of "predicate r"] assms
  by (simp add: isValidRule_def ruleProblems_def rule_wf_def weight_checks_wf nodeProblems_wf)

lemma validator_accepts_wf_witness:
  "\<not> isValidRule \<lparr>ruleKey = ''r'', rule_name = ''Rest'', ruleSchemaVersion = 1, classification = ''HARD'',
      weight = None,
      rscope = \<lparr>dateRange = None, shiftTypes = None, staffGroups = None, memberships = None\<rparr>,
      predicate = MinimumRestBetween (num 0), surplus = no_surplus\<rparr>"
  by (subst validator_accepts_wf) (simp_all add: rule_wf_def)

text \<open>A predicate with a member its node kind does not declare is rejected, whatever the member holds.\<close>
theorem surplus_member_rejected:
  assumes "k \<in> set (map fst (on_node su))" "k \<noteq> ''kind''" "k \<notin> set (map fst (node_members n))"
  shows "nodeProblems n su base \<noteq> []"
proof -
  let ?ks = "case map_of RULE_NODE_KEYS (node_kind n) of None \<Rightarrow> [''kind''] | Some ks \<Rightarrow> ks"
  have "set (case map_of RULE_NODE_KEYS (node_kind n) of None \<Rightarrow> [''kind''] | Some ks \<Rightarrow> ks) =
    insert ''kind'' (set (map fst (node_members n)))"
    by (cases n) (simp_all add: RULE_NODE_KEYS_def)
  then have "k \<notin> set ?ks" using assms(2,3) by simp
  moreover have "k \<in> set (map fst (node_object n su))"
    using assms(1) unfolding node_object_def list.map map_append by simp
  ultimately have "unexpectedKeyProblems (node_object n su) ?ks base \<noteq> []"
    unfolding unexpectedKeyProblems_def map_is_Nil_conv filter_empty_conv by blast
  then show ?thesis unfolding nodeProblems_def append_is_Nil_conv by blast
qed

lemma surplus_member_rejected_witness:
  "nodeProblems (MaxConsecutive (num 5)) (no_surplus\<lparr>on_node := [(''weight'', Num (num 3))]\<rparr>) ''predicate'' \<noteq> []"
  by (rule surplus_member_rejected[where k = "''weight''"]) (simp_all add: no_surplus_def)

section \<open>Dates\<close>

lemma month_roll:
  assumes "1 \<le> m" "m \<le> 11"
  shows "civil_to_days y m (daysInMonth y m + d) = civil_to_days y (m + 1) d"
proof -
  have "m = 1 \<or> m = 2 \<or> m = 3 \<or> m = 4 \<or> m = 5 \<or> m = 6 \<or> m = 7 \<or> m = 8 \<or> m = 9 \<or> m = 10 \<or> m = 11"
    using month_cases[OF assms(1)] assms(2) by auto
  moreover have "march_year_start y = march_year_start (y - 1) + (if isLeapYear y then 366 else 365)"
    using march_year_start_next[of "y - 1"] by (simp add: doy_max_def)
  ultimately show ?thesis
    by (elim disjE; simp add: civil_to_days_split march_year_def march_doy_def march_month_def daysInMonth_def)
qed

lemma daysInMonth_ge: "1 \<le> m \<Longrightarrow> m \<le> 12 \<Longrightarrow> 28 \<le> daysInMonth y m"
  by (drule (1) month_cases) (elim disjE; simp add: daysInMonth_def)

lemma MakeDay_civil:
  assumes "1 \<le> m" "m \<le> 12"
  shows "MakeDay y (m - 1) d = civil_to_days y m d"
proof -
  have "(m - 1) div 12 = 0" "(m - 1) mod 12 = m - 1" using assms by simp_all
  then have "MakeDay y (m - 1) d = year_day y + month_offset y (m - 1) + d - 1"
    unfolding MakeDay_def DayFromYear_eq Let_def by simp
  moreover have "civil_to_days y m d = civil_to_days y m 1 + (d - 1)"
    by (simp add: civil_to_days_split march_doy_def)
  ultimately show ?thesis using month_offset_eq[OF assms, of y] by simp
qed

lemma render_eq:
  assumes "SHAPE s = Some (a, b, c)" "0 \<le> y" "y \<le> 9999" "0 \<le> m" "m \<le> 99" "0 \<le> d" "d \<le> 99"
  shows "pad_start 4 (string_of_int y) @ ''-'' @ pad_start 2 (string_of_int m) @ ''-'' @
     pad_start 2 (string_of_int d) = s \<longleftrightarrow>
     y = number_of_digits a \<and> m = number_of_digits b \<and> d = number_of_digits c"
proof -
  have b: "y < 10 ^ Suc 3" "m < 10 ^ Suc 1" "d < 10 ^ Suc 1" using assms by auto
  have n: "Suc 3 = 4" "Suc 1 = 2" by simp_all
  note Y = pad_int[OF assms(2) b(1), unfolded n] and M = pad_int[OF assms(4) b(2), unfolded n]
    and D = pad_int[OF assms(6) b(3), unfolded n]
  from assms(1) have s: "s = a @ ''-'' @ b @ ''-'' @ c" "length a = 4" "length b = 2" "length c = 2"
    "list_all is_digit a" "list_all is_digit b" "list_all is_digit c"
    by (simp_all add: SHAPE_Some)
  have "pad_start 4 (string_of_int y) = a \<longleftrightarrow> y = number_of_digits a"
    "pad_start 2 (string_of_int m) = b \<longleftrightarrow> m = number_of_digits b"
    "pad_start 2 (string_of_int d) = c \<longleftrightarrow> d = number_of_digits c"
    using digits_eq_iff[of "pad_start 4 (string_of_int y)" a] digits_eq_iff[of "pad_start 2 (string_of_int m)" b]
      digits_eq_iff[of "pad_start 2 (string_of_int d)" c] Y M D s by simp_all
  then show ?thesis using Y(1) M(1) D(1) s(2-4) unfolding s(1) by simp
qed

lemma shape_ranges:
  assumes "SHAPE s = Some (a, b, c)"
  shows "0 \<le> number_of_digits a \<and> number_of_digits a \<le> 9999 \<and> 0 \<le> number_of_digits b \<and>
    number_of_digits b \<le> 99 \<and> 0 \<le> number_of_digits c \<and> number_of_digits c \<le> 99"
  using assms number_of_digits_bounds[of a] number_of_digits_bounds[of b] number_of_digits_bounds[of c]
  by (auto simp: SHAPE_Some)

lemma isValidDate_civil:
  "isValidDate s \<longleftrightarrow> (\<exists>a b c. SHAPE s = Some (a, b, c) \<and>
     valid_civil (number_of_digits a) (number_of_digits b) (number_of_digits c))"
proof (cases "SHAPE s")
  case (Some t)
  obtain a b c where t: "t = (a, b, c)" by (cases t)
  let ?y = "number_of_digits a" and ?m = "number_of_digits b" and ?d = "number_of_digits c"
  note sh = Some[unfolded t] and r = shape_ranges[OF Some[unfolded t]]
  show ?thesis
  proof (cases "1 \<le> ?m \<and> ?m \<le> 12 \<and> 1 \<le> ?d \<and> ?d \<le> 31")
    case False
    then show ?thesis using sh daysInMonth_le[of ?y ?m]
      by (auto simp: isValidDate_def date_parse_day_def Let_def valid_civil_def)
  next
    case in_range: True
    then have p: "date_parse_day s = Some (civil_to_days ?y ?m ?d)"
      using sh MakeDay_civil[of ?m ?y ?d] by (simp add: date_parse_day_def Let_def)
    show ?thesis
    proof (cases "?d \<le> daysInMonth ?y ?m")
      case True
      then have "valid_civil ?y ?m ?d" using in_range by (simp add: valid_civil_def)
      then show ?thesis using sh p r render_eq[OF sh] days_to_civil_inverse
        by (simp add: isValidDate_def)
    next
      case False
      have m11: "?m \<le> 11" and d3: "?d - daysInMonth ?y ?m \<le> 3"
        using False in_range daysInMonth_ge[of ?m ?y] by (cases "?m = 12"; simp add: daysInMonth_def)+
      then have v: "valid_civil ?y (?m + 1) (?d - daysInMonth ?y ?m)"
        using False in_range daysInMonth_ge[of "?m + 1" ?y] by (simp add: valid_civil_def)
      have "days_to_civil (civil_to_days ?y ?m ?d) = (?y, ?m + 1, ?d - daysInMonth ?y ?m)"
        using month_roll[of ?m ?y "?d - daysInMonth ?y ?m"] in_range m11 days_to_civil_inverse[OF v] by simp
      moreover have "\<not> valid_civil ?y ?m ?d" using False by (simp add: valid_civil_def)
      ultimately show ?thesis
        using sh p r False in_range d3 render_eq[OF sh, of ?y "?m + 1" "?d - daysInMonth ?y ?m"]
        by (simp add: isValidDate_def)
    qed
  qed
qed (simp add: isValidDate_def)

lemma isCalendarDate_civil:
  "isCalendarDate s \<longleftrightarrow> (\<exists>a b c. SHAPE s = Some (a, b, c) \<and> 1 \<le> number_of_digits a \<and>
     valid_civil (number_of_digits a) (number_of_digits b) (number_of_digits c))"
proof (cases "SHAPE s")
  case (Some t)
  obtain a b c where t: "t = (a, b, c)" by (cases t)
  show ?thesis using shape_ranges[OF Some[unfolded t]] Some t
    by (auto simp: isCalendarDate_def parseCalendarDate_def Let_def MIN_CALENDAR_YEAR_def
        MAX_CALENDAR_YEAR_def valid_civil_def)
qed (simp add: isCalendarDate_def parseCalendarDate_def)

lemma calendar_valid: "isCalendarDate s \<Longrightarrow> isValidDate s"
  by (auto simp: isValidDate_civil isCalendarDate_civil)

text \<open>The rule validator's date check is the calendar's, except that it also admits the dates of
  year 0000, which the calendar rejects.\<close>
theorem rule_dates_vs_calendar:
  "isValidDate s \<longleftrightarrow> isCalendarDate s \<or> (\<exists>md. s = ''0000-'' @ md \<and> isCalendarDate (''2000-'' @ md))"
proof (cases "SHAPE s")
  case (Some t)
  obtain a b c where t: "t = (a, b, c)" by (cases t)
  note sh = Some[unfolded t]
  have s: "s = a @ ''-'' @ b @ ''-'' @ c" "length a = 4" "list_all is_digit a" using sh by (simp_all add: SHAPE_Some)
  have z: "number_of_digits a = 0 \<longleftrightarrow> a = ''0000''"
    using digits_eq_iff[of a "''0000''"] s by (simp add: digit_val_def is_digit_def)
  have y2: "SHAPE (''2000-'' @ b @ ''-'' @ c) = Some (''2000'', b, c)"
    using sh by (simp add: SHAPE_Some is_digit_def)
  have leap: "valid_civil 2000 m d = valid_civil 0 m d" for m d
    by (simp add: valid_civil_def daysInMonth_def isLeapYear_def)
  have n2: "number_of_digits ''2000'' = 2000" by (simp add: digit_val_def)
  have cal2: "isCalendarDate (''2000-'' @ b @ ''-'' @ c) = valid_civil 0 (number_of_digits b) (number_of_digits c)"
    using y2 n2 leap by (simp add: isCalendarDate_civil)
  have md: "s = ''0000-'' @ md \<longleftrightarrow> a = ''0000'' \<and> md = b @ ''-'' @ c" for md
    using append_eq_append_conv[of a "''0000''" "''-'' @ b @ ''-'' @ c" "''-'' @ md"] s(2)
    unfolding s(1) by auto
  show ?thesis
  proof (cases "a = ''0000''")
    case True
    then show ?thesis using sh cal2 md z by (auto simp: isValidDate_civil isCalendarDate_civil[of s])
  next
    case False
    then have "1 \<le> number_of_digits a" using z shape_ranges[OF sh] by linarith
    then show ?thesis using sh md False by (auto simp: isValidDate_civil isCalendarDate_civil[of s])
  qed
next
  case None
  have "\<exists>t. SHAPE (''0000-'' @ md) = Some t" if "isCalendarDate (''2000-'' @ md)" for md
    using that by (auto simp: isCalendarDate_civil SHAPE_def nth_append is_digit_def split: if_splits)
  then have "\<not> (\<exists>md. s = ''0000-'' @ md \<and> isCalendarDate (''2000-'' @ md))"
    using None by (metis option.distinct(1))
  then show ?thesis using None by (simp only: isValidDate_civil isCalendarDate_civil[of s] option.distinct simp_thms)
qed

end
