(* ===== verification/RuleCompile.thy ===== *)
theory RuleCompile
  imports RuleValidate "HOL-Library.Multiset"
begin

text \<open>
  \<open>packages/domain/src/rules/serialize.ts\<close> and \<open>compile.ts\<close>: canonical JSON and the compiler from the
  rule language to model elements. The text of \<open>JSON.stringify\<close> is not modelled: two canonical
  values that are equal render to equal text. An object's members are in insertion order (member names
  that are array indices, which the engine would move first, do not occur in the rule language).
\<close>

section \<open>Canonical JSON\<close>

text \<open>\<open>xs.map(f)\<close> for an \<open>f\<close> that may throw: the first error in order.\<close>
fun try_map :: "('a \<Rightarrow> 'b result) \<Rightarrow> 'a list \<Rightarrow> 'b list result" where
  "try_map f [] = Inr []"
| "try_map f (x # xs) =
     (case f x of Inl e \<Rightarrow> Inl e
      | Inr y \<Rightarrow> (case try_map f xs of Inl e \<Rightarrow> Inl e | Inr ys \<Rightarrow> Inr (y # ys)))"

lemma try_map_cong [fundef_cong]:
  "xs = ys \<Longrightarrow> (\<And>x. x \<in> set ys \<Longrightarrow> f x = g x) \<Longrightarrow> try_map f xs = try_map g ys"
  by (induction xs arbitrary: ys) (auto split: sum.splits)

lemma list_all2_result:
  "list_all2 (\<lambda>x y. f x = Inr y) xs ys \<Longrightarrow> y \<in> set ys \<Longrightarrow> \<exists>x \<in> set xs. f x = Inr y"
  by (auto simp: list_all2_conv_all_nth in_set_conv_nth) (metis nth_mem)

lemma try_map_Inr:
  "try_map f xs = Inr ys \<longleftrightarrow> list_all2 (\<lambda>x y. f x = Inr y) xs ys"
proof (induction xs arbitrary: ys)
  case (Cons x xs)
  show ?case
    by (cases ys; cases "f x"; cases "try_map f xs") (auto simp: Cons.IH[symmetric])
qed auto

definition NON_FINITE :: thrown where
  "NON_FINITE = GenericError ''Cannot canonicalise a non-finite number.''"

definition UNDEFINED_VALUE :: thrown where
  "UNDEFINED_VALUE = GenericError ''Cannot canonicalise a value of type undefined.''"

text \<open>\<open>Object.keys(source).sort()\<close> without the members whose value is \<open>undefined\<close>.\<close>
definition sorted_members :: "json_object \<Rightarrow> json_object" where
  "sorted_members ms = sort_key fst (filter (\<lambda>m. snd m \<noteq> Undef) ms)"

lemma set_sorted_members: "set (sorted_members ms) \<subseteq> set ms"
  by (auto simp: sorted_members_def)

lemma size_member: "m \<in> set ms \<Longrightarrow> size (snd m) < Suc (size_list (size_prod (\<lambda>x. 0) size) ms)"
  using size_list_estimation'[of m ms "size (snd m)" "size_prod (\<lambda>x. 0) size"]
  by (cases m) (simp add: less_Suc_eq_le)

function canonicalize :: "jsval \<Rightarrow> jsval result" where
  "canonicalize Null = Inr Null"
| "canonicalize (Bool b) = Inr (Bool b)"
| "canonicalize (Str s) = Inr (Str s)"
| "canonicalize (Num n) = (if js_isFinite n then Inr (Num n) else Inl NON_FINITE)"
| "canonicalize (Arr vs) =
     (case try_map canonicalize vs of Inl e \<Rightarrow> Inl e | Inr ws \<Rightarrow> Inr (Arr ws))"
| "canonicalize (Obj ms) =
     (case try_map (\<lambda>m. case canonicalize (snd m) of Inl e \<Rightarrow> Inl e | Inr w \<Rightarrow> Inr (fst m, w))
             (sorted_members ms) of
        Inl e \<Rightarrow> Inl e | Inr ws \<Rightarrow> Inr (Obj ws))"
| "canonicalize Undef = Inl UNDEFINED_VALUE"
  by pat_completeness auto
termination
proof (relation "measure size")
  fix ms m assume "m \<in> set (sorted_members ms)"
  then have "m \<in> set ms" using set_sorted_members by blast
  then show "(snd m, Obj ms) \<in> measure size" using size_member[of m ms] by simp
next
  fix vs x assume "x \<in> set (vs :: jsval list)"
  then show "(x, Arr vs) \<in> measure size"
    using size_list_estimation'[of x vs "size x" size] by (simp add: less_Suc_eq_le)
qed simp

section \<open>The compiler\<close>

definition COMPILER_VERSION :: int where
  "COMPILER_VERSION = 1"

record CompiledScope =
  cs_dateRange :: "DateRange option"
  cs_shiftTypes :: "string list"
  cs_staffGroups :: "string list"
  cs_memberships :: "string list"

record CompiledRule =
  c_ruleKey :: string
  c_ruleSchemaVersion :: int
  c_role :: string
  c_kind :: string
  c_modelElement :: string
  c_weight :: "jsnum option"
  c_scope :: CompiledScope
  c_params :: json_object

record CompiledRuleSet =
  compilerVersion :: int
  set_ruleSchemaVersion :: int
  elements :: "CompiledRule list"

definition compileScope :: "RuleScope \<Rightarrow> CompiledScope" where
  "compileScope s =
     \<lparr>cs_dateRange =
        (case dateRange s of None \<Rightarrow> None | Some r \<Rightarrow> Some \<lparr>dr_from = dr_from r, dr_to = dr_to r\<rparr>),
      cs_shiftTypes = or_empty (shiftTypes s), cs_staffGroups = or_empty (staffGroups s),
      cs_memberships = or_empty (memberships s)\<rparr>"

fun compileNode :: "RuleNode \<Rightarrow> string \<times> json_object" where
  "compileNode (RequiredCount n) = (''coverage.required_count'', [(''count'', Num n)])"
| "compileNode (MinCoverage n) = (''coverage.min'', [(''min'', Num n)])"
| "compileNode (MaxCoverage n) = (''coverage.max'', [(''max'', Num n)])"
| "compileNode (RequiresQualification q v) =
     (''eligibility.requires_qualification'', [(''qualification'', Str q), (''validAt'', Str v)])"
| "compileNode (MemberOfStaffGroup g) =
     (''eligibility.member_of_staff_group'', [(''staffGroup'', Str g)])"
| "compileNode (ValidGroupRestriction g) =
     (''eligibility.valid_group_restriction'', [(''validGroup'', Str g)])"
| "compileNode (PickPositionRestriction ps) =
     (''eligibility.pick_position_restriction'', [(''allowedPickPositions'', Arr (map Num ps))])"
| "compileNode (MaxAssignmentsInWindow m w) =
     (''capacity.max_assignments_in_window'', [(''max'', Num m), (''windowDays'', Num w)])"
| "compileNode (WeekdayFteLimit d f) =
     (''capacity.weekday_fte_limit'', [(''weekday'', Str d), (''fteFraction'', Num f)])"
| "compileNode (WorkPercentageTarget t) =
     (''capacity.work_percentage_target'', [(''targetPercentage'', Num t)])"
| "compileNode (MaxConsecutive d) = (''capacity.max_consecutive'', [(''maxDays'', Num d)])"
| "compileNode (MinimumRestBetween h) = (''spacing.minimum_rest_between'', [(''minHours'', Num h)])"
| "compileNode (CallSpacing d) = (''spacing.call_spacing'', [(''minDaysBetweenCalls'', Num d)])"
| "compileNode (NoAdjacent a b) =
     (''spacing.no_adjacent'', [(''shiftTypeA'', Str a), (''shiftTypeB'', Str b)])"
| "compileNode (ForbiddenSequence cs) =
     (''spacing.forbidden_sequence'', [(''sequence'', Arr (map Str cs))])"
| "compileNode (PatternRule t ds ss) =
     (''pattern.pattern_rule'',
      [(''trigger'', Str t), (''daysOfWeek'', Arr (map Str ds)),
       (''segments'', Arr (map (\<lambda>s.
          Obj [(''offsetDays'', Num (offsetDays s)), (''shiftType'', Str (seg_shiftType s))]) ss))])"
| "compileNode (AlternatingWeek c w) =
     (''pattern.alternating_week'', [(''onShiftType'', Str c), (''cycleWeeks'', Num w)])"
| "compileNode (TemplateAdherence t w) =
     (''pattern.template_adherence'', [(''template'', Str t), (''cycleWeeks'', Num w)])"
| "compileNode (LinkedShifts cs) = (''linkage.linked_shifts'', [(''shiftTypes'', Arr (map Str cs))])"
| "compileNode (ImpliesAssignment a b) =
     (''linkage.implies_assignment'', [(''ifShiftType'', Str a), (''thenShiftType'', Str b)])"
| "compileNode (MutuallyExclusive cs) =
     (''linkage.mutually_exclusive'', [(''shiftTypes'', Arr (map Str cs))])"
| "compileNode (RequestHonoured t) = (''preference.request_honoured'', [(''requestType'', Str t)])"
| "compileNode (ShiftPreference c st) =
     (''preference.shift_preference'', [(''shiftType'', Str c), (''strength'', Str st)])"
| "compileNode (AvoidDate d) = (''preference.avoid_date'', [(''date'', Str d)])"
| "compileNode (FairnessBalance m n) =
     (''fairness.balance'', [(''metric'', Str m), (''normalisation'', Str n)])"
| "compileNode (CreditDistribution m) = (''fairness.credit_distribution'', [(''metric'', Str m)])"
| "compileNode (StaffOverLocumPriority w) =
     (''locum.staff_over_locum_priority'', [(''windowDays'', Num w)])"
| "compileNode (LocumRestriction r) = (''locum.restriction'', [(''restriction'', Str r)])"
| "compileNode (FixedAssignment i) = (''fixed.assignment'', [(''assignmentIdentity'', Str i)])"
| "compileNode (ProtectedRange f t) = (''fixed.protected_range'', [(''from'', Str f), (''to'', Str t)])"

definition compileRule :: "Rule \<Rightarrow> CompiledRule" where
  "compileRule rule =
     (case compileNode (predicate rule) of
        (element, params) \<Rightarrow>
          \<lparr>c_ruleKey = ruleKey rule, c_ruleSchemaVersion = ruleSchemaVersion rule,
           c_role = (if classification rule = ''HARD'' then ''constraint'' else ''objective''),
           c_kind = node_kind (predicate rule), c_modelElement = element,
           c_weight = (if classification rule = ''HARD'' then None else weight rule),
           c_scope = compileScope (rscope rule), c_params = params\<rparr>)"

definition compileRuleSet :: "Rule list \<Rightarrow> int \<Rightarrow> CompiledRuleSet" where
  "compileRuleSet rules version =
     \<lparr>compilerVersion = COMPILER_VERSION, set_ruleSchemaVersion = version,
      elements = map compileRule rules\<rparr>"

text \<open>The compiled rule set as the JSON value that \<open>canonicalStringify\<close> is given.\<close>
definition optional :: "('a \<Rightarrow> jsval) \<Rightarrow> 'a option \<Rightarrow> jsval" where
  "optional f v = (case v of None \<Rightarrow> Null | Some x \<Rightarrow> f x)"

definition compiled_scope_json :: "CompiledScope \<Rightarrow> jsval" where
  "compiled_scope_json s = Obj
     [(''dateRange'', optional (\<lambda>r. Obj [(''from'', Str (dr_from r)), (''to'', Str (dr_to r))]) (cs_dateRange s)),
      (''shiftTypes'', Arr (map Str (cs_shiftTypes s))),
      (''staffGroups'', Arr (map Str (cs_staffGroups s))),
      (''memberships'', Arr (map Str (cs_memberships s)))]"

definition compiled_rule_json :: "CompiledRule \<Rightarrow> jsval" where
  "compiled_rule_json r = Obj
     [(''ruleKey'', Str (c_ruleKey r)), (''ruleSchemaVersion'', Num (num (c_ruleSchemaVersion r))),
      (''kind'', Str (c_kind r)), (''modelElement'', Str (c_modelElement r)),
      (''scope'', compiled_scope_json (c_scope r)), (''params'', Obj (c_params r)),
      (''role'', Str (c_role r)), (''weight'', optional Num (c_weight r))]"

definition compileRuleSetToCanonical :: "Rule list \<Rightarrow> int \<Rightarrow> jsval result" where
  "compileRuleSetToCanonical rules version =
     (let s = compileRuleSet rules version in
      canonicalize (Obj
        [(''compilerVersion'', Num (num (compilerVersion s))),
         (''ruleSchemaVersion'', Num (num (set_ruleSchemaVersion s))),
         (''elements'', Arr (map compiled_rule_json (elements s)))]))"

section \<open>Lemmas\<close>

lemma compileNode_params: "snd (compileNode n) = node_members n"
  by (cases n) (simp_all add: segment_members_def)

lemma canonicalize_not_Undef: "canonicalize v = Inr w \<Longrightarrow> w \<noteq> Undef"
  by (cases v) (auto split: if_splits sum.splits)

lemma sorted_members_canonical:
  assumes "sorted (map fst ms)" "\<forall>m \<in> set ms. snd m \<noteq> Undef"
  shows "sorted_members ms = ms"
proof -
  have "filter (\<lambda>m. snd m \<noteq> Undef) ms = ms" using assms(2) by (auto intro: filter_True)
  then show ?thesis using assms(1) by (simp add: sorted_members_def sort_key_id_if_sorted sorted_sort_id)
qed

lemma canonicalize_idem: "canonicalize v = Inr w \<Longrightarrow> canonicalize w = Inr w"
proof (induction v arbitrary: w rule: canonicalize.induct)
  case (5 vs)
  then obtain ws where ws: "w = Arr ws" "try_map canonicalize vs = Inr ws" by (auto split: sum.splits)
  then have "list_all2 (\<lambda>v w. canonicalize v = Inr w) vs ws" by (simp add: try_map_Inr)
  from list_all2_result[OF this] have "\<forall>x \<in> set ws. canonicalize x = Inr x" using 5(1) by blast
  then have "try_map canonicalize ws = Inr ws" by (simp add: try_map_Inr list_all2_same)
  then show ?case using ws(1) by simp
next
  case (6 ms)
  let ?f = "\<lambda>m. case canonicalize (snd m) of Inl e \<Rightarrow> Inl e | Inr w \<Rightarrow> Inr (fst m, w)"
  from 6(2) obtain ws where ws: "w = Obj ws" "try_map ?f (sorted_members ms) = Inr ws"
    by (auto split: sum.splits)
  then have l: "list_all2 (\<lambda>m m'. ?f m = Inr m') (sorted_members ms) ws" by (simp add: try_map_Inr)
  then have keys: "map fst ws = map fst (sorted_members ms)"
    by (induction rule: list_all2_induct) (auto split: sum.splits)
  then have srt: "sorted (map fst ws)" by (simp add: sorted_members_def)
  have un: "\<forall>m \<in> set ws. snd m \<noteq> Undef"
    using l by (induction rule: list_all2_induct) (auto dest: canonicalize_not_Undef split: sum.splits)
  have "?f m' = Inr m'" if m': "m' \<in> set ws" for m'
  proof -
    obtain m where m: "m \<in> set (sorted_members ms)" "?f m = Inr m'"
      using list_all2_result[OF l m'] by blast
    then obtain u where u: "canonicalize (snd m) = Inr u" "m' = (fst m, u)" by (auto split: sum.splits)
    then show ?thesis using 6(1)[OF m(1) u(1)] by simp
  qed
  then have "try_map ?f ws = Inr ws" by (simp add: try_map_Inr list_all2_same)
  then show ?case using ws(1) sorted_members_canonical[OF srt un] by simp
qed (auto split: if_splits)

text \<open>The order of an object's members does not matter: two spellings of one object have one canonical form.\<close>

inductive same_json :: "jsval \<Rightarrow> jsval \<Rightarrow> bool" where
  same_refl: "same_json v v"
| same_arr: "list_all2 same_json vs ws \<Longrightarrow> same_json (Arr vs) (Arr ws)"
| same_obj: "mset ms = mset ns' \<Longrightarrow> distinct (map fst ms) \<Longrightarrow>
    list_all2 (\<lambda>m n. fst m = fst n \<and> same_json (snd m) (snd n)) ns' ns \<Longrightarrow> same_json (Obj ms) (Obj ns)"
monos list.rel_mono

lemma sorted_members_perm:
  assumes "mset ms = mset ns" "distinct (map fst ms)"
  shows "sorted_members ms = sorted_members ns"
proof -
  have "mset (filter P ms) = mset (filter P ns)" for P using assms(1) by simp
  moreover have "inj_on fst (set (filter (\<lambda>m. snd m \<noteq> Undef) ms))"
    using assms(2) by (auto simp: distinct_map intro: inj_on_subset)
  moreover have "mset (sort_key fst (filter (\<lambda>m. snd m \<noteq> Undef) ns)) = mset (filter (\<lambda>m. snd m \<noteq> Undef) ns)"
    by simp
  ultimately show ?thesis
    unfolding sorted_members_def by (intro sort_key_inj_key_eq) simp_all
qed

lemma same_json_Undef: "same_json v w \<Longrightarrow> v = Undef \<longleftrightarrow> w = Undef"
  by (cases rule: same_json.cases) auto

lemma insort_key_rel:
  assumes "fst m = fst n" "R (snd m) (snd n)" "list_all2 (\<lambda>m n. fst m = fst n \<and> R (snd m) (snd n)) ms ns"
  shows "list_all2 (\<lambda>m n. fst m = fst n \<and> R (snd m) (snd n)) (insort_key fst m ms) (insort_key fst n ns)"
  using assms(3) by (induction rule: list_all2_induct) (use assms(1,2) in auto)

lemma sorted_members_rel:
  assumes "list_all2 (\<lambda>m n. fst m = fst n \<and> R (snd m) (snd n)) ms ns"
    "\<And>v w. R v w \<Longrightarrow> v = Undef \<longleftrightarrow> w = Undef"
  shows "list_all2 (\<lambda>m n. fst m = fst n \<and> R (snd m) (snd n)) (sorted_members ms) (sorted_members ns)"
  using assms(1)
proof (induction rule: list_all2_induct)
  case (Cons m ms n ns)
  then show ?case
    using assms(2)[of "snd m" "snd n"] by (auto simp: sorted_members_def intro: insort_key_rel[where R = R])
qed (simp add: sorted_members_def)

lemma try_map_rel:
  "list_all2 (\<lambda>x y. f x = g y) xs ys \<Longrightarrow> try_map f xs = try_map g ys"
  by (induction rule: list_all2_induct) (auto split: sum.splits)

lemma canonicalize_same: "same_json v w \<Longrightarrow> canonicalize v = canonicalize w"
proof (induction rule: same_json.induct)
  case (same_arr vs ws)
  have "list_all2 (\<lambda>x y. canonicalize x = canonicalize y) vs ws"
    using same_arr by (rule list_all2_mono) auto
  then show ?case by (simp add: try_map_rel)
next
  case (same_obj ms ns' ns)
  let ?f = "\<lambda>m. case canonicalize (snd m) of Inl e \<Rightarrow> Inl e | Inr w \<Rightarrow> Inr (fst m, w)"
  let ?R = "\<lambda>v w. same_json v w \<and> canonicalize v = canonicalize w"
  have "list_all2 (\<lambda>m n. fst m = fst n \<and> ?R (snd m) (snd n)) ns' ns"
    using same_obj(3) by (rule list_all2_mono) auto
  from sorted_members_rel[OF this] have
    "list_all2 (\<lambda>m n. fst m = fst n \<and> ?R (snd m) (snd n)) (sorted_members ns') (sorted_members ns)"
    using same_json_Undef by blast
  then have "list_all2 (\<lambda>m n. ?f m = ?f n) (sorted_members ns') (sorted_members ns)"
    by (rule list_all2_mono) (auto split: sum.split)
  then show ?case using sorted_members_perm[OF same_obj(1,2)] by (simp add: try_map_rel)
qed simp

text \<open>Canonical JSON is canonical: canonicalising again changes nothing, and two values that differ
  only in the order of object members, at any depth, have the same canonical form.\<close>
theorem canonicalize_canonical:
  "(canonicalize v = Inr c \<longrightarrow> canonicalize c = Inr c) \<and>
   (same_json v w \<longrightarrow> canonicalize v = canonicalize w)"
  using canonicalize_idem canonicalize_same by blast

lemma canonicalize_canonical_witness:
  "canonicalize (Obj [(''b'', Num (num 1)), (''a'', Null)]) = canonicalize (Obj [(''a'', Null), (''b'', Num (num 1))]) \<and>
   canonicalize (Obj [(''a'', Null), (''b'', Num (num 1))]) = Inr (Obj [(''a'', Null), (''b'', Num (num 1))])"
proof -
  have s: "same_json (Obj [(''b'', Num (num 1)), (''a'', Null)]) (Obj [(''a'', Null), (''b'', Num (num 1))])"
    by (rule same_obj[where ns' = "[(''a'', Null), (''b'', Num (num 1))]"]) (auto intro: same_refl)
  have c: "canonicalize (Obj [(''b'', Num (num 1)), (''a'', Null)]) = Inr (Obj [(''a'', Null), (''b'', Num (num 1))])"
    by (simp add: sorted_members_def)
  show ?thesis
    by (rule conjI[OF canonicalize_canonical[THEN conjunct2, THEN mp, OF s]
          canonicalize_canonical[THEN conjunct1, THEN mp, OF c]])
qed

text \<open>The relevant part of a compiled rule: which side it is on and what it carries.\<close>

lemma canonicalize_Strs [simp]: "try_map canonicalize (map Str xs) = Inr (map Str xs)"
  by (induction xs) auto

lemma canonicalize_Nums:
  "list_all js_isFinite xs \<Longrightarrow> try_map canonicalize (map Num xs) = Inr (map Num xs)"
  by (induction xs) auto

text \<open>Classification is structural in the compiled output. A hard rule compiles to a constraint that
  has no weight, whatever weight the rule carried, and only a soft rule compiles to an objective term;
  the parameters of the element are the node's own members.\<close>
theorem compile_hard_soft:
  "(classification r = ''HARD'' \<longrightarrow> c_role (compileRule r) = ''constraint'' \<and> c_weight (compileRule r) = None) \<and>
   (classification r \<noteq> ''HARD'' \<longrightarrow> c_role (compileRule r) = ''objective'' \<and> c_weight (compileRule r) = weight r) \<and>
   c_kind (compileRule r) = node_kind (predicate r) \<and> c_params (compileRule r) = node_members (predicate r)"
  using compileNode_params[of "predicate r"] by (auto simp: compileRule_def split: prod.split)

lemma compile_hard_soft_witness:
  "let r = \<lparr>ruleKey = ''r'', rule_name = ''Rest'', ruleSchemaVersion = 1, classification = ''HARD'',
      weight = Some (num 3),
      rscope = \<lparr>dateRange = None, shiftTypes = None, staffGroups = None, memberships = None\<rparr>,
      predicate = MinimumRestBetween (num 11), surplus = no_surplus\<rparr>
   in c_role (compileRule r) = ''constraint'' \<and> c_weight (compileRule r) = None \<and>
      c_params (compileRule r) = [(''minHours'', Num (num 11))]"
  unfolding Let_def
  by (subst compile_hard_soft [THEN conjunct1, rule_format, THEN conjunct1], simp,
      subst compile_hard_soft [THEN conjunct1, rule_format, THEN conjunct2], simp,
      simp add: compile_hard_soft [THEN conjunct2, THEN conjunct2, THEN conjunct2])

end
