(* ===== verification/HardRuleCheck.thy ===== *)
theory HardRuleCheck
  imports RuleCompile
begin

text \<open>
  \<open>packages/domain/src/rules/hard-rule-check.ts\<close>: the independent checker that evaluates every compiled
  hard rule against the content of a schedule version. A \<open>ReadonlySet\<close> is the list of its elements in
  insertion order, a \<open>Map\<close> an association list in insertion order, an explanation text the
  constructor of its template with the interpolated values. Dates are \<open>YYYY-MM-DD\<close> strings, instants
  whole milliseconds.
\<close>

section \<open>Insertion-ordered sets and maps\<close>

definition set_add :: "'a \<Rightarrow> 'a list \<Rightarrow> 'a list" where
  "set_add x xs = (if x \<in> set xs then xs else xs @ [x])"

text \<open>\<open>[...new Set(xs)]\<close>\<close>
definition js_set :: "'a list \<Rightarrow> 'a list" where
  "js_set xs = foldl (\<lambda>acc x. set_add x acc) [] xs"

text \<open>\<open>map.get(k)\<close> to a function of the old entry, stored back; a new key goes to the end.\<close>
fun map_update :: "'k \<Rightarrow> ('v option \<Rightarrow> 'v) \<Rightarrow> ('k \<times> 'v) list \<Rightarrow> ('k \<times> 'v) list" where
  "map_update k f [] = [(k, f None)]"
| "map_update k f ((j, v) # m) = (if j = k then (j, f (Some v)) # m else (j, v) # map_update k f m)"

text \<open>\<open>list === undefined ? map.set(k, [v]) : list.push(v)\<close>\<close>
definition map_push :: "'k \<Rightarrow> 'v \<Rightarrow> ('k \<times> 'v list) list \<Rightarrow> ('k \<times> 'v list) list" where
  "map_push k v = map_update k (\<lambda>old. case old of None \<Rightarrow> [v] | Some vs \<Rightarrow> vs @ [v])"

text \<open>\<open>codes === undefined ? map.set(k, new Set([v])) : codes.add(v)\<close>\<close>
definition map_add :: "'k \<Rightarrow> 'v \<Rightarrow> ('k \<times> 'v list) list \<Rightarrow> ('k \<times> 'v list) list" where
  "map_add k v = map_update k (\<lambda>old. case old of None \<Rightarrow> [v] | Some vs \<Rightarrow> set_add v vs)"

text \<open>\<open>map.set(k, (map.get(k) ?? 0) + 1)\<close>\<close>
definition map_count :: "'k \<Rightarrow> ('k \<times> nat) list \<Rightarrow> ('k \<times> nat) list" where
  "map_count k = map_update k (\<lambda>old. case old of None \<Rightarrow> 1 | Some n \<Rightarrow> n + 1)"

definition get_or :: "'v \<Rightarrow> ('k \<times> 'v) list \<Rightarrow> 'k \<Rightarrow> 'v" where
  "get_or d m k = (case map_of m k of None \<Rightarrow> d | Some v \<Rightarrow> v)"

section \<open>Inputs\<close>

record CheckedAssignment =
  snapshotId :: string
  assignmentIdentityId :: string
  membershipId :: string
  date :: string
  startsAtMs :: int
  endsAtMs :: int
  shiftTypeCode :: string
  isOnCall :: bool
  pickPosition :: "int option option"

record CandidatePriorAssignment =
  p_assignmentIdentityId :: string
  p_membershipId :: string
  p_date :: string
  p_shiftTypeCode :: string
  p_isPinned :: bool

record CandidateFacts =
  horizon :: DateRange
  knownStaffGroupIds :: "string list"
  staffGroupMembers :: "string \<Rightarrow> string list option"
  knownValidGroupIds :: "string list"
  validGroupShiftTypes :: "string \<Rightarrow> string list option"
  weekdayTarget :: "string \<Rightarrow> string \<Rightarrow> (jsnum \<times> jsnum option) option"
  workPercentage :: "string \<Rightarrow> jsnum option"
  priorAssignments :: "CandidatePriorAssignment list"

record QualificationFacts =
  heldOn :: "string \<Rightarrow> string \<Rightarrow> string \<Rightarrow> bool"
  knownQualificationKeys :: "string list"

record CheckedVersion =
  assignments :: "CheckedAssignment list"
  knownShiftTypeCodes :: "string list"
  knownMembershipIds :: "string list"
  qualifications :: QualificationFacts
  candidateFacts :: "CandidateFacts option"

section \<open>Findings\<close>

datatype HardRuleFindingKind = Breach | NotEvaluable

datatype explanation =
    Text string
  | NotEvaluableReason string
  | ScopeNotResolvable explanation
  | UnknownStaffGroupScope string
  | UnknownShiftTypeScope string
  | UnknownMembershipScope string
  | UnknownQualification string
  | WithoutQualification string string string string
  | ShortRest string int string jsnum
  | TooManyConsecutive string int string jsnum
  | TooManyInWindow string int jsnum string jsnum
  | CallsTooClose string string int string jsnum
  | OnForbiddenDate string string
  | CoverageOff string string int string jsnum
  | UnknownStaffGroup string
  | NotInStaffGroup string string string string
  | UnknownValidGroup string
  | NotAdmitted string string string
  | PickPositionOff string int
  | OverWeekdayLimit string int string int string string jsnum
  | AdjacentTypes string string string string string
  | ForbiddenRun string "string list" string
  | LinkageBroken string "string list" "string list" string
  | ImplicationBroken string string string string
  | ExclusionBroken string "string list" string
  | UnknownIdentity string
  | PinnedAbsent string string string string
  | PinnedMoved string string string string string string string
  | PatternMissing string string string string string
  | ManyWeekClasses string string int jsnum string string
  | FindingsCapped int

record HardRuleFinding =
  finding :: HardRuleFindingKind
  f_ruleKey :: string
  f_nodeKind :: string
  f_field :: string
  f_explanation :: explanation

definition breach :: "CompiledRule \<Rightarrow> string \<Rightarrow> explanation \<Rightarrow> HardRuleFinding" where
  "breach rule f e =
     \<lparr>finding = Breach, f_ruleKey = c_ruleKey rule, f_nodeKind = c_kind rule, f_field = f, f_explanation = e\<rparr>"

definition notEvaluable :: "CompiledRule \<Rightarrow> explanation \<Rightarrow> HardRuleFinding" where
  "notEvaluable rule reason =
     \<lparr>finding = NotEvaluable, f_ruleKey = c_ruleKey rule, f_nodeKind = c_kind rule,
      f_field = ''rule'', f_explanation = reason\<rparr>"

definition MISSING_CANDIDATE_FACTS :: explanation where
  "MISSING_CANDIDATE_FACTS = Text
     (''this caller supplied no candidateFacts, so the build horizon, the staff-group and '' @
      ''valid-group vocabularies, the in-force work profiles and the fixed inputs this kind needs '' @
      ''are all absent. Nothing may be asserted about it (FAD-27 fail-closed)'')"

definition EVALUATED_HARD_RULE_KINDS :: "string list" where
  "EVALUATED_HARD_RULE_KINDS =
     [''RequiresQualification'', ''MinimumRestBetween'', ''MaxConsecutive'', ''MaxAssignmentsInWindow'',
      ''CallSpacing'', ''AvoidDate'', ''RequiredCount'', ''MinCoverage'', ''MaxCoverage'',
      ''MemberOfStaffGroup'', ''ValidGroupRestriction'', ''PickPositionRestriction'',
      ''WeekdayFteLimit'', ''NoAdjacent'', ''ForbiddenSequence'', ''LinkedShifts'',
      ''ImpliesAssignment'', ''MutuallyExclusive'', ''FixedAssignment'', ''PatternRule'',
      ''AlternatingWeek'', ''ProtectedRange'']"

definition isEvaluatedHardRuleKind :: "string \<Rightarrow> bool" where
  "isEvaluatedHardRuleKind kind \<longleftrightarrow> kind \<in> set EVALUATED_HARD_RULE_KINDS"

text \<open>The keys of the table of declared reasons; a kind outside it gets the default text.\<close>
definition NOT_EVALUABLE_REASONS :: "string list" where
  "NOT_EVALUABLE_REASONS =
     [''TemplateAdherence'', ''RequestHonoured'', ''StaffOverLocumPriority'', ''LocumRestriction'',
      ''WorkPercentageTarget'', ''ShiftPreference'', ''FairnessBalance'', ''CreditDistribution'']"

definition notEvaluableReason :: "string \<Rightarrow> explanation" where
  "notEvaluableReason kind =
     (if kind \<in> set NOT_EVALUABLE_REASONS then NotEvaluableReason kind
      else Text ''this node kind has no declared evaluation semantics'')"

section \<open>Scope\<close>

definition scopeUnresolvable :: "CompiledRule \<Rightarrow> CheckedVersion \<Rightarrow> explanation option" where
  "scopeUnresolvable rule version =
     (let sg = cs_staffGroups (c_scope rule);
          rest =
            (case find (\<lambda>code. code \<notin> set (knownShiftTypeCodes version)) (cs_shiftTypes (c_scope rule)) of
               Some code \<Rightarrow> Some (UnknownShiftTypeScope code)
             | None \<Rightarrow>
                 map_option UnknownMembershipScope
                   (find (\<lambda>m. m \<notin> set (knownMembershipIds version)) (cs_memberships (c_scope rule))))
      in if length sg > 0 then
           (case candidateFacts version of
              None \<Rightarrow> Some (ScopeNotResolvable MISSING_CANDIDATE_FACTS)
            | Some facts \<Rightarrow>
                (case find (\<lambda>g. g \<notin> set (knownStaffGroupIds facts)) sg of
                   Some g \<Rightarrow> Some (UnknownStaffGroupScope g)
                 | None \<Rightarrow> rest))
         else rest)"

definition scope_members :: "CompiledRule \<Rightarrow> CheckedVersion \<Rightarrow> string list option" where
  "scope_members rule version =
     (case candidateFacts version of
        None \<Rightarrow> None
      | Some facts \<Rightarrow>
          if length (cs_staffGroups (c_scope rule)) > 0
          then Some (js_set (concat (map (\<lambda>g. or_empty (staffGroupMembers facts g))
                  (cs_staffGroups (c_scope rule)))))
          else None)"

definition in_scope :: "CompiledRule \<Rightarrow> CheckedVersion \<Rightarrow> CheckedAssignment \<Rightarrow> bool" where
  "in_scope rule version a \<longleftrightarrow>
     (case cs_dateRange (c_scope rule) of None \<Rightarrow> True
      | Some r \<Rightarrow> \<not> (date a < dr_from r \<or> date a > dr_to r)) \<and>
     \<not> (cs_shiftTypes (c_scope rule) \<noteq> [] \<and> shiftTypeCode a \<notin> set (cs_shiftTypes (c_scope rule))) \<and>
     \<not> (cs_memberships (c_scope rule) \<noteq> [] \<and> membershipId a \<notin> set (cs_memberships (c_scope rule))) \<and>
     (case scope_members rule version of None \<Rightarrow> True | Some ms \<Rightarrow> membershipId a \<in> set ms)"

definition scopedAssignments :: "CompiledRule \<Rightarrow> CheckedAssignment list \<Rightarrow> CheckedVersion \<Rightarrow> CheckedAssignment list" where
  "scopedAssignments rule as version = filter (in_scope rule version) as"

section \<open>Days, members, order\<close>

text \<open>\<open>Math.floor (Date.UTC (year, month - 1, day) / MS_PER_DAY)\<close> of the digit groups of the string.\<close>
definition dayNumber :: "string \<Rightarrow> int" where
  "dayNumber s =
     date_utc_day (number_of_digits (take 4 s)) (number_of_digits (take 2 (drop 5 s)) - 1)
       (number_of_digits (take 2 (drop 8 s)))"

definition byMembership :: "CheckedAssignment list \<Rightarrow> (string \<times> CheckedAssignment list) list" where
  "byMembership as = foldl (\<lambda>out a. map_push (membershipId a) a out) [] as"

definition chronological :: "CheckedAssignment list \<Rightarrow> CheckedAssignment list" where
  "chronological as = sort_key (\<lambda>a. (startsAtMs a, snapshotId a)) as"

text \<open>The consecutive elements \<open>(xs[i - 1], xs[i])\<close> of an indexed loop from 1.\<close>
fun adjacent :: "'a list \<Rightarrow> ('a \<times> 'a) list" where
  "adjacent (x # y # xs) = (x, y) # adjacent (y # xs)"
| "adjacent _ = []"

definition WEEKDAY_OF_EPOCH_DAY :: "string list" where
  "WEEKDAY_OF_EPOCH_DAY = [''thu'', ''fri'', ''sat'', ''sun'', ''mon'', ''tue'', ''wed'']"

definition weekdayOfDate :: "string \<Rightarrow> string" where
  "weekdayOfDate s = WEEKDAY_OF_EPOCH_DAY ! nat (js_rem (js_rem (dayNumber s) 7 + 7) 7)"

definition datesInRangeIso :: "DateRange \<Rightarrow> string list" where
  "datesInRangeIso r = map iso_date [dayNumber (dr_from r)..dayNumber (dr_to r)]"

definition accountingWindow :: "CompiledRule \<Rightarrow> DateRange \<Rightarrow> DateRange option" where
  "accountingWindow rule hz =
     (case cs_dateRange (c_scope rule) of
        None \<Rightarrow> Some hz
      | Some scope \<Rightarrow>
          (let f = (if dr_from scope > dr_from hz then dr_from scope else dr_from hz);
               t = (if dr_to scope < dr_to hz then dr_to scope else dr_to hz)
           in if f > t then None else Some \<lparr>dr_from = f, dr_to = t\<rparr>))"

definition cell_key :: "string \<Rightarrow> string \<Rightarrow> string" where
  "cell_key d code = d @ CHR 0x00 # code"

section \<open>The checks\<close>

definition checkRequiresQualification ::
  "CompiledRule \<Rightarrow> CheckedAssignment list \<Rightarrow> CheckedVersion \<Rightarrow> HardRuleFinding list" where
  "checkRequiresQualification rule scoped version =
     (case as_string (get (c_params rule) ''qualification'') of
        None \<Rightarrow> [notEvaluable rule (Text ''the compiled `qualification` parameter is not a string'')]
      | Some key \<Rightarrow>
          if key \<notin> set (knownQualificationKeys (qualifications version))
          then [notEvaluable rule (UnknownQualification key)]
          else map (\<lambda>a. breach rule (snapshotId a)
                      (WithoutQualification (membershipId a) (date a) (shiftTypeCode a) key))
                 (filter (\<lambda>a. \<not> heldOn (qualifications version) (membershipId a) key (date a))
                   (chronological scoped)))"

definition checkMinimumRestBetween ::
  "CompiledRule \<Rightarrow> CheckedAssignment list \<Rightarrow> HardRuleFinding list" where
  "checkMinimumRestBetween rule scoped =
     (case as_number (get (c_params rule) ''minHours'') of
        None \<Rightarrow> [notEvaluable rule (Text ''the compiled `minHours` parameter is not a number'')]
      | Some minHours \<Rightarrow>
          (let minMs = js_mul minHours (num 3600000) in
           concat (map (\<lambda>(m, lst).
             map (\<lambda>(previous, current). breach rule (snapshotId current)
                   (ShortRest m (startsAtMs current - endsAtMs previous) (date current) minHours))
               (filter (\<lambda>(previous, current). \<not> js_le minMs (num (startsAtMs current - endsAtMs previous)))
                 (adjacent (chronological lst))))
             (byMembership scoped))))"

text \<open>The walk over the distinct sorted days: the previous day, the start and the length of the run.\<close>
fun run_loop :: "(int \<Rightarrow> int \<Rightarrow> 'f) \<Rightarrow> jsnum \<Rightarrow> int option \<Rightarrow> int \<Rightarrow> int \<Rightarrow> int list \<Rightarrow> 'f list" where
  "run_loop report limit previous runStart run [] = []"
| "run_loop report limit previous runStart run (day # days) =
     (let fresh = (case previous of None \<Rightarrow> True | Some p \<Rightarrow> day \<noteq> p + 1);
          runStart' = (if fresh then day else runStart);
          run' = (if fresh then 1 else run + 1)
      in (if js_eq (num run') (js_add limit (num 1)) then [report run' runStart'] else []) @
         run_loop report limit (Some day) runStart' run' days)"

definition checkMaxConsecutive ::
  "CompiledRule \<Rightarrow> CheckedAssignment list \<Rightarrow> HardRuleFinding list" where
  "checkMaxConsecutive rule scoped =
     (case as_number (get (c_params rule) ''maxDays'') of
        None \<Rightarrow> [notEvaluable rule (Text ''the compiled `maxDays` parameter is not a number'')]
      | Some limit \<Rightarrow>
          concat (map (\<lambda>(m, lst).
            run_loop (\<lambda>run runStart. breach rule m (TooManyConsecutive m run (iso_date runStart) limit))
              limit None 0 0 (sort (js_set (map (\<lambda>a. dayNumber (date a)) lst))))
            (byMembership scoped)))"

definition window_count :: "int list \<Rightarrow> jsnum \<Rightarrow> int \<Rightarrow> nat" where
  "window_count days windowDays start =
     length (filter (\<lambda>d. d \<ge> start \<and> js_le (num d) (js_sub (js_add (num start) windowDays) (num 1))) days)"

definition checkMaxAssignmentsInWindow ::
  "CompiledRule \<Rightarrow> CheckedAssignment list \<Rightarrow> HardRuleFinding list" where
  "checkMaxAssignmentsInWindow rule scoped =
     (case (as_number (get (c_params rule) ''max''), as_number (get (c_params rule) ''windowDays'')) of
        (Some mx, Some windowDays) \<Rightarrow>
          concat (map (\<lambda>(m, lst).
            (let days = sort (map (\<lambda>a. dayNumber (date a)) lst) in
             case find (\<lambda>start. \<not> js_le (num (int (window_count days windowDays start))) mx) (js_set days) of
               None \<Rightarrow> []
             | Some start \<Rightarrow>
                 [breach rule m (TooManyInWindow m (int (window_count days windowDays start)) windowDays
                    (iso_date start) mx)]))
            (byMembership scoped))
      | _ \<Rightarrow> [notEvaluable rule (Text ''the compiled `max`/`windowDays` parameters are not numbers'')])"

definition checkCallSpacing ::
  "CompiledRule \<Rightarrow> CheckedAssignment list \<Rightarrow> HardRuleFinding list" where
  "checkCallSpacing rule scoped =
     (case as_number (get (c_params rule) ''minDaysBetweenCalls'') of
        None \<Rightarrow> [notEvaluable rule (Text ''the compiled `minDaysBetweenCalls` parameter is not a number'')]
      | Some minDays \<Rightarrow>
          concat (map (\<lambda>(m, lst).
            map (\<lambda>(previous, current). breach rule (snapshotId current)
                  (CallsTooClose m (date current) (dayNumber (date current) - dayNumber (date previous))
                     (date previous) minDays))
              (filter (\<lambda>(previous, current).
                 \<not> js_le minDays (num (dayNumber (date current) - dayNumber (date previous))))
                (adjacent (chronological (filter isOnCall lst)))))
            (byMembership scoped)))"

definition checkAvoidDate ::
  "CompiledRule \<Rightarrow> CheckedAssignment list \<Rightarrow> HardRuleFinding list" where
  "checkAvoidDate rule scoped =
     (case as_string (get (c_params rule) ''date'') of
        None \<Rightarrow> [notEvaluable rule (Text ''the compiled `date` parameter is not a string'')]
      | Some d \<Rightarrow>
          map (\<lambda>a. breach rule (snapshotId a) (OnForbiddenDate (membershipId a) d))
            (filter (\<lambda>a. date a = d) (chronological scoped)))"

text \<open>\<open>bound.kind\<close> and its comparison.\<close>
datatype bound_kind = Exact | AtLeast | AtMost

fun out_of_bound :: "bound_kind \<Rightarrow> nat \<Rightarrow> jsnum \<Rightarrow> bool" where
  "out_of_bound Exact n v \<longleftrightarrow> \<not> js_eq (num (int n)) v"
| "out_of_bound AtLeast n v \<longleftrightarrow> js_lt (num (int n)) v"
| "out_of_bound AtMost n v \<longleftrightarrow> js_lt v (num (int n))"

fun bound_word :: "bound_kind \<Rightarrow> string" where
  "bound_word Exact = ''exactly''"
| "bound_word AtLeast = ''at least''"
| "bound_word AtMost = ''at most''"

definition checkCoverage ::
  "CompiledRule \<Rightarrow> CheckedAssignment list \<Rightarrow> CheckedVersion \<Rightarrow> bound_kind \<times> jsnum \<Rightarrow> HardRuleFinding list" where
  "checkCoverage rule scoped version bound =
     (case candidateFacts version of
        None \<Rightarrow> [notEvaluable rule MISSING_CANDIDATE_FACTS]
      | Some facts \<Rightarrow>
          if \<not> js_isFinite (snd bound)
          then [notEvaluable rule (Text ''the compiled coverage bound is not a number'')]
          else (case accountingWindow rule (horizon facts) of
            None \<Rightarrow> []
          | Some window \<Rightarrow>
              (let codes = (if cs_shiftTypes (c_scope rule) \<noteq> [] then sort (cs_shiftTypes (c_scope rule))
                            else sort (knownShiftTypeCodes version));
                   counts = foldl (\<lambda>m a. map_count (cell_key (date a) (shiftTypeCode a)) m) [] scoped;
                   cell = (\<lambda>d code. get_or 0 counts (cell_key d code))
               in concat (map (\<lambda>d.
                    map (\<lambda>code. breach rule (d @ ''/'' @ code)
                          (CoverageOff d code (int (cell d code)) (bound_word (fst bound)) (snd bound)))
                      (filter (\<lambda>code. out_of_bound (fst bound) (cell d code) (snd bound)) codes))
                    (datesInRangeIso window)))))"

definition checkMemberOfStaffGroup ::
  "CompiledRule \<Rightarrow> CheckedAssignment list \<Rightarrow> CheckedVersion \<Rightarrow> HardRuleFinding list" where
  "checkMemberOfStaffGroup rule scoped version =
     (case candidateFacts version of
        None \<Rightarrow> [notEvaluable rule MISSING_CANDIDATE_FACTS]
      | Some facts \<Rightarrow>
          (case as_string (get (c_params rule) ''staffGroup'') of
             None \<Rightarrow> [notEvaluable rule (Text ''the compiled `staffGroup` parameter is not a string'')]
           | Some g \<Rightarrow>
               (case staffGroupMembers facts g of
                  None \<Rightarrow> [notEvaluable rule (UnknownStaffGroup g)]
                | Some members \<Rightarrow>
                    map (\<lambda>a. breach rule (snapshotId a)
                          (NotInStaffGroup (membershipId a) (date a) (shiftTypeCode a) g))
                      (filter (\<lambda>a. membershipId a \<notin> set members) (chronological scoped)))))"

definition checkValidGroupRestriction ::
  "CompiledRule \<Rightarrow> CheckedAssignment list \<Rightarrow> CheckedVersion \<Rightarrow> HardRuleFinding list" where
  "checkValidGroupRestriction rule scoped version =
     (case candidateFacts version of
        None \<Rightarrow> [notEvaluable rule MISSING_CANDIDATE_FACTS]
      | Some facts \<Rightarrow>
          (case as_string (get (c_params rule) ''validGroup'') of
             None \<Rightarrow> [notEvaluable rule (Text ''the compiled `validGroup` parameter is not a string'')]
           | Some g \<Rightarrow>
               (case validGroupShiftTypes facts g of
                  None \<Rightarrow> [notEvaluable rule (UnknownValidGroup g)]
                | Some admitted \<Rightarrow>
                    map (\<lambda>a. breach rule (snapshotId a) (NotAdmitted (date a) (shiftTypeCode a) g))
                      (filter (\<lambda>a. shiftTypeCode a \<notin> set admitted) (chronological scoped)))))"

definition checkPickPositionRestriction ::
  "CompiledRule \<Rightarrow> CheckedAssignment list \<Rightarrow> HardRuleFinding list" where
  "checkPickPositionRestriction rule scoped =
     (case as_array (get (c_params rule) ''allowedPickPositions'') of
        None \<Rightarrow> [notEvaluable rule (Text ''the compiled `allowedPickPositions` parameter is not an array'')]
      | Some vs \<Rightarrow>
          (let allowed = numbers_of vs in
           if list_ex (\<lambda>a. pickPosition a = None) (chronological scoped)
           then [notEvaluable rule (Text
                   (''the caller did not carry assignment_snapshots.pick_position, so nothing can be '' @
                    ''asserted about a pick-position restriction (an absent column is not a NULL one)''))]
           else concat (map (\<lambda>a. case pickPosition a of
                    Some (Some position) \<Rightarrow>
                      if num position \<in> set allowed then []
                      else [breach rule (snapshotId a) (PickPositionOff (date a) position)]
                  | _ \<Rightarrow> [])
                (chronological scoped))))"

definition weekday_terms :: "jsnum \<Rightarrow> nat \<Rightarrow> (jsnum \<times> jsnum option) option \<Rightarrow> jsnum list" where
  "weekday_terms fraction n target =
     js_ceil (js_mul fraction (num (int n))) #
     (case target of
        None \<Rightarrow> []
      | Some (fte, cap) \<Rightarrow>
          js_ceil (js_mul fte (num (int n))) # (case cap of None \<Rightarrow> [] | Some c \<Rightarrow> [c]))"

definition checkWeekdayFteLimit ::
  "CompiledRule \<Rightarrow> CheckedAssignment list \<Rightarrow> CheckedVersion \<Rightarrow> HardRuleFinding list" where
  "checkWeekdayFteLimit rule scoped version =
     (case candidateFacts version of
        None \<Rightarrow> [notEvaluable rule MISSING_CANDIDATE_FACTS]
      | Some facts \<Rightarrow>
          (case (as_string (get (c_params rule) ''weekday''), as_number (get (c_params rule) ''fteFraction'')) of
             (Some weekday, Some fraction) \<Rightarrow>
               if weekday = ''holiday''
               then [notEvaluable rule (Text
                       (''the rule limits the `holiday` day-arm, and no holiday calendar is a constituent of the '' @
                        ''canonical input, so which dates are holidays is not knowable here (RK-RULING-05)''))]
               else (case accountingWindow rule (horizon facts) of
                 None \<Rightarrow> []
               | Some window \<Rightarrow>
                   (let n = length (filter (\<lambda>d. weekdayOfDate d = weekday) (datesInRangeIso window));
                        perMembership = foldl (\<lambda>m a. map_count (membershipId a) m) []
                          (filter (\<lambda>a. weekdayOfDate (date a) = weekday) scoped)
                    in concat (map (\<lambda>m.
                         (let count = get_or 0 perMembership m;
                              limit = js_min (weekday_terms fraction n (weekdayTarget facts m weekday))
                          in if js_le (num (int count)) limit then []
                             else [breach rule m
                               (OverWeekdayLimit m (int count) weekday (int n) (dr_from window) (dr_to window) limit)]))
                       (sort (map fst perMembership)))))
           | _ \<Rightarrow> [notEvaluable rule (Text ''the compiled `weekday`/`fteFraction` parameters are not usable'')]))"

text \<open>The codes a member works per day: \<open>onDay\<close> and \<open>onDate\<close>.\<close>
definition codes_on_day :: "CheckedAssignment list \<Rightarrow> (int \<times> string list) list" where
  "codes_on_day lst = foldl (\<lambda>m a. map_add (dayNumber (date a)) (shiftTypeCode a) m) [] lst"

definition codes_on_date :: "CheckedAssignment list \<Rightarrow> (string \<times> string list) list" where
  "codes_on_date lst = foldl (\<lambda>m a. map_add (date a) (shiftTypeCode a) m) [] lst"

definition checkNoAdjacent ::
  "CompiledRule \<Rightarrow> CheckedAssignment list \<Rightarrow> HardRuleFinding list" where
  "checkNoAdjacent rule scoped =
     (case (as_string (get (c_params rule) ''shiftTypeA''), as_string (get (c_params rule) ''shiftTypeB'')) of
        (Some a, Some b) \<Rightarrow>
          concat (map (\<lambda>(m, lst).
            (let onDay = codes_on_day lst in
             concat (map (\<lambda>day.
               (let today = get_or [] onDay day; tomorrow = get_or [] onDay (day + 1);
                    forward = (a \<in> set today \<and> b \<in> set tomorrow);
                    backward = (b \<in> set today \<and> a \<in> set tomorrow)
                in if \<not> forward \<and> \<not> backward then []
                   else [breach rule m (AdjacentTypes m (if forward then a else b) (iso_date day)
                           (if forward then b else a) (iso_date (day + 1)))]))
               (sort (map fst onDay)))))
            (byMembership scoped))
      | _ \<Rightarrow> [notEvaluable rule (Text ''the compiled `shiftTypeA`/`shiftTypeB` parameters are not strings'')])"

definition run_matches :: "(int \<times> string list) list \<Rightarrow> string list \<Rightarrow> int \<Rightarrow> bool" where
  "run_matches onDay sequence start \<longleftrightarrow>
     list_all (\<lambda>(step, wanted).
         case map_of onDay (start + int step) of None \<Rightarrow> False | Some codes \<Rightarrow> wanted \<in> set codes)
       (number_list 0 sequence)"

definition checkForbiddenSequence ::
  "CompiledRule \<Rightarrow> CheckedAssignment list \<Rightarrow> HardRuleFinding list" where
  "checkForbiddenSequence rule scoped =
     (case as_array (get (c_params rule) ''sequence'') of
        None \<Rightarrow> [notEvaluable rule (Text ''the compiled `sequence` is not an array'')]
      | Some vs \<Rightarrow>
          (let sequence = strings_of vs in
           if length sequence = 0 then []
           else concat (map (\<lambda>(m, lst).
             (let onDay = codes_on_day lst in
              map (\<lambda>start. breach rule m (ForbiddenRun m sequence (iso_date start)))
                (filter (run_matches onDay sequence) (sort (map fst onDay)))))
             (byMembership scoped))))"

datatype linkage_mode = AllOrNone | Implies | AtMostOne

fun linkage_names :: "linkage_mode \<Rightarrow> CompiledRule \<Rightarrow> explanation + string list" where
  "linkage_names Implies rule =
     (case (as_string (get (c_params rule) ''ifShiftType''), as_string (get (c_params rule) ''thenShiftType'')) of
        (Some f, Some t) \<Rightarrow> Inr [f, t]
      | _ \<Rightarrow> Inl (Text ''the compiled `ifShiftType`/`thenShiftType` are not strings''))"
| "linkage_names _ rule =
     (case as_array (get (c_params rule) ''shiftTypes'') of
        None \<Rightarrow> Inl (Text ''the compiled `shiftTypes` parameter is not an array'')
      | Some vs \<Rightarrow> Inr (strings_of vs))"

fun linkage_breached :: "linkage_mode \<Rightarrow> string list \<Rightarrow> string list \<Rightarrow> bool" where
  "linkage_breached AllOrNone names codes \<longleftrightarrow>
     (let present = filter (\<lambda>n. n \<in> set codes) names in
      length present > 0 \<and> length present < length names)"
| "linkage_breached Implies names codes \<longleftrightarrow> names ! 0 \<in> set codes \<and> names ! 1 \<notin> set codes"
| "linkage_breached AtMostOne names codes \<longleftrightarrow> length (filter (\<lambda>n. n \<in> set codes) names) > 1"

fun linkage_detail :: "linkage_mode \<Rightarrow> string \<Rightarrow> string list \<Rightarrow> string list \<Rightarrow> string \<Rightarrow> explanation" where
  "linkage_detail AllOrNone m names codes d = LinkageBroken m (filter (\<lambda>n. n \<in> set codes) names) names d"
| "linkage_detail Implies m names codes d = ImplicationBroken m (names ! 0) (names ! 1) d"
| "linkage_detail AtMostOne m names codes d = ExclusionBroken m (filter (\<lambda>n. n \<in> set codes) names) d"

definition checkLinkage ::
  "CompiledRule \<Rightarrow> CheckedAssignment list \<Rightarrow> linkage_mode \<Rightarrow> HardRuleFinding list" where
  "checkLinkage rule scoped mode =
     (case linkage_names mode rule of
        Inl reason \<Rightarrow> [notEvaluable rule reason]
      | Inr names \<Rightarrow>
          if length names = 0 then []
          else concat (map (\<lambda>(m, lst).
            (let onDate = codes_on_date lst in
             concat (map (\<lambda>d.
               (let codes = get_or [] onDate d in
                if linkage_breached mode names codes
                then [breach rule m (linkage_detail mode m names codes d)] else []))
               (sort (map fst onDate)))))
            (byMembership scoped)))"

definition preservedFinding ::
  "CompiledRule \<Rightarrow> CheckedVersion \<Rightarrow> CandidatePriorAssignment \<Rightarrow> string \<Rightarrow> HardRuleFinding list" where
  "preservedFinding rule version prior why =
     (case find (\<lambda>a. assignmentIdentityId a = p_assignmentIdentityId prior) (assignments version) of
        None \<Rightarrow> [breach rule (p_assignmentIdentityId prior)
                  (PinnedAbsent why (p_membershipId prior) (p_date prior) (p_shiftTypeCode prior))]
      | Some present \<Rightarrow>
          if membershipId present = p_membershipId prior \<and> date present = p_date prior \<and>
             shiftTypeCode present = p_shiftTypeCode prior
          then []
          else [breach rule (p_assignmentIdentityId prior)
                 (PinnedMoved why (p_membershipId prior) (p_date prior) (p_shiftTypeCode prior)
                    (membershipId present) (date present) (shiftTypeCode present))])"

definition checkFixedAssignment :: "CompiledRule \<Rightarrow> CheckedVersion \<Rightarrow> HardRuleFinding list" where
  "checkFixedAssignment rule version =
     (case candidateFacts version of
        None \<Rightarrow> [notEvaluable rule MISSING_CANDIDATE_FACTS]
      | Some facts \<Rightarrow>
          (case as_string (get (c_params rule) ''assignmentIdentity'') of
             None \<Rightarrow> [notEvaluable rule (Text ''the compiled `assignmentIdentity` parameter is not a string'')]
           | Some identity \<Rightarrow>
               (case find (\<lambda>p. p_assignmentIdentityId p = identity) (priorAssignments facts) of
                  None \<Rightarrow> [notEvaluable rule (UnknownIdentity identity)]
                | Some prior \<Rightarrow> preservedFinding rule version prior ''pinned by this rule'')))"

definition checkProtectedRange :: "CompiledRule \<Rightarrow> CheckedVersion \<Rightarrow> HardRuleFinding list" where
  "checkProtectedRange rule version =
     (case candidateFacts version of
        None \<Rightarrow> [notEvaluable rule MISSING_CANDIDATE_FACTS]
      | Some facts \<Rightarrow>
          (case (as_string (get (c_params rule) ''from''), as_string (get (c_params rule) ''to'')) of
             (Some f, Some t) \<Rightarrow>
               concat (map (\<lambda>prior.
                   if p_date prior < f \<or> p_date prior > t then []
                   else preservedFinding rule version prior (''inside the protected range '' @ f @ ''..'' @ t))
                 (sort_key p_assignmentIdentityId (priorAssignments facts)))
           | _ \<Rightarrow> [notEvaluable rule (Text ''the compiled `from`/`to` parameters are not strings'')]))"

definition member :: "jsval \<Rightarrow> string \<Rightarrow> jsval" where
  "member v k = (case v of Obj ob \<Rightarrow> get ob k | _ \<Rightarrow> Undef)"

text \<open>One segment of a pattern against one trigger assignment; \<open>isoOfDayNumber\<close> may throw.\<close>
definition segment_findings ::
  "CompiledRule \<Rightarrow> CandidateFacts \<Rightarrow> string \<Rightarrow> string list \<Rightarrow> string \<Rightarrow> CheckedAssignment \<Rightarrow> jsval \<Rightarrow>
   HardRuleFinding list result" where
  "segment_findings rule facts m held trigger a segment =
     (case (as_number (member segment ''offsetDays''), as_string (member segment ''shiftType'')) of
        (Some offset, Some code) \<Rightarrow>
          (case isoOfDayNumber (js_add (num (dayNumber (date a))) offset) of
             Inl e \<Rightarrow> Inl e
           | Inr d \<Rightarrow> Inr
               (if d < dr_from (horizon facts) \<or> d > dr_to (horizon facts) then []
                else if cell_key d code \<in> set held then []
                else [breach rule (snapshotId a) (PatternMissing m trigger (date a) code d)]))
      | _ \<Rightarrow> Inr [])"

definition checkPatternRule ::
  "CompiledRule \<Rightarrow> CheckedAssignment list \<Rightarrow> CheckedVersion \<Rightarrow> HardRuleFinding list result" where
  "checkPatternRule rule scoped version =
     (case candidateFacts version of
        None \<Rightarrow> Inr [notEvaluable rule MISSING_CANDIDATE_FACTS]
      | Some facts \<Rightarrow>
          (case as_string (get (c_params rule) ''trigger'') of
             None \<Rightarrow> Inr [notEvaluable rule (Text ''the compiled `trigger` is not a string'')]
           | Some trigger \<Rightarrow>
          (case as_array (get (c_params rule) ''daysOfWeek'') of
             None \<Rightarrow> Inr [notEvaluable rule (Text ''the compiled `daysOfWeek` is not an array'')]
           | Some ds \<Rightarrow>
               if ''holiday'' \<in> set (strings_of ds)
               then Inr [notEvaluable rule (Text
                       (''the pattern triggers on the `holiday` day-arm, and no holiday calendar is a constituent '' @
                        ''of the canonical input''))]
               else
          (case as_array (get (c_params rule) ''segments'') of
             None \<Rightarrow> Inr [notEvaluable rule (Text ''the compiled `segments` is not an array'')]
           | Some segments \<Rightarrow>
               collect (\<lambda>(m, lst).
                 (let held = js_set (map (\<lambda>a. cell_key (date a) (shiftTypeCode a)) lst) in
                  collect (\<lambda>a.
                      if shiftTypeCode a \<noteq> trigger then Inr []
                      else if weekdayOfDate (date a) \<notin> set (strings_of ds) then Inr []
                      else collect (segment_findings rule facts m held trigger a) segments)
                    (chronological lst)))
               (byMembership scoped)))))"

definition week_class :: "int \<Rightarrow> jsnum \<Rightarrow> string \<Rightarrow> jsnum" where
  "week_class origin cycleWeeks d =
     js_mod (js_add (js_mod (num ((dayNumber d - origin) div 7)) cycleWeeks) cycleWeeks) cycleWeeks"

definition checkAlternatingWeek ::
  "CompiledRule \<Rightarrow> CheckedAssignment list \<Rightarrow> CheckedVersion \<Rightarrow> HardRuleFinding list" where
  "checkAlternatingWeek rule scoped version =
     (case candidateFacts version of
        None \<Rightarrow> [notEvaluable rule MISSING_CANDIDATE_FACTS]
      | Some facts \<Rightarrow>
          (let bad = [notEvaluable rule (Text ''the compiled `onShiftType`/`cycleWeeks` parameters are not usable'')] in
           case (as_string (get (c_params rule) ''onShiftType''), as_number (get (c_params rule) ''cycleWeeks'')) of
             (Some code, Some cycleWeeks) \<Rightarrow>
               if js_lt cycleWeeks (num 1) then bad
               else (case accountingWindow rule (horizon facts) of
                 None \<Rightarrow> []
               | Some window \<Rightarrow>
                   (let origin = dayNumber (dr_from window) in
                    concat (map (\<lambda>(m, lst).
                      (let classes = js_set (map (\<lambda>a. week_class origin cycleWeeks (date a))
                             (filter (\<lambda>a. shiftTypeCode a = code) lst))
                       in if length classes \<le> 1 then []
                          else [breach rule m (ManyWeekClasses m code (int (length classes)) cycleWeeks
                                 (dr_from window) (dr_to window))]))
                      (byMembership scoped))))
           | _ \<Rightarrow> bad))"

section \<open>The entry point\<close>

definition numeric_param :: "CompiledRule \<Rightarrow> string \<Rightarrow> jsnum" where
  "numeric_param rule field = (case as_number (get (c_params rule) field) of None \<Rightarrow> NaN | Some n \<Rightarrow> n)"

definition exactBound :: "CompiledRule \<Rightarrow> string \<Rightarrow> bound_kind \<times> jsnum" where
  "exactBound rule field = (Exact, numeric_param rule field)"

definition minBound :: "CompiledRule \<Rightarrow> bound_kind \<times> jsnum" where
  "minBound rule = (AtLeast, numeric_param rule ''min'')"

definition maxBound :: "CompiledRule \<Rightarrow> bound_kind \<times> jsnum" where
  "maxBound rule = (AtMost, numeric_param rule ''max'')"

definition capped :: "CompiledRule \<Rightarrow> HardRuleFinding list \<Rightarrow> HardRuleFinding list" where
  "capped rule produced =
     (if length produced \<le> maxFindingsPerRule then produced
      else take maxFindingsPerRule produced @
           [breach rule ''rule'' (FindingsCapped (int (length produced)))])"

text \<open>The \<open>switch (rule.kind)\<close>; a kind with no arm pushes nothing.\<close>
definition check_kind ::
  "CompiledRule \<Rightarrow> CheckedAssignment list \<Rightarrow> CheckedVersion \<Rightarrow> HardRuleFinding list result" where
  "check_kind rule scoped version =
     (let kind = c_kind rule in
      if kind = ''RequiresQualification'' then Inr (checkRequiresQualification rule scoped version)
      else if kind = ''MinimumRestBetween'' then Inr (checkMinimumRestBetween rule scoped)
      else if kind = ''MaxConsecutive'' then Inr (checkMaxConsecutive rule scoped)
      else if kind = ''MaxAssignmentsInWindow'' then Inr (checkMaxAssignmentsInWindow rule scoped)
      else if kind = ''CallSpacing'' then Inr (checkCallSpacing rule scoped)
      else if kind = ''AvoidDate'' then Inr (checkAvoidDate rule scoped)
      else if kind = ''RequiredCount'' then Inr (checkCoverage rule scoped version (exactBound rule ''count''))
      else if kind = ''MinCoverage'' then Inr (checkCoverage rule scoped version (minBound rule))
      else if kind = ''MaxCoverage'' then Inr (checkCoverage rule scoped version (maxBound rule))
      else if kind = ''MemberOfStaffGroup'' then Inr (checkMemberOfStaffGroup rule scoped version)
      else if kind = ''ValidGroupRestriction'' then Inr (checkValidGroupRestriction rule scoped version)
      else if kind = ''PickPositionRestriction'' then Inr (checkPickPositionRestriction rule scoped)
      else if kind = ''WeekdayFteLimit'' then Inr (checkWeekdayFteLimit rule scoped version)
      else if kind = ''NoAdjacent'' then Inr (checkNoAdjacent rule scoped)
      else if kind = ''ForbiddenSequence'' then Inr (checkForbiddenSequence rule scoped)
      else if kind = ''LinkedShifts'' then Inr (checkLinkage rule scoped AllOrNone)
      else if kind = ''ImpliesAssignment'' then Inr (checkLinkage rule scoped Implies)
      else if kind = ''MutuallyExclusive'' then Inr (checkLinkage rule scoped AtMostOne)
      else if kind = ''FixedAssignment'' then Inr (checkFixedAssignment rule version)
      else if kind = ''ProtectedRange'' then Inr (checkProtectedRange rule version)
      else if kind = ''PatternRule'' then checkPatternRule rule scoped version
      else if kind = ''AlternatingWeek'' then Inr (checkAlternatingWeek rule scoped version)
      else Inr [])"

definition rule_findings :: "CheckedVersion \<Rightarrow> CompiledRule \<Rightarrow> HardRuleFinding list result" where
  "rule_findings version rule =
     (if c_role rule \<noteq> ''constraint'' then Inr []
      else if \<not> isEvaluatedHardRuleKind (c_kind rule)
      then Inr [notEvaluable rule (notEvaluableReason (c_kind rule))]
      else (case scopeUnresolvable rule version of
              Some reason \<Rightarrow> Inr [notEvaluable rule reason]
            | None \<Rightarrow>
                (case check_kind rule (scopedAssignments rule (assignments version) version) version of
                   Inl e \<Rightarrow> Inl e | Inr produced \<Rightarrow> Inr (capped rule produced))))"

definition evaluateHardRules :: "CompiledRule list \<Rightarrow> CheckedVersion \<Rightarrow> HardRuleFinding list result" where
  "evaluateHardRules compiled version = collect (rule_findings version) (sort_key c_ruleKey compiled)"

definition blocksPublication :: "HardRuleFinding list \<Rightarrow> bool" where
  "blocksPublication findings \<longleftrightarrow> length findings > 0"

end
