(* ===== verification/HardRuleFacts.thy ===== *)
theory HardRuleFacts
  imports HardRuleCheck
begin

text \<open>
  Facts about the checker's walks: the insertion-ordered maps it groups with, its chronological order, and
  the locale of the checks that walk the assignments member by member.
\<close>

section \<open>Insertion-ordered sets and maps\<close>

lemma js_set_snoc: "js_set (xs @ [x]) = set_add x (js_set xs)"
  by (simp add: js_set_def)

lemma js_set_Nil [simp]: "js_set [] = []"
  by (simp add: js_set_def)

lemma set_js_set [simp]: "set (js_set xs) = set xs"
  by (induction xs rule: rev_induct) (auto simp: js_set_snoc set_add_def)

lemma distinct_js_set [simp]: "distinct (js_set xs)"
  by (induction xs rule: rev_induct) (auto simp: js_set_snoc set_add_def)

lemma length_js_set: "length (js_set xs) = card (set xs)"
  by (metis distinct_card distinct_js_set set_js_set)

lemma map_update_graph:
  "distinct ks \<Longrightarrow>
   map_update k f (map (\<lambda>j. (j, g j)) ks) =
     map (\<lambda>j. (j, if j = k then f (if k \<in> set ks then Some (g k) else None) else g j)) (set_add k ks)"
proof (induction ks)
  case (Cons j ks)
  show ?case
  proof (cases "j = k")
    case True
    then have "\<forall>i \<in> set ks. i \<noteq> k" using Cons.prems by auto
    then show ?thesis using True by (auto simp: set_add_def)
  next
    case False
    then show ?thesis using Cons by (auto simp: set_add_def)
  qed
qed (simp add: set_add_def)

text \<open>The shape of all the grouping loops: one entry per key in order of first occurrence, each the
  fold of the values of its key.\<close>
lemma group_fold:
  assumes "\<And>k xs x. k = key x \<Longrightarrow> k \<notin> key ` set xs \<Longrightarrow> G k (xs @ [x]) = f x None"
    and "\<And>k xs x. k = key x \<Longrightarrow> k \<in> key ` set xs \<Longrightarrow> G k (xs @ [x]) = f x (Some (G k xs))"
    and "\<And>k xs x. k \<noteq> key x \<Longrightarrow> G k (xs @ [x]) = G k xs"
  shows "foldl (\<lambda>m x. map_update (key x) (f x) m) [] xs = map (\<lambda>k. (k, G k xs)) (js_set (map key xs))"
proof (induction xs rule: rev_induct)
  case (snoc x xs)
  show ?case
    using assms(1)[of "key x" x xs] assms(2)[of "key x" x xs] assms(3)[of _ x xs]
    by (auto simp: snoc map_update_graph js_set_snoc set_add_def)
qed simp

lemma filter_absent: "k \<notin> key ` set xs \<Longrightarrow> filter (\<lambda>a. key a = k) xs = []"
  by (auto simp: filter_empty_conv)

lemma byMembership_eq:
  "byMembership as = map (\<lambda>m. (m, filter (\<lambda>a. membershipId a = m) as)) (js_set (map membershipId as))"
  unfolding byMembership_def map_push_def
  by (rule group_fold) (simp_all add: filter_absent[where key = membershipId])

lemma codes_on_day_eq:
  "codes_on_day as = map (\<lambda>d. (d, js_set (map shiftTypeCode (filter (\<lambda>a. dayNumber (date a) = d) as))))
     (js_set (map (\<lambda>a. dayNumber (date a)) as))"
  unfolding codes_on_day_def map_add_def
  by (rule group_fold)
    (simp_all add: filter_absent[where key = "\<lambda>a. dayNumber (date a)"] js_set_snoc[of "[]", simplified] js_set_snoc set_add_def)

lemma codes_on_date_eq:
  "codes_on_date as = map (\<lambda>d. (d, js_set (map shiftTypeCode (filter (\<lambda>a. date a = d) as))))
     (js_set (map date as))"
  unfolding codes_on_date_def map_add_def
  by (rule group_fold)
    (simp_all add: filter_absent[where key = date] js_set_snoc[of "[]", simplified] js_set_snoc set_add_def)

lemma count_eq:
  "foldl (\<lambda>m a. map_count (key a) m) [] as =
     map (\<lambda>k. (k, length (filter (\<lambda>a. key a = k) as))) (js_set (map key as))"
  unfolding map_count_def
  by (rule group_fold) (simp_all add: filter_absent)

lemma map_of_graph: "map_of (map (\<lambda>k. (k, g k)) ks) k = (if k \<in> set ks then Some (g k) else None)"
  by (induction ks) auto

lemma get_or_graph: "get_or d (map (\<lambda>k. (k, g k)) ks) k = (if k \<in> set ks then g k else d)"
  by (simp add: get_or_def map_of_graph)

text \<open>The lookups the checks make, free of the maps.\<close>

lemma codes_on_day_get:
  "set (get_or [] (codes_on_day as) d) = shiftTypeCode ` {a \<in> set as. dayNumber (date a) = d}"
  by (auto simp: codes_on_day_eq get_or_graph)

lemma codes_on_day_lookup:
  "(case map_of (codes_on_day as) d of None \<Rightarrow> False | Some codes \<Rightarrow> c \<in> set codes) \<longleftrightarrow>
     (\<exists>a \<in> set as. dayNumber (date a) = d \<and> shiftTypeCode a = c)"
  by (auto simp: codes_on_day_eq map_of_graph)

lemma codes_on_date_get:
  "set (get_or [] (codes_on_date as) d) = shiftTypeCode ` {a \<in> set as. date a = d}"
  by (auto simp: codes_on_date_eq get_or_graph)

lemma codes_keys [simp]:
  "set (map fst (codes_on_day as)) = (\<lambda>a. dayNumber (date a)) ` set as"
  "set (map fst (codes_on_date as)) = date ` set as"
  by (simp_all add: codes_on_day_eq codes_on_date_eq comp_def)

lemma count_get:
  "get_or 0 (foldl (\<lambda>m a. map_count (key a) m) [] as) k = length (filter (\<lambda>a. key a = k) as)"
  by (auto simp: count_eq get_or_graph filter_empty_conv)

lemma count_keys [simp]:
  "set (map fst (foldl (\<lambda>m a. map_count (key a) m) [] as)) = key ` set as"
  by (simp add: count_eq comp_def)

section \<open>Adjacent elements of a sorted list\<close>

lemma adjacent_nth: "(x, y) \<in> set (adjacent xs) \<longleftrightarrow> (\<exists>i. Suc i < length xs \<and> x = xs ! i \<and> y = xs ! Suc i)"
proof (induction xs rule: adjacent.induct)
  case (1 x' y' xs)
  show ?case by (auto simp: 1 less_Suc_eq_0_disj)
qed simp_all

text \<open>If \<open>near\<close> only gets worse when the later element is replaced by an earlier one, no two elements
  are near iff no two adjacent elements are.\<close>
lemma adjacent_pairs:
  assumes "sorted_wrt R xs" "\<And>a b c. R b c \<Longrightarrow> near a c \<Longrightarrow> near a b"
  shows "(\<forall>(x, y) \<in> set (adjacent xs). \<not> near x y) \<longleftrightarrow> sorted_wrt (\<lambda>x y. \<not> near x y) xs"
proof
  assume adj: "\<forall>(x, y) \<in> set (adjacent xs). \<not> near x y"
  show "sorted_wrt (\<lambda>x y. \<not> near x y) xs"
    unfolding sorted_wrt_iff_nth_less
  proof (intro allI impI)
    fix i j assume ij: "i < j" "j < length xs"
    then have "\<not> near (xs ! i) (xs ! Suc i)" using adj by (force simp: adjacent_nth)
    moreover have "Suc i = j \<or> Suc i < j" using ij by auto
    then have "Suc i = j \<or> R (xs ! Suc i) (xs ! j)"
      using assms(1) ij by (auto simp: sorted_wrt_iff_nth_less)
    ultimately show "\<not> near (xs ! i) (xs ! j)" using assms(2) by auto
  qed
qed (auto simp: adjacent_nth sorted_wrt_iff_nth_less)

section \<open>Chronological order\<close>

definition before :: "CheckedAssignment \<Rightarrow> CheckedAssignment \<Rightarrow> bool" where
  "before a b \<longleftrightarrow> (startsAtMs a, snapshotId a) < (startsAtMs b, snapshotId b)"

lemma set_chronological [simp]: "set (chronological as) = set as"
  by (simp add: chronological_def)

lemma chronological_key_sorted:
  "sorted_wrt (\<lambda>a b. (startsAtMs a, snapshotId a) \<le> (startsAtMs b, snapshotId b)) (chronological as)"
  using sorted_sort_key[of "\<lambda>a. (startsAtMs a, snapshotId a)" as]
  by (simp only: chronological_def sorted_wrt_map)

lemma chronological_sorted: "sorted_wrt (\<lambda>a b. startsAtMs a \<le> startsAtMs b) (chronological as)"
  by (rule sorted_wrt_mono_rel[OF _ chronological_key_sorted]) auto

lemma distinct_chronological:
  "distinct (map snapshotId as) \<Longrightarrow> distinct (map snapshotId (chronological as))"
proof -
  assume d: "distinct (map snapshotId as)"
  have "mset (map snapshotId (chronological as)) = mset (map snapshotId as)" by (simp add: chronological_def)
  then show ?thesis using d mset_eq_imp_distinct_iff by blast
qed

text \<open>With distinct snapshot ids the chronological list lists the pairs \<open>a\<close> before \<open>b\<close>.\<close>
lemma chronological_pairs:
  assumes "distinct (map snapshotId as)"
  shows "sorted_wrt P (chronological as) \<longleftrightarrow> (\<forall>a b. a \<in> set as \<and> b \<in> set as \<and> before a b \<longrightarrow> P a b)"
proof -
  let ?c = "chronological as"
  have key: "(startsAtMs (?c ! i), snapshotId (?c ! i)) < (startsAtMs (?c ! j), snapshotId (?c ! j)) \<longleftrightarrow> i < j"
    if "i < length ?c" "j < length ?c" for i j
  proof -
    have le: "i' < j' \<Longrightarrow> j' < length ?c \<Longrightarrow>
        (startsAtMs (?c ! i'), snapshotId (?c ! i')) \<le> (startsAtMs (?c ! j'), snapshotId (?c ! j'))" for i' j'
      using chronological_key_sorted[of as] by (simp add: sorted_wrt_iff_nth_less)
    have ne: "i' \<noteq> j' \<Longrightarrow> i' < length ?c \<Longrightarrow> j' < length ?c \<Longrightarrow> snapshotId (?c ! i') \<noteq> snapshotId (?c ! j')" for i' j'
      using distinct_chronological[OF assms] by (simp add: distinct_conv_nth)
    show ?thesis
    proof
      assume "i < j"
      then show "(startsAtMs (?c ! i), snapshotId (?c ! i)) < (startsAtMs (?c ! j), snapshotId (?c ! j))"
        using le[of i j] ne[of i j] that by (simp add: less_le)
    next
      assume lt: "(startsAtMs (?c ! i), snapshotId (?c ! i)) < (startsAtMs (?c ! j), snapshotId (?c ! j))"
      show "i < j"
      proof (rule ccontr)
        assume "\<not> i < j"
        then have "(startsAtMs (?c ! j), snapshotId (?c ! j)) \<le> (startsAtMs (?c ! i), snapshotId (?c ! i))"
          using le[of j i] that by (cases "i = j") auto
        then show False using lt leD by blast
      qed
    qed
  qed
  have "sorted_wrt P ?c \<longleftrightarrow> (\<forall>i j. i < length ?c \<and> j < length ?c \<and> before (?c ! i) (?c ! j) \<longrightarrow> P (?c ! i) (?c ! j))"
    using key by (auto simp: sorted_wrt_iff_nth_less before_def)
  also have "\<dots> \<longleftrightarrow> (\<forall>a b. a \<in> set ?c \<and> b \<in> set ?c \<and> before a b \<longrightarrow> P a b)"
    by (metis in_set_conv_nth)
  finally show ?thesis by simp
qed

section \<open>Checks that walk member by member\<close>

text \<open>A check that walks \<open>byMembership\<close> and reports on each member's assignments separately is determined
  by what it says of one member. \<open>ok m as\<close> states that member \<open>m\<close> with assignments \<open>as\<close> is in order.\<close>
locale member_walk =
  fixes report :: "string \<Rightarrow> CheckedAssignment list \<Rightarrow> HardRuleFinding list"
    and ok :: "string \<Rightarrow> CheckedAssignment list \<Rightarrow> bool"
  assumes report_iff: "report m as = [] \<longleftrightarrow> ok m as"
    and ok_idle: "ok m []"
begin

definition walk :: "CheckedAssignment list \<Rightarrow> HardRuleFinding list" where
  "walk scoped = concat (map (\<lambda>(m, lst). report m lst) (byMembership scoped))"

lemma walk_clean: "walk scoped = [] \<longleftrightarrow> (\<forall>m. ok m (filter (\<lambda>a. membershipId a = m) scoped))"
proof -
  have "ok m (filter (\<lambda>a. membershipId a = m) scoped)" if "m \<notin> membershipId ` set scoped" for m
    using that ok_idle by (simp add: filter_absent)
  moreover have "walk scoped = [] \<longleftrightarrow>
      (\<forall>m \<in> membershipId ` set scoped. ok m (filter (\<lambda>a. membershipId a = m) scoped))"
    by (simp add: walk_def byMembership_eq report_iff)
  ultimately show ?thesis by blast
qed

lemma walk_finding:
  "f \<in> set (walk scoped) \<longleftrightarrow>
     (\<exists>m \<in> membershipId ` set scoped. f \<in> set (report m (filter (\<lambda>a. membershipId a = m) scoped)))"
  by (auto simp: walk_def byMembership_eq)

end

end
