(* ===== verification/HardRuleSpacing.thy ===== *)
theory HardRuleSpacing
  imports HardRuleFacts
begin

text \<open>
  What the spacing and capacity checks decide: rest, consecutive days, rolling windows and call spacing. Each
  check is a walk member by member; the interpretations of \<open>member_walk\<close> reduce it to one member, and each
  property states the whole check without the order of its loops.
\<close>

section \<open>Day numbers of assignment dates\<close>

definition utc_year :: "int \<Rightarrow> int" where
  "utc_year y = (if y \<le> 99 then 1900 + y else y)"

lemma leap_shift: "1 \<le> y \<Longrightarrow> y \<le> 99 \<Longrightarrow> isLeapYear (1900 + y) = isLeapYear y"
proof -
  assume y: "1 \<le> y" "y \<le> 99"
  have "y mod 100 = y" "y mod 400 = y" using y by simp_all
  moreover have "(1900 + y) mod 100 = y" using y by (intro int_mod_pos_eq[where q = 19]) auto
  moreover have "(1900 + y) mod 4 = y mod 4" using mod_mult_self2[of y 4 475] by (simp add: add.commute)
  moreover have "(1900 + y) mod 400 = y + 300"
    using y by (intro int_mod_pos_eq[where q = 4]) auto
  ultimately show ?thesis using y by (simp add: isLeapYear_def)
qed

lemma utc_valid:
  assumes "valid_civil y m d" "1 \<le> y"
  shows "valid_civil (utc_year y) m d"
proof -
  have "isLeapYear (utc_year y) = isLeapYear y" using assms(2) leap_shift[of y] by (simp add: utc_year_def)
  then have "daysInMonth (utc_year y) m = daysInMonth y m" by (simp add: daysInMonth_def)
  then show ?thesis using assms(1) by (simp add: valid_civil_def)
qed

lemma dayNumber_parse:
  assumes "parseCalendarDate s = Some p"
  shows "dayNumber s = civil_to_days (utc_year (cal_year p)) (cal_month p) (cal_day p)"
proof -
  obtain a b c where sh: "SHAPE s = Some (a, b, c)" and p: "cal_year p = number_of_digits a"
    "cal_month p = number_of_digits b" "cal_day p = number_of_digits c"
    using parse_SHAPE[OF assms] by blast
  then have abc: "take 4 s = a" "take 2 (drop 5 s) = b" "take 2 (drop 8 s) = c"
    by (auto simp: SHAPE_def split: if_splits)
  have v: "1 \<le> cal_year p" "valid_civil (cal_year p) (cal_month p) (cal_day p)"
    using parse_valid[OF assms] by (simp_all add: valid_parts_def)
  then have m: "1 \<le> cal_month p" "cal_month p \<le> 12" by (simp_all add: valid_civil_def)
  have "dayNumber s = MakeDay (utc_year (cal_year p)) (cal_month p - 1) (cal_day p)"
    using v(1) by (simp add: dayNumber_def abc date_utc_day_def utc_year_def p)
  then show ?thesis using MakeDay_civil[OF m] by simp
qed

lemma dayNumber_range:
  assumes "isCalendarDate s"
  shows "first_day \<le> dayNumber s \<and> dayNumber s \<le> last_day"
proof -
  obtain p where p: "parseCalendarDate s = Some p" using assms by (auto simp: isCalendarDate_def)
  have v: "1 \<le> cal_year p" "cal_year p \<le> 9999" "valid_civil (cal_year p) (cal_month p) (cal_day p)"
    using parse_valid[OF p] by (simp_all add: valid_parts_def)
  have "1 \<le> utc_year (cal_year p)" "utc_year (cal_year p) \<le> 9999" using v by (auto simp: utc_year_def)
  then show ?thesis
    using valid_days_range[OF utc_valid[OF v(3,1)]] dayNumber_parse[OF p] by simp
qed

lemma dayNumber_daysFromEpoch:
  assumes "daysFromEpoch s = Inr n"
  shows "dayNumber s = n \<longleftrightarrow> ''0100-01-01'' \<le> s"
proof -
  obtain p where p: "parseCalendarDate s = Some p" "civil_to_days (cal_year p) (cal_month p) (cal_day p) = n"
    using assms by (auto simp: daysFromEpoch_parse)
  have v: "1 \<le> cal_year p" "valid_civil (cal_year p) (cal_month p) (cal_day p)"
    using parse_valid[OF p(1)] by (simp_all add: valid_parts_def)
  have h: "daysFromEpoch ''0100-01-01'' = Inr (civil_to_days 100 1 1)" by code_simp
  have "''0100-01-01'' \<le> s \<longleftrightarrow> civil_to_days 100 1 1 \<le> n"
    using days_le_iff[OF h assms] by simp
  also have "\<dots> \<longleftrightarrow> \<not> n < civil_to_days 100 1 1" by (simp only: not_less)
  also have "\<dots> \<longleftrightarrow> \<not> (cal_year p, cal_month p, cal_day p) < (100, 1, 1)"
  proof -
    have "valid_civil 100 1 1" by (simp add: valid_civil_def daysInMonth_def)
    from civil_to_days_less_iff[OF v(2) this] show ?thesis using p(2) by simp
  qed
  also have "\<dots> \<longleftrightarrow> 100 \<le> cal_year p"
    using v by (auto simp: less_prod_simp valid_civil_def)
  finally have iff: "''0100-01-01'' \<le> s \<longleftrightarrow> 100 \<le> cal_year p" .
  show ?thesis
  proof (cases "100 \<le> cal_year p")
    case True
    then show ?thesis using iff dayNumber_parse[OF p(1)] p(2) by (simp add: utc_year_def)
  next
    case False
    then have "(cal_year p, cal_month p, cal_day p) < (utc_year (cal_year p), cal_month p, cal_day p)"
      by (simp add: utc_year_def less_prod_simp)
    then have "n < dayNumber s"
      using civil_to_days_less_iff[OF v(2) utc_valid[OF v(2,1)]] dayNumber_parse[OF p(1)] p(2) by simp
    then show ?thesis using iff False by simp
  qed
qed

text \<open>The checker's \<open>dayNumber\<close> is the calendar's day number exactly from year 100 on; before,
  \<open>Date.UTC\<close> takes the two-digit year for one of the years 1900 to 1999.\<close>
theorem dayNumber_agrees_from_year_100:
  assumes "daysFromEpoch s = Inr n"
  shows "dayNumber s = n \<longleftrightarrow> ''0100-01-01'' \<le> s"
  by (rule dayNumber_daysFromEpoch[OF assms])

lemma dayNumber_agrees_from_year_100_witness:
  "dayNumber ''0050-01-01'' \<noteq> - 701265"
proof -
  have "daysFromEpoch ''0050-01-01'' = Inr (- 701265)" by code_simp
  from dayNumber_agrees_from_year_100[OF this] show ?thesis by code_simp
qed

section \<open>Rest\<close>

lemma js_le_num_mono: "x \<le> y \<Longrightarrow> js_le k (num x) \<Longrightarrow> js_le k (num y)"
  by (cases k) (auto simp: js_le_def js_eq_def num_def)

definition rest_report :: "CompiledRule \<Rightarrow> jsnum \<Rightarrow> string \<Rightarrow> CheckedAssignment list \<Rightarrow> HardRuleFinding list" where
  "rest_report rule h m lst =
     map (\<lambda>(previous, current). breach rule (snapshotId current)
           (ShortRest m (startsAtMs current - endsAtMs previous) (date current) h))
       (filter (\<lambda>(previous, current). \<not> js_le (js_mul h (num 3600000)) (num (startsAtMs current - endsAtMs previous)))
         (adjacent (chronological lst)))"

definition rest_ok :: "jsnum \<Rightarrow> CheckedAssignment list \<Rightarrow> bool" where
  "rest_ok h lst \<longleftrightarrow>
     sorted_wrt (\<lambda>a b. js_le (js_mul h (num 3600000)) (num (startsAtMs b - endsAtMs a))) (chronological lst)"

interpretation rest_walk: member_walk "rest_report rule h" "\<lambda>m. rest_ok h"
proof
  fix m lst
  let ?near = "\<lambda>a b. \<not> js_le (js_mul h (num 3600000)) (num (startsAtMs b - endsAtMs a))"
  have "(\<forall>(x, y) \<in> set (adjacent (chronological lst)). \<not> ?near x y) \<longleftrightarrow>
    sorted_wrt (\<lambda>x y. \<not> ?near x y) (chronological lst)"
    by (rule adjacent_pairs[OF chronological_sorted]) (metis diff_right_mono js_le_num_mono)
  then show "rest_report rule h m lst = [] \<longleftrightarrow> rest_ok h lst"
    by (auto simp: rest_report_def rest_ok_def filter_empty_conv)
qed (simp add: rest_ok_def chronological_def)

lemma checkMinimumRestBetween_walk:
  "as_number (get (c_params rule) ''minHours'') = Some h \<Longrightarrow>
     checkMinimumRestBetween rule scoped = rest_walk.walk rule h scoped"
  by (simp add: checkMinimumRestBetween_def rest_walk.walk_def rest_report_def Let_def)

lemma distinct_ids_filter:
  "distinct (map snapshotId as) \<Longrightarrow> distinct (map snapshotId (filter P as))"
  by (rule distinct_map_filter)

text \<open>C27: a \<open>MinimumRestBetween\<close> rule passes exactly when every two assignments of one member, however far
  apart in the member's order, leave the required rest between the end of the earlier and the start of
  the later: comparing only neighbours in the chronological order decides all pairs.\<close>
theorem minimum_rest_is_pairwise:
  assumes "get (c_params rule) ''minHours'' = Num (num h)" "\<bar>h * 3600000\<bar> < 2 ^ 53"
    and "distinct (map snapshotId scoped)"
  shows "checkMinimumRestBetween rule scoped = [] \<longleftrightarrow>
    (\<forall>a b. a \<in> set scoped \<and> b \<in> set scoped \<and> membershipId a = membershipId b \<and> before a b \<longrightarrow>
       endsAtMs a + h * 3600000 \<le> startsAtMs b)"
proof -
  have "as_number (get (c_params rule) ''minHours'') = Some (num h)" using assms(1) by simp
  from checkMinimumRestBetween_walk[OF this, of scoped] show ?thesis
    using assms(2)
    by (auto simp: rest_walk.walk_clean rest_ok_def algebra_simps
        chronological_pairs[OF distinct_ids_filter[OF assms(3)]])
qed

definition sample_rule :: "string \<Rightarrow> json_object \<Rightarrow> CompiledRule" where
  "sample_rule kind params =
     \<lparr>c_ruleKey = ''r'', c_ruleSchemaVersion = 1, c_role = ''constraint'', c_kind = kind,
      c_modelElement = [], c_weight = None,
      c_scope = \<lparr>cs_dateRange = None, cs_shiftTypes = [], cs_staffGroups = [], cs_memberships = []\<rparr>,
      c_params = params\<rparr>"

definition sample_assignment :: "string \<Rightarrow> string \<Rightarrow> string \<Rightarrow> int \<Rightarrow> int \<Rightarrow> CheckedAssignment" where
  "sample_assignment i m d s e =
     \<lparr>snapshotId = i, assignmentIdentityId = i, membershipId = m, date = d, startsAtMs = s, endsAtMs = e,
      shiftTypeCode = ''D'', isOnCall = True, pickPosition = None\<rparr>"

lemmas sample_simps = sample_rule_def sample_assignment_def

lemma minimum_rest_is_pairwise_witness:
  "checkMinimumRestBetween (sample_rule ''MinimumRestBetween'' [(''minHours'', Num (num 11))])
     [sample_assignment ''a'' ''m'' ''2024-01-01'' 0 28800000,
      sample_assignment ''b'' ''m'' ''2024-01-01'' 36000000 64800000] \<noteq> []"
proof -
  let ?a = "sample_assignment ''a'' ''m'' ''2024-01-01'' 0 28800000"
  let ?b = "sample_assignment ''b'' ''m'' ''2024-01-01'' 36000000 64800000"
  have "?a \<in> set [?a, ?b] \<and> ?b \<in> set [?a, ?b] \<and> membershipId ?a = membershipId ?b \<and> before ?a ?b \<and>
    \<not> endsAtMs ?a + 11 * 3600000 \<le> startsAtMs ?b"
    by (simp add: sample_assignment_def before_def)
  then show ?thesis
    by (subst minimum_rest_is_pairwise[where h = 11]) (simp add: sample_simps, simp, simp add: sample_simps, blast)
qed

section \<open>Consecutive days\<close>

definition has_run :: "int \<Rightarrow> int set \<Rightarrow> bool" where
  "has_run k D \<longleftrightarrow> (\<exists>s. {s..s + k} \<subseteq> D)"

lemma has_run_gap:
  assumes "has_run k (A \<union> B)" "\<forall>x \<in> A. x < g" "\<forall>x \<in> B. g < x" "0 \<le> k"
  shows "has_run k A \<or> has_run k B"
proof -
  obtain s where s: "{s..s + k} \<subseteq> A \<union> B" using assms(1) by (auto simp: has_run_def)
  show ?thesis
  proof (cases "s + k < g")
    case True
    then have "{s..s + k} \<subseteq> A" using s assms(3) by fastforce
    then show ?thesis by (auto simp: has_run_def)
  next
    case False
    have "g \<notin> A \<union> B" using assms(2,3) by blast
    then have "g < s" using s False by (meson atLeastAtMost_iff not_less subsetD)
    then have "{s..s + k} \<subseteq> B" using s assms(2) by fastforce
    then show ?thesis by (auto simp: has_run_def)
  qed
qed

lemma has_run_interval: "0 \<le> k \<Longrightarrow> has_run k {a..b} \<longleftrightarrow> a + k \<le> b"
proof
  assume k: "0 \<le> k" and "has_run k {a..b}"
  then obtain s where s: "{s..s + k} \<subseteq> {a..b}" by (auto simp: has_run_def)
  have "s \<in> {s..s + k}" "s + k \<in> {s..s + k}" using k by auto
  then have "s \<in> {a..b}" "s + k \<in> {a..b}" using s by blast+
  then show "a + k \<le> b" by simp
next
  assume "0 \<le> k" "a + k \<le> b"
  then have "{a..a + k} \<subseteq> {a..b}" by auto
  then show "has_run k {a..b}" by (auto simp only: has_run_def)
qed

lemma has_run_mono: "has_run k A \<Longrightarrow> A \<subseteq> B \<Longrightarrow> has_run k B"
  by (auto simp: has_run_def)

lemma run_loop_fresh:
  "prev = None \<or> prev = Some p \<and> d \<noteq> p + 1 \<Longrightarrow> 1 \<le> k \<Longrightarrow> k < 2 ^ 52 \<Longrightarrow>
     run_loop rep (num k) prev r run (d # ds) = run_loop rep (num k) (Some d) d 1 ds"
  by (auto simp: Let_def)

lemma run_loop_next:
  "k < 2 ^ 52 \<Longrightarrow> 1 \<le> k \<Longrightarrow> run_loop rep (num k) (Some p) r run ((p + 1) # ds) =
     (if run = k then [rep (run + 1) r] else []) @ run_loop rep (num k) (Some (p + 1)) r (run + 1) ds"
  by (auto simp: Let_def)

declare run_loop.simps(2) [simp del]

lemma run_loop_clean:
  assumes k: "1 \<le> k" "k < 2 ^ 52"
  shows "sorted_wrt (<) (p # ds) \<Longrightarrow> 1 \<le> run \<Longrightarrow> run \<le> k \<Longrightarrow>
    run_loop rep (num k) (Some p) r run ds = [] \<longleftrightarrow> \<not> has_run k ({p - run + 1..p} \<union> set ds)"
proof (induction ds arbitrary: p r run)
  case Nil
  then show ?case using k by (simp add: has_run_interval)
next
  case (Cons d ds)
  have ds: "sorted_wrt (<) (d # ds)" and pd: "p < d" using Cons.prems(1) by simp_all
  show ?case
  proof (cases "d = p + 1")
    case True
    have D: "{p - run + 1..p} \<union> set (d # ds) = {p + 1 - (run + 1) + 1..p + 1} \<union> set ds"
      using True Cons.prems(2) by auto
    show ?thesis
    proof (cases "run = k")
      case True
      have "has_run k {p + 1 - (run + 1) + 1..p + 1}" using True k by (simp add: has_run_interval)
      then have "has_run k ({p - run + 1..p} \<union> set (d # ds))"
        unfolding D by (rule has_run_mono) auto
      then show ?thesis unfolding \<open>d = p + 1\<close> using True k by (simp add: run_loop_next)
    next
      case False
      have ds': "sorted_wrt (<) ((p + 1) # ds)" using ds True by simp
      have "run_loop rep (num k) (Some p) r run (d # ds) =
          run_loop rep (num k) (Some (p + 1)) r (run + 1) ds"
        unfolding True using False k by (simp only: run_loop_next if_False append_Nil)
      moreover have "run_loop rep (num k) (Some (p + 1)) r (run + 1) ds = [] \<longleftrightarrow>
          \<not> has_run k ({p + 1 - (run + 1) + 1..p + 1} \<union> set ds)"
        using Cons.prems False by (intro Cons.IH[OF ds']) auto
      ultimately show ?thesis unfolding D by (simp only:)
    qed
  next
    case False
    have "run_loop rep (num k) (Some p) r run (d # ds) = run_loop rep (num k) (Some d) d 1 ds"
      using False k by (intro run_loop_fresh) auto
    moreover have "run_loop rep (num k) (Some d) d 1 ds = [] \<longleftrightarrow> \<not> has_run k ({d - 1 + 1..d} \<union> set ds)"
      using k by (intro Cons.IH[OF ds]) auto
    moreover have "has_run k ({p - run + 1..p} \<union> set (d # ds)) \<longleftrightarrow> has_run k (set (d # ds))"
    proof
      assume a: "has_run k ({p - run + 1..p} \<union> set (d # ds))"
      have "\<forall>x \<in> set (d # ds). p + 1 < x" using ds pd False by auto
      then have "has_run k {p - run + 1..p} \<or> has_run k (set (d # ds))"
        using a k by (intro has_run_gap[where g = "p + 1"]) auto
      then show "has_run k (set (d # ds))" using k Cons.prems(3) by (simp add: has_run_interval)
    qed (erule has_run_mono, auto)
    ultimately show ?thesis by simp
  qed
qed

lemma run_loop_start:
  assumes "1 \<le> k" "k < 2 ^ 52" "sorted_wrt (<) ds"
  shows "run_loop rep (num k) None 0 0 ds = [] \<longleftrightarrow> \<not> has_run k (set ds)"
proof (cases ds)
  case Nil
  then show ?thesis using assms(1) by (auto simp: has_run_def)
next
  case (Cons d ds')
  then have "run_loop rep (num k) None 0 0 ds = run_loop rep (num k) (Some d) d 1 ds'"
    using assms(1,2) by (simp only: run_loop_fresh simp_thms)
  then show ?thesis
    using run_loop_clean[OF assms(1,2), of d ds' 1 rep d] assms Cons by simp
qed

definition days_of :: "CheckedAssignment list \<Rightarrow> int list" where
  "days_of lst = map (\<lambda>a. dayNumber (date a)) lst"

definition consecutive_report :: "CompiledRule \<Rightarrow> jsnum \<Rightarrow> string \<Rightarrow> CheckedAssignment list \<Rightarrow> HardRuleFinding list" where
  "consecutive_report rule limit m lst =
     run_loop (\<lambda>run runStart. breach rule m (TooManyConsecutive m run (iso_date runStart) limit))
       limit None 0 0 (sort (js_set (days_of lst)))"

lemma consecutive_walk:
  assumes "1 \<le> k" "k < 2 ^ 52"
  shows "member_walk (consecutive_report rule (num k)) (\<lambda>m lst. \<not> has_run k (set (days_of lst)))"
proof
  fix m lst
  have "sorted_wrt (<) (sort (js_set (days_of lst)))" by (simp add: strict_sorted_iff)
  from run_loop_start[OF assms this]
  show "consecutive_report rule (num k) m lst = [] \<longleftrightarrow> \<not> has_run k (set (days_of lst))"
    by (simp add: consecutive_report_def)
qed (use assms in \<open>simp add: days_of_def has_run_def\<close>)

lemma member_days:
  "set (days_of (filter (\<lambda>a. membershipId a = m) as)) =
     {d. \<exists>a. a \<in> set as \<and> membershipId a = m \<and> dayNumber (date a) = d}"
  by (auto simp: days_of_def)

text \<open>C29: a \<open>MaxConsecutive\<close> rule passes exactly when no member works on each of some \<open>limit + 1\<close>
  consecutive days.\<close>
theorem max_consecutive_exact:
  assumes "get (c_params rule) ''maxDays'' = Num (num k)" "1 \<le> k" "k < 2 ^ 52"
  shows "checkMaxConsecutive rule scoped = [] \<longleftrightarrow>
    \<not> (\<exists>m s. \<forall>d. s \<le> d \<and> d \<le> s + k \<longrightarrow>
          (\<exists>a. a \<in> set scoped \<and> membershipId a = m \<and> dayNumber (date a) = d))"
proof -
  note w = consecutive_walk[OF assms(2,3), of rule]
  have c: "checkMaxConsecutive rule scoped = member_walk.walk (consecutive_report rule (num k)) scoped"
    using assms(1) by (simp add: checkMaxConsecutive_def member_walk.walk_def[OF w] consecutive_report_def days_of_def)
  show ?thesis
    unfolding c member_walk.walk_clean[OF w] member_days has_run_def subset_iff atLeastAtMost_iff mem_Collect_eq
    by (simp only: not_ex)
qed

lemma max_consecutive_exact_witness:
  "checkMaxConsecutive (sample_rule ''MaxConsecutive'' [(''maxDays'', Num (num 1))])
     [sample_assignment ''a'' ''m'' ''2024-02-29'' 0 1, sample_assignment ''b'' ''m'' ''2024-03-01'' 2 3] \<noteq> []"
proof -
  have d: "dayNumber ''2024-02-29'' = 19782" "dayNumber ''2024-03-01'' = 19783" by code_simp+
  let ?a = "sample_assignment ''a'' ''m'' ''2024-02-29'' 0 1" and ?b = "sample_assignment ''b'' ''m'' ''2024-03-01'' 2 3"
  have dd: "\<exists>a. a \<in> set [?a, ?b] \<and> membershipId a = ''m'' \<and> dayNumber (date a) = d"
    if "19782 \<le> d \<and> d \<le> 19782 + 1" for d
  proof (cases "d = 19782")
    case True
    then show ?thesis by (intro exI[of _ ?a]) (simp add: sample_assignment_def d)
  next
    case False
    then have "d = 19783" using that by simp
    then show ?thesis by (intro exI[of _ ?b]) (simp add: sample_assignment_def d)
  qed
  have m: "\<exists>m s. \<forall>d. s \<le> d \<and> d \<le> s + 1 \<longrightarrow>
      (\<exists>a. a \<in> set [?a, ?b] \<and> membershipId a = m \<and> dayNumber (date a) = d)"
    by (rule exI[of _ "''m''"], rule exI[of _ 19782], intro allI impI, rule dd)
  have p: "get (c_params (sample_rule ''MaxConsecutive'' [(''maxDays'', Num (num 1))])) ''maxDays'' = Num (num 1)"
    "1 \<le> (1::int)" "(1::int) < 2 ^ 52" by (simp_all add: sample_rule_def)
  show ?thesis unfolding max_consecutive_exact[OF p] not_not by (rule m)
qed

section \<open>Rolling windows\<close>

definition window_report ::
  "CompiledRule \<Rightarrow> jsnum \<Rightarrow> jsnum \<Rightarrow> string \<Rightarrow> CheckedAssignment list \<Rightarrow> HardRuleFinding list" where
  "window_report rule mx w m lst =
     (let days = sort (days_of lst) in
      case find (\<lambda>start. \<not> js_le (num (int (window_count days w start))) mx) (js_set days) of
        None \<Rightarrow> []
      | Some start \<Rightarrow>
          [breach rule m (TooManyInWindow m (int (window_count days w start)) w (iso_date start) mx)])"

text \<open>The days of a list that fall into the \<open>w\<close>-day window from \<open>s\<close>.\<close>
definition in_window :: "int \<Rightarrow> int \<Rightarrow> int \<Rightarrow> bool" where
  "in_window w s d \<longleftrightarrow> s \<le> d \<and> d < s + w"

lemma length_filter_sort: "length (filter P (sort xs)) = length (filter P (xs :: int list))"
proof -
  have "mset (filter P (sort xs)) = mset (filter P xs)" by simp
  then show ?thesis by (metis size_mset)
qed

lemma window_count_int:
  assumes "\<bar>s\<bar> < 2 ^ 51" "\<bar>w\<bar> < 2 ^ 51"
  shows "window_count (sort ds) (num w) s = length (filter (in_window w s) ds)"
proof -
  have "\<bar>s + w\<bar> < 2 ^ 53" "\<bar>s + w - 1\<bar> < 2 ^ 53" using assms by simp_all
  then have "js_sub (js_add (num s) (num w)) (num 1) = num (s + w - 1)" by simp
  moreover have "(\<lambda>d. d \<ge> s \<and> d \<le> s + w - 1) = in_window w s" by (auto simp: in_window_def)
  ultimately show ?thesis by (simp add: window_count_def length_filter_sort)
qed

text \<open>The fullest windows start at a day that is worked.\<close>
lemma window_from_worked_day:
  assumes "\<forall>s \<in> set ds. length (filter (in_window w s) ds) \<le> n"
  shows "length (filter (in_window w s) ds) \<le> n"
proof (cases "filter (in_window w s) ds = []")
  case False
  define s' where "s' = Min (set (filter (in_window w s) ds))"
  have "s' \<in> set (filter (in_window w s) ds)" unfolding s'_def using False by (intro Min_in) (simp_all only: set_empty finite_set not_False_eq_True)
  then have s': "s' \<in> set ds" "in_window w s s'" by auto
  have "in_window w s d \<Longrightarrow> in_window w s' d" if "d \<in> set ds" for d
  proof -
    assume d: "in_window w s d"
    then have "s' \<le> d" unfolding s'_def using that by (intro Min_le) auto
    then show ?thesis using d s'(2) by (auto simp: in_window_def)
  qed
  then have "length (filter (in_window w s) ds) \<le> length (filter (in_window w s') ds)"
    by (induction ds) auto
  then show ?thesis using assms s'(1) by force
qed simp

definition calendar_dates :: "CheckedAssignment list \<Rightarrow> bool" where
  "calendar_dates as \<longleftrightarrow> (\<forall>a \<in> set as. isCalendarDate (date a))"

lemma day_bound: "isCalendarDate s \<Longrightarrow> \<bar>dayNumber s\<bar> < 2 ^ 51"
  using dayNumber_range[of s] by (simp add: first_day_def last_day_def abs_less_iff)

lemma find_report:
  "(case find P xs of None \<Rightarrow> [] | Some x \<Rightarrow> [f x]) = [] \<longleftrightarrow> (\<forall>x \<in> set xs. \<not> P x)"
  by (induction xs) auto

lemma window_report_clean:
  assumes "\<bar>w\<bar> < 2 ^ 51" "calendar_dates lst" "0 \<le> mx"
  shows "window_report rule (num mx) (num w) m lst = [] \<longleftrightarrow>
    (\<forall>s. int (length (filter (in_window w s) (days_of lst))) \<le> mx)"
proof -
  let ?n = "\<lambda>s. length (filter (in_window w s) (days_of lst))"
  have b: "\<bar>s\<bar> < 2 ^ 51" if "s \<in> set (days_of lst)" for s
    using that assms(2) day_bound by (auto simp: days_of_def calendar_dates_def)
  have "window_report rule (num mx) (num w) m lst = [] \<longleftrightarrow>
    (\<forall>s \<in> set (days_of lst). \<not> \<not> js_le (num (int (window_count (sort (days_of lst)) (num w) s))) (num mx))"
    unfolding window_report_def Let_def
    by (simp only: find_report set_js_set set_sort)
  also have "\<dots> \<longleftrightarrow> (\<forall>s \<in> set (days_of lst). ?n s \<le> nat mx)"
    using window_count_int[OF b assms(1)] assms(3) by (simp add: le_nat_iff)
  also have "\<dots> \<longleftrightarrow> (\<forall>s. ?n s \<le> nat mx)"
    using window_from_worked_day[of "days_of lst" w "nat mx"] by blast
  finally show ?thesis using assms(3) by (simp add: le_nat_iff)
qed

text \<open>C28: a \<open>MaxAssignmentsInWindow\<close> rule passes exactly when no member has more than \<open>max\<close> assignments
  in any \<open>windowDays\<close>-day window, wherever the window starts: trying only windows that start on a worked
  day loses nothing.\<close>
theorem rolling_window_exhaustive:
  assumes "get (c_params rule) ''max'' = Num (num mx)" "get (c_params rule) ''windowDays'' = Num (num w)"
    and "0 \<le> mx" "\<bar>w\<bar> < 2 ^ 51" "calendar_dates scoped"
  shows "checkMaxAssignmentsInWindow rule scoped = [] \<longleftrightarrow>
    (\<forall>m s. int (length (filter (\<lambda>a. membershipId a = m \<and> s \<le> dayNumber (date a) \<and> dayNumber (date a) < s + w)
              scoped)) \<le> mx)"
proof -
  have c: "checkMaxAssignmentsInWindow rule scoped =
      concat (map (\<lambda>(m, lst). window_report rule (num mx) (num w) m lst) (byMembership scoped))"
    using assms(1,2) by (simp add: checkMaxAssignmentsInWindow_def window_report_def days_of_def)
  have cd: "calendar_dates (filter P scoped)" for P using assms(5) by (simp add: calendar_dates_def)
  have len: "length (filter (in_window w s) (days_of (filter (\<lambda>a. membershipId a = m) scoped))) =
      length (filter (\<lambda>a. membershipId a = m \<and> s \<le> dayNumber (date a) \<and> dayNumber (date a) < s + w) scoped)" for m s
    by (induction scoped) (auto simp: days_of_def in_window_def)
  have "checkMaxAssignmentsInWindow rule scoped = [] \<longleftrightarrow>
      (\<forall>m \<in> membershipId ` set scoped.
         window_report rule (num mx) (num w) m (filter (\<lambda>a. membershipId a = m) scoped) = [])"
    by (simp add: c byMembership_eq)
  also have "\<dots> \<longleftrightarrow> (\<forall>m \<in> membershipId ` set scoped. \<forall>s.
      int (length (filter (\<lambda>a. membershipId a = m \<and> s \<le> dayNumber (date a) \<and> dayNumber (date a) < s + w) scoped)) \<le> mx)"
    by (simp only: window_report_clean[OF assms(4) cd assms(3)] len)
  also have "\<dots> \<longleftrightarrow> (\<forall>m s.
      int (length (filter (\<lambda>a. membershipId a = m \<and> s \<le> dayNumber (date a) \<and> dayNumber (date a) < s + w) scoped)) \<le> mx)"
  proof -
    have "int (length (filter (\<lambda>a. membershipId a = m \<and> s \<le> dayNumber (date a) \<and> dayNumber (date a) < s + w) scoped)) \<le> mx"
      if "m \<notin> membershipId ` set scoped" for m s
    proof -
      have "filter (\<lambda>a. membershipId a = m \<and> s \<le> dayNumber (date a) \<and> dayNumber (date a) < s + w) scoped = []"
        using that by (auto simp: filter_empty_conv)
      then show ?thesis using assms(3) by (simp only: list.size(3) of_nat_0)
    qed
    then show ?thesis by blast
  qed
  finally show ?thesis .
qed

lemma rolling_window_exhaustive_witness:
  "\<forall>s. length (filter (\<lambda>a. membershipId a = ''m'' \<and> s \<le> dayNumber (date a) \<and> dayNumber (date a) < s + 2)
     [sample_assignment ''a'' ''m'' ''2024-02-29'' 0 1, sample_assignment ''b'' ''m'' ''2024-03-02'' 2 3]) \<le> 1"
proof -
  let ?r = "sample_rule ''MaxAssignmentsInWindow'' [(''max'', Num (num 1)), (''windowDays'', Num (num 2))]"
  let ?as = "[sample_assignment ''a'' ''m'' ''2024-02-29'' 0 1, sample_assignment ''b'' ''m'' ''2024-03-02'' 2 3]"
  have d: "dayNumber ''2024-02-29'' = 19782" "dayNumber ''2024-03-02'' = 19784"
    "isCalendarDate ''2024-02-29''" "isCalendarDate ''2024-03-02''" by code_simp+
  have p: "get (c_params ?r) ''max'' = Num (num 1)" "get (c_params ?r) ''windowDays'' = Num (num 2)"
    "0 \<le> (1::int)" "\<bar>2::int\<bar> < 2 ^ 51" "calendar_dates ?as"
    by (simp_all add: sample_simps calendar_dates_def d)
  have "checkMaxAssignmentsInWindow ?r ?as = []"
    unfolding checkMaxAssignmentsInWindow_def
    by (simp add: sample_simps byMembership_eq js_set_def set_add_def d find_report Let_def
        window_count_int[of _ _ "[_, _]", simplified] window_count_def)
  then show ?thesis unfolding rolling_window_exhaustive[OF p] by simp
qed

section \<open>Call spacing\<close>

definition call_report :: "CompiledRule \<Rightarrow> jsnum \<Rightarrow> string \<Rightarrow> CheckedAssignment list \<Rightarrow> HardRuleFinding list" where
  "call_report rule k m lst =
     map (\<lambda>(previous, current). breach rule (snapshotId current)
           (CallsTooClose m (date current) (dayNumber (date current) - dayNumber (date previous)) (date previous) k))
       (filter (\<lambda>(previous, current). \<not> js_le k (num (dayNumber (date current) - dayNumber (date previous))))
         (adjacent (chronological (filter isOnCall lst))))"

text \<open>An assignment's date is the date of its start, so dates follow the order of the starts.\<close>
definition dates_follow_starts :: "CheckedAssignment list \<Rightarrow> bool" where
  "dates_follow_starts as \<longleftrightarrow>
     (\<forall>a b. a \<in> set as \<and> b \<in> set as \<and> startsAtMs a \<le> startsAtMs b \<longrightarrow> dayNumber (date a) \<le> dayNumber (date b))"

lemma call_report_clean:
  assumes "dates_follow_starts lst"
  shows "call_report rule (num k) m lst = [] \<longleftrightarrow>
    sorted_wrt (\<lambda>a b. dayNumber (date a) + k \<le> dayNumber (date b)) (chronological (filter isOnCall lst))"
proof -
  let ?near = "\<lambda>a b. \<not> js_le (num k) (num (dayNumber (date b) - dayNumber (date a)))"
  have "sorted_wrt (\<lambda>a b. dayNumber (date a) \<le> dayNumber (date b)) (chronological (filter isOnCall lst))"
    by (rule sorted_wrt_mono_rel[OF _ chronological_sorted])
      (use assms in \<open>auto simp: dates_follow_starts_def\<close>)
  from adjacent_pairs[OF this, of ?near]
  have "(\<forall>(x, y) \<in> set (adjacent (chronological (filter isOnCall lst))). \<not> ?near x y) \<longleftrightarrow>
    sorted_wrt (\<lambda>x y. \<not> ?near x y) (chronological (filter isOnCall lst))" by auto
  moreover have "call_report rule (num k) m lst = [] \<longleftrightarrow>
      (\<forall>(x, y) \<in> set (adjacent (chronological (filter isOnCall lst))). \<not> ?near x y)"
    unfolding call_report_def map_is_Nil_conv filter_empty_conv by (simp add: split_beta)
  ultimately show ?thesis by (simp add: algebra_simps)
qed

text \<open>A \<open>CallSpacing\<close> rule passes exactly when any two calls of one member lie at least the required
  number of days apart; shifts that are not calls never matter.\<close>
theorem call_spacing_is_pairwise:
  assumes "get (c_params rule) ''minDaysBetweenCalls'' = Num (num k)"
    and "distinct (map snapshotId scoped)" "dates_follow_starts scoped"
  shows "checkCallSpacing rule scoped = [] \<longleftrightarrow>
    (\<forall>a b. a \<in> set scoped \<and> b \<in> set scoped \<and> isOnCall a \<and> isOnCall b \<and> membershipId a = membershipId b \<and>
       before a b \<longrightarrow> dayNumber (date a) + k \<le> dayNumber (date b))"
proof -
  have c: "checkCallSpacing rule scoped =
      concat (map (\<lambda>(m, lst). call_report rule (num k) m lst) (byMembership scoped))"
    using assms(1) by (simp add: checkCallSpacing_def call_report_def)
  have f: "dates_follow_starts (filter P scoped)" for P using assms(3) by (auto simp: dates_follow_starts_def)
  have "checkCallSpacing rule scoped = [] \<longleftrightarrow> (\<forall>m \<in> membershipId ` set scoped.
      sorted_wrt (\<lambda>a b. dayNumber (date a) + k \<le> dayNumber (date b))
        (chronological (filter isOnCall (filter (\<lambda>a. membershipId a = m) scoped))))"
    by (simp add: c byMembership_eq call_report_clean[OF f])
  then show ?thesis
    unfolding chronological_pairs[OF distinct_ids_filter[OF distinct_ids_filter[OF assms(2)]]] by auto
qed

lemma call_spacing_is_pairwise_witness:
  "checkCallSpacing (sample_rule ''CallSpacing'' [(''minDaysBetweenCalls'', Num (num 3))])
     [sample_assignment ''a'' ''m'' ''2024-02-29'' 0 1, sample_assignment ''b'' ''m'' ''2024-03-02'' 2 3] \<noteq> []"
proof -
  let ?a = "sample_assignment ''a'' ''m'' ''2024-02-29'' 0 1" and ?b = "sample_assignment ''b'' ''m'' ''2024-03-02'' 2 3"
  have d: "dayNumber ''2024-02-29'' = 19782" "dayNumber ''2024-03-02'' = 19784" by code_simp+
  have p: "get (c_params (sample_rule ''CallSpacing'' [(''minDaysBetweenCalls'', Num (num 3))])) ''minDaysBetweenCalls'' = Num (num 3)"
    "distinct (map snapshotId [?a, ?b])" "dates_follow_starts [?a, ?b]"
    by (auto simp: sample_simps dates_follow_starts_def d)
  have "?a \<in> set [?a, ?b] \<and> ?b \<in> set [?a, ?b] \<and> isOnCall ?a \<and> isOnCall ?b \<and> membershipId ?a = membershipId ?b \<and>
    before ?a ?b \<and> \<not> dayNumber (date ?a) + 3 \<le> dayNumber (date ?b)"
    by (simp add: sample_assignment_def before_def d)
  then show ?thesis unfolding call_spacing_is_pairwise[OF p] by blast
qed

end
