(* ===== verification/HardRuleCoverage.thy ===== *)
theory HardRuleCoverage
  imports HardRuleSpacing
begin

text \<open>
  What the coverage, weekday, adjacency, sequence, linkage, pattern and preservation checks decide, each stated
  over the assignments themselves instead of the maps and loops of the code.
\<close>

section \<open>Dates of the accounting window\<close>

lemma iso_of_dayNumber:
  assumes "isCalendarDate s" "''0100-01-01'' \<le> s"
  shows "iso_date (dayNumber s) = s"
proof -
  obtain n where n: "daysFromEpoch s = Inr n" using assms(1) by (auto simp: isCalendarDate_days)
  then have "dayNumber s = n" using dayNumber_daysFromEpoch assms(2) by blast
  then show ?thesis
    using n iso_date_dateFromEpochDays[of n] by (simp add: days_bij)
qed

lemma dayNumber_le_iff:
  assumes "isCalendarDate s" "''0100-01-01'' \<le> s" "isCalendarDate t" "''0100-01-01'' \<le> t"
  shows "dayNumber s \<le> dayNumber t \<longleftrightarrow> s \<le> t"
proof -
  obtain a b where ab: "daysFromEpoch s = Inr a" "daysFromEpoch t = Inr b"
    using assms by (auto simp: isCalendarDate_days)
  then have "dayNumber s = a" "dayNumber t = b" using dayNumber_daysFromEpoch assms by blast+
  then show ?thesis using days_le_iff[OF ab] by simp
qed

definition window_ok :: "DateRange \<Rightarrow> bool" where
  "window_ok w \<longleftrightarrow> isCalendarDate (dr_from w) \<and> isCalendarDate (dr_to w) \<and> ''0100-01-01'' \<le> dr_from w"

text \<open>The dates of a window are the calendar dates between its ends.\<close>
lemma window_dates:
  assumes "window_ok w" "dr_from w \<le> dr_to w"
  shows "set (datesInRangeIso w) = {d. isCalendarDate d \<and> dr_from w \<le> d \<and> d \<le> dr_to w}"
proof -
  obtain a b where ab: "daysFromEpoch (dr_from w) = Inr a" "daysFromEpoch (dr_to w) = Inr b"
    using assms(1) by (auto simp: isCalendarDate_days window_ok_def)
  have "''0100-01-01'' \<le> dr_to w" using assms by (auto simp: window_ok_def)
  then have dn: "dayNumber (dr_from w) = a" "dayNumber (dr_to w) = b"
    using dayNumber_daysFromEpoch ab assms(1) by (auto simp: window_ok_def)
  have r: "first_day \<le> a" "b \<le> last_day" using ab by (simp_all add: days_bij)
  have iso: "iso_date n = dateFromEpochDays n" "daysFromEpoch (dateFromEpochDays n) = Inr n"
    if "n \<in> {a..b}" for n
    using that r iso_date_dateFromEpochDays[of n] days_of_date[of n] by auto
  show ?thesis
  proof (intro set_eqI iffI)
    fix d assume "d \<in> set (datesInRangeIso w)"
    then obtain n where n: "n \<in> {a..b}" "d = dateFromEpochDays n"
      using iso by (auto simp: datesInRangeIso_def dn)
    then show "d \<in> {d. isCalendarDate d \<and> dr_from w \<le> d \<and> d \<le> dr_to w}"
      using iso(2)[OF n(1)] days_le_iff[OF ab(1) iso(2)[OF n(1)]] days_le_iff[OF iso(2)[OF n(1)] ab(2)]
      by (auto simp: isCalendarDate_days)
  next
    fix d assume d: "d \<in> {d. isCalendarDate d \<and> dr_from w \<le> d \<and> d \<le> dr_to w}"
    then obtain n where n: "daysFromEpoch d = Inr n" by (auto simp: isCalendarDate_days)
    then have "n \<in> {a..b}" using d days_le_iff[OF ab(1) n] days_le_iff[OF n ab(2)] by simp
    then show "d \<in> set (datesInRangeIso w)"
      using iso(1)[of n] date_of_days[OF n] by (auto simp: datesInRangeIso_def dn intro!: image_eqI[of _ _ n])
  qed
qed

lemma accountingWindow_ordered:
  "accountingWindow rule hz = Some w \<Longrightarrow> dr_from hz \<le> dr_to hz \<Longrightarrow> dr_from w \<le> dr_to w"
  by (auto simp: accountingWindow_def Let_def not_less split: option.splits if_splits)

lemma calendar_length: "isCalendarDate d \<Longrightarrow> length d = 10"
  by (auto simp: isCalendarDate_civil SHAPE_def split: if_splits)

lemma cell_key_inj:
  "isCalendarDate d \<Longrightarrow> isCalendarDate e \<Longrightarrow> cell_key d c = cell_key e c' \<longleftrightarrow> d = e \<and> c = c'"
  by (simp add: cell_key_def calendar_length)

section \<open>Coverage\<close>

definition coverage_codes :: "CompiledRule \<Rightarrow> CheckedVersion \<Rightarrow> string list" where
  "coverage_codes rule version =
     (if cs_shiftTypes (c_scope rule) \<noteq> [] then cs_shiftTypes (c_scope rule) else knownShiftTypeCodes version)"

definition cell_count :: "CheckedAssignment list \<Rightarrow> string \<Rightarrow> string \<Rightarrow> nat" where
  "cell_count as d code = length (filter (\<lambda>a. date a = d \<and> shiftTypeCode a = code) as)"

lemma count_cell:
  assumes "calendar_dates as" "isCalendarDate d"
  shows "get_or 0 (foldl (\<lambda>m a. map_count (cell_key (date a) (shiftTypeCode a)) m) [] as) (cell_key d code) =
    cell_count as d code"
proof -
  have "filter (\<lambda>a. cell_key (date a) (shiftTypeCode a) = cell_key d code) as =
      filter (\<lambda>a. date a = d \<and> shiftTypeCode a = code) as"
    using assms by (intro filter_cong refl) (auto simp: cell_key_inj calendar_dates_def)
  then show ?thesis by (simp add: count_get cell_count_def)
qed

text \<open>C30: a coverage rule passes exactly when every cell of the accounting window, one per real date and
  code, has a number of scoped assignments the bound allows; cells nobody works are counted as zero.\<close>
theorem coverage_per_cell:
  assumes "candidateFacts version = Some facts" "accountingWindow rule (horizon facts) = Some win"
    and "window_ok win" "dr_from win \<le> dr_to win" "calendar_dates scoped"
  shows "checkCoverage rule scoped version (k, num v) = [] \<longleftrightarrow>
    (\<forall>d code. isCalendarDate d \<and> dr_from win \<le> d \<and> d \<le> dr_to win \<and> code \<in> set (coverage_codes rule version) \<longrightarrow>
       \<not> out_of_bound k (cell_count scoped d code) (num v))"
proof -
  have codes: "set (if cs_shiftTypes (c_scope rule) \<noteq> [] then sort (cs_shiftTypes (c_scope rule))
      else sort (knownShiftTypeCodes version)) = set (coverage_codes rule version)"
    by (simp add: coverage_codes_def)
  have "checkCoverage rule scoped version (k, num v) = [] \<longleftrightarrow>
    (\<forall>d \<in> set (datesInRangeIso win). \<forall>code \<in> set (coverage_codes rule version).
       \<not> out_of_bound k (get_or 0 (foldl (\<lambda>m a. map_count (cell_key (date a) (shiftTypeCode a)) m) [] scoped)
          (cell_key d code)) (num v))"
    unfolding codes[symmetric] using assms(1,2)
    by (simp add: checkCoverage_def Let_def filter_empty_conv)
  also have "\<dots> \<longleftrightarrow> (\<forall>d \<in> set (datesInRangeIso win). \<forall>code \<in> set (coverage_codes rule version).
       \<not> out_of_bound k (cell_count scoped d code) (num v))"
    using window_dates[OF assms(3,4)] count_cell[OF assms(5)] by auto
  finally show ?thesis using window_dates[OF assms(3,4)] by auto
qed

lemma concat_map_Nil: "concat (map f xs) = [] \<longleftrightarrow> (\<forall>x \<in> set xs. f x = [])"
  by auto

lemma if_Nil_report: "(if b then [] else [x]) = [] \<longleftrightarrow> b" "(if b then [x] else []) = [] \<longleftrightarrow> \<not> b"
  by simp_all

lemma if_Nil_else: "(if b then [] else xs) = [] \<longleftrightarrow> b \<or> xs = []"
  by simp

lemma walk_Nil:
  "concat (map (case_prod f) (byMembership scoped)) = [] \<longleftrightarrow>
     (\<forall>m \<in> membershipId ` set scoped. f m (filter (\<lambda>a. membershipId a = m) scoped) = [])"
  by (simp add: byMembership_eq)

lemma bounded_all:
  "(\<And>m s. B m s \<Longrightarrow> m \<in> M \<and> s \<in> S m) \<Longrightarrow> (\<forall>m \<in> M. \<forall>s \<in> S m. \<not> B m s) \<longleftrightarrow> \<not> (\<exists>m s. B m s)"
  by blast

section \<open>Weekday limit\<close>

definition weekday_count :: "CheckedAssignment list \<Rightarrow> string \<Rightarrow> string \<Rightarrow> nat" where
  "weekday_count as m wd = length (filter (\<lambda>a. membershipId a = m \<and> weekdayOfDate (date a) = wd) as)"

text \<open>A \<open>WeekdayFteLimit\<close> rule passes exactly when every member who works that weekday stays within
  each of the terms that are present: the rule's own fraction of the weekday's dates, the profile's
  fraction, and the profile's absolute cap. No term can raise the limit another sets.\<close>
theorem weekday_limit_every_term:
  assumes "candidateFacts version = Some facts"
    and "get (c_params rule) ''weekday'' = Str wd" "get (c_params rule) ''fteFraction'' = Num f"
    and "wd \<noteq> ''holiday''" "accountingWindow rule (horizon facts) = Some win"
  shows "checkWeekdayFteLimit rule scoped version = [] \<longleftrightarrow>
    (\<forall>m t. 0 < weekday_count scoped m wd \<and>
       t \<in> set (weekday_terms f (length (filter (\<lambda>d. weekdayOfDate d = wd) (datesInRangeIso win)))
            (weekdayTarget facts m wd)) \<longrightarrow>
       js_le (num (int (weekday_count scoped m wd))) t)"
proof -
  let ?as = "filter (\<lambda>a. weekdayOfDate (date a) = wd) scoped"
  have cnt: "length (filter (\<lambda>a. membershipId a = m) ?as) = weekday_count scoped m wd" for m
    by (simp add: weekday_count_def conj_commute)
  have mem: "m \<in> membershipId ` set ?as \<longleftrightarrow> 0 < weekday_count scoped m wd" for m
    by (auto simp: weekday_count_def filter_empty_conv)
  have "checkWeekdayFteLimit rule scoped version = [] \<longleftrightarrow> (\<forall>m \<in> membershipId ` set ?as.
      js_le (num (int (length (filter (\<lambda>a. membershipId a = m) ?as))))
        (js_min (weekday_terms f (length (filter (\<lambda>d. weekdayOfDate d = wd) (datesInRangeIso win)))
            (weekdayTarget facts m wd))))"
    using assms unfolding checkWeekdayFteLimit_def
    by (simp only: option.case as_string.simps as_number.simps prod.case if_False Let_def count_get
        concat_map_Nil set_sort count_keys if_Nil_report)
  then show ?thesis unfolding cnt js_le_min Ball_def mem by auto
qed

section \<open>Adjacent types, forbidden sequences\<close>

definition works :: "CheckedAssignment list \<Rightarrow> string \<Rightarrow> int \<Rightarrow> string \<Rightarrow> bool" where
  "works as m d c \<longleftrightarrow> (\<exists>a. a \<in> set as \<and> membershipId a = m \<and> dayNumber (date a) = d \<and> shiftTypeCode a = c)"

lemma works_today:
  "c \<in> set (get_or [] (codes_on_day (filter (\<lambda>a. membershipId a = m) as)) d) \<longleftrightarrow> works as m d c"
  unfolding codes_on_day_get by (auto simp: works_def)

text \<open>A \<open>NoAdjacent\<close> rule passes exactly when no member works the two types, in either order, on two
  consecutive days.\<close>
theorem no_adjacent_symmetric:
  assumes "get (c_params rule) ''shiftTypeA'' = Str A" "get (c_params rule) ''shiftTypeB'' = Str B"
  shows "checkNoAdjacent rule scoped = [] \<longleftrightarrow>
    \<not> (\<exists>m d. works scoped m d A \<and> works scoped m (d + 1) B \<or> works scoped m d B \<and> works scoped m (d + 1) A)"
proof -
  let ?bad = "\<lambda>m d. works scoped m d A \<and> works scoped m (d + 1) B \<or> works scoped m d B \<and> works scoped m (d + 1) A"
  have "checkNoAdjacent rule scoped = [] \<longleftrightarrow> (\<forall>m \<in> membershipId ` set scoped.
      \<forall>d \<in> (\<lambda>a. dayNumber (date a)) ` set (filter (\<lambda>a. membershipId a = m) scoped).
        \<not> (works scoped m d A \<and> works scoped m (d + 1) B) \<and> \<not> (works scoped m d B \<and> works scoped m (d + 1) A))"
    by (simp only: checkNoAdjacent_def assms as_string.simps prod.case option.case walk_Nil Let_def)
      (simp only: concat_map_Nil set_sort codes_keys works_today if_Nil_report)
  also have "\<dots> \<longleftrightarrow> (\<forall>m d. \<not> ?bad m d)"
    by (auto simp: works_def)
  finally show ?thesis by blast
qed

text \<open>A \<open>ForbiddenSequence\<close> rule passes exactly when no member works the sequence's types, in order,
  on consecutive days.\<close>
theorem forbidden_sequence_exact:
  assumes "get (c_params rule) ''sequence'' = Arr (map Str cs)" "cs \<noteq> []"
  shows "checkForbiddenSequence rule scoped = [] \<longleftrightarrow>
    \<not> (\<exists>m s. \<forall>i < length cs. works scoped m (s + int i) (cs ! i))"
proof -
  have run: "run_matches (codes_on_day (filter (\<lambda>a. membershipId a = m) scoped)) cs s \<longleftrightarrow>
      (\<forall>i < length cs. works scoped m (s + int i) (cs ! i))" for m s
    by (auto simp: run_matches_def list_all_iff set_number_list codes_on_day_lookup works_def)
  have "checkForbiddenSequence rule scoped = [] \<longleftrightarrow> (\<forall>m \<in> membershipId ` set scoped.
      \<forall>s \<in> (\<lambda>a. dayNumber (date a)) ` set (filter (\<lambda>a. membershipId a = m) scoped).
        \<not> (\<forall>i < length cs. works scoped m (s + int i) (cs ! i)))"
    using assms(2)
    by (simp only: checkForbiddenSequence_def assms(1) as_array.simps option.case strings_of_Str Let_def
        length_0_conv if_False walk_Nil map_is_Nil_conv filter_empty_conv set_sort codes_keys run)
  also have "\<dots> \<longleftrightarrow> \<not> (\<exists>m s. \<forall>i < length cs. works scoped m (s + int i) (cs ! i))"
  proof (rule bounded_all)
    fix m s assume "\<forall>i < length cs. works scoped m (s + int i) (cs ! i)"
    then have "works scoped m (s + int 0) (cs ! 0)" using assms(2) by blast
    then show "m \<in> membershipId ` set scoped \<and>
        s \<in> (\<lambda>a. dayNumber (date a)) ` set (filter (\<lambda>a. membershipId a = m) scoped)"
      by (auto simp: works_def)
  qed
  finally show ?thesis .
qed

section \<open>Linkage\<close>

definition codes_worked :: "CheckedAssignment list \<Rightarrow> string \<Rightarrow> string \<Rightarrow> string set" where
  "codes_worked as m d = shiftTypeCode ` {a \<in> set as. membershipId a = m \<and> date a = d}"

text \<open>What each mode asks of the codes one member works on one date.\<close>
fun linked :: "linkage_mode \<Rightarrow> string list \<Rightarrow> string set \<Rightarrow> bool" where
  "linked AllOrNone names W \<longleftrightarrow> set names \<inter> W = {} \<or> set names \<subseteq> W"
| "linked Implies names W \<longleftrightarrow> (names ! 0 \<in> W \<longrightarrow> names ! 1 \<in> W)"
| "linked AtMostOne names W \<longleftrightarrow> card (set names \<inter> W) \<le> 1"

lemma linkage_breached_iff:
  assumes "distinct names"
  shows "linkage_breached mode names codes \<longleftrightarrow> \<not> linked mode names (set codes)"
proof (cases mode)
  case AllOrNone
  have "length (filter (\<lambda>n. n \<in> set codes) names) < length names \<longleftrightarrow> \<not> set names \<subseteq> set codes"
    by (metis filter_id_conv length_filter_le length_filter_less order_less_le subsetI subset_iff)
  then show ?thesis using AllOrNone by (auto simp: Let_def filter_empty_conv)
next
  case AtMostOne
  have "length (filter (\<lambda>n. n \<in> set codes) names) = card (set names \<inter> set codes)"
    using assms distinct_card[of "filter (\<lambda>n. n \<in> set codes) names"] by (simp add: Int_def)
  then show ?thesis using AtMostOne by auto
qed auto

lemma worked_on_date:
  "set (get_or [] (codes_on_date (filter (\<lambda>a. membershipId a = m) as)) d) = codes_worked as m d"
  unfolding codes_on_date_get codes_worked_def by auto

lemma linked_idle: "names \<noteq> [] \<Longrightarrow> linked mode names {}"
  by (cases mode) auto

text \<open>The linkage rules bind one member on one date: linked types come all together or not at all, the
  implied type accompanies the implying one, of mutually exclusive types at most one is worked.\<close>
theorem linkage_per_member_and_date:
  assumes "linkage_names mode rule = Inr names" "names \<noteq> []" "distinct names"
  shows "checkLinkage rule scoped mode = [] \<longleftrightarrow> (\<forall>m d. linked mode names (codes_worked scoped m d))"
proof -
  have "checkLinkage rule scoped mode = [] \<longleftrightarrow> (\<forall>m \<in> membershipId ` set scoped.
      \<forall>d \<in> date ` set (filter (\<lambda>a. membershipId a = m) scoped). \<not> \<not> linked mode names (codes_worked scoped m d))"
    using assms(2)
    by (simp only: checkLinkage_def assms(1) sum.case length_0_conv if_False walk_Nil Let_def)
      (simp only: concat_map_Nil set_sort codes_keys if_Nil_report linkage_breached_iff[OF assms(3)] worked_on_date)
  also have "\<dots> \<longleftrightarrow> \<not> (\<exists>m d. \<not> linked mode names (codes_worked scoped m d))"
  proof (rule bounded_all)
    fix m d assume "\<not> linked mode names (codes_worked scoped m d)"
    then have "codes_worked scoped m d \<noteq> {}" using linked_idle[OF assms(2)] by auto
    then show "m \<in> membershipId ` set scoped \<and> d \<in> date ` set (filter (\<lambda>a. membershipId a = m) scoped)"
      by (auto simp: codes_worked_def)
  qed
  finally show ?thesis by blast
qed

section \<open>Patterns\<close>

lemma collect_map_Nil: "collect f xs = Inr [] \<longleftrightarrow> (\<forall>x \<in> set xs. f x = Inr [])"
  by (rule collect_Inr_Nil_iff)

lemma walk_collect_Nil:
  "collect (case_prod f) (byMembership scoped) = Inr [] \<longleftrightarrow>
     (\<forall>m \<in> membershipId ` set scoped. f m (filter (\<lambda>a. membershipId a = m) scoped) = Inr [])"
  by (simp add: collect_map_Nil byMembership_eq)

text \<open>The pattern holds for one trigger assignment: every segment's date that lies in the horizon carries the
  segment's code for the same member.\<close>
definition pattern_met :: "CheckedAssignment list \<Rightarrow> DateRange \<Rightarrow> PatternSegment list \<Rightarrow> CheckedAssignment \<Rightarrow> bool" where
  "pattern_met as hz segs a \<longleftrightarrow>
     (\<forall>s \<in> set segs. \<forall>k. offsetDays s = num k \<longrightarrow>
        (let d = iso_date (dayNumber (date a) + k) in
         dr_from hz \<le> d \<and> d \<le> dr_to hz \<longrightarrow> seg_shiftType s \<in> codes_worked as (membershipId a) d))"

definition segments_json :: "PatternSegment list \<Rightarrow> jsval" where
  "segments_json segs = Arr (map (\<lambda>s. Obj (segment_members s)) segs)"

lemma segment_findings_num:
  assumes "offsetDays s = num k" "\<bar>k\<bar> \<le> 366" "isCalendarDate (date a)"
  shows "segment_findings rule facts m held trigger a (Obj (segment_members s)) =
    (let d = iso_date (dayNumber (date a) + k) in Inr
       (if d < dr_from (horizon facts) \<or> d > dr_to (horizon facts) then []
        else if cell_key d (seg_shiftType s) \<in> set held then []
        else [breach rule (snapshotId a) (PatternMissing m trigger (date a) (seg_shiftType s) d)]))"
proof -
  have r: "first_day \<le> dayNumber (date a)" "dayNumber (date a) \<le> last_day"
    using dayNumber_range[OF assms(3)] by auto
  then have b: "\<bar>dayNumber (date a) + k\<bar> \<le> 100000000"
    using assms(2) by (simp add: first_day_def last_day_def abs_le_iff)
  then have "js_add (num (dayNumber (date a))) (num k) = num (dayNumber (date a) + k)"
    by (intro num_ops) simp
  then show ?thesis
    using assms(1) isoOfDayNumber_num[OF b]
    by (simp add: segment_findings_def member_def segment_members_def Let_def)
qed

lemma held_cell:
  assumes "calendar_dates as" "length d = 10"
  shows "cell_key d c \<in> set (js_set (map (\<lambda>a. cell_key (date a) (shiftTypeCode a))
     (filter (\<lambda>a. membershipId a = m) as))) \<longleftrightarrow> c \<in> codes_worked as m d"
proof -
  have "length (date a) = 10" if "a \<in> set as" for a
    using that assms calendar_length by (auto simp: calendar_dates_def)
  then show ?thesis using assms(2)
    by (auto simp: codes_worked_def cell_key_def image_iff append_eq_append_conv)
qed

lemma iso_date_length: "length (iso_date n) = 10"
proof -
  have pad: "w \<le> length (pad_start w s)" for w s by (simp add: pad_start_def)
  obtain y m d where c: "days_to_civil n = (y, m, d)" by (cases "days_to_civil n") auto
  have "10 \<le> length ((if 0 \<le> y \<and> y \<le> 9999 then pad_start 4 (string_of_int y)
      else (if y < 0 then CHR ''-'' else CHR ''+'') # pad_start 6 (string_of_int \<bar>y\<bar>)) @
      ''-'' @ pad_start 2 (string_of_int m) @ ''-'' @ pad_start 2 (string_of_int d))"
    using pad[of 4 "string_of_int y"] pad[of 6 "string_of_int \<bar>y\<bar>"] pad[of 2 "string_of_int m"]
      pad[of 2 "string_of_int d"] by simp
  then show ?thesis
    by (simp only: iso_date_def c prod.case length_take min_absorb2)
qed

text \<open>C31: a \<open>PatternRule\<close> returns and passes exactly when every trigger assignment on one of its weekdays is
  followed, within the build horizon, by every segment's shift of the same member.\<close>
theorem pattern_rule_exact:
  assumes "candidateFacts version = Some facts"
    and "get (c_params rule) ''trigger'' = Str trigger"
    and "get (c_params rule) ''daysOfWeek'' = Arr (map Str days)" "''holiday'' \<notin> set days"
    and "get (c_params rule) ''segments'' = segments_json segs"
    and "\<forall>s \<in> set segs. whole (- 366) 366 (offsetDays s)" "calendar_dates scoped"
  shows "checkPatternRule rule scoped version = Inr [] \<longleftrightarrow>
    (\<forall>a \<in> set scoped. shiftTypeCode a = trigger \<and> weekdayOfDate (date a) \<in> set days \<longrightarrow>
       pattern_met scoped (horizon facts) segs a)"
proof -
  let ?held = "\<lambda>m. js_set (map (\<lambda>a. cell_key (date a) (shiftTypeCode a)) (filter (\<lambda>a. membershipId a = m) scoped))"
  have seg: "collect (segment_findings rule facts m (?held m) trigger a) (map (\<lambda>s. Obj (segment_members s)) segs) = Inr [] \<longleftrightarrow>
      pattern_met scoped (horizon facts) segs a"
    if a: "a \<in> set scoped" "membershipId a = m" for a m
  proof -
    have "segment_findings rule facts m (?held m) trigger a (Obj (segment_members s)) = Inr [] \<longleftrightarrow>
        (\<forall>k. offsetDays s = num k \<longrightarrow>
          (let d = iso_date (dayNumber (date a) + k) in
           dr_from (horizon facts) \<le> d \<and> d \<le> dr_to (horizon facts) \<longrightarrow> seg_shiftType s \<in> codes_worked scoped m d))"
      if s: "s \<in> set segs" for s
    proof -
      obtain k where k: "offsetDays s = num k" "\<bar>k\<bar> \<le> 366"
        using assms(6) s by (auto simp: whole_iff)
      have "isCalendarDate (date a)" using assms(7) a by (simp add: calendar_dates_def)
      from segment_findings_num[OF k this] show ?thesis
        by (auto simp: k(1) Let_def held_cell[OF assms(7) iso_date_length] not_less
            simp del: set_js_set set_map)
    qed
    then show ?thesis using a(2) by (auto simp: collect_map_Nil pattern_met_def)
  qed
  have "checkPatternRule rule scoped version = Inr [] \<longleftrightarrow> (\<forall>m \<in> membershipId ` set scoped.
      \<forall>a \<in> set (filter (\<lambda>a. membershipId a = m) scoped).
        (if shiftTypeCode a \<noteq> trigger then Inr [] else if weekdayOfDate (date a) \<notin> set days then Inr []
         else collect (segment_findings rule facts m (?held m) trigger a) (map (\<lambda>s. Obj (segment_members s)) segs)) = Inr [])"
    using assms(4)
    by (simp only: checkPatternRule_def assms(1,2,3,5) segments_json_def option.case as_string.simps as_array.simps
        strings_of_Str if_False walk_collect_Nil Let_def)
      (simp only: collect_map_Nil set_chronological)
  also have "\<dots> \<longleftrightarrow> (\<forall>a \<in> set scoped. shiftTypeCode a = trigger \<and> weekdayOfDate (date a) \<in> set days \<longrightarrow>
      pattern_met scoped (horizon facts) segs a)"
    using seg by auto
  finally show ?thesis .
qed

section \<open>Alternating weeks\<close>

definition week_of :: "int \<Rightarrow> CheckedAssignment \<Rightarrow> int" where
  "week_of origin a = (dayNumber (date a) - origin) div 7"

lemma small_sum: "- c < x \<Longrightarrow> x < c \<Longrightarrow> c \<le> 260 \<Longrightarrow> \<bar>x + c\<bar> < (2 ^ 53 :: int)"
  by simp

lemma week_class_num:
  assumes "1 \<le> c" "c \<le> 260" "isCalendarDate d"
  shows "week_class origin (num c) d = num (((dayNumber d - origin) div 7) mod c)"
proof -
  let ?w = "(dayNumber d - origin) div 7"
  let ?r = "sgn ?w * (\<bar>?w\<bar> mod c)"
  have m: "0 \<le> \<bar>?w\<bar> mod c" "\<bar>?w\<bar> mod c < c" using assms(1) by simp_all
  then have r: "- c < ?r" "?r < c" by (auto simp: sgn_if)
  have c0: "0 < c" using assms(1) by simp
  have "js_mod (num ?w) (num c) = num ?r" by (rule js_mod_num[OF c0])
  moreover have "js_add (num ?r) (num c) = num (?r + c)" by (intro num_ops small_sum[OF r assms(2)])
  moreover have "js_mod (num (?r + c)) (num c) = num ((?r + c) mod c)"
  proof -
    have "0 < ?r + c" using r by linarith
    then have "sgn (?r + c) = 1" "\<bar>?r + c\<bar> = ?r + c" by simp_all
    then show ?thesis using js_mod_num[OF c0, of "?r + c"] by (simp only: mult_1)
  qed
  moreover have "(?r + c) mod c = ?w mod c"
  proof -
    have "?r = js_rem ?w c" using assms(1) by (simp add: js_rem_def)
    then show ?thesis using js_rem_cong[OF c0, of ?w] by simp
  qed
  ultimately show ?thesis by (simp only: week_class_def)
qed

lemma card_le_1: "finite S \<Longrightarrow> card S \<le> 1 \<longleftrightarrow> (\<forall>x \<in> S. \<forall>y \<in> S. x = y)"
  by (metis One_nat_def card_le_Suc0_iff_eq)

text \<open>An \<open>AlternatingWeek\<close> rule passes exactly when all of a member's shifts of the type fall into one
  week class of the cycle, counted from the first day of the accounting window.\<close>
theorem alternating_week_exact:
  assumes "candidateFacts version = Some facts" "accountingWindow rule (horizon facts) = Some win"
    and "get (c_params rule) ''onShiftType'' = Str code" "get (c_params rule) ''cycleWeeks'' = Num (num c)"
    and "1 \<le> c" "c \<le> 260" "calendar_dates scoped"
  shows "checkAlternatingWeek rule scoped version = [] \<longleftrightarrow>
    (\<forall>a b. a \<in> set scoped \<and> b \<in> set scoped \<and> membershipId a = membershipId b \<and>
       shiftTypeCode a = code \<and> shiftTypeCode b = code \<longrightarrow>
       week_of (dayNumber (dr_from win)) a mod c = week_of (dayNumber (dr_from win)) b mod c)"
proof -
  let ?o = "dayNumber (dr_from win)"
  let ?sel = "\<lambda>m. filter (\<lambda>a. shiftTypeCode a = code) (filter (\<lambda>a. membershipId a = m) scoped)"
  have cls: "week_class ?o (num c) (date a) = num (week_of ?o a mod c)" if "a \<in> set scoped" for a
    using that assms(7) week_class_num[OF assms(5,6)] by (simp add: calendar_dates_def week_of_def)
  have lt: "js_lt (num c) (num 1) \<longleftrightarrow> False" using assms(5) by simp
  have "checkAlternatingWeek rule scoped version = [] \<longleftrightarrow> (\<forall>m \<in> membershipId ` set scoped.
      length (js_set (map (\<lambda>a. week_class ?o (num c) (date a)) (?sel m))) \<le> 1)"
    by (simp only: checkAlternatingWeek_def assms(1-4) option.case as_string.simps as_number.simps prod.case
        lt if_False Let_def walk_Nil if_Nil_report)
  also have "\<dots> \<longleftrightarrow> (\<forall>m \<in> membershipId ` set scoped.
      \<forall>x \<in> set (?sel m). \<forall>y \<in> set (?sel m). week_class ?o (num c) (date x) = week_class ?o (num c) (date y))"
    by (simp only: length_js_set card_le_1 finite_set finite_imageI set_map ball_simps)
  also have "\<dots> \<longleftrightarrow> (\<forall>a b. a \<in> set scoped \<and> b \<in> set scoped \<and> membershipId a = membershipId b \<and>
       shiftTypeCode a = code \<and> shiftTypeCode b = code \<longrightarrow>
       week_of ?o a mod c = week_of ?o b mod c)"
    using cls by (auto simp: Ball_def)
  finally show ?thesis .
qed

section \<open>Preservation of fixed inputs\<close>

definition preserved :: "CheckedVersion \<Rightarrow> CandidatePriorAssignment \<Rightarrow> bool" where
  "preserved version p \<longleftrightarrow>
     (\<exists>a \<in> set (assignments version). assignmentIdentityId a = p_assignmentIdentityId p \<and>
        membershipId a = p_membershipId p \<and> date a = p_date p \<and> shiftTypeCode a = p_shiftTypeCode p)"

lemma find_Some_unique:
  "distinct (map k xs) \<Longrightarrow> x \<in> set xs \<Longrightarrow> find (\<lambda>y. k y = k x) xs = Some x"
  by (induction xs) (auto simp: image_iff)

lemma preservedFinding_Nil:
  assumes "distinct (map assignmentIdentityId (assignments version))"
  shows "preservedFinding rule version p why = [] \<longleftrightarrow> preserved version p"
proof (cases "find (\<lambda>a. assignmentIdentityId a = p_assignmentIdentityId p) (assignments version)")
  case None
  then have "\<not> preserved version p" by (auto simp: preserved_def find_None_iff)
  then show ?thesis using None by (simp add: preservedFinding_def)
next
  case (Some a)
  then have a: "a \<in> set (assignments version)" "assignmentIdentityId a = p_assignmentIdentityId p"
    by (auto simp: find_Some_iff in_set_conv_nth)
  have "b = a" if "b \<in> set (assignments version)" "assignmentIdentityId b = p_assignmentIdentityId p" for b
  proof -
    have "inj_on assignmentIdentityId (set (assignments version))" using assms by (simp only: distinct_map)
    moreover have "assignmentIdentityId b = assignmentIdentityId a" using that(2) a(2) by (simp only:)
    ultimately show ?thesis using that(1) a(1) by (rule inj_onD)
  qed
  then have "preserved version p \<longleftrightarrow>
      membershipId a = p_membershipId p \<and> date a = p_date p \<and> shiftTypeCode a = p_shiftTypeCode p"
    using a unfolding preserved_def by blast
  then show ?thesis using Some by (simp add: preservedFinding_def)
qed

text \<open>The two preservation rules hold the candidate to the fixed inputs: a \<open>FixedAssignment\<close> rule to the
  pinned one, a \<open>ProtectedRange\<close> rule to every one whose date lies in the range, each present with the
  same identity, member, date and type.\<close>
theorem fixed_inputs_preserved:
  assumes "candidateFacts version = Some facts" "distinct (map assignmentIdentityId (assignments version))"
    and "get (c_params rule) ''from'' = Str f" "get (c_params rule) ''to'' = Str t"
    and "get (c_params rule) ''assignmentIdentity'' = Str i"
    and "p \<in> set (priorAssignments facts)" "p_assignmentIdentityId p = i"
    and "distinct (map p_assignmentIdentityId (priorAssignments facts))"
  shows "(checkFixedAssignment rule version = [] \<longleftrightarrow> preserved version p) \<and>
    (checkProtectedRange rule version = [] \<longleftrightarrow>
       (\<forall>q \<in> set (priorAssignments facts). f \<le> p_date q \<and> p_date q \<le> t \<longrightarrow> preserved version q))"
proof
  have "find (\<lambda>q. p_assignmentIdentityId q = i) (priorAssignments facts) = Some p"
    using find_Some_unique[OF assms(8,6)] assms(7) by simp
  then show "checkFixedAssignment rule version = [] \<longleftrightarrow> preserved version p"
    using assms(1,5) by (simp add: checkFixedAssignment_def preservedFinding_Nil[OF assms(2)])
  show "checkProtectedRange rule version = [] \<longleftrightarrow>
      (\<forall>q \<in> set (priorAssignments facts). f \<le> p_date q \<and> p_date q \<le> t \<longrightarrow> preserved version q)"
    by (simp only: checkProtectedRange_def assms(1,3,4) option.case as_string.simps prod.case concat_map_Nil
        set_sort if_Nil_else preservedFinding_Nil[OF assms(2)])
      (auto simp: not_less)
qed

section \<open>Checks of single assignments\<close>

text \<open>The eligibility rules decide each scoped assignment on its own: the qualification held on its
  date, the date not avoided, the member in the staff group, the type admitted by the valid group, the pick
  position among the allowed ones (an assignment without a position passes).\<close>
theorem eligibility_per_assignment:
  assumes "candidateFacts version = Some facts"
    and "get (c_params rule) ''qualification'' = Str q" "q \<in> set (knownQualificationKeys (qualifications version))"
    and "get (c_params rule) ''date'' = Str d"
    and "get (c_params rule) ''staffGroup'' = Str g" "staffGroupMembers facts g = Some ms"
    and "get (c_params rule) ''validGroup'' = Str v" "validGroupShiftTypes facts v = Some cs"
    and "get (c_params rule) ''allowedPickPositions'' = Arr (map Num ps)"
    and "\<forall>a \<in> set scoped. pickPosition a \<noteq> None"
  shows "(checkRequiresQualification rule scoped version = [] \<longleftrightarrow>
       (\<forall>a \<in> set scoped. heldOn (qualifications version) (membershipId a) q (date a))) \<and>
    (checkAvoidDate rule scoped = [] \<longleftrightarrow> (\<forall>a \<in> set scoped. date a \<noteq> d)) \<and>
    (checkMemberOfStaffGroup rule scoped version = [] \<longleftrightarrow> (\<forall>a \<in> set scoped. membershipId a \<in> set ms)) \<and>
    (checkValidGroupRestriction rule scoped version = [] \<longleftrightarrow> (\<forall>a \<in> set scoped. shiftTypeCode a \<in> set cs)) \<and>
    (checkPickPositionRestriction rule scoped = [] \<longleftrightarrow>
       (\<forall>a \<in> set scoped. \<forall>n. pickPosition a = Some (Some n) \<longrightarrow> num n \<in> set ps))"
proof (intro conjI)
  have pos: "(case pickPosition a of Some (Some n) \<Rightarrow> if num n \<in> set ps then []
        else [breach rule (snapshotId a) (PickPositionOff (date a) n)] | _ \<Rightarrow> []) = [] \<longleftrightarrow>
      (\<forall>n. pickPosition a = Some (Some n) \<longrightarrow> num n \<in> set ps)" for a
    by (auto split: option.splits)
  have "\<not> list_ex (\<lambda>a. pickPosition a = None) (chronological scoped)"
    using assms(10) by (auto simp: list_ex_iff)
  then show "checkPickPositionRestriction rule scoped = [] \<longleftrightarrow>
       (\<forall>a \<in> set scoped. \<forall>n. pickPosition a = Some (Some n) \<longrightarrow> num n \<in> set ps)"
    by (simp only: checkPickPositionRestriction_def assms(9) as_array.simps option.case numbers_of_Num Let_def
        if_False concat_map_Nil pos set_chronological)
qed (use assms in \<open>auto simp: checkRequiresQualification_def checkAvoidDate_def checkMemberOfStaffGroup_def
    checkValidGroupRestriction_def filter_empty_conv\<close>)

section \<open>Concrete instances\<close>

definition sample_facts :: CandidateFacts where
  "sample_facts =
     \<lparr>horizon = \<lparr>dr_from = ''2024-01-01'', dr_to = ''2024-01-02''\<rparr>, knownStaffGroupIds = [''g''],
      staffGroupMembers = (\<lambda>g. if g = ''g'' then Some [''m''] else None), knownValidGroupIds = [''v''],
      validGroupShiftTypes = (\<lambda>v. if v = ''v'' then Some [''N''] else None),
      weekdayTarget = (\<lambda>m wd. Some (num 1, Some (num 0))), workPercentage = (\<lambda>m. None),
      priorAssignments = [\<lparr>p_assignmentIdentityId = ''p'', p_membershipId = ''m'', p_date = ''2024-01-01'',
        p_shiftTypeCode = ''D'', p_isPinned = True\<rparr>]\<rparr>"

definition sample_version :: "CheckedAssignment list \<Rightarrow> CheckedVersion" where
  "sample_version as =
     \<lparr>assignments = as, knownShiftTypeCodes = [''D'', ''N''], knownMembershipIds = [''m''],
      qualifications = \<lparr>heldOn = (\<lambda>m q d. False), knownQualificationKeys = [''q'']\<rparr>,
      candidateFacts = Some sample_facts\<rparr>"

abbreviation jan1 :: CheckedAssignment where
  "jan1 \<equiv> sample_assignment ''a'' ''m'' ''2024-01-01'' 0 1"

abbreviation jan2 :: CheckedAssignment where
  "jan2 \<equiv> sample_assignment ''b'' ''m'' ''2024-01-02'' 2 3"

lemma sample_dates:
  "isCalendarDate ''2024-01-01''" "isCalendarDate ''2024-01-02''"
  "dayNumber ''2024-01-01'' = 19723" "dayNumber ''2024-01-02'' = 19724"
  "weekdayOfDate ''2024-01-01'' = ''mon''" "weekdayOfDate ''2024-01-02'' = ''tue''"
  "''0100-01-01'' \<le> ''2024-01-01''" "''2024-01-01'' \<le> ''2024-01-02''"
  "iso_date 19723 = ''2024-01-01''" "iso_date 19724 = ''2024-01-02''"
  by code_simp+

lemmas sample_defs = sample_rule_def sample_assignment_def sample_version_def sample_facts_def

lemma sample_window:
  "accountingWindow (sample_rule k ps) (horizon sample_facts) = Some \<lparr>dr_from = ''2024-01-01'', dr_to = ''2024-01-02''\<rparr>"
  by (simp add: accountingWindow_def sample_rule_def sample_facts_def)

lemma dr_select: "dr_from \<lparr>dr_from = x, dr_to = y\<rparr> = x" "dr_to \<lparr>dr_from = x, dr_to = y\<rparr> = y"
  by simp_all

lemma codes_worked_Cons:
  "codes_worked [] m d = {}"
  "codes_worked (a # as) m d =
     (if membershipId a = m \<and> date a = d then insert (shiftTypeCode a) (codes_worked as m d) else codes_worked as m d)"
  by (auto simp: codes_worked_def)

lemma works_Cons:
  "\<not> works [] m d c"
  "works (a # as) m d c \<longleftrightarrow> membershipId a = m \<and> dayNumber (date a) = d \<and> shiftTypeCode a = c \<or> works as m d c"
  by (auto simp: works_def)

lemma codes_worked_jan1: "codes_worked [jan1] ''m'' ''2024-01-01'' = {''D''}"
  "codes_worked [jan1] ''m'' ''2024-01-02'' = {}"
  by (simp_all add: codes_worked_Cons sample_assignment_def)

lemma works_jan: "works [jan1, jan2] ''m'' 19723 ''D''" "works [jan1, jan2] ''m'' 19724 ''D''"
  by (simp_all add: works_Cons sample_assignment_def sample_dates)

lemma coverage_per_cell_witness:
  "checkCoverage (sample_rule ''MinCoverage'' [(''min'', Num (num 1))]) [jan1] (sample_version [jan1]) (AtLeast, num 1) \<noteq> []"
proof -
  let ?r = "sample_rule ''MinCoverage'' [(''min'', Num (num 1))]"
  have p: "candidateFacts (sample_version [jan1]) = Some sample_facts"
    "window_ok \<lparr>dr_from = ''2024-01-01'', dr_to = ''2024-01-02''\<rparr>"
    "dr_from \<lparr>dr_from = ''2024-01-01'', dr_to = ''2024-01-02''\<rparr> \<le> dr_to \<lparr>dr_from = ''2024-01-01'', dr_to = ''2024-01-02''\<rparr>"
    "calendar_dates [jan1]"
    by (simp_all add: sample_version_def window_ok_def sample_dates calendar_dates_def sample_assignment_def)
  have "''D'' \<in> set (coverage_codes ?r (sample_version [jan1]))"
    "out_of_bound AtLeast (cell_count [jan1] ''2024-01-02'' ''D'') (num 1)"
    by (simp_all add: coverage_codes_def sample_rule_def sample_version_def cell_count_def sample_assignment_def)
  then show ?thesis
    unfolding coverage_per_cell[OF p(1) sample_window p(2-4)]
    using sample_dates unfolding dr_select by blast
qed

lemma weekday_limit_every_term_witness:
  "checkWeekdayFteLimit (sample_rule ''WeekdayFteLimit'' [(''weekday'', Str ''mon''), (''fteFraction'', Num (num 1))])
     [jan1] (sample_version [jan1]) \<noteq> []"
proof -
  let ?r = "sample_rule ''WeekdayFteLimit'' [(''weekday'', Str ''mon''), (''fteFraction'', Num (num 1))]"
  have p: "candidateFacts (sample_version [jan1]) = Some sample_facts"
    "get (c_params ?r) ''weekday'' = Str ''mon''" "get (c_params ?r) ''fteFraction'' = Num (num 1)" "''mon'' \<noteq> ''holiday''"
    by (simp_all add: sample_version_def sample_rule_def)
  have "weekday_count [jan1] ''m'' ''mon'' = 1"
    "num 0 \<in> set (weekday_terms (num 1) n (weekdayTarget sample_facts ''m'' ''mon''))" for n
    by (simp_all add: weekday_count_def sample_assignment_def sample_dates weekday_terms_def sample_facts_def)
  moreover have "\<not> js_le (num (int 1)) (num 0)" by simp
  ultimately show ?thesis
    unfolding weekday_limit_every_term[OF p sample_window] by (metis zero_less_one)
qed

lemma no_adjacent_symmetric_witness:
  "checkNoAdjacent (sample_rule ''NoAdjacent'' [(''shiftTypeA'', Str ''D''), (''shiftTypeB'', Str ''D'')]) [jan1, jan2] \<noteq> []"
proof -
  have p: "get (c_params (sample_rule ''NoAdjacent'' [(''shiftTypeA'', Str ''D''), (''shiftTypeB'', Str ''D'')])) ''shiftTypeA'' = Str ''D''"
    "get (c_params (sample_rule ''NoAdjacent'' [(''shiftTypeA'', Str ''D''), (''shiftTypeB'', Str ''D'')])) ''shiftTypeB'' = Str ''D''"
    by (simp_all add: sample_rule_def)
  have "works [jan1, jan2] ''m'' 19723 ''D''" "works [jan1, jan2] ''m'' (19723 + 1) ''D''"
    using works_jan by simp_all
  then show ?thesis unfolding no_adjacent_symmetric[OF p] by blast
qed

lemma forbidden_sequence_exact_witness:
  "checkForbiddenSequence (sample_rule ''ForbiddenSequence'' [(''sequence'', Arr [Str ''D'', Str ''D''])]) [jan1, jan2] \<noteq> []"
proof -
  have p: "get (c_params (sample_rule ''ForbiddenSequence'' [(''sequence'', Arr [Str ''D'', Str ''D''])])) ''sequence'' =
      Arr (map Str [''D'', ''D''])" "[''D'', ''D''] \<noteq> []"
    by (simp_all add: sample_rule_def)
  have "works [jan1, jan2] ''m'' 19723 ''D''" "works [jan1, jan2] ''m'' 19724 ''D''"
    using works_jan by simp_all
  then have "\<forall>i < length [''D'', ''D'']. works [jan1, jan2] ''m'' (19723 + int i) ([''D'', ''D''] ! i)"
    by (auto simp: less_Suc_eq)
  then show ?thesis unfolding forbidden_sequence_exact[OF p] by blast
qed

lemma linkage_per_member_and_date_witness:
  "checkLinkage (sample_rule ''ImpliesAssignment'' [(''ifShiftType'', Str ''D''), (''thenShiftType'', Str ''N'')])
     [jan1] Implies \<noteq> []"
proof -
  have p: "linkage_names Implies (sample_rule ''ImpliesAssignment'' [(''ifShiftType'', Str ''D''), (''thenShiftType'', Str ''N'')]) =
      Inr [''D'', ''N'']" "[''D'', ''N''] \<noteq> []" "distinct [''D'', ''N'']"
    by (simp_all add: sample_rule_def)
  have "\<not> linked Implies [''D'', ''N''] (codes_worked [jan1] ''m'' ''2024-01-01'')"
    by (simp add: codes_worked_jan1)
  then show ?thesis unfolding linkage_per_member_and_date[OF p] by blast
qed

lemma pattern_rule_exact_witness:
  "checkPatternRule (sample_rule ''PatternRule'' [(''trigger'', Str ''D''), (''daysOfWeek'', Arr [Str ''mon'']),
     (''segments'', Arr [Obj [(''offsetDays'', Num (num 1)), (''shiftType'', Str ''N'')]])]) [jan1] (sample_version [jan1]) \<noteq> Inr []"
proof -
  let ?s = "\<lparr>offsetDays = num 1, seg_shiftType = ''N''\<rparr>"
  let ?r = "sample_rule ''PatternRule'' [(''trigger'', Str ''D''), (''daysOfWeek'', Arr [Str ''mon'']),
     (''segments'', Arr [Obj [(''offsetDays'', Num (num 1)), (''shiftType'', Str ''N'')]])]"
  have p: "candidateFacts (sample_version [jan1]) = Some sample_facts" "get (c_params ?r) ''trigger'' = Str ''D''"
    "get (c_params ?r) ''daysOfWeek'' = Arr (map Str [''mon''])" "''holiday'' \<notin> set [''mon'']"
    "get (c_params ?r) ''segments'' = segments_json [?s]" "\<forall>s \<in> set [?s]. whole (- 366) 366 (offsetDays s)"
    "calendar_dates [jan1]"
    by (simp_all add: sample_version_def sample_rule_def segments_json_def segment_members_def calendar_dates_def
        sample_assignment_def sample_dates)
  have "\<not> pattern_met [jan1] (horizon sample_facts) [?s] jan1"
    by (simp add: pattern_met_def sample_assignment_def sample_dates sample_facts_def codes_worked_jan1[unfolded sample_assignment_def] Let_def)
  then show ?thesis unfolding pattern_rule_exact[OF p] by (simp add: sample_assignment_def sample_dates)
qed

lemma alternating_week_exact_witness:
  "checkAlternatingWeek (sample_rule ''AlternatingWeek'' [(''onShiftType'', Str ''D''), (''cycleWeeks'', Num (num 2))])
     [jan1, jan2] (sample_version [jan1, jan2]) = []"
proof -
  let ?r = "sample_rule ''AlternatingWeek'' [(''onShiftType'', Str ''D''), (''cycleWeeks'', Num (num 2))]"
  have p: "candidateFacts (sample_version [jan1, jan2]) = Some sample_facts"
    "get (c_params ?r) ''onShiftType'' = Str ''D''" "get (c_params ?r) ''cycleWeeks'' = Num (num 2)"
    "(1::int) \<le> 2" "(2::int) \<le> 260" "calendar_dates [jan1, jan2]"
    by (simp_all add: sample_version_def sample_rule_def calendar_dates_def sample_assignment_def sample_dates)
  show ?thesis
    unfolding alternating_week_exact[OF p(1) sample_window p(2-6)]
    by (auto simp: sample_assignment_def week_of_def sample_dates)
qed

lemma fixed_inputs_preserved_witness:
  "checkFixedAssignment (sample_rule ''FixedAssignment'' [(''from'', Str ''2024-01-01''), (''to'', Str ''2024-01-01''),
     (''assignmentIdentity'', Str ''p'')]) (sample_version [jan1]) \<noteq> []"
proof -
  let ?r = "sample_rule ''FixedAssignment'' [(''from'', Str ''2024-01-01''), (''to'', Str ''2024-01-01''),
     (''assignmentIdentity'', Str ''p'')]"
  let ?p = "\<lparr>p_assignmentIdentityId = ''p'', p_membershipId = ''m'', p_date = ''2024-01-01'',
        p_shiftTypeCode = ''D'', p_isPinned = True\<rparr>"
  have p: "candidateFacts (sample_version [jan1]) = Some sample_facts"
    "distinct (map assignmentIdentityId (assignments (sample_version [jan1])))"
    "get (c_params ?r) ''from'' = Str ''2024-01-01''" "get (c_params ?r) ''to'' = Str ''2024-01-01''"
    "get (c_params ?r) ''assignmentIdentity'' = Str ''p''" "?p \<in> set (priorAssignments sample_facts)"
    "p_assignmentIdentityId ?p = ''p''" "distinct (map p_assignmentIdentityId (priorAssignments sample_facts))"
    by (simp_all add: sample_version_def sample_rule_def sample_facts_def)
  have "\<not> preserved (sample_version [jan1]) ?p" by (simp add: preserved_def sample_version_def sample_assignment_def)
  then show ?thesis using fixed_inputs_preserved[OF p] by blast
qed

lemma eligibility_per_assignment_witness:
  "checkValidGroupRestriction (sample_rule ''ValidGroupRestriction'' [(''qualification'', Str ''q''), (''date'', Str ''2024-01-01''),
     (''staffGroup'', Str ''g''), (''validGroup'', Str ''v''), (''allowedPickPositions'', Arr [])])
     [jan1\<lparr>pickPosition := Some None\<rparr>] (sample_version [jan1]) \<noteq> []"
proof -
  let ?r = "sample_rule ''ValidGroupRestriction'' [(''qualification'', Str ''q''), (''date'', Str ''2024-01-01''),
     (''staffGroup'', Str ''g''), (''validGroup'', Str ''v''), (''allowedPickPositions'', Arr [])]"
  have p: "candidateFacts (sample_version [jan1]) = Some sample_facts"
    "get (c_params ?r) ''qualification'' = Str ''q''"
    "''q'' \<in> set (knownQualificationKeys (qualifications (sample_version [jan1])))"
    "get (c_params ?r) ''date'' = Str ''2024-01-01''" "get (c_params ?r) ''staffGroup'' = Str ''g''"
    "staffGroupMembers sample_facts ''g'' = Some [''m'']" "get (c_params ?r) ''validGroup'' = Str ''v''"
    "validGroupShiftTypes sample_facts ''v'' = Some [''N'']"
    "get (c_params ?r) ''allowedPickPositions'' = Arr (map Num [])"
    "\<forall>a \<in> set [jan1\<lparr>pickPosition := Some None\<rparr>]. pickPosition a \<noteq> None"
    by (simp_all add: sample_version_def sample_rule_def sample_facts_def)
  show ?thesis using eligibility_per_assignment[OF p] by (simp add: sample_assignment_def)
qed

end
