(* ===== verification/HardRuleEntry.thy ===== *)
theory HardRuleEntry
  imports HardRuleCoverage
begin

text \<open>
  \<open>evaluateHardRules\<close> as a gate: it passes exactly the versions on which every constraint rule is resolved and
  clean, it refuses what it cannot evaluate, its output is bounded, it does not depend on the order of the
  rules, and on rules the validator accepts it neither throws nor finds a parameter unusable.
\<close>

section \<open>One rule\<close>

text \<open>A constraint rule that the version satisfies: a kind with declared semantics, a scope of known names,
  and a check that returns and reports nothing.\<close>
definition satisfied :: "CheckedVersion \<Rightarrow> CompiledRule \<Rightarrow> bool" where
  "satisfied version rule \<longleftrightarrow>
     isEvaluatedHardRuleKind (c_kind rule) \<and> scopeUnresolvable rule version = None \<and>
     check_kind rule (scopedAssignments rule (assignments version) version) version = Inr []"

lemma capped_Nil: "capped rule fs = [] \<longleftrightarrow> fs = []"
  by (auto simp: capped_def)

lemma capped_length: "length (capped rule fs) \<le> Suc maxFindingsPerRule"
  by (simp add: capped_def)

lemma rule_findings_Nil:
  "rule_findings version rule = Inr [] \<longleftrightarrow> (c_role rule = ''constraint'' \<longrightarrow> satisfied version rule)"
  by (auto simp: rule_findings_def satisfied_def capped_Nil split: option.splits sum.splits)

lemma rule_findings_length: "rule_findings version rule = Inr fs \<Longrightarrow> length fs \<le> Suc maxFindingsPerRule"
  by (auto simp: rule_findings_def capped_length split: option.splits sum.splits if_splits)

section \<open>The gate\<close>

lemma collect_length: "(\<And>x ys. f x = Inr ys \<Longrightarrow> length ys \<le> n) \<Longrightarrow> collect f xs = Inr zs \<Longrightarrow> length zs \<le> n * length xs"
proof (induction xs arbitrary: zs)
  case (Cons x xs)
  then obtain ys zs' where "f x = Inr ys" "collect f xs = Inr zs'" "zs = ys @ zs'"
    by (auto split: sum.splits)
  then show ?case using Cons by fastforce
qed simp

text \<open>C25: publication is let through exactly when every constraint rule is satisfied: a rule whose kind has
  no declared semantics, or whose scope names something unknown, blocks it just as a breach does, and a
  rule that is not a constraint never does.\<close>
theorem publication_gate:
  assumes "evaluateHardRules compiled version = Inr findings"
  shows "blocksPublication findings \<longleftrightarrow>
    (\<exists>rule \<in> set compiled. c_role rule = ''constraint'' \<and> \<not> satisfied version rule)"
proof -
  have "evaluateHardRules compiled version = Inr [] \<longleftrightarrow>
      (\<forall>rule \<in> set compiled. c_role rule = ''constraint'' \<longrightarrow> satisfied version rule)"
    by (simp add: evaluateHardRules_def collect_Inr_Nil_iff rule_findings_Nil)
  then show ?thesis using assms by (auto simp: blocksPublication_def)
qed

text \<open>The checker lists at most 100 findings of a rule and one line saying that it stopped there.\<close>
theorem findings_bounded:
  assumes "evaluateHardRules compiled version = Inr findings"
  shows "length findings \<le> 101 * length compiled"
proof -
  have "length findings \<le> Suc maxFindingsPerRule * length (sort_key c_ruleKey compiled)"
    using assms unfolding evaluateHardRules_def
    by (rule collect_length[of "rule_findings version", rotated]) (rule rule_findings_length)
  then show ?thesis by (simp add: maxFindingsPerRule_def)
qed

text \<open>With distinct rule keys the order in which the rules are given does not matter, not even for
  the order of the findings.\<close>
theorem rule_order_irrelevant:
  assumes "mset compiled = mset compiled'" "distinct (map c_ruleKey compiled)"
  shows "evaluateHardRules compiled version = evaluateHardRules compiled' version"
proof -
  have "inj_on c_ruleKey (set compiled)" using assms(2) by (simp add: distinct_map)
  then have "sort_key c_ruleKey compiled = sort_key c_ruleKey compiled'"
    using assms(1) by (intro sort_key_inj_key_eq) simp_all
  then show ?thesis by (simp only: evaluateHardRules_def)
qed

section \<open>Rules the validator accepts\<close>

text \<open>The complaint that a compiled parameter is not usable.\<close>
definition param_complaint :: "HardRuleFinding \<Rightarrow> bool" where
  "param_complaint f \<longleftrightarrow> (case f_explanation f of Text t \<Rightarrow> take 12 t = ''the compiled'' | _ \<Rightarrow> False)"

lemma param_complaint_simps [simp]:
  "param_complaint (notEvaluable rule (Text t)) \<longleftrightarrow> take 12 t = ''the compiled''"
  "param_complaint (breach rule fd e) \<longleftrightarrow> (case e of Text t \<Rightarrow> take 12 t = ''the compiled'' | _ \<Rightarrow> False)"
  "(\<forall>t. e \<noteq> Text t) \<Longrightarrow> \<not> param_complaint (notEvaluable rule e)"
  by (simp_all add: param_complaint_def notEvaluable_def breach_def split: explanation.split)

lemma missing_facts_no_complaint [simp]: "\<not> param_complaint (notEvaluable rule MISSING_CANDIDATE_FACTS)"
  by (simp add: MISSING_CANDIDATE_FACTS_def)

lemma run_loop_reports: "f \<in> set (run_loop rep limit p s r ds) \<Longrightarrow> \<exists>a b. f = rep a b"
proof (induction ds arbitrary: p s r)
  case (Cons d ds)
  then show ?case by (auto simp: run_loop.simps(2) Let_def split: if_splits)
qed simp

text \<open>A well-formed node leaves every check with usable parameters.\<close>
definition uncomplaining :: "HardRuleFinding list result \<Rightarrow> bool" where
  "uncomplaining r \<longleftrightarrow> (\<exists>fs. r = Inr fs \<and> (\<forall>f \<in> set fs. \<not> param_complaint f))"

lemma uncomplaining_Inr [simp]: "uncomplaining (Inr fs) \<longleftrightarrow> (\<forall>f \<in> set fs. \<not> param_complaint f)"
  by (auto simp: uncomplaining_def)

lemma collect_uncomplaining:
  "(\<And>x. x \<in> set xs \<Longrightarrow> uncomplaining (f x)) \<Longrightarrow> uncomplaining (collect f xs)"
proof (induction xs)
  case (Cons x xs)
  have "uncomplaining (f x)" "uncomplaining (collect f xs)" using Cons by simp_all
  then show ?case by (auto simp: uncomplaining_def)
qed simp

lemma pattern_uncomplaining:
  assumes "c_params rule = node_members (PatternRule t ds ss)" "node_wf (PatternRule t ds ss)" "calendar_dates scoped"
  shows "uncomplaining (checkPatternRule rule scoped version)"
proof (cases "candidateFacts version")
  case (Some facts)
  have seg: "uncomplaining (segment_findings rule facts m held tr a (Obj (segment_members s)))"
    if "s \<in> set ss" "a \<in> set scoped" for s a m held tr
  proof -
    have "whole (- 366) 366 (offsetDays s)" using assms(2) that(1) by (auto simp: list_all_iff)
    then obtain k where k: "offsetDays s = num k" "\<bar>k\<bar> \<le> 366" by (auto simp: whole_iff)
    have "isCalendarDate (date a)" using assms(3) that(2) by (simp add: calendar_dates_def)
    from segment_findings_num[OF k this] show ?thesis by (auto simp: Let_def)
  qed
  have p: "get (c_params rule) ''trigger'' = Str t" "get (c_params rule) ''daysOfWeek'' = Arr (map Str ds)"
    "get (c_params rule) ''segments'' = Arr (map (\<lambda>s. Obj (segment_members s)) ss)"
    using assms(1) by (simp_all add: get_def)
  have lst: "a \<in> set scoped" if "(m, lst) \<in> set (byMembership scoped)" "a \<in> set lst" for m lst a
    using that by (auto simp: byMembership_eq)
  show ?thesis
    unfolding checkPatternRule_def Some p option.case as_string.simps as_array.simps Let_def
    by (auto split: if_splits prod.splits intro!: collect_uncomplaining seg)
      (use lst in blast)
qed (simp add: checkPatternRule_def)

lemma get_Cons: "get ((k, v) # ms) j = (if k = j then v else get ms j)"
  by (simp add: get_def)

lemmas check_defs = checkRequiresQualification_def checkMinimumRestBetween_def checkMaxConsecutive_def
  checkMaxAssignmentsInWindow_def checkCallSpacing_def checkAvoidDate_def checkCoverage_def
  checkMemberOfStaffGroup_def checkValidGroupRestriction_def checkPickPositionRestriction_def
  checkWeekdayFteLimit_def checkNoAdjacent_def checkForbiddenSequence_def checkLinkage_def
  checkFixedAssignment_def checkProtectedRange_def preservedFinding_def checkAlternatingWeek_def

lemma check_kind_uncomplaining:
  assumes "c_kind rule = node_kind n" "c_params rule = node_members n" "node_wf n" "calendar_dates scoped"
  shows "uncomplaining (check_kind rule scoped version)"
proof (cases n)
  case (PatternRule t ds ss)
  then show ?thesis using pattern_uncomplaining[of rule t ds ss scoped version] assms
    by (simp add: check_kind_def)
next
  case (AlternatingWeek c w)
  then have "whole 1 260 w" using assms(3) by simp
  then obtain k where "w = num k" "1 \<le> k" by (auto simp: whole_iff)
  then show ?thesis using AlternatingWeek assms
    by (auto simp: check_kind_def check_defs get_Cons Let_def split: option.splits if_splits)
next
  case (RequiredCount c)
  then have "js_isFinite c" using assms(3) by (auto simp: whole_iff)
  then show ?thesis using RequiredCount assms
    by (auto simp: check_kind_def check_defs get_Cons Let_def exactBound_def numeric_param_def split: option.splits if_splits)
next
  case (MinCoverage c)
  then have "js_isFinite c" using assms(3) by (auto simp: whole_iff)
  then show ?thesis using MinCoverage assms
    by (auto simp: check_kind_def check_defs get_Cons Let_def minBound_def numeric_param_def split: option.splits if_splits)
next
  case (MaxCoverage c)
  then have "js_isFinite c" using assms(3) by (auto simp: whole_iff)
  then show ?thesis using MaxCoverage assms
    by (auto simp: check_kind_def check_defs get_Cons Let_def maxBound_def numeric_param_def split: option.splits if_splits)
qed (use assms in \<open>auto simp: check_kind_def check_defs get_Cons Let_def dest!: run_loop_reports
      split: option.splits if_splits\<close>)

lemma rule_findings_uncomplaining:
  assumes "rule_wf r" "calendar_dates (assignments version)"
  shows "uncomplaining (rule_findings version (compileRule r))"
proof -
  let ?c = "compileRule r"
  have c: "c_kind ?c = node_kind (predicate r)" "c_params ?c = node_members (predicate r)" "node_wf (predicate r)"
    using compileNode_params[of "predicate r"] assms(1)
    by (cases "compileNode (predicate r)"; simp add: compileRule_def rule_wf_def)+
  have "calendar_dates (scopedAssignments ?c (assignments version) version)"
    using assms(2) by (simp add: calendar_dates_def scopedAssignments_def)
  from check_kind_uncomplaining[OF c this, of version] obtain fs where
    "check_kind ?c (scopedAssignments ?c (assignments version) version) version = Inr fs" "\<forall>f \<in> set fs. \<not> param_complaint f"
    by (auto simp: uncomplaining_def)
  moreover have "\<forall>f \<in> set (capped ?c fs). \<not> param_complaint f" if "\<forall>f \<in> set fs. \<not> param_complaint f" for fs
    using that by (auto simp: capped_def dest: in_set_takeD)
  moreover have "scopeUnresolvable ?c version = Some e \<Longrightarrow> \<forall>t. e \<noteq> Text t" for e
    by (auto simp: scopeUnresolvable_def Let_def split: if_splits option.splits)
  ultimately show ?thesis
    by (auto simp: rule_findings_def notEvaluableReason_def split: option.split)
qed

text \<open>C26: on rules the validator accepts and assignments whose dates are real dates, the compiled rules are
  evaluated without an error and no finding says that a compiled parameter is unusable: validator, compiler
  and checker agree on what a parameter is.\<close>
theorem valid_rules_evaluate:
  assumes "\<forall>r \<in> set rules. isValidRule r \<and> surplus r = no_surplus"
    and "calendar_dates (assignments version)"
  shows "\<exists>findings. evaluateHardRules (elements (compileRuleSet rules v)) version = Inr findings \<and>
    (\<forall>f \<in> set findings. \<not> param_complaint f)"
proof -
  have "uncomplaining (rule_findings version c)" if "c \<in> set (sort_key c_ruleKey (map compileRule rules))" for c
    using that assms rule_findings_uncomplaining validator_accepts_wf by auto
  then show ?thesis
    using collect_uncomplaining[of "sort_key c_ruleKey (map compileRule rules)" "rule_findings version"]
    by (simp only: evaluateHardRules_def uncomplaining_def compileRuleSet_def CompiledRuleSet.simps)
qed

section \<open>Concrete instances\<close>

definition rest_rule :: "string \<Rightarrow> int \<Rightarrow> Rule" where
  "rest_rule k h =
     \<lparr>ruleKey = k, rule_name = ''Rest'', ruleSchemaVersion = 1, classification = ''HARD'', weight = None,
      rscope = \<lparr>dateRange = None, shiftTypes = None, staffGroups = None, memberships = None\<rparr>,
      predicate = MinimumRestBetween (num h), surplus = no_surplus\<rparr>"

lemma rest_rule_valid: "isValidRule (rest_rule ''r'' 11)"
  by (subst validator_accepts_wf)
    (simp_all add: rest_rule_def rule_wf_def weight_wf_def scope_wf_def isNonEmptyString_def trim_def js_space_def
      is_lower_def or_empty_def)

lemma sample_evaluates:
  "evaluateHardRules [sample_rule ''RequestHonoured'' []] (sample_version []) =
     Inr [notEvaluable (sample_rule ''RequestHonoured'' []) (NotEvaluableReason ''RequestHonoured'')]"
  by (simp add: evaluateHardRules_def rule_findings_def sample_rule_def isEvaluatedHardRuleKind_def
      EVALUATED_HARD_RULE_KINDS_def notEvaluableReason_def NOT_EVALUABLE_REASONS_def)

lemma publication_gate_witness:
  "blocksPublication [notEvaluable (sample_rule ''RequestHonoured'' []) (NotEvaluableReason ''RequestHonoured'')]"
  unfolding publication_gate[OF sample_evaluates]
  by (simp add: satisfied_def sample_rule_def isEvaluatedHardRuleKind_def EVALUATED_HARD_RULE_KINDS_def)

lemma findings_bounded_witness:
  "length [notEvaluable (sample_rule ''RequestHonoured'' []) (NotEvaluableReason ''RequestHonoured'')] \<le> 101 * length [sample_rule ''RequestHonoured'' []]"
  by (rule findings_bounded[OF sample_evaluates])

lemma rule_order_irrelevant_witness:
  "evaluateHardRules [compileRule (rest_rule ''b'' 11), compileRule (rest_rule ''a'' 12)] (sample_version []) =
   evaluateHardRules [compileRule (rest_rule ''a'' 12), compileRule (rest_rule ''b'' 11)] (sample_version [])"
  by (rule rule_order_irrelevant) (simp_all add: rest_rule_def compileRule_def)

lemma valid_rules_evaluate_witness:
  "\<exists>findings. evaluateHardRules (elements (compileRuleSet [rest_rule ''r'' 11] 1)) (sample_version [jan1, jan2]) = Inr findings \<and>
    (\<forall>f \<in> set findings. \<not> param_complaint f)"
  using rest_rule_valid
  by (intro valid_rules_evaluate)
    (simp_all add: rest_rule_def sample_version_def calendar_dates_def sample_assignment_def sample_dates)

end
