(* ===== verification/RequestStatus.thy ===== *)
theory RequestStatus
  imports Prelude
begin

text \<open>
  \<open>packages/domain/src/requests/subtypes.ts\<close> and \<open>transitions.ts\<close>: the request subtypes, the statuses, the
  status domain of each subtype, and the matrix of legal status transitions. A string-literal union is a
  datatype with one constructor per literal; \<open>subtype_name\<close>, \<open>status_name\<close> and \<open>selection_name\<close> give the
  literals back, because the matrix is looked up by a key joined from them.
\<close>

section \<open>Vocabulary\<close>

datatype RequestSubtype = Availability | TimeOff | NoCall | ShiftPref | ShiftGroupOff | VacationSel

datatype RequestStatus =
    Draft | Submitted | UnderReview | AcceptedAsInput | Approved | Denied | Withdrawn | ConsumedByBuild
  | ReflectedInVersion | Unsatisfied | Reversed | Expired | SupersededByRevision

datatype VacationSelectionStatus =
    SAvailable | SPending | SApproved | SCommitted | SDenied | SWithdrawn | SExpired | SReversed

fun subtype_name :: "RequestSubtype \<Rightarrow> string" where
  "subtype_name Availability = ''availability''"
| "subtype_name TimeOff = ''time-off''"
| "subtype_name NoCall = ''no-call''"
| "subtype_name ShiftPref = ''shift-preference''"
| "subtype_name ShiftGroupOff = ''shift-group-off''"
| "subtype_name VacationSel = ''vacation-selection''"

fun status_name :: "RequestStatus \<Rightarrow> string" where
  "status_name Draft = ''draft''"
| "status_name Submitted = ''submitted''"
| "status_name UnderReview = ''under_review''"
| "status_name AcceptedAsInput = ''accepted_as_input''"
| "status_name Approved = ''approved''"
| "status_name Denied = ''denied''"
| "status_name Withdrawn = ''withdrawn''"
| "status_name ConsumedByBuild = ''consumed_by_build''"
| "status_name ReflectedInVersion = ''reflected_in_version''"
| "status_name Unsatisfied = ''unsatisfied''"
| "status_name Reversed = ''reversed''"
| "status_name Expired = ''expired''"
| "status_name SupersededByRevision = ''superseded_by_revision''"

fun selection_name :: "VacationSelectionStatus \<Rightarrow> string" where
  "selection_name SAvailable = ''available''"
| "selection_name SPending = ''pending''"
| "selection_name SApproved = ''approved''"
| "selection_name SCommitted = ''committed''"
| "selection_name SDenied = ''denied''"
| "selection_name SWithdrawn = ''withdrawn''"
| "selection_name SExpired = ''expired''"
| "selection_name SReversed = ''reversed''"

definition REQUEST_SUBTYPES :: "RequestSubtype list" where
  "REQUEST_SUBTYPES = [Availability, TimeOff, NoCall, ShiftPref, ShiftGroupOff, VacationSel]"

definition REQUEST_STATUSES :: "RequestStatus list" where
  "REQUEST_STATUSES =
     [Draft, Submitted, UnderReview, AcceptedAsInput, Approved, Denied, Withdrawn, ConsumedByBuild,
      ReflectedInVersion, Unsatisfied, Reversed, Expired, SupersededByRevision]"

definition VACATION_SELECTION_STATUSES :: "VacationSelectionStatus list" where
  "VACATION_SELECTION_STATUSES =
     [SAvailable, SPending, SApproved, SCommitted, SDenied, SWithdrawn, SExpired, SReversed]"

fun REQUEST_STATUSES_BY_SUBTYPE :: "RequestSubtype \<Rightarrow> RequestStatus list" where
  "REQUEST_STATUSES_BY_SUBTYPE Availability =
     [Draft, Submitted, UnderReview, AcceptedAsInput, Approved, Denied, Withdrawn, ConsumedByBuild,
      ReflectedInVersion, Expired, SupersededByRevision]"
| "REQUEST_STATUSES_BY_SUBTYPE TimeOff =
     [Draft, Submitted, UnderReview, Approved, Denied, Withdrawn, ConsumedByBuild, ReflectedInVersion,
      Expired, SupersededByRevision]"
| "REQUEST_STATUSES_BY_SUBTYPE NoCall =
     [Draft, Submitted, UnderReview, Approved, Denied, Withdrawn, ConsumedByBuild, ReflectedInVersion,
      Expired, SupersededByRevision]"
| "REQUEST_STATUSES_BY_SUBTYPE ShiftPref =
     [Draft, Submitted, AcceptedAsInput, Withdrawn, ConsumedByBuild, ReflectedInVersion, Unsatisfied, Expired]"
| "REQUEST_STATUSES_BY_SUBTYPE ShiftGroupOff =
     [Draft, Submitted, UnderReview, Approved, Denied, Withdrawn, ConsumedByBuild, ReflectedInVersion,
      Expired, SupersededByRevision]"
| "REQUEST_STATUSES_BY_SUBTYPE VacationSel =
     [Draft, Submitted, UnderReview, Approved, Denied, Withdrawn, ReflectedInVersion, Reversed, Expired,
      SupersededByRevision]"

definition statusIsInSubtypeDomain :: "RequestSubtype \<Rightarrow> RequestStatus \<Rightarrow> bool" where
  "statusIsInSubtypeDomain subtype status \<longleftrightarrow> status \<in> set (REQUEST_STATUSES_BY_SUBTYPE subtype)"

definition EXPIRY_SOURCE_STATUSES :: "RequestStatus list" where
  "EXPIRY_SOURCE_STATUSES = [Submitted, UnderReview, AcceptedAsInput]"

fun VACATION_STATUS_TO_REQUEST_STATUS :: "VacationSelectionStatus \<Rightarrow> RequestStatus option" where
  "VACATION_STATUS_TO_REQUEST_STATUS SAvailable = None"
| "VACATION_STATUS_TO_REQUEST_STATUS SPending = Some Submitted"
| "VACATION_STATUS_TO_REQUEST_STATUS SApproved = Some Approved"
| "VACATION_STATUS_TO_REQUEST_STATUS SCommitted = Some ReflectedInVersion"
| "VACATION_STATUS_TO_REQUEST_STATUS SDenied = Some Denied"
| "VACATION_STATUS_TO_REQUEST_STATUS SWithdrawn = Some Withdrawn"
| "VACATION_STATUS_TO_REQUEST_STATUS SExpired = Some Expired"
| "VACATION_STATUS_TO_REQUEST_STATUS SReversed = Some Reversed"

definition derivedRequestStatus :: "VacationSelectionStatus \<Rightarrow> RequestStatus option" where
  "derivedRequestStatus status = VACATION_STATUS_TO_REQUEST_STATUS status"

datatype RequestPreferenceStrength = LowStrength | MediumStrength | HighStrength
datatype VacationPeriodMode = QuotaMode | OpenMode
datatype VacationPeriodState = PeriodDraft | PeriodOpen | PeriodClosed | PeriodArchived

section \<open>The transition matrix\<close>

definition REVIEWED_SUBTYPES :: "RequestSubtype list" where
  "REVIEWED_SUBTYPES = [Availability, TimeOff, NoCall, ShiftGroupOff, VacationSel]"

definition ACCEPTED_AS_INPUT_SUBTYPES :: "RequestSubtype list" where
  "ACCEPTED_AS_INPUT_SUBTYPES = [Availability, ShiftPref]"

definition BUILD_CONSUMED_SUBTYPES :: "RequestSubtype list" where
  "BUILD_CONSUMED_SUBTYPES = [Availability, TimeOff, NoCall, ShiftPref, ShiftGroupOff]"

record RequestTransition =
  edge_from :: RequestStatus
  edge_to :: RequestStatus
  edge_subtypes :: "RequestSubtype list"

definition REQUEST_TRANSITIONS :: "RequestTransition list" where
  "REQUEST_TRANSITIONS =
     [\<lparr>edge_from = Draft, edge_to = Submitted, edge_subtypes = REQUEST_SUBTYPES\<rparr>,
      \<lparr>edge_from = Submitted, edge_to = UnderReview, edge_subtypes = REVIEWED_SUBTYPES\<rparr>,
      \<lparr>edge_from = Submitted, edge_to = AcceptedAsInput, edge_subtypes = ACCEPTED_AS_INPUT_SUBTYPES\<rparr>,
      \<lparr>edge_from = UnderReview, edge_to = Approved, edge_subtypes = REVIEWED_SUBTYPES\<rparr>,
      \<lparr>edge_from = UnderReview, edge_to = Denied, edge_subtypes = REVIEWED_SUBTYPES\<rparr>,
      \<lparr>edge_from = Submitted, edge_to = Withdrawn, edge_subtypes = REQUEST_SUBTYPES\<rparr>,
      \<lparr>edge_from = UnderReview, edge_to = Withdrawn, edge_subtypes = REVIEWED_SUBTYPES\<rparr>,
      \<lparr>edge_from = Approved, edge_to = Withdrawn, edge_subtypes = REVIEWED_SUBTYPES\<rparr>,
      \<lparr>edge_from = AcceptedAsInput, edge_to = Withdrawn, edge_subtypes = ACCEPTED_AS_INPUT_SUBTYPES\<rparr>,
      \<lparr>edge_from = Approved, edge_to = ConsumedByBuild,
        edge_subtypes = [Availability, TimeOff, NoCall, ShiftGroupOff]\<rparr>,
      \<lparr>edge_from = AcceptedAsInput, edge_to = ConsumedByBuild, edge_subtypes = [ShiftPref]\<rparr>,
      \<lparr>edge_from = ConsumedByBuild, edge_to = ReflectedInVersion, edge_subtypes = BUILD_CONSUMED_SUBTYPES\<rparr>,
      \<lparr>edge_from = Approved, edge_to = ReflectedInVersion, edge_subtypes = [VacationSel]\<rparr>,
      \<lparr>edge_from = ConsumedByBuild, edge_to = Unsatisfied, edge_subtypes = [ShiftPref]\<rparr>,
      \<lparr>edge_from = ReflectedInVersion, edge_to = Reversed, edge_subtypes = [VacationSel]\<rparr>,
      \<lparr>edge_from = ReflectedInVersion, edge_to = Withdrawn,
        edge_subtypes = [Availability, TimeOff, NoCall, ShiftPref, ShiftGroupOff]\<rparr>,
      \<lparr>edge_from = Submitted, edge_to = Expired, edge_subtypes = REQUEST_SUBTYPES\<rparr>,
      \<lparr>edge_from = UnderReview, edge_to = Expired, edge_subtypes = REQUEST_SUBTYPES\<rparr>,
      \<lparr>edge_from = AcceptedAsInput, edge_to = Expired, edge_subtypes = REQUEST_SUBTYPES\<rparr>,
      \<lparr>edge_from = Approved, edge_to = SupersededByRevision, edge_subtypes = REVIEWED_SUBTYPES\<rparr>]"

text \<open>The template \<open>`${subtype}|${from}|${to}`\<close>.\<close>
definition edge_key :: "RequestSubtype \<Rightarrow> RequestStatus \<Rightarrow> RequestStatus \<Rightarrow> string" where
  "edge_key subtype f t = subtype_name subtype @ CHR ''|'' # status_name f @ CHR ''|'' # status_name t"

definition EDGES :: "string list" where
  "EDGES = concat (map (\<lambda>e. map (\<lambda>s. edge_key s (edge_from e) (edge_to e)) (edge_subtypes e)) REQUEST_TRANSITIONS)"

definition transitionIsLegal :: "RequestSubtype \<Rightarrow> RequestStatus \<Rightarrow> RequestStatus \<Rightarrow> bool" where
  "transitionIsLegal subtype f t \<longleftrightarrow> edge_key subtype f t \<in> set EDGES"

definition legalTransitionsFrom :: "RequestSubtype \<Rightarrow> RequestStatus \<Rightarrow> RequestStatus list" where
  "legalTransitionsFrom subtype f =
     map edge_to (filter (\<lambda>e. edge_from e = f \<and> subtype \<in> set (edge_subtypes e)) REQUEST_TRANSITIONS)"

fun INITIAL_REQUEST_STATUS_BY_SUBTYPE :: "RequestSubtype \<Rightarrow> RequestStatus" where
  "INITIAL_REQUEST_STATUS_BY_SUBTYPE Availability = Draft"
| "INITIAL_REQUEST_STATUS_BY_SUBTYPE TimeOff = Draft"
| "INITIAL_REQUEST_STATUS_BY_SUBTYPE NoCall = Draft"
| "INITIAL_REQUEST_STATUS_BY_SUBTYPE ShiftPref = Draft"
| "INITIAL_REQUEST_STATUS_BY_SUBTYPE ShiftGroupOff = Draft"
| "INITIAL_REQUEST_STATUS_BY_SUBTYPE VacationSel = Submitted"

definition initialRequestStatus :: "RequestSubtype \<Rightarrow> RequestStatus" where
  "initialRequestStatus subtype = INITIAL_REQUEST_STATUS_BY_SUBTYPE subtype"

definition isLegalInitialStatus :: "RequestSubtype \<Rightarrow> RequestStatus \<Rightarrow> bool" where
  "isLegalInitialStatus subtype status \<longleftrightarrow> INITIAL_REQUEST_STATUS_BY_SUBTYPE subtype = status"

section \<open>The keys identify the edges\<close>

lemma name_no_bar: "CHR ''|'' \<notin> set (subtype_name s)" "CHR ''|'' \<notin> set (status_name f)"
  "CHR ''|'' \<notin> set (selection_name v)"
  by ((cases s; simp), (cases f; simp), (cases v; simp))

lemma subtype_name_inj: "subtype_name s = subtype_name s' \<longleftrightarrow> s = s'"
  by (cases s; cases s'; simp)

lemma status_name_inj: "status_name f = status_name f' \<longleftrightarrow> f = f'"
  by (cases f; cases f'; simp)

lemma selection_name_inj: "selection_name f = selection_name f' \<longleftrightarrow> f = f'"
  by (cases f; cases f'; simp)

lemma edge_key_inj: "edge_key s f t = edge_key s' f' t' \<longleftrightarrow> s = s' \<and> f = f' \<and> t = t'"
  by (simp add: edge_key_def append_sep name_no_bar subtype_name_inj status_name_inj)

lemma transition_successor [code]: "transitionIsLegal s f t \<longleftrightarrow> t \<in> set (legalTransitionsFrom s f)"
  by (auto simp: transitionIsLegal_def EDGES_def legalTransitionsFrom_def edge_key_inj)

section \<open>Finite checks\<close>

text \<open>A statement about all subtypes or statuses is a computation over the two lists.\<close>

lemma all_subtypes: "s \<in> set REQUEST_SUBTYPES"
  by (cases s) (simp_all add: REQUEST_SUBTYPES_def)

lemma all_statuses: "f \<in> set REQUEST_STATUSES"
  by (cases f) (simp_all add: REQUEST_STATUSES_def)

lemma all_selection_statuses: "v \<in> set VACATION_SELECTION_STATUSES"
  by (cases v) (simp_all add: VACATION_SELECTION_STATUSES_def)

lemma subtype_status_cases:
  "list_all (\<lambda>s. list_all (P s) REQUEST_STATUSES) REQUEST_SUBTYPES \<Longrightarrow> P s f"
  using all_subtypes[of s] all_statuses[of f] by (auto simp: list_all_iff)

lemma selection_cases: "list_all P VACATION_SELECTION_STATUSES \<Longrightarrow> P v"
  using all_selection_statuses[of v] by (auto simp: list_all_iff)

end
