(* ===== verification/RequestLifecycle.thy ===== *)
theory RequestLifecycle
  imports RequestStatus
begin

text \<open>
  \<open>packages/domain/src/requests/lifecycle.ts\<close>: the operations on a request, the verdict on each from every
  status, and the status path an allowed operation walks; with \<open>decisions.ts\<close> and \<open>solver-projection.ts\<close>,
  which say what a decision must state and which requests reach the solver. The lifecycle as a state
  machine: its reachable statuses, its termination, and the soundness of every verdict.
\<close>

section \<open>Operations and verdicts\<close>

datatype RequestOperation = Submit | Withdraw | Expire | Approve | Deny | ReverseDecision | Commit | Reverse

datatype RequestRefusalReason =
  StatusNotInSubtypeDomain | OperationNotLegalFromStatus | OperationNotAvailableForSubtype

datatype OperationVerdict = Allowed RequestStatus | Refused RequestRefusalReason

fun allowed :: "OperationVerdict \<Rightarrow> bool" where
  "allowed (Allowed _) = True"
| "allowed (Refused _) = False"

definition REQUEST_OPERATIONS :: "RequestOperation list" where
  "REQUEST_OPERATIONS = [Submit, Withdraw, Expire, Approve, Deny, ReverseDecision, Commit, Reverse]"

definition submitVerdict :: "RequestSubtype \<Rightarrow> RequestStatus \<Rightarrow> OperationVerdict" where
  "submitVerdict subtype f =
     (if subtype = VacationSel then Refused OperationNotAvailableForSubtype
      else if f \<noteq> Draft then Refused OperationNotLegalFromStatus
      else Allowed Submitted)"

definition withdrawVerdict :: "RequestSubtype \<Rightarrow> RequestStatus \<Rightarrow> OperationVerdict" where
  "withdrawVerdict subtype f =
     (if subtype = VacationSel then Refused OperationNotAvailableForSubtype
      else if \<not> transitionIsLegal subtype f Withdrawn then Refused OperationNotLegalFromStatus
      else Allowed Withdrawn)"

definition expireVerdict :: "RequestSubtype \<Rightarrow> RequestStatus \<Rightarrow> OperationVerdict" where
  "expireVerdict subtype f =
     (if \<not> transitionIsLegal subtype f Expired then Refused OperationNotLegalFromStatus else Allowed Expired)"

definition DECIDABLE_SUBTYPES :: "RequestSubtype list" where
  "DECIDABLE_SUBTYPES = filter (\<lambda>s. s \<noteq> VacationSel) REVIEWED_SUBTYPES"

definition DECIDABLE_FROM_STATUSES :: "RequestStatus list" where
  "DECIDABLE_FROM_STATUSES = [Submitted, UnderReview]"

definition decisionStatusPath ::
  "RequestSubtype \<Rightarrow> RequestStatus \<Rightarrow> RequestStatus \<Rightarrow> RequestStatus list option" where
  "decisionStatusPath subtype f t =
     (if transitionIsLegal subtype f t then Some [t]
      else if transitionIsLegal subtype f UnderReview \<and> transitionIsLegal subtype UnderReview t
      then Some [UnderReview, t]
      else None)"

definition decisionVerdict :: "RequestSubtype \<Rightarrow> RequestStatus \<Rightarrow> RequestStatus \<Rightarrow> OperationVerdict" where
  "decisionVerdict subtype f t =
     (if subtype \<notin> set DECIDABLE_SUBTYPES then Refused OperationNotAvailableForSubtype
      else if decisionStatusPath subtype f t = None then Refused OperationNotLegalFromStatus
      else Allowed t)"

definition approveVerdict :: "RequestSubtype \<Rightarrow> RequestStatus \<Rightarrow> OperationVerdict" where
  "approveVerdict subtype f = decisionVerdict subtype f Approved"

definition denyVerdict :: "RequestSubtype \<Rightarrow> RequestStatus \<Rightarrow> OperationVerdict" where
  "denyVerdict subtype f = decisionVerdict subtype f Denied"

definition reverseDecisionVerdict :: "RequestSubtype \<Rightarrow> RequestStatus \<Rightarrow> OperationVerdict" where
  "reverseDecisionVerdict subtype f =
     (if subtype \<notin> set DECIDABLE_SUBTYPES then Refused OperationNotAvailableForSubtype
      else if f \<noteq> Approved then Refused OperationNotLegalFromStatus
      else if \<not> transitionIsLegal subtype f SupersededByRevision then Refused OperationNotLegalFromStatus
      else Allowed SupersededByRevision)"

definition commitVerdict :: "RequestSubtype \<Rightarrow> RequestStatus \<Rightarrow> OperationVerdict" where
  "commitVerdict subtype f =
     (if subtype \<noteq> VacationSel then Refused OperationNotAvailableForSubtype
      else if \<not> transitionIsLegal subtype f ReflectedInVersion then Refused OperationNotLegalFromStatus
      else Allowed ReflectedInVersion)"

definition reverseVerdict :: "RequestSubtype \<Rightarrow> RequestStatus \<Rightarrow> OperationVerdict" where
  "reverseVerdict subtype f =
     (if subtype \<noteq> VacationSel then Refused OperationNotAvailableForSubtype
      else if \<not> transitionIsLegal subtype f Reversed then Refused OperationNotLegalFromStatus
      else Allowed Reversed)"

definition operationVerdict :: "RequestSubtype \<Rightarrow> RequestStatus \<Rightarrow> RequestOperation \<Rightarrow> OperationVerdict" where
  "operationVerdict subtype status operation =
     (if status \<notin> set (REQUEST_STATUSES_BY_SUBTYPE subtype) then Refused StatusNotInSubtypeDomain
      else (case operation of
          Submit \<Rightarrow> submitVerdict subtype status
        | Withdraw \<Rightarrow> withdrawVerdict subtype status
        | Expire \<Rightarrow> expireVerdict subtype status
        | Approve \<Rightarrow> approveVerdict subtype status
        | Deny \<Rightarrow> denyVerdict subtype status
        | ReverseDecision \<Rightarrow> reverseDecisionVerdict subtype status
        | Commit \<Rightarrow> commitVerdict subtype status
        | Reverse \<Rightarrow> reverseVerdict subtype status))"

definition operationStatusPath ::
  "RequestSubtype \<Rightarrow> RequestStatus \<Rightarrow> RequestOperation \<Rightarrow> RequestStatus list option" where
  "operationStatusPath subtype f operation =
     (case operationVerdict subtype f operation of
        Refused _ \<Rightarrow> None
      | Allowed t \<Rightarrow>
          if operation = Approve \<or> operation = Deny then decisionStatusPath subtype f t else Some [t])"

definition operationIsLegal :: "RequestSubtype \<Rightarrow> RequestStatus \<Rightarrow> RequestOperation \<Rightarrow> bool" where
  "operationIsLegal subtype status operation \<longleftrightarrow> allowed (operationVerdict subtype status operation)"

definition withdrawalRequiresRevision :: "RequestStatus \<Rightarrow> bool" where
  "withdrawalRequiresRevision f \<longleftrightarrow> f = ReflectedInVersion"

section \<open>What reaches the solver\<close>

datatype RequestProjectionKind = HardOff | HardOn | SoftPreference | GroupOff

fun PROJECTION_RULE :: "RequestSubtype \<Rightarrow> RequestProjectionKind \<times> RequestStatus list" where
  "PROJECTION_RULE TimeOff = (HardOff, [Approved, ConsumedByBuild, ReflectedInVersion])"
| "PROJECTION_RULE NoCall = (HardOff, [Approved, ConsumedByBuild, ReflectedInVersion])"
| "PROJECTION_RULE VacationSel = (HardOff, [ReflectedInVersion])"
| "PROJECTION_RULE Availability = (HardOn, [Approved, ReflectedInVersion])"
| "PROJECTION_RULE ShiftPref = (SoftPreference, [AcceptedAsInput, ReflectedInVersion])"
| "PROJECTION_RULE ShiftGroupOff = (GroupOff, [Approved, ReflectedInVersion])"

definition PROJECTION_EXCLUDED_STATUSES :: "RequestStatus list" where
  "PROJECTION_EXCLUDED_STATUSES =
     [Draft, Submitted, Denied, Withdrawn, Expired, Unsatisfied, Reversed, UnderReview, SupersededByRevision]"

definition projectionDisposition :: "RequestSubtype \<Rightarrow> RequestStatus \<Rightarrow> RequestProjectionKind option" where
  "projectionDisposition subtype status =
     (if status \<in> set (snd (PROJECTION_RULE subtype)) then Some (fst (PROJECTION_RULE subtype)) else None)"

definition entersProjection :: "RequestSubtype \<Rightarrow> RequestStatus \<Rightarrow> bool" where
  "entersProjection subtype status \<longleftrightarrow> projectionDisposition subtype status \<noteq> None"

text \<open>\<open>Object.values(PROJECTION_RULE).some(...)\<close>\<close>
definition PROJECTED_STATUSES :: "RequestStatus list" where
  "PROJECTED_STATUSES =
     filter (\<lambda>status. list_ex (\<lambda>s. status \<in> set (snd (PROJECTION_RULE s)))
       [TimeOff, NoCall, VacationSel, Availability, ShiftPref, ShiftGroupOff]) REQUEST_STATUSES"

fun SOFT_PREFERENCE_WEIGHTS :: "RequestPreferenceStrength \<Rightarrow> int" where
  "SOFT_PREFERENCE_WEIGHTS LowStrength = 1"
| "SOFT_PREFERENCE_WEIGHTS MediumStrength = 2"
| "SOFT_PREFERENCE_WEIGHTS HighStrength = 4"

definition softPreferenceWeight :: "RequestPreferenceStrength \<Rightarrow> int" where
  "softPreferenceWeight strength = SOFT_PREFERENCE_WEIGHTS strength"

section \<open>The machine\<close>

inductive reachable_status :: "RequestSubtype \<Rightarrow> RequestStatus \<Rightarrow> bool" for s where
  born: "isLegalInitialStatus s f \<Longrightarrow> reachable_status s f"
| moved: "reachable_status s f \<Longrightarrow> transitionIsLegal s f t \<Longrightarrow> reachable_status s t"

text \<open>\<open>walk s f path\<close>: every hop of the path, started in \<open>f\<close>, is a cell of the matrix.\<close>
fun legal_path :: "RequestSubtype \<Rightarrow> RequestStatus \<Rightarrow> RequestStatus list \<Rightarrow> bool" where
  "legal_path s f [] \<longleftrightarrow> True"
| "legal_path s f (t # path) \<longleftrightarrow> transitionIsLegal s f t \<and> legal_path s t path"

text \<open>The statuses a request of the subtype can ever have.\<close>
definition live_domain :: "RequestSubtype \<Rightarrow> RequestStatus list" where
  "live_domain s = filter (\<lambda>f. \<not> (s = VacationSel \<and> f = Draft)) (REQUEST_STATUSES_BY_SUBTYPE s)"

lemma domain_closed:
  "f \<in> set (live_domain s) \<longrightarrow> list_all (\<lambda>t. t \<in> set (live_domain s)) (legalTransitionsFrom s f)"
  by (rule subtype_status_cases[of "\<lambda>s f. f \<in> set (live_domain s) \<longrightarrow>
        list_all (\<lambda>t. t \<in> set (live_domain s)) (legalTransitionsFrom s f)"]) code_simp

lemma reachable_in_domain: "reachable_status s f \<Longrightarrow> f \<in> set (live_domain s)"
proof (induction rule: reachable_status.induct)
  case (born f)
  then show ?case by (cases s) (auto simp: isLegalInitialStatus_def live_domain_def)
next
  case (moved f t)
  then show ?case using domain_closed[of f s] by (auto simp: transition_successor list_all_iff)
qed

lemma path_reachable: "reachable_status s f \<Longrightarrow> legal_path s f path \<Longrightarrow> reachable_status s (last (f # path))"
proof (induction path arbitrary: f)
  case (Cons t path)
  then have "reachable_status s t" by (auto intro: moved)
  then show ?case using Cons by auto
qed simp

text \<open>A path from birth to every status of the live domain.\<close>
definition approved_route :: "RequestStatus list" where
  "approved_route = [UnderReview, Approved]"

definition consumed_route :: "RequestSubtype \<Rightarrow> RequestStatus list" where
  "consumed_route s = (if s = ShiftPref then [AcceptedAsInput] else approved_route) @ [ConsumedByBuild]"

fun route :: "RequestSubtype \<Rightarrow> RequestStatus \<Rightarrow> RequestStatus list" where
  "route s Draft = []"
| "route s Submitted = []"
| "route s Approved = approved_route"
| "route s Denied = [UnderReview, Denied]"
| "route s ConsumedByBuild =
     consumed_route s"
| "route s ReflectedInVersion =
     (if s = VacationSel then approved_route else consumed_route s) @ [ReflectedInVersion]"
| "route s Unsatisfied = [AcceptedAsInput, ConsumedByBuild, Unsatisfied]"
| "route s Reversed = approved_route @ [ReflectedInVersion, Reversed]"
| "route s SupersededByRevision = approved_route @ [SupersededByRevision]"
| "route s f = [f]"

definition full_route :: "RequestSubtype \<Rightarrow> RequestStatus \<Rightarrow> RequestStatus list" where
  "full_route s f = (if s = VacationSel \<or> f = Draft then route s f else Submitted # route s f)"

lemma full_routes:
  "f \<in> set (live_domain s) \<longrightarrow>
     legal_path s (initialRequestStatus s) (full_route s f) \<and> last (initialRequestStatus s # full_route s f) = f"
  by (rule subtype_status_cases[of "\<lambda>s f. f \<in> set (live_domain s) \<longrightarrow>
        legal_path s (initialRequestStatus s) (full_route s f) \<and> last (initialRequestStatus s # full_route s f) = f"])
    code_simp

text \<open>C34: the statuses a request can reach through the matrix, from the status it is born with, are exactly
  those of its subtype's declared domain; a vacation selection alone never visits \<open>draft\<close>, which its domain
  lists.\<close>
theorem reachable_statuses:
  "reachable_status s f \<longleftrightarrow> statusIsInSubtypeDomain s f \<and> \<not> (s = VacationSel \<and> f = Draft)"
proof -
  have "reachable_status s f" if "f \<in> set (live_domain s)"
  proof -
    have "reachable_status s (initialRequestStatus s)"
      by (rule born) (simp add: initialRequestStatus_def isLegalInitialStatus_def)
    then show ?thesis using path_reachable full_routes[of f s] that by metis
  qed
  then have "reachable_status s f \<longleftrightarrow> f \<in> set (live_domain s)" using reachable_in_domain by blast
  then show ?thesis by (auto simp: live_domain_def statusIsInSubtypeDomain_def)
qed

section \<open>Termination\<close>

fun stage :: "RequestStatus \<Rightarrow> nat" where
  "stage Draft = 0"
| "stage Submitted = 1"
| "stage UnderReview = 2"
| "stage AcceptedAsInput = 2"
| "stage Approved = 3"
| "stage ConsumedByBuild = 4"
| "stage ReflectedInVersion = 5"
| "stage _ = 6"

lemma stage_bound: "stage f \<le> 6"
  by (cases f) simp_all

lemma stage_rises: "transitionIsLegal s f t \<Longrightarrow> stage f < stage t"
proof -
  have "list_all (\<lambda>t. stage f < stage t) (legalTransitionsFrom s f)"
    by (rule subtype_status_cases[of "\<lambda>s f. list_all (\<lambda>t. stage f < stage t) (legalTransitionsFrom s f)"]) code_simp
  then show "transitionIsLegal s f t \<Longrightarrow> stage f < stage t" by (simp add: transition_successor list_all_iff)
qed

lemma legal_path_stages: "legal_path s f path \<Longrightarrow> sorted_wrt (<) (map stage (f # path))"
proof (induction path arbitrary: f)
  case (Cons t path)
  then have "stage f < stage t" "sorted_wrt (<) (map stage (t # path))" using stage_rises by auto
  then show ?case by (auto dest: order.strict_trans)
qed simp

lemma strict_nat_length: "sorted_wrt (<) (n # ns) \<Longrightarrow> n + length ns \<le> last (n # ns)" for n :: nat
proof (induction ns arbitrary: n)
  case (Cons m ns)
  then have "m + length ns \<le> last (m # ns)" "n < m" by auto
  then show ?case by simp
qed simp

text \<open>C32: the lifecycle ends: from any status at most six transitions follow one another, and none of them
  returns to a status already left.\<close>
theorem lifecycle_terminates:
  assumes "legal_path s f path"
  shows "length path \<le> 6 - stage f \<and> distinct (f # path)"
proof -
  have srt: "sorted_wrt (<) (stage f # map stage path)" using legal_path_stages[OF assms] by simp
  have "last (stage f # map stage path) = stage (last (f # path))" by (simp add: last_map)
  then have "stage f + length path \<le> 6"
    using strict_nat_length[OF srt] stage_bound[of "last (f # path)"] by simp
  moreover have "distinct (map stage (f # path))" using srt strict_sorted_imp_sorted strict_sorted_iff by auto
  ultimately show ?thesis using distinct_map by auto
qed

lemma lifecycle_terminates_witness:
  "distinct (Draft # [Submitted, UnderReview, Approved, ConsumedByBuild, ReflectedInVersion, Withdrawn]) \<and>
   length [Submitted, UnderReview, Approved, ConsumedByBuild, ReflectedInVersion, Withdrawn] \<le> 6"
proof -
  have "legal_path TimeOff Draft [Submitted, UnderReview, Approved, ConsumedByBuild, ReflectedInVersion, Withdrawn]"
    by code_simp
  from lifecycle_terminates[OF this] show ?thesis by simp
qed

section \<open>Verdicts\<close>

text \<open>What each operation asks, as a specification.\<close>
fun operation_allowed :: "RequestSubtype \<Rightarrow> RequestStatus \<Rightarrow> RequestOperation \<Rightarrow> bool" where
  "operation_allowed s f Submit \<longleftrightarrow> s \<noteq> VacationSel \<and> f = Draft"
| "operation_allowed s f Withdraw \<longleftrightarrow> s \<noteq> VacationSel \<and> statusIsInSubtypeDomain s f \<and>
     f \<in> set [Submitted, UnderReview, AcceptedAsInput, Approved, ReflectedInVersion]"
| "operation_allowed s f Expire \<longleftrightarrow> statusIsInSubtypeDomain s f \<and> f \<in> set EXPIRY_SOURCE_STATUSES"
| "operation_allowed s f Approve \<longleftrightarrow> s \<in> set DECIDABLE_SUBTYPES \<and> f \<in> set DECIDABLE_FROM_STATUSES"
| "operation_allowed s f Deny \<longleftrightarrow> s \<in> set DECIDABLE_SUBTYPES \<and> f \<in> set DECIDABLE_FROM_STATUSES"
| "operation_allowed s f ReverseDecision \<longleftrightarrow> s \<in> set DECIDABLE_SUBTYPES \<and> f = Approved"
| "operation_allowed s f Commit \<longleftrightarrow> s = VacationSel \<and> f = Approved"
| "operation_allowed s f Reverse \<longleftrightarrow> s = VacationSel \<and> f = ReflectedInVersion"

text \<open>What an allowed operation does: a non-empty legal path inside the subtype's domain to the verdict's target.\<close>
definition sound_path :: "RequestSubtype \<Rightarrow> RequestStatus \<Rightarrow> RequestOperation \<Rightarrow> bool" where
  "sound_path s f p \<longleftrightarrow>
     (case operationStatusPath s f p of
        None \<Rightarrow> \<not> operationIsLegal s f p
      | Some path \<Rightarrow> path \<noteq> [] \<and> legal_path s f path \<and> list_all (statusIsInSubtypeDomain s) path \<and>
          operationVerdict s f p = Allowed (last path))"

lemma operation_check:
  "list_all (\<lambda>p. (operationIsLegal s f p \<longleftrightarrow> operation_allowed s f p) \<and> sound_path s f p) REQUEST_OPERATIONS"
  by (rule subtype_status_cases[of "\<lambda>s f. list_all (\<lambda>p. (operationIsLegal s f p \<longleftrightarrow> operation_allowed s f p) \<and>
        sound_path s f p) REQUEST_OPERATIONS"]) code_simp

lemma all_operations: "p \<in> set REQUEST_OPERATIONS"
  by (cases p) (simp_all add: REQUEST_OPERATIONS_def)

text \<open>C33: an operation is allowed exactly where its specification says; an allowed operation walks a non-empty
  path of legal transitions within the subtype's domain that ends where the verdict says, and an operation
  with no such path is refused.\<close>
theorem operations_sound_and_complete:
  "(operationIsLegal s f p \<longleftrightarrow> operation_allowed s f p) \<and> sound_path s f p"
  using operation_check[of s f] all_operations[of p] by (auto simp: list_all_iff)

section \<open>Projection\<close>

text \<open>Only a request whose status its subtype admits reaches the solver, every status is either projected
  for some subtype or listed as excluded and never both, and from a status that is excluded without being
  undecided the matrix leads nowhere that is projected.\<close>
theorem projection_partition:
  "(entersProjection s f \<longrightarrow> statusIsInSubtypeDomain s f) \<and>
   (f \<in> set PROJECTED_STATUSES \<longleftrightarrow> f \<notin> set PROJECTION_EXCLUDED_STATUSES) \<and>
   (entersProjection s f \<longrightarrow> f \<in> set PROJECTED_STATUSES) \<and>
   (f \<in> set PROJECTION_EXCLUDED_STATUSES \<and> f \<notin> set [Draft, Submitted, UnderReview] \<longrightarrow>
      legalTransitionsFrom s f = [])"
  by (rule subtype_status_cases[of "\<lambda>s f. (entersProjection s f \<longrightarrow> statusIsInSubtypeDomain s f) \<and>
   (f \<in> set PROJECTED_STATUSES \<longleftrightarrow> f \<notin> set PROJECTION_EXCLUDED_STATUSES) \<and>
   (entersProjection s f \<longrightarrow> f \<in> set PROJECTED_STATUSES) \<and>
   (f \<in> set PROJECTION_EXCLUDED_STATUSES \<and> f \<notin> set [Draft, Submitted, UnderReview] \<longrightarrow>
      legalTransitionsFrom s f = [])"]) code_simp

lemma projection_partition_witness:
  "statusIsInSubtypeDomain TimeOff Approved \<and> legalTransitionsFrom TimeOff Denied = []"
  using projection_partition[of TimeOff Approved] projection_partition[of TimeOff Denied]
  by (simp add: entersProjection_def projectionDisposition_def PROJECTION_EXCLUDED_STATUSES_def)

end
