(* ===== verification/Deadlines.thy ===== *)
theory Deadlines
  imports CalendarDate
begin

text \<open>
  \<open>packages/domain/src/requests/deadlines.ts\<close>: the deadline a group's policy gives, rolled off non-working
  days, and the classification of a submission against it. Every function that reaches \<open>addDays\<close> or
  \<open>dayOfWeek\<close> can throw their error. The rolling loop is proved to stop on the nearest working day.
\<close>

datatype DeadlineRoll = Forward | Backward | ExactRoll
datatype LateSubmissionPolicy = RejectLate | AcceptAsLate
datatype RequestUntilPolicy = UntilClosed | UntilFixedDate string | UntilDaysBefore int

record GroupDeadlinePolicy =
  requestUntil :: RequestUntilPolicy
  deadlineRolls :: DeadlineRoll
  lateSubmission :: LateSubmissionPolicy

definition SATURDAY :: int where "SATURDAY = 6"
definition SUNDAY :: int where "SUNDAY = 0"
definition MAX_ROLL_STEPS :: nat where "MAX_ROLL_STEPS = 366"

definition isNonWorkingDay :: "string \<Rightarrow> string list \<Rightarrow> bool result" where
  "isNonWorkingDay d holidays =
     (if d \<in> set holidays then Inr True
      else (case dayOfWeek d of Inl e \<Rightarrow> Inl e | Inr day \<Rightarrow> Inr (day = SATURDAY \<or> day = SUNDAY)))"

fun roll_loop :: "string \<Rightarrow> int \<Rightarrow> string list \<Rightarrow> nat \<Rightarrow> string \<Rightarrow> string result" where
  "roll_loop d step holidays 0 candidate = Inr d"
| "roll_loop d step holidays (Suc n) candidate =
     (case isNonWorkingDay candidate holidays of
        Inl e \<Rightarrow> Inl e
      | Inr off \<Rightarrow>
          if \<not> off then Inr candidate
          else (case addDays candidate step of Inl e \<Rightarrow> Inl e | Inr c \<Rightarrow> roll_loop d step holidays n c))"

definition roll_step :: "DeadlineRoll \<Rightarrow> int" where
  "roll_step roll = (if roll = Forward then 1 else - 1)"

definition rollDeadline :: "string \<Rightarrow> DeadlineRoll \<Rightarrow> string list \<Rightarrow> string result" where
  "rollDeadline d roll holidays =
     (if roll = ExactRoll then Inr d else roll_loop d (roll_step roll) holidays MAX_ROLL_STEPS d)"

fun exhausted_loop :: "int \<Rightarrow> string list \<Rightarrow> nat \<Rightarrow> string \<Rightarrow> bool result" where
  "exhausted_loop step holidays 0 candidate = Inr True"
| "exhausted_loop step holidays (Suc n) candidate =
     (case isNonWorkingDay candidate holidays of
        Inl e \<Rightarrow> Inl e
      | Inr off \<Rightarrow>
          if \<not> off then Inr False
          else (case addDays candidate step of Inl e \<Rightarrow> Inl e | Inr c \<Rightarrow> exhausted_loop step holidays n c))"

definition deadlineRollExhausted :: "string \<Rightarrow> DeadlineRoll \<Rightarrow> string list \<Rightarrow> bool result" where
  "deadlineRollExhausted d roll holidays =
     (if roll = ExactRoll then Inr False else exhausted_loop (roll_step roll) holidays MAX_ROLL_STEPS d)"

datatype EffectiveDeadline = DeadlineClosed | DeadlineDated string string bool

definition nominalDeadline :: "RequestUntilPolicy \<Rightarrow> string option \<Rightarrow> string option result" where
  "nominalDeadline policy periodStart =
     (case policy of
        UntilClosed \<Rightarrow> Inr None
      | UntilFixedDate d \<Rightarrow> Inr (Some d)
      | UntilDaysBefore leadDays \<Rightarrow>
          (case periodStart of
             None \<Rightarrow> Inr None
           | Some start \<Rightarrow> (case addDays start (- leadDays) of Inl e \<Rightarrow> Inl e | Inr d \<Rightarrow> Inr (Some d))))"

definition effectiveDeadline ::
  "GroupDeadlinePolicy \<Rightarrow> string list \<Rightarrow> string option \<Rightarrow> EffectiveDeadline result" where
  "effectiveDeadline policy holidays periodStart =
     (case nominalDeadline (requestUntil policy) periodStart of
        Inl e \<Rightarrow> Inl e
      | Inr None \<Rightarrow> Inr DeadlineClosed
      | Inr (Some nominal) \<Rightarrow>
          (case rollDeadline nominal (deadlineRolls policy) holidays of
             Inl e \<Rightarrow> Inl e
           | Inr effective \<Rightarrow> Inr (DeadlineDated nominal effective (effective \<noteq> nominal))))"

datatype SubmissionTiming = OnTime string | LateAccepted string | LateRejected string | WindowClosed

definition classifySubmission ::
  "GroupDeadlinePolicy \<Rightarrow> string list \<Rightarrow> string option \<Rightarrow> string \<Rightarrow> SubmissionTiming result" where
  "classifySubmission policy holidays periodStart on =
     (case effectiveDeadline policy holidays periodStart of
        Inl e \<Rightarrow> Inl e
      | Inr DeadlineClosed \<Rightarrow> Inr WindowClosed
      | Inr (DeadlineDated _ effective _) \<Rightarrow> Inr
          (if on \<le> effective then OnTime effective
           else if lateSubmission policy = AcceptAsLate then LateAccepted effective
           else LateRejected effective))"

definition deadlineBindsInStatus :: "string \<Rightarrow> bool" where
  "deadlineBindsInStatus status \<longleftrightarrow>
     status = ''submitted'' \<or> status = ''under_review'' \<or> status = ''accepted_as_input''"

section \<open>The nearest working day\<close>

text \<open>Day number \<open>n\<close> is neither a weekend day nor a holiday.\<close>
definition working :: "string list \<Rightarrow> int \<Rightarrow> bool" where
  "working holidays n \<longleftrightarrow> dateFromEpochDays n \<notin> set holidays \<and> (n + 4) mod 7 \<noteq> 0 \<and> (n + 4) mod 7 \<noteq> 6"

lemma non_working_day:
  assumes "daysFromEpoch d = Inr n"
  shows "isNonWorkingDay d holidays = Inr (\<not> working holidays n)"
proof -
  have "d = dateFromEpochDays n" using assms by (simp add: days_bij)
  moreover have "dayOfWeek d = Inr ((n + 4) mod 7)" using assms by (simp add: dayOfWeek_def js_rem_7)
  ultimately show ?thesis
    by (simp add: isNonWorkingDay_def working_def SATURDAY_def SUNDAY_def) blast
qed

lemma add_step:
  assumes "daysFromEpoch d = Inr n" "first_day \<le> n + k" "n + k \<le> last_day"
  shows "addDays d k = Inr (dateFromEpochDays (n + k)) \<and> daysFromEpoch (dateFromEpochDays (n + k)) = Inr (n + k)"
  using assms(2,3) by (simp add: addDays_def assms(1)) (simp add: days_bij)

text \<open>The day the loop stops on, as the first hit among the steps \<open>0 .. N - 1\<close>.\<close>
lemma roll_loop_first:
  assumes "daysFromEpoch c = Inr n" "\<forall>i < N. first_day \<le> n + step * int (Suc i) \<and> n + step * int (Suc i) \<le> last_day"
  shows "roll_loop d step holidays N c = Inr
    (case find (\<lambda>i. working holidays (n + step * int i)) [0..<N] of
       None \<Rightarrow> d | Some i \<Rightarrow> dateFromEpochDays (n + step * int i))"
  using assms
proof (induction N arbitrary: c n)
  case (Suc N)
  show ?case
  proof (cases "working holidays n")
    case True
    then show ?thesis using Suc.prems(1) non_working_day[OF Suc.prems(1)]
      by (simp add: upt_conv_Cons days_bij del: upt_Suc)
  next
    case False
    have r: "first_day \<le> n + step" "n + step \<le> last_day" using Suc.prems(2) by (auto dest: spec[of _ 0])
    note c' = add_step[OF Suc.prems(1) r]
    have "\<forall>i < N. first_day \<le> n + step + step * int (Suc i) \<and> n + step + step * int (Suc i) \<le> last_day"
    proof (intro allI impI)
      fix i assume "i < N"
      then have "first_day \<le> n + step * int (Suc (Suc i)) \<and> n + step * int (Suc (Suc i)) \<le> last_day"
        using \<open>i < N\<close> by (intro Suc.prems(2)[rule_format]) simp
      then show "first_day \<le> n + step + step * int (Suc i) \<and> n + step + step * int (Suc i) \<le> last_day"
        by (simp add: algebra_simps)
    qed
    from Suc.IH[OF conjunct2[OF c'] this] have
      "roll_loop d step holidays N (dateFromEpochDays (n + step)) = Inr
        (case find (\<lambda>i. working holidays (n + step + step * int i)) [0..<N] of
           None \<Rightarrow> d | Some i \<Rightarrow> dateFromEpochDays (n + step + step * int i))" .
    moreover have "find (\<lambda>i. working holidays (n + step * int i)) [Suc 0..<Suc N] =
        map_option Suc (find (\<lambda>i. working holidays (n + step + step * int i)) [0..<N])"
    proof -
      have "find P (map Suc xs) = map_option Suc (find (P \<circ> Suc) xs)" for P xs by (induction xs) auto
      then show ?thesis by (simp add: map_Suc_upt[symmetric] comp_def algebra_simps del: upt_Suc map_Suc_upt)
    qed
    ultimately show ?thesis using False non_working_day[OF Suc.prems(1)] c'
      by (simp add: upt_conv_Cons algebra_simps split: option.splits del: upt_Suc)
  qed
qed simp

lemma exhausted_loop_none:
  assumes "daysFromEpoch c = Inr n" "\<forall>i < N. first_day \<le> n + step * int (Suc i) \<and> n + step * int (Suc i) \<le> last_day"
  shows "exhausted_loop step holidays N c = Inr (\<forall>i < N. \<not> working holidays (n + step * int i))"
  using assms
proof (induction N arbitrary: c n)
  case (Suc N)
  have split: "(\<forall>i < Suc N. \<not> working holidays (n + step * int i)) \<longleftrightarrow>
      \<not> working holidays n \<and> (\<forall>i < N. \<not> working holidays (n + step + step * int i))"
    by (auto simp: less_Suc_eq_0_disj algebra_simps)
  have r: "first_day \<le> n + step" "n + step \<le> last_day" using Suc.prems(2) by (auto dest: spec[of _ 0])
  note c' = add_step[OF Suc.prems(1) r]
  have "\<forall>i < N. first_day \<le> n + step + step * int (Suc i) \<and> n + step + step * int (Suc i) \<le> last_day"
  proof (intro allI impI)
    fix i assume "i < N"
    then have "first_day \<le> n + step * int (Suc (Suc i)) \<and> n + step * int (Suc (Suc i)) \<le> last_day"
      using \<open>i < N\<close> by (intro Suc.prems(2)[rule_format]) simp
    then show "first_day \<le> n + step + step * int (Suc i) \<and> n + step + step * int (Suc i) \<le> last_day"
      by (simp add: algebra_simps)
  qed
  from Suc.IH[OF conjunct2[OF c'] this] show ?case
    unfolding split using non_working_day[OF Suc.prems(1)] c' by simp
qed simp

lemma find_upt_Some: "find P [0..<N] = Some i \<longleftrightarrow> i < N \<and> P i \<and> (\<forall>j < i. \<not> P j)"
  by (auto simp: find_Some_iff)

lemma find_upt_None: "find P [0..<N] = None \<longleftrightarrow> (\<forall>i < N. \<not> P i)"
  by (auto simp: find_None_iff)

text \<open>C37: rolling a deadline forward or backward returns: it gives the nearest day in that direction, the day
  itself included, that is neither a weekend day nor a holiday, when one is among the first 366; otherwise
  the day itself, and exactly then \<open>deadlineRollExhausted\<close> reports the failure.\<close>
theorem deadline_rolls_to_nearest_working_day:
  assumes "daysFromEpoch d = Inr n" "first_day + 366 \<le> n" "n + 366 \<le> last_day" "roll \<noteq> ExactRoll"
  shows "\<exists>r. rollDeadline d roll holidays = Inr r \<and>
    deadlineRollExhausted d roll holidays = Inr (\<forall>i < 366. \<not> working holidays (n + roll_step roll * int i)) \<and>
    ((\<exists>i < 366. r = dateFromEpochDays (n + roll_step roll * int i) \<and> working holidays (n + roll_step roll * int i) \<and>
        (\<forall>j < i. \<not> working holidays (n + roll_step roll * int j))) \<or>
     (r = d \<and> (\<forall>i < 366. \<not> working holidays (n + roll_step roll * int i))))"
proof -
  let ?s = "roll_step roll"
  let ?P = "\<lambda>i. working holidays (n + ?s * int i)"
  have s: "?s = 1 \<or> ?s = - 1" by (simp add: roll_step_def)
  have range: "\<forall>i < MAX_ROLL_STEPS. first_day \<le> n + ?s * int (Suc i) \<and> n + ?s * int (Suc i) \<le> last_day"
    using s assms(2,3) by (auto simp: MAX_ROLL_STEPS_def)
  note loop = roll_loop_first[OF assms(1) range, of d holidays]
  have ex: "deadlineRollExhausted d roll holidays = Inr (\<forall>i < 366. \<not> ?P i)"
    using assms(4) exhausted_loop_none[OF assms(1) range, of holidays]
    by (simp add: deadlineRollExhausted_def MAX_ROLL_STEPS_def)
  show ?thesis
  proof (cases "find ?P [0..<366]")
    case None
    then have "rollDeadline d roll holidays = Inr d" using loop assms(4)
      by (simp add: rollDeadline_def MAX_ROLL_STEPS_def del: upt_conv_Cons_Cons upt_Suc)
    moreover have "\<forall>i < 366. \<not> ?P i" using None unfolding find_upt_None .
    ultimately show ?thesis using ex by blast
  next
    case (Some i)
    then have "rollDeadline d roll holidays = Inr (dateFromEpochDays (n + ?s * int i))" using loop assms(4)
      by (simp add: rollDeadline_def MAX_ROLL_STEPS_def del: upt_conv_Cons_Cons upt_Suc)
    moreover have "i < 366 \<and> ?P i \<and> (\<forall>j < i. \<not> ?P j)" using Some unfolding find_upt_Some .
    ultimately show ?thesis using ex by blast
  qed
qed

lemma deadline_rolls_to_nearest_working_day_witness:
  "\<exists>i < 366. rollDeadline ''2024-06-01'' Forward [''2024-06-03''] = Inr (dateFromEpochDays (19875 + int i)) \<and>
     working [''2024-06-03''] (19875 + int i) \<and> (\<forall>j < i. \<not> working [''2024-06-03''] (19875 + int j))"
proof -
  have d: "daysFromEpoch ''2024-06-01'' = Inr 19875" by code_simp
  have "working [''2024-06-03''] (19875 + 1 * int 3)" by code_simp
  then have w: "\<not> (\<forall>i < 366. \<not> working [''2024-06-03''] (19875 + 1 * int i))"
  proof (intro notI)
    assume "working [''2024-06-03''] (19875 + 1 * int 3)" "\<forall>i < 366. \<not> working [''2024-06-03''] (19875 + 1 * int i)"
    moreover have "(3 :: nat) < 366" by simp
    ultimately show False by blast
  qed
  have st: "roll_step Forward = 1" by (simp add: roll_step_def)
  show ?thesis
    using deadline_rolls_to_nearest_working_day[OF d, of Forward "[''2024-06-03'']"] w
    unfolding st by (auto simp: first_day_def last_day_def)
qed

end
