(* ===== verification/VacationSelection.thy ===== *)
theory VacationSelection
  imports RequestLifecycle CalendarDate "HOL-Library.Multiset"
begin

text \<open>
  The vacation half of the request domain: \<open>vacation-selection.ts\<close> (the selection's own machine and the root
  status it derives), \<open>vacation-approval.ts\<close> (the grant counters) and \<open>vacation-commit.ts\<close>. The selection
  machine is proved to be a refinement of the request machine: each of its edges is a legal path of the root.
\<close>

section \<open>The selection machine\<close>

definition VACATION_SELECTION_TRANSITIONS :: "(VacationSelectionStatus \<times> VacationSelectionStatus) list" where
  "VACATION_SELECTION_TRANSITIONS =
     [(SAvailable, SPending), (SPending, SApproved), (SPending, SDenied), (SPending, SWithdrawn),
      (SPending, SExpired), (SApproved, SCommitted), (SApproved, SWithdrawn), (SCommitted, SReversed)]"

definition selection_key :: "VacationSelectionStatus \<Rightarrow> VacationSelectionStatus \<Rightarrow> string" where
  "selection_key f t = selection_name f @ CHR ''|'' # selection_name t"

definition SELECTION_EDGES :: "string list" where
  "SELECTION_EDGES = map (\<lambda>(f, t). selection_key f t) VACATION_SELECTION_TRANSITIONS"

definition selectionTransitionIsLegal :: "VacationSelectionStatus \<Rightarrow> VacationSelectionStatus \<Rightarrow> bool" where
  "selectionTransitionIsLegal f t \<longleftrightarrow> selection_key f t \<in> set SELECTION_EDGES"

definition selectionEdgeRootPath ::
  "VacationSelectionStatus \<Rightarrow> VacationSelectionStatus \<Rightarrow> RequestStatus list option" where
  "selectionEdgeRootPath f t =
     (if \<not> selectionTransitionIsLegal f t then None
      else (case VACATION_STATUS_TO_REQUEST_STATUS t of
          None \<Rightarrow> None
        | Some toRoot \<Rightarrow>
            (case VACATION_STATUS_TO_REQUEST_STATUS f of
               None \<Rightarrow> Some []
             | Some fromRoot \<Rightarrow>
                 if transitionIsLegal VacationSel fromRoot toRoot then Some [toRoot]
                 else if transitionIsLegal VacationSel fromRoot UnderReview \<and>
                         transitionIsLegal VacationSel UnderReview toRoot
                 then Some [UnderReview, toRoot]
                 else None)))"

datatype VacationSelectionOperation = SelSubmit | SelWithdraw | SelCommit | SelReverse

fun SELECTION_OPERATION_TARGET :: "VacationSelectionOperation \<Rightarrow> VacationSelectionStatus" where
  "SELECTION_OPERATION_TARGET SelSubmit = SPending"
| "SELECTION_OPERATION_TARGET SelWithdraw = SWithdrawn"
| "SELECTION_OPERATION_TARGET SelCommit = SCommitted"
| "SELECTION_OPERATION_TARGET SelReverse = SReversed"

text \<open>\<open>None\<close> is the refusal \<open>operation-not-legal-from-status\<close>, the only one there is.\<close>
definition selectionOperationVerdict ::
  "VacationSelectionStatus \<Rightarrow> VacationSelectionOperation \<Rightarrow> VacationSelectionStatus option" where
  "selectionOperationVerdict status operation =
     (let t = SELECTION_OPERATION_TARGET operation in
      if \<not> selectionTransitionIsLegal status t then None else Some t)"

definition selectionOperationIsLegal :: "VacationSelectionStatus \<Rightarrow> VacationSelectionOperation \<Rightarrow> bool" where
  "selectionOperationIsLegal status operation \<longleftrightarrow> selectionOperationVerdict status operation \<noteq> None"

fun result_map :: "('a \<Rightarrow> 'b result) \<Rightarrow> 'a list \<Rightarrow> 'b list result" where
  "result_map f [] = Inr []"
| "result_map f (x # xs) =
     (case f x of Inl e \<Rightarrow> Inl e
      | Inr y \<Rightarrow> (case result_map f xs of Inl e \<Rightarrow> Inl e | Inr ys \<Rightarrow> Inr (y # ys)))"

definition vacationWeekDates :: "string \<Rightarrow> string list result" where
  "vacationWeekDates weekStart = result_map (\<lambda>offset. addDays weekStart offset) [0, 1, 2, 3, 4]"

text \<open>The map from root statuses back, filled in the order of the entries; a later entry replaces.\<close>
definition REQUEST_STATUS_TO_VACATION_STATUS :: "(RequestStatus \<times> VacationSelectionStatus) list" where
  "REQUEST_STATUS_TO_VACATION_STATUS =
     rev (concat (map (\<lambda>s. case VACATION_STATUS_TO_REQUEST_STATUS s of None \<Rightarrow> [] | Some rt \<Rightarrow> [(rt, s)])
       VACATION_SELECTION_STATUSES))"

definition selectionStatusForRootStatus :: "RequestStatus \<Rightarrow> VacationSelectionStatus option" where
  "selectionStatusForRootStatus status = map_of REQUEST_STATUS_TO_VACATION_STATUS status"

definition vacationStatusPairAgrees :: "VacationSelectionStatus \<Rightarrow> RequestStatus option \<Rightarrow> bool" where
  "vacationStatusPairAgrees selectionStatus rootStatus \<longleftrightarrow>
     VACATION_STATUS_TO_REQUEST_STATUS selectionStatus = rootStatus"

record SelectionOrderKey =
  weekStart :: string
  submittedAt :: "int option"
  order_id :: string

definition compareSelectionsForDisplay :: "SelectionOrderKey \<Rightarrow> SelectionOrderKey \<Rightarrow> int" where
  "compareSelectionsForDisplay a b =
     (if weekStart a \<noteq> weekStart b then (if weekStart a < weekStart b then - 1 else 1)
      else if submittedAt a \<noteq> submittedAt b then
        (case (submittedAt a, submittedAt b) of
           (None, _) \<Rightarrow> 1
         | (_, None) \<Rightarrow> - 1
         | (Some x, Some y) \<Rightarrow> if x < y then - 1 else 1)
      else if order_id a = order_id b then 0
      else if order_id a < order_id b then - 1 else 1)"

text \<open>\<open>Array.prototype.sort\<close> with a consistent comparator is the stable sort of the elements by it.\<close>
fun insert_by :: "('a \<Rightarrow> 'a \<Rightarrow> int) \<Rightarrow> 'a \<Rightarrow> 'a list \<Rightarrow> 'a list" where
  "insert_by cmp x [] = [x]"
| "insert_by cmp x (y # ys) = (if cmp y x < 0 then y # insert_by cmp x ys else x # y # ys)"

definition sort_by :: "('a \<Rightarrow> 'a \<Rightarrow> int) \<Rightarrow> 'a list \<Rightarrow> 'a list" where
  "sort_by cmp xs = foldr (insert_by cmp) xs []"

definition orderSelectionsForDisplay :: "SelectionOrderKey list \<Rightarrow> SelectionOrderKey list" where
  "orderSelectionsForDisplay selections = sort_by compareSelectionsForDisplay selections"

section \<open>Grant counters\<close>

record GrantCounters =
  unitsTotal :: int
  unitsConsumed :: int
  overrideUnits :: int

definition grantBound :: "'a GrantCounters_scheme \<Rightarrow> int" where
  "grantBound counters = unitsTotal counters + overrideUnits counters"

definition grantHasHeadroom :: "'a GrantCounters_scheme \<Rightarrow> bool" where
  "grantHasHeadroom counters \<longleftrightarrow> unitsConsumed counters < grantBound counters"

definition overrideUnitsNeeded :: "'a GrantCounters_scheme \<Rightarrow> int \<Rightarrow> int" where
  "overrideUnitsNeeded counters units =
     (let shortfall = unitsConsumed counters + units - grantBound counters in
      if shortfall > 0 then shortfall else 0)"

definition reversalKeepsFloor :: "'a GrantCounters_scheme \<Rightarrow> int \<Rightarrow> bool" where
  "reversalKeepsFloor counters units \<longleftrightarrow> unitsConsumed counters - units \<ge> 0"

definition countersAfterReversal :: "'a GrantCounters_scheme \<Rightarrow> int \<Rightarrow> GrantCounters" where
  "countersAfterReversal counters units =
     (let releasedOverride = (if overrideUnits counters < units then overrideUnits counters else units) in
      \<lparr>unitsTotal = unitsTotal counters, unitsConsumed = unitsConsumed counters - units,
       overrideUnits = overrideUnits counters - releasedOverride\<rparr>)"

datatype variance_state = Within | AtEntitlement | OverEntitlement

record GrantVariance = GrantCounters +
  gv_bound :: int
  gv_remaining :: int
  gv_overEntitlement :: int
  gv_state :: variance_state

definition grantVariance :: "'a GrantCounters_scheme \<Rightarrow> GrantVariance" where
  "grantVariance counters =
     (let bound = grantBound counters;
          over = (if unitsConsumed counters > unitsTotal counters
                  then unitsConsumed counters - unitsTotal counters else 0);
          remaining = (if bound - unitsConsumed counters > 0 then bound - unitsConsumed counters else 0)
      in \<lparr>unitsTotal = unitsTotal counters, unitsConsumed = unitsConsumed counters,
          overrideUnits = overrideUnits counters, gv_bound = bound, gv_remaining = remaining,
          gv_overEntitlement = over,
          gv_state = (if over > 0 then OverEntitlement
                      else if unitsConsumed counters = unitsTotal counters then AtEntitlement else Within)\<rparr>)"

definition approvalConsumesQuota :: "VacationPeriodMode \<Rightarrow> bool" where
  "approvalConsumesQuota mode \<longleftrightarrow> mode = QuotaMode"

definition VACATION_APPROVAL_ROOT_PATH :: "RequestStatus list" where
  "VACATION_APPROVAL_ROOT_PATH = [UnderReview, Approved]"

definition VACATION_DENIAL_ROOT_PATH :: "RequestStatus list" where
  "VACATION_DENIAL_ROOT_PATH = [UnderReview, Denied]"

section \<open>Commit and reversal\<close>

definition COMMITTABLE_VERSION_STATES :: "string list" where
  "COMMITTABLE_VERSION_STATES = [''draft'']"

definition versionAcceptsCommit :: "string \<Rightarrow> bool" where
  "versionAcceptsCommit state \<longleftrightarrow> state \<in> set COMMITTABLE_VERSION_STATES"

definition REVERSAL_REASON_MAX_LENGTH :: nat where "REVERSAL_REASON_MAX_LENGTH = 1000"

definition reversalReasonIsWellFormed :: "string \<Rightarrow> bool" where
  "reversalReasonIsWellFormed reason \<longleftrightarrow>
     length (trim reason) \<ge> 1 \<and> length (trim reason) \<le> REVERSAL_REASON_MAX_LENGTH"

section \<open>The selection machine refines the request machine\<close>

lemma selection_key_inj: "selection_key f t = selection_key f' t' \<longleftrightarrow> f = f' \<and> t = t'"
  by (simp add: selection_key_def append_sep name_no_bar selection_name_inj)

lemma selection_edge [code]: "selectionTransitionIsLegal f t \<longleftrightarrow> (f, t) \<in> set VACATION_SELECTION_TRANSITIONS"
  by (auto simp: selectionTransitionIsLegal_def SELECTION_EDGES_def selection_key_inj)

text \<open>One step of the selection against the root it derives: a root is born in its initial status, or walks a
  non-empty legal path between the two derived statuses.\<close>
definition step_simulated :: "VacationSelectionStatus \<Rightarrow> VacationSelectionStatus \<Rightarrow> bool" where
  "step_simulated f t \<longleftrightarrow>
     (case selectionEdgeRootPath f t of
        None \<Rightarrow> False
      | Some path \<Rightarrow>
          (case derivedRequestStatus f of
             None \<Rightarrow> path = [] \<and> derivedRequestStatus t = Some (initialRequestStatus VacationSel)
           | Some rt \<Rightarrow> path \<noteq> [] \<and> legal_path VacationSel rt path \<and>
               derivedRequestStatus t = Some (last path)))"

lemma steps_simulated: "list_all (\<lambda>(f, t). step_simulated f t) VACATION_SELECTION_TRANSITIONS"
  by code_simp

inductive reachable_selection :: "VacationSelectionStatus \<Rightarrow> bool" where
  offered: "reachable_selection SAvailable"
| taken: "reachable_selection f \<Longrightarrow> selectionTransitionIsLegal f t \<Longrightarrow> reachable_selection t"

lemma derived_reachable:
  "reachable_selection v \<Longrightarrow> derivedRequestStatus v = Some rt \<Longrightarrow> reachable_status VacationSel rt"
proof (induction arbitrary: rt rule: reachable_selection.induct)
  case (taken f t)
  then have s: "step_simulated f t" using steps_simulated by (auto simp: selection_edge list_all_iff)
  show ?case
  proof (cases "derivedRequestStatus f")
    case None
    then have "rt = initialRequestStatus VacationSel"
      using s taken.prems by (simp add: step_simulated_def split: option.splits)
    then show ?thesis by (simp add: born isLegalInitialStatus_def initialRequestStatus_def)
  next
    case (Some r)
    then obtain path where p: "path \<noteq> []" "legal_path VacationSel r path" "derivedRequestStatus t = Some (last path)"
      using s by (auto simp: step_simulated_def split: option.splits)
    then show ?thesis using taken.IH[OF Some] path_reachable[of VacationSel r path] taken.prems by simp
  qed
qed (simp add: derivedRequestStatus_def)

text \<open>C35: the vacation selection refines the request: every legal step of a selection is matched by its
  \<open>selectionEdgeRootPath\<close>, a legal path of the root from the status the one selection status derives to the
  status the other derives, the first step creating the root in its initial status; so the root of every
  reachable selection status is a reachable request status, and the root status determines the selection's.\<close>
theorem selection_refines_request:
  "(selectionTransitionIsLegal f t \<longrightarrow> step_simulated f t) \<and>
   (reachable_selection v \<longrightarrow> derivedRequestStatus v = Some rt \<longrightarrow>
      reachable_status VacationSel rt \<and> selectionStatusForRootStatus rt = Some v)"
proof -
  have inv: "case derivedRequestStatus v of None \<Rightarrow> True | Some rt \<Rightarrow> selectionStatusForRootStatus rt = Some v"
    by (rule selection_cases[of "\<lambda>v. case derivedRequestStatus v of None \<Rightarrow> True
          | Some rt \<Rightarrow> selectionStatusForRootStatus rt = Some v"]) code_simp
  have "selectionTransitionIsLegal f t \<Longrightarrow> step_simulated f t"
    using steps_simulated by (auto simp: selection_edge list_all_iff)
  then show ?thesis using derived_reachable inv by auto
qed

lemma selection_refines_request_witness:
  "step_simulated SPending SApproved \<and> selectionEdgeRootPath SPending SApproved = Some [UnderReview, Approved] \<and>
   selectionStatusForRootStatus ReflectedInVersion = Some SCommitted"
proof -
  have e: "selectionTransitionIsLegal SPending SApproved" by code_simp
  have "reachable_selection SCommitted"
    by (rule taken[of SApproved], rule taken[of SPending], rule taken[of SAvailable], rule offered) code_simp+
  then show ?thesis
    using selection_refines_request[of SPending SApproved SCommitted ReflectedInVersion] e
    by (simp add: derivedRequestStatus_def) code_simp
qed

section \<open>Display order\<close>

text \<open>The comparator is the order by week, then submission time with the unsubmitted last, then id.\<close>
definition display_key :: "SelectionOrderKey \<Rightarrow> string \<times> (bool \<times> int) \<times> string" where
  "display_key a =
     (weekStart a, (case submittedAt a of None \<Rightarrow> (True, 0) | Some x \<Rightarrow> (False, x)), order_id a)"

lemma compare_display:
  "compareSelectionsForDisplay a b < 0 \<longleftrightarrow> display_key a < display_key b"
  by (auto simp: compareSelectionsForDisplay_def display_key_def split: option.splits)

lemma insert_by_key:
  assumes "\<And>a b. cmp a b < 0 \<longleftrightarrow> k a < k b"
  shows "insert_by cmp x xs = insort_key (k :: 'a \<Rightarrow> 'b::linorder) x xs"
  by (induction xs) (auto simp: assms not_less)

lemma sort_by_key:
  assumes "\<And>a b. cmp a b < 0 \<longleftrightarrow> k a < (k b :: 'b::linorder)"
  shows "sort_by cmp xs = sort_key k xs"
  using insert_by_key[of cmp k, OF assms] by (simp add: sort_by_def sort_key_def fun_eq_iff cong: foldr_cong) 

lemma display_order: "orderSelectionsForDisplay xs = sort_key display_key xs"
  unfolding orderSelectionsForDisplay_def by (rule sort_by_key[OF compare_display])

lemma display_order_deterministic:
  assumes "mset xs = mset ys" "distinct (map order_id xs)"
  shows "orderSelectionsForDisplay xs = orderSelectionsForDisplay ys"
proof -
  have "inj_on display_key (set xs)"
    using assms(2) by (auto simp: inj_on_def display_key_def distinct_map split: option.splits)
  then show ?thesis using assms(1) by (simp only: display_order) (intro sort_key_inj_key_eq, simp_all)
qed

end
