(* ===== verification/RequestTables.thy ===== *)
theory RequestTables
  imports VacationSelection RequestLifecycle Deadlines
begin

text \<open>
  The rows and the statements of \<open>apps/api/src/requests/store.ts\<close> and \<open>vacation-store.ts\<close>. A table is the list
  of its rows; \<open>sql_update\<close> is an \<open>UPDATE ... WHERE ... RETURNING\<close>. The tenant columns are left out: every
  query of a unit of work runs under the row-level security of one organization and group. Identifiers the
  database draws are arguments.
\<close>

section \<open>Rows\<close>

datatype GrantKind = PersonalEntitlement string | WeeklyCapacity string

record VacationPeriodRow =
  vp_id :: string
  vp_startDate :: string
  vp_endDate :: string
  vp_mode :: VacationPeriodMode
  vp_state :: VacationPeriodState

record VacationGrantRow = GrantCounters +
  g_id :: string
  g_periodId :: string
  g_kind :: GrantKind
  g_version :: int

record VacationSelectionRow =
  vs_id :: string
  vs_requestId :: "string option"
  vs_membershipId :: string
  vs_periodId :: string
  vs_weekStart :: string
  vs_status :: VacationSelectionStatus
  vs_version :: int
  vs_grantId :: "string option"
  vs_isOverride :: bool
  vs_overrideReason :: "string option"
  vs_approvalKey :: "string option"
  vs_committedTo :: "string option"
  vs_commitKey :: "string option"

record RequestRow =
  rq_id :: string
  rq_membershipId :: string
  rq_subtype :: RequestSubtype
  rq_status :: RequestStatus
  rq_submittedAt :: "int option"
  rq_decidedAt :: "int option"
  rq_decidedBy :: "string option"
  rq_withdrawnAt :: "int option"
  rq_expiresAt :: int
  rq_idempotencyKey :: string
  rq_version :: int
  rq_isLate :: bool
  rq_revisionRequested :: bool

datatype SubtypeRecord =
    AvailabilityRecord string
  | TimeOffDay string
  | TimeOffRange string string
  | NoCallRecord string
  | ShiftPreferenceRecord string string RequestPreferenceStrength
  | ShiftGroupOffRecord string string

fun record_subtype :: "SubtypeRecord \<Rightarrow> RequestSubtype" where
  "record_subtype (AvailabilityRecord _) = Availability"
| "record_subtype (TimeOffDay _) = TimeOff"
| "record_subtype (TimeOffRange _ _) = TimeOff"
| "record_subtype (NoCallRecord _) = NoCall"
| "record_subtype (ShiftPreferenceRecord _ _ _) = ShiftPref"
| "record_subtype (ShiftGroupOffRecord _ _) = ShiftGroupOff"

datatype RequestDecision = DecisionApproved | DecisionDenied | DecisionReversed

datatype VacationApprovalOutcome =
  OutcomeApproved | OutcomeDenied | OutcomeQuotaExhausted | OutcomeVersionConflict | OutcomeSelectionNotPending

record ApprovalCommandRow =
  cm_selectionId :: string
  cm_key :: string
  cm_outcome :: "VacationApprovalOutcome option"

record ApprovalRow =
  ap_id :: string
  ap_requestId :: string
  ap_decision :: RequestDecision
  ap_decidedBy :: string
  ap_decidedAt :: int
  ap_reason :: "string option"
  ap_isOverride :: bool
  ap_vacationSelectionId :: "string option"
  ap_supersedes :: "string option"

text \<open>The policy columns of the \<open>groups\<close> row.\<close>
datatype request_until_mode = ModeClosed | ModeFixedDate | ModeDaysBefore

record GroupPolicyRow =
  gp_timezone :: string
  gp_untilMode :: request_until_mode
  gp_untilDate :: "string option"
  gp_leadDays :: "int option"
  gp_rolls :: DeadlineRoll
  gp_late :: LateSubmissionPolicy

record RequestDb =
  periods_t :: "VacationPeriodRow list"
  grants_t :: "VacationGrantRow list"
  selections_t :: "VacationSelectionRow list"
  requests_t :: "RequestRow list"
  records_t :: "(string \<times> SubtypeRecord) list"
  commands_t :: "ApprovalCommandRow list"
  approvals_t :: "ApprovalRow list"
  group_t :: "GroupPolicyRow option"
  holidays_t :: "string list"
  audit_t :: "(string \<times> string) list"
  outbox_t :: "(string \<times> string) list"

section \<open>Statements\<close>

text \<open>The updated row that \<open>RETURNING\<close> gives, and the table afterwards.\<close>
definition sql_update :: "('r \<Rightarrow> bool) \<Rightarrow> ('r \<Rightarrow> 'r) \<Rightarrow> 'r list \<Rightarrow> 'r option \<times> 'r list" where
  "sql_update P f rows = (map_option f (find P rows), map (\<lambda>r. if P r then f r else r) rows)"

text \<open>An audit event and the outbox row published with it.\<close>
definition emit :: "string \<Rightarrow> string \<Rightarrow> string \<Rightarrow> string \<Rightarrow> RequestDb \<Rightarrow> RequestDb" where
  "emit eventName subject kind key db =
     db\<lparr>audit_t := audit_t db @ [(eventName, subject)], outbox_t := outbox_t db @ [(kind, key)]\<rparr>"

definition loadPeriod :: "RequestDb \<Rightarrow> string \<Rightarrow> VacationPeriodRow option" where
  "loadPeriod db i = find (\<lambda>p. vp_id p = i) (periods_t db)"

text \<open>\<open>ORDER BY id\<close>\<close>
definition listGrants :: "RequestDb \<Rightarrow> string \<Rightarrow> VacationGrantRow list" where
  "listGrants db periodId = sort_key g_id (filter (\<lambda>g. g_periodId g = periodId) (grants_t db))"

definition loadSelection :: "RequestDb \<Rightarrow> string \<Rightarrow> VacationSelectionRow option" where
  "loadSelection db i = find (\<lambda>s. vs_id s = i) (selections_t db)"

definition findSelectionByRequest :: "RequestDb \<Rightarrow> string \<Rightarrow> VacationSelectionRow option" where
  "findSelectionByRequest db r = find (\<lambda>s. vs_requestId s = Some r) (selections_t db)"

definition findSelection :: "RequestDb \<Rightarrow> string \<Rightarrow> string \<Rightarrow> string \<Rightarrow> VacationSelectionRow option" where
  "findSelection db m p w =
     find (\<lambda>s. vs_membershipId s = m \<and> vs_periodId s = p \<and> vs_weekStart s = w) (selections_t db)"

definition createSelection ::
  "string \<Rightarrow> string \<Rightarrow> string \<Rightarrow> string \<Rightarrow> RequestDb \<Rightarrow> RequestDb" where
  "createSelection newId m p w db =
     db\<lparr>selections_t := selections_t db @
       [\<lparr>vs_id = newId, vs_requestId = None, vs_membershipId = m, vs_periodId = p, vs_weekStart = w,
         vs_status = SAvailable, vs_version = 1, vs_grantId = None, vs_isOverride = False,
         vs_overrideReason = None, vs_approvalKey = None, vs_committedTo = None, vs_commitKey = None\<rparr>]\<rparr>"

definition findApprovalCommand :: "RequestDb \<Rightarrow> string \<Rightarrow> string \<Rightarrow> ApprovalCommandRow option" where
  "findApprovalCommand db s k = find (\<lambda>c. cm_selectionId c = s \<and> cm_key c = k) (commands_t db)"

text \<open>\<open>INSERT ... ON CONFLICT DO NOTHING\<close>; \<open>None\<close> is a replay.\<close>
definition recordApprovalCommand :: "string \<Rightarrow> string \<Rightarrow> RequestDb \<Rightarrow> RequestDb option" where
  "recordApprovalCommand s k db =
     (case findApprovalCommand db s k of
        Some _ \<Rightarrow> None
      | None \<Rightarrow> Some (db\<lparr>commands_t := commands_t db @ [\<lparr>cm_selectionId = s, cm_key = k, cm_outcome = None\<rparr>]\<rparr>))"

definition setApprovalCommandOutcome ::
  "string \<Rightarrow> string \<Rightarrow> VacationApprovalOutcome \<Rightarrow> RequestDb \<Rightarrow> RequestDb" where
  "setApprovalCommandOutcome s k outcome db =
     db\<lparr>commands_t := snd (sql_update (\<lambda>c. cm_selectionId c = s \<and> cm_key c = k)
        (\<lambda>c. c\<lparr>cm_outcome := Some outcome\<rparr>) (commands_t db))\<rparr>"

definition update_grants ::
  "(VacationGrantRow \<Rightarrow> bool) \<Rightarrow> (VacationGrantRow \<Rightarrow> VacationGrantRow) \<Rightarrow> RequestDb \<Rightarrow> int option \<times> RequestDb" where
  "update_grants P f db =
     (case sql_update P f (grants_t db) of
        (ret, rows) \<Rightarrow> (map_option g_version ret, db\<lparr>grants_t := rows\<rparr>))"

definition consumeGrantUnit :: "string \<Rightarrow> int \<Rightarrow> RequestDb \<Rightarrow> int option \<times> RequestDb" where
  "consumeGrantUnit grantId expectedVersion =
     update_grants
       (\<lambda>g. g_id g = grantId \<and> g_version g = expectedVersion \<and>
            unitsConsumed g < unitsTotal g + overrideUnits g)
       (\<lambda>g. g\<lparr>unitsConsumed := unitsConsumed g + 1, g_version := g_version g + 1\<rparr>)"

definition raiseOverrideUnits :: "string \<Rightarrow> int \<Rightarrow> int \<Rightarrow> RequestDb \<Rightarrow> int option \<times> RequestDb" where
  "raiseOverrideUnits grantId expectedVersion units =
     update_grants (\<lambda>g. g_id g = grantId \<and> g_version g = expectedVersion)
       (\<lambda>g. g\<lparr>overrideUnits := overrideUnits g + units, g_version := g_version g + 1\<rparr>)"

definition releaseGrantUnits :: "string \<Rightarrow> int \<Rightarrow> int \<Rightarrow> int \<Rightarrow> RequestDb \<Rightarrow> int option \<times> RequestDb" where
  "releaseGrantUnits grantId expectedVersion units override =
     update_grants (\<lambda>g. g_id g = grantId \<and> g_version g = expectedVersion)
       (\<lambda>g. g\<lparr>unitsConsumed := unitsConsumed g - units, overrideUnits := overrideUnits g - override,
              g_version := g_version g + 1\<rparr>)"

definition update_selections ::
  "(VacationSelectionRow \<Rightarrow> bool) \<Rightarrow> (VacationSelectionRow \<Rightarrow> VacationSelectionRow) \<Rightarrow> RequestDb \<Rightarrow>
   int option \<times> RequestDb" where
  "update_selections P f db =
     (case sql_update P f (selections_t db) of
        (ret, rows) \<Rightarrow> (map_option vs_version ret, db\<lparr>selections_t := rows\<rparr>))"

definition decideSelection ::
  "string \<Rightarrow> int \<Rightarrow> VacationSelectionStatus \<Rightarrow> string option \<Rightarrow> bool \<Rightarrow> string option \<Rightarrow> string \<Rightarrow>
   RequestDb \<Rightarrow> int option \<times> RequestDb" where
  "decideSelection selectionId expectedVersion status grantId isOverride overrideReason approvalKey =
     update_selections (\<lambda>s. vs_id s = selectionId \<and> vs_status s = SPending \<and> vs_version s = expectedVersion)
       (\<lambda>s. s\<lparr>vs_status := status, vs_grantId := grantId, vs_isOverride := isOverride,
              vs_overrideReason := overrideReason, vs_approvalKey := Some approvalKey,
              vs_version := vs_version s + 1\<rparr>)"

definition linkSelectionToRoot :: "string \<Rightarrow> int \<Rightarrow> string \<Rightarrow> RequestDb \<Rightarrow> int option \<times> RequestDb" where
  "linkSelectionToRoot selectionId expectedVersion requestId =
     update_selections (\<lambda>s. vs_id s = selectionId \<and> vs_status s = SAvailable \<and> vs_version s = expectedVersion)
       (\<lambda>s. s\<lparr>vs_requestId := Some requestId, vs_status := SPending, vs_version := vs_version s + 1\<rparr>)"

definition withdrawSelection ::
  "string \<Rightarrow> int \<Rightarrow> VacationSelectionStatus \<Rightarrow> RequestDb \<Rightarrow> int option \<times> RequestDb" where
  "withdrawSelection selectionId expectedVersion expectedStatus =
     update_selections (\<lambda>s. vs_id s = selectionId \<and> vs_status s = expectedStatus \<and> vs_version s = expectedVersion)
       (\<lambda>s. s\<lparr>vs_status := SWithdrawn, vs_version := vs_version s + 1\<rparr>)"

definition commitSelection :: "string \<Rightarrow> string \<Rightarrow> string \<Rightarrow> RequestDb \<Rightarrow> int option \<times> RequestDb" where
  "commitSelection selectionId committedTo commitKey =
     update_selections (\<lambda>s. vs_id s = selectionId \<and> vs_status s = SApproved)
       (\<lambda>s. s\<lparr>vs_status := SCommitted, vs_committedTo := Some committedTo, vs_commitKey := Some commitKey,
              vs_version := vs_version s + 1\<rparr>)"

definition reverseSelection :: "string \<Rightarrow> string \<Rightarrow> RequestDb \<Rightarrow> int option \<times> RequestDb" where
  "reverseSelection selectionId reason =
     update_selections (\<lambda>s. vs_id s = selectionId \<and> vs_status s = SCommitted)
       (\<lambda>s. s\<lparr>vs_status := SReversed, vs_committedTo := None, vs_isOverride := True,
              vs_overrideReason := Some reason, vs_version := vs_version s + 1\<rparr>)"

definition update_requests ::
  "(RequestRow \<Rightarrow> bool) \<Rightarrow> (RequestRow \<Rightarrow> RequestRow) \<Rightarrow> RequestDb \<Rightarrow> int option \<times> RequestDb" where
  "update_requests P f db =
     (case sql_update P f (requests_t db) of
        (ret, rows) \<Rightarrow> (map_option rq_version ret, db\<lparr>requests_t := rows\<rparr>))"

text \<open>The walk of a root over a status path; only the last statement stamps the decision. The first statement
  presents the version only when the caller holds one.\<close>
fun walk_root :: "string \<Rightarrow> string \<Rightarrow> int \<Rightarrow> RequestStatus list \<Rightarrow> int option \<Rightarrow> RequestDb \<Rightarrow> int option \<times> RequestDb" where
  "walk_root requestId decidedBy decidedAt [] version db = (version, db)"
| "walk_root requestId decidedBy decidedAt (status # path) version db =
     (case update_requests
         (\<lambda>r. rq_id r = requestId \<and> (case version of None \<Rightarrow> True | Some v \<Rightarrow> rq_version r = v))
         (\<lambda>r. let r' = r\<lparr>rq_status := status, rq_version := rq_version r + 1\<rparr> in
              if path = [] then r'\<lparr>rq_decidedAt := Some decidedAt, rq_decidedBy := Some decidedBy\<rparr> else r') db of
        (None, db') \<Rightarrow> (None, db')
      | (Some v, db') \<Rightarrow> walk_root requestId decidedBy decidedAt path (Some v) db')"

definition writeDerivedRootStatus ::
  "string \<Rightarrow> RequestStatus list \<Rightarrow> string \<Rightarrow> int \<Rightarrow> RequestDb \<Rightarrow> int option \<times> RequestDb" where
  "writeDerivedRootStatus requestId path decidedBy decidedAt db =
     walk_root requestId decidedBy decidedAt path None db"

definition decide ::
  "string \<Rightarrow> int \<Rightarrow> RequestStatus list \<Rightarrow> string \<Rightarrow> int \<Rightarrow> RequestDb \<Rightarrow> int option \<times> RequestDb" where
  "decide requestId expectedVersion path decidedBy decidedAt db =
     walk_root requestId decidedBy decidedAt path (Some expectedVersion) db"

definition writeRootWithdrawal :: "string \<Rightarrow> int \<Rightarrow> RequestDb \<Rightarrow> int option \<times> RequestDb" where
  "writeRootWithdrawal requestId withdrawnAt =
     update_requests (\<lambda>r. rq_id r = requestId)
       (\<lambda>r. r\<lparr>rq_status := Withdrawn, rq_withdrawnAt := Some withdrawnAt, rq_version := rq_version r + 1\<rparr>)"

definition createRoot :: "string \<Rightarrow> string \<Rightarrow> int \<Rightarrow> string \<Rightarrow> int \<Rightarrow> RequestDb \<Rightarrow> RequestDb" where
  "createRoot newId m expiresAt key submittedAt' db =
     db\<lparr>requests_t := requests_t db @
       [\<lparr>rq_id = newId, rq_membershipId = m, rq_subtype = VacationSel,
         rq_status = initialRequestStatus VacationSel, rq_submittedAt = Some submittedAt', rq_decidedAt = None,
         rq_decidedBy = None, rq_withdrawnAt = None, rq_expiresAt = expiresAt, rq_idempotencyKey = key,
         rq_version = 1, rq_isLate = False, rq_revisionRequested = False\<rparr>]\<rparr>"

definition markRootLate :: "string \<Rightarrow> RequestDb \<Rightarrow> RequestDb" where
  "markRootLate requestId db =
     snd (update_requests (\<lambda>r. rq_id r = requestId) (\<lambda>r. r\<lparr>rq_isLate := True, rq_version := rq_version r + 1\<rparr>) db)"

definition loadRoot :: "RequestDb \<Rightarrow> string \<Rightarrow> RequestRow option" where
  "loadRoot db i = find (\<lambda>r. rq_id r = i) (requests_t db)"

definition findRootByIdempotencyKey :: "RequestDb \<Rightarrow> string \<Rightarrow> string \<Rightarrow> RequestRow option" where
  "findRootByIdempotencyKey db m key =
     find (\<lambda>r. rq_membershipId r = m \<and> rq_idempotencyKey r = key) (requests_t db)"

definition create ::
  "string \<Rightarrow> string \<Rightarrow> RequestSubtype \<Rightarrow> int \<Rightarrow> string \<Rightarrow> SubtypeRecord \<Rightarrow> RequestDb \<Rightarrow> RequestDb" where
  "create newId m subtype expiresAt key rec db =
     db\<lparr>requests_t := requests_t db @
          [\<lparr>rq_id = newId, rq_membershipId = m, rq_subtype = subtype,
            rq_status = initialRequestStatus subtype, rq_submittedAt = None, rq_decidedAt = None,
            rq_decidedBy = None, rq_withdrawnAt = None, rq_expiresAt = expiresAt, rq_idempotencyKey = key,
            rq_version = 1, rq_isLate = False, rq_revisionRequested = False\<rparr>],
        records_t := records_t db @ [(newId, rec)]\<rparr>"

definition submit :: "string \<Rightarrow> int \<Rightarrow> int \<Rightarrow> bool \<Rightarrow> int \<Rightarrow> RequestDb \<Rightarrow> int option \<times> RequestDb" where
  "submit requestId expectedVersion expiresAt isLate submittedAt' =
     update_requests (\<lambda>r. rq_id r = requestId \<and> rq_version r = expectedVersion \<and> rq_status r = Draft)
       (\<lambda>r. r\<lparr>rq_status := Submitted, rq_submittedAt := Some submittedAt', rq_expiresAt := expiresAt,
              rq_isLate := isLate, rq_version := rq_version r + 1\<rparr>)"

definition withdraw :: "string \<Rightarrow> int \<Rightarrow> int \<Rightarrow> bool \<Rightarrow> RequestDb \<Rightarrow> int option \<times> RequestDb" where
  "withdraw requestId expectedVersion withdrawnAt revisionRequested =
     update_requests (\<lambda>r. rq_id r = requestId \<and> rq_version r = expectedVersion)
       (\<lambda>r. r\<lparr>rq_status := Withdrawn, rq_withdrawnAt := Some withdrawnAt,
              rq_revisionRequested := revisionRequested, rq_version := rq_version r + 1\<rparr>)"

definition expire :: "string \<Rightarrow> RequestDb \<Rightarrow> int option \<times> RequestDb" where
  "expire requestId =
     update_requests
       (\<lambda>r. rq_id r = requestId \<and> rq_status r \<in> set [Submitted, UnderReview, AcceptedAsInput])
       (\<lambda>r. r\<lparr>rq_status := Expired, rq_version := rq_version r + 1\<rparr>)"

definition claimExpirable :: "RequestDb \<Rightarrow> int \<Rightarrow> nat \<Rightarrow> RequestRow list" where
  "claimExpirable db now limit =
     take limit (sort_key (\<lambda>r. (rq_expiresAt r, rq_id r))
       (filter (\<lambda>r. rq_status r \<in> set [Submitted, UnderReview, AcceptedAsInput] \<and> rq_expiresAt r < now)
         (requests_t db)))"

definition reverseDecisionRow :: "string \<Rightarrow> int \<Rightarrow> string \<Rightarrow> int \<Rightarrow> RequestDb \<Rightarrow> int option \<times> RequestDb" where
  "reverseDecisionRow requestId expectedVersion reversedBy reversedAt =
     update_requests (\<lambda>r. rq_id r = requestId \<and> rq_version r = expectedVersion \<and> rq_status r = Approved)
       (\<lambda>r. r\<lparr>rq_status := SupersededByRevision, rq_decidedAt := Some reversedAt, rq_decidedBy := Some reversedBy,
              rq_version := rq_version r + 1\<rparr>)"

definition recordApproval :: "ApprovalRow \<Rightarrow> RequestDb \<Rightarrow> RequestDb" where
  "recordApproval row db = db\<lparr>approvals_t := approvals_t db @ [row]\<rparr>"

text \<open>\<open>ORDER BY decided_at DESC, id\<close>\<close>
definition listApprovals :: "RequestDb \<Rightarrow> string \<Rightarrow> ApprovalRow list" where
  "listApprovals db requestId =
     sort_key (\<lambda>a. (- ap_decidedAt a, ap_id a)) (filter (\<lambda>a. ap_requestId a = requestId) (approvals_t db))"

text \<open>\<open>ORDER BY week_start, id\<close>\<close>
definition listSelectionsByStatus :: "RequestDb \<Rightarrow> string \<Rightarrow> VacationSelectionStatus \<Rightarrow> VacationSelectionRow list" where
  "listSelectionsByStatus db periodId status =
     sort_key (\<lambda>s. (vs_weekStart s, vs_id s))
       (filter (\<lambda>s. vs_periodId s = periodId \<and> vs_status s = status) (selections_t db))"

end
