(* ===== verification/RequestService.thy ===== *)
theory RequestService
  imports RequestTables ZonedTime
begin

text \<open>
  \<open>apps/api/src/requests/service.ts\<close>, \<open>decisions.ts\<close>, \<open>deadlines.ts\<close>, \<open>idempotency.ts\<close> and \<open>sweeper.ts\<close>: the
  operations on the request root, each a function of the tables. \<open>tz\<close> is the host's time-zone database.
\<close>

section \<open>Deadlines\<close>

record GroupDeadlineContext =
  dc_policy :: GroupDeadlinePolicy
  dc_holidays :: "string list"
  dc_timezone :: string

definition toRequestUntilPolicy :: "GroupPolicyRow \<Rightarrow> RequestUntilPolicy" where
  "toRequestUntilPolicy row =
     (case gp_untilMode row of
        ModeClosed \<Rightarrow> UntilClosed
      | ModeFixedDate \<Rightarrow> (case gp_untilDate row of None \<Rightarrow> UntilClosed | Some d \<Rightarrow> UntilFixedDate d)
      | ModeDaysBefore \<Rightarrow> (case gp_leadDays row of None \<Rightarrow> UntilClosed | Some n \<Rightarrow> UntilDaysBefore n))"

definition loadGroupDeadlineContext :: "RequestDb \<Rightarrow> GroupDeadlineContext option" where
  "loadGroupDeadlineContext db =
     (case group_t db of
        None \<Rightarrow> None
      | Some row \<Rightarrow> Some
          \<lparr>dc_policy = \<lparr>requestUntil = toRequestUntilPolicy row, deadlineRolls = gp_rolls row,
                       lateSubmission = gp_late row\<rparr>,
           dc_holidays = holidays_t db, dc_timezone = gp_timezone row\<rparr>)"

definition deadlineFor :: "GroupDeadlineContext \<Rightarrow> string option \<Rightarrow> EffectiveDeadline result" where
  "deadlineFor context periodStart = effectiveDeadline (dc_policy context) (dc_holidays context) periodStart"

definition localDate :: "zone_database \<Rightarrow> int \<Rightarrow> string \<Rightarrow> string result" where
  "localDate tz instant timezone =
     (case zonedParts tz timezone instant of Inl e \<Rightarrow> Inl e | Inr p \<Rightarrow> Inr (zp_date p))"

definition classifyAt :: "zone_database \<Rightarrow> GroupDeadlineContext \<Rightarrow> string option \<Rightarrow> int \<Rightarrow> SubmissionTiming result" where
  "classifyAt tz context periodStart instant =
     (case localDate tz instant (dc_timezone context) of
        Inl e \<Rightarrow> Inl e
      | Inr d \<Rightarrow> classifySubmission (dc_policy context) (dc_holidays context) periodStart d)"

text \<open>\<open>new Date(`${date}T00:00:00.000Z`)\<close> one day on; an invalid date throws from \<open>toISOString\<close>.\<close>
definition nextDayNumber :: "string \<Rightarrow> int result" where
  "nextDayNumber d = (case daysFromEpoch d of Inl _ \<Rightarrow> Inl RangeError | Inr n \<Rightarrow> Inr (n + 1))"

text \<open>The first minute, of the 48 hours around the naive midnight, whose local time is the next day's midnight.\<close>
definition deadlineInstant :: "zone_database \<Rightarrow> string \<Rightarrow> string \<Rightarrow> int result" where
  "deadlineInstant tz deadlineDate timezone =
     (case nextDayNumber deadlineDate of
        Inl e \<Rightarrow> Inl e
      | Inr n \<Rightarrow>
      (case tz timezone of
         None \<Rightarrow> Inl RangeError
       | Some off \<Rightarrow>
          (let nextDay = iso_date n; naive = n * MS_PER_DAY; startOfScan = naive - MS_PER_DAY in Inr
             (case find (\<lambda>m. let p = parts_at off (startOfScan + int m * MS_PER_MINUTE) in
                  zp_hour p = 0 \<and> zp_minute p = 0 \<and> zp_date p = nextDay) [0..<2881] of
                None \<Rightarrow> naive
              | Some m \<Rightarrow> startOfScan + int m * MS_PER_MINUTE))))"

definition expiryInstant :: "zone_database \<Rightarrow> GroupDeadlineContext \<Rightarrow> string option \<Rightarrow> int \<Rightarrow> int result" where
  "expiryInstant tz context periodStart now =
     (case deadlineFor context periodStart of
        Inl e \<Rightarrow> Inl e
      | Inr DeadlineClosed \<Rightarrow> Inr now
      | Inr (DeadlineDated _ effective _) \<Rightarrow> deadlineInstant tz effective (dc_timezone context))"

section \<open>Idempotency keys\<close>

datatype IdempotentReplay = Fresh | Replay RequestRow | Reused RequestSubtype

definition classifyIdempotencyKey :: "RequestDb \<Rightarrow> string \<Rightarrow> string \<Rightarrow> RequestSubtype \<Rightarrow> IdempotentReplay" where
  "classifyIdempotencyKey db m key subtype =
     (case findRootByIdempotencyKey db m key of
        None \<Rightarrow> Fresh
      | Some rt \<Rightarrow> if rq_subtype rt = subtype then Replay rt else Reused (rq_subtype rt))"

section \<open>Outcomes\<close>

datatype RequestFailure =
    NotFound
  | IllegalOperation RequestStatus RequestRefusalReason
  | Conflict
  | DeadlineWindowClosed
  | DeadlineLateRejected string
  | IdempotencyKeyReused RequestSubtype

text \<open>A service call throws (\<open>Inl\<close>), or returns a refusal or a value with the tables it leaves.\<close>
type_synonym 'a outcome = "thrown + (RequestFailure + 'a) \<times> RequestDb"

record SubmitCommand =
  sc_membershipId :: string
  sc_record :: SubtypeRecord
  sc_idempotencyKey :: string
  sc_periodStart :: "string option"
  sc_now :: int

record SubmitResult =
  sr_root :: RequestRow
  sr_replayed :: bool
  sr_isLate :: bool

fun refuseOnTiming :: "SubmissionTiming \<Rightarrow> RequestFailure option" where
  "refuseOnTiming WindowClosed = Some DeadlineWindowClosed"
| "refuseOnTiming (LateRejected d) = Some (DeadlineLateRejected d)"
| "refuseOnTiming (OnTime _) = None"
| "refuseOnTiming (LateAccepted _) = None"

text \<open>The root and its subtype record; a root without one is invisible.\<close>
definition loadRequest :: "RequestDb \<Rightarrow> string \<Rightarrow> RequestRow option" where
  "loadRequest db i =
     (case loadRoot db i of
        None \<Rightarrow> None
      | Some rt \<Rightarrow> (case map_of (records_t db) i of None \<Rightarrow> None | Some _ \<Rightarrow> Some rt))"

definition submitRequest :: "zone_database \<Rightarrow> string \<Rightarrow> SubmitCommand \<Rightarrow> RequestDb \<Rightarrow> SubmitResult outcome" where
  "submitRequest tz newId command db =
     (let subtype = record_subtype (sc_record command); m = sc_membershipId command; key = sc_idempotencyKey command in
      case classifyIdempotencyKey db m key subtype of
        Reused s \<Rightarrow> Inr (Inl (IdempotencyKeyReused s), db)
      | Replay rt \<Rightarrow>
          (case loadRequest db (rq_id rt) of
             None \<Rightarrow> Inr (Inl NotFound, db)
           | Some r \<Rightarrow> Inr (Inr \<lparr>sr_root = r, sr_replayed = True, sr_isLate = rq_isLate r\<rparr>, db))
      | Fresh \<Rightarrow>
      (case loadGroupDeadlineContext db of
         None \<Rightarrow> Inr (Inl NotFound, db)
       | Some context \<Rightarrow>
      (case classifyAt tz context (sc_periodStart command) (sc_now command) of
         Inl e \<Rightarrow> Inl e
       | Inr timing \<Rightarrow>
      (case refuseOnTiming timing of
         Some refusal \<Rightarrow> Inr (Inl refusal, db)
       | None \<Rightarrow>
      (case expiryInstant tz context (sc_periodStart command) (sc_now command) of
         Inl e \<Rightarrow> Inl e
       | Inr expiresAt \<Rightarrow>
           (let isLate = (case timing of LateAccepted _ \<Rightarrow> True | _ \<Rightarrow> False) in
            if initialRequestStatus subtype \<noteq> Draft
            then Inr (Inl (IllegalOperation Draft OperationNotAvailableForSubtype), db)
            else
              (let db1 = create newId m subtype expiresAt key (sc_record command) db in
               case operationVerdict subtype Draft Submit of
                 Refused reason \<Rightarrow> Inr (Inl (IllegalOperation Draft reason), db1)
               | Allowed _ \<Rightarrow>
                   (case submit newId 1 expiresAt isLate (sc_now command) db1 of
                      (None, db2) \<Rightarrow> Inr (Inl Conflict, db2)
                    | (Some _, db2) \<Rightarrow>
                        (let db3 = emit ''requests.request.submitted'' newId ''requests.request.submitted''
                               (''request-submitted:'' @ newId) db2 in
                         case loadRequest db3 newId of
                           None \<Rightarrow> Inr (Inl NotFound, db3)
                         | Some r \<Rightarrow> Inr (Inr \<lparr>sr_root = r, sr_replayed = False, sr_isLate = isLate\<rparr>, db3))))))))))"

section \<open>Withdrawal and expiry\<close>

record WithdrawCommand =
  wc_requestId :: string
  wc_expectedVersion :: int
  wc_membershipId :: string
  wc_now :: int

text \<open>The value is the new version and whether a revision was asked for.\<close>
definition withdrawRequest :: "WithdrawCommand \<Rightarrow> RequestDb \<Rightarrow> (RequestFailure + int \<times> bool) \<times> RequestDb" where
  "withdrawRequest command db =
     (let i = wc_requestId command in
      case loadRoot db i of
        None \<Rightarrow> (Inl NotFound, db)
      | Some rt \<Rightarrow>
          if rq_membershipId rt \<noteq> wc_membershipId command then (Inl NotFound, db)
          else (case operationVerdict (rq_subtype rt) (rq_status rt) Withdraw of
              Refused reason \<Rightarrow> (Inl (IllegalOperation (rq_status rt) reason), db)
            | Allowed _ \<Rightarrow>
                (let revision = withdrawalRequiresRevision (rq_status rt) in
                 case withdraw i (wc_expectedVersion command) (wc_now command) revision db of
                   (None, db1) \<Rightarrow> (Inl Conflict, db1)
                 | (Some v, db1) \<Rightarrow>
                     (let db2 = emit ''requests.request.withdrawn'' i ''requests.request.withdrawn''
                            (''request-withdrawn:'' @ i @ '':'' @ string_of_int v) db1;
                          db3 = (if revision
                            then emit ''requests.request.revision_requested'' i ''schedule.revision_requested''
                                   (''schedule-revision-requested:'' @ i @ '':'' @ string_of_int v) db2
                            else db2)
                      in (Inr (v, revision), db3)))))"

definition expireRequest :: "RequestRow \<Rightarrow> RequestDb \<Rightarrow> (RequestFailure + string) \<times> RequestDb" where
  "expireRequest rt db =
     (case operationVerdict (rq_subtype rt) (rq_status rt) Expire of
        Refused reason \<Rightarrow> (Inl (IllegalOperation (rq_status rt) reason), db)
      | Allowed _ \<Rightarrow>
          if \<not> deadlineBindsInStatus (status_name (rq_status rt))
          then (Inl (IllegalOperation (rq_status rt) OperationNotLegalFromStatus), db)
          else (case expire (rq_id rt) db of
              (None, db1) \<Rightarrow> (Inl Conflict, db1)
            | (Some _, db1) \<Rightarrow>
                (Inr (rq_id rt), emit ''requests.request.expired'' (rq_id rt) ''requests.request.expired''
                   (''request-expired:'' @ rq_id rt) db1)))"

definition SWEEP_LIMIT :: nat where "SWEEP_LIMIT = 200"

fun sweep_loop :: "RequestRow list \<Rightarrow> RequestDb \<Rightarrow> (string list \<times> nat) \<times> RequestDb" where
  "sweep_loop [] db = (([], 0), db)"
| "sweep_loop (rt # roots) db =
     (case expireRequest rt db of
        (outcome, db1) \<Rightarrow>
          (case sweep_loop roots db1 of
             ((expired, refused), db2) \<Rightarrow>
               (case outcome of Inr i \<Rightarrow> ((i # expired, refused), db2) | Inl _ \<Rightarrow> ((expired, refused + 1), db2))))"

text \<open>The rows claimed, the ids expired, the count refused.\<close>
definition sweepExpiredRequests :: "int \<Rightarrow> RequestDb \<Rightarrow> (nat \<times> string list \<times> nat) \<times> RequestDb" where
  "sweepExpiredRequests now db =
     (let claimed = claimExpirable db now SWEEP_LIMIT in
      case sweep_loop claimed db of ((expired, refused), db') \<Rightarrow> ((length claimed, expired, refused), db'))"

section \<open>Decisions\<close>

definition DECISION_REASON_MAX_LENGTH :: nat where "DECISION_REASON_MAX_LENGTH = 1000"

definition decisionRequiresReason :: "RequestDecision \<Rightarrow> bool \<Rightarrow> bool" where
  "decisionRequiresReason decision isOverride \<longleftrightarrow> decision \<noteq> DecisionApproved \<or> isOverride"

definition decisionReasonIsWellFormed :: "string \<Rightarrow> bool" where
  "decisionReasonIsWellFormed reason \<longleftrightarrow>
     length (trim reason) \<ge> 1 \<and> length (trim reason) \<le> DECISION_REASON_MAX_LENGTH"

datatype DecisionItemFailure =
  ItemNotFound | ItemIllegalOperation | ItemVersionConflict | ItemReasonRequired | ItemSubtypeNotDecidable

definition DECISION_BATCH_MAX_ITEMS :: nat where "DECISION_BATCH_MAX_ITEMS = 100"

record DecideCommand =
  dd_requestId :: string
  dd_expectedVersion :: int
  dd_approve :: bool
  dd_reason :: "string option"
  dd_decidedBy :: string
  dd_now :: int

record DecisionResult =
  dr_decision :: RequestDecision
  dr_status :: RequestStatus
  dr_version :: int

definition refusal_of :: "RequestRefusalReason \<Rightarrow> DecisionItemFailure" where
  "refusal_of reason =
     (if reason = OperationNotAvailableForSubtype then ItemSubtypeNotDecidable else ItemIllegalOperation)"

definition publishDecision :: "string \<Rightarrow> string \<Rightarrow> int \<Rightarrow> RequestDb \<Rightarrow> RequestDb" where
  "publishDecision eventName i version =
     emit (''requests.request.'' @ eventName) i (''requests.request.'' @ eventName)
       (''request-'' @ eventName @ '':'' @ i @ '':'' @ string_of_int version)"

definition decideRequest ::
  "string \<Rightarrow> DecideCommand \<Rightarrow> RequestDb \<Rightarrow> (DecisionItemFailure + DecisionResult) \<times> RequestDb" where
  "decideRequest newId command db =
     (let i = dd_requestId command;
          decision = (if dd_approve command then DecisionApproved else DecisionDenied) in
      case loadRoot db i of
        None \<Rightarrow> (Inl ItemNotFound, db)
      | Some rt \<Rightarrow>
      (case operationVerdict (rq_subtype rt) (rq_status rt) (if dd_approve command then Approve else Deny) of
         Refused reason \<Rightarrow> (Inl (refusal_of reason), db)
       | Allowed t \<Rightarrow>
           (let reasonRequired = decisionRequiresReason decision False in
            if reasonRequired \<and> (case dd_reason command of None \<Rightarrow> True | Some r \<Rightarrow> length (trim r) = 0)
            then (Inl ItemReasonRequired, db)
            else if \<not> reasonRequired \<and> dd_reason command \<noteq> None then (Inl ItemReasonRequired, db)
            else (case decisionStatusPath (rq_subtype rt) (rq_status rt) t of
                None \<Rightarrow> (Inl ItemIllegalOperation, db)
              | Some path \<Rightarrow>
                  (case decide i (dd_expectedVersion command) path (dd_decidedBy command) (dd_now command) db of
                     (None, db1) \<Rightarrow> (Inl ItemVersionConflict, db1)
                   | (Some v, db1) \<Rightarrow>
                       (let db2 = recordApproval
                              \<lparr>ap_id = newId, ap_requestId = i, ap_decision = decision,
                               ap_decidedBy = dd_decidedBy command, ap_decidedAt = dd_now command,
                               ap_reason = dd_reason command, ap_isOverride = False,
                               ap_vacationSelectionId = None, ap_supersedes = None\<rparr> db1;
                            db3 = publishDecision (if dd_approve command then ''approved'' else ''denied'') i v db2
                        in (Inr \<lparr>dr_decision = decision, dr_status = t, dr_version = v\<rparr>, db3)))))))"

record ReverseCommand =
  rv_requestId :: string
  rv_expectedVersion :: int
  rv_reason :: string
  rv_reversedBy :: string
  rv_now :: int

definition reverseDecision ::
  "string \<Rightarrow> ReverseCommand \<Rightarrow> RequestDb \<Rightarrow> (DecisionItemFailure + DecisionResult) \<times> RequestDb" where
  "reverseDecision newId command db =
     (let i = rv_requestId command in
      case loadRoot db i of
        None \<Rightarrow> (Inl ItemNotFound, db)
      | Some rt \<Rightarrow>
      (case operationVerdict (rq_subtype rt) (rq_status rt) ReverseDecision of
         Refused reason \<Rightarrow> (Inl (refusal_of reason), db)
       | Allowed t \<Rightarrow>
           if length (trim (rv_reason command)) = 0 then (Inl ItemReasonRequired, db)
           else (case find (\<lambda>a. ap_decision a = DecisionApproved) (listApprovals db i) of
               None \<Rightarrow> (Inl ItemIllegalOperation, db)
             | Some prior \<Rightarrow>
                 (case reverseDecisionRow i (rv_expectedVersion command) (rv_reversedBy command) (rv_now command) db of
                    (None, db1) \<Rightarrow> (Inl ItemVersionConflict, db1)
                  | (Some v, db1) \<Rightarrow>
                      (let db2 = recordApproval
                             \<lparr>ap_id = newId, ap_requestId = i, ap_decision = DecisionReversed,
                              ap_decidedBy = rv_reversedBy command, ap_decidedAt = rv_now command,
                              ap_reason = Some (rv_reason command), ap_isOverride = False,
                              ap_vacationSelectionId = None, ap_supersedes = Some (ap_id prior)\<rparr> db1;
                           db3 = publishDecision ''decision_reversed'' i v db2
                       in (Inr \<lparr>dr_decision = DecisionReversed, dr_status = t, dr_version = v\<rparr>, db3))))))"

record BatchDecisionCommand =
  bd_items :: "(string \<times> int) list"
  bd_approve :: bool
  bd_reason :: "string option"
  bd_decidedBy :: string
  bd_now :: int

text \<open>The ids the database draws for the approval rows are the second components.\<close>
fun batch_loop ::
  "BatchDecisionCommand \<Rightarrow> ((string \<times> int) \<times> string) list \<Rightarrow> RequestDb \<Rightarrow>
   (string \<times> (DecisionItemFailure + DecisionResult)) list \<times> RequestDb" where
  "batch_loop command [] db = ([], db)"
| "batch_loop command (((i, v), newId) # items) db =
     (case decideRequest newId
         \<lparr>dd_requestId = i, dd_expectedVersion = v, dd_approve = bd_approve command, dd_reason = bd_reason command,
          dd_decidedBy = bd_decidedBy command, dd_now = bd_now command\<rparr> db of
        (outcome, db1) \<Rightarrow>
          (case batch_loop command items db1 of (outcomes, db2) \<Rightarrow> ((i, outcome) # outcomes, db2)))"

definition decideRequestsBatch ::
  "string list \<Rightarrow> BatchDecisionCommand \<Rightarrow> RequestDb \<Rightarrow>
   thrown + (string \<times> (DecisionItemFailure + DecisionResult)) list \<times> RequestDb" where
  "decideRequestsBatch newIds command db =
     (if length (bd_items command) > DECISION_BATCH_MAX_ITEMS then Inl (GenericError ''DECISION_BATCH_TOO_LARGE'')
      else Inr (batch_loop command (zip (bd_items command) newIds) db))"

end
