(* ===== verification/DeadlineInstant.thy ===== *)
theory DeadlineInstant
  imports RequestService
begin

text \<open>
  The instant a deadline expires at. Around at most one change of offset it is the first instant of the day after
  the deadline; where the clocks skip that midnight, the scan finds nothing and the instant is the midnight of UTC.
\<close>

lemma parts_midnight:
  assumes "first_day \<le> n" "n \<le> last_day" "first_day \<le> (t + off t) div MS_PER_DAY" "(t + off t) div MS_PER_DAY \<le> last_day"
    and "(t + off t) mod MS_PER_MINUTE = 0"
  shows "(let p = parts_at off t in zp_hour p = 0 \<and> zp_minute p = 0 \<and> zp_date p = iso_date n) \<longleftrightarrow>
    t + off t = n * MS_PER_DAY"
proof -
  define w where "w = t + off t"
  let ?k = "w div MS_PER_DAY"
  have k: "first_day \<le> ?k" "?k \<le> last_day" and m: "w mod MS_PER_MINUTE = 0" using assms(3-5) by (simp_all add: w_def)
  obtain y mo d where c: "days_to_civil ?k = (y, mo, d)" by (cases "days_to_civil ?k") auto
  have "formatCalendarDate \<lparr>cal_year = y, cal_month = mo, cal_day = d\<rparr> = dateFromEpochDays ?k"
    using c by (simp add: dateFromEpochDays_def)
  then have date: "zp_date (parts_at off t) = dateFromEpochDays ?k"
    by (simp add: parts_at_def Let_def c w_def[symmetric])
  have eq: "dateFromEpochDays ?k = iso_date n \<longleftrightarrow> ?k = n"
    unfolding iso_date_dateFromEpochDays[OF assms(1,2)]
    by (metis days_of_date[OF k] days_of_date[OF assms(1,2)] sum.inject(2))
  have split: "w = ?k * MS_PER_DAY + w mod MS_PER_DAY" by simp
  have mm: "w mod MS_PER_DAY mod MS_PER_HOUR mod MS_PER_MINUTE = 0"
    using m by (simp add: MS_PER_DAY_def MS_PER_HOUR_def MS_PER_MINUTE_def mod_mod_cancel)
  have r: "0 \<le> w mod MS_PER_DAY" "0 \<le> w mod MS_PER_DAY mod MS_PER_HOUR" by (simp_all add: MS_PER_DAY_def MS_PER_HOUR_def)
  have "w mod MS_PER_DAY div MS_PER_HOUR = 0 \<and> w mod MS_PER_DAY mod MS_PER_HOUR div MS_PER_MINUTE = 0 \<longleftrightarrow>
      w mod MS_PER_DAY = 0" (is "?l \<longleftrightarrow> ?r")
  proof
    assume ?l
    moreover have "w mod MS_PER_DAY mod MS_PER_HOUR =
        w mod MS_PER_DAY mod MS_PER_HOUR div MS_PER_MINUTE * MS_PER_MINUTE + w mod MS_PER_DAY mod MS_PER_HOUR mod MS_PER_MINUTE"
      by (rule div_mult_mod_eq[symmetric])
    moreover have "w mod MS_PER_DAY = w mod MS_PER_DAY div MS_PER_HOUR * MS_PER_HOUR + w mod MS_PER_DAY mod MS_PER_HOUR"
      by (rule div_mult_mod_eq[symmetric])
    ultimately show ?r using mm by simp
  qed simp
  moreover have "zp_hour (parts_at off t) = w mod MS_PER_DAY div MS_PER_HOUR"
    "zp_minute (parts_at off t) = w mod MS_PER_DAY mod MS_PER_HOUR div MS_PER_MINUTE"
    by (simp_all add: parts_at_def Let_def c w_def[symmetric])
  ultimately have "(let p = parts_at off t in zp_hour p = 0 \<and> zp_minute p = 0 \<and> zp_date p = iso_date n) \<longleftrightarrow>
      ?k = n \<and> w mod MS_PER_DAY = 0"
    using date eq by (auto simp: Let_def)
  also have "\<dots> \<longleftrightarrow> w = n * MS_PER_DAY" using split by (auto simp: MS_PER_DAY_def)
  finally show ?thesis by (simp add: w_def)
qed

lemma find_first: "find P [0..<k] = Some m \<longleftrightarrow> m < k \<and> P m \<and> (\<forall>j<m. \<not> P j)"
  by (auto simp: find_Some_iff)

text \<open>The scan over the minutes of a window from \<open>L\<close> finds \<open>r\<close>, if it passes there and no earlier.\<close>
lemma find_minute:
  assumes "\<And>m. m < k \<Longrightarrow> L + int m * MS_PER_MINUTE = r \<Longrightarrow> P m"
    and "\<And>m. m < k \<Longrightarrow> L + int m * MS_PER_MINUTE < r \<Longrightarrow> \<not> P m" "L \<le> r" "r < L + int k * MS_PER_MINUTE"
    and "L mod MS_PER_MINUTE = r mod MS_PER_MINUTE"
  shows "\<exists>m. find P [0..<k] = Some m \<and> L + int m * MS_PER_MINUTE = r"
proof -
  define m where "m = nat ((r - L) div MS_PER_MINUTE)"
  have "(r - L) mod MS_PER_MINUTE = 0" using assms(5) by (metis mod_eq_0_iff_dvd mod_eq_dvd_iff)
  then have "(r - L) div MS_PER_MINUTE * MS_PER_MINUTE = r - L" by (metis add.right_neutral div_mult_mod_eq)
  moreover have "0 \<le> (r - L) div MS_PER_MINUTE" using assms(3) by (simp add: pos_imp_zdiv_nonneg_iff MS_PER_MINUTE_def)
  ultimately have m: "L + int m * MS_PER_MINUTE = r" by (simp add: m_def)
  then have "m < k" using assms(4) by (simp add: MS_PER_MINUTE_def)
  moreover have "\<not> P j" if "j < m" for j
    using assms(2)[of j] that \<open>m < k\<close> m by (simp add: MS_PER_MINUTE_def)
  ultimately show ?thesis using assms(1)[of m] m find_first[of P k m] by blast
qed

lemma find_no_minute: "(\<And>m. m < k \<Longrightarrow> \<not> P m) \<Longrightarrow> find P [0..<k] = None"
  by (simp add: find_None_iff)

lemma deadlineInstant_one:
  assumes "daysFromEpoch d = Inr k" "first_day + 3 \<le> k" "k + 3 \<le> last_day" "tz zone = Some off"
    and N: "N = (k + 1) * MS_PER_DAY" and tr: "one_transition off (N - MS_PER_DAY) (N + MS_PER_DAY) T a b"
  shows "deadlineInstant tz d zone = Inr (if N - a < T then N - a else if T \<le> N - b then N - b else N)"
proof -
  let ?L = "N - MS_PER_DAY"
  let ?P = "\<lambda>m. let p = parts_at off (?L + int m * MS_PER_MINUTE) in
      zp_hour p = 0 \<and> zp_minute p = 0 \<and> zp_date p = iso_date (k + 1)"
  have ab: "a mod MS_PER_MINUTE = 0" "b mod MS_PER_MINUTE = 0" "\<bar>a\<bar> < MS_PER_DAY" "\<bar>b\<bar> < MS_PER_DAY"
    using tr by (auto simp: one_transition_def)
  have N0: "N mod MS_PER_MINUTE = 0" "?L mod MS_PER_MINUTE = 0"
    by (simp_all add: N MS_PER_DAY_def MS_PER_MINUTE_def mod_eq_0_iff_dvd)
  have P: "?P m \<longleftrightarrow> ?L + int m * MS_PER_MINUTE + (if ?L + int m * MS_PER_MINUTE < T then a else b) = N"
    if "m < 2881" for m
  proof -
    let ?t = "?L + int m * MS_PER_MINUTE"
    have le: "?L \<le> ?t" "?t \<le> N + MS_PER_DAY" using that by (simp_all add: MS_PER_DAY_def MS_PER_MINUTE_def)
    then have o: "off ?t = (if ?t < T then a else b)" by (rule one_transition_at[OF tr])
    have bound: "\<bar>off ?t\<bar> < MS_PER_DAY" "off ?t mod MS_PER_MINUTE = 0" using o ab by auto
    have "first_day * MS_PER_DAY \<le> ?t + off ?t" "?t + off ?t \<le> last_day * MS_PER_DAY"
      using le bound(1) assms(2,3) N by (simp_all add: MS_PER_DAY_def)
    then have "first_day * MS_PER_DAY div MS_PER_DAY \<le> (?t + off ?t) div MS_PER_DAY"
      "(?t + off ?t) div MS_PER_DAY \<le> last_day * MS_PER_DAY div MS_PER_DAY"
      by (intro zdiv_mono1; simp add: MS_PER_DAY_def)+
    then have dd: "first_day \<le> (?t + off ?t) div MS_PER_DAY" "(?t + off ?t) div MS_PER_DAY \<le> last_day"
      by (simp_all add: MS_PER_DAY_def)
    have "(?t + off ?t) mod MS_PER_MINUTE = 0"
      using N0(2) bound(2) unfolding mod_eq_0_iff_dvd by (intro dvd_add) simp_all
    from parts_midnight[where t = ?t and off = off and n = "k + 1", OF _ _ dd this] show ?thesis using o assms(2,3) N by simp
  qed
  have expand: "deadlineInstant tz d zone = Inr (case find ?P [0..<2881] of None \<Rightarrow> N | Some m \<Rightarrow> ?L + int m * MS_PER_MINUTE)"
    unfolding deadlineInstant_def nextDayNumber_def assms(1,4) Let_def N by simp
  have found: "deadlineInstant tz d zone = Inr r"
    if f: "r + (if r < T then a else b) = N" "\<And>t. t < r \<Longrightarrow> t + (if t < T then a else b) \<noteq> N"
      "?L \<le> r" "r < N + MS_PER_DAY" "r mod MS_PER_MINUTE = 0" for r
  proof -
    have "r < ?L + int 2881 * MS_PER_MINUTE" using f(4) by (simp add: MS_PER_DAY_def MS_PER_MINUTE_def)
    have "\<And>m. m < 2881 \<Longrightarrow> ?L + int m * MS_PER_MINUTE = r \<Longrightarrow> ?P m"
      "\<And>m. m < 2881 \<Longrightarrow> ?L + int m * MS_PER_MINUTE < r \<Longrightarrow> \<not> ?P m"
      unfolding P using f(1,2) by blast+
    from find_minute[of 2881 ?L r ?P, OF this f(3) \<open>r < ?L + int 2881 * MS_PER_MINUTE\<close>] obtain m
      where "find ?P [0..<2881] = Some m" "?L + int m * MS_PER_MINUTE = r" using N0(2) f(5) by auto
    then show ?thesis unfolding expand by simp
  qed
  have m0: "(N - c) mod MS_PER_MINUTE = 0" if "c mod MS_PER_MINUTE = 0" for c
    using that N0(1) by (auto simp: mod_eq_0_iff_dvd)
  consider "N - a < T" | "\<not> N - a < T" "T \<le> N - b" | "\<not> N - a < T" "\<not> T \<le> N - b" by blast
  then show ?thesis
  proof cases
    case 1
    have "deadlineInstant tz d zone = Inr (N - a)" by (rule found) (use 1 ab m0 in \<open>auto split: if_splits\<close>)
    then show ?thesis using 1 by simp
  next
    case 2
    have "deadlineInstant tz d zone = Inr (N - b)" by (rule found) (use 2 ab m0 in \<open>auto split: if_splits\<close>)
    then show ?thesis using 2 by simp
  next
    case 3
    have "find ?P [0..<2881] = None" by (rule find_no_minute) (use P 3 in \<open>auto split: if_splits\<close>)
    then show ?thesis unfolding expand using 3 by simp
  qed
qed

text \<open>C24: around at most one change of the clocks, the expiry of a deadline is the first instant whose local date is
  after the deadline day, at its local midnight; only when the clocks skip that midnight does it become the
  midnight of UTC, where a zone behind UTC still has hours of the deadline day to go.\<close>
theorem deadline_expires_at_midnight:
  assumes "daysFromEpoch d = Inr k" "first_day + 3 \<le> k" "k + 3 \<le> last_day" "tz zone = Some off"
    and tr: "one_transition off (k * MS_PER_DAY) ((k + 2) * MS_PER_DAY) T a b"
  shows "\<exists>r. deadlineInstant tz d zone = Inr r \<and>
    (if \<exists>t. k * MS_PER_DAY \<le> t \<and> t \<le> (k + 2) * MS_PER_DAY \<and> t + off t = (k + 1) * MS_PER_DAY
     then r + off r = (k + 1) * MS_PER_DAY \<and>
       (\<forall>t. k * MS_PER_DAY \<le> t \<longrightarrow> t < r \<longrightarrow> t + off t < (k + 1) * MS_PER_DAY)
     else r = (k + 1) * MS_PER_DAY)"
proof -
  define N where "N = (k + 1) * MS_PER_DAY"
  have W: "k * MS_PER_DAY = N - MS_PER_DAY" "(k + 2) * MS_PER_DAY = N + MS_PER_DAY" by (simp_all add: N_def algebra_simps)
  note tr' = tr[unfolded W]
  have ab: "\<bar>a\<bar> < MS_PER_DAY" "\<bar>b\<bar> < MS_PER_DAY" using tr by (auto simp: one_transition_def)
  have off: "off t = (if t < T then a else b)" if "N - MS_PER_DAY \<le> t" "t \<le> N + MS_PER_DAY" for t
    by (rule one_transition_at[OF tr' that])
  let ?r = "if N - a < T then N - a else if T \<le> N - b then N - b else N"
  have r: "deadlineInstant tz d zone = Inr ?r" using deadlineInstant_one[where tz = tz, OF assms(1-4) N_def tr'] .
  show ?thesis
  proof (intro exI[of _ ?r] conjI r)
    show "if \<exists>t. k * MS_PER_DAY \<le> t \<and> t \<le> (k + 2) * MS_PER_DAY \<and> t + off t = (k + 1) * MS_PER_DAY
      then ?r + off ?r = (k + 1) * MS_PER_DAY \<and>
        (\<forall>t. k * MS_PER_DAY \<le> t \<longrightarrow> t < ?r \<longrightarrow> t + off t < (k + 1) * MS_PER_DAY)
      else ?r = (k + 1) * MS_PER_DAY"
      unfolding W N_def[symmetric]
    proof (cases "N - a < T \<or> T \<le> N - b")
      case True
      have "?r + off ?r = N" "\<And>t. N - MS_PER_DAY \<le> t \<Longrightarrow> t < ?r \<Longrightarrow> t + off t < N"
        using True ab off by (auto simp: split: if_splits)
      moreover have "N - MS_PER_DAY \<le> ?r" "?r \<le> N + MS_PER_DAY" using ab by auto
      ultimately show "if \<exists>t. N - MS_PER_DAY \<le> t \<and> t \<le> N + MS_PER_DAY \<and> t + off t = N
        then ?r + off ?r = N \<and> (\<forall>t. N - MS_PER_DAY \<le> t \<longrightarrow> t < ?r \<longrightarrow> t + off t < N) else ?r = N" by auto
    next
      case False
      have "t + off t \<noteq> N" if "N - MS_PER_DAY \<le> t" "t \<le> N + MS_PER_DAY" for t
        using off[OF that] False by auto
      then show "if \<exists>t. N - MS_PER_DAY \<le> t \<and> t \<le> N + MS_PER_DAY \<and> t + off t = N
        then ?r + off ?r = N \<and> (\<forall>t. N - MS_PER_DAY \<le> t \<longrightarrow> t < ?r \<longrightarrow> t + off t < N) else ?r = N"
        using False by auto
    qed
  qed
qed

lemma deadline_expires_at_midnight_witness:
  "deadlineInstant sample_zones ''2024-03-09'' ''America/Havana'' = Inr 1710028800000 \<and>
   zp_date (parts_at (the (sample_zones ''America/Havana'')) 1710028800000) = ''2024-03-09'' \<and>
   zp_time (parts_at (the (sample_zones ''America/Havana'')) 1710028800000) = ''19:00''"
proof -
  let ?off = "\<lambda>t::int. if t < 1710046800000 then - 18000000 else - 14400000 :: int"
  have d: "daysFromEpoch ''2024-03-09'' = Inr 19791" by code_simp
  have z: "sample_zones ''America/Havana'' = Some ?off" by (simp add: sample_zones_def)
  have tr: "one_transition ?off (19791 * MS_PER_DAY) ((19791 + 2) * MS_PER_DAY) 1710046800000 (- 18000000) (- 14400000)"
    by (simp add: one_transition_def MS_PER_DAY_def MS_PER_MINUTE_def)
  have none: "(\<exists>t. 19791 * MS_PER_DAY \<le> t \<and> t \<le> (19791 + 2) * MS_PER_DAY \<and> t + ?off t = (19791 + 1) * MS_PER_DAY) = False"
    by (auto simp: MS_PER_DAY_def)
  have r: "first_day + 3 \<le> 19791" "19791 + 3 \<le> last_day" by (simp_all add: first_day_def last_day_def)
  obtain r where "deadlineInstant sample_zones ''2024-03-09'' ''America/Havana'' = Inr r" "r = (19791 + 1) * MS_PER_DAY"
    using deadline_expires_at_midnight[where tz = sample_zones and zone = "''America/Havana''", OF d r z tr]
    unfolding none if_False by blast
  then have "deadlineInstant sample_zones ''2024-03-09'' ''America/Havana'' = Inr 1710028800000"
    by (simp add: MS_PER_DAY_def)
  moreover have "zp_date (parts_at (the (sample_zones ''America/Havana'')) 1710028800000) = ''2024-03-09''"
    "zp_time (parts_at (the (sample_zones ''America/Havana'')) 1710028800000) = ''19:00''"
    by code_simp+
  ultimately show ?thesis by simp
qed

end
