(* ===== verification/Effects.thy ===== *)
theory Effects
  imports Prelude
begin

text \<open>
  Services over the database. A service call either throws, and then the unit of work rolls the transaction
  back, so that no state is left to speak of, or returns a value with the tables it leaves. \<open>seq\<close> is the
  \<open>await\<close> between two statements, \<open>for_each\<close> the \<open>for\<close> loop over rows. \<open>triple\<close> is partial correctness of a call,
  \<open>keeps\<close> an invariant and \<open>leaves\<close> a part of the state it does not write; the rules compose them along the
  code.
\<close>

section \<open>Service calls\<close>

type_synonym ('s, 'e, 'a) action = "'s \<Rightarrow> 'e + 'a \<times> 's"

definition ret :: "'a \<Rightarrow> ('s, 'e, 'a) action" where
  "ret a s = Inr (a, s)"

definition refuse :: "'e \<Rightarrow> ('s, 'e, 'a) action" where
  "refuse e s = Inl e"

definition seq :: "('s, 'e, 'a) action \<Rightarrow> ('a \<Rightarrow> ('s, 'e, 'b) action) \<Rightarrow> ('s, 'e, 'b) action" where
  "seq m f s = (case m s of Inl e \<Rightarrow> Inl e | Inr (a, s') \<Rightarrow> f a s')"

definition demand :: "bool \<Rightarrow> 'e \<Rightarrow> ('s, 'e, unit) action" where
  "demand b e = (if b then ret () else refuse e)"

definition require_row :: "'e \<Rightarrow> 'a option \<Rightarrow> ('s, 'e, 'a) action" where
  "require_row e x = (case x of None \<Rightarrow> refuse e | Some a \<Rightarrow> ret a)"

definition query :: "('s \<Rightarrow> 'a) \<Rightarrow> ('s, 'e, 'a) action" where
  "query f s = Inr (f s, s)"

definition store :: "('s \<Rightarrow> 's) \<Rightarrow> ('s, 'e, unit) action" where
  "store f s = Inr ((), f s)"

fun for_each :: "('x \<Rightarrow> ('s, 'e, 'a) action) \<Rightarrow> 'x list \<Rightarrow> ('s, 'e, 'a list) action" where
  "for_each f [] = ret []"
| "for_each f (x # xs) = seq (f x) (\<lambda>a. seq (for_each f xs) (\<lambda>as. ret (a # as)))"

section \<open>What a call that returns has done\<close>

lemma ret_Inr [simp]: "ret a s = Inr (b, t) \<longleftrightarrow> b = a \<and> t = s"
  by (auto simp: ret_def)

lemma refuse_Inr [simp]: "refuse e s \<noteq> Inr r"
  by (simp add: refuse_def)

lemma query_Inr [simp]: "query f s = Inr (b, t) \<longleftrightarrow> b = f s \<and> t = s"
  by (auto simp: query_def)

lemma store_Inr [simp]: "store f s = Inr (b, t) \<longleftrightarrow> t = f s"
  by (auto simp: store_def)

lemma demand_Inr [simp]: "demand b e s = Inr (u, t) \<longleftrightarrow> b \<and> t = s"
  by (auto simp: demand_def)

lemma require_row_Inr [simp]: "require_row e x s = Inr (a, t) \<longleftrightarrow> x = Some a \<and> t = s"
  by (auto simp: require_row_def split: option.splits)

lemma seq_Inr: "seq m f s = Inr (b, t) \<longleftrightarrow> (\<exists>a s'. m s = Inr (a, s') \<and> f a s' = Inr (b, t))"
  by (auto simp: seq_def split: sum.splits)

lemma seq_InrE:
  assumes "seq m f s = Inr (b, t)"
  obtains a s' where "m s = Inr (a, s')" "f a s' = Inr (b, t)"
  using assms by (auto simp: seq_Inr)

lemma seq_Inl: "seq m f s = Inl e \<longleftrightarrow> m s = Inl e \<or> (\<exists>a s'. m s = Inr (a, s') \<and> f a s' = Inl e)"
  by (auto simp: seq_def split: sum.splits)

lemma seq_ret: "seq (ret a) f s = f a s"
  by (simp add: seq_def ret_def)

lemma seq_refuse: "seq (refuse e) f s = Inl e"
  by (simp add: seq_def refuse_def)

lemma seq_query: "seq (query g) f s = f (g s) s"
  by (simp add: seq_def query_def)

lemma seq_store: "seq (store w) f s = f () (w s)"
  by (simp add: seq_def store_def)

lemma seq_demand: "seq (demand b e) f s = (if b then f () s else Inl e)"
  by (simp add: seq_def demand_def ret_def refuse_def)

lemma seq_row: "seq (require_row e x) f s = (case x of None \<Rightarrow> Inl e | Some a \<Rightarrow> f a s)"
  by (simp add: seq_def require_row_def ret_def refuse_def split: option.split)

lemma seq_seq: "seq (seq m f) g s = seq m (\<lambda>a. seq (f a) g) s"
  by (simp add: seq_def split: sum.split)

lemmas running = seq_ret seq_refuse seq_query seq_store seq_demand seq_row seq_seq

section \<open>Partial correctness\<close>

named_theorems keeping \<open>calls that keep an invariant\<close>
named_theorems leaving \<open>calls that leave a part of the state alone\<close>

definition triple :: "('s \<Rightarrow> bool) \<Rightarrow> ('s, 'e, 'a) action \<Rightarrow> ('a \<Rightarrow> 's \<Rightarrow> bool) \<Rightarrow> bool" where
  "triple P m Q \<longleftrightarrow> (\<forall>s a t. P s \<longrightarrow> m s = Inr (a, t) \<longrightarrow> Q a t)"

definition keeps :: "('s \<Rightarrow> bool) \<Rightarrow> ('s, 'e, 'a) action \<Rightarrow> bool" where
  "keeps P m \<longleftrightarrow> triple P m (\<lambda>_. P)"

definition leaves :: "('s \<Rightarrow> 'v) \<Rightarrow> ('s, 'e, 'a) action \<Rightarrow> bool" where
  "leaves f m \<longleftrightarrow> (\<forall>s a t. m s = Inr (a, t) \<longrightarrow> f t = f s)"

lemma tripleI: "(\<And>s a t. P s \<Longrightarrow> m s = Inr (a, t) \<Longrightarrow> Q a t) \<Longrightarrow> triple P m Q"
  by (simp add: triple_def)

lemma tripleD: "triple P m Q \<Longrightarrow> P s \<Longrightarrow> m s = Inr (a, t) \<Longrightarrow> Q a t"
  by (auto simp: triple_def)

lemma triple_seq:
  "triple P m R \<Longrightarrow> (\<And>a. triple (R a) (f a) Q) \<Longrightarrow> triple P (seq m f) Q"
  unfolding triple_def seq_Inr by blast

lemma triple_pre: "triple P' m Q \<Longrightarrow> (\<And>s. P s \<Longrightarrow> P' s) \<Longrightarrow> triple P m Q"
  by (auto simp: triple_def)

lemma triple_post: "triple P m Q' \<Longrightarrow> (\<And>a s. Q' a s \<Longrightarrow> Q a s) \<Longrightarrow> triple P m Q"
  by (auto simp: triple_def)

lemma triple_conj: "triple P m Q \<Longrightarrow> triple P' m Q' \<Longrightarrow> triple (\<lambda>s. P s \<and> P' s) m (\<lambda>a s. Q a s \<and> Q' a s)"
  by (auto simp: triple_def)

lemma keepsI: "(\<And>s a t. P s \<Longrightarrow> m s = Inr (a, t) \<Longrightarrow> P t) \<Longrightarrow> keeps P m"
  by (simp add: keeps_def triple_def)

lemma keepsD: "keeps P m \<Longrightarrow> P s \<Longrightarrow> m s = Inr (a, t) \<Longrightarrow> P t"
  by (auto simp: keeps_def triple_def)

lemma keeps_seq [keeping]: "keeps P m \<Longrightarrow> (\<And>a. keeps P (f a)) \<Longrightarrow> keeps P (seq m f)"
  unfolding keeps_def by (rule triple_seq)

lemma keeps_basic [keeping]:
  "keeps P (ret a)" "keeps P (refuse e)" "keeps P (query f)" "keeps P (demand b e)" "keeps P (require_row e x)"
  by (simp_all add: keeps_def triple_def)

lemma keeps_for_each [keeping]: "(\<And>x. x \<in> set xs \<Longrightarrow> keeps P (f x)) \<Longrightarrow> keeps P (for_each f xs)"
  by (induction xs) (auto intro!: keeps_seq keeps_basic)

lemma keeps_if [keeping]: "(b \<Longrightarrow> keeps P m) \<Longrightarrow> (\<not> b \<Longrightarrow> keeps P n) \<Longrightarrow> keeps P (if b then m else n)"
  by simp

lemma keeps_store: "(\<And>s. P s \<Longrightarrow> P (f s)) \<Longrightarrow> keeps P (store f)"
  by (simp add: keeps_def triple_def)

lemma leaves_seq [leaving]: "leaves v m \<Longrightarrow> (\<And>a. leaves v (f a)) \<Longrightarrow> leaves v (seq m f)"
  unfolding leaves_def seq_Inr by fastforce

lemma leaves_basic [leaving]:
  "leaves v (ret a)" "leaves v (refuse e)" "leaves v (query f)" "leaves v (demand b e)" "leaves v (require_row e x)"
  by (simp_all add: leaves_def)

lemma leaves_for_each [leaving]: "(\<And>x. x \<in> set xs \<Longrightarrow> leaves v (f x)) \<Longrightarrow> leaves v (for_each f xs)"
  by (induction xs) (auto intro!: leaves_seq leaves_basic)

lemma leaves_if [leaving]: "(b \<Longrightarrow> leaves v m) \<Longrightarrow> (\<not> b \<Longrightarrow> leaves v n) \<Longrightarrow> leaves v (if b then m else n)"
  by simp

lemma leaves_store: "(\<And>s. v (f s) = v s) \<Longrightarrow> leaves v (store f)"
  by (simp add: leaves_def)

lemma leavesD: "leaves v m \<Longrightarrow> m s = Inr (a, t) \<Longrightarrow> v t = v s"
  by (auto simp: leaves_def)

lemma keeps_leaves: "leaves v m \<Longrightarrow> keeps (\<lambda>s. P (v s)) m"
  unfolding leaves_def keeps_def triple_def by metis

end
