(* ===== verification/StepSystem.thy ===== *)
theory StepSystem
  imports Prelude
begin

text \<open>
  Runs of a state machine whose step relation is given: the states it reaches and the steps between two of them.
  The locale lifts an invariant and a history relation from single steps to runs.
\<close>

inductive reachable :: "('s \<Rightarrow> bool) \<Rightarrow> ('s \<Rightarrow> 's \<Rightarrow> bool) \<Rightarrow> 's \<Rightarrow> bool" for start step where
  start: "start s \<Longrightarrow> reachable start step s"
| step: "reachable start step s \<Longrightarrow> step s t \<Longrightarrow> reachable start step t"

inductive steps :: "('s \<Rightarrow> 's \<Rightarrow> bool) \<Rightarrow> 's \<Rightarrow> 's \<Rightarrow> bool" for step where
  none: "steps step s s"
| more: "steps step s t \<Longrightarrow> step t u \<Longrightarrow> steps step s u"

lemma reachable_mono: "reachable start step s \<Longrightarrow> (\<And>s. start s \<Longrightarrow> start' s) \<Longrightarrow> reachable start' step s"
  by (induction rule: reachable.induct) (auto intro: reachable.intros)

lemma reachable_steps: "steps step s t \<Longrightarrow> reachable start step s \<Longrightarrow> reachable start step t"
  by (induction rule: steps.induct) (auto intro: reachable.intros)

locale step_system =
  fixes start :: "'s \<Rightarrow> bool" and step :: "'s \<Rightarrow> 's \<Rightarrow> bool" and inv :: "'s \<Rightarrow> bool"
    and kept :: "'s \<Rightarrow> 's \<Rightarrow> bool"
  assumes start_inv: "start s \<Longrightarrow> inv s"
    and step_inv: "step s t \<Longrightarrow> inv s \<Longrightarrow> inv t"
    and step_kept: "step s t \<Longrightarrow> inv s \<Longrightarrow> kept s t"
    and kept_refl: "kept s s"
    and kept_trans: "kept s t \<Longrightarrow> kept t u \<Longrightarrow> kept s u"
begin

lemma reachable_inv: "reachable start step s \<Longrightarrow> inv s"
  by (induction rule: reachable.induct) (auto intro: start_inv step_inv)

lemma steps_inv: "steps step s t \<Longrightarrow> inv s \<Longrightarrow> inv t \<and> kept s t"
  by (induction rule: steps.induct) (auto intro: step_inv step_kept kept_refl kept_trans)

end

end
