(* ===== verification/ScheduleTables.thy ===== *)
theory ScheduleTables
  imports Effects
begin

text \<open>
  The rows the schedule services of \<open>apps/api/src/schedule\<close> read and write, one list per table, and the
  errors they throw. The tenant columns and the \<open>updated_at\<close> stamps are left out; \<open>Date\<close> values are
  milliseconds. The refusals of the database that the services rely on and do not check themselves
  (migrations 0009 and 0015) are \<open>Database\<close> errors of the statement they belong to. \<open>randomUUID\<close> draws the next
  of the identifiers \<open>uuid 0\<close>, \<open>uuid 1\<close>, \<open>...\<close>.
\<close>

section \<open>Rows\<close>

datatype VersionState = VDraft | VInReview | VApproved | VPublishing | VPublished | VSuperseded | VCancelled
datatype PeriodStatus = PPlanning | PPublished | PClosed
datatype LockState = Unlocked | Locked
datatype SnapshotOrigin = OriginManual | OriginSolver | OriginVacationCommit | OriginClone
datatype SnapshotStatus = SnapActive | SnapCancelled
datatype CreditStatus = CreditActive | CreditReassigned | CreditVoided
datatype ConflictSeverity = HardBreach | SoftConflict | InfoConflict
datatype ConflictState = ConflictOpen | ConflictAccepted | ConflictResolved
datatype PublicationOperation = OpPublish | OpRevert

record PeriodRow =
  pr_id :: string
  pr_name :: string
  pr_start :: string
  pr_end :: string
  pr_status :: PeriodStatus

record VersionRow =
  v_id :: string
  v_period :: string
  v_number :: "int option"
  v_state :: VersionState
  v_lock :: LockState
  v_current :: bool
  v_clonedFrom :: "string option"
  v_zone :: "string option"
  v_tzdb :: "string option"
  v_supersededBy :: "string option"

record ShiftRow =
  sh_id :: string
  sh_version :: string
  sh_date :: string
  sh_type :: string
  sh_location :: "string option"
  sh_required :: int

record SnapshotRow =
  sn_id :: string
  sn_identity :: string
  sn_version :: string
  sn_member :: string
  sn_shift :: string
  sn_date :: string
  sn_starts :: int
  sn_ends :: int
  sn_origin :: SnapshotOrigin
  sn_pick :: "int option"
  sn_pinned :: bool
  sn_status :: SnapshotStatus
  sn_supersedes :: "string option"
  sn_override :: "string option"

record CreditRow =
  cr_id :: string
  cr_identity :: string
  cr_version :: string
  cr_snapshot :: string
  cr_member :: string
  cr_weight :: string
  cr_reason :: "string option"
  cr_movedBy :: "string option"
  cr_status :: CreditStatus

record ConflictRow =
  cf_id :: string
  cf_version :: string
  cf_severity :: ConflictSeverity
  cf_explanation :: "string option"
  cf_state :: ConflictState

record RequirementRow =
  rr_id :: string
  rr_period :: string
  rr_date :: string
  rr_type :: string
  rr_count :: int

record MembershipRow =
  mb_id :: string
  mb_kind :: string
  mb_status :: string
  mb_validFrom :: int
  mb_validTo :: "int option"

text \<open>A row of \<open>current_published_assignments\<close>, the reality of who is where.\<close>
record RealityRow =
  ra_member :: string
  ra_period :: string
  ra_starts :: int
  ra_ends :: int
  ra_version :: string
  ra_snapshot :: string
  ra_identity :: string

record PublicationRow =
  pb_period :: string
  pb_version :: string
  pb_key :: string
  pb_operation :: PublicationOperation
  pb_digest :: "string option"
  pb_number :: int
  pb_prior :: "string option"
  pb_affected :: "string list"

record ScheduleDb =
  period_rows :: "PeriodRow list"
  version_rows :: "VersionRow list"
  shift_rows :: "ShiftRow list"
  identity_rows :: "(string \<times> string) list"
  snapshot_rows :: "SnapshotRow list"
  credit_rows :: "CreditRow list"
  conflict_rows :: "ConflictRow list"
  requirement_rows :: "RequirementRow list"
  reality_rows :: "RealityRow list"
  publication_rows :: "PublicationRow list"
  supersession_rows :: "(string \<times> string) list"
  membership_rows :: "MembershipRow list"
  group_zone :: "string option"
  set_versions :: "(string \<times> int) list"
  schedule_audit :: "(string \<times> string) list"
  schedule_outbox :: "(string \<times> string) list"
  draws :: nat

section \<open>Errors\<close>

datatype schedule_error =
    SchedulePreconditionError string
  | ScheduleTransitionError VersionState VersionState
  | ScheduleDeniedError string
  | Database string
  | UnexpectedError string

type_synonym 'a service = "(ScheduleDb, schedule_error, 'a) action"

section \<open>Statements shared by the services\<close>

definition randomUUID :: "(nat \<Rightarrow> string) \<Rightarrow> string service" where
  "randomUUID uuid db = Inr (uuid (draws db), db\<lparr>draws := draws db + 1\<rparr>)"

definition recordAudit :: "string \<Rightarrow> string \<Rightarrow> unit service" where
  "recordAudit eventName subject =
     store (\<lambda>db. db\<lparr>schedule_audit := schedule_audit db @ [(eventName, subject)]\<rparr>)"

definition publishOutbox :: "string \<Rightarrow> string \<Rightarrow> unit service" where
  "publishOutbox kind key = store (\<lambda>db. db\<lparr>schedule_outbox := schedule_outbox db @ [(kind, key)]\<rparr>)"

text \<open>\<open>UPDATE ... WHERE id = ...\<close> on the versions.\<close>
definition update_version :: "string \<Rightarrow> (VersionRow \<Rightarrow> VersionRow) \<Rightarrow> ScheduleDb \<Rightarrow> ScheduleDb" where
  "update_version i f db =
     db\<lparr>version_rows := map (\<lambda>v. if v_id v = i then f v else v) (version_rows db)\<rparr>"

definition find_version :: "string \<Rightarrow> ScheduleDb \<Rightarrow> VersionRow option" where
  "find_version i db = find (\<lambda>v. v_id v = i) (version_rows db)"

definition find_period :: "string \<Rightarrow> ScheduleDb \<Rightarrow> PeriodRow option" where
  "find_period i db = find (\<lambda>p. pr_id p = i) (period_rows db)"

text \<open>The insert guard of a closed period (migration 0015, 2a).\<close>
definition period_open_guard :: "string \<Rightarrow> unit service" where
  "period_open_guard i db =
     demand (\<forall>p. find_period i db = Some p \<longrightarrow> pr_status p \<noteq> PClosed) (Database ''PERIOD_CLOSED'') db"

lemma find_period_guard [code]:
  "period_open_guard i db =
     (case find_period i db of None \<Rightarrow> ret () db
      | Some p \<Rightarrow> demand (pr_status p \<noteq> PClosed) (Database ''PERIOD_CLOSED'') db)"
  by (simp add: period_open_guard_def demand_def split: option.splits)

text \<open>\<open>INSERT INTO schedule_versions\<close>\<close>
definition insert_version :: "VersionRow \<Rightarrow> unit service" where
  "insert_version v =
     seq (period_open_guard (v_period v)) (\<lambda>_. store (\<lambda>db. db\<lparr>version_rows := version_rows db @ [v]\<rparr>))"

text \<open>\<open>INSERT INTO assignment_snapshots\<close>, with the interval check and one snapshot per identity and version.\<close>
definition insert_snapshot :: "SnapshotRow \<Rightarrow> unit service" where
  "insert_snapshot sn =
     seq (demand (sn_starts sn < sn_ends sn) (Database ''assignment_snapshots_interval'')) (\<lambda>_.
     seq (query (\<lambda>db. \<exists>x \<in> set (snapshot_rows db). sn_version x = sn_version sn \<and> sn_identity x = sn_identity sn)) (\<lambda>taken.
     seq (demand (\<not> taken) (Database ''assignment_snapshots_one_per_identity_version'')) (\<lambda>_.
     store (\<lambda>db. db\<lparr>snapshot_rows := snapshot_rows db @ [sn]\<rparr>))))"

end
