(* ===== verification/ScheduleService.thy ===== *)
theory ScheduleService
  imports ScheduleTables
begin

text \<open>
  \<open>apps/api/src/schedule/service.ts\<close>, the authoring of draft versions, and the version basis of
  \<open>timezone.ts\<close>. \<open>permit\<close> is the verdict of the authorization evaluator on an action of the acting membership,
  \<open>tzdb\<close> the version of the host's time-zone database.
\<close>

section \<open>Guards\<close>

datatype ScheduleActionName = PeriodAdminister | VersionEdit | PublishAction | RevertAction

fun action_key :: "ScheduleActionName \<Rightarrow> string" where
  "action_key PeriodAdminister = ''schedule.period.administer''"
| "action_key VersionEdit = ''schedule.version.edit''"
| "action_key PublishAction = ''schedule.publish''"
| "action_key RevertAction = ''schedule.revert''"

definition requireScheduleCapability :: "(string \<Rightarrow> bool) \<Rightarrow> ScheduleActionName \<Rightarrow> unit service" where
  "requireScheduleCapability permit action =
     demand (permit (action_key action)) (ScheduleDeniedError (action_key action))"

definition EDITABLE_STATES :: "VersionState list" where
  "EDITABLE_STATES = [VDraft]"

fun LEGAL_TRANSITIONS :: "VersionState \<Rightarrow> VersionState list" where
  "LEGAL_TRANSITIONS VDraft = [VInReview, VCancelled]"
| "LEGAL_TRANSITIONS VInReview = [VDraft, VApproved, VCancelled]"
| "LEGAL_TRANSITIONS VApproved = [VDraft, VCancelled]"
| "LEGAL_TRANSITIONS VPublishing = []"
| "LEGAL_TRANSITIONS VPublished = []"
| "LEGAL_TRANSITIONS VSuperseded = []"
| "LEGAL_TRANSITIONS VCancelled = []"

definition loadVersion :: "string \<Rightarrow> VersionRow service" where
  "loadVersion i = seq (query (find_version i)) (require_row (SchedulePreconditionError ''VERSION_NOT_FOUND''))"

definition assertEditable :: "VersionRow \<Rightarrow> unit service" where
  "assertEditable version =
     seq (demand (v_state version \<in> set EDITABLE_STATES) (SchedulePreconditionError ''VERSION_NOT_EDITABLE''))
       (\<lambda>_. demand (v_lock version \<noteq> Locked) (SchedulePreconditionError ''VERSION_LOCKED''))"

section \<open>Time zone basis\<close>

datatype TimezoneBasisState =
    FreshBasis string string
  | UnrecordedBasis string
  | StaleBasis string string string string

definition groupTimezone :: "ScheduleDb \<Rightarrow> string" where
  "groupTimezone db = (case group_zone db of None \<Rightarrow> ''UTC'' | Some z \<Rightarrow> z)"

definition readTimezoneBasis :: "string \<Rightarrow> ScheduleDb \<Rightarrow> (string \<times> string) option" where
  "readTimezoneBasis i db =
     (case find_version i db of
        None \<Rightarrow> None
      | Some v \<Rightarrow> (case v_zone v of None \<Rightarrow> None
          | Some z \<Rightarrow> Some (z, case v_tzdb v of None \<Rightarrow> ''unknown'' | Some t \<Rightarrow> t)))"

fun classifyTimezoneBasis :: "string \<Rightarrow> (string \<times> string) option \<Rightarrow> string \<Rightarrow> TimezoneBasisState" where
  "classifyTimezoneBasis tzdb None currentZone = UnrecordedBasis currentZone"
| "classifyTimezoneBasis tzdb (Some (zone, basisTzdb)) currentZone =
     (if zone = currentZone then FreshBasis zone basisTzdb else StaleBasis zone basisTzdb currentZone tzdb)"

definition assertTimezoneBasisFresh :: "string \<Rightarrow> string \<Rightarrow> TimezoneBasisState service" where
  "assertTimezoneBasisFresh tzdb i =
     seq (query (\<lambda>db. classifyTimezoneBasis tzdb (readTimezoneBasis i db) (groupTimezone db))) (\<lambda>state.
       case state of
         StaleBasis _ _ _ _ \<Rightarrow> refuse (SchedulePreconditionError ''TIMEZONE_BASIS_STALE'')
       | _ \<Rightarrow> ret state)"

definition resolveRenderTimezone :: "string \<Rightarrow> string option \<Rightarrow> ScheduleDb \<Rightarrow> string \<times> string" where
  "resolveRenderTimezone tzdb versionId db =
     (case versionId of
        None \<Rightarrow> (groupTimezone db, tzdb)
      | Some i \<Rightarrow> (case readTimezoneBasis i db of Some basis \<Rightarrow> basis | None \<Rightarrow> (groupTimezone db, tzdb)))"

definition draftsAffectedByTimezoneChange :: "string \<Rightarrow> ScheduleDb \<Rightarrow> (string \<times> string) list" where
  "draftsAffectedByTimezoneChange fromZone db =
     map (\<lambda>v. (v_id v, v_period v)) (sort_key v_id
       (filter (\<lambda>v. v_state v \<in> {VDraft, VInReview, VApproved} \<and> v_zone v = Some fromZone) (version_rows db)))"

section \<open>Periods and requirements\<close>

text \<open>The range check, the unique name and the exclusion of overlapping periods are the database's.\<close>
definition createPeriod :: "(nat \<Rightarrow> string) \<Rightarrow> (string \<Rightarrow> bool) \<Rightarrow> string \<Rightarrow> string \<Rightarrow> string \<Rightarrow> string service" where
  "createPeriod uuid permit name startDate endDate =
     seq (requireScheduleCapability permit PeriodAdminister) (\<lambda>_.
     seq (randomUUID uuid) (\<lambda>i.
     seq (demand (startDate \<le> endDate) (Database ''schedule_periods_dates'')) (\<lambda>_.
     seq (query (\<lambda>db. name \<in> set (map pr_name (period_rows db)))) (\<lambda>taken.
     seq (demand (\<not> taken) (Database ''schedule_periods_name_unique_in_group'')) (\<lambda>_.
     seq (query (\<lambda>db. \<exists>p \<in> set (period_rows db). startDate \<le> pr_end p \<and> pr_start p \<le> endDate)) (\<lambda>overlaps.
     seq (demand (\<not> overlaps) (Database ''schedule_periods_no_overlap'')) (\<lambda>_.
     seq (store (\<lambda>db. db\<lparr>period_rows := period_rows db @
         [\<lparr>pr_id = i, pr_name = name, pr_start = startDate, pr_end = endDate, pr_status = PPlanning\<rparr>]\<rparr>)) (\<lambda>_.
     seq (recordAudit ''schedule.period.created'' i) (\<lambda>_. ret i)))))))))"

text \<open>The trigger of migration 0012 bumps the version of the period's requirement set once per row written; a set
  never written has version 1.\<close>
definition ABSENT_SET_VERSION :: int where "ABSENT_SET_VERSION = 1"

definition readStaffingSetVersion :: "string \<Rightarrow> ScheduleDb \<Rightarrow> int" where
  "readStaffingSetVersion periodId db =
     (case map_of (set_versions db) periodId of None \<Rightarrow> ABSENT_SET_VERSION | Some n \<Rightarrow> n)"

definition bump_set_version :: "string \<Rightarrow> unit service" where
  "bump_set_version periodId =
     store (\<lambda>db. db\<lparr>set_versions := (periodId, readStaffingSetVersion periodId db + 1) # set_versions db\<rparr>)"

definition insert_requirement :: "RequirementRow \<Rightarrow> unit service" where
  "insert_requirement r =
     seq (period_open_guard (rr_period r)) (\<lambda>_.
     seq (store (\<lambda>db. db\<lparr>requirement_rows := requirement_rows db @ [r]\<rparr>)) (\<lambda>_.
     bump_set_version (rr_period r)))"

definition update_requirement :: "RequirementRow \<Rightarrow> int \<Rightarrow> unit service" where
  "update_requirement r count =
     seq (store (\<lambda>db. db\<lparr>requirement_rows :=
         map (\<lambda>x. if rr_id x = rr_id r then x\<lparr>rr_count := count\<rparr> else x) (requirement_rows db)\<rparr>)) (\<lambda>_.
     bump_set_version (rr_period r))"

definition delete_requirement :: "RequirementRow \<Rightarrow> unit service" where
  "delete_requirement r =
     seq (store (\<lambda>db. db\<lparr>requirement_rows := filter (\<lambda>x. rr_id x \<noteq> rr_id r) (requirement_rows db)\<rparr>)) (\<lambda>_.
     bump_set_version (rr_period r))"

text \<open>\<open>INSERT ... ON CONFLICT DO UPDATE\<close> on period, date and type; the insert guard of a closed period fires
  before the conflict is looked at.\<close>
definition setRequirement ::
  "(nat \<Rightarrow> string) \<Rightarrow> (string \<Rightarrow> bool) \<Rightarrow> string \<Rightarrow> string \<Rightarrow> string \<Rightarrow> int \<Rightarrow> string service" where
  "setRequirement uuid permit periodId d shiftTypeId count =
     seq (requireScheduleCapability permit PeriodAdminister) (\<lambda>_.
     seq (randomUUID uuid) (\<lambda>i.
     seq (period_open_guard periodId) (\<lambda>_.
     seq (query (\<lambda>db. find (\<lambda>r. rr_period r = periodId \<and> rr_date r = d \<and> rr_type r = shiftTypeId)
         (requirement_rows db))) (\<lambda>existing.
     seq (case existing of
            None \<Rightarrow> seq (insert_requirement
              \<lparr>rr_id = i, rr_period = periodId, rr_date = d, rr_type = shiftTypeId, rr_count = count\<rparr>) (\<lambda>_. ret i)
          | Some r \<Rightarrow> seq (update_requirement r count) (\<lambda>_. ret (rr_id r))) (\<lambda>inserted.
     seq (recordAudit ''schedule.period.updated'' periodId) (\<lambda>_. ret inserted))))))"


record RequirementSetEntry =
  re_date :: string
  re_type :: string
  re_count :: int

record RequirementReplacement =
  rp_requirements :: "RequirementRow list"
  rp_version :: int
  rp_changed :: bool
  rp_added :: nat
  rp_updated :: nat
  rp_deleted :: nat

datatype RequirementReplaceOutcome =
    ReplaceOk RequirementReplacement
  | StaleSet int
  | InvalidSet string string

definition readRequirementSet :: "string \<Rightarrow> ScheduleDb \<Rightarrow> RequirementRow list \<times> int" where
  "readRequirementSet periodId db =
     (sort_key (\<lambda>r. (rr_date r, rr_type r)) (filter (\<lambda>r. rr_period r = periodId) (requirement_rows db)),
      readStaffingSetVersion periodId db)"

definition requirement_key :: "string \<Rightarrow> string \<Rightarrow> string" where
  "requirement_key d t = d @ CHR ''|'' # t"

definition entry_key :: "RequirementSetEntry \<Rightarrow> string" where
  "entry_key e = requirement_key (re_date e) (re_type e)"

definition row_key :: "RequirementRow \<Rightarrow> string" where
  "row_key r = requirement_key (rr_date r) (rr_type r)"

text \<open>The first entry whose key an earlier entry already has.\<close>
fun repeated_entry :: "string list \<Rightarrow> RequirementSetEntry list \<Rightarrow> RequirementSetEntry option" where
  "repeated_entry seen [] = None"
| "repeated_entry seen (e # es) =
     (if entry_key e \<in> set seen then Some e else repeated_entry (entry_key e # seen) es)"

text \<open>A \<open>Map\<close> built from rows: the last one wins.\<close>
definition rows_by_key :: "RequirementRow list \<Rightarrow> string \<rightharpoonup> RequirementRow" where
  "rows_by_key existing = map_of (rev (map (\<lambda>r. (row_key r, r)) existing))"

definition to_insert :: "RequirementRow list \<Rightarrow> RequirementSetEntry list \<Rightarrow> RequirementSetEntry list" where
  "to_insert existing entries = filter (\<lambda>e. rows_by_key existing (entry_key e) = None) entries"

definition to_update ::
  "RequirementRow list \<Rightarrow> RequirementSetEntry list \<Rightarrow> (RequirementSetEntry \<times> RequirementRow) list" where
  "to_update existing entries =
     concat (map (\<lambda>e. case rows_by_key existing (entry_key e) of
         None \<Rightarrow> []
       | Some r \<Rightarrow> if rr_count r \<noteq> re_count e then [(e, r)] else []) entries)"

definition to_delete :: "RequirementRow list \<Rightarrow> RequirementSetEntry list \<Rightarrow> RequirementRow list" where
  "to_delete existing entries = filter (\<lambda>r. row_key r \<notin> set (map entry_key entries)) existing"

text \<open>The whole requirement set of a period is replaced under the version the caller has read. Without repeated
  keys the \<open>desired\<close> map holds the entries themselves, in their order.\<close>
definition replaceRequirements ::
  "(nat \<Rightarrow> string) \<Rightarrow> (string \<Rightarrow> bool) \<Rightarrow> string \<Rightarrow> RequirementSetEntry list \<Rightarrow> int \<Rightarrow>
   RequirementReplaceOutcome service" where
  "replaceRequirements uuid permit periodId entries expectedVersion =
     seq (requireScheduleCapability permit PeriodAdminister) (\<lambda>_.
     case repeated_entry [] entries of
       Some e \<Rightarrow> ret (InvalidSet (re_date e) (re_type e))
     | None \<Rightarrow>
     seq (query (readStaffingSetVersion periodId)) (\<lambda>version.
     if version \<noteq> expectedVersion then ret (StaleSet version) else
     seq (query (\<lambda>db. filter (\<lambda>r. rr_period r = periodId) (requirement_rows db))) (\<lambda>existing.
     let inserts = to_insert existing entries; updates = to_update existing entries;
         deletes = to_delete existing entries;
         changed = (inserts \<noteq> [] \<or> updates \<noteq> [] \<or> deletes \<noteq> []) in
     seq (for_each (\<lambda>e. seq (randomUUID uuid) (\<lambda>i. insert_requirement
            \<lparr>rr_id = i, rr_period = periodId, rr_date = re_date e, rr_type = re_type e, rr_count = re_count e\<rparr>))
          inserts) (\<lambda>_.
     seq (for_each (\<lambda>(e, r). update_requirement r (re_count e)) updates) (\<lambda>_.
     seq (for_each delete_requirement deletes) (\<lambda>_.
     seq (query (readRequirementSet periodId)) (\<lambda>(rows, after).
     seq (if changed then recordAudit ''schedule.period.updated'' periodId else ret ()) (\<lambda>_.
     ret (ReplaceOk \<lparr>rp_requirements = rows, rp_version = after, rp_changed = changed,
       rp_added = length inserts, rp_updated = length updates, rp_deleted = length deletes\<rparr>)))))))))"

end
