(* ===== verification/ScheduleAuthoring.thy ===== *)
theory ScheduleAuthoring
  imports ScheduleService
begin

text \<open>
  \<open>apps/api/src/schedule/service.ts\<close>, the second half: draft versions, their clones and state transitions,
  and the assignments, credits and conflicts of a version.
\<close>

section \<open>Versions\<close>

definition createDraftVersion ::
  "(nat \<Rightarrow> string) \<Rightarrow> (string \<Rightarrow> bool) \<Rightarrow> string \<Rightarrow> string \<Rightarrow> string service" where
  "createDraftVersion uuid permit tzdb periodId =
     seq (requireScheduleCapability permit VersionEdit) (\<lambda>_.
     seq (randomUUID uuid) (\<lambda>i.
     seq (query groupTimezone) (\<lambda>zone.
     seq (insert_version
       \<lparr>v_id = i, v_period = periodId, v_number = None, v_state = VDraft, v_lock = Unlocked, v_current = False,
        v_clonedFrom = None, v_zone = Some zone, v_tzdb = Some tzdb, v_supersededBy = None\<rparr>) (\<lambda>_.
     seq (recordAudit ''schedule.version.created'' i) (\<lambda>_. ret i)))))"

text \<open>The map from a source shift to its clone is built in the order the shifts are read.\<close>
definition clone_shift :: "(nat \<Rightarrow> string) \<Rightarrow> string \<Rightarrow> ShiftRow \<Rightarrow> (string \<times> string) service" where
  "clone_shift uuid newVersionId sh =
     seq (randomUUID uuid) (\<lambda>cloneId.
     seq (store (\<lambda>db. db\<lparr>shift_rows := shift_rows db @ [sh\<lparr>sh_id := cloneId, sh_version := newVersionId\<rparr>]\<rparr>))
       (\<lambda>_. ret (sh_id sh, cloneId)))"

definition clone_snapshot :: "(nat \<Rightarrow> string) \<Rightarrow> string \<Rightarrow> (string \<times> string) list \<Rightarrow> SnapshotRow \<Rightarrow> unit service" where
  "clone_snapshot uuid newVersionId shiftIds sn =
     seq (require_row (UnexpectedError ''SCHEDULE_CLONE_SHIFT_MISSING'') (map_of (rev shiftIds) (sn_shift sn)))
       (\<lambda>clonedShiftId.
     seq (randomUUID uuid) (\<lambda>i.
     insert_snapshot (sn\<lparr>sn_id := i, sn_version := newVersionId, sn_shift := clonedShiftId,
       sn_origin := OriginClone, sn_supersedes := Some (sn_id sn)\<rparr>)))"

definition clone_credit :: "(nat \<Rightarrow> string) \<Rightarrow> string \<Rightarrow> (string \<rightharpoonup> string) \<Rightarrow> CreditRow \<Rightarrow> nat service" where
  "clone_credit uuid targetVersionId snapshotByIdentity cr =
     (case snapshotByIdentity (cr_identity cr) of
        None \<Rightarrow> ret 0
      | Some snapshotId \<Rightarrow>
          seq (randomUUID uuid) (\<lambda>i.
          seq (store (\<lambda>db. db\<lparr>credit_rows := credit_rows db @
            [cr\<lparr>cr_id := i, cr_version := targetVersionId, cr_snapshot := snapshotId\<rparr>]\<rparr>)) (\<lambda>_. ret 1)))"

definition cloneCredits :: "(nat \<Rightarrow> string) \<Rightarrow> string \<Rightarrow> string \<Rightarrow> nat service" where
  "cloneCredits uuid sourceVersionId targetVersionId =
     seq (query (\<lambda>db. filter (\<lambda>c. cr_version c = sourceVersionId) (credit_rows db))) (\<lambda>sourceCredits.
     if sourceCredits = [] then ret 0 else
     seq (query (\<lambda>db. filter (\<lambda>s. sn_version s = targetVersionId) (snapshot_rows db))) (\<lambda>cloneSnapshots.
     let snapshotByIdentity = map_of (rev (map (\<lambda>s. (sn_identity s, sn_id s)) cloneSnapshots)) in
     seq (for_each (clone_credit uuid targetVersionId snapshotByIdentity) sourceCredits) (\<lambda>ns. ret (sum_list ns))))"

definition cloneVersion :: "(nat \<Rightarrow> string) \<Rightarrow> (string \<Rightarrow> bool) \<Rightarrow> string \<Rightarrow> string service" where
  "cloneVersion uuid permit sourceVersionId =
     seq (requireScheduleCapability permit VersionEdit) (\<lambda>_.
     seq (loadVersion sourceVersionId) (\<lambda>source.
     seq (randomUUID uuid) (\<lambda>newVersionId.
     seq (query (readTimezoneBasis sourceVersionId)) (\<lambda>basis.
     seq (insert_version
       \<lparr>v_id = newVersionId, v_period = v_period source, v_number = None, v_state = VDraft, v_lock = Unlocked,
        v_current = False, v_clonedFrom = Some sourceVersionId, v_zone = map_option fst basis,
        v_tzdb = map_option snd basis, v_supersededBy = None\<rparr>) (\<lambda>_.
     seq (query (\<lambda>db. filter (\<lambda>s. sh_version s = sourceVersionId) (shift_rows db))) (\<lambda>sourceShifts.
     seq (for_each (clone_shift uuid newVersionId) sourceShifts) (\<lambda>shiftIds.
     seq (query (\<lambda>db. filter (\<lambda>s. sn_version s = sourceVersionId) (snapshot_rows db))) (\<lambda>sourceSnapshots.
     seq (for_each (clone_snapshot uuid newVersionId shiftIds) sourceSnapshots) (\<lambda>_.
     seq (cloneCredits uuid sourceVersionId newVersionId) (\<lambda>_.
     seq (recordAudit ''schedule.version.created'' newVersionId) (\<lambda>_. ret newVersionId)))))))))))"

definition assertNoOpenHardBreach :: "string \<Rightarrow> unit service" where
  "assertNoOpenHardBreach versionId =
     seq (query (\<lambda>db. find (\<lambda>c. cf_version c = versionId \<and> cf_severity c = HardBreach \<and> cf_state c = ConflictOpen)
         (conflict_rows db)))
       (\<lambda>found. demand (found = None) (SchedulePreconditionError ''OPEN_HARD_BREACH''))"

definition transitionVersion :: "(string \<Rightarrow> bool) \<Rightarrow> string \<Rightarrow> VersionState \<Rightarrow> unit service" where
  "transitionVersion permit versionId t =
     seq (requireScheduleCapability permit VersionEdit) (\<lambda>_.
     seq (loadVersion versionId) (\<lambda>version.
     seq (demand (t \<in> set (LEGAL_TRANSITIONS (v_state version))) (ScheduleTransitionError (v_state version) t)) (\<lambda>_.
     seq (if t = VApproved then assertNoOpenHardBreach versionId else ret ()) (\<lambda>_.
     seq (store (update_version versionId (\<lambda>v. v\<lparr>v_state := t\<rparr>))) (\<lambda>_.
     recordAudit ''schedule.version.state_changed'' versionId)))))"

definition setLockState :: "(string \<Rightarrow> bool) \<Rightarrow> string \<Rightarrow> LockState \<Rightarrow> unit service" where
  "setLockState permit versionId lockState =
     seq (requireScheduleCapability permit VersionEdit) (\<lambda>_.
     seq (loadVersion versionId) (\<lambda>version.
     seq (demand (v_state version \<noteq> VPublished \<and> v_state version \<noteq> VSuperseded)
         (SchedulePreconditionError ''LOCK_MEANINGLESS_WHEN_FROZEN'')) (\<lambda>_.
     seq (store (update_version versionId (\<lambda>v. v\<lparr>v_lock := lockState\<rparr>))) (\<lambda>_.
     recordAudit ''schedule.version.state_changed'' versionId))))"

section \<open>Assignments\<close>

record AddAssignmentInput =
  ai_version :: string
  ai_member :: string
  ai_type :: string
  ai_date :: string
  ai_starts :: int
  ai_ends :: int
  ai_pick :: "int option"
  ai_pinned :: bool
  ai_override :: "string option"
  ai_identity :: "string option"
  ai_location :: "string option"
  ai_origin :: SnapshotOrigin

record AddedAssignment =
  added_snapshot :: string
  added_identity :: string

definition ensureShift ::
  "(nat \<Rightarrow> string) \<Rightarrow> string \<Rightarrow> string \<Rightarrow> string \<Rightarrow> string option \<Rightarrow> string service" where
  "ensureShift uuid versionId d shiftTypeId locationId =
     seq (query (\<lambda>db. find (\<lambda>s. sh_version s = versionId \<and> sh_date s = d \<and> sh_type s = shiftTypeId \<and>
         sh_location s = locationId) (shift_rows db))) (\<lambda>existing.
     case existing of
       Some s \<Rightarrow> ret (sh_id s)
     | None \<Rightarrow>
         seq (randomUUID uuid) (\<lambda>i.
         seq (store (\<lambda>db. db\<lparr>shift_rows := shift_rows db @
           [\<lparr>sh_id = i, sh_version = versionId, sh_date = d, sh_type = shiftTypeId, sh_location = locationId,
             sh_required = 0\<rparr>]\<rparr>)) (\<lambda>_. ret i)))"

definition assertAssignableMembership :: "string \<Rightarrow> int \<Rightarrow> int \<Rightarrow> unit service" where
  "assertAssignableMembership memberId starts ends =
     seq (query (\<lambda>db. find (\<lambda>r. mb_id r = memberId) (membership_rows db))) (\<lambda>found.
     seq (require_row (SchedulePreconditionError ''ASSIGNEE_NOT_IN_GROUP'') found) (\<lambda>row.
     seq (demand (mb_kind row = ''group'') (SchedulePreconditionError ''ASSIGNEE_NOT_GROUP_MEMBERSHIP'')) (\<lambda>_.
     seq (demand (mb_status row = ''active'') (SchedulePreconditionError ''ASSIGNEE_NOT_ACTIVE'')) (\<lambda>_.
     seq (demand (\<not> starts < mb_validFrom row) (SchedulePreconditionError ''ASSIGNEE_BEFORE_MEMBERSHIP'')) (\<lambda>_.
     demand (case mb_validTo row of None \<Rightarrow> True | Some e \<Rightarrow> \<not> ends > e)
       (SchedulePreconditionError ''ASSIGNEE_AFTER_MEMBERSHIP''))))))"

definition addManualAssignment ::
  "(nat \<Rightarrow> string) \<Rightarrow> (string \<Rightarrow> bool) \<Rightarrow> AddAssignmentInput \<Rightarrow> AddedAssignment service" where
  "addManualAssignment uuid permit input =
     seq (requireScheduleCapability permit VersionEdit) (\<lambda>_.
     seq (loadVersion (ai_version input)) (\<lambda>version.
     seq (assertEditable version) (\<lambda>_.
     seq (demand (\<not> ai_ends input \<le> ai_starts input) (SchedulePreconditionError ''ASSIGNMENT_INTERVAL_INVALID'')) (\<lambda>_.
     seq (assertAssignableMembership (ai_member input) (ai_starts input) (ai_ends input)) (\<lambda>_.
     seq (ensureShift uuid (ai_version input) (ai_date input) (ai_type input) (ai_location input)) (\<lambda>shiftId.
     seq (case ai_identity input of
            Some i \<Rightarrow> ret i
          | None \<Rightarrow> seq (randomUUID uuid) (\<lambda>i.
              seq (store (\<lambda>db. db\<lparr>identity_rows := identity_rows db @ [(i, v_period version)]\<rparr>)) (\<lambda>_. ret i)))
       (\<lambda>identityId.
     seq (randomUUID uuid) (\<lambda>snapshotId.
     seq (insert_snapshot
       \<lparr>sn_id = snapshotId, sn_identity = identityId, sn_version = ai_version input, sn_member = ai_member input,
        sn_shift = shiftId, sn_date = ai_date input, sn_starts = ai_starts input, sn_ends = ai_ends input,
        sn_origin = ai_origin input, sn_pick = ai_pick input, sn_pinned = ai_pinned input,
        sn_status = SnapActive, sn_supersedes = None, sn_override = ai_override input\<rparr>) (\<lambda>_.
     seq (recordAudit ''schedule.assignment.added'' identityId) (\<lambda>_.
     seq (if ai_override input \<noteq> None then recordAudit ''schedule.assignment.overridden'' identityId else ret ()) (\<lambda>_.
     ret \<lparr>added_snapshot = snapshotId, added_identity = identityId\<rparr>)))))))))))"

text \<open>\<open>UPDATE assignment_snapshots SET ... WHERE ... RETURNING\<close>: the id of the row, when there is one.\<close>
definition update_snapshots :: "(SnapshotRow \<Rightarrow> bool) \<Rightarrow> (SnapshotRow \<Rightarrow> SnapshotRow) \<Rightarrow> SnapshotRow option service" where
  "update_snapshots P f =
     seq (query (\<lambda>db. find P (snapshot_rows db))) (\<lambda>found.
     seq (store (\<lambda>db. db\<lparr>snapshot_rows := map (\<lambda>s. if P s then f s else s) (snapshot_rows db)\<rparr>)) (\<lambda>_. ret found))"

definition removeAssignment :: "(string \<Rightarrow> bool) \<Rightarrow> string \<Rightarrow> string \<Rightarrow> string \<Rightarrow> unit service" where
  "removeAssignment permit versionId identityId reason =
     seq (requireScheduleCapability permit VersionEdit) (\<lambda>_.
     seq (loadVersion versionId) (\<lambda>version.
     seq (assertEditable version) (\<lambda>_.
     seq (update_snapshots (\<lambda>s. sn_version s = versionId \<and> sn_identity s = identityId \<and> sn_status s = SnapActive)
         (\<lambda>s. s\<lparr>sn_status := SnapCancelled, sn_override := Some reason\<rparr>)) (\<lambda>updated.
     seq (require_row (SchedulePreconditionError ''ASSIGNMENT_NOT_FOUND'') updated) (\<lambda>_.
     recordAudit ''schedule.assignment.removed'' identityId)))))"

definition reassignAssignment :: "(string \<Rightarrow> bool) \<Rightarrow> string \<Rightarrow> string \<Rightarrow> string \<Rightarrow> string \<Rightarrow> unit service" where
  "reassignAssignment permit versionId identityId toMember reason =
     seq (requireScheduleCapability permit VersionEdit) (\<lambda>_.
     seq (loadVersion versionId) (\<lambda>version.
     seq (assertEditable version) (\<lambda>_.
     seq (query (\<lambda>db. find (\<lambda>s. sn_version s = versionId \<and> sn_identity s = identityId \<and> sn_status s = SnapActive)
         (snapshot_rows db))) (\<lambda>found.
     seq (require_row (SchedulePreconditionError ''ASSIGNMENT_NOT_FOUND'') found) (\<lambda>current.
     seq (assertAssignableMembership toMember (sn_starts current) (sn_ends current)) (\<lambda>_.
     seq (update_snapshots (\<lambda>s. sn_id s = sn_id current)
         (\<lambda>s. s\<lparr>sn_member := toMember, sn_override := Some reason\<rparr>)) (\<lambda>_.
     recordAudit ''schedule.assignment.reassigned'' identityId)))))))"

definition setPin :: "(string \<Rightarrow> bool) \<Rightarrow> string \<Rightarrow> string \<Rightarrow> bool \<Rightarrow> unit service" where
  "setPin permit versionId identityId isPinned =
     seq (requireScheduleCapability permit VersionEdit) (\<lambda>_.
     seq (loadVersion versionId) (\<lambda>version.
     seq (assertEditable version) (\<lambda>_.
     seq (update_snapshots (\<lambda>s. sn_version s = versionId \<and> sn_identity s = identityId)
         (\<lambda>s. s\<lparr>sn_pinned := isPinned\<rparr>)) (\<lambda>updated.
     seq (require_row (SchedulePreconditionError ''ASSIGNMENT_NOT_FOUND'') updated) (\<lambda>_.
     recordAudit ''schedule.assignment.pinned'' identityId)))))"

section \<open>Credits and conflicts\<close>

record MoveCreditInput =
  mc_version :: string
  mc_identity :: string
  mc_snapshot :: string
  mc_member :: string
  mc_weight :: "string option"
  mc_reason :: "string option"

definition moveCredit ::
  "(nat \<Rightarrow> string) \<Rightarrow> (string \<Rightarrow> bool) \<Rightarrow> string option \<Rightarrow> MoveCreditInput \<Rightarrow> string service" where
  "moveCredit uuid permit actingMember input =
     seq (requireScheduleCapability permit VersionEdit) (\<lambda>_.
     seq (loadVersion (mc_version input)) (\<lambda>version.
     seq (assertEditable version) (\<lambda>_.
     seq (randomUUID uuid) (\<lambda>i.
     seq (query (\<lambda>db. find (\<lambda>c. cr_identity c = mc_identity input \<and> cr_version c = mc_version input)
         (credit_rows db))) (\<lambda>existing.
     seq (case existing of
            None \<Rightarrow> seq (store (\<lambda>db. db\<lparr>credit_rows := credit_rows db @
              [\<lparr>cr_id = i, cr_identity = mc_identity input, cr_version = mc_version input,
                cr_snapshot = mc_snapshot input, cr_member = mc_member input,
                cr_weight = (case mc_weight input of None \<Rightarrow> ''1'' | Some w \<Rightarrow> w), cr_reason = mc_reason input,
                cr_movedBy = actingMember, cr_status = CreditActive\<rparr>]\<rparr>)) (\<lambda>_. ret i)
          | Some c \<Rightarrow> seq (store (\<lambda>db. db\<lparr>credit_rows :=
              map (\<lambda>x. if cr_id x = cr_id c then x\<lparr>cr_member := mc_member input, cr_movedBy := actingMember,
                cr_status := CreditReassigned\<rparr> else x) (credit_rows db)\<rparr>)) (\<lambda>_. ret (cr_id c)))
       (\<lambda>row.
     seq (recordAudit ''schedule.credit.moved'' row) (\<lambda>_. ret row)))))))"

definition voidCredit :: "(string \<Rightarrow> bool) \<Rightarrow> string \<Rightarrow> unit service" where
  "voidCredit permit creditId =
     seq (requireScheduleCapability permit VersionEdit) (\<lambda>_.
     seq (query (\<lambda>db. find (\<lambda>c. cr_id c = creditId) (credit_rows db))) (\<lambda>found.
     seq (require_row (SchedulePreconditionError ''CREDIT_NOT_FOUND'') found) (\<lambda>credit.
     seq (loadVersion (cr_version credit)) (\<lambda>version.
     seq (assertEditable version) (\<lambda>_.
     seq (store (\<lambda>db. db\<lparr>credit_rows :=
         map (\<lambda>c. if cr_id c = creditId then c\<lparr>cr_status := CreditVoided\<rparr> else c) (credit_rows db)\<rparr>)) (\<lambda>_.
     recordAudit ''schedule.credit.voided'' creditId))))))"

definition recordConflict ::
  "(nat \<Rightarrow> string) \<Rightarrow> (string \<Rightarrow> bool) \<Rightarrow> string \<Rightarrow> ConflictSeverity \<Rightarrow> string option \<Rightarrow> string service" where
  "recordConflict uuid permit versionId severity explanation =
     seq (requireScheduleCapability permit VersionEdit) (\<lambda>_.
     seq (loadVersion versionId) (\<lambda>version.
     seq (assertEditable version) (\<lambda>_.
     seq (randomUUID uuid) (\<lambda>i.
     seq (store (\<lambda>db. db\<lparr>conflict_rows := conflict_rows db @
       [\<lparr>cf_id = i, cf_version = versionId, cf_severity = severity, cf_explanation = explanation,
         cf_state = ConflictOpen\<rparr>]\<rparr>)) (\<lambda>_.
     seq (recordAudit ''schedule.conflict.recorded'' versionId) (\<lambda>_. ret i))))))"

end
