(* ===== verification/ScheduleDiff.thy ===== *)
theory ScheduleDiff
  imports ScheduleTables "HOL-Library.AList"
begin

text \<open>
  \<open>apps/api/src/schedule/diff.ts\<close> and the material change of \<open>review-identity.ts\<close>: what a publication changes,
  assignment by assignment, and whom it affects. A JavaScript \<open>Map\<close> is an association list in insertion order,
  its \<open>set\<close> is \<open>AList.update\<close>. Identities and members are identifiers of one shape, on which \<open>localeCompare\<close>
  is the order of strings; an identity changes once, so the tie on the kind never arises.
\<close>

section \<open>Material change\<close>

datatype MaterialField = Participant | DateField | TimeField | ShiftTypeField | LocationField | PinField | CreditField

record MaterialAssignment =
  ma_identity :: string
  ma_member :: string
  ma_date :: string
  ma_starts :: int
  ma_ends :: int
  ma_type :: string
  ma_location :: "string option"
  ma_pinned :: bool
  ma_credited :: "string option"
  ma_weight :: "string option"

definition MATERIAL_FIELDS_ALL :: "MaterialField list" where
  "MATERIAL_FIELDS_ALL = [Participant, DateField, TimeField, ShiftTypeField, LocationField, PinField, CreditField]"

definition materialChangeFields :: "MaterialAssignment \<Rightarrow> MaterialAssignment \<Rightarrow> MaterialField list" where
  "materialChangeFields b a =
     (if ma_member b \<noteq> ma_member a then [Participant] else []) @
     (if ma_date b \<noteq> ma_date a then [DateField] else []) @
     (if ma_starts b \<noteq> ma_starts a \<or> ma_ends b \<noteq> ma_ends a then [TimeField] else []) @
     (if ma_type b \<noteq> ma_type a then [ShiftTypeField] else []) @
     (if ma_location b \<noteq> ma_location a then [LocationField] else []) @
     (if ma_pinned b \<noteq> ma_pinned a then [PinField] else []) @
     (if ma_credited b \<noteq> ma_credited a \<or> ma_weight b \<noteq> ma_weight a then [CreditField] else [])"

definition materialStakeholders :: "MaterialAssignment \<Rightarrow> string list" where
  "materialStakeholders m =
     ma_member m # (case ma_credited m of None \<Rightarrow> [] | Some c \<Rightarrow> if c \<noteq> ma_member m then [c] else [])"

section \<open>Differences\<close>

record DiffSnapshot =
  ds_identity :: string
  ds_member :: string
  ds_starts :: int
  ds_ends :: int
  ds_status :: SnapshotStatus
  ds_date :: string
  ds_type :: string
  ds_location :: "string option"
  ds_pinned :: bool
  ds_credited :: "string option"
  ds_weight :: "string option"

datatype AssignmentChangeKind = Added | Removed | Reassigned | Retimed | Amended

record AssignmentChange =
  ch_identity :: string
  ch_kind :: AssignmentChangeKind
  ch_from :: "string option"
  ch_to :: "string option"
  ch_fields :: "MaterialField list"

record VersionDifference =
  vd_changes :: "AssignmentChange list"
  vd_affected :: "string list"

definition activeByIdentity :: "DiffSnapshot list \<Rightarrow> (string \<times> DiffSnapshot) list" where
  "activeByIdentity rows =
     foldl (\<lambda>m r. if ds_status r = SnapActive then AList.update (ds_identity r) r m else m) [] rows"

definition materialOf :: "DiffSnapshot \<Rightarrow> MaterialAssignment" where
  "materialOf r =
     \<lparr>ma_identity = ds_identity r, ma_member = ds_member r, ma_date = ds_date r, ma_starts = ds_starts r,
      ma_ends = ds_ends r, ma_type = ds_type r, ma_location = ds_location r, ma_pinned = ds_pinned r,
      ma_credited = ds_credited r, ma_weight = ds_weight r\<rparr>"

definition kindOf :: "MaterialField list \<Rightarrow> AssignmentChangeKind option" where
  "kindOf fs =
     (if fs = [] then None
      else if Participant \<in> set fs then Some Reassigned
      else if TimeField \<in> set fs \<or> DateField \<in> set fs then Some Retimed
      else Some Amended)"

text \<open>One round of the loop over the incoming rows: the change, if any, and whom it affects.\<close>
definition after_change ::
  "(string \<times> DiffSnapshot) list \<Rightarrow> string \<times> DiffSnapshot \<Rightarrow> (AssignmentChange \<times> string list) option" where
  "after_change beforeRows = (\<lambda>(i, afterRow).
     case map_of beforeRows i of
       None \<Rightarrow> Some (\<lparr>ch_identity = i, ch_kind = Added, ch_from = None, ch_to = Some (ds_member afterRow),
                     ch_fields = MATERIAL_FIELDS_ALL\<rparr>, materialStakeholders (materialOf afterRow))
     | Some beforeRow \<Rightarrow>
         (let fs = materialChangeFields (materialOf beforeRow) (materialOf afterRow) in
          case kindOf fs of
            None \<Rightarrow> None
          | Some kind \<Rightarrow> Some (\<lparr>ch_identity = i, ch_kind = kind, ch_from = Some (ds_member beforeRow),
                               ch_to = Some (ds_member afterRow), ch_fields = fs\<rparr>,
                             materialStakeholders (materialOf beforeRow) @ materialStakeholders (materialOf afterRow))))"

text \<open>The loop over the outgoing rows.\<close>
definition before_change ::
  "(string \<times> DiffSnapshot) list \<Rightarrow> string \<times> DiffSnapshot \<Rightarrow> (AssignmentChange \<times> string list) option" where
  "before_change afterRows = (\<lambda>(i, beforeRow).
     if map_of afterRows i \<noteq> None then None
     else Some (\<lparr>ch_identity = i, ch_kind = Removed, ch_from = Some (ds_member beforeRow), ch_to = None,
                 ch_fields = MATERIAL_FIELDS_ALL\<rparr>, materialStakeholders (materialOf beforeRow)))"

definition raw_changes ::
  "DiffSnapshot list \<Rightarrow> DiffSnapshot list \<Rightarrow> (AssignmentChange \<times> string list) list" where
  "raw_changes before after =
     List.map_filter (after_change (activeByIdentity before)) (activeByIdentity after) @
     List.map_filter (before_change (activeByIdentity after)) (activeByIdentity before)"

definition differenceByIdentity :: "DiffSnapshot list \<Rightarrow> DiffSnapshot list \<Rightarrow> VersionDifference" where
  "differenceByIdentity before after =
     (let raw = raw_changes before after in
      \<lparr>vd_changes = sort_key ch_identity (map fst raw), vd_affected = sort (remdups (concat (map snd raw)))\<rparr>)"

section \<open>The difference is exact\<close>

text \<open>The row an identity ends with: the last active one.\<close>
definition active_row :: "DiffSnapshot list \<Rightarrow> string \<Rightarrow> DiffSnapshot option" where
  "active_row rows i = find (\<lambda>r. ds_status r = SnapActive \<and> ds_identity r = i) (rev rows)"

lemma activeByIdentity_snoc:
  "activeByIdentity (rows @ [r]) =
     (if ds_status r = SnapActive then AList.update (ds_identity r) r (activeByIdentity rows) else activeByIdentity rows)"
  by (simp add: activeByIdentity_def)

lemma map_of_activeByIdentity: "map_of (activeByIdentity rows) = active_row rows"
proof (induction rows rule: rev_induct)
  case Nil
  show ?case by (simp add: activeByIdentity_def active_row_def fun_eq_iff)
next
  case (snoc r rows)
  then show ?case
    by (auto simp: activeByIdentity_snoc active_row_def fun_eq_iff update_conv)
qed

lemma distinct_activeByIdentity: "distinct (map fst (activeByIdentity rows))"
  by (induction rows rule: rev_induct) (auto simp: activeByIdentity_snoc activeByIdentity_def distinct_update)

lemma active_row_identity: "active_row rows i = Some r \<Longrightarrow> ds_identity r = i"
  by (auto simp: active_row_def find_Some_iff)

lemma in_activeByIdentity: "(i, r) \<in> set (activeByIdentity rows) \<longleftrightarrow> active_row rows i = Some r"
  using map_of_activeByIdentity[of rows] distinct_activeByIdentity[of rows] by (metis map_of_eq_Some_iff)

lemma materialChangeFields_Nil:
  "ma_identity b = ma_identity a \<Longrightarrow> materialChangeFields b a = [] \<longleftrightarrow> b = a"
  by (cases b; cases a) (auto simp: materialChangeFields_def)

lemma materialChangeFields_refl [simp]: "materialChangeFields m m = []"
  by (simp add: materialChangeFields_def)

lemma kindOf_Nil [simp]: "kindOf [] = None"
  by (simp add: kindOf_def)

lemma kindOf_None [simp]: "kindOf fs = None \<longleftrightarrow> fs = []"
  by (simp add: kindOf_def)

text \<open>What an identity materially is in a version, if it is in it at all.\<close>
definition material_row :: "DiffSnapshot list \<Rightarrow> string \<Rightarrow> MaterialAssignment option" where
  "material_row rows i = map_option materialOf (active_row rows i)"

definition changed :: "DiffSnapshot list \<Rightarrow> DiffSnapshot list \<Rightarrow> string \<Rightarrow> bool" where
  "changed before after i \<longleftrightarrow> material_row before i \<noteq> material_row after i"

definition stakeholders :: "DiffSnapshot list \<Rightarrow> string \<Rightarrow> string set" where
  "stakeholders rows i = (case material_row rows i of None \<Rightarrow> {} | Some m \<Rightarrow> set (materialStakeholders m))"

text \<open>The change of an identity, and whom it affects, on the two maps.\<close>
definition change_of ::
  "DiffSnapshot list \<Rightarrow> DiffSnapshot list \<Rightarrow> string \<Rightarrow> (AssignmentChange \<times> string list) option" where
  "change_of before after i =
     (case active_row after i of
        Some r \<Rightarrow> after_change (activeByIdentity before) (i, r)
      | None \<Rightarrow> (case active_row before i of
          Some r \<Rightarrow> before_change (activeByIdentity after) (i, r) | None \<Rightarrow> None))"

lemma after_change_identity: "after_change b (i, r) = Some (c, ms) \<Longrightarrow> ch_identity c = i"
  by (auto simp: after_change_def Let_def split: option.splits)

lemma before_change_identity: "before_change a (i, r) = Some (c, ms) \<Longrightarrow> ch_identity c = i"
  by (auto simp: before_change_def split: if_splits)

lemma in_map_filter: "y \<in> set (List.map_filter f xs) \<longleftrightarrow> (\<exists>x \<in> set xs. f x = Some y)"
  by (induction xs) (auto simp: List.map_filter_def)

lemma raw_changes_iff: "x \<in> set (raw_changes before after) \<longleftrightarrow> (\<exists>i. change_of before after i = Some x)"
proof
  assume "x \<in> set (raw_changes before after)"
  then consider (a) i r where "active_row after i = Some r" "after_change (activeByIdentity before) (i, r) = Some x"
    | (b) i r where "active_row before i = Some r" "before_change (activeByIdentity after) (i, r) = Some x"
    by (auto simp: raw_changes_def in_map_filter in_activeByIdentity)
  then show "\<exists>i. change_of before after i = Some x"
  proof cases
    case a
    then show ?thesis by (intro exI[of _ i]) (simp add: change_of_def)
  next
    case b
    moreover have "active_row after i = None"
      using b by (auto simp: before_change_def map_of_activeByIdentity split: if_splits)
    ultimately show ?thesis by (intro exI[of _ i]) (simp add: change_of_def)
  qed
next
  assume "\<exists>i. change_of before after i = Some x"
  then show "x \<in> set (raw_changes before after)"
    by (auto simp: raw_changes_def in_map_filter in_activeByIdentity change_of_def split: option.splits)
qed

lemma change_of_identity: "change_of before after i = Some (c, ms) \<Longrightarrow> ch_identity c = i"
  by (auto simp: change_of_def dest: after_change_identity before_change_identity split: option.splits)

lemma change_of_changed: "change_of before after i \<noteq> None \<longleftrightarrow> changed before after i"
proof -
  have "materialChangeFields (materialOf b) (materialOf a) = [] \<longleftrightarrow> materialOf b = materialOf a"
    if "active_row before i = Some b" "active_row after i = Some a" for a b
    using that by (intro materialChangeFields_Nil) (auto simp: materialOf_def dest!: active_row_identity)
  then show ?thesis
    by (auto simp: change_of_def changed_def material_row_def after_change_def before_change_def Let_def
        map_of_activeByIdentity split: option.splits)
qed

lemma change_of_affected:
  "change_of before after i = Some (c, ms) \<Longrightarrow> set ms = stakeholders before i \<union> stakeholders after i"
  by (auto simp: change_of_def stakeholders_def material_row_def after_change_def before_change_def Let_def
      map_of_activeByIdentity split: option.splits if_splits)

lemma map_filter_keys_distinct:
  assumes "distinct (map fst xs)" "\<And>x y. f x = Some y \<Longrightarrow> k y = fst x"
  shows "distinct (map k (List.map_filter f xs)) \<and> set (map k (List.map_filter f xs)) \<subseteq> set (map fst xs)"
  using assms
proof (induction xs)
  case (Cons x xs)
  then show ?case by (cases "f x") (auto simp: List.map_filter_def)
qed (simp add: List.map_filter_def)

lemma raw_changes_distinct: "distinct (map (ch_identity \<circ> fst) (raw_changes before after))"
proof -
  let ?k = "ch_identity \<circ> fst"
  have a: "?k y = fst x" if "after_change b x = Some y" for b x y
    using that by (cases x; cases y) (auto dest: after_change_identity)
  let ?new = "List.map_filter (after_change (activeByIdentity before)) (activeByIdentity after)"
  let ?gone = "List.map_filter (before_change (activeByIdentity after)) (activeByIdentity before)"
  have gone: "?k y \<notin> set (map fst (activeByIdentity after))" if y: "y \<in> set ?gone" for y
  proof -
    obtain x where "before_change (activeByIdentity after) x = Some y" using y by (auto simp: in_map_filter)
    then have "map_of (activeByIdentity after) (?k y) = None"
      by (cases x) (auto simp: before_change_def split: if_splits)
    then show ?thesis by (simp add: map_of_eq_None_iff)
  qed
  have new: "distinct (map ?k ?new) \<and> set (map ?k ?new) \<subseteq> set (map fst (activeByIdentity after))"
    by (rule map_filter_keys_distinct[OF distinct_activeByIdentity a])
  have old: "distinct (map ?k ?gone)"
    by (rule conjunct1[OF map_filter_keys_distinct]) (auto simp: distinct_activeByIdentity dest: before_change_identity)
  have "set (map ?k ?new) \<inter> set (map ?k ?gone) = {}"
  proof (intro equals0I)
    fix i assume "i \<in> set (map ?k ?new) \<inter> set (map ?k ?gone)"
    then have i: "i \<in> set (map ?k ?new)" "i \<in> ?k ` set ?gone" by (simp_all only: Int_iff set_map)
    from i(2) obtain y where "y \<in> set ?gone" "i = ?k y" by (rule imageE)
    then show False using gone new i(1) by blast
  qed
  then show ?thesis using new old by (simp only: raw_changes_def map_append distinct_append)
qed

lemma raw_changes_cases:
  assumes "(c, ms) \<in> set (raw_changes before after)"
  shows "changed before after (ch_identity c)"
    and "set ms = stakeholders before (ch_identity c) \<union> stakeholders after (ch_identity c)"
  using assms change_of_changed[of before after "ch_identity c"]
  by (auto simp: raw_changes_iff dest: change_of_identity change_of_affected)

lemma raw_changes_complete:
  assumes "changed before after i"
  obtains c ms where "(c, ms) \<in> set (raw_changes before after)" "ch_identity c = i"
proof -
  obtain x where x: "change_of before after i = Some x"
    using assms change_of_changed[of before after i] by auto
  then have "(fst x, snd x) \<in> set (raw_changes before after)" by (auto simp: raw_changes_iff)
  moreover have "ch_identity (fst x) = i" using x change_of_identity[of before after i "fst x" "snd x"] by simp
  ultimately show thesis by (rule that)
qed

lemma difference_identities:
  "set (map ch_identity (vd_changes (differenceByIdentity before after))) = {i. changed before after i}"
proof -
  have "set (map ch_identity (vd_changes (differenceByIdentity before after)))
      = (\<lambda>x. ch_identity (fst x)) ` set (raw_changes before after)"
    by (simp add: differenceByIdentity_def Let_def image_image)
  also have "... = {i. changed before after i}"
  proof (intro set_eqI iffI)
    fix i assume "i \<in> (\<lambda>x. ch_identity (fst x)) ` set (raw_changes before after)"
    then show "i \<in> {i. changed before after i}" using raw_changes_cases(1) by fastforce
  next
    fix i assume "i \<in> {i. changed before after i}"
    then obtain c ms where "(c, ms) \<in> set (raw_changes before after)" "ch_identity c = i"
      using raw_changes_complete by blast
    then show "i \<in> (\<lambda>x. ch_identity (fst x)) ` set (raw_changes before after)" by force
  qed
  finally show ?thesis .
qed

lemma difference_affected:
  "set (vd_affected (differenceByIdentity before after)) =
     (\<Union>i \<in> {i. changed before after i}. stakeholders before i \<union> stakeholders after i)"
proof -
  have "set (vd_affected (differenceByIdentity before after)) = (\<Union>x \<in> set (raw_changes before after). set (snd x))"
    by (simp add: differenceByIdentity_def Let_def)
  also have "... = (\<Union>i \<in> {i. changed before after i}. stakeholders before i \<union> stakeholders after i)"
  proof (intro set_eqI iffI)
    fix m assume "m \<in> (\<Union>x \<in> set (raw_changes before after). set (snd x))"
    then show "m \<in> (\<Union>i \<in> {i. changed before after i}. stakeholders before i \<union> stakeholders after i)"
      using raw_changes_cases by fastforce
  next
    fix m assume "m \<in> (\<Union>i \<in> {i. changed before after i}. stakeholders before i \<union> stakeholders after i)"
    then obtain i where i: "changed before after i" "m \<in> stakeholders before i \<union> stakeholders after i" by blast
    obtain c ms where c: "(c, ms) \<in> set (raw_changes before after)" "ch_identity c = i"
      using raw_changes_complete[OF i(1)] .
    then have "m \<in> set ms" using raw_changes_cases(2)[OF c(1)] i(2) by simp
    then show "m \<in> (\<Union>x \<in> set (raw_changes before after). set (snd x))" using c(1) by force
  qed
  finally show ?thesis .
qed

text \<open>C39: the difference of two versions lists each identity that is materially different in them, added and
  removed ones included, once and in order, and no other; the affected members are exactly those who work or
  are credited for such an assignment in the one version or the other.\<close>
theorem difference_exact:
  "set (map ch_identity (vd_changes (differenceByIdentity before after))) = {i. changed before after i} \<and>
   set (vd_affected (differenceByIdentity before after)) =
     (\<Union>i \<in> {i. changed before after i}. stakeholders before i \<union> stakeholders after i) \<and>
   sorted (map ch_identity (vd_changes (differenceByIdentity before after))) \<and>
   distinct (map ch_identity (vd_changes (differenceByIdentity before after))) \<and>
   distinct (vd_affected (differenceByIdentity before after))"
proof -
  have "distinct (map ch_identity (vd_changes (differenceByIdentity before after)))"
    using raw_changes_distinct[of before after]
    by (simp add: differenceByIdentity_def Let_def distinct_map inj_on_def comp_def) (metis)
  then show ?thesis
    using difference_identities difference_affected
    by (simp add: differenceByIdentity_def Let_def)
qed

end
