(* ===== verification/InForce.thy ===== *)
theory InForce
  imports Prelude
begin

text \<open>
  \<open>packages/domain/src/profiles/in-force.ts\<close> and \<open>packages/domain/src/eligibility/verdict.ts\<close>: which
  effective-dated row is in force at an instant, and what a qualification requirement makes of a person's
  holdings. \<open>dateParse\<close> is the host's \<open>Date.parse\<close>, \<open>None\<close> for a string it gives \<open>NaN\<close> for; instants are
  milliseconds and finite.
\<close>

section \<open>Rows in force\<close>

record EffectiveDated =
  ed_id :: string
  effectiveFrom :: string
  effectiveTo :: "string option"

datatype NoRowReason = NoRows | BeforeFirst | AfterLast | Gap

datatype 'r InForceSelection = InForceRow 'r | NoRow NoRowReason "'r option" | AmbiguousRows "'r list"

type_synonym date_parse = "string \<Rightarrow> int option"

definition lower_char :: "char \<Rightarrow> char" where
  "lower_char c = (let n = of_char c :: nat in
     if (65 \<le> n \<and> n \<le> 90) \<or> (192 \<le> n \<and> n \<le> 222 \<and> n \<noteq> 215) then char_of (n + 32) else c)"

definition parseInstant :: "date_parse \<Rightarrow> string \<Rightarrow> int option" where
  "parseInstant dateParse value =
     (let normalized = map lower_char (trim value) in
      if normalized = ''infinity'' \<or> normalized = ''-infinity'' \<or> normalized = [] then None
      else dateParse value)"

definition containsInstant :: "date_parse \<Rightarrow> 'a EffectiveDated_scheme \<Rightarrow> int \<Rightarrow> bool" where
  "containsInstant dateParse row instant =
     (case parseInstant dateParse (effectiveFrom row) of
        None \<Rightarrow> False
      | Some f \<Rightarrow>
          if instant < f then False
          else (case effectiveTo row of
              None \<Rightarrow> True
            | Some s \<Rightarrow> (case parseInstant dateParse s of None \<Rightarrow> False | Some t \<Rightarrow> instant < t)))"

text \<open>The rows whose start parses, with the parsed bounds.\<close>
definition usable_rows :: "date_parse \<Rightarrow> 'a EffectiveDated_scheme list \<Rightarrow> (int \<times> int option) list" where
  "usable_rows dateParse rows =
     List.map_filter (\<lambda>r. case parseInstant dateParse (effectiveFrom r) of
         None \<Rightarrow> None
       | Some f \<Rightarrow> Some (f, case effectiveTo r of None \<Rightarrow> None | Some s \<Rightarrow> parseInstant dateParse s)) rows"

text \<open>\<open>Math.max\<close> over the ends of the started rows, where \<open>null\<close> is infinity; of no rows it is minus infinity.\<close>
definition ended_by :: "int \<Rightarrow> (int \<times> int option) list \<Rightarrow> bool" where
  "ended_by instant started = list_all (\<lambda>r. case snd r of None \<Rightarrow> False | Some t \<Rightarrow> t \<le> instant) started"

definition noRowReason :: "date_parse \<Rightarrow> 'a EffectiveDated_scheme list \<Rightarrow> int \<Rightarrow> NoRowReason" where
  "noRowReason dateParse rows instant =
     (let usable = usable_rows dateParse rows in
      if usable = [] then NoRows
      else if instant < Min (set (map fst usable)) then BeforeFirst
      else (let started = filter (\<lambda>r. fst r \<le> instant) usable in
        if list_ex (\<lambda>r. snd r = None \<and> fst r > instant) usable then Gap
        else if ended_by instant started \<and> list_ex (\<lambda>r. fst r > instant) usable then Gap
        else AfterLast))"

text \<open>\<open>reduce\<close> without an initial value: the first of the best.\<close>
fun pick_best :: "('b \<Rightarrow> 'b \<Rightarrow> bool) \<Rightarrow> 'b \<Rightarrow> 'b list \<Rightarrow> 'b" where
  "pick_best better best [] = best"
| "pick_best better best (e # es) = pick_best better (if better e best then e else best) es"

definition nearestRow :: "date_parse \<Rightarrow> 'a EffectiveDated_scheme list \<Rightarrow> int \<Rightarrow> 'a EffectiveDated_scheme option" where
  "nearestRow dateParse rows instant =
     (let withFrom = List.map_filter (\<lambda>r. map_option (Pair r) (parseInstant dateParse (effectiveFrom r))) rows;
          started = filter (\<lambda>e. snd e \<le> instant) withFrom in
      case withFrom of
        [] \<Rightarrow> None
      | w # ws \<Rightarrow> Some (fst (case started of
            s # ss \<Rightarrow> pick_best (\<lambda>e best. snd e > snd best) s ss
          | [] \<Rightarrow> pick_best (\<lambda>e best. snd e < snd best) w ws)))"

definition selectInForce :: "date_parse \<Rightarrow> 'a EffectiveDated_scheme list \<Rightarrow> int \<Rightarrow> 'a EffectiveDated_scheme InForceSelection" where
  "selectInForce dateParse rows instant =
     (if rows = [] then NoRow NoRows None
      else (case filter (\<lambda>r. containsInstant dateParse r instant) rows of
          [only] \<Rightarrow> InForceRow only
        | [] \<Rightarrow> NoRow (noRowReason dateParse rows instant) (nearestRow dateParse rows instant)
        | inForce \<Rightarrow> AmbiguousRows inForce))"

fun next_loop :: "date_parse \<Rightarrow> int \<Rightarrow> (int \<times> string) option \<Rightarrow> 'a EffectiveDated_scheme list \<Rightarrow> (int \<times> string) option" where
  "next_loop dateParse after earliest [] = earliest"
| "next_loop dateParse after earliest (row # rows) =
     (case parseInstant dateParse (effectiveFrom row) of
        None \<Rightarrow> next_loop dateParse after earliest rows
      | Some start \<Rightarrow>
          if start \<le> after then next_loop dateParse after earliest rows
          else if (case earliest of None \<Rightarrow> True | Some (i, _) \<Rightarrow> start < i)
          then next_loop dateParse after (Some (start, effectiveFrom row)) rows
          else next_loop dateParse after earliest rows)"

definition nextWindowStart :: "date_parse \<Rightarrow> 'a EffectiveDated_scheme list \<Rightarrow> int \<Rightarrow> string option" where
  "nextWindowStart dateParse rows after = map_option snd (next_loop dateParse after None rows)"

definition requireInForce :: "date_parse \<Rightarrow> 'a EffectiveDated_scheme list \<Rightarrow> int \<Rightarrow> 'a EffectiveDated_scheme option result" where
  "requireInForce dateParse rows instant =
     (case selectInForce dateParse rows instant of
        AmbiguousRows rs \<Rightarrow> Inl (AmbiguousInForceError (map ed_id rs) instant)
      | InForceRow r \<Rightarrow> Inr (Some r)
      | NoRow _ _ \<Rightarrow> Inr None)"

definition filterInForce :: "date_parse \<Rightarrow> 'a EffectiveDated_scheme list \<Rightarrow> int \<Rightarrow> 'a EffectiveDated_scheme list" where
  "filterInForce dateParse rows instant = filter (\<lambda>r. containsInstant dateParse r instant) rows"

section \<open>Eligibility\<close>

record VerdictHolding = EffectiveDated +
  h_qualificationId :: string
  h_status :: string

definition ELIGIBLE_HOLDING_STATUSES :: "string list" where
  "ELIGIBLE_HOLDING_STATUSES = [''valid'', ''expiring'']"

definition isEligibleAt :: "date_parse \<Rightarrow> 'a VerdictHolding_scheme list \<Rightarrow> int \<Rightarrow> bool" where
  "isEligibleAt dateParse holdings instant =
     list_ex (\<lambda>h. h_status h \<in> set ELIGIBLE_HOLDING_STATUSES) (filterInForce dateParse holdings instant)"

datatype QualificationLifecycle = QualificationActive | QualificationRetired

datatype QualificationOutcome =
  QSatisfied | QMissing | QExpired | QFuture | QRevoked | QRetired

text \<open>The loop that looks for the reason: whether an expired and whether a future holding was seen.\<close>
fun reason_loop :: "date_parse \<Rightarrow> int \<Rightarrow> bool \<Rightarrow> bool \<Rightarrow> 'a VerdictHolding_scheme list \<Rightarrow> bool \<times> bool" where
  "reason_loop dateParse instant sawExpired sawFuture [] = (sawExpired, sawFuture)"
| "reason_loop dateParse instant sawExpired sawFuture (h # hs) =
     (if h_status h = ''expired'' then reason_loop dateParse instant True sawFuture hs
      else (case parseInstant dateParse (effectiveFrom h) of
          None \<Rightarrow> reason_loop dateParse instant sawExpired sawFuture hs
        | Some f \<Rightarrow>
            if f > instant then reason_loop dateParse instant sawExpired True hs
            else if h_status h = ''pending'' \<and> containsInstant dateParse h instant
            then reason_loop dateParse instant sawExpired True hs
            else (case (case effectiveTo h of None \<Rightarrow> None | Some s \<Rightarrow> parseInstant dateParse s) of
                None \<Rightarrow> reason_loop dateParse instant sawExpired sawFuture hs
              | Some t \<Rightarrow> reason_loop dateParse instant (sawExpired \<or> t \<le> instant) sawFuture hs)))"

definition qualificationOutcome ::
  "date_parse \<Rightarrow> string \<Rightarrow> QualificationLifecycle option \<Rightarrow> 'a VerdictHolding_scheme list \<Rightarrow> int \<Rightarrow> QualificationOutcome" where
  "qualificationOutcome dateParse qualificationId lifecycle holdings instant =
     (if lifecycle \<noteq> Some QualificationActive then QRetired
      else (let own = filter (\<lambda>h. h_qualificationId h = qualificationId) holdings in
        if list_ex (\<lambda>h. containsInstant dateParse h instant \<and> h_status h \<in> set ELIGIBLE_HOLDING_STATUSES) own
        then QSatisfied
        else if own = [] then QMissing
        else if list_ex (\<lambda>h. h_status h = ''revoked'') own then QRevoked
        else (case reason_loop dateParse instant False False own of
            (sawExpired, sawFuture) \<Rightarrow> if sawExpired then QExpired else if sawFuture then QFuture else QMissing)))"

datatype MembershipState = MInvited | MActive | MSuspended | MEnded
datatype MembershipVerdict = VEligible | VInvited | VSuspended | VEnded | VNotEvaluated
datatype WorkProfileVerdict = WInForce | WNone | WNotEvaluated

fun membershipVerdict :: "MembershipState option \<Rightarrow> MembershipVerdict" where
  "membershipVerdict None = VNotEvaluated"
| "membershipVerdict (Some MActive) = VEligible"
| "membershipVerdict (Some MInvited) = VInvited"
| "membershipVerdict (Some MSuspended) = VSuspended"
| "membershipVerdict (Some MEnded) = VEnded"

record 'h EligibilityInput =
  requiredQualificationIds :: "string list"
  el_holdings :: "'h list"
  qualificationLifecycles :: "string \<Rightarrow> QualificationLifecycle option"
  membershipState :: "MembershipState option"
  workProfileInForce :: "bool option"
  el_at :: int

record EligibilityVerdict =
  ev_qualifications :: "(string \<times> QualificationOutcome) list"
  qualificationsSatisfied :: bool
  ev_membership :: MembershipVerdict
  ev_workProfile :: WorkProfileVerdict
  eligible :: bool

definition evaluateEligibility ::
  "date_parse \<Rightarrow> 'a VerdictHolding_scheme EligibilityInput \<Rightarrow> EligibilityVerdict" where
  "evaluateEligibility dateParse input =
     (let requirementIds = rev (remdups (rev (requiredQualificationIds input)));
          qs = map (\<lambda>q. (q, qualificationOutcome dateParse q (qualificationLifecycles input q) (el_holdings input)
            (el_at input))) requirementIds;
          qsat = list_all (\<lambda>q. snd q = QSatisfied) qs;
          m = membershipVerdict (membershipState input)
      in \<lparr>ev_qualifications = qs, qualificationsSatisfied = qsat, ev_membership = m,
          ev_workProfile = (case workProfileInForce input of
            None \<Rightarrow> WNotEvaluated | Some True \<Rightarrow> WInForce | Some False \<Rightarrow> WNone),
          eligible = (qsat \<and> (m = VEligible \<or> m = VNotEvaluated))\<rparr>)"

section \<open>One row at an instant\<close>

text \<open>A row's window is the half-open interval between its parsed bounds; \<open>dated\<close> rows have bounds that parse.\<close>
definition window :: "date_parse \<Rightarrow> 'a EffectiveDated_scheme \<Rightarrow> int set" where
  "window dateParse row = {i. containsInstant dateParse row i}"

definition dated :: "date_parse \<Rightarrow> 'a EffectiveDated_scheme \<Rightarrow> bool" where
  "dated dateParse row \<longleftrightarrow> parseInstant dateParse (effectiveFrom row) \<noteq> None \<and>
     (case effectiveTo row of None \<Rightarrow> True | Some s \<Rightarrow> parseInstant dateParse s \<noteq> None)"

definition starts_after :: "date_parse \<Rightarrow> 'a EffectiveDated_scheme \<Rightarrow> int \<Rightarrow> bool" where
  "starts_after dateParse row i \<longleftrightarrow> (\<exists>f. parseInstant dateParse (effectiveFrom row) = Some f \<and> i < f)"

text \<open>The windows of different rows do not meet; the database excludes overlaps.\<close>
fun disjoint_windows :: "date_parse \<Rightarrow> 'a EffectiveDated_scheme list \<Rightarrow> bool" where
  "disjoint_windows dateParse [] \<longleftrightarrow> True"
| "disjoint_windows dateParse (r # rs) \<longleftrightarrow>
     (\<forall>s \<in> set rs. window dateParse r \<inter> window dateParse s = {}) \<and> disjoint_windows dateParse rs"

lemma disjoint_windows_one:
  "disjoint_windows dateParse rows \<Longrightarrow> r \<in> set rows \<Longrightarrow> containsInstant dateParse r i \<Longrightarrow>
   filter (\<lambda>r. containsInstant dateParse r i) rows = [r]"
proof (induction rows)
  case (Cons x rows)
  show ?case
  proof (cases "r \<in> set rows")
    case True
    then have "\<not> containsInstant dateParse x i" using Cons.prems by (auto simp: window_def)
    then show ?thesis using Cons True by simp
  next
    case False
    then have "x = r" using Cons.prems by simp
    moreover have "filter (\<lambda>r. containsInstant dateParse r i) rows = []"
      using Cons.prems \<open>x = r\<close> by (auto simp: window_def filter_empty_conv)
    ultimately show ?thesis using Cons.prems by simp
  qed
qed simp

lemma nearestRow_Nil [simp]: "nearestRow dateParse [] i = None"
  by (simp add: nearestRow_def List.map_filter_def)

lemma usable_dated:
  assumes "\<forall>r \<in> set rows. dated dateParse r"
  shows "usable_rows dateParse rows =
    map (\<lambda>r. (the (parseInstant dateParse (effectiveFrom r)),
      case effectiveTo r of None \<Rightarrow> None | Some s \<Rightarrow> parseInstant dateParse s)) rows"
  using assms
  by (induction rows) (auto simp: usable_rows_def List.map_filter_def dated_def split: option.splits)

lemma starts_after_dated:
  "dated dateParse r \<Longrightarrow> starts_after dateParse r i \<longleftrightarrow> i < the (parseInstant dateParse (effectiveFrom r))"
  by (auto simp: starts_after_def dated_def)

lemma not_containing_dated:
  assumes "dated dateParse r" "\<not> containsInstant dateParse r i" "\<not> starts_after dateParse r i"
  shows "\<exists>s t. effectiveTo r = Some s \<and> parseInstant dateParse s = Some t \<and> t \<le> i"
  using assms by (auto simp: dated_def containsInstant_def starts_after_def split: option.splits if_splits)

lemma noRowReason_dated:
  assumes dated: "\<forall>r \<in> set rows. dated dateParse r" and "rows \<noteq> []"
    and none: "\<forall>r \<in> set rows. \<not> containsInstant dateParse r i"
  shows "noRowReason dateParse rows i =
    (if \<forall>r \<in> set rows. starts_after dateParse r i then BeforeFirst
     else if \<exists>r \<in> set rows. starts_after dateParse r i then Gap else AfterLast)"
proof -
  let ?f = "\<lambda>r. the (parseInstant dateParse (effectiveFrom r))"
  let ?u = "usable_rows dateParse rows"
  have min: "i < Min (set (map fst ?u)) \<longleftrightarrow> (\<forall>r \<in> set rows. starts_after dateParse r i)"
    using assms by (simp add: usable_dated starts_after_dated image_image)
  have later: "list_ex (\<lambda>r. fst r > i) ?u \<longleftrightarrow> (\<exists>r \<in> set rows. starts_after dateParse r i)"
    using dated by (simp add: usable_dated starts_after_dated list_ex_iff)
  have ended: "ended_by i (filter (\<lambda>r. fst r \<le> i) ?u)"
  proof -
    have "case (case effectiveTo r of None \<Rightarrow> None | Some s \<Rightarrow> parseInstant dateParse s) of
        None \<Rightarrow> False | Some t \<Rightarrow> t \<le> i" if "r \<in> set rows" "?f r \<le> i" for r
      using not_containing_dated[of dateParse r i] that dated none starts_after_dated[of dateParse r i] by auto
    then show ?thesis using dated by (auto simp: ended_by_def usable_dated list_all_iff)
  qed
  have open_later: "list_ex (\<lambda>r. snd r = None \<and> fst r > i) ?u \<Longrightarrow> \<exists>r \<in> set rows. starts_after dateParse r i"
    using later by (auto simp: list_ex_iff)
  have "?u \<noteq> []" using assms by (simp add: usable_dated)
  then show ?thesis using min later ended open_later by (auto simp: noRowReason_def Let_def)
qed

text \<open>C40: over rows whose windows do not overlap the selection is a function of the instant: the one row whose
  half-open window contains it, so that at a handover the later row is in force; and without one, the reason
  is exact: all rows are still to come, all are over, or the instant lies between rows. No call throws.\<close>
theorem in_force_exact:
  assumes "disjoint_windows dateParse rows" "\<forall>r \<in> set rows. dated dateParse r"
  shows "(containsInstant dateParse r i \<and> r \<in> set rows \<longrightarrow>
       selectInForce dateParse rows i = InForceRow r \<and> requireInForce dateParse rows i = Inr (Some r)) \<and>
    ((\<forall>r \<in> set rows. \<not> containsInstant dateParse r i) \<longrightarrow> requireInForce dateParse rows i = Inr None \<and>
       selectInForce dateParse rows i =
         NoRow (if rows = [] then NoRows else if \<forall>r \<in> set rows. starts_after dateParse r i then BeforeFirst
                else if \<exists>r \<in> set rows. starts_after dateParse r i then Gap else AfterLast)
           (nearestRow dateParse rows i))"
proof (intro conjI impI)
  assume "containsInstant dateParse r i \<and> r \<in> set rows"
  then have "selectInForce dateParse rows i = InForceRow r"
    using disjoint_windows_one[OF assms(1)] by (auto simp: selectInForce_def)
  then show "selectInForce dateParse rows i = InForceRow r" "requireInForce dateParse rows i = Inr (Some r)"
    by (simp_all add: requireInForce_def)
next
  assume none: "\<forall>r \<in> set rows. \<not> containsInstant dateParse r i"
  have s: "selectInForce dateParse rows i =
         NoRow (if rows = [] then NoRows else if \<forall>r \<in> set rows. starts_after dateParse r i then BeforeFirst
                else if \<exists>r \<in> set rows. starts_after dateParse r i then Gap else AfterLast)
           (nearestRow dateParse rows i)"
    using none noRowReason_dated[OF assms(2) _ none] by (simp add: selectInForce_def filter_empty_conv)
  then show "requireInForce dateParse rows i = Inr None" by (simp add: requireInForce_def)
  show "selectInForce dateParse rows i =
         NoRow (if rows = [] then NoRows else if \<forall>r \<in> set rows. starts_after dateParse r i then BeforeFirst
                else if \<exists>r \<in> set rows. starts_after dateParse r i then Gap else AfterLast)
           (nearestRow dateParse rows i)" by (rule s)
qed

section \<open>Who is eligible\<close>

lemma reason_never_satisfied:
  "qualificationOutcome dateParse q lifecycle hs i = QSatisfied \<longleftrightarrow>
     lifecycle = Some QualificationActive \<and>
     (\<exists>h \<in> set hs. h_qualificationId h = q \<and> containsInstant dateParse h i \<and>
        h_status h \<in> set ELIGIBLE_HOLDING_STATUSES)"
  by (auto simp: qualificationOutcome_def Let_def list_ex_iff split: prod.splits)

text \<open>A person is eligible exactly when each required qualification is an active one that some holding,
  valid or expiring and in force at the instant, satisfies, and the membership, if it was looked at, is
  active; the order and repetition of requirements and the other holdings do not matter.\<close>
theorem eligible_iff:
  "eligible (evaluateEligibility dateParse input) \<longleftrightarrow>
     (\<forall>q \<in> set (requiredQualificationIds input). qualificationLifecycles input q = Some QualificationActive \<and>
        (\<exists>h \<in> set (el_holdings input). h_qualificationId h = q \<and> containsInstant dateParse h (el_at input) \<and>
           h_status h \<in> set ELIGIBLE_HOLDING_STATUSES)) \<and>
     membershipState input \<in> {None, Some MActive}"
proof -
  have "membershipVerdict m = VEligible \<or> membershipVerdict m = VNotEvaluated \<longleftrightarrow> m \<in> {None, Some MActive}" for m
    by (cases m rule: membershipVerdict.cases) auto
  then show ?thesis
    by (simp add: evaluateEligibility_def Let_def list_all_iff reason_never_satisfied)
qed

section \<open>Witnesses\<close>

definition sample_window :: "string \<Rightarrow> string \<Rightarrow> string option \<Rightarrow> EffectiveDated" where
  "sample_window i f t = \<lparr>ed_id = i, effectiveFrom = f, effectiveTo = t\<rparr>"

definition sample_windows :: "EffectiveDated list" where
  "sample_windows = [sample_window ''a'' ''x'' (Some ''xx''), sample_window ''b'' ''xx'' None]"

definition sample_parse :: date_parse where
  "sample_parse s = Some (int (length s))"

lemma sample_parseInstant: "parseInstant sample_parse ''x'' = Some 1" "parseInstant sample_parse ''xx'' = Some 2"
  by code_simp+

lemma sample_disjoint: "disjoint_windows sample_parse sample_windows"
  by (auto simp: sample_windows_def sample_window_def window_def containsInstant_def sample_parseInstant split: if_splits)

lemma sample_dated: "\<forall>r \<in> set sample_windows. dated sample_parse r"
  by (simp add: sample_windows_def sample_window_def dated_def sample_parseInstant)

lemma in_force_exact_witness:
  "selectInForce sample_parse sample_windows 2 = InForceRow (sample_window ''b'' ''xx'' None)"
  using in_force_exact[OF sample_disjoint sample_dated, of "sample_window ''b'' ''xx'' None" 2]
  by (auto simp: sample_windows_def sample_window_def containsInstant_def sample_parseInstant)

lemma eligible_iff_witness:
  "eligible (evaluateEligibility sample_parse
     \<lparr>requiredQualificationIds = [''q''],
      el_holdings = [\<lparr>ed_id = ''h'', effectiveFrom = ''x'', effectiveTo = None, h_qualificationId = ''q'',
                      h_status = ''valid''\<rparr>],
      qualificationLifecycles = (\<lambda>_. Some QualificationActive), membershipState = Some MActive,
      workProfileInForce = None, el_at = 5\<rparr>)"
  unfolding eligible_iff by (simp add: containsInstant_def sample_parseInstant ELIGIBLE_HOLDING_STATUSES_def)

end
