(* ===== verification/RowDigest.thy ===== *)
theory RowDigest
  imports Prelude "HOL-Library.Multiset"
begin

text \<open>
  \<open>digestRows\<close> of \<open>apps/api/src/schedule/render.ts\<close> and the semantic request digest of \<open>review-identity.ts\<close>.
  A row is an object with its members as an association list; a value is its printed text, \<open>None\<close> is
  \<open>null\<close>. \<open>sha256\<close> is the host's hash.
\<close>

fun join :: "string \<Rightarrow> string list \<Rightarrow> string" where
  "join sep [] = []"
| "join sep [x] = x"
| "join sep (x # y # xs) = x @ sep @ join sep (y # xs)"

type_synonym digest_row = "(string \<times> string option) list"

definition FIELD_SEPARATOR :: string where "FIELD_SEPARATOR = [CHR 0x0A]"
definition ROW_SEPARATOR :: string where "ROW_SEPARATOR = CHR 0x0A # ''--'' @ [CHR 0x0A]"

definition print_value :: "string option \<Rightarrow> string" where
  "print_value v = (case v of None \<Rightarrow> ''<null>'' | Some s \<Rightarrow> s)"

definition field_text :: "string \<times> string \<Rightarrow> string" where
  "field_text = (\<lambda>(key, printed).
     string_of_nat (length key) @ CHR '':'' # key @ CHR ''='' # string_of_nat (length printed) @ CHR '':'' # printed)"

text \<open>The members in key order, printed.\<close>
definition printed_row :: "digest_row \<Rightarrow> (string \<times> string) list" where
  "printed_row row = map (\<lambda>(k, v). (k, print_value v)) (sort_key fst row)"

definition row_text :: "digest_row \<Rightarrow> string" where
  "row_text row = join FIELD_SEPARATOR (map field_text (printed_row row))"

definition digestRows :: "(string \<Rightarrow> string) \<Rightarrow> digest_row list \<Rightarrow> string" where
  "digestRows sha256 rows = sha256 (join ROW_SEPARATOR (sort (map row_text rows)))"

record SemanticPublishRequest =
  sq_operation :: string
  sq_period :: string
  sq_version :: string
  sq_expectedState :: string
  sq_expectedPrior :: "string option"
  sq_revertedTo :: "string option"

definition semantic_row :: "SemanticPublishRequest \<Rightarrow> digest_row" where
  "semantic_row r =
     [(''operation'', Some (sq_operation r)), (''period'', Some (sq_period r)), (''version'', Some (sq_version r)),
      (''expectedState'', Some (sq_expectedState r)), (''expectedPriorCurrent'', sq_expectedPrior r),
      (''revertedTo'', sq_revertedTo r)]"

definition semanticRequestDigest :: "(string \<Rightarrow> string) \<Rightarrow> SemanticPublishRequest \<Rightarrow> string" where
  "semanticRequestDigest sha256 r = digestRows sha256 [semantic_row r]"

section \<open>The text determines the rows\<close>

lemma no_colon_in_number: "CHR '':'' \<notin> set (string_of_nat n)"
  using string_of_nat_digits[of "CHR '':''" n] by (auto simp: is_digit_def)

lemma length_prefixed:
  "string_of_nat (length a) @ CHR '':'' # a @ r = string_of_nat (length b) @ CHR '':'' # b @ s \<longleftrightarrow> a = b \<and> r = s"
proof
  assume "string_of_nat (length a) @ CHR '':'' # a @ r = string_of_nat (length b) @ CHR '':'' # b @ s"
  then have "string_of_nat (length a) = string_of_nat (length b)" "a @ r = b @ s"
    by (simp_all add: append_sep no_colon_in_number)
  then show "a = b \<and> r = s" by (simp add: string_of_nat_inj)
qed auto

lemma field_text_prefix_free: "field_text f @ r = field_text g @ s \<longleftrightarrow> f = g \<and> r = s"
  by (cases f; cases g) (simp add: field_text_def length_prefixed)

lemma field_text_first: "\<exists>c cs. field_text f = c # cs \<and> is_digit c"
proof (cases f)
  case (Pair k v)
  obtain c cs where "string_of_nat (length k) = c # cs"
    using string_of_nat_nonempty by (meson neq_Nil_conv)
  then show ?thesis using Pair string_of_nat_digits[of c "length k"] by (simp add: field_text_def)
qed

text \<open>What follows a field: the end, another field of the row, or another row.\<close>
lemma rest_of_row:
  "join FIELD_SEPARATOR (map field_text (f # fs)) @ r =
     field_text f @ (if fs = [] then r else CHR 0x0A # join FIELD_SEPARATOR (map field_text fs) @ r)"
  by (cases fs) (simp_all add: FIELD_SEPARATOR_def)

lemma digit_not_dash: "is_digit c \<Longrightarrow> c \<noteq> CHR ''-''"
  by (auto simp: is_digit_def)

lemma fields_first:
  assumes "fs \<noteq> []"
  shows "\<exists>c cs. join FIELD_SEPARATOR (map field_text fs) = c # cs \<and> is_digit c"
proof -
  obtain f fs' where f: "fs = f # fs'" using assms by (cases fs) auto
  obtain c cs where "field_text f = c # cs" "is_digit c" using field_text_first[of f] by blast
  then show ?thesis using rest_of_row[of f fs' "[]"] f by simp
qed

text \<open>The rest after a row is empty or starts with the row separator.\<close>
definition row_end :: "string \<Rightarrow> bool" where
  "row_end r \<longleftrightarrow> r = [] \<or> (\<exists>r'. r = ROW_SEPARATOR @ r')"

lemma row_prefix_free:
  "fs \<noteq> [] \<Longrightarrow> gs \<noteq> [] \<Longrightarrow> row_end r \<Longrightarrow> row_end s \<Longrightarrow>
   join FIELD_SEPARATOR (map field_text fs) @ r = join FIELD_SEPARATOR (map field_text gs) @ s \<Longrightarrow> fs = gs \<and> r = s"
proof (induction fs arbitrary: gs)
  case (Cons f fs)
  obtain g gs' where gs: "gs = g # gs'" using Cons.prems(2) by (cases gs) auto
  have eq: "f = g" "(if fs = [] then r else CHR 0x0A # join FIELD_SEPARATOR (map field_text fs) @ r) =
      (if gs' = [] then s else CHR 0x0A # join FIELD_SEPARATOR (map field_text gs') @ s)"
    using Cons.prems(5) unfolding gs rest_of_row field_text_prefix_free by blast+
  have clash: "CHR 0x0A # join FIELD_SEPARATOR (map field_text hs) @ x \<noteq> y" if ne: "hs \<noteq> []" and e: "row_end y" for hs x y
  proof -
    obtain c cs where c: "join FIELD_SEPARATOR (map field_text hs) = c # cs" "is_digit c"
      using fields_first[OF ne] by blast
    then show ?thesis using e digit_not_dash[OF c(2)] by (auto simp: row_end_def ROW_SEPARATOR_def)
  qed
  show ?case
  proof (cases "fs = []")
    case True
    then have "gs' = []" using eq(2) clash[of gs' r s] Cons.prems(3) by (auto split: if_splits)
    then show ?thesis using eq gs True by simp
  next
    case False
    then have "gs' \<noteq> []" using eq(2) clash[OF False Cons.prems(4)] by (auto split: if_splits)
    then have "join FIELD_SEPARATOR (map field_text fs) @ r = join FIELD_SEPARATOR (map field_text gs') @ s"
      using eq(2) False by simp
    then show ?thesis using Cons.IH[OF False \<open>gs' \<noteq> []\<close> Cons.prems(3,4)] eq(1) gs by simp
  qed
qed simp

definition rows_text :: "(string \<times> string) list list \<Rightarrow> string" where
  "rows_text xs = join ROW_SEPARATOR (map (\<lambda>fs. join FIELD_SEPARATOR (map field_text fs)) xs)"

lemma rows_text_Nil [simp]: "rows_text [] = []"
  by (simp add: rows_text_def)

lemma rows_text_Cons: "rows_text (x # xs) =
    join FIELD_SEPARATOR (map field_text x) @ (if xs = [] then [] else ROW_SEPARATOR @ rows_text xs)"
  by (cases xs) (auto simp: rows_text_def)

lemma rows_text_nonempty: "x \<noteq> [] \<Longrightarrow> rows_text (x # xs) \<noteq> []"
  using fields_first[of x] by (auto simp: rows_text_Cons)

lemma join_rows_inj:
  "\<forall>x \<in> set xs. x \<noteq> [] \<Longrightarrow> \<forall>y \<in> set ys. y \<noteq> [] \<Longrightarrow> rows_text xs = rows_text ys \<Longrightarrow> xs = ys"
proof (induction xs arbitrary: ys)
  case Nil
  then show ?case using rows_text_nonempty by (cases ys) (force, metis list.set_intros(1) rows_text_Nil)
next
  case (Cons x xs)
  have "ys \<noteq> []" using Cons.prems rows_text_nonempty[of x xs] by auto
  then obtain y ys' where ys: "ys = y # ys'" by (cases ys) auto
  let ?r = "\<lambda>zs. if zs = [] then [] else ROW_SEPARATOR @ rows_text zs"
  have "x = y \<and> ?r xs = ?r ys'"
  proof (rule row_prefix_free)
    show "join FIELD_SEPARATOR (map field_text x) @ ?r xs = join FIELD_SEPARATOR (map field_text y) @ ?r ys'"
      using Cons.prems(3) unfolding ys rows_text_Cons .
  qed (use Cons.prems ys in \<open>auto simp: row_end_def\<close>)
  moreover have "ROW_SEPARATOR @ r \<noteq> []" for r by (simp add: ROW_SEPARATOR_def)
  ultimately have "x = y" "rows_text xs = rows_text ys'"
    by (auto split: if_splits)
  then show ?case using Cons.IH[of ys'] Cons.prems ys by simp
qed

lemma sorted_texts:
  "sort (map row_text rows) =
     map (\<lambda>fs. join FIELD_SEPARATOR (map field_text fs))
       (sort_key (\<lambda>fs. join FIELD_SEPARATOR (map field_text fs)) (map printed_row rows))"
proof (rule properties_for_sort)
  have "map row_text rows = map (\<lambda>fs. join FIELD_SEPARATOR (map field_text fs)) (map printed_row rows)"
    by (simp add: row_text_def)
  then show "mset (map (\<lambda>fs. join FIELD_SEPARATOR (map field_text fs))
       (sort_key (\<lambda>fs. join FIELD_SEPARATOR (map field_text fs)) (map printed_row rows))) = mset (map row_text rows)"
    by (simp only: mset_map mset_sort)
qed (rule sorted_sort_key)

lemma printed_row_nonempty: "r \<noteq> [] \<Longrightarrow> printed_row r \<noteq> []"
  by (metis length_0_conv length_map length_sort printed_row_def)

lemma digest_rows_separate:
  assumes "\<forall>r \<in> set rows. r \<noteq> []" "\<forall>r \<in> set rows'. r \<noteq> []"
    and "inj_on sha256 {join ROW_SEPARATOR (sort (map row_text rows)), join ROW_SEPARATOR (sort (map row_text rows'))}"
  shows "digestRows sha256 rows = digestRows sha256 rows' \<longleftrightarrow>
    mset (map printed_row rows) = mset (map printed_row rows')"
proof -
  let ?s = "\<lambda>rs. sort_key (\<lambda>fs. join FIELD_SEPARATOR (map field_text fs)) (map printed_row rs)"
  have body: "join ROW_SEPARATOR (sort (map row_text rs)) = rows_text (?s rs)" for rs
    unfolding sorted_texts rows_text_def ..
  have "digestRows sha256 rows = digestRows sha256 rows' \<longleftrightarrow> rows_text (?s rows) = rows_text (?s rows')"
    unfolding digestRows_def body by (rule inj_on_eq_iff[OF assms(3)[unfolded body]]) simp_all
  also have "... \<longleftrightarrow> ?s rows = ?s rows'"
    using assms(1,2) printed_row_nonempty by (intro iffI join_rows_inj) auto
  also have "... \<longleftrightarrow> mset (map printed_row rows) = mset (map printed_row rows')"
  proof
    assume "?s rows = ?s rows'"
    then show "mset (map printed_row rows) = mset (map printed_row rows')" by (metis mset_sort)
  next
    assume m: "mset (map printed_row rows) = mset (map printed_row rows')"
    then have "mset (map row_text rows) = mset (map row_text rows')"
    proof -
      have "mset (map row_text rs) =
          image_mset (\<lambda>fs. join FIELD_SEPARATOR (map field_text fs)) (mset (map printed_row rs))" for rs
        by (simp add: row_text_def[abs_def] multiset.map_comp comp_def)
      then show ?thesis using m by metis
    qed
    then have "sort (map row_text rows) = sort (map row_text rows')"
      by (intro properties_for_sort) simp_all
    then have "rows_text (?s rows) = rows_text (?s rows')" using body by metis
    then show "?s rows = ?s rows'" using assms(1,2) printed_row_nonempty by (intro join_rows_inj) auto
  qed
  finally show ?thesis .
qed

text \<open>The digest separates row sets: where the hash does not collide on the two texts, two sets of
  non-empty rows have the same digest exactly when they are the same rows in some order, a \<open>null\<close> counting as
  the text \<open><null>\<close>. No other value can be mistaken for structure.\<close>
theorem digest_separates:
  assumes "\<forall>r \<in> set rows. r \<noteq> []" "\<forall>r \<in> set rows'. r \<noteq> []"
    and "inj_on sha256 {join ROW_SEPARATOR (sort (map row_text rows)), join ROW_SEPARATOR (sort (map row_text rows'))}"
  shows "digestRows sha256 rows = digestRows sha256 rows' \<longleftrightarrow>
    mset (map printed_row rows) = mset (map printed_row rows')"
  using assms by (rule digest_rows_separate)

text \<open>A publication request can be told from every other by its digest, as far as the hash does not
  collide and no identifier is the text \<open><null>\<close>.\<close>
theorem semantic_digest_injective:
  assumes "semanticRequestDigest sha256 q = semanticRequestDigest sha256 q'"
    and "inj_on sha256 {row_text (semantic_row q), row_text (semantic_row q')}"
    and "sq_expectedPrior q \<noteq> Some ''<null>''" "sq_expectedPrior q' \<noteq> Some ''<null>''"
    and "sq_revertedTo q \<noteq> Some ''<null>''" "sq_revertedTo q' \<noteq> Some ''<null>''"
  shows "q = q'"
proof -
  have "mset (map printed_row [semantic_row q]) = mset (map printed_row [semantic_row q'])"
    using digest_rows_separate[of "[semantic_row q]" "[semantic_row q']" sha256] assms(1,2)
    by (simp add: semanticRequestDigest_def semantic_row_def)
  then have "printed_row (semantic_row q) = printed_row (semantic_row q')" by simp
  moreover have "printed_row (semantic_row r) =
      [(''expectedPriorCurrent'', print_value (sq_expectedPrior r)), (''expectedState'', sq_expectedState r),
       (''operation'', sq_operation r), (''period'', sq_period r),
       (''revertedTo'', print_value (sq_revertedTo r)), (''version'', sq_version r)]" for r
    by (simp add: printed_row_def semantic_row_def print_value_def)
  ultimately show ?thesis
    using assms(3-) by (cases q; cases q') (auto simp: print_value_def split: option.splits)
qed

lemma digest_separates_witness:
  "digestRows id [[(''a'', None)]] \<noteq> digestRows id [[(''a'', Some ''b'')]] \<and>
   digestRows id [[(''a'', None)]] = digestRows id [[(''a'', Some ''<null>'')]]"
proof -
  have "digestRows id [[(''a'', None)]] = digestRows id [[(''a'', v)]] \<longleftrightarrow>
      mset (map printed_row [[(''a'', None)]]) = mset (map printed_row [[(''a'', v)]])" for v
    by (rule digest_separates) simp_all
  then show ?thesis by (simp add: printed_row_def print_value_def)
qed

definition sample_request :: SemanticPublishRequest where
  "sample_request = \<lparr>sq_operation = ''publish'', sq_period = ''p'', sq_version = ''v'', sq_expectedState = ''approved'',
     sq_expectedPrior = None, sq_revertedTo = None\<rparr>"

lemma semantic_digest_injective_witness:
  "semanticRequestDigest id sample_request \<noteq> semanticRequestDigest id (sample_request\<lparr>sq_version := ''w''\<rparr>)"
proof
  assume "semanticRequestDigest id sample_request = semanticRequestDigest id (sample_request\<lparr>sq_version := ''w''\<rparr>)"
  then have "sample_request = sample_request\<lparr>sq_version := ''w''\<rparr>"
    by (rule semantic_digest_injective) (simp_all add: sample_request_def)
  then show False by (simp add: sample_request_def)
qed

end
