(* ===== verification/HardRuleRevalidation.thy ===== *)
theory HardRuleRevalidation
  imports ScheduleService InForce HardRuleEntry RuleCompile
begin

text \<open>
  \<open>apps/api/src/schedule/hard-rule-revalidation.ts\<close>: a version's assignments are loaded for the checker, the
  active hard rules are compiled and evaluated over them, and the qualification requirements of the shift
  types are checked. The rule, catalogue and profile tables, which the schedule services only read, are the
  record \<open>StaffingTables\<close>. Date columns hold real dates.
\<close>

record HoldingRow = VerdictHolding +
  hr_member :: string

record StaffingTables =
  rule_rows :: "(Rule \<times> string) list"
  shift_type_rows :: "(string \<times> string \<times> bool) list"
  qualification_rows :: "(string \<times> string \<times> QualificationLifecycle) list"
  required_rows :: "(string \<times> string \<times> string) list"
  holding_rows :: "HoldingRow list"

text \<open>Noon of the date, in milliseconds.\<close>
definition instantOfDate :: "string \<Rightarrow> int option" where
  "instantOfDate d = (case daysFromEpoch d of Inl _ \<Rightarrow> None | Inr n \<Rightarrow> Some (n * 86400000 + 43200000))"

definition loadHoldings :: "StaffingTables \<Rightarrow> string \<Rightarrow> HoldingRow list" where
  "loadHoldings tables m = filter (\<lambda>h. hr_member h = m) (holding_rows tables)"

definition loadActiveHardRules :: "StaffingTables \<Rightarrow> CompiledRule list" where
  "loadActiveHardRules tables =
     map (\<lambda>(r, _). compileRule r)
       (sort_key (\<lambda>(r, _). ruleKey r)
         (filter (\<lambda>(r, status). status = ''active'' \<and> classification r = ''HARD'') (rule_rows tables)))"

text \<open>The active snapshots of a version, each with its shift.\<close>
definition snapshots_with_shift :: "string \<Rightarrow> ScheduleDb \<Rightarrow> (SnapshotRow \<times> ShiftRow) list" where
  "snapshots_with_shift versionId db =
     concat (map (\<lambda>s. map (Pair s) (filter (\<lambda>sh. sh_id sh = sn_shift s) (shift_rows db)))
       (filter (\<lambda>s. sn_version s = versionId \<and> sn_status s = SnapActive) (snapshot_rows db)))"

definition checked_assignments :: "StaffingTables \<Rightarrow> string \<Rightarrow> ScheduleDb \<Rightarrow> CheckedAssignment list" where
  "checked_assignments tables versionId db =
     sort_key (\<lambda>a. (startsAtMs a, snapshotId a))
       (concat (map (\<lambda>(s, sh). map (\<lambda>(_, code, onCall).
           \<lparr>snapshotId = sn_id s, assignmentIdentityId = sn_identity s, membershipId = sn_member s,
            date = sn_date s, startsAtMs = sn_starts s, endsAtMs = sn_ends s, shiftTypeCode = code,
            isOnCall = onCall, pickPosition = None\<rparr>)
         (filter (\<lambda>t. fst t = sh_type sh) (shift_type_rows tables)))
         (snapshots_with_shift versionId db)))"

definition qualification_facts :: "date_parse \<Rightarrow> StaffingTables \<Rightarrow> CheckedAssignment list \<Rightarrow> QualificationFacts" where
  "qualification_facts dateParse tables as =
     \<lparr>heldOn = (\<lambda>m key d.
        (let held = (if m \<in> set (map membershipId as) then loadHoldings tables m else []) in
         case map_of (rev (map (\<lambda>(i, k, _). (k, i)) (qualification_rows tables))) key of
           None \<Rightarrow> False
         | Some q \<Rightarrow> (case instantOfDate d of
             None \<Rightarrow> False
           | Some t \<Rightarrow> qualificationOutcome dateParse q
               (map_of (rev (map (\<lambda>(i, _, l). (i, l)) (qualification_rows tables))) q) held t = QSatisfied))),
      knownQualificationKeys = map (\<lambda>(_, k, _). k) (qualification_rows tables)\<rparr>"

text \<open>No candidate facts: a rule kind that needs them is reported as not evaluable.\<close>
definition loadCheckedVersion :: "date_parse \<Rightarrow> StaffingTables \<Rightarrow> string \<Rightarrow> ScheduleDb \<Rightarrow> CheckedVersion" where
  "loadCheckedVersion dateParse tables versionId db =
     (let as = checked_assignments tables versionId db in
      \<lparr>assignments = as, knownShiftTypeCodes = map (\<lambda>(_, code, _). code) (shift_type_rows tables),
       knownMembershipIds = map mb_id (membership_rows db),
       qualifications = qualification_facts dateParse tables as, candidateFacts = None\<rparr>)"

definition findHardRuleFindings ::
  "date_parse \<Rightarrow> StaffingTables \<Rightarrow> string \<Rightarrow> ScheduleDb \<Rightarrow> HardRuleFinding list result" where
  "findHardRuleFindings dateParse tables versionId db =
     (let compiled = loadActiveHardRules tables in
      if compiled = [] then Inr []
      else evaluateHardRules compiled (loadCheckedVersion dateParse tables versionId db))"

record QualificationRequirementFinding =
  qf_snapshot :: string
  qf_member :: string
  qf_date :: string
  qf_type :: string
  qf_qualification :: string
  qf_outcome :: QualificationOutcome

definition required_of :: "StaffingTables \<Rightarrow> string \<Rightarrow> string list" where
  "required_of tables shiftType =
     sort (map (\<lambda>(_, q, _). q) (filter (\<lambda>(t, _, status). t = shiftType \<and> status = ''active'') (required_rows tables)))"

definition requirement_outcome :: "date_parse \<Rightarrow> StaffingTables \<Rightarrow> string \<Rightarrow> string \<Rightarrow> string \<Rightarrow> QualificationOutcome option" where
  "requirement_outcome dateParse tables q m d =
     map_option (qualificationOutcome dateParse q
         (map_of (rev (map (\<lambda>(i, _, l). (i, l)) (qualification_rows tables))) q) (loadHoldings tables m))
       (instantOfDate d)"

definition findQualificationRequirementFindings ::
  "date_parse \<Rightarrow> StaffingTables \<Rightarrow> string \<Rightarrow> ScheduleDb \<Rightarrow> QualificationRequirementFinding list" where
  "findQualificationRequirementFindings dateParse tables versionId db =
     concat (map (\<lambda>(s, sh). concat (map (\<lambda>q.
         case requirement_outcome dateParse tables q (sn_member s) (sn_date s) of
           None \<Rightarrow> []
         | Some outcome \<Rightarrow> if outcome = QSatisfied then [] else
             [\<lparr>qf_snapshot = sn_id s, qf_member = sn_member s, qf_date = sn_date s, qf_type = sh_type sh,
               qf_qualification = q, qf_outcome = outcome\<rparr>]) (required_of tables (sh_type sh))))
       (sort_key (\<lambda>(s, _). (sn_date s, sn_id s)) (snapshots_with_shift versionId db)))"

definition assertHardRulesRevalidated :: "date_parse \<Rightarrow> StaffingTables \<Rightarrow> string \<Rightarrow> unit service" where
  "assertHardRulesRevalidated dateParse tables versionId =
     seq (query (findHardRuleFindings dateParse tables versionId)) (\<lambda>outcome.
     case outcome of
       Inl _ \<Rightarrow> refuse (UnexpectedError ''evaluateHardRules'')
     | Inr findings \<Rightarrow>
         seq (demand (findings = []) (SchedulePreconditionError ''HARD_RULE_BREACH'')) (\<lambda>_.
         seq (query (findQualificationRequirementFindings dateParse tables versionId)) (\<lambda>structural.
         demand (structural = []) (SchedulePreconditionError ''QUALIFICATION_REQUIREMENT_BREACH''))))"

section \<open>What a version that passes satisfies\<close>

text \<open>Every active hard rule is satisfied and every required qualification is held on the date.\<close>
definition revalidated :: "date_parse \<Rightarrow> StaffingTables \<Rightarrow> string \<Rightarrow> ScheduleDb \<Rightarrow> bool" where
  "revalidated dateParse tables versionId db \<longleftrightarrow>
     (\<forall>(r, status) \<in> set (rule_rows tables). status = ''active'' \<and> classification r = ''HARD'' \<longrightarrow>
        satisfied (loadCheckedVersion dateParse tables versionId db) (compileRule r)) \<and>
     (\<forall>(s, sh) \<in> set (snapshots_with_shift versionId db). \<forall>q \<in> set (required_of tables (sh_type sh)).
        requirement_outcome dateParse tables q (sn_member s) (sn_date s) \<in> {None, Some QSatisfied})"

lemma compileRule_constraint: "classification r = ''HARD'' \<Longrightarrow> c_role (compileRule r) = ''constraint''"
  by (simp add: compileRule_def split: prod.split)

lemma hard_rules_pass:
  "findHardRuleFindings dateParse tables versionId db = Inr [] \<longleftrightarrow>
     (\<forall>(r, status) \<in> set (rule_rows tables). status = ''active'' \<and> classification r = ''HARD'' \<longrightarrow>
        satisfied (loadCheckedVersion dateParse tables versionId db) (compileRule r))"
proof -
  have "findHardRuleFindings dateParse tables versionId db =
      evaluateHardRules (loadActiveHardRules tables) (loadCheckedVersion dateParse tables versionId db)"
    by (simp add: findHardRuleFindings_def Let_def evaluateHardRules_def)
  then show ?thesis
    by (auto simp: evaluateHardRules_def collect_Inr_Nil_iff rule_findings_Nil loadActiveHardRules_def
        compileRule_constraint)
qed

lemma requirements_pass:
  "findQualificationRequirementFindings dateParse tables versionId db = [] \<longleftrightarrow>
     (\<forall>(s, sh) \<in> set (snapshots_with_shift versionId db). \<forall>q \<in> set (required_of tables (sh_type sh)).
        requirement_outcome dateParse tables q (sn_member s) (sn_date s) \<in> {None, Some QSatisfied})"
  by (fastforce simp: findQualificationRequirementFindings_def split: option.splits if_splits)

lemma assertHardRulesRevalidated_Inr:
  "assertHardRulesRevalidated dateParse tables versionId db = Inr (u, db') \<longleftrightarrow>
     revalidated dateParse tables versionId db \<and> db' = db"
  by (auto simp: assertHardRulesRevalidated_def seq_Inr revalidated_def hard_rules_pass[symmetric]
      requirements_pass split: sum.splits)

end
