(* ===== verification/Publication.thy ===== *)
theory Publication
  imports HardRuleRevalidation ScheduleAuthoring ScheduleDiff RowDigest
begin

text \<open>
  \<open>apps/api/src/schedule/publication.ts\<close>: the publication transaction, revert, the status of a period and the
  recovery of a stale publication. \<open>host\<close> gathers what the host gives: identifiers, the hash, \<open>Date.parse\<close> and
  the version of the time-zone database. The pruning function and the guards of migrations 0009 and 0015 are
  part of the statements they act on; that the unique indexes on the version number and on the current version
  never refuse is proved in \<open>PublicationInvariant\<close>.
\<close>

record host =
  host_uuid :: "nat \<Rightarrow> string"
  host_sha256 :: "string \<Rightarrow> string"
  host_dateParse :: date_parse
  host_tzdb :: string

record PublishInput =
  pi_period :: string
  pi_version :: string
  pi_key :: string
  pi_expectedState :: "VersionState option"
  pi_expectedPrior :: "string option"
  pi_operation :: "PublicationOperation option"
  pi_revertedTo :: "string option"

record PublishResult =
  ps_replay :: bool
  ps_version :: string
  ps_number :: int
  ps_prior :: "string option"
  ps_difference :: VersionDifference
  ps_outbox :: "string option"

definition key_char :: "char \<Rightarrow> bool" where
  "key_char c = (let n = of_char c :: nat in
     (48 \<le> n \<and> n \<le> 57) \<or> (65 \<le> n \<and> n \<le> 90) \<or> (97 \<le> n \<and> n \<le> 122) \<or> c = CHR ''_'' \<or> c = CHR ''.'' \<or> c = CHR ''-'')"

definition PUBLICATION_IDEMPOTENCY_KEY_PATTERN :: "string \<Rightarrow> bool" where
  "PUBLICATION_IDEMPOTENCY_KEY_PATTERN key \<longleftrightarrow> 1 \<le> length key \<and> length key \<le> 64 \<and> list_all key_char key"

fun state_text :: "VersionState \<Rightarrow> string" where
  "state_text VDraft = ''draft''"
| "state_text VInReview = ''in_review''"
| "state_text VApproved = ''approved''"
| "state_text VPublishing = ''publishing''"
| "state_text VPublished = ''published''"
| "state_text VSuperseded = ''superseded''"
| "state_text VCancelled = ''cancelled''"

fun operation_text :: "PublicationOperation \<Rightarrow> string" where
  "operation_text OpPublish = ''publish''"
| "operation_text OpRevert = ''revert''"

definition expected_state :: "PublishInput \<Rightarrow> VersionState" where
  "expected_state input = (case pi_expectedState input of None \<Rightarrow> VApproved | Some s \<Rightarrow> s)"

definition operation_type :: "PublishInput \<Rightarrow> PublicationOperation" where
  "operation_type input = (case pi_operation input of None \<Rightarrow> OpPublish | Some op \<Rightarrow> op)"

definition semantic_digest :: "host \<Rightarrow> PublishInput \<Rightarrow> string" where
  "semantic_digest h input = semanticRequestDigest (host_sha256 h)
     \<lparr>sq_operation = operation_text (operation_type input), sq_period = pi_period input,
      sq_version = pi_version input, sq_expectedState = state_text (expected_state input),
      sq_expectedPrior = pi_expectedPrior input, sq_revertedTo = pi_revertedTo input\<rparr>"

text \<open>The join of the snapshots of a version with their shifts and their credits that are not voided; a snapshot
  without such a credit is one row.\<close>
definition activeSnapshotsOf :: "string \<Rightarrow> ScheduleDb \<Rightarrow> DiffSnapshot list" where
  "activeSnapshotsOf versionId db =
     concat (map (\<lambda>s. concat (map (\<lambda>sh.
       (let row = (\<lambda>credited w. \<lparr>ds_identity = sn_identity s, ds_member = sn_member s, ds_starts = sn_starts s,
              ds_ends = sn_ends s, ds_status = sn_status s, ds_date = sn_date s, ds_type = sh_type sh,
              ds_location = sh_location sh, ds_pinned = sn_pinned s, ds_credited = credited, ds_weight = w\<rparr>);
            credits = filter (\<lambda>c. cr_identity c = sn_identity s \<and> cr_version c = versionId \<and> cr_status c \<noteq> CreditVoided)
              (credit_rows db)
        in if credits = [] then [row None None]
           else map (\<lambda>c. row (Some (cr_member c)) (Some (cr_weight c))) credits))
       (filter (\<lambda>sh. sh_id sh = sn_shift s) (shift_rows db))))
     (filter (\<lambda>s. sn_version s = versionId) (snapshot_rows db)))"

text \<open>\<open>UPDATE schedule_versions SET state = 'publishing'\<close>; the guard of frozen rows refuses it on a published one.\<close>
definition set_publishing :: "VersionRow \<Rightarrow> unit service" where
  "set_publishing version =
     seq (demand (v_state version \<notin> {VPublished, VSuperseded}) (Database ''SCHEDULE_VERSION_FROZEN_COLUMN''))
       (\<lambda>_. store (update_version (v_id version) (\<lambda>v. v\<lparr>v_state := VPublishing\<rparr>)))"

text \<open>\<open>SET state = 'published', is_current = true, version_number = n\<close>: refused in a closed period and, by the
  check \<open>schedule_versions_no_lock_when_frozen\<close>, on a locked version.\<close>
definition set_published :: "VersionRow \<Rightarrow> int \<Rightarrow> unit service" where
  "set_published version n =
     seq (period_open_guard (v_period version)) (\<lambda>_.
     seq (demand (v_lock version = Unlocked) (Database ''schedule_versions_no_lock_when_frozen'')) (\<lambda>_.
     store (update_version (v_id version) (\<lambda>v. v\<lparr>v_state := VPublished, v_current := True, v_number := Some n\<rparr>))))"

text \<open>\<open>coalesce(max(version_number), 0) + 1\<close> over the period.\<close>
definition next_number :: "string \<Rightarrow> ScheduleDb \<Rightarrow> int" where
  "next_number periodId db =
     foldl max 0 (List.map_filter v_number (filter (\<lambda>v. v_period v = periodId) (version_rows db))) + 1"

definition overlaps :: "int \<Rightarrow> int \<Rightarrow> int \<Rightarrow> int \<Rightarrow> bool" where
  "overlaps s1 e1 s2 e2 \<longleftrightarrow> s1 < e2 \<and> s2 < e1"

definition insert_reality :: "string \<Rightarrow> string \<Rightarrow> SnapshotRow \<Rightarrow> unit service" where
  "insert_reality periodId versionId s =
     seq (query (\<lambda>db. \<exists>r \<in> set (reality_rows db). ra_member r = sn_member s \<and>
         overlaps (ra_starts r) (ra_ends r) (sn_starts s) (sn_ends s))) (\<lambda>booked.
     seq (demand (\<not> booked) (Database ''current_published_assignments_no_double_book'')) (\<lambda>_.
     store (\<lambda>db. db\<lparr>reality_rows := reality_rows db @
       [\<lparr>ra_member = sn_member s, ra_period = periodId, ra_starts = sn_starts s, ra_ends = sn_ends s,
         ra_version = versionId, ra_snapshot = sn_id s, ra_identity = sn_identity s\<rparr>]\<rparr>)))"

definition supersede :: "string \<Rightarrow> string \<Rightarrow> unit service" where
  "supersede prior versionId =
     seq (store (\<lambda>db. db\<lparr>supersession_rows := supersession_rows db @ [(prior, versionId)]\<rparr>)) (\<lambda>_.
     store (update_version prior (\<lambda>v. v\<lparr>v_state := VSuperseded, v_supersededBy := Some versionId\<rparr>)))"

definition prune_current_assignments :: "string \<Rightarrow> unit service" where
  "prune_current_assignments prior =
     store (\<lambda>db. db\<lparr>reality_rows := filter (\<lambda>r. ra_version r \<noteq> prior) (reality_rows db)\<rparr>)"

text \<open>A recorded publication under the key is replayed, if it was of this request.\<close>
definition replay_publication :: "host \<Rightarrow> PublishInput \<Rightarrow> PublicationRow \<Rightarrow> PublishResult service" where
  "replay_publication h input replayed =
     seq (demand (pb_version replayed = pi_version input)
         (SchedulePreconditionError ''IDEMPOTENCY_KEY_REUSED_FOR_DIFFERENT_VERSION'')) (\<lambda>_.
     seq (demand (pb_operation replayed = operation_type input)
         (SchedulePreconditionError ''IDEMPOTENCY_KEY_REUSED_FOR_DIFFERENT_OPERATION'')) (\<lambda>_.
     seq (demand (pb_digest replayed = None \<or> pb_digest replayed = Some (semantic_digest h input))
         (SchedulePreconditionError ''IDEMPOTENCY_KEY_REUSED_FOR_DIFFERENT_REQUEST'')) (\<lambda>_.
     ret \<lparr>ps_replay = True, ps_version = pb_version replayed, ps_number = pb_number replayed,
          ps_prior = pb_prior replayed,
          ps_difference = \<lparr>vd_changes = [], vd_affected = pb_affected replayed\<rparr>, ps_outbox = None\<rparr>)))"

text \<open>Steps 03 to 05 of the transaction: the version is the period's, in the expected state, fresh, and passes.\<close>
definition check_prerequisites :: "host \<Rightarrow> StaffingTables \<Rightarrow> PublishInput \<Rightarrow> VersionRow service" where
  "check_prerequisites h tables input =
     seq (query (find_version (pi_version input))) (\<lambda>found.
     seq (require_row (SchedulePreconditionError ''VERSION_NOT_FOUND'') found) (\<lambda>version.
     seq (demand (v_period version = pi_period input) (SchedulePreconditionError ''VERSION_PERIOD_MISMATCH'')) (\<lambda>_.
     seq (demand (v_state version = expected_state input) (SchedulePreconditionError ''VERSION_STATE_UNEXPECTED'')) (\<lambda>_.
     seq (assertTimezoneBasisFresh (host_tzdb h) (pi_version input)) (\<lambda>_.
     seq (set_publishing version) (\<lambda>_.
     seq (assertNoOpenHardBreach (pi_version input)) (\<lambda>_.
     seq (assertHardRulesRevalidated (host_dateParse h) tables (pi_version input)) (\<lambda>_.
     ret version))))))))"

text \<open>Steps 07 to 12: number, current version, supersession and reality.\<close>
definition swap_current :: "PublishInput \<Rightarrow> VersionRow \<Rightarrow> (int \<times> string option) service" where
  "swap_current input version =
     seq (query (next_number (pi_period input))) (\<lambda>n.
     seq (query (\<lambda>db. map_option v_id (find (\<lambda>v. v_period v = pi_period input \<and> v_current v) (version_rows db)))) (\<lambda>prior.
     seq (demand (pi_expectedPrior input = prior) (SchedulePreconditionError ''CURRENT_VERSION_MOVED'')) (\<lambda>_.
     seq (case prior of None \<Rightarrow> ret () | Some p \<Rightarrow> store (update_version p (\<lambda>v. v\<lparr>v_current := False\<rparr>))) (\<lambda>_.
     seq (set_published version n) (\<lambda>_.
     seq (case prior of None \<Rightarrow> ret () | Some p \<Rightarrow>
         seq (supersede p (pi_version input)) (\<lambda>_. prune_current_assignments p)) (\<lambda>_.
     seq (query (\<lambda>db. filter (\<lambda>s. sn_version s = pi_version input \<and> sn_status s = SnapActive) (snapshot_rows db))) (\<lambda>incoming.
     seq (for_each (insert_reality (pi_period input) (pi_version input)) incoming) (\<lambda>_.
     ret (n, prior)))))))))"

definition record_publication ::
  "host \<Rightarrow> PublishInput \<Rightarrow> int \<Rightarrow> string option \<Rightarrow> VersionDifference \<Rightarrow> unit service" where
  "record_publication h input n prior difference =
     store (\<lambda>db. db\<lparr>publication_rows := publication_rows db @
       [\<lparr>pb_period = pi_period input, pb_version = pi_version input, pb_key = pi_key input,
         pb_operation = operation_type input, pb_digest = Some (semantic_digest h input), pb_number = n,
         pb_prior = prior, pb_affected = vd_affected difference\<rparr>]\<rparr>)"

text \<open>Steps 13 to 16: the difference, the audit events, the outbox event and the publication record.\<close>
definition announce_publication ::
  "host \<Rightarrow> PublishInput \<Rightarrow> int \<Rightarrow> string option \<Rightarrow> PublishResult service" where
  "announce_publication h input n prior =
     seq (query (\<lambda>db. differenceByIdentity
         (case prior of None \<Rightarrow> [] | Some p \<Rightarrow> activeSnapshotsOf p db) (activeSnapshotsOf (pi_version input) db))) (\<lambda>difference.
     seq (recordAudit ''schedule.version.published'' (pi_version input)) (\<lambda>_.
     seq (case prior of None \<Rightarrow> ret () | Some p \<Rightarrow> recordAudit ''schedule.version.superseded'' p) (\<lambda>_.
     let outboxKey = ''schedule-publish:'' @ pi_period input @ '':'' @ pi_key input in
     seq (publishOutbox ''schedule.version.published'' outboxKey) (\<lambda>_.
     seq (record_publication h input n prior difference) (\<lambda>_.
     ret \<lparr>ps_replay = False, ps_version = pi_version input, ps_number = n, ps_prior = prior,
          ps_difference = difference, ps_outbox = Some outboxKey\<rparr>)))))"

definition publishVersion ::
  "host \<Rightarrow> StaffingTables \<Rightarrow> (string \<Rightarrow> bool) \<Rightarrow> PublishInput \<Rightarrow> PublishResult service" where
  "publishVersion h tables permit input =
     seq (demand (PUBLICATION_IDEMPOTENCY_KEY_PATTERN (pi_key input))
         (SchedulePreconditionError ''IDEMPOTENCY_KEY_INVALID'')) (\<lambda>_.
     seq (requireScheduleCapability permit PublishAction) (\<lambda>_.
     seq (query (find_period (pi_period input))) (\<lambda>period.
     seq (demand (period \<noteq> None) (SchedulePreconditionError ''PERIOD_NOT_FOUND'')) (\<lambda>_.
     seq (query (\<lambda>db. find (\<lambda>p. pb_period p = pi_period input \<and> pb_key p = pi_key input) (publication_rows db))) (\<lambda>existing.
     case existing of
       Some replayed \<Rightarrow> replay_publication h input replayed
     | None \<Rightarrow>
     seq (check_prerequisites h tables input) (\<lambda>version.
     seq (swap_current input version) (\<lambda>(n, prior).
     announce_publication h input n prior)))))))"

definition publishRevert ::
  "host \<Rightarrow> StaffingTables \<Rightarrow> (string \<Rightarrow> bool) \<Rightarrow> PublishInput \<Rightarrow> string \<Rightarrow> PublishResult service" where
  "publishRevert h tables permit input revertedTo =
     seq (requireScheduleCapability permit RevertAction) (\<lambda>_.
     seq (publishVersion h tables permit (input\<lparr>pi_operation := Some OpRevert, pi_revertedTo := Some revertedTo\<rparr>)) (\<lambda>result.
     seq (if ps_replay result then ret () else recordAudit ''schedule.version.reverted'' (pi_version input)) (\<lambda>_.
     ret result)))"

section \<open>Period status and recovery\<close>

fun LEGAL_PERIOD_TRANSITIONS :: "PeriodStatus \<Rightarrow> PeriodStatus list" where
  "LEGAL_PERIOD_TRANSITIONS PPlanning = [PPublished, PClosed]"
| "LEGAL_PERIOD_TRANSITIONS PPublished = [PClosed]"
| "LEGAL_PERIOD_TRANSITIONS PClosed = [PPlanning]"

definition transitionPeriodStatus :: "(string \<Rightarrow> bool) \<Rightarrow> string \<Rightarrow> PeriodStatus \<Rightarrow> (PeriodStatus \<times> PeriodStatus) service" where
  "transitionPeriodStatus permit periodId t =
     seq (requireScheduleCapability permit PeriodAdminister) (\<lambda>_.
     seq (query (find_period periodId)) (\<lambda>found.
     seq (require_row (SchedulePreconditionError ''PERIOD_NOT_FOUND'') found) (\<lambda>period.
     if pr_status period = t then ret (pr_status period, t) else
     seq (demand (t \<in> set (LEGAL_PERIOD_TRANSITIONS (pr_status period)))
         (SchedulePreconditionError ''PERIOD_TRANSITION_ILLEGAL'')) (\<lambda>_.
     seq (store (\<lambda>db. db\<lparr>period_rows :=
         map (\<lambda>p. if pr_id p = periodId then p\<lparr>pr_status := t\<rparr> else p) (period_rows db)\<rparr>)) (\<lambda>_.
     seq (recordAudit ''schedule.period.updated'' periodId) (\<lambda>_. ret (pr_status period, t)))))))"

text \<open>Every publication row has the outcome \<open>published\<close>.\<close>
definition stale_publishing :: "ScheduleDb \<Rightarrow> string list" where
  "stale_publishing db =
     map v_id (filter (\<lambda>v. v_state v = VPublishing \<and> v_id v \<notin> set (map pb_version (publication_rows db)))
       (version_rows db))"

definition reconcileStalePublishing :: "string list service" where
  "reconcileStalePublishing =
     seq (query stale_publishing) (\<lambda>stale.
     for_each (\<lambda>i. seq (store (update_version i (\<lambda>v. v\<lparr>v_state := VApproved\<rparr>))) (\<lambda>_.
       seq (recordAudit ''schedule.publication.failed'' i) (\<lambda>_. ret i))) stale)"

end
