(* ===== verification/ScheduleFrames.thy ===== *)
theory ScheduleFrames
  imports Publication "HOL-Library.Multiset"
begin

text \<open>
  What each authoring service leaves alone. \<open>content i\<close> is all that belongs to version \<open>i\<close>; \<open>edits\<close> says that a
  call touched at most the content of one version and drew the identifiers of the rows it added. The lemmas
  below give this frame for every service, so that an invariant of published versions need only look at it.
\<close>

section \<open>Identifiers\<close>

definition all_ids :: "ScheduleDb \<Rightarrow> string list" where
  "all_ids db = map v_id (version_rows db) @ map sh_id (shift_rows db) @ map sn_id (snapshot_rows db) @
     map cr_id (credit_rows db)"

definition ids_ok :: "(nat \<Rightarrow> string) \<Rightarrow> ScheduleDb \<Rightarrow> bool" where
  "ids_ok uuid db \<longleftrightarrow> distinct (all_ids db) \<and> set (all_ids db) \<subseteq> uuid ` {..<draws db}"

definition grows :: "(nat \<Rightarrow> string) \<Rightarrow> ScheduleDb \<Rightarrow> ScheduleDb \<Rightarrow> bool" where
  "grows uuid db db' \<longleftrightarrow> draws db \<le> draws db' \<and>
     (\<exists>new. mset (all_ids db') = mset (all_ids db @ map uuid new) \<and> distinct new \<and>
        set new \<subseteq> {draws db..<draws db'})"

lemma growsI:
  "mset (all_ids db') = mset (all_ids db @ map uuid new) \<Longrightarrow> distinct new \<Longrightarrow>
   set new \<subseteq> {draws db..<draws db'} \<Longrightarrow> draws db \<le> draws db' \<Longrightarrow> grows uuid db db'"
  by (auto simp: grows_def)

lemma grows_refl: "mset (all_ids db') = mset (all_ids db) \<Longrightarrow> draws db \<le> draws db' \<Longrightarrow> grows uuid db db'"
  by (rule growsI[of _ _ _ "[]"]) simp_all

lemma grows_trans:
  assumes "grows uuid a b" "grows uuid b c"
  shows "grows uuid a c"
proof -
  obtain m n where m: "mset (all_ids b) = mset (all_ids a @ map uuid m)" "distinct m" "set m \<subseteq> {draws a..<draws b}"
    and n: "mset (all_ids c) = mset (all_ids b @ map uuid n)" "distinct n" "set n \<subseteq> {draws b..<draws c}"
    and d: "draws a \<le> draws b" "draws b \<le> draws c"
    using assms by (auto simp: grows_def)
  show ?thesis
  proof (rule growsI[of _ _ _ "m @ n"])
    show "mset (all_ids c) = mset (all_ids a @ map uuid (m @ n))" using m(1) n(1) by simp
    have "set m \<inter> set n = {}" using m(3) n(3) by force
    then show "distinct (m @ n)" using m(2) n(2) by simp
    show "set (m @ n) \<subseteq> {draws a..<draws c}" using m(3) n(3) d by fastforce
    show "draws a \<le> draws c" using d by simp
  qed
qed

lemma ids_ok_grows:
  assumes "inj uuid" "ids_ok uuid db" "grows uuid db db'"
  shows "ids_ok uuid db'"
proof -
  obtain new where new: "mset (all_ids db') = mset (all_ids db @ map uuid new)" "distinct new"
      "set new \<subseteq> {draws db..<draws db'}" and d: "draws db \<le> draws db'"
    using assms(3) by (auto simp: grows_def)
  have ids: "distinct (all_ids db)" "set (all_ids db) \<subseteq> uuid ` {..<draws db}"
    using assms(2) by (simp_all add: ids_ok_def)
  have "set (all_ids db) \<inter> set (map uuid new) = {}"
  proof -
    have "uuid i \<noteq> uuid j" if "i < draws db" "j \<in> set new" for i j
      using that new(3) inj_eq[OF assms(1)] by fastforce
    then show ?thesis using ids(2) by fastforce
  qed
  moreover have "distinct (map uuid new)"
    using new(2) assms(1) by (simp add: distinct_map inj_on_def inj_def)
  ultimately have "distinct (all_ids db @ map uuid new)" using ids(1) by simp
  then have "distinct (all_ids db')" using new(1) mset_eq_imp_distinct_iff by blast
  moreover have "set (all_ids db') = set (all_ids db @ map uuid new)" using new(1) by (rule mset_eq_setD)
  then have "set (all_ids db') \<subseteq> uuid ` {..<draws db'}"
    using ids(2) new(3) d by fastforce
  ultimately show ?thesis by (simp add: ids_ok_def)
qed

lemma ids_ok_distinct:
  assumes "ids_ok uuid db"
  shows "distinct (map v_id (version_rows db))" "distinct (map sn_id (snapshot_rows db))"
    "distinct (map sh_id (shift_rows db))" "distinct (map cr_id (credit_rows db))"
  using assms by (simp_all add: ids_ok_def all_ids_def)

section \<open>Content\<close>

record VersionContent =
  vc_shifts :: "ShiftRow list"
  vc_snapshots :: "SnapshotRow list"
  vc_credits :: "CreditRow list"
  vc_conflicts :: "ConflictRow list"

definition content :: "string \<Rightarrow> ScheduleDb \<Rightarrow> VersionContent" where
  "content i db =
     \<lparr>vc_shifts = filter (\<lambda>s. sh_version s = i) (shift_rows db),
      vc_snapshots = filter (\<lambda>s. sn_version s = i) (snapshot_rows db),
      vc_credits = filter (\<lambda>c. cr_version c = i) (credit_rows db),
      vc_conflicts = filter (\<lambda>c. cf_version c = i) (conflict_rows db)\<rparr>"

text \<open>What publication writes.\<close>
definition published_part ::
  "ScheduleDb \<Rightarrow> VersionRow list \<times> RealityRow list \<times> PublicationRow list \<times> (string \<times> string) list" where
  "published_part db = (version_rows db, reality_rows db, publication_rows db, supersession_rows db)"

text \<open>The call edited at most version \<open>i\<close>.\<close>
definition edits :: "(nat \<Rightarrow> string) \<Rightarrow> string \<Rightarrow> ScheduleDb \<Rightarrow> ScheduleDb \<Rightarrow> bool" where
  "edits uuid i db db' \<longleftrightarrow> published_part db' = published_part db \<and> grows uuid db db' \<and>
     (\<forall>j. j \<noteq> i \<longrightarrow> content j db' = content j db)"

lemma edits_refl:
  "published_part db' = published_part db \<Longrightarrow> mset (all_ids db') = mset (all_ids db) \<Longrightarrow> draws db \<le> draws db' \<Longrightarrow>
   (\<And>j. j \<noteq> i \<Longrightarrow> content j db' = content j db) \<Longrightarrow> edits uuid i db db'"
  by (simp add: edits_def grows_refl)

lemma edits_trans: "edits uuid i a b \<Longrightarrow> edits uuid i b c \<Longrightarrow> edits uuid i a c"
  by (auto simp: edits_def intro: grows_trans)

lemma map_id_update:
  "(\<And>x. k (f x) = k x) \<Longrightarrow> map k (map (\<lambda>x. if P x then f x else x) xs) = map k xs"
  by (simp add: if_distrib cong: if_cong)

lemma filter_update_other:
  "(\<And>x. x \<in> set xs \<Longrightarrow> P x \<Longrightarrow> \<not> Q x \<and> \<not> Q (f x)) \<Longrightarrow>
   filter Q (map (\<lambda>x. if P x then f x else x) xs) = filter Q xs"
  by (induction xs) auto

lemma find_unique_id:
  assumes "distinct (map k xs)" "x \<in> set xs" "y \<in> set xs" "k x = k y"
  shows "x = y"
  using assms by (metis distinct_map inj_onD)

section \<open>Editing a version\<close>

lemma assertEditable_Inr [simp]:
  "assertEditable version db = Inr (u, db') \<longleftrightarrow> v_state version = VDraft \<and> v_lock version = Unlocked \<and> db' = db"
  by (cases "v_lock version") (auto simp: assertEditable_def EDITABLE_STATES_def seq_Inr)

lemma loadVersion_Inr [simp]:
  "loadVersion i db = Inr (v, db') \<longleftrightarrow> find_version i db = Some v \<and> db' = db"
  by (auto simp: loadVersion_def seq_Inr)

lemma requireScheduleCapability_Inr [simp]:
  "requireScheduleCapability permit a db = Inr (u, db') \<longleftrightarrow> permit (action_key a) \<and> db' = db"
  by (auto simp: requireScheduleCapability_def)

lemma assertAssignableMembership_Inr:
  "assertAssignableMembership m s e db = Inr (u, db') \<Longrightarrow> db' = db"
  by (auto simp: assertAssignableMembership_def seq_Inr)

definition draft_in :: "string \<Rightarrow> ScheduleDb \<Rightarrow> bool" where
  "draft_in i db \<longleftrightarrow> (\<exists>v. find_version i db = Some v \<and> v_state v = VDraft \<and> v_lock v = Unlocked)"

lemmas frame_defs = edits_def published_part_def content_def all_ids_def recordAudit_def

lemma recordAudit_edits: "recordAudit e s db = Inr (u, db') \<Longrightarrow> edits uuid i db db'"
  by (auto simp: frame_defs intro!: grows_refl)

lemma ensureShift_edits:
  assumes "ensureShift uuid i d t l db = Inr (s, db')"
  shows "edits uuid i db db'"
proof (cases "find (\<lambda>s. sh_version s = i \<and> sh_date s = d \<and> sh_type s = t \<and> sh_location s = l) (shift_rows db)")
  case None
  then show ?thesis using assms
    by (auto simp: ensureShift_def seq_Inr frame_defs randomUUID_def intro!: growsI[of _ _ _ "[draws db]"])
next
  case (Some x)
  then show ?thesis using assms
    by (auto simp: ensureShift_def seq_Inr frame_defs intro!: grows_refl)
qed

lemma insert_snapshot_edits:
  assumes "insert_snapshot sn db = Inr (u, db')" "sn_version sn = i"
  shows "published_part db' = published_part db \<and> draws db' = draws db \<and>
    mset (all_ids db') = mset (all_ids db @ [sn_id sn]) \<and> (\<forall>j. j \<noteq> i \<longrightarrow> content j db' = content j db)"
  using assms by (auto simp: insert_snapshot_def seq_Inr frame_defs)

lemma addManualAssignment_edits:
  assumes "addManualAssignment uuid permit input db = Inr (r, db')"
  shows "edits uuid (ai_version input) db db' \<and> draft_in (ai_version input) db"
proof -
  obtain v shiftId db1 identityId db2 snapshotId db3 db4 u1 u2 where
    v: "find_version (ai_version input) db = Some v" "v_state v = VDraft" "v_lock v = Unlocked"
    and shift: "ensureShift uuid (ai_version input) (ai_date input) (ai_type input) (ai_location input) db = Inr (shiftId, db1)"
    and identity: "(case ai_identity input of Some i \<Rightarrow> ret i
          | None \<Rightarrow> seq (randomUUID uuid) (\<lambda>i.
              seq (store (\<lambda>db. db\<lparr>identity_rows := identity_rows db @ [(i, v_period v)]\<rparr>)) (\<lambda>_. ret i))) db1
        = Inr (identityId, db2)"
    and snap: "snapshotId = uuid (draws db2)" "db3 = db2\<lparr>draws := draws db2 + 1\<rparr>"
    and ins: "insert_snapshot
       \<lparr>sn_id = snapshotId, sn_identity = identityId, sn_version = ai_version input, sn_member = ai_member input,
        sn_shift = shiftId, sn_date = ai_date input, sn_starts = ai_starts input, sn_ends = ai_ends input,
        sn_origin = ai_origin input, sn_pick = ai_pick input, sn_pinned = ai_pinned input,
        sn_status = SnapActive, sn_supersedes = None, sn_override = ai_override input\<rparr> db3 = Inr (u1, db4)"
    and audit: "seq (recordAudit ''schedule.assignment.added'' identityId) (\<lambda>_.
        if ai_override input \<noteq> None then recordAudit ''schedule.assignment.overridden'' identityId else ret ()) db4
        = Inr (u2, db')"
    using assms unfolding addManualAssignment_def
    by (auto simp: seq_Inr randomUUID_def dest!: assertAssignableMembership_Inr)
  have "edits uuid (ai_version input) db db1" using ensureShift_edits[OF shift] .
  also have "edits uuid (ai_version input) db1 db2"
    using identity by (auto simp: seq_Inr randomUUID_def frame_defs intro!: grows_refl split: option.splits)
  finally (edits_trans) have e2: "edits uuid (ai_version input) db db2" .
  have "edits uuid (ai_version input) db2 db4"
    using insert_snapshot_edits[OF ins] snap
    by (auto simp: frame_defs intro!: growsI[of _ _ _ "[draws db2]"])
  then have e4: "edits uuid (ai_version input) db db4" using e2 edits_trans by blast
  have "edits uuid (ai_version input) db4 db'"
    using audit by (auto simp: seq_Inr frame_defs intro!: grows_refl split: if_splits)
  then show ?thesis using e4 edits_trans v by (auto simp: draft_in_def)
qed

lemma update_snapshots_edits:
  assumes "update_snapshots P f db = Inr (r, db')" "\<And>s. sn_id (f s) = sn_id s \<and> sn_version (f s) = sn_version s"
    and "\<And>s. s \<in> set (snapshot_rows db) \<Longrightarrow> P s \<Longrightarrow> sn_version s = i"
  shows "edits uuid i db db'"
proof -
  have "filter (\<lambda>s. sn_version s = j) (map (\<lambda>s. if P s then f s else s) (snapshot_rows db)) =
      filter (\<lambda>s. sn_version s = j) (snapshot_rows db)" if "j \<noteq> i" for j
    using assms(2,3) that by (intro filter_update_other) auto
  moreover have "map sn_id (map (\<lambda>s. if P s then f s else s) (snapshot_rows db)) = map sn_id (snapshot_rows db)"
    using assms(2) by (intro map_id_update) simp
  moreover have "db' = db\<lparr>snapshot_rows := map (\<lambda>s. if P s then f s else s) (snapshot_rows db)\<rparr>"
    using assms(1) by (auto simp: update_snapshots_def seq_Inr)
  ultimately show ?thesis
    by (intro edits_refl) (simp_all add: frame_defs del: map_map mset_map)
qed

lemma removeAssignment_edits:
  assumes "removeAssignment permit i identity reason db = Inr (u, db')"
  shows "edits uuid i db db' \<and> draft_in i db"
  using assms unfolding removeAssignment_def
  by (auto simp: seq_Inr draft_in_def intro: edits_trans[OF update_snapshots_edits recordAudit_edits])

lemma setPin_edits:
  assumes "setPin permit i identity pinned db = Inr (u, db')"
  shows "edits uuid i db db' \<and> draft_in i db"
  using assms unfolding setPin_def
  by (auto simp: seq_Inr draft_in_def intro: edits_trans[OF update_snapshots_edits recordAudit_edits])

lemma reassignAssignment_edits:
  assumes "ids_ok uuid db" "reassignAssignment permit i identity m reason db = Inr (u, db')"
  shows "edits uuid i db db' \<and> draft_in i db"
proof -
  obtain v current found db1 where v: "find_version i db = Some v" "v_state v = VDraft" "v_lock v = Unlocked"
    and current: "find (\<lambda>s. sn_version s = i \<and> sn_identity s = identity \<and> sn_status s = SnapActive)
        (snapshot_rows db) = Some current"
    and upd: "update_snapshots (\<lambda>s. sn_id s = sn_id current)
        (\<lambda>s. s\<lparr>sn_member := m, sn_override := Some reason\<rparr>) db = Inr (found, db1)"
    and audit: "recordAudit ''schedule.assignment.reassigned'' identity db1 = Inr (u, db')"
    using assms(2) unfolding reassignAssignment_def by (auto simp: seq_Inr dest!: assertAssignableMembership_Inr)
  have c: "current \<in> set (snapshot_rows db)" "sn_version current = i"
    using current by (auto simp: find_Some_iff in_set_conv_nth)
  have "edits uuid i db db1"
  proof (rule update_snapshots_edits[OF upd])
    show "sn_version s = i" if "s \<in> set (snapshot_rows db)" "sn_id s = sn_id current" for s
      using find_unique_id[OF ids_ok_distinct(2)[OF assms(1)] that(1) c(1) that(2)] c(2) by simp
  qed simp
  then show ?thesis using recordAudit_edits[OF audit] edits_trans v by (auto simp: draft_in_def)
qed

lemma update_credits_edits:
  assumes "ids_ok uuid db" "c \<in> set (credit_rows db)" "cr_version c = i"
    and "\<And>x. cr_id (f x) = cr_id x \<and> cr_version (f x) = cr_version x"
  shows "edits uuid i db (db\<lparr>credit_rows := map (\<lambda>x. if cr_id x = cr_id c then f x else x) (credit_rows db)\<rparr>)"
proof -
  have "cr_version x = i" if "x \<in> set (credit_rows db)" "cr_id x = cr_id c" for x
    using find_unique_id[OF ids_ok_distinct(4)[OF assms(1)] that(1) assms(2) that(2)] assms(3) by simp
  then have "filter (\<lambda>x. cr_version x = j) (map (\<lambda>x. if cr_id x = cr_id c then f x else x) (credit_rows db)) =
      filter (\<lambda>x. cr_version x = j) (credit_rows db)" if "j \<noteq> i" for j
    using assms(4) that by (intro filter_update_other) auto
  moreover have "map cr_id (map (\<lambda>x. if cr_id x = cr_id c then f x else x) (credit_rows db)) = map cr_id (credit_rows db)"
    using assms(4) by (intro map_id_update) simp
  ultimately show ?thesis
    by (intro edits_refl) (simp_all add: frame_defs del: map_map mset_map)
qed

lemma draws_edits: "edits uuid i db (db\<lparr>draws := draws db + 1\<rparr>)"
  by (auto simp: frame_defs intro!: grows_refl)

lemma edits_ids_ok: "inj uuid \<Longrightarrow> ids_ok uuid db \<Longrightarrow> edits uuid i db db' \<Longrightarrow> ids_ok uuid db'"
  by (auto simp: edits_def intro: ids_ok_grows)

lemma moveCredit_edits:
  assumes "inj uuid" "ids_ok uuid db" "moveCredit uuid permit acting input db = Inr (r, db')"
  shows "edits uuid (mc_version input) db db' \<and> draft_in (mc_version input) db"
proof -
  let ?i = "mc_version input" and ?db1 = "db\<lparr>draws := draws db + 1\<rparr>"
  let ?found = "find (\<lambda>c. cr_identity c = mc_identity input \<and> cr_version c = ?i) (credit_rows db)"
  have ids: "ids_ok uuid ?db1" by (rule edits_ids_ok[OF assms(1,2) draws_edits])
  have d: "draft_in ?i db"
    using assms(3) unfolding moveCredit_def by (auto simp: seq_Inr draft_in_def)
  show ?thesis
  proof (cases ?found)
    case None
    let ?c = "\<lparr>cr_id = uuid (draws db), cr_identity = mc_identity input, cr_version = ?i,
        cr_snapshot = mc_snapshot input, cr_member = mc_member input,
        cr_weight = (case mc_weight input of None \<Rightarrow> ''1'' | Some w \<Rightarrow> w), cr_reason = mc_reason input,
        cr_movedBy = acting, cr_status = CreditActive\<rparr>"
    have "edits uuid ?i db (?db1\<lparr>credit_rows := credit_rows db @ [?c]\<rparr>)"
      by (auto simp: frame_defs intro!: growsI[of _ _ _ "[draws db]"])
    moreover have "recordAudit ''schedule.credit.moved'' r (?db1\<lparr>credit_rows := credit_rows db @ [?c]\<rparr>) = Inr ((), db')"
      using assms(3) None unfolding moveCredit_def by (auto simp: seq_Inr randomUUID_def)
    ultimately show ?thesis using d recordAudit_edits edits_trans by blast
  next
    case (Some c)
    have c: "c \<in> set (credit_rows ?db1)" "cr_version c = ?i"
      using Some by (auto simp: find_Some_iff in_set_conv_nth)
    let ?f = "\<lambda>x. x\<lparr>cr_member := mc_member input, cr_movedBy := acting, cr_status := CreditReassigned\<rparr>"
    let ?db2 = "?db1\<lparr>credit_rows := map (\<lambda>x. if cr_id x = cr_id c then ?f x else x) (credit_rows ?db1)\<rparr>"
    have "edits uuid ?i ?db1 ?db2" by (rule update_credits_edits[OF ids c]) simp
    then have "edits uuid ?i db ?db2" by (rule edits_trans[OF draws_edits])
    moreover have "recordAudit ''schedule.credit.moved'' r ?db2 = Inr ((), db')"
      using assms(3) Some unfolding moveCredit_def by (auto simp: seq_Inr randomUUID_def)
    ultimately show ?thesis using d recordAudit_edits edits_trans by blast
  qed
qed

lemma voidCredit_edits:
  assumes "ids_ok uuid db" "voidCredit permit creditId db = Inr (u, db')"
  shows "\<exists>i. edits uuid i db db' \<and> draft_in i db"
proof -
  obtain c where c: "find (\<lambda>c. cr_id c = creditId) (credit_rows db) = Some c"
    and d: "draft_in (cr_version c) db"
    and audit: "recordAudit ''schedule.credit.voided'' creditId
        (db\<lparr>credit_rows := map (\<lambda>x. if cr_id x = creditId then x\<lparr>cr_status := CreditVoided\<rparr> else x) (credit_rows db)\<rparr>)
        = Inr (u, db')"
    using assms(2) unfolding voidCredit_def by (auto simp: seq_Inr draft_in_def)
  have "c \<in> set (credit_rows db)" "cr_id c = creditId"
    using c by (auto simp: find_Some_iff in_set_conv_nth)
  then have "edits uuid (cr_version c) db
      (db\<lparr>credit_rows := map (\<lambda>x. if cr_id x = creditId then x\<lparr>cr_status := CreditVoided\<rparr> else x) (credit_rows db)\<rparr>)"
    using update_credits_edits[OF assms(1), of c "cr_version c" "\<lambda>x. x\<lparr>cr_status := CreditVoided\<rparr>"] by simp
  then show ?thesis using d recordAudit_edits[OF audit] edits_trans by blast
qed

lemma recordConflict_edits:
  assumes "recordConflict uuid permit i severity explanation db = Inr (r, db')"
  shows "edits uuid i db db' \<and> draft_in i db"
  using assms unfolding recordConflict_def
  by (auto simp: seq_Inr draft_in_def randomUUID_def frame_defs intro!: grows_refl)

section \<open>Periods and requirements\<close>

definition quiet :: "(nat \<Rightarrow> string) \<Rightarrow> ScheduleDb \<Rightarrow> ScheduleDb \<Rightarrow> bool" where
  "quiet uuid db db' \<longleftrightarrow> published_part db' = published_part db \<and> mset (all_ids db') = mset (all_ids db) \<and>
     draws db \<le> draws db' \<and> (\<forall>j. content j db' = content j db)"

lemma quiet_edits: "quiet uuid db db' \<Longrightarrow> edits uuid i db db'"
  by (auto simp: quiet_def edits_def intro: grows_refl)

lemma quiet_refl [simp]: "quiet uuid db db"
  by (simp add: quiet_def)

lemmas quiet_defs = quiet_def published_part_def all_ids_def content_def

lemma quiet_randomUUID: "keeps (quiet uuid db) (randomUUID u)"
  by (rule keepsI) (auto simp: quiet_defs randomUUID_def)

lemma quiet_audit: "keeps (quiet uuid db) (recordAudit e s)"
  by (rule keepsI) (auto simp: quiet_defs recordAudit_def)

lemma quiet_guard: "keeps (quiet uuid db) (period_open_guard p)"
  by (rule keepsI) (auto simp: period_open_guard_def)

lemma quiet_capability: "keeps (quiet uuid db) (requireScheduleCapability permit a)"
  by (rule keepsI) auto

lemma quiet_store:
  "(\<And>db. version_rows (f db) = version_rows db \<and> reality_rows (f db) = reality_rows db \<and>
     publication_rows (f db) = publication_rows db \<and> supersession_rows (f db) = supersession_rows db \<and>
     shift_rows (f db) = shift_rows db \<and> snapshot_rows (f db) = snapshot_rows db \<and>
     credit_rows (f db) = credit_rows db \<and> conflict_rows (f db) = conflict_rows db \<and> draws (f db) = draws db) \<Longrightarrow>
   keeps (quiet uuid db0) (store f)"
  by (rule keepsI) (auto simp: quiet_defs)

lemma quiet_requirement:
  "keeps (quiet uuid db) (insert_requirement r)" "keeps (quiet uuid db) (update_requirement r n)"
  "keeps (quiet uuid db) (delete_requirement r)"
  by (auto simp: insert_requirement_def update_requirement_def delete_requirement_def bump_set_version_def
      intro!: keeping quiet_guard quiet_store)

lemmas quiet_rules = keeping quiet_randomUUID quiet_audit quiet_guard quiet_capability quiet_requirement

lemma setRequirement_quiet: "keeps (quiet uuid db) (setRequirement u permit p d t n)"
  unfolding setRequirement_def by (intro quiet_rules) (auto intro!: quiet_rules split: option.split)

lemma createPeriod_quiet: "keeps (quiet uuid db) (createPeriod u permit n s e)"
  unfolding createPeriod_def by (intro quiet_rules quiet_store) auto

lemma replaceRequirements_quiet: "keeps (quiet uuid db) (replaceRequirements u permit p entries n)"
  unfolding replaceRequirements_def Let_def
  by (intro quiet_rules) (auto intro!: quiet_rules split: option.split prod.split)

lemma transitionPeriodStatus_quiet: "keeps (quiet uuid db) (transitionPeriodStatus permit p t)"
  unfolding transitionPeriodStatus_def by (intro quiet_rules quiet_store) auto


section \<open>New versions\<close>

definition new_version :: "(nat \<Rightarrow> string) \<Rightarrow> ScheduleDb \<Rightarrow> VersionRow \<Rightarrow> ScheduleDb \<Rightarrow> bool" where
  "new_version uuid db v db' \<longleftrightarrow>
     version_rows db' = version_rows db @ [v] \<and> reality_rows db' = reality_rows db \<and>
     publication_rows db' = publication_rows db \<and> supersession_rows db' = supersession_rows db \<and>
     v_id v = uuid (draws db) \<and> v_state v = VDraft \<and> v_lock v = Unlocked \<and> v_number v = None \<and>
     \<not> v_current v \<and> v_supersededBy v = None \<and>
     grows uuid db db' \<and> (\<forall>j. j \<noteq> v_id v \<longrightarrow> content j db' = content j db)"

lemma new_version_edits: "new_version uuid db v db1 \<Longrightarrow> edits uuid (v_id v) db1 db2 \<Longrightarrow> new_version uuid db v db2"
  by (auto simp: new_version_def edits_def published_part_def intro: grows_trans)

lemma keeps_edits:
  "(\<And>s a t. m s = Inr (a, t) \<Longrightarrow> edits uuid i s t) \<Longrightarrow> keeps (edits uuid i db) m"
  by (auto intro!: keepsI intro: edits_trans)

lemma insert_version_new:
  assumes "insert_version v (db\<lparr>draws := draws db + 1\<rparr>) = Inr (u, db')" "v_id v = uuid (draws db)"
    and "v_state v = VDraft" "v_lock v = Unlocked" "v_number v = None" "\<not> v_current v" "v_supersededBy v = None"
  shows "new_version uuid db v db'"
  using assms
  by (auto simp: insert_version_def seq_Inr period_open_guard_def new_version_def content_def all_ids_def
      intro!: growsI[of _ _ _ "[draws db]"])

lemma createDraftVersion_new:
  assumes "createDraftVersion uuid permit tzdb p db = Inr (r, db')"
  shows "\<exists>v. new_version uuid db v db' \<and> v_id v = r"
proof -
  let ?v = "\<lparr>v_id = uuid (draws db), v_period = p, v_number = None, v_state = VDraft, v_lock = Unlocked,
      v_current = False, v_clonedFrom = None, v_zone = Some (groupTimezone (db\<lparr>draws := draws db + 1\<rparr>)),
      v_tzdb = Some tzdb, v_supersededBy = None\<rparr>"
  obtain u db1 where ins: "insert_version ?v (db\<lparr>draws := draws db + 1\<rparr>) = Inr (u, db1)"
    and audit: "recordAudit ''schedule.version.created'' r db1 = Inr ((), db')" and r: "r = uuid (draws db)"
    using assms unfolding createDraftVersion_def by (auto simp: seq_Inr randomUUID_def)
  have "new_version uuid db ?v db1" by (rule insert_version_new[OF ins]) simp_all
  then show ?thesis using new_version_edits recordAudit_edits[OF audit] r by fastforce
qed

lemma clone_shift_edits: "clone_shift uuid i sh db = Inr (r, db') \<Longrightarrow> edits uuid i db db'"
  by (auto simp: clone_shift_def seq_Inr randomUUID_def frame_defs intro!: growsI[of _ _ _ "[draws db]"])

lemma clone_snapshot_edits: "clone_snapshot uuid i shiftIds sn db = Inr (r, db') \<Longrightarrow> edits uuid i db db'"
  by (auto simp: clone_snapshot_def seq_Inr randomUUID_def insert_snapshot_def frame_defs
      intro!: growsI[of _ _ _ "[draws db]"])

lemma clone_credit_edits:
  assumes "clone_credit uuid i f cr db = Inr (r, db')"
  shows "edits uuid i db db'"
proof (cases "f (cr_identity cr)")
  case None
  then show ?thesis using assms by (auto simp: clone_credit_def frame_defs intro!: grows_refl)
next
  case (Some x)
  then show ?thesis using assms
    by (auto simp: clone_credit_def seq_Inr randomUUID_def frame_defs intro!: growsI[of _ _ _ "[draws db]"])
qed

lemma cloneCredits_edits: "keeps (edits uuid i db) (cloneCredits uuid s i)"
  unfolding cloneCredits_def Let_def
  by (intro keeping keeps_edits clone_credit_edits) auto

lemma edits_self: "edits uuid i db db"
  by (rule edits_refl) simp_all

lemma cloneVersion_new:
  assumes "cloneVersion uuid permit s db = Inr (r, db')"
  shows "\<exists>v. new_version uuid db v db' \<and> v_id v = r"
proof -
  obtain v u db1 where v: "v_id v = uuid (draws db)" "v_state v = VDraft" "v_lock v = Unlocked" "v_number v = None"
      "\<not> v_current v" "v_supersededBy v = None" and r: "r = uuid (draws db)"
    and ins: "insert_version v (db\<lparr>draws := draws db + 1\<rparr>) = Inr (u, db1)"
    and rest: "seq (query (\<lambda>db. filter (\<lambda>x. sh_version x = s) (shift_rows db))) (\<lambda>sourceShifts.
     seq (for_each (clone_shift uuid r) sourceShifts) (\<lambda>shiftIds.
     seq (query (\<lambda>db. filter (\<lambda>x. sn_version x = s) (snapshot_rows db))) (\<lambda>sourceSnapshots.
     seq (for_each (clone_snapshot uuid r shiftIds) sourceSnapshots) (\<lambda>_.
     seq (cloneCredits uuid s r) (\<lambda>_.
     seq (recordAudit ''schedule.version.created'' r) (\<lambda>_. ret r)))))) db1 = Inr (r, db')"
  proof -
    have "permit (action_key VersionEdit)" using assms unfolding cloneVersion_def by (auto simp: seq_Inr)
    obtain source where source: "find_version s db = Some source"
      using assms unfolding cloneVersion_def by (auto simp: seq_Inr)
    let ?db1 = "db\<lparr>draws := draws db + 1\<rparr>"
    let ?v = "\<lparr>v_id = uuid (draws db), v_period = v_period source, v_number = None, v_state = VDraft, v_lock = Unlocked,
        v_current = False, v_clonedFrom = Some s, v_zone = map_option fst (readTimezoneBasis s ?db1),
        v_tzdb = map_option snd (readTimezoneBasis s ?db1), v_supersededBy = None\<rparr>"
    have "\<exists>u db2. insert_version ?v ?db1 = Inr (u, db2) \<and> uuid (draws db) = r \<and> seq (query (\<lambda>db. filter (\<lambda>x. sh_version x = s) (shift_rows db))) (\<lambda>sourceShifts.
     seq (for_each (clone_shift uuid r) sourceShifts) (\<lambda>shiftIds.
     seq (query (\<lambda>db. filter (\<lambda>x. sn_version x = s) (snapshot_rows db))) (\<lambda>sourceSnapshots.
     seq (for_each (clone_snapshot uuid r shiftIds) sourceSnapshots) (\<lambda>_.
     seq (cloneCredits uuid s r) (\<lambda>_.
     seq (recordAudit ''schedule.version.created'' r) (\<lambda>_. ret r)))))) db2 = Inr (r, db')"
      using assms source unfolding cloneVersion_def by (auto simp: seq_Inr randomUUID_def)
    then show thesis by (elim exE conjE) (rule that[of ?v], auto)
  qed
  have "new_version uuid db v db1" using ins v by (rule insert_version_new)
  moreover have "keeps (edits uuid r db1)
    (seq (query (\<lambda>db. filter (\<lambda>x. sh_version x = s) (shift_rows db))) (\<lambda>sourceShifts.
     seq (for_each (clone_shift uuid r) sourceShifts) (\<lambda>shiftIds.
     seq (query (\<lambda>db. filter (\<lambda>x. sn_version x = s) (snapshot_rows db))) (\<lambda>sourceSnapshots.
     seq (for_each (clone_snapshot uuid r shiftIds) sourceSnapshots) (\<lambda>_.
     seq (cloneCredits uuid s r) (\<lambda>_.
     seq (recordAudit ''schedule.version.created'' r) (\<lambda>_. ret r)))))))"
    by (intro keeping cloneCredits_edits) (rule keeps_edits, (erule clone_shift_edits clone_snapshot_edits recordAudit_edits))+
  then have "edits uuid r db1 db'" using rest edits_self by (blast dest: keepsD)
  ultimately show ?thesis using new_version_edits v(1) r by metis
qed

end
