(* ===== verification/PublicationInvariant.thy ===== *)
theory PublicationInvariant
  imports ScheduleFrames StepSystem
begin

text \<open>
  The state machine of a group's schedule: every service of \<open>service.ts\<close> and \<open>publication.ts\<close> is a step, in any
  order and with any arguments, and so is a change of the memberships or of the group's time zone by others.
  The invariant of the reachable states says what publication promises: the numbers of a period run from one
  without a gap, the last one is the current version, the others are superseded, and the table of current
  assignments is the active content of the current versions, nobody booked twice.
\<close>

section \<open>Steps\<close>

inductive schedule_step :: "(nat \<Rightarrow> string) \<Rightarrow> ScheduleDb \<Rightarrow> ScheduleDb \<Rightarrow> bool" for uuid where
  create_period: "createPeriod uuid permit n s e db = Inr (r, db') \<Longrightarrow> schedule_step uuid db db'"
| set_requirement: "setRequirement uuid permit p d t c db = Inr (r, db') \<Longrightarrow> schedule_step uuid db db'"
| replace_requirements: "replaceRequirements uuid permit p es k db = Inr (ro, db') \<Longrightarrow> schedule_step uuid db db'"
| create_draft: "createDraftVersion uuid permit tzdb p db = Inr (r, db') \<Longrightarrow> schedule_step uuid db db'"
| clone: "cloneVersion uuid permit i db = Inr (r, db') \<Longrightarrow> schedule_step uuid db db'"
| transition: "transitionVersion permit i st db = Inr (u, db') \<Longrightarrow> schedule_step uuid db db'"
| lock: "setLockState permit i l db = Inr (u, db') \<Longrightarrow> schedule_step uuid db db'"
| add: "addManualAssignment uuid permit ai db = Inr (aa, db') \<Longrightarrow> schedule_step uuid db db'"
| remove: "removeAssignment permit i x reason db = Inr (u, db') \<Longrightarrow> schedule_step uuid db db'"
| reassign: "reassignAssignment permit i x m reason db = Inr (u, db') \<Longrightarrow> schedule_step uuid db db'"
| pin: "setPin permit i x b db = Inr (u, db') \<Longrightarrow> schedule_step uuid db db'"
| move_credit: "moveCredit uuid permit acting mi db = Inr (r, db') \<Longrightarrow> schedule_step uuid db db'"
| void_credit: "voidCredit permit c db = Inr (u, db') \<Longrightarrow> schedule_step uuid db db'"
| record_conflict: "recordConflict uuid permit i severity ex db = Inr (r, db') \<Longrightarrow> schedule_step uuid db db'"
| publish: "publishVersion h tables permit pin db = Inr (res, db') \<Longrightarrow> schedule_step uuid db db'"
| revert: "publishRevert h tables permit pin target db = Inr (res, db') \<Longrightarrow> schedule_step uuid db db'"
| period_status: "transitionPeriodStatus permit p pst db = Inr (pp, db') \<Longrightarrow> schedule_step uuid db db'"
| reconcile: "reconcileStalePublishing db = Inr (is, db') \<Longrightarrow> schedule_step uuid db db'"
| others: "schedule_step uuid db (db\<lparr>membership_rows := ms, group_zone := z\<rparr>)"

definition no_schedule :: "ScheduleDb \<Rightarrow> bool" where
  "no_schedule db \<longleftrightarrow> period_rows db = [] \<and> version_rows db = [] \<and> shift_rows db = [] \<and> snapshot_rows db = [] \<and>
     credit_rows db = [] \<and> conflict_rows db = [] \<and> reality_rows db = [] \<and> publication_rows db = [] \<and>
     supersession_rows db = []"

abbreviation schedule_reachable :: "(nat \<Rightarrow> string) \<Rightarrow> ScheduleDb \<Rightarrow> bool" where
  "schedule_reachable uuid \<equiv> reachable no_schedule (schedule_step uuid)"

abbreviation schedule_steps :: "(nat \<Rightarrow> string) \<Rightarrow> ScheduleDb \<Rightarrow> ScheduleDb \<Rightarrow> bool" where
  "schedule_steps uuid \<equiv> steps (schedule_step uuid)"

section \<open>The invariant\<close>

definition frozen :: "VersionRow \<Rightarrow> bool" where
  "frozen v \<longleftrightarrow> v_state v \<in> {VPublished, VSuperseded}"

definition row_ok :: "VersionRow \<Rightarrow> bool" where
  "row_ok v \<longleftrightarrow> v_state v \<noteq> VPublishing \<and> (v_number v \<noteq> None \<longleftrightarrow> frozen v) \<and> (v_current v \<longleftrightarrow> v_state v = VPublished) \<and>
     (v_supersededBy v \<noteq> None \<longleftrightarrow> v_state v = VSuperseded)"

text \<open>The version numbers given out in a period.\<close>
definition numbers :: "string \<Rightarrow> VersionRow list \<Rightarrow> int list" where
  "numbers p vs = List.map_filter v_number (filter (\<lambda>v. v_period v = p) vs)"

definition chain_ok :: "VersionRow list \<Rightarrow> string \<Rightarrow> bool" where
  "chain_ok vs p \<longleftrightarrow> distinct (numbers p vs) \<and> set (numbers p vs) = {1..int (length (numbers p vs))} \<and>
     (\<forall>v \<in> set vs. v_period v = p \<longrightarrow> (v_current v \<longleftrightarrow> v_number v = Some (int (length (numbers p vs)))))"

definition reality_row :: "VersionRow \<Rightarrow> SnapshotRow \<Rightarrow> RealityRow" where
  "reality_row v s =
     \<lparr>ra_member = sn_member s, ra_period = v_period v, ra_starts = sn_starts s, ra_ends = sn_ends s,
      ra_version = v_id v, ra_snapshot = sn_id s, ra_identity = sn_identity s\<rparr>"

definition active_of :: "string \<Rightarrow> ScheduleDb \<Rightarrow> SnapshotRow list" where
  "active_of i db = filter (\<lambda>s. sn_version s = i \<and> sn_status s = SnapActive) (snapshot_rows db)"

definition reality_ok :: "ScheduleDb \<Rightarrow> bool" where
  "reality_ok db \<longleftrightarrow> (\<forall>r \<in> set (reality_rows db). ra_version r \<in> set (map v_id (version_rows db))) \<and>
     (\<forall>v \<in> set (version_rows db). filter (\<lambda>r. ra_version r = v_id v) (reality_rows db) =
        (if v_current v then map (reality_row v) (active_of (v_id v) db) else []))"

definition nobody_twice :: "RealityRow list \<Rightarrow> bool" where
  "nobody_twice rs \<longleftrightarrow> sorted_wrt (\<lambda>a b. ra_member a = ra_member b \<longrightarrow>
     \<not> overlaps (ra_starts a) (ra_ends a) (ra_starts b) (ra_ends b)) rs"

definition records_ok :: "ScheduleDb \<Rightarrow> bool" where
  "records_ok db \<longleftrightarrow> distinct (map (\<lambda>r. (pb_period r, pb_key r)) (publication_rows db)) \<and>
     (\<forall>r \<in> set (publication_rows db). \<exists>v \<in> set (version_rows db).
        v_id v = pb_version r \<and> v_period v = pb_period r \<and> v_number v = Some (pb_number r))"

definition published_ok :: "ScheduleDb \<Rightarrow> bool" where
  "published_ok db \<longleftrightarrow> (\<forall>v \<in> set (version_rows db). row_ok v) \<and> (\<forall>p. chain_ok (version_rows db) p) \<and>
     reality_ok db \<and> nobody_twice (reality_rows db) \<and> records_ok db"

definition schedule_inv :: "(nat \<Rightarrow> string) \<Rightarrow> ScheduleDb \<Rightarrow> bool" where
  "schedule_inv uuid db \<longleftrightarrow> ids_ok uuid db \<and> published_ok db"

lemma no_schedule_inv: "no_schedule db \<Longrightarrow> schedule_inv uuid db"
  by (simp add: no_schedule_def schedule_inv_def ids_ok_def all_ids_def published_ok_def chain_ok_def
      numbers_def reality_ok_def nobody_twice_def records_ok_def List.map_filter_simps)

section \<open>Authoring keeps it\<close>

lemma find_version_mem:
  assumes "find_version i db = Some v"
  shows "v \<in> set (version_rows db)" "v_id v = i"
  using assms by (auto simp: find_version_def find_Some_iff in_set_conv_nth)

lemma find_version_iff:
  assumes "ids_ok uuid db"
  shows "find_version i db = Some v \<longleftrightarrow> v \<in> set (version_rows db) \<and> v_id v = i"
proof
  assume "v \<in> set (version_rows db) \<and> v_id v = i"
  moreover from this obtain w where w: "find_version i db = Some w"
    by (cases "find_version i db") (auto simp: find_version_def find_None_iff)
  ultimately show "find_version i db = Some v"
    using find_version_mem[OF w] find_unique_id[OF ids_ok_distinct(1)[OF assms]] by auto
qed (auto dest: find_version_mem)

lemma active_of_content: "content i db' = content i db \<Longrightarrow> active_of i db' = active_of i db"
  by (simp add: content_def active_of_def flip: filter_filter)

lemma reality_ok_cong:
  assumes "version_rows db' = version_rows db" "reality_rows db' = reality_rows db"
    and "\<And>v. v \<in> set (version_rows db) \<Longrightarrow> v_current v \<Longrightarrow> active_of (v_id v) db' = active_of (v_id v) db"
  shows "reality_ok db' \<longleftrightarrow> reality_ok db"
  unfolding reality_ok_def assms(1,2)
  by (intro conj_cong refl ball_cong) (simp add: assms(3) split del: if_split cong: if_cong)

lemma published_ok_cong:
  assumes "published_part db' = published_part db"
    and "\<And>v. v \<in> set (version_rows db) \<Longrightarrow> v_current v \<Longrightarrow> active_of (v_id v) db' = active_of (v_id v) db"
  shows "published_ok db' \<longleftrightarrow> published_ok db"
proof -
  have eq: "version_rows db' = version_rows db" "reality_rows db' = reality_rows db"
      "publication_rows db' = publication_rows db"
    using assms(1) by (simp_all add: published_part_def)
  show ?thesis
    using reality_ok_cong[OF eq(1,2) assms(2)] by (simp add: published_ok_def records_ok_def eq)
qed

lemma draft_not_current:
  assumes "ids_ok uuid db" "published_ok db" "draft_in i db" "v \<in> set (version_rows db)" "frozen v"
  shows "v_id v \<noteq> i"
proof
  assume "v_id v = i"
  then have "find_version i db = Some v" using assms(1,4) by (simp add: find_version_iff)
  then show False using assms(3,5) by (simp add: draft_in_def frozen_def)
qed

lemma current_frozen: "published_ok db \<Longrightarrow> v \<in> set (version_rows db) \<Longrightarrow> v_current v \<Longrightarrow> frozen v"
  by (auto simp: published_ok_def row_ok_def frozen_def)

lemma edits_inv:
  assumes "inj uuid" "schedule_inv uuid db" "edits uuid i db db'" "draft_in i db"
  shows "schedule_inv uuid db'"
proof -
  have inv: "ids_ok uuid db" "published_ok db" using assms(2) by (simp_all add: schedule_inv_def)
  have "active_of (v_id v) db' = active_of (v_id v) db" if "v \<in> set (version_rows db)" "v_current v" for v
    using draft_not_current[OF inv assms(4) that(1)] current_frozen[OF inv(2) that] assms(3)
    by (auto simp: edits_def intro: active_of_content)
  with assms(3) have "published_ok db' \<longleftrightarrow> published_ok db" by (intro published_ok_cong) (simp_all add: edits_def)
  moreover have "ids_ok uuid db'" using ids_ok_grows[OF assms(1) inv(1)] assms(3) by (simp add: edits_def)
  ultimately show ?thesis using inv by (simp add: schedule_inv_def)
qed

lemma quiet_inv:
  assumes "inj uuid" "schedule_inv uuid db" "quiet uuid db db'"
  shows "schedule_inv uuid db'"
proof -
  have "published_ok db' \<longleftrightarrow> published_ok db"
    using assms(3) by (intro published_ok_cong active_of_content) (simp_all add: quiet_def)
  moreover have "ids_ok uuid db'"
    using assms(2) quiet_edits[OF assms(3)] by (auto simp: edits_def schedule_inv_def intro: ids_ok_grows[OF assms(1)])
  ultimately show ?thesis using assms(2) by (simp add: schedule_inv_def)
qed

lemma numbers_append: "numbers p (vs @ ws) = numbers p vs @ numbers p ws"
  by (simp add: numbers_def List.map_filter_def)

lemma numbers_single: "numbers p [v] = (if v_period v = p then (case v_number v of None \<Rightarrow> [] | Some n \<Rightarrow> [n]) else [])"
  by (simp add: numbers_def List.map_filter_simps split: option.split)

lemma numbers_map_same:
  "(\<And>v. v \<in> set vs \<Longrightarrow> v_period (f v) = v_period v \<and> v_number (f v) = v_number v) \<Longrightarrow>
   numbers p (map f vs) = numbers p vs"
  by (induction vs) (auto simp: numbers_def List.map_filter_simps split: option.splits)

lemma numbers_mem:
  "k \<in> set (numbers p vs) \<longleftrightarrow> (\<exists>v \<in> set vs. v_period v = p \<and> v_number v = Some k)"
  by (force simp: numbers_def List.map_filter_def)

lemma distinct_map_filter_eq:
  assumes "distinct (List.map_filter f xs)" "x \<in> set xs" "y \<in> set xs" "f x = Some k" "f y = Some k"
  shows "x = y"
  using assms
proof (induction xs)
  case (Cons z zs)
  have mem: "k \<in> set (List.map_filter f zs)" if "w \<in> set zs" "f w = Some k" for w
    using that by (force simp: List.map_filter_def)
  show ?case
    using Cons mem by (auto simp: List.map_filter_simps split: option.splits)
qed simp

lemma new_version_inv:
  assumes "inj uuid" "schedule_inv uuid db" "new_version uuid db v db'"
  shows "schedule_inv uuid db'"
proof -
  have inv: "ids_ok uuid db" "published_ok db" using assms(2) by (simp_all add: schedule_inv_def)
  have n: "version_rows db' = version_rows db @ [v]" "reality_rows db' = reality_rows db"
      "publication_rows db' = publication_rows db" "grows uuid db db'"
      "\<And>j. j \<noteq> v_id v \<Longrightarrow> content j db' = content j db"
    and v: "v_state v = VDraft" "v_lock v = Unlocked" "v_number v = None" "\<not> v_current v" "v_supersededBy v = None"
    using assms(3) by (simp_all add: new_version_def)
  have ids: "ids_ok uuid db'" using n(4) by (rule ids_ok_grows[OF assms(1) inv(1)])
  have fresh: "v_id v \<notin> set (map v_id (version_rows db))"
    using ids_ok_distinct(1)[OF ids] by (simp add: n(1))
  have rows: "numbers p (version_rows db') = numbers p (version_rows db)" for p
    by (simp add: n(1) numbers_append numbers_single v)
  have "\<forall>w \<in> set (version_rows db'). row_ok w"
    using inv(2) v by (auto simp: published_ok_def n(1) row_ok_def frozen_def)
  moreover have "chain_ok (version_rows db') p" for p
    using inv(2) v by (auto simp: published_ok_def chain_ok_def rows) (auto simp: n(1))
  moreover have "reality_ok db'"
  proof -
    have "filter (\<lambda>r. ra_version r = v_id v) (reality_rows db) = []"
      using inv(2) fresh unfolding published_ok_def reality_ok_def filter_empty_conv by metis
    moreover have "active_of (v_id w) db' = active_of (v_id w) db" if "w \<in> set (version_rows db)" for w
      using that fresh by (intro active_of_content n(5)) (metis image_eqI set_map)
    ultimately show ?thesis using inv(2) v by (auto simp: published_ok_def reality_ok_def n(1,2))
  qed
  ultimately have "published_ok db'"
    using inv(2) by (auto simp: published_ok_def records_ok_def n(1-3))
  then show ?thesis using ids by (simp add: schedule_inv_def)
qed

text \<open>Records stay right as long as numbered versions keep their number.\<close>
lemma records_map:
  assumes "\<exists>v \<in> set vs. v_id v = i \<and> v_period v = p \<and> v_number v = Some n"
    and "\<And>v. v \<in> set vs \<Longrightarrow> v_number v \<noteq> None \<Longrightarrow>
      v_id (g v) = v_id v \<and> v_period (g v) = v_period v \<and> v_number (g v) = v_number v"
  shows "\<exists>v \<in> set (map g vs). v_id v = i \<and> v_period v = p \<and> v_number v = Some n"
proof -
  obtain v where "v \<in> set vs" "v_id v = i" "v_period v = p" "v_number v = Some n" using assms(1) by blast
  then show ?thesis using assms(2)[of v] by (intro bexI[of _ "g v"]) simp_all
qed

text \<open>A transition or a lock of a version that is not frozen.\<close>
lemma update_version_inv:
  assumes "schedule_inv uuid db" "find_version i db = Some v" "\<not> frozen v"
    and f: "\<And>w. v_id (f w) = v_id w \<and> v_period (f w) = v_period w \<and> v_number (f w) = v_number w \<and>
        v_current (f w) = v_current w \<and> v_supersededBy (f w) = v_supersededBy w"
    and st: "v_state (f v) \<notin> {VPublishing, VPublished, VSuperseded}"
  shows "schedule_inv uuid (update_version i f db)"
proof -
  have inv: "ids_ok uuid db" "published_ok db" using assms(1) by (simp_all add: schedule_inv_def)
  let ?g = "\<lambda>w. if v_id w = i then f w else w"
  let ?db = "update_version i f db"
  have mem: "v \<in> set (version_rows db)" "v_id v = i" using find_version_mem[OF assms(2)] by simp_all
  have only: "w = v" if "w \<in> set (version_rows db)" "v_id w = i" for w
    using find_unique_id[OF ids_ok_distinct(1)[OF inv(1)] that(1) mem(1)] that(2) mem(2) by simp
  have rows: "version_rows ?db = map ?g (version_rows db)" and rest: "reality_rows ?db = reality_rows db"
      "publication_rows ?db = publication_rows db" "snapshot_rows ?db = snapshot_rows db"
    by (simp_all add: update_version_def)
  have g: "v_id (?g w) = v_id w" "v_period (?g w) = v_period w" "v_number (?g w) = v_number w"
      "v_current (?g w) = v_current w" for w
    using f by simp_all
  have ids: "map v_id (version_rows ?db) = map v_id (version_rows db)" by (simp add: rows g)
  have "ids_ok uuid ?db" using inv(1) unfolding ids_ok_def all_ids_def ids by (simp add: update_version_def)
  moreover have "row_ok (?g w)" if "w \<in> set (version_rows db)" for w
    using inv(2) that only[OF that] f[of w] st assms(3)
    by (auto simp: published_ok_def row_ok_def frozen_def)
  then have "\<forall>w \<in> set (version_rows ?db). row_ok w" unfolding rows set_map ball_simps by blast
  moreover have "numbers p (version_rows ?db) = numbers p (version_rows db)" for p
    unfolding rows by (rule numbers_map_same) (simp add: g)
  then have "chain_ok (version_rows ?db) p" for p
    using inv(2) by (simp add: published_ok_def chain_ok_def) (auto simp: rows f)
  moreover have "reality_ok ?db"
  proof -
    have "reality_row (?g w) = reality_row w" for w by (auto simp: reality_row_def f)
    then have "\<forall>w \<in> set (version_rows db). filter (\<lambda>r. ra_version r = v_id (?g w)) (reality_rows db) =
        (if v_current (?g w) then map (reality_row (?g w)) (active_of (v_id (?g w)) ?db) else [])"
      using inv(2) unfolding published_ok_def reality_ok_def g by (simp add: active_of_def rest)
    then show ?thesis using inv(2) unfolding reality_ok_def rest rows
      by (auto simp: published_ok_def reality_ok_def f)
  qed
  moreover have "records_ok ?db"
    using inv(2) unfolding records_ok_def rest rows published_ok_def by (auto intro!: records_map simp: f simp del: set_map)
  ultimately show ?thesis using inv(2) by (simp add: schedule_inv_def published_ok_def rest rows)
qed

lemma reconcile_idle:
  assumes "published_ok db"
  shows "reconcileStalePublishing db = Inr ([], db)"
proof -
  have "stale_publishing db = []"
    using assms by (auto simp: stale_publishing_def published_ok_def row_ok_def filter_empty_conv)
  then show ?thesis by (simp add: reconcileStalePublishing_def seq_def query_def ret_def)
qed

section \<open>Publication keeps it\<close>

definition current_id :: "string \<Rightarrow> VersionRow list \<Rightarrow> string option" where
  "current_id p vs = map_option v_id (find (\<lambda>v. v_period v = p \<and> v_current v) vs)"

text \<open>What publication does to a version row.\<close>
definition publish_row :: "string \<Rightarrow> int \<Rightarrow> string option \<Rightarrow> VersionRow \<Rightarrow> VersionRow" where
  "publish_row i n prior v =
     (if v_id v = i then v\<lparr>v_state := VPublished, v_current := True, v_number := Some n\<rparr>
      else if prior = Some (v_id v) then v\<lparr>v_state := VSuperseded, v_current := False, v_supersededBy := Some i\<rparr>
      else v)"

lemma publish_row_simps [simp]:
  "v_id (publish_row i n prior v) = v_id v" "v_period (publish_row i n prior v) = v_period v"
  "v_lock (publish_row i n prior v) = v_lock v"
  by (simp_all add: publish_row_def)

lemma current_id_map: "(\<And>v. v_id (f v) = v_id v \<and> v_period (f v) = v_period v \<and> v_current (f v) = v_current v) \<Longrightarrow>
  current_id p (map f vs) = current_id p vs"
  unfolding current_id_def by (induction vs) auto

lemma current_id_Some:
  assumes "current_id p vs = Some i"
  obtains v where "v \<in> set vs" "v_id v = i" "v_period v = p" "v_current v"
  using assms by (auto simp: current_id_def find_Some_iff in_set_conv_nth)

lemma current_id_None: "current_id p vs = None \<longleftrightarrow> (\<forall>v \<in> set vs. v_period v = p \<longrightarrow> \<not> v_current v)"
  by (auto simp: current_id_def find_None_iff)

lemma insert_reality_Inr:
  "insert_reality p i s db = Inr (u, db') \<longleftrightarrow>
     (\<forall>r \<in> set (reality_rows db). ra_member r = sn_member s \<longrightarrow>
        \<not> overlaps (ra_starts r) (ra_ends r) (sn_starts s) (sn_ends s)) \<and>
     db' = db\<lparr>reality_rows := reality_rows db @
       [\<lparr>ra_member = sn_member s, ra_period = p, ra_starts = sn_starts s, ra_ends = sn_ends s,
         ra_version = i, ra_snapshot = sn_id s, ra_identity = sn_identity s\<rparr>]\<rparr>"
  by (auto simp: insert_reality_def seq_Inr)

lemma insert_realities:
  assumes "for_each (insert_reality p i) ss db = Inr (us, db')" "nobody_twice (reality_rows db)"
    and "v_id v = i" "v_period v = p"
  shows "db' = db\<lparr>reality_rows := reality_rows db @ map (reality_row v) ss\<rparr> \<and> nobody_twice (reality_rows db')"
  using assms(1,2)
proof (induction ss arbitrary: db us)
  case Nil
  then show ?case by simp
next
  case (Cons s ss)
  obtain u db1 us' where 1: "insert_reality p i s db = Inr (u, db1)"
    and 2: "for_each (insert_reality p i) ss db1 = Inr (us', db')"
    using Cons.prems(1) by (auto simp: seq_Inr)
  have row: "db1 = db\<lparr>reality_rows := reality_rows db @ [reality_row v s]\<rparr>"
    using 1 assms(3,4) by (simp add: insert_reality_Inr reality_row_def)
  moreover have "nobody_twice (reality_rows db1)"
    using 1 Cons.prems(2) by (auto simp: insert_reality_Inr nobody_twice_def sorted_wrt_append)
  ultimately have "db' = db1\<lparr>reality_rows := reality_rows db1 @ map (reality_row v) ss\<rparr>"
      "nobody_twice (reality_rows db')"
    using Cons.IH[OF 2] by blast+
  then show ?case by (simp add: row)
qed

lemma nobody_twice_filter: "nobody_twice rs \<Longrightarrow> nobody_twice (filter P rs)"
  by (simp add: nobody_twice_def sorted_wrt_filter)

definition publication_row :: "host \<Rightarrow> PublishInput \<Rightarrow> int \<Rightarrow> string option \<Rightarrow> string list \<Rightarrow> PublicationRow" where
  "publication_row h input n prior affected =
     \<lparr>pb_period = pi_period input, pb_version = pi_version input, pb_key = pi_key input,
      pb_operation = operation_type input, pb_digest = Some (semantic_digest h input), pb_number = n,
      pb_prior = prior, pb_affected = affected\<rparr>"

text \<open>The tables after a publication that is no replay.\<close>
definition publish_effect ::
  "VersionRow \<Rightarrow> int \<Rightarrow> string option \<Rightarrow> PublicationRow \<Rightarrow> ScheduleDb \<Rightarrow> ScheduleDb \<Rightarrow> bool" where
  "publish_effect v n prior record db db' \<longleftrightarrow>
     version_rows db' = map (publish_row (v_id v) n prior) (version_rows db) \<and>
     reality_rows db' = filter (\<lambda>r. Some (ra_version r) \<noteq> prior) (reality_rows db) @
       map (reality_row v) (active_of (v_id v) db) \<and>
     publication_rows db' = publication_rows db @ [record] \<and>
     snapshot_rows db' = snapshot_rows db \<and> shift_rows db' = shift_rows db \<and> credit_rows db' = credit_rows db \<and>
     conflict_rows db' = conflict_rows db \<and> period_rows db' = period_rows db \<and> draws db' = draws db"

definition no_open_hard_breach :: "string \<Rightarrow> ScheduleDb \<Rightarrow> bool" where
  "no_open_hard_breach i db \<longleftrightarrow>
     (\<forall>c \<in> set (conflict_rows db). cf_version c = i \<and> cf_severity c = HardBreach \<longrightarrow> cf_state c \<noteq> ConflictOpen)"

lemma assertNoOpenHardBreach_Inr:
  "assertNoOpenHardBreach i db = Inr (u, db') \<longleftrightarrow> no_open_hard_breach i db \<and> db' = db"
  by (auto simp: assertNoOpenHardBreach_def seq_Inr no_open_hard_breach_def find_None_iff)

text \<open>The zone the version was written in, if one is recorded, is the group's.\<close>
definition basis_fresh :: "string \<Rightarrow> ScheduleDb \<Rightarrow> bool" where
  "basis_fresh i db \<longleftrightarrow> (\<forall>v z. find_version i db = Some v \<longrightarrow> v_zone v = Some z \<longrightarrow> z = groupTimezone db)"

lemma assertTimezoneBasisFresh_Inr:
  assumes "assertTimezoneBasisFresh tzdb i db = Inr (st, db')"
  shows "db' = db \<and> basis_fresh i db"
proof -
  have "db' = db" using assms
    by (auto simp: assertTimezoneBasisFresh_def seq_Inr split: TimezoneBasisState.splits)
  moreover have "z = groupTimezone db" if "find_version i db = Some v" "v_zone v = Some z" for v z
    using assms that by (auto simp: assertTimezoneBasisFresh_def seq_Inr readTimezoneBasis_def split: if_splits)
  ultimately show ?thesis by (auto simp: basis_fresh_def)
qed

lemma period_open_guard_Inr: "period_open_guard p db = Inr (u, db') \<Longrightarrow> db' = db"
  by (simp add: period_open_guard_def)

lemma revalidated_version_rows:
  "revalidated dp tables i (update_version j f db) = revalidated dp tables i db"
  by (simp add: revalidated_def update_version_def loadCheckedVersion_def checked_assignments_def
      snapshots_with_shift_def Let_def)

lemma check_prerequisites_Inr:
  assumes "check_prerequisites h tables input db = Inr (v, db')"
  shows "find_version (pi_version input) db = Some v \<and> v_period v = pi_period input \<and>
    v_state v = expected_state input \<and> \<not> frozen v \<and> basis_fresh (pi_version input) db \<and>
    no_open_hard_breach (pi_version input) db \<and>
    revalidated (host_dateParse h) tables (pi_version input) db \<and>
    db' = update_version (pi_version input) (\<lambda>v. v\<lparr>v_state := VPublishing\<rparr>) db"
proof -
  let ?db = "update_version (pi_version input) (\<lambda>v. v\<lparr>v_state := VPublishing\<rparr>) db"
  have v: "find_version (pi_version input) db = Some v" "v_period v = pi_period input"
      "v_state v = expected_state input" and tz: "basis_fresh (pi_version input) db"
    and pub: "set_publishing v db = Inr ((), ?db)" and br: "no_open_hard_breach (pi_version input) ?db"
    and hr: "assertHardRulesRevalidated (host_dateParse h) tables (pi_version input) ?db = Inr ((), db')"
    using assms find_version_mem(2)[of "pi_version input" db v] unfolding check_prerequisites_def
    by (auto simp: seq_Inr assertNoOpenHardBreach_Inr set_publishing_def dest!: assertTimezoneBasisFresh_Inr)
  have "\<not> frozen v" using pub by (auto simp: set_publishing_def seq_Inr frozen_def)
  moreover have "no_open_hard_breach (pi_version input) db"
    using br by (simp add: no_open_hard_breach_def update_version_def)
  ultimately show ?thesis using v tz hr by (simp add: assertHardRulesRevalidated_Inr revalidated_version_rows)
qed

lemma find_version_current:
  assumes "ids_ok uuid db" "published_ok db" "find_version i db = Some v" "\<not> frozen v"
  shows "current_id p (version_rows db) \<noteq> Some i"
proof
  assume "current_id p (version_rows db) = Some i"
  then obtain w where w: "w \<in> set (version_rows db)" "v_id w = i" "v_current w" by (rule current_id_Some)
  then have "find_version i db = Some w" using assms(1) by (simp add: find_version_iff)
  then show False using assms(2-4) w current_frozen by fastforce
qed

lemma publish_rows:
  assumes "prior \<noteq> Some i"
  shows "version_rows
     ((case prior of None \<Rightarrow> id | Some p \<Rightarrow> update_version p (\<lambda>v. v\<lparr>v_state := VSuperseded, v_supersededBy := Some i\<rparr>))
     (update_version i (\<lambda>v. v\<lparr>v_state := VPublished, v_current := True, v_number := Some n\<rparr>)
     ((case prior of None \<Rightarrow> id | Some p \<Rightarrow> update_version p (\<lambda>v. v\<lparr>v_current := False\<rparr>))
     (update_version i (\<lambda>v. v\<lparr>v_state := VPublishing\<rparr>) db)))) = map (publish_row i n prior) (version_rows db)"
  using assms by (auto simp: update_version_def publish_row_def split: option.split)

lemma next_number_rows: "next_number p db = foldl max 0 (numbers p (version_rows db)) + 1"
  by (simp add: next_number_def numbers_def)

lemma foldl_max_upto:
  assumes "set xs = {1..int k}"
  shows "foldl max 0 xs = int k"
proof -
  have "foldl max a xs = m" if "m \<in> insert a (set xs)" "\<forall>x \<in> insert a (set xs). x \<le> m" for a m :: int and xs
    using that by (induction xs arbitrary: a) (auto simp: max_def)
  from this[of "int k" 0 xs] show ?thesis using assms by (cases k) auto
qed

lemma next_number_chain:
  "chain_ok (version_rows db) p \<Longrightarrow> next_number p db = int (length (numbers p (version_rows db))) + 1"
  by (auto simp: next_number_rows chain_ok_def intro: foldl_max_upto)

lemma publishVersion_Inr:
  assumes "publishVersion h tables permit input db = Inr (res, db')"
  shows "PUBLICATION_IDEMPOTENCY_KEY_PATTERN (pi_key input) \<and> permit (action_key PublishAction) \<and>
    find_period (pi_period input) db \<noteq> None \<and>
    (case find (\<lambda>p. pb_period p = pi_period input \<and> pb_key p = pi_key input) (publication_rows db) of
       Some r \<Rightarrow> replay_publication h input r db = Inr (res, db')
     | None \<Rightarrow> \<exists>v dbA n prior dbB. check_prerequisites h tables input db = Inr (v, dbA) \<and>
         swap_current input v dbA = Inr ((n, prior), dbB) \<and> announce_publication h input n prior dbB = Inr (res, db'))"
  using assms unfolding publishVersion_def by (auto simp: seq_Inr split: option.splits)

lemma announce_publication_Inr:
  assumes "announce_publication h input n prior db = Inr (res, db')"
  shows "\<not> ps_replay res \<and> ps_version res = pi_version input \<and> ps_number res = n \<and> ps_prior res = prior \<and>
    (\<exists>a b. db' = db\<lparr>schedule_audit := a, schedule_outbox := b, publication_rows := publication_rows db @
      [publication_row h input n prior (vd_affected (ps_difference res))]\<rparr>)"
  using assms unfolding announce_publication_def
  by (auto simp: seq_Inr record_publication_def publication_row_def recordAudit_def publishOutbox_def Let_def
      split: option.splits)

lemma optional_store_Inr:
  "(case x of None \<Rightarrow> ret () | Some p \<Rightarrow> store (g p)) db = Inr (u, db') \<longleftrightarrow>
     db' = (case x of None \<Rightarrow> id | Some p \<Rightarrow> g p) db"
  by (cases x) auto

text \<open>From the state with the version marked \<open>publishing\<close>.\<close>
lemma swap_current_Inr:
  assumes "swap_current input v (update_version (pi_version input) (\<lambda>v. v\<lparr>v_state := VPublishing\<rparr>) db) = Inr ((n, prior), db')"
    and v: "v_id v = pi_version input" "v_period v = pi_period input"
    and prior: "current_id (pi_period input) (version_rows db) \<noteq> Some (pi_version input)"
    and twice: "nobody_twice (reality_rows db)"
  shows "n = next_number (pi_period input) db \<and> prior = current_id (pi_period input) (version_rows db) \<and>
    prior = pi_expectedPrior input \<and> v_lock v = Unlocked \<and> nobody_twice (reality_rows db') \<and>
    version_rows db' = map (publish_row (pi_version input) n prior) (version_rows db) \<and>
    reality_rows db' = filter (\<lambda>r. Some (ra_version r) \<noteq> prior) (reality_rows db) @
       map (reality_row v) (active_of (pi_version input) db) \<and>
    publication_rows db' = publication_rows db \<and> snapshot_rows db' = snapshot_rows db \<and>
    shift_rows db' = shift_rows db \<and> credit_rows db' = credit_rows db \<and>
    conflict_rows db' = conflict_rows db \<and> period_rows db' = period_rows db \<and> draws db' = draws db"
proof -
  let ?i = "pi_version input" and ?p = "pi_period input"
  let ?db1 = "update_version ?i (\<lambda>v. v\<lparr>v_state := VPublishing\<rparr>) db"
  let ?unset = "\<lambda>prior. case prior of None \<Rightarrow> id | Some p \<Rightarrow> update_version p (\<lambda>v. v\<lparr>v_current := False\<rparr>)"
  let ?pub = "update_version ?i (\<lambda>v. v\<lparr>v_state := VPublished, v_current := True, v_number := Some n\<rparr>)"
  let ?super = "\<lambda>prior. case prior of None \<Rightarrow> id
      | Some p \<Rightarrow> update_version p (\<lambda>v. v\<lparr>v_state := VSuperseded, v_supersededBy := Some ?i\<rparr>)"
  have "next_number ?p ?db1 = next_number ?p db"
    unfolding next_number_rows by (simp add: update_version_def) (subst numbers_map_same; simp)
  moreover have cur: "map_option v_id (find (\<lambda>v. v_period v = ?p \<and> v_current v) (version_rows ?db1)) =
      current_id ?p (version_rows db)"
    using current_id_map[of "\<lambda>v. if v_id v = ?i then v\<lparr>v_state := VPublishing\<rparr> else v" ?p "version_rows db"]
    by (simp add: update_version_def current_id_def)
  ultimately obtain db2 db3 us where n: "n = next_number ?p db" and pr: "prior = current_id ?p (version_rows db)"
      "prior = pi_expectedPrior input"
    and sp: "set_published v n (?unset prior ?db1) = Inr ((), db2)"
    and db3: "(case prior of None \<Rightarrow> ret () | Some p \<Rightarrow>
         seq (supersede p ?i) (\<lambda>_. prune_current_assignments p)) db2 = Inr ((), db3)"
    and ins: "for_each (insert_reality ?p ?i) (active_of ?i db3) db3 = Inr (us, db')"
    using assms(1) unfolding swap_current_def active_of_def
    by (auto simp: seq_Inr optional_store_Inr cur simp del: case_map_option)
  have lock: "v_lock v = Unlocked" and db2: "db2 = ?pub (?unset prior ?db1)"
    using sp v(1) by (auto simp: set_published_def seq_Inr dest!: period_open_guard_Inr)
  have rows3: "version_rows db3 = version_rows (?super prior (?pub (?unset prior ?db1)))"
    and real3: "reality_rows db3 = filter (\<lambda>r. Some (ra_version r) \<noteq> prior) (reality_rows db)"
    and rest3: "publication_rows db3 = publication_rows db" "snapshot_rows db3 = snapshot_rows db"
      "shift_rows db3 = shift_rows db" "credit_rows db3 = credit_rows db" "conflict_rows db3 = conflict_rows db"
      "period_rows db3 = period_rows db" "draws db3 = draws db"
    using db3 unfolding db2
    by (auto simp: seq_Inr supersede_def prune_current_assignments_def update_version_def split: option.splits)
  have "version_rows db3 = map (publish_row ?i n prior) (version_rows db)"
    using publish_rows[of prior ?i n db] prior unfolding rows3 pr(1) by simp
  moreover have "nobody_twice (reality_rows db3)" using twice unfolding real3 by (rule nobody_twice_filter)
  from insert_realities[OF ins this v]
  have "db' = db3\<lparr>reality_rows := reality_rows db3 @ map (reality_row v) (active_of ?i db3)\<rparr>"
    "nobody_twice (reality_rows db')" by blast+
  ultimately show ?thesis using n pr lock real3 rest3 by (simp add: active_of_def)
qed

text \<open>What a publication that is no replay has checked and written.\<close>
lemma publishVersion_fresh:
  assumes inv: "ids_ok uuid db" "published_ok db"
    and run: "publishVersion h tables permit input db = Inr (res, db')" "\<not> ps_replay res"
  obtains v where
    "find_version (pi_version input) db = Some v" "v_period v = pi_period input" "v_state v = expected_state input"
    "\<not> frozen v" "v_lock v = Unlocked" "basis_fresh (pi_version input) db" "no_open_hard_breach (pi_version input) db"
    "revalidated (host_dateParse h) tables (pi_version input) db"
    "permit (action_key PublishAction)" "find_period (pi_period input) db \<noteq> None"
    "PUBLICATION_IDEMPOTENCY_KEY_PATTERN (pi_key input)"
    "find (\<lambda>p. pb_period p = pi_period input \<and> pb_key p = pi_key input) (publication_rows db) = None"
    "pi_expectedPrior input = current_id (pi_period input) (version_rows db)"
    "pi_expectedPrior input \<noteq> Some (v_id v)"
    "publish_effect v (next_number (pi_period input) db) (pi_expectedPrior input)
       (publication_row h input (next_number (pi_period input) db) (pi_expectedPrior input) (vd_affected (ps_difference res)))
       db db'"
    "nobody_twice (reality_rows db')"
    "ps_version res = pi_version input" "ps_number res = next_number (pi_period input) db"
    "ps_prior res = pi_expectedPrior input"
proof -
  let ?i = "pi_version input" and ?p = "pi_period input"
  have start: "PUBLICATION_IDEMPOTENCY_KEY_PATTERN (pi_key input)" "permit (action_key PublishAction)"
      "find_period ?p db \<noteq> None"
    and branch: "case find (\<lambda>p. pb_period p = ?p \<and> pb_key p = pi_key input) (publication_rows db) of
       Some r \<Rightarrow> replay_publication h input r db = Inr (res, db')
     | None \<Rightarrow> \<exists>v dbA n prior dbB. check_prerequisites h tables input db = Inr (v, dbA) \<and>
         swap_current input v dbA = Inr ((n, prior), dbB) \<and> announce_publication h input n prior dbB = Inr (res, db')"
    using publishVersion_Inr[OF run(1)] by blast+
  have none: "find (\<lambda>p. pb_period p = ?p \<and> pb_key p = pi_key input) (publication_rows db) = None"
    using branch run(2) by (auto simp: replay_publication_def seq_Inr split: option.splits)
  then obtain v dbA n prior dbB where pre: "check_prerequisites h tables input db = Inr (v, dbA)"
    and swap: "swap_current input v dbA = Inr ((n, prior), dbB)"
    and ann: "announce_publication h input n prior dbB = Inr (res, db')"
    using branch by auto
  note v = check_prerequisites_Inr[OF pre]
  have id: "v_id v = ?i" using v find_version_mem(2) by blast
  have cur: "current_id ?p (version_rows db) \<noteq> Some ?i" using find_version_current[OF inv] v by blast
  have twice: "nobody_twice (reality_rows db)" using inv(2) by (simp add: published_ok_def)
  have "swap_current input v (update_version ?i (\<lambda>v. v\<lparr>v_state := VPublishing\<rparr>) db) = Inr ((n, prior), dbB)"
    using swap v by simp
  from swap_current_Inr[OF this id _ cur twice] v
  have s: "n = next_number ?p db" "prior = current_id ?p (version_rows db)" "prior = pi_expectedPrior input"
      "v_lock v = Unlocked" "nobody_twice (reality_rows dbB)"
      "publish_effect v n prior (publication_row h input n prior (vd_affected (ps_difference res))) db db'"
    using announce_publication_Inr[OF ann] id unfolding publish_effect_def by auto
  show thesis
    using announce_publication_Inr[OF ann] v s cur id start none by (intro that[of v]) auto
qed

lemma publish_numbers:
  assumes "ids_ok uuid db" "find_version i db = Some v" "v_number v = None"
  shows "mset (numbers p (map (publish_row i n prior) (version_rows db))) =
    mset (numbers p (version_rows db)) + (if v_period v = p then {#n#} else {#})"
proof -
  have "v \<in> set (version_rows db)" "v_id v = i" using find_version_mem[OF assms(2)] by simp_all
  then obtain xs ys where split: "version_rows db = xs @ v # ys" by (meson split_list)
  then have other: "w \<in> set xs \<union> set ys \<Longrightarrow> v_id w \<noteq> i" for w
    using ids_ok_distinct(1)[OF assms(1)] \<open>v_id v = i\<close> by simp (metis imageI)
  have "numbers p (map (publish_row i n prior) zs) = numbers p zs" if "set zs \<subseteq> set xs \<union> set ys" for zs
    using that other by (intro numbers_map_same) (auto simp: publish_row_def)
  moreover have "numbers p [publish_row i n prior v] = (if v_period v = p then [n] else [])"
    using \<open>v_id v = i\<close> by (simp add: numbers_single publish_row_def)
  ultimately show ?thesis
    using numbers_append[of p "map (publish_row i n prior) xs" "publish_row i n prior v # map (publish_row i n prior) ys"]
      numbers_append[of p "[publish_row i n prior v]" "map (publish_row i n prior) ys"]
      numbers_append[of p xs "v # ys"] numbers_append[of p "[v]" ys] assms(3)
    by (simp add: split numbers_single)
qed

lemma same_number_same_row:
  assumes "chain_ok vs p" "v \<in> set vs" "w \<in> set vs" "v_period v = p" "v_period w = p"
    and "v_number v = Some k" "v_number w = Some k"
  shows "v = w"
proof -
  have "distinct (List.map_filter v_number (filter (\<lambda>v. v_period v = p) vs))"
    using assms(1) unfolding chain_ok_def numbers_def by blast
  then show ?thesis by (rule distinct_map_filter_eq[where k = k]) (simp_all add: assms(2-))
qed

lemma current_id_chain:
  assumes "chain_ok vs p" "w \<in> set vs" "v_period w = p"
  shows "v_current w \<longleftrightarrow> current_id p vs = Some (v_id w) \<and> v_number w = Some (int (length (numbers p vs)))"
proof
  assume cur: "v_current w"
  then have num: "v_number w = Some (int (length (numbers p vs)))"
    using assms unfolding chain_ok_def by blast
  from cur assms(2,3) have "current_id p vs \<noteq> None" unfolding current_id_None by blast
  then obtain u where u: "u \<in> set vs" "v_period u = p" "v_current u" "current_id p vs = Some (v_id u)"
    by (metis current_id_Some option.exhaust)
  then have "v_number u = Some (int (length (numbers p vs)))" using assms unfolding chain_ok_def by blast
  then have "u = w" using same_number_same_row[OF assms(1) u(1) assms(2) u(2) assms(3)] num by simp
  then show "current_id p vs = Some (v_id w) \<and> v_number w = Some (int (length (numbers p vs)))"
    using u(4) num by simp
next
  assume "current_id p vs = Some (v_id w) \<and> v_number w = Some (int (length (numbers p vs)))"
  then show "v_current w" using assms unfolding chain_ok_def by blast
qed

lemma publish_chain:
  assumes ids: "ids_ok uuid db" and chain: "\<And>q. chain_ok (version_rows db) q" and v: "find_version i db = Some v" "v_number v = None"
    and rows: "\<forall>w \<in> set (version_rows db). row_ok w"
    and prior: "prior = current_id (v_period v) (version_rows db)" "prior \<noteq> Some i"
  shows "chain_ok (map (publish_row i (next_number (v_period v) db) prior) (version_rows db)) q"
proof -
  let ?n = "next_number (v_period v) db" and ?vs = "version_rows db"
  let ?g = "publish_row i ?n prior"
  have mset: "mset (numbers q (map ?g ?vs)) = mset (numbers q ?vs) + (if v_period v = q then {#?n#} else {#})"
    by (rule publish_numbers[OF ids v])
  have vm: "v \<in> set ?vs" "v_id v = i" using find_version_mem[OF v(1)] by simp_all
  have only: "w = v" if "w \<in> set ?vs" "v_id w = i" for w
    using find_unique_id[OF ids_ok_distinct(1)[OF ids] that(1) vm(1)] that(2) vm(2) by simp
  have pm: "w = u" if "w \<in> set ?vs" "u \<in> set ?vs" "v_id w = v_id u" for w u
    using find_unique_id[OF ids_ok_distinct(1)[OF ids] that] .
  have pper: "v_period w = v_period v \<and> v_current w" if w: "w \<in> set ?vs" "prior = Some (v_id w)" for w
  proof -
    obtain u where "u \<in> set ?vs" "v_id u = v_id w" "v_period u = v_period v" "v_current u"
      using w prior(1) current_id_Some by metis
    then show ?thesis using pm[OF w(1)] by metis
  qed
  show ?thesis
  proof (cases "v_period v = q")
    case False
    then have "mset (numbers q (map ?g ?vs)) = mset (numbers q ?vs)" using mset by simp
    note len = mset_eq_length[OF this] and d = mset_eq_imp_distinct_iff[OF this] and st = mset_eq_setD[OF this]
    have "?g w = w" if "w \<in> set ?vs" "v_period w = q" for w
      using False only[OF that(1)] pper[OF that(1)] that(2) by (auto simp: publish_row_def)
    then show ?thesis using chain[of q] unfolding chain_ok_def len d st by auto
  next
    case True
    then have "mset (numbers q (map ?g ?vs)) = mset (?n # numbers q ?vs)" using mset by simp
    note len = mset_eq_length[OF this] and d = mset_eq_imp_distinct_iff[OF this] and st = mset_eq_setD[OF this]
    have n: "?n = int (length (numbers q ?vs)) + 1" using next_number_chain chain True by blast
    have "v_current (?g w) \<longleftrightarrow> v_number (?g w) = Some ?n" if w: "w \<in> set ?vs" "v_period w = q" for w
    proof (cases "v_id w = i")
      case True
      then show ?thesis by (simp add: publish_row_def)
    next
      case False
      have "v_number w \<noteq> Some ?n"
        using w chain[of q] numbers_mem[of ?n q ?vs] unfolding chain_ok_def n by force
      moreover have "\<not> v_current (?g w)"
        using False current_id_chain[OF chain w] prior(1) True by (auto simp: publish_row_def)
      ultimately show ?thesis using False by (auto simp: publish_row_def)
    qed
    then show ?thesis using chain[of q] unfolding chain_ok_def len d st unfolding n by auto
  qed
qed

lemma publish_effect_inv:
  assumes inv: "schedule_inv uuid db" and v: "find_version i db = Some v" "\<not> frozen v"
    and prior: "prior = current_id (v_period v) (version_rows db)" "prior \<noteq> Some i"
    and eff: "publish_effect v (next_number (v_period v) db) prior record db db'"
    and rec: "pb_period record = v_period v" "pb_version record = i" "pb_number record = next_number (v_period v) db"
      "(pb_period record, pb_key record) \<notin> set (map (\<lambda>r. (pb_period r, pb_key r)) (publication_rows db))"
    and twice: "nobody_twice (reality_rows db')"
  shows "schedule_inv uuid db'"
proof -
  let ?n = "next_number (v_period v) db"
  have ids: "ids_ok uuid db" and rows: "\<And>w. w \<in> set (version_rows db) \<Longrightarrow> row_ok w"
    and chain: "\<And>q. chain_ok (version_rows db) q" and real: "reality_ok db" and recs: "records_ok db"
    using inv by (simp_all add: schedule_inv_def published_ok_def)
  have vm: "v \<in> set (version_rows db)" "v_id v = i" using find_version_mem[OF v(1)] by simp_all
  have num: "v_number v = None" using rows[OF vm(1)] v(2) by (simp add: row_ok_def)
  have ncur: "\<not> v_current v" using rows[OF vm(1)] v(2) by (auto simp: row_ok_def frozen_def)
  have only: "w = v" if "w \<in> set (version_rows db)" "v_id w = i" for w
    using find_unique_id[OF ids_ok_distinct(1)[OF ids] that(1) vm(1)] that(2) vm(2) by simp
  have pcur: "v_current w" if w: "w \<in> set (version_rows db)" "prior = Some (v_id w)" for w
    using w prior(1) current_id_Some find_unique_id[OF ids_ok_distinct(1)[OF ids]] by metis
  have e: "version_rows db' = map (publish_row i ?n prior) (version_rows db)"
      "reality_rows db' = filter (\<lambda>r. Some (ra_version r) \<noteq> prior) (reality_rows db) @ map (reality_row v) (active_of i db)"
      "publication_rows db' = publication_rows db @ [record]" "snapshot_rows db' = snapshot_rows db"
      "shift_rows db' = shift_rows db" "credit_rows db' = credit_rows db" "draws db' = draws db"
    using eff vm(2) by (simp_all add: publish_effect_def)
  have "map v_id (version_rows db') = map v_id (version_rows db)" by (simp add: e(1))
  then have "ids_ok uuid db'" using ids unfolding ids_ok_def all_ids_def by (simp add: e(4-))
  moreover have "row_ok (publish_row i ?n prior w)" if w: "w \<in> set (version_rows db)" for w
    using rows[OF w] pcur[OF w] only[OF w] v(2)
    by (auto simp: publish_row_def row_ok_def frozen_def)
  then have "\<forall>w \<in> set (version_rows db'). row_ok w" by (simp add: e(1))
  moreover have "chain_ok (version_rows db') q" for q
    unfolding e(1) using publish_chain[OF ids chain v(1) num _ prior] rows by blast
  moreover have "reality_ok db'"
  proof -
    have old: "filter (\<lambda>r. ra_version r = i) (reality_rows db) = []"
      using real vm ncur by (auto simp: reality_ok_def)
    have "filter (\<lambda>r. ra_version r = v_id w) (reality_rows db') =
        (if v_current (publish_row i ?n prior w)
         then map (reality_row (publish_row i ?n prior w)) (active_of (v_id w) db') else [])"
      if w: "w \<in> set (version_rows db)" for w
    proof -
      have r: "reality_row (publish_row i ?n prior w) = reality_row w" for w by (simp add: fun_eq_iff reality_row_def)
      have a: "active_of j db' = active_of j db" for j by (simp add: active_of_def e(4))
      have mine: "filter (\<lambda>r. ra_version r = v_id w) (map (reality_row v) ss) =
          (if v_id w = i then map (reality_row v) ss else [])" for ss
        using vm(2) by (auto simp: reality_row_def filter_empty_conv)
      have rest: "filter (\<lambda>r. ra_version r = v_id w) (filter (\<lambda>r. Some (ra_version r) \<noteq> prior) (reality_rows db)) =
          (if prior = Some (v_id w) then [] else filter (\<lambda>r. ra_version r = v_id w) (reality_rows db))"
        by (auto simp: filter_filter filter_empty_conv intro!: filter_cong)
      show ?thesis
        using only[OF w] old real w prior(2) unfolding e(2) filter_append mine rest r a
        by (auto simp: publish_row_def reality_ok_def)
    qed
    moreover have "ra_version r \<in> v_id ` set (version_rows db)" if "r \<in> set (reality_rows db')" for r
      using that real vm by (auto simp: e(2) reality_ok_def reality_row_def)
    ultimately show ?thesis unfolding reality_ok_def by (simp add: e(1) image_image)
  qed
  moreover have "records_ok db'"
  proof -
    have "\<exists>v \<in> set (version_rows db'). v_id v = pb_version r \<and> v_period v = pb_period r \<and> v_number v = Some (pb_number r)"
      if "r \<in> set (publication_rows db)" for r
      unfolding e(1) using recs that only num
      by (intro records_map) (auto simp: records_ok_def publish_row_def)
    moreover have "publish_row i ?n prior v \<in> set (version_rows db')" using vm(1) by (simp add: e(1))
    then have "\<exists>w \<in> set (version_rows db'). v_id w = i \<and> v_period w = v_period v \<and> v_number w = Some ?n"
      using vm(2) by (intro bexI[of _ "publish_row i ?n prior v"]) (simp_all add: publish_row_def)
    ultimately show ?thesis using recs rec by (auto simp: records_ok_def e(3))
  qed
  ultimately show ?thesis using twice by (simp add: schedule_inv_def published_ok_def)
qed

lemma replay_publication_Inr:
  "replay_publication h input r db = Inr (res, db') \<longleftrightarrow>
     pb_version r = pi_version input \<and> pb_operation r = operation_type input \<and>
     (pb_digest r = None \<or> pb_digest r = Some (semantic_digest h input)) \<and> db' = db \<and>
     res = \<lparr>ps_replay = True, ps_version = pb_version r, ps_number = pb_number r, ps_prior = pb_prior r,
       ps_difference = \<lparr>vd_changes = [], vd_affected = pb_affected r\<rparr>, ps_outbox = None\<rparr>"
  by (auto simp: replay_publication_def seq_Inr)

lemma publishVersion_replay:
  assumes "publishVersion h tables permit input db = Inr (res, db')" "ps_replay res"
  shows "db' = db"
  using publishVersion_Inr[OF assms(1)] assms(2)
  by (auto simp: replay_publication_Inr dest: announce_publication_Inr split: option.splits)

lemma publishVersion_inv:
  assumes "schedule_inv uuid db" "publishVersion h tables permit input db = Inr (res, db')"
  shows "schedule_inv uuid db'"
proof (cases "ps_replay res")
  case True
  then show ?thesis using publishVersion_replay[OF assms(2)] assms(1) by simp
next
  case False
  have inv: "ids_ok uuid db" "published_ok db" using assms(1) by (simp_all add: schedule_inv_def)
  obtain v where v: "find_version (pi_version input) db = Some v" "v_period v = pi_period input" "\<not> frozen v"
    and none: "find (\<lambda>p. pb_period p = pi_period input \<and> pb_key p = pi_key input) (publication_rows db) = None"
    and prior: "pi_expectedPrior input = current_id (pi_period input) (version_rows db)"
      "pi_expectedPrior input \<noteq> Some (v_id v)"
    and eff: "publish_effect v (next_number (pi_period input) db) (pi_expectedPrior input)
       (publication_row h input (next_number (pi_period input) db) (pi_expectedPrior input) (vd_affected (ps_difference res)))
       db db'"
    and twice: "nobody_twice (reality_rows db')"
    by (rule publishVersion_fresh[OF inv assms(2) False]) (rule that; assumption)
  have id: "v_id v = pi_version input" using v(1) find_version_mem(2) by blast
  show ?thesis
    by (rule publish_effect_inv[OF assms(1) v(1,3) _ _ eff[folded v(2)] _ _ _ _ twice])
      (use v(2) id prior none in \<open>auto simp: publication_row_def find_None_iff\<close>)
qed

lemma publishRevert_Inr:
  assumes "publishRevert h tables permit input target db = Inr (res, db')"
  shows "\<exists>db1. publishVersion h tables permit (input\<lparr>pi_operation := Some OpRevert, pi_revertedTo := Some target\<rparr>) db
      = Inr (res, db1) \<and> quiet u db1 db' \<and> period_rows db' = period_rows db1"
  using assms unfolding publishRevert_def
  by (auto simp: seq_Inr quiet_defs recordAudit_def split: if_splits)

section \<open>Periods stay\<close>

definition has_period :: "string \<Rightarrow> ScheduleDb \<Rightarrow> bool" where
  "has_period p db \<longleftrightarrow> p \<in> set (map pr_id (period_rows db))"

lemma has_period_find: "has_period p db \<longleftrightarrow> find_period p db \<noteq> None"
  by (auto simp: has_period_def find_period_def find_None_iff)

named_theorems period_keeping \<open>calls that keep the periods\<close>

lemma period_store: "(\<And>db. period_rows (f db) = period_rows db) \<Longrightarrow> keeps (has_period p) (store f)"
  by (rule keeps_store) (simp add: has_period_def)

lemma period_basic [period_keeping]:
  "keeps (has_period p) (randomUUID u)" "keeps (has_period p) (recordAudit e s)"
  "keeps (has_period p) (publishOutbox e s)" "keeps (has_period p) (period_open_guard q)"
  "keeps (has_period p) (requireScheduleCapability permit a)" "keeps (has_period p) (loadVersion i)"
  "keeps (has_period p) (assertEditable v)" "keeps (has_period p) (assertAssignableMembership m s1 e1)"
  by (rule keepsI; auto simp: has_period_def randomUUID_def recordAudit_def publishOutbox_def period_open_guard_def
      dest!: assertAssignableMembership_Inr)+

lemma period_writes [period_keeping]:
  "keeps (has_period p) (insert_snapshot sn)" "keeps (has_period p) (update_snapshots P f)"
  "keeps (has_period p) (insert_version v)" "keeps (has_period p) (insert_requirement r)"
  "keeps (has_period p) (update_requirement r k)" "keeps (has_period p) (delete_requirement r)"
  "keeps (has_period p) (ensureShift u i d ty l)" "keeps (has_period p) (store (update_version i g))"
  "keeps (has_period p) (clone_shift u i sh)" "keeps (has_period p) (clone_snapshot u i ss sn)"
  "keeps (has_period p) (assertNoOpenHardBreach i)" "keeps (has_period p) (assertTimezoneBasisFresh tz i)"
  by (auto simp: insert_snapshot_def update_snapshots_def insert_version_def insert_requirement_def
      update_requirement_def delete_requirement_def bump_set_version_def ensureShift_def update_version_def
      clone_shift_def clone_snapshot_def assertNoOpenHardBreach_def assertTimezoneBasisFresh_def
      intro!: keeping period_keeping period_store split: option.split TimezoneBasisState.split)

lemmas period_rules = keeping period_keeping period_store

lemma period_authoring [period_keeping]:
  "keeps (has_period p) (createDraftVersion u permit tz q)" "keeps (has_period p) (cloneVersion u permit i)"
  "keeps (has_period p) (transitionVersion permit i t)" "keeps (has_period p) (setLockState permit i l)"
  "keeps (has_period p) (addManualAssignment u permit ai)" "keeps (has_period p) (removeAssignment permit i x r)"
  "keeps (has_period p) (reassignAssignment permit i x m r)" "keeps (has_period p) (setPin permit i x b)"
  "keeps (has_period p) (moveCredit u permit acting mi)" "keeps (has_period p) (voidCredit permit c)"
  "keeps (has_period p) (recordConflict u permit i severity ex)"
  unfolding createDraftVersion_def cloneVersion_def cloneCredits_def clone_credit_def Let_def transitionVersion_def
    setLockState_def addManualAssignment_def removeAssignment_def reassignAssignment_def setPin_def moveCredit_def
    voidCredit_def recordConflict_def
  by (intro period_rules; auto intro!: period_rules split: option.split)+

lemma period_periods [period_keeping]:
  "keeps (has_period p) (createPeriod u permit n s e)" "keeps (has_period p) (transitionPeriodStatus permit q t)"
  "keeps (has_period p) (setRequirement u permit q d ty c)" "keeps (has_period p) (replaceRequirements u permit q es k)"
  unfolding createPeriod_def transitionPeriodStatus_def setRequirement_def replaceRequirements_def Let_def
  by (intro period_rules keeps_store;
      auto simp: has_period_def image_image cong: if_cong intro!: period_rules split: option.split)+

lemma period_publication [period_keeping]:
  "keeps (has_period p) (check_prerequisites h tables input)" "keeps (has_period p) (swap_current input v)"
  "keeps (has_period p) (announce_publication h input n prior)" "keeps (has_period p) (replay_publication h input r)"
  "keeps (has_period p) reconcileStalePublishing"
  unfolding check_prerequisites_def set_publishing_def assertHardRulesRevalidated_def swap_current_def set_published_def
    supersede_def prune_current_assignments_def insert_reality_def announce_publication_def record_publication_def
    replay_publication_def reconcileStalePublishing_def Let_def
  by (intro period_rules; auto intro!: period_rules split: option.split sum.split)+

lemma period_publishVersion [period_keeping]: "keeps (has_period p) (publishVersion h tables permit input)"
  unfolding publishVersion_def
  by (intro period_rules period_publication; auto intro!: keeping period_publication split: option.split prod.split)

lemma period_publishRevert [period_keeping]: "keeps (has_period p) (publishRevert h tables permit input target)"
  unfolding publishRevert_def by (intro period_rules period_publishVersion)

lemma period_step: "schedule_step uuid db db' \<Longrightarrow> has_period p db \<Longrightarrow> has_period p db'"
  by (induction rule: schedule_step.induct)
    (erule keepsD[rotated 2], rule period_keeping, assumption | simp add: has_period_def)+

section \<open>History\<close>

text \<open>A published version stays as it is until a later one supersedes it; then it only gains its successor.\<close>
definition same_history :: "VersionRow \<Rightarrow> VersionRow \<Rightarrow> bool" where
  "same_history v v' \<longleftrightarrow> v' = v \<or> (v_state v = VPublished \<and>
     (\<exists>w. v' = v\<lparr>v_state := VSuperseded, v_current := False, v_supersededBy := Some w\<rparr>))"

definition history_kept :: "ScheduleDb \<Rightarrow> ScheduleDb \<Rightarrow> bool" where
  "history_kept db db' \<longleftrightarrow>
     (\<forall>v \<in> set (version_rows db). frozen v \<longrightarrow> content (v_id v) db' = content (v_id v) db \<and>
        (\<exists>v' \<in> set (version_rows db'). same_history v v')) \<and>
     (\<exists>new. publication_rows db' = publication_rows db @ new)"

lemma same_history_frozen: "same_history v v' \<Longrightarrow> frozen v \<Longrightarrow> frozen v' \<and> v_id v' = v_id v"
  by (auto simp: same_history_def frozen_def)

lemma same_history_trans: "same_history u v \<Longrightarrow> same_history v w \<Longrightarrow> same_history u w"
  by (auto simp: same_history_def)

lemma history_kept_refl [simp]: "history_kept db db"
  by (auto simp: history_kept_def same_history_def)

lemma history_kept_trans:
  assumes "history_kept a b" "history_kept b c"
  shows "history_kept a c"
proof -
  have "content (v_id v) c = content (v_id v) a \<and> (\<exists>w \<in> set (version_rows c). same_history v w)"
    if v: "v \<in> set (version_rows a)" "frozen v" for v
  proof -
    obtain v' where v': "v' \<in> set (version_rows b)" "same_history v v'" "content (v_id v) b = content (v_id v) a"
      using assms(1) v unfolding history_kept_def by blast
    then have "frozen v'" "v_id v' = v_id v" using same_history_frozen v(2) by blast+
    then show ?thesis using assms(2) v' same_history_trans unfolding history_kept_def by metis
  qed
  then show ?thesis using assms unfolding history_kept_def by (metis append.assoc)
qed

lemma edits_history:
  assumes "schedule_inv uuid db" "edits uuid i db db'" "draft_in i db"
  shows "history_kept db db'"
  using assms draft_not_current[OF _ _ assms(3)]
  by (auto simp: history_kept_def edits_def published_part_def schedule_inv_def same_history_def)

lemma quiet_history: "quiet uuid db db' \<Longrightarrow> history_kept db db'"
  by (auto simp: history_kept_def quiet_def published_part_def same_history_def)

lemma new_version_history:
  assumes "inj uuid" "schedule_inv uuid db" "new_version uuid db v db'"
  shows "history_kept db db'"
proof -
  have "ids_ok uuid db'" using new_version_inv[OF assms] by (simp add: schedule_inv_def)
  then have "v_id v \<notin> set (map v_id (version_rows db))"
    using ids_ok_distinct(1) assms(3) by (fastforce simp: new_version_def)
  then have "w \<in> set (version_rows db) \<Longrightarrow> v_id w \<noteq> v_id v" for w by (metis image_eqI set_map)
  then show ?thesis using assms(3) by (auto simp: history_kept_def new_version_def same_history_def)
qed

lemma update_version_history:
  assumes "schedule_inv uuid db" "find_version i db = Some v" "\<not> frozen v"
  shows "history_kept db (update_version i f db)"
proof -
  have "w = v" if "w \<in> set (version_rows db)" "v_id w = i" for w
    using assms(1) find_version_mem[OF assms(2)] that find_unique_id ids_ok_distinct(1)
    by (metis schedule_inv_def)
  then have "w \<in> set (version_rows (update_version i f db))" if "w \<in> set (version_rows db)" "frozen w" for w
    using that assms(3) by (force simp: update_version_def)
  moreover have "content j (update_version i f db) = content j db" for j
    by (simp add: content_def update_version_def)
  moreover have "publication_rows (update_version i f db) = publication_rows db @ []"
    by (simp add: update_version_def)
  ultimately show ?thesis unfolding history_kept_def same_history_def by metis
qed

lemma publish_history:
  assumes "schedule_inv uuid db" "publishVersion h tables permit input db = Inr (res, db')"
  shows "history_kept db db'"
proof (cases "ps_replay res")
  case True
  then show ?thesis using publishVersion_replay[OF assms(2)] by simp
next
  case False
  have inv: "ids_ok uuid db" "published_ok db" using assms(1) by (simp_all add: schedule_inv_def)
  obtain v rec where v: "find_version (pi_version input) db = Some v" "\<not> frozen v"
    and prior: "pi_expectedPrior input = current_id (pi_period input) (version_rows db)"
    and eff: "publish_effect v (next_number (pi_period input) db) (pi_expectedPrior input) rec db db'"
    by (rule publishVersion_fresh[OF inv assms(2) False]) (rule that; assumption)
  have "same_history w (publish_row (v_id v) n (pi_expectedPrior input) w)"
    if w: "w \<in> set (version_rows db)" "frozen w" for w n
  proof -
    have "v_id w \<noteq> v_id v"
      using w v find_version_mem[OF v(1)] find_unique_id[OF ids_ok_distinct(1)[OF inv(1)]] by metis
    moreover have "v_current w" if "pi_expectedPrior input = Some (v_id w)"
      using that w(1) prior current_id_Some find_unique_id[OF ids_ok_distinct(1)[OF inv(1)]] by metis
    moreover have "v_current w \<longleftrightarrow> v_state w = VPublished"
      using inv(2) w(1) unfolding published_ok_def row_ok_def by blast
    ultimately show ?thesis
      unfolding same_history_def publish_row_def by (simp only: if_False if_True split: if_split) blast
  qed
  then show ?thesis using eff by (auto simp: history_kept_def publish_effect_def content_def)
qed

section \<open>What a step does\<close>

text \<open>Every step has one of five effects; invariant and history are proved for these.\<close>
inductive schedule_effect :: "(nat \<Rightarrow> string) \<Rightarrow> ScheduleDb \<Rightarrow> ScheduleDb \<Rightarrow> bool" for uuid where
  editing: "edits uuid i db db' \<Longrightarrow> draft_in i db \<Longrightarrow> schedule_effect uuid db db'"
| quietly: "quiet uuid db db' \<Longrightarrow> schedule_effect uuid db db'"
| creating: "new_version uuid db v db' \<Longrightarrow> schedule_effect uuid db db'"
| moving: "find_version i db = Some v \<Longrightarrow> \<not> frozen v \<Longrightarrow>
     (\<And>w. v_id (f w) = v_id w \<and> v_period (f w) = v_period w \<and> v_number (f w) = v_number w \<and>
        v_current (f w) = v_current w \<and> v_supersededBy (f w) = v_supersededBy w) \<Longrightarrow>
     v_state (f v) \<notin> {VPublishing, VPublished, VSuperseded} \<Longrightarrow> quiet uuid (update_version i f db) db' \<Longrightarrow>
     schedule_effect uuid db db'"
| publishing: "publishVersion h tables permit pin db = Inr (res, db1) \<Longrightarrow> quiet uuid db1 db' \<Longrightarrow> schedule_effect uuid db db'"

lemma transitionVersion_effect:
  assumes "transitionVersion permit i t db = Inr (u, db')"
  shows "schedule_effect uuid db db'"
proof -
  obtain v e where v: "find_version i db = Some v" "t \<in> set (LEGAL_TRANSITIONS (v_state v))"
    and audit: "recordAudit e i (update_version i (\<lambda>v. v\<lparr>v_state := t\<rparr>) db) = Inr (u, db')"
    using assms unfolding transitionVersion_def
    by (auto simp: seq_Inr assertNoOpenHardBreach_def split: if_splits)
  have "\<not> frozen v" "t \<notin> {VPublishing, VPublished, VSuperseded}"
    using v(2) by (cases "v_state v"; auto simp: frozen_def)+
  then show ?thesis
    using keepsD[OF quiet_audit quiet_refl audit] by (intro schedule_effect.moving[OF v(1), where f = "\<lambda>v. v\<lparr>v_state := t\<rparr>"]) simp_all
qed

lemma setLockState_effect:
  assumes "published_ok db" "setLockState permit i l db = Inr (u, db')"
  shows "schedule_effect uuid db db'"
proof -
  obtain v e where v: "find_version i db = Some v" "\<not> frozen v"
    and audit: "recordAudit e i (update_version i (\<lambda>v. v\<lparr>v_lock := l\<rparr>) db) = Inr (u, db')"
    using assms(2) unfolding setLockState_def by (auto simp: seq_Inr frozen_def)
  have "v_state v \<noteq> VPublishing"
    using assms(1) find_version_mem[OF v(1)] by (auto simp: published_ok_def row_ok_def)
  then show ?thesis
    using v(2) keepsD[OF quiet_audit quiet_refl audit]
    by (intro schedule_effect.moving[OF v(1), where f = "\<lambda>v. v\<lparr>v_lock := l\<rparr>"]) (simp_all add: frozen_def)
qed

lemma schedule_step_effect:
  assumes "inj uuid" "schedule_step uuid db db'" "schedule_inv uuid db"
  shows "schedule_effect uuid db db'"
  using assms(2)
proof cases
  case (create_period permit n s e r)
  then show ?thesis by (rule schedule_effect.quietly[OF keepsD[OF createPeriod_quiet quiet_refl]])
next
  case (set_requirement permit p d t c r)
  then show ?thesis by (rule schedule_effect.quietly[OF keepsD[OF setRequirement_quiet quiet_refl]])
next
  case (replace_requirements permit p es k ro)
  then show ?thesis by (rule schedule_effect.quietly[OF keepsD[OF replaceRequirements_quiet quiet_refl]])
next
  case (create_draft permit tzdb p r)
  then show ?thesis using schedule_effect.creating createDraftVersion_new by blast
next
  case (clone permit i r)
  then show ?thesis using schedule_effect.creating cloneVersion_new by blast
next
  case (transition permit i st u)
  then show ?thesis by (rule transitionVersion_effect)
next
  case (lock permit i l u)
  then show ?thesis using setLockState_effect assms(3) by (simp add: schedule_inv_def)
next
  case (add permit ai aa)
  then show ?thesis using schedule_effect.editing addManualAssignment_edits by blast
next
  case (remove permit i x reason u)
  then show ?thesis using schedule_effect.editing removeAssignment_edits by blast
next
  case (reassign permit i x m reason u)
  then show ?thesis using schedule_effect.editing reassignAssignment_edits assms(3) by (metis schedule_inv_def)
next
  case (pin permit i x b u)
  then show ?thesis using schedule_effect.editing setPin_edits by blast
next
  case (move_credit permit acting mi r)
  then show ?thesis using schedule_effect.editing moveCredit_edits assms(1,3) by (metis schedule_inv_def)
next
  case (void_credit permit c u)
  then show ?thesis using schedule_effect.editing voidCredit_edits assms(3) by (metis schedule_inv_def)
next
  case (record_conflict permit i severity ex r)
  then show ?thesis using schedule_effect.editing recordConflict_edits by blast
next
  case (publish h tables permit pin res)
  then show ?thesis by (rule schedule_effect.publishing) simp
next
  case (revert h tables permit pin target res)
  then obtain db1 where "publishVersion h tables permit (pin\<lparr>pi_operation := Some OpRevert, pi_revertedTo := Some target\<rparr>) db
      = Inr (res, db1)" "quiet uuid db1 db'" using publishRevert_Inr by blast
  then show ?thesis by (rule schedule_effect.publishing)
next
  case (period_status permit p pst pp)
  then show ?thesis by (rule schedule_effect.quietly[OF keepsD[OF transitionPeriodStatus_quiet quiet_refl]])
next
  case (reconcile "is")
  then show ?thesis using reconcile_idle assms(3) by (auto simp: schedule_inv_def intro: schedule_effect.quietly)
next
  case (others ms z)
  then show ?thesis by (auto simp: quiet_defs intro!: schedule_effect.quietly)
qed

lemma schedule_effect_inv:
  assumes "inj uuid" "schedule_inv uuid db" "schedule_effect uuid db db'"
  shows "schedule_inv uuid db' \<and> history_kept db db'"
  using assms(3)
proof cases
  case (editing i)
  then show ?thesis using edits_inv[OF assms(1,2)] edits_history[OF assms(2)] by blast
next
  case quietly
  then show ?thesis using quiet_inv[OF assms(1,2)] quiet_history by blast
next
  case (creating v)
  then show ?thesis using new_version_inv[OF assms(1,2)] new_version_history[OF assms(1,2)] by blast
next
  case (moving i v f)
  have "schedule_inv uuid (update_version i f db)" by (rule update_version_inv[OF assms(2) moving(1-4)])
  then show ?thesis
    using moving(5) update_version_history[OF assms(2) moving(1,2)] quiet_inv[OF assms(1)] quiet_history
      history_kept_trans by blast
next
  case (publishing h tables permit pin res db1)
  then show ?thesis
    using publishVersion_inv[OF assms(2)] publish_history[OF assms(2)] quiet_inv[OF assms(1)] quiet_history
      history_kept_trans by blast
qed

interpretation schedule: step_system "\<lambda>db. inj uuid \<and> no_schedule db" "schedule_step uuid"
    "\<lambda>db. inj uuid \<and> schedule_inv uuid db" history_kept for uuid
proof
  show "inj uuid \<and> schedule_inv uuid t" if "schedule_step uuid s t" "inj uuid \<and> schedule_inv uuid s" for s t
    using that schedule_effect_inv schedule_step_effect by blast
  show "history_kept s t" if "schedule_step uuid s t" "inj uuid \<and> schedule_inv uuid s" for s t
    using that schedule_effect_inv schedule_step_effect by blast
qed (auto intro: no_schedule_inv history_kept_trans)

lemma schedule_reachable_inv:
  assumes "inj uuid" "schedule_reachable uuid db"
  shows "schedule_inv uuid db"
  using schedule.reachable_inv[OF reachable_mono[OF assms(2)]] assms(1) by simp

lemma schedule_steps_inv:
  assumes "inj uuid" "schedule_steps uuid db db'" "schedule_inv uuid db"
  shows "schedule_inv uuid db' \<and> history_kept db db'"
  using schedule.steps_inv[OF assms(2)] assms(1,3) by simp

lemma schedule_reachable_step: "schedule_reachable uuid db \<Longrightarrow> schedule_step uuid db db' \<Longrightarrow> schedule_reachable uuid db'"
  by (rule reachable.step)

lemma schedule_steps_step: "schedule_steps uuid db db' \<Longrightarrow> schedule_step uuid db' db'' \<Longrightarrow> schedule_steps uuid db db''"
  by (rule steps.more)

lemma schedule_steps_period: "schedule_steps uuid db db' \<Longrightarrow> has_period p db \<Longrightarrow> has_period p db'"
  by (induction rule: steps.induct) (auto intro: period_step)

section \<open>Replay\<close>

lemma fresh_record:
  assumes "schedule_inv uuid db" "publishVersion h tables permit input db = Inr (res, db')" "\<not> ps_replay res"
  obtains n prior where
    "publication_rows db' = publication_rows db @ [publication_row h input n prior (vd_affected (ps_difference res))]"
    "find (\<lambda>p. pb_period p = pi_period input \<and> pb_key p = pi_key input) (publication_rows db) = None"
    "ps_number res = n" "ps_prior res = prior" "ps_version res = pi_version input"
    "PUBLICATION_IDEMPOTENCY_KEY_PATTERN (pi_key input)" "has_period (pi_period input) db'"
proof -
  have inv: "ids_ok uuid db" "published_ok db" using assms(1) by (simp_all add: schedule_inv_def)
  obtain v where f: "find_period (pi_period input) db \<noteq> None"
      "PUBLICATION_IDEMPOTENCY_KEY_PATTERN (pi_key input)"
      "find (\<lambda>p. pb_period p = pi_period input \<and> pb_key p = pi_key input) (publication_rows db) = None"
      "publish_effect v (next_number (pi_period input) db) (pi_expectedPrior input)
       (publication_row h input (next_number (pi_period input) db) (pi_expectedPrior input) (vd_affected (ps_difference res)))
       db db'" "ps_version res = pi_version input" "ps_number res = next_number (pi_period input) db"
      "ps_prior res = pi_expectedPrior input"
    by (rule publishVersion_fresh[OF inv assms(2,3)]) (rule that; assumption)
  then show thesis by (intro that) (auto simp: publish_effect_def has_period_find find_period_def)
qed

lemma find_append: "find P (xs @ ys) = (case find P xs of None \<Rightarrow> find P ys | Some x \<Rightarrow> Some x)"
  by (induction xs) auto

definition replay_of :: "PublishResult \<Rightarrow> PublishResult" where
  "replay_of res = res\<lparr>ps_replay := True, ps_outbox := None,
     ps_difference := \<lparr>vd_changes = [], vd_affected = vd_affected (ps_difference res)\<rparr>\<rparr>"

lemma replay_after:
  assumes "inj uuid" "schedule_inv uuid db" "publishVersion h tables permit input db = Inr (res, db1)"
    "\<not> ps_replay res" "schedule_steps uuid db1 db2" "permit' (action_key PublishAction)"
    and same: "pi_period input' = pi_period input" "pi_key input' = pi_key input"
  shows "publishVersion h tables' permit' input' db2 =
    (if pi_version input' \<noteq> pi_version input
     then Inl (SchedulePreconditionError ''IDEMPOTENCY_KEY_REUSED_FOR_DIFFERENT_VERSION'')
     else if operation_type input' \<noteq> operation_type input
     then Inl (SchedulePreconditionError ''IDEMPOTENCY_KEY_REUSED_FOR_DIFFERENT_OPERATION'')
     else if semantic_digest h input' \<noteq> semantic_digest h input
     then Inl (SchedulePreconditionError ''IDEMPOTENCY_KEY_REUSED_FOR_DIFFERENT_REQUEST'')
     else Inr (replay_of res, db2))"
proof -
  obtain n prior where f:
    "publication_rows db1 = publication_rows db @ [publication_row h input n prior (vd_affected (ps_difference res))]"
    "find (\<lambda>p. pb_period p = pi_period input \<and> pb_key p = pi_key input) (publication_rows db) = None"
    "ps_number res = n" "ps_prior res = prior" "ps_version res = pi_version input"
    "PUBLICATION_IDEMPOTENCY_KEY_PATTERN (pi_key input)" "has_period (pi_period input) db1"
    by (rule fresh_record[OF assms(2-4)])
  have "schedule_inv uuid db1" by (rule publishVersion_inv[OF assms(2,3)])
  then obtain new where new: "publication_rows db2 = publication_rows db1 @ new"
    using schedule_steps_inv[OF assms(1,5)] by (auto simp: history_kept_def)
  have per: "find_period (pi_period input) db2 \<noteq> None"
    using schedule_steps_period[OF assms(5) f(7)] by (simp add: has_period_find)
  let ?r = "publication_row h input n prior (vd_affected (ps_difference res))"
  have "find (\<lambda>p. pb_period p = pi_period input \<and> pb_key p = pi_key input) (publication_rows db2) = Some ?r"
    by (simp add: new f(1,2) find_append) (simp add: publication_row_def)
  then have "publishVersion h tables' permit' input' db2 = replay_publication h input' ?r db2"
    using f(6) per assms(6) same
    by (simp add: publishVersion_def requireScheduleCapability_def seq_def demand_def ret_def query_def)
  also have "\<dots> = (if pi_version input' \<noteq> pi_version input
     then Inl (SchedulePreconditionError ''IDEMPOTENCY_KEY_REUSED_FOR_DIFFERENT_VERSION'')
     else if operation_type input' \<noteq> operation_type input
     then Inl (SchedulePreconditionError ''IDEMPOTENCY_KEY_REUSED_FOR_DIFFERENT_OPERATION'')
     else if semantic_digest h input' \<noteq> semantic_digest h input
     then Inl (SchedulePreconditionError ''IDEMPOTENCY_KEY_REUSED_FOR_DIFFERENT_REQUEST'')
     else Inr (replay_of res, db2))"
    using f(3-5) by (auto simp: replay_publication_def running publication_row_def replay_of_def ret_def)
  finally show ?thesis .
qed

end
