(* ===== verification/PublicationFacts.thy ===== *)
theory PublicationFacts
  imports PublicationInvariant
begin

text \<open>
  What the invariant gives to the callers of publication: the numbering of a period, the table of current
  assignments, frozen history, replay, and what a version that was published had passed. \<open>sample\<close> is a run of the
  services that publishes a version and then supersedes it by its clone.
\<close>

section \<open>A run of the services\<close>

definition after_call :: "'a service \<Rightarrow> ScheduleDb \<Rightarrow> ScheduleDb" where
  "after_call m db = (case m db of Inl _ \<Rightarrow> db | Inr (_, db') \<Rightarrow> db')"

definition accepted :: "'a service \<Rightarrow> ScheduleDb \<Rightarrow> bool" where
  "accepted m db = (case m db of Inl _ \<Rightarrow> False | Inr _ \<Rightarrow> True)"

lemma accepted_Inr: "accepted m db \<Longrightarrow> \<exists>a. m db = Inr (a, after_call m db)"
  by (auto simp: accepted_def after_call_def split: sum.splits)

definition sample_uuid :: "nat \<Rightarrow> string" where "sample_uuid n = replicate n (CHR ''u'')"

lemma sample_uuid_inj: "inj sample_uuid"
  by (rule injI) (metis length_replicate sample_uuid_def)

definition anyone :: "string \<Rightarrow> bool" where "anyone a = True"

definition sample_host :: host where
  "sample_host = \<lparr>host_uuid = sample_uuid, host_sha256 = (\<lambda>s. ''digest''), host_dateParse = (\<lambda>s. None), host_tzdb = ''2025a''\<rparr>"

definition sample_tables :: StaffingTables where
  "sample_tables = \<lparr>rule_rows = [], shift_type_rows = [(''day'', ''DAY'', False)], qualification_rows = [],
     required_rows = [], holding_rows = []\<rparr>"

definition sample_start :: ScheduleDb where
  "sample_start = \<lparr>period_rows = [], version_rows = [], shift_rows = [], identity_rows = [], snapshot_rows = [],
     credit_rows = [], conflict_rows = [], requirement_rows = [], reality_rows = [], publication_rows = [],
     supersession_rows = [], membership_rows = [\<lparr>mb_id = ''m'', mb_kind = ''group'', mb_status = ''active'',
       mb_validFrom = 0, mb_validTo = None\<rparr>],
     group_zone = Some ''UTC'', set_versions = [], schedule_audit = [], schedule_outbox = [], draws = 0\<rparr>"

definition sample_assignment :: AddAssignmentInput where
  "sample_assignment = \<lparr>ai_version = sample_uuid 1, ai_member = ''m'', ai_type = ''day'', ai_date = ''2026-01-05'',
     ai_starts = 100, ai_ends = 200, ai_pick = None, ai_pinned = False, ai_override = None, ai_identity = None,
     ai_location = None, ai_origin = OriginManual\<rparr>"

definition publish_sample :: "string \<Rightarrow> string \<Rightarrow> string option \<Rightarrow> PublishInput" where
  "publish_sample i key prior = \<lparr>pi_period = sample_uuid 0, pi_version = i, pi_key = key, pi_expectedState = None,
     pi_expectedPrior = prior, pi_operation = None, pi_revertedTo = None\<rparr>"

definition sample_draft :: ScheduleDb where
  "sample_draft = after_call (addManualAssignment sample_uuid anyone sample_assignment)
     (after_call (createDraftVersion sample_uuid anyone ''2025a'' (sample_uuid 0))
     (after_call (createPeriod sample_uuid anyone ''January'' ''2026-01-01'' ''2026-01-31'') sample_start))"

definition sample_approved :: ScheduleDb where
  "sample_approved = after_call (transitionVersion anyone (sample_uuid 1) VApproved)
     (after_call (transitionVersion anyone (sample_uuid 1) VInReview) sample_draft)"

definition first_publish :: PublishInput where "first_publish = publish_sample (sample_uuid 1) ''k1'' None"

definition sample_published :: ScheduleDb where
  "sample_published = after_call (publishVersion sample_host sample_tables anyone first_publish) sample_approved"

definition sample_cloned :: ScheduleDb where
  "sample_cloned = after_call (transitionVersion anyone (sample_uuid 5) VApproved)
     (after_call (transitionVersion anyone (sample_uuid 5) VInReview)
     (after_call (cloneVersion sample_uuid anyone (sample_uuid 1)) sample_published))"

definition second_publish :: PublishInput where
  "second_publish = publish_sample (sample_uuid 5) ''k2'' (Some (sample_uuid 1))"

definition sample_superseded :: ScheduleDb where
  "sample_superseded = after_call (publishVersion sample_host sample_tables anyone second_publish) sample_cloned"

text \<open>The states of the run, in full.\<close>
lemma sample_draft_state:
  "sample_draft =
   \<lparr>period_rows = [\<lparr>pr_id = [], pr_name = ''January'', pr_start = ''2026-01-01'', pr_end =
   ''2026-01-31'', pr_status = PPlanning\<rparr>], version_rows = [\<lparr>v_id = ''u'', v_period = [], v_number
   = None, v_state = VDraft, v_lock = Unlocked, v_current = False, v_clonedFrom = None, v_zone = Some ''UTC'',
   v_tzdb = Some ''2025a'', v_supersededBy = None\<rparr>], shift_rows = [\<lparr>sh_id = ''uu'', sh_version =
   ''u'', sh_date = ''2026-01-05'', sh_type = ''day'', sh_location = None, sh_required = 0\<rparr>],
   identity_rows = [(''uuu'', [])], snapshot_rows = [\<lparr>sn_id = ''uuuu'', sn_identity = ''uuu'', sn_version
   = ''u'', sn_member = ''m'', sn_shift = ''uu'', sn_date = ''2026-01-05'', sn_starts = 100, sn_ends = 200,
   sn_origin = OriginManual, sn_pick = None, sn_pinned = False, sn_status = SnapActive, sn_supersedes = None,
   sn_override = None\<rparr>], credit_rows = [], conflict_rows = [], requirement_rows = [], reality_rows = [],
   publication_rows = [], supersession_rows = [], membership_rows = [\<lparr>mb_id = ''m'', mb_kind = ''group'',
   mb_status = ''active'', mb_validFrom = 0, mb_validTo = None\<rparr>], group_zone = Some ''UTC'', set_versions
   = [], schedule_audit = [(''schedule.period.created'', []), (''schedule.version.created'', ''u''),
   (''schedule.assignment.added'', ''uuu'')], schedule_outbox = [], draws = 5\<rparr>"
  unfolding sample_draft_def  by code_simp

lemma sample_approved_state:
  "sample_approved =
   \<lparr>period_rows = [\<lparr>pr_id = [], pr_name = ''January'', pr_start = ''2026-01-01'', pr_end =
   ''2026-01-31'', pr_status = PPlanning\<rparr>], version_rows = [\<lparr>v_id = ''u'', v_period = [], v_number
   = None, v_state = VApproved, v_lock = Unlocked, v_current = False, v_clonedFrom = None, v_zone = Some
   ''UTC'', v_tzdb = Some ''2025a'', v_supersededBy = None\<rparr>], shift_rows = [\<lparr>sh_id = ''uu'',
   sh_version = ''u'', sh_date = ''2026-01-05'', sh_type = ''day'', sh_location = None, sh_required =
   0\<rparr>], identity_rows = [(''uuu'', [])], snapshot_rows = [\<lparr>sn_id = ''uuuu'', sn_identity =
   ''uuu'', sn_version = ''u'', sn_member = ''m'', sn_shift = ''uu'', sn_date = ''2026-01-05'', sn_starts = 100,
   sn_ends = 200, sn_origin = OriginManual, sn_pick = None, sn_pinned = False, sn_status = SnapActive,
   sn_supersedes = None, sn_override = None\<rparr>], credit_rows = [], conflict_rows = [], requirement_rows =
   [], reality_rows = [], publication_rows = [], supersession_rows = [], membership_rows = [\<lparr>mb_id =
   ''m'', mb_kind = ''group'', mb_status = ''active'', mb_validFrom = 0, mb_validTo = None\<rparr>], group_zone
   = Some ''UTC'', set_versions = [], schedule_audit = [(''schedule.period.created'', []),
   (''schedule.version.created'', ''u''), (''schedule.assignment.added'', ''uuu''),
   (''schedule.version.state_changed'', ''u''), (''schedule.version.state_changed'', ''u'')], schedule_outbox =
   [], draws = 5\<rparr>"
  unfolding sample_approved_def sample_draft_state by code_simp

lemma sample_published_state:
  "sample_published =
   \<lparr>period_rows = [\<lparr>pr_id = [], pr_name = ''January'', pr_start = ''2026-01-01'', pr_end =
   ''2026-01-31'', pr_status = PPlanning\<rparr>], version_rows = [\<lparr>v_id = ''u'', v_period = [], v_number
   = Some 1, v_state = VPublished, v_lock = Unlocked, v_current = True, v_clonedFrom = None, v_zone = Some
   ''UTC'', v_tzdb = Some ''2025a'', v_supersededBy = None\<rparr>], shift_rows = [\<lparr>sh_id = ''uu'',
   sh_version = ''u'', sh_date = ''2026-01-05'', sh_type = ''day'', sh_location = None, sh_required =
   0\<rparr>], identity_rows = [(''uuu'', [])], snapshot_rows = [\<lparr>sn_id = ''uuuu'', sn_identity =
   ''uuu'', sn_version = ''u'', sn_member = ''m'', sn_shift = ''uu'', sn_date = ''2026-01-05'', sn_starts = 100,
   sn_ends = 200, sn_origin = OriginManual, sn_pick = None, sn_pinned = False, sn_status = SnapActive,
   sn_supersedes = None, sn_override = None\<rparr>], credit_rows = [], conflict_rows = [], requirement_rows =
   [], reality_rows = [\<lparr>ra_member = ''m'', ra_period = [], ra_starts = 100, ra_ends = 200, ra_version =
   ''u'', ra_snapshot = ''uuuu'', ra_identity = ''uuu''\<rparr>], publication_rows = [\<lparr>pb_period = [],
   pb_version = ''u'', pb_key = ''k1'', pb_operation = OpPublish, pb_digest = Some ''digest'', pb_number = 1,
   pb_prior = None, pb_affected = [''m'']\<rparr>], supersession_rows = [], membership_rows = [\<lparr>mb_id =
   ''m'', mb_kind = ''group'', mb_status = ''active'', mb_validFrom = 0, mb_validTo = None\<rparr>], group_zone
   = Some ''UTC'', set_versions = [], schedule_audit = [(''schedule.period.created'', []),
   (''schedule.version.created'', ''u''), (''schedule.assignment.added'', ''uuu''),
   (''schedule.version.state_changed'', ''u''), (''schedule.version.state_changed'', ''u''),
   (''schedule.version.published'', ''u'')], schedule_outbox = [(''schedule.version.published'',
   ''schedule-publish::k1'')], draws = 5\<rparr>"
  unfolding sample_published_def sample_approved_state by code_simp

lemma sample_cloned_state:
  "sample_cloned =
   \<lparr>period_rows = [\<lparr>pr_id = [], pr_name = ''January'', pr_start = ''2026-01-01'', pr_end =
   ''2026-01-31'', pr_status = PPlanning\<rparr>], version_rows = [\<lparr>v_id = ''u'', v_period = [], v_number
   = Some 1, v_state = VPublished, v_lock = Unlocked, v_current = True, v_clonedFrom = None, v_zone = Some
   ''UTC'', v_tzdb = Some ''2025a'', v_supersededBy = None\<rparr>, \<lparr>v_id = ''uuuuu'', v_period = [],
   v_number = None, v_state = VApproved, v_lock = Unlocked, v_current = False, v_clonedFrom = Some ''u'', v_zone
   = Some ''UTC'', v_tzdb = Some ''2025a'', v_supersededBy = None\<rparr>], shift_rows = [\<lparr>sh_id =
   ''uu'', sh_version = ''u'', sh_date = ''2026-01-05'', sh_type = ''day'', sh_location = None, sh_required =
   0\<rparr>, \<lparr>sh_id = ''uuuuuu'', sh_version = ''uuuuu'', sh_date = ''2026-01-05'', sh_type = ''day'',
   sh_location = None, sh_required = 0\<rparr>], identity_rows = [(''uuu'', [])], snapshot_rows = [\<lparr>sn_id
   = ''uuuu'', sn_identity = ''uuu'', sn_version = ''u'', sn_member = ''m'', sn_shift = ''uu'', sn_date =
   ''2026-01-05'', sn_starts = 100, sn_ends = 200, sn_origin = OriginManual, sn_pick = None, sn_pinned = False,
   sn_status = SnapActive, sn_supersedes = None, sn_override = None\<rparr>, \<lparr>sn_id = ''uuuuuuu'',
   sn_identity = ''uuu'', sn_version = ''uuuuu'', sn_member = ''m'', sn_shift = ''uuuuuu'', sn_date =
   ''2026-01-05'', sn_starts = 100, sn_ends = 200, sn_origin = OriginClone, sn_pick = None, sn_pinned = False,
   sn_status = SnapActive, sn_supersedes = Some ''uuuu'', sn_override = None\<rparr>], credit_rows = [],
   conflict_rows = [], requirement_rows = [], reality_rows = [\<lparr>ra_member = ''m'', ra_period = [],
   ra_starts = 100, ra_ends = 200, ra_version = ''u'', ra_snapshot = ''uuuu'', ra_identity = ''uuu''\<rparr>],
   publication_rows = [\<lparr>pb_period = [], pb_version = ''u'', pb_key = ''k1'', pb_operation = OpPublish,
   pb_digest = Some ''digest'', pb_number = 1, pb_prior = None, pb_affected = [''m'']\<rparr>],
   supersession_rows = [], membership_rows = [\<lparr>mb_id = ''m'', mb_kind = ''group'', mb_status =
   ''active'', mb_validFrom = 0, mb_validTo = None\<rparr>], group_zone = Some ''UTC'', set_versions = [],
   schedule_audit = [(''schedule.period.created'', []), (''schedule.version.created'', ''u''),
   (''schedule.assignment.added'', ''uuu''), (''schedule.version.state_changed'', ''u''),
   (''schedule.version.state_changed'', ''u''), (''schedule.version.published'', ''u''),
   (''schedule.version.created'', ''uuuuu''), (''schedule.version.state_changed'', ''uuuuu''),
   (''schedule.version.state_changed'', ''uuuuu'')], schedule_outbox = [(''schedule.version.published'',
   ''schedule-publish::k1'')], draws = 8\<rparr>"
  unfolding sample_cloned_def sample_published_state by code_simp

lemma sample_superseded_state:
  "sample_superseded =
   \<lparr>period_rows = [\<lparr>pr_id = [], pr_name = ''January'', pr_start = ''2026-01-01'', pr_end =
   ''2026-01-31'', pr_status = PPlanning\<rparr>], version_rows = [\<lparr>v_id = ''u'', v_period = [], v_number
   = Some 1, v_state = VSuperseded, v_lock = Unlocked, v_current = False, v_clonedFrom = None, v_zone = Some
   ''UTC'', v_tzdb = Some ''2025a'', v_supersededBy = Some ''uuuuu''\<rparr>, \<lparr>v_id = ''uuuuu'', v_period
   = [], v_number = Some 2, v_state = VPublished, v_lock = Unlocked, v_current = True, v_clonedFrom = Some
   ''u'', v_zone = Some ''UTC'', v_tzdb = Some ''2025a'', v_supersededBy = None\<rparr>], shift_rows =
   [\<lparr>sh_id = ''uu'', sh_version = ''u'', sh_date = ''2026-01-05'', sh_type = ''day'', sh_location = None,
   sh_required = 0\<rparr>, \<lparr>sh_id = ''uuuuuu'', sh_version = ''uuuuu'', sh_date = ''2026-01-05'',
   sh_type = ''day'', sh_location = None, sh_required = 0\<rparr>], identity_rows = [(''uuu'', [])],
   snapshot_rows = [\<lparr>sn_id = ''uuuu'', sn_identity = ''uuu'', sn_version = ''u'', sn_member = ''m'',
   sn_shift = ''uu'', sn_date = ''2026-01-05'', sn_starts = 100, sn_ends = 200, sn_origin = OriginManual,
   sn_pick = None, sn_pinned = False, sn_status = SnapActive, sn_supersedes = None, sn_override = None\<rparr>,
   \<lparr>sn_id = ''uuuuuuu'', sn_identity = ''uuu'', sn_version = ''uuuuu'', sn_member = ''m'', sn_shift =
   ''uuuuuu'', sn_date = ''2026-01-05'', sn_starts = 100, sn_ends = 200, sn_origin = OriginClone, sn_pick =
   None, sn_pinned = False, sn_status = SnapActive, sn_supersedes = Some ''uuuu'', sn_override = None\<rparr>],
   credit_rows = [], conflict_rows = [], requirement_rows = [], reality_rows = [\<lparr>ra_member = ''m'',
   ra_period = [], ra_starts = 100, ra_ends = 200, ra_version = ''uuuuu'', ra_snapshot = ''uuuuuuu'',
   ra_identity = ''uuu''\<rparr>], publication_rows = [\<lparr>pb_period = [], pb_version = ''u'', pb_key =
   ''k1'', pb_operation = OpPublish, pb_digest = Some ''digest'', pb_number = 1, pb_prior = None, pb_affected =
   [''m'']\<rparr>, \<lparr>pb_period = [], pb_version = ''uuuuu'', pb_key = ''k2'', pb_operation = OpPublish,
   pb_digest = Some ''digest'', pb_number = 2, pb_prior = Some ''u'', pb_affected = []\<rparr>],
   supersession_rows = [(''u'', ''uuuuu'')], membership_rows = [\<lparr>mb_id = ''m'', mb_kind = ''group'',
   mb_status = ''active'', mb_validFrom = 0, mb_validTo = None\<rparr>], group_zone = Some ''UTC'', set_versions
   = [], schedule_audit = [(''schedule.period.created'', []), (''schedule.version.created'', ''u''),
   (''schedule.assignment.added'', ''uuu''), (''schedule.version.state_changed'', ''u''),
   (''schedule.version.state_changed'', ''u''), (''schedule.version.published'', ''u''),
   (''schedule.version.created'', ''uuuuu''), (''schedule.version.state_changed'', ''uuuuu''),
   (''schedule.version.state_changed'', ''uuuuu''), (''schedule.version.published'', ''uuuuu''),
   (''schedule.version.superseded'', ''u'')], schedule_outbox = [(''schedule.version.published'',
   ''schedule-publish::k1''), (''schedule.version.published'', ''schedule-publish::k2'')], draws = 8\<rparr>"
  unfolding sample_superseded_def sample_cloned_state by code_simp

lemma sample_accepted:
  "accepted (createPeriod sample_uuid anyone ''January'' ''2026-01-01'' ''2026-01-31'') sample_start"
  "accepted (createDraftVersion sample_uuid anyone ''2025a'' (sample_uuid 0))
     (after_call (createPeriod sample_uuid anyone ''January'' ''2026-01-01'' ''2026-01-31'') sample_start)"
  "accepted (addManualAssignment sample_uuid anyone sample_assignment)
     (after_call (createDraftVersion sample_uuid anyone ''2025a'' (sample_uuid 0))
     (after_call (createPeriod sample_uuid anyone ''January'' ''2026-01-01'' ''2026-01-31'') sample_start))"
  by code_simp+

lemma sample_accepted_approval:
  "accepted (transitionVersion anyone (sample_uuid 1) VInReview) sample_draft"
  "accepted (transitionVersion anyone (sample_uuid 1) VApproved)
     (after_call (transitionVersion anyone (sample_uuid 1) VInReview) sample_draft)"
  unfolding sample_draft_state by code_simp+

lemma sample_accepted_publication:
  "accepted (publishVersion sample_host sample_tables anyone first_publish) sample_approved"
  "accepted (publishVersion sample_host sample_tables anyone second_publish) sample_cloned"
  unfolding sample_approved_state sample_cloned_state by code_simp+

lemma sample_accepted_clone:
  "accepted (cloneVersion sample_uuid anyone (sample_uuid 1)) sample_published"
  "accepted (transitionVersion anyone (sample_uuid 5) VInReview)
     (after_call (cloneVersion sample_uuid anyone (sample_uuid 1)) sample_published)"
  "accepted (transitionVersion anyone (sample_uuid 5) VApproved) (after_call (transitionVersion anyone (sample_uuid 5) VInReview)
     (after_call (cloneVersion sample_uuid anyone (sample_uuid 1)) sample_published))"
  unfolding sample_published_state by code_simp+

lemma accepted_step:
  "accepted (createPeriod uuid permit n s e) db \<Longrightarrow> schedule_step uuid db (after_call (createPeriod uuid permit n s e) db)"
  "accepted (createDraftVersion uuid permit tz p) db \<Longrightarrow>
     schedule_step uuid db (after_call (createDraftVersion uuid permit tz p) db)"
  "accepted (addManualAssignment uuid permit ai) db \<Longrightarrow>
     schedule_step uuid db (after_call (addManualAssignment uuid permit ai) db)"
  "accepted (transitionVersion permit i st) db \<Longrightarrow> schedule_step uuid db (after_call (transitionVersion permit i st) db)"
  "accepted (cloneVersion uuid permit i) db \<Longrightarrow> schedule_step uuid db (after_call (cloneVersion uuid permit i) db)"
  "accepted (publishVersion h tables permit pin) db \<Longrightarrow>
     schedule_step uuid db (after_call (publishVersion h tables permit pin) db)"
  by (drule accepted_Inr, elim exE, erule schedule_step.intros)+

lemma sample_reachable:
  "schedule_reachable sample_uuid sample_approved"
  "schedule_reachable sample_uuid sample_published"
  "schedule_reachable sample_uuid sample_cloned"
  "schedule_reachable sample_uuid sample_superseded"
proof -
  have "schedule_reachable sample_uuid sample_start"
    by (rule reachable.start) (simp add: no_schedule_def sample_start_def)
  then show 1: "schedule_reachable sample_uuid sample_approved"
    unfolding sample_approved_def sample_draft_def
    by (intro schedule_reachable_step[OF _ accepted_step(4)] schedule_reachable_step[OF _ accepted_step(3)]
        schedule_reachable_step[OF _ accepted_step(2)] schedule_reachable_step[OF _ accepted_step(1)]
        sample_accepted sample_accepted_approval[unfolded sample_draft_def])
  show 2: "schedule_reachable sample_uuid sample_published"
    unfolding sample_published_def by (rule schedule_reachable_step[OF 1 accepted_step(6)[OF sample_accepted_publication(1)]])
  show 3: "schedule_reachable sample_uuid sample_cloned"
    unfolding sample_cloned_def
    by (rule schedule_reachable_step[OF schedule_reachable_step[OF schedule_reachable_step[OF 2
      accepted_step(5)[OF sample_accepted_clone(1)]] accepted_step(4)[OF sample_accepted_clone(2)]]
      accepted_step(4)[OF sample_accepted_clone(3)]])
  show "schedule_reachable sample_uuid sample_superseded"
    unfolding sample_superseded_def by (rule schedule_reachable_step[OF 3 accepted_step(6)[OF sample_accepted_publication(2)]])
qed

lemma sample_steps: "schedule_steps sample_uuid sample_published sample_superseded"
proof -
  have "schedule_steps sample_uuid sample_published sample_cloned"
    unfolding sample_cloned_def
    by (rule schedule_steps_step[OF schedule_steps_step[OF schedule_steps_step[OF steps.none
      accepted_step(5)[OF sample_accepted_clone(1)]] accepted_step(4)[OF sample_accepted_clone(2)]]
      accepted_step(4)[OF sample_accepted_clone(3)]])
  then show ?thesis
    unfolding sample_superseded_def by (rule schedule_steps_step[OF _ accepted_step(6)[OF sample_accepted_publication(2)]])
qed

section \<open>Numbers and the current version\<close>

text \<open>C2: in every state the services can reach, the versions published in a period carry the numbers 1 to n,
  each once, n being how many there are; the one numbered n is the current and only published version, and the
  others are superseded, each by a successor; a version that was never published has no number and is not current;
  and none is left in the state \<open>publishing\<close>.\<close>
theorem publication_numbers:
  assumes "inj uuid" "schedule_reachable uuid db"
  shows "\<forall>p. let ns = numbers p (version_rows db) in distinct ns \<and> set ns = {1..int (length ns)} \<and>
    (\<forall>v \<in> set (version_rows db). v_period v = p \<longrightarrow> v_state v \<noteq> VPublishing \<and>
       (v_current v \<longleftrightarrow> v_number v = Some (int (length ns))) \<and>
       (v_current v \<longleftrightarrow> v_state v = VPublished) \<and>
       (v_number v \<noteq> None \<longleftrightarrow> v_state v = VPublished \<or> v_state v = VSuperseded) \<and>
       (v_supersededBy v \<noteq> None \<longleftrightarrow> v_state v = VSuperseded))"
proof -
  have ok: "published_ok db" using schedule_reachable_inv[OF assms] by (simp add: schedule_inv_def)
  have row: "v_state v \<noteq> VPublishing \<and> (v_current v \<longleftrightarrow> v_state v = VPublished) \<and>
      (v_number v \<noteq> None \<longleftrightarrow> v_state v = VPublished \<or> v_state v = VSuperseded) \<and>
      (v_supersededBy v \<noteq> None \<longleftrightarrow> v_state v = VSuperseded)" if "v \<in> set (version_rows db)" for v
    using ok that unfolding published_ok_def row_ok_def frozen_def by blast
  show ?thesis using ok row unfolding published_ok_def chain_ok_def Let_def by blast
qed

theorem publication_numbers_witness:
  "numbers (sample_uuid 0) (version_rows sample_superseded) = [1, 2] \<and>
   list_all (\<lambda>v. v_current v \<longleftrightarrow> v_number v = Some 2) (version_rows sample_superseded)"
proof -
  have n: "numbers (sample_uuid 0) (version_rows sample_superseded) = [1, 2]"
    and p: "list_all (\<lambda>v. v_period v = sample_uuid 0) (version_rows sample_superseded)" unfolding sample_superseded_state by code_simp+
  show ?thesis
    using publication_numbers[OF sample_uuid_inj sample_reachable(4), THEN spec, of "sample_uuid 0"] n p
    by (simp add: Let_def list_all_iff)
qed

section \<open>The table of current assignments\<close>

text \<open>C4: in every reachable state the table of current assignments holds exactly the active snapshots of the
  current versions, version by version and in their order, and nobody is booked twice in it.\<close>
theorem reality_is_published:
  assumes "inj uuid" "schedule_reachable uuid db"
  shows "(\<forall>v \<in> set (version_rows db). filter (\<lambda>r. ra_version r = v_id v) (reality_rows db) =
      (if v_current v then map (reality_row v)
         (filter (\<lambda>s. sn_version s = v_id v \<and> sn_status s = SnapActive) (snapshot_rows db)) else [])) \<and>
    (\<forall>r \<in> set (reality_rows db). ra_version r \<in> set (map v_id (version_rows db))) \<and>
    sorted_wrt (\<lambda>a b. ra_member a = ra_member b \<longrightarrow>
      \<not> (ra_starts a < ra_ends b \<and> ra_starts b < ra_ends a)) (reality_rows db)"
proof -
  have "published_ok db" using schedule_reachable_inv[OF assms] by (simp add: schedule_inv_def)
  then show ?thesis
    unfolding published_ok_def reality_ok_def nobody_twice_def overlaps_def active_of_def by blast
qed

theorem reality_is_published_witness:
  "map ra_version (reality_rows sample_superseded) = [sample_uuid 5] \<and>
   list_all (\<lambda>v. filter (\<lambda>r. ra_version r = v_id v) (reality_rows sample_superseded) =
      (if v_current v then map (reality_row v)
         (filter (\<lambda>s. sn_version s = v_id v \<and> sn_status s = SnapActive) (snapshot_rows sample_superseded)) else []))
     (version_rows sample_superseded)"
proof -
  have n: "map ra_version (reality_rows sample_superseded) = [sample_uuid 5]" unfolding sample_superseded_state by code_simp
  show ?thesis using reality_is_published[OF sample_uuid_inj sample_reachable(4)] n by (simp add: list_all_iff)
qed

section \<open>Frozen history\<close>

text \<open>C3: whatever the services do after a version was published, in any order, its shifts, snapshots, credits
  and conflicts stay as they were, and its row stays as it was except that a later publication may supersede it;
  and no publication record is ever removed or changed.\<close>
theorem published_history_frozen:
  assumes "inj uuid" "schedule_reachable uuid db" "schedule_steps uuid db db'"
  shows "(\<forall>v \<in> set (version_rows db). v_state v = VPublished \<or> v_state v = VSuperseded \<longrightarrow>
      content (v_id v) db' = content (v_id v) db \<and>
      (\<exists>v' \<in> set (version_rows db'). v' = v \<or> (v_state v = VPublished \<and>
         (\<exists>w. v' = v\<lparr>v_state := VSuperseded, v_current := False, v_supersededBy := Some w\<rparr>)))) \<and>
    (\<exists>new. publication_rows db' = publication_rows db @ new)"
proof -
  have "history_kept db db'"
    using schedule_steps_inv[OF assms(1,3) schedule_reachable_inv[OF assms(1,2)]] by simp
  then show ?thesis unfolding history_kept_def same_history_def frozen_def by simp
qed

theorem published_history_frozen_witness:
  "map v_state (version_rows sample_published) = [VPublished] \<and>
   list_all (\<lambda>v. content (v_id v) sample_superseded = content (v_id v) sample_published) (version_rows sample_published)"
proof -
  have n: "map v_state (version_rows sample_published) = [VPublished]" unfolding sample_published_state by code_simp
  then have "\<forall>v \<in> set (version_rows sample_published). v_state v = VPublished" by (auto simp: map_eq_Cons_conv)
  then show ?thesis
    using published_history_frozen[OF sample_uuid_inj sample_reachable(2) sample_steps] n by (simp add: list_all_iff)
qed

section \<open>Replay\<close>

text \<open>C6: once a publication has succeeded under an idempotency key, any later request of the period under that
  key, at whatever state the services have reached since, does nothing: the same request is answered with the
  number, the prior version and the affected members of the first, and another version, operation or request is
  refused.\<close>
theorem publish_key_bound:
  assumes "inj uuid" "schedule_reachable uuid db" "publishVersion h tables permit input db = Inr (res, db1)"
    "\<not> ps_replay res" "schedule_steps uuid db1 db2" "permit' (action_key PublishAction)"
    "pi_period input' = pi_period input" "pi_key input' = pi_key input"
  shows "publishVersion h tables' permit' input' db2 =
    (if pi_version input' \<noteq> pi_version input
     then Inl (SchedulePreconditionError ''IDEMPOTENCY_KEY_REUSED_FOR_DIFFERENT_VERSION'')
     else if operation_type input' \<noteq> operation_type input
     then Inl (SchedulePreconditionError ''IDEMPOTENCY_KEY_REUSED_FOR_DIFFERENT_OPERATION'')
     else if semantic_digest h input' \<noteq> semantic_digest h input
     then Inl (SchedulePreconditionError ''IDEMPOTENCY_KEY_REUSED_FOR_DIFFERENT_REQUEST'')
     else Inr (res\<lparr>ps_replay := True, ps_outbox := None,
       ps_difference := \<lparr>vd_changes = [], vd_affected = vd_affected (ps_difference res)\<rparr>\<rparr>, db2))"
  unfolding replay_of_def[symmetric]
  by (rule replay_after) (rule assms(1) schedule_reachable_inv[OF assms(1,2)] assms(3-8))+

lemma sample_publish_fresh:
  obtains res where
    "publishVersion sample_host sample_tables anyone first_publish sample_approved = Inr (res, sample_published)"
    "\<not> ps_replay res" "ps_number res = 1"
proof -
  have "(case publishVersion sample_host sample_tables anyone first_publish sample_approved of
      Inl _ \<Rightarrow> False | Inr (res, _) \<Rightarrow> \<not> ps_replay res \<and> ps_number res = 1)"
    unfolding sample_approved_state by code_simp
  then show thesis
    using accepted_Inr[OF sample_accepted_publication(1)] by (auto simp: sample_published_def intro: that)
qed

theorem publish_key_bound_witness:
  "\<exists>res. ps_number res = 1 \<and> ps_replay res \<and>
     publishVersion sample_host sample_tables anyone first_publish sample_superseded = Inr (res, sample_superseded)"
proof -
  obtain res where r: "publishVersion sample_host sample_tables anyone first_publish sample_approved = Inr (res, sample_published)"
    "\<not> ps_replay res" "ps_number res = 1" by (rule sample_publish_fresh)
  have "publishVersion sample_host sample_tables anyone first_publish sample_superseded =
      Inr (res\<lparr>ps_replay := True, ps_outbox := None,
        ps_difference := \<lparr>vd_changes = [], vd_affected = vd_affected (ps_difference res)\<rparr>\<rparr>, sample_superseded)"
    using publish_key_bound[OF sample_uuid_inj sample_reachable(1) r(1,2) sample_steps, of anyone first_publish sample_tables]
    by (simp add: anyone_def)
  then show ?thesis using r(3) by (intro exI[of _ "res\<lparr>ps_replay := True, ps_outbox := None,
        ps_difference := \<lparr>vd_changes = [], vd_affected = vd_affected (ps_difference res)\<rparr>\<rparr>"]) simp
qed

section \<open>What a published version has passed\<close>

text \<open>C1: a publication that is no replay has found the version in the expected state, unlocked, in a fresh time
  zone and without an open hard breach; every active hard rule is satisfied by its assignments and every required
  qualification is held; the caller has named the version that was current. Then the version is the current one
  under the next number, that one is superseded by it, and no other version row has changed.\<close>
theorem publication_sound:
  assumes "inj uuid" "schedule_reachable uuid db" "publishVersion h tables permit input db = Inr (res, db')"
    "\<not> ps_replay res"
  shows "\<exists>v. find_version (pi_version input) db = Some v \<and> v_period v = pi_period input \<and>
    v_state v = expected_state input \<and> v_lock v = Unlocked \<and> permit ''schedule.publish'' \<and>
    basis_fresh (pi_version input) db \<and> no_open_hard_breach (pi_version input) db \<and>
    revalidated (host_dateParse h) tables (pi_version input) db \<and>
    pi_expectedPrior input = current_id (pi_period input) (version_rows db) \<and>
    ps_number res = int (length (numbers (pi_period input) (version_rows db))) + 1 \<and>
    version_rows db' = map (\<lambda>w.
      if v_id w = pi_version input
      then w\<lparr>v_state := VPublished, v_current := True, v_number := Some (ps_number res)\<rparr>
      else if pi_expectedPrior input = Some (v_id w)
      then w\<lparr>v_state := VSuperseded, v_current := False, v_supersededBy := Some (pi_version input)\<rparr>
      else w) (version_rows db)"
proof -
  have inv: "ids_ok uuid db" "published_ok db"
    using schedule_reachable_inv[OF assms(1,2)] by (simp_all add: schedule_inv_def)
  obtain v where f: "find_version (pi_version input) db = Some v" "v_period v = pi_period input"
    "v_state v = expected_state input" "v_lock v = Unlocked" "basis_fresh (pi_version input) db"
    "no_open_hard_breach (pi_version input) db" "revalidated (host_dateParse h) tables (pi_version input) db"
    "permit (action_key PublishAction)" "pi_expectedPrior input = current_id (pi_period input) (version_rows db)"
    "publish_effect v (next_number (pi_period input) db) (pi_expectedPrior input)
       (publication_row h input (next_number (pi_period input) db) (pi_expectedPrior input) (vd_affected (ps_difference res)))
       db db'" "ps_number res = next_number (pi_period input) db"
    by (rule publishVersion_fresh[OF inv assms(3,4)]) (rule that; assumption)
  have "next_number (pi_period input) db = int (length (numbers (pi_period input) (version_rows db))) + 1"
    using inv(2) by (intro next_number_chain) (simp add: published_ok_def)
  moreover have "v_id v = pi_version input" using find_version_mem(2)[OF f(1)] .
  ultimately show ?thesis
    using f by (intro exI[of _ v]) (simp add: publish_effect_def publish_row_def)
qed

theorem publication_sound_witness:
  "no_open_hard_breach (pi_version first_publish) sample_approved \<and>
   revalidated (host_dateParse sample_host) sample_tables (pi_version first_publish) sample_approved"
  by (rule sample_publish_fresh)
    (use publication_sound[OF sample_uuid_inj sample_reachable(1)] in blast)

end
