(* ===== verification/ScheduleClone.thy ===== *)
theory ScheduleClone
  imports PublicationFacts
begin

text \<open>
  What \<open>cloneVersion\<close> of \<open>schedule/service.ts\<close> copies: a clone is, for the reader of its assignments, the version
  it was made from, so that a clone published unchanged changes nothing.
\<close>

section \<open>The three copying loops\<close>

definition shift_copy :: "string \<Rightarrow> ShiftRow \<Rightarrow> ShiftRow \<Rightarrow> bool" where
  "shift_copy r sh sh' \<longleftrightarrow> sh' = sh\<lparr>sh_id := sh_id sh', sh_version := r\<rparr>"

lemma clone_shift_Inr:
  "clone_shift uuid r sh db = Inr (p, db') \<longleftrightarrow> p = (sh_id sh, uuid (draws db)) \<and>
     db' = db\<lparr>draws := draws db + 1, shift_rows := shift_rows db @ [sh\<lparr>sh_id := uuid (draws db), sh_version := r\<rparr>]\<rparr>"
  by (auto simp: seq_Inr clone_shift_def randomUUID_def)

lemma clone_shifts:
  "for_each (clone_shift uuid r) shs db = Inr (pairs, db') \<Longrightarrow>
   \<exists>new. list_all2 (shift_copy r) shs new \<and> pairs = map2 (\<lambda>sh sh'. (sh_id sh, sh_id sh')) shs new \<and>
     (\<exists>k. db' = db\<lparr>shift_rows := shift_rows db @ new, draws := k\<rparr>)"
proof (induction shs arbitrary: db pairs)
  case Nil
  then show ?case by (intro exI[of _ "[]"] conjI exI[of _ "draws db"]) simp_all
next
  case (Cons sh shs)
  let ?sh = "sh\<lparr>sh_id := uuid (draws db), sh_version := r\<rparr>"
  let ?db = "db\<lparr>draws := draws db + 1, shift_rows := shift_rows db @ [?sh]\<rparr>"
  obtain ps where ps: "pairs = (sh_id sh, uuid (draws db)) # ps" "for_each (clone_shift uuid r) shs ?db = Inr (ps, db')"
    using Cons.prems by (auto simp: seq_Inr clone_shift_Inr)
  obtain new k where new: "list_all2 (shift_copy r) shs new" "ps = map2 (\<lambda>sh sh'. (sh_id sh, sh_id sh')) shs new"
      "db' = ?db\<lparr>shift_rows := shift_rows ?db @ new, draws := k\<rparr>"
    using Cons.IH[OF ps(2)] by auto
  show ?case
    by (intro exI[of _ "?sh # new"] conjI exI[of _ k])
      (use new ps(1) in \<open>simp_all add: shift_copy_def [of r sh]\<close>)
qed

definition snapshot_copy :: "string \<Rightarrow> (string \<times> string) list \<Rightarrow> SnapshotRow \<Rightarrow> SnapshotRow \<Rightarrow> bool" where
  "snapshot_copy r pairs sn sn' \<longleftrightarrow> map_of (rev pairs) (sn_shift sn) = Some (sn_shift sn') \<and>
     sn' = sn\<lparr>sn_id := sn_id sn', sn_version := r, sn_shift := sn_shift sn', sn_origin := OriginClone,
       sn_supersedes := Some (sn_id sn)\<rparr>"

lemma clone_snapshot_Inr:
  assumes "clone_snapshot uuid r pairs sn db = Inr (u, db')"
  obtains c where "map_of (rev pairs) (sn_shift sn) = Some c"
    "db' = db\<lparr>draws := draws db + 1, snapshot_rows := snapshot_rows db @
        [sn\<lparr>sn_id := uuid (draws db), sn_version := r, sn_shift := c, sn_origin := OriginClone,
          sn_supersedes := Some (sn_id sn)\<rparr>]\<rparr>"
  using assms by (auto simp: seq_Inr clone_snapshot_def randomUUID_def insert_snapshot_def)

lemma clone_snapshots:
  "for_each (clone_snapshot uuid r pairs) sns db = Inr (us, db') \<Longrightarrow>
   \<exists>new. list_all2 (snapshot_copy r pairs) sns new \<and>
     (\<exists>k. db' = db\<lparr>snapshot_rows := snapshot_rows db @ new, draws := k\<rparr>)"
proof (induction sns arbitrary: db us)
  case Nil
  then show ?case by (intro exI[of _ "[]"] conjI exI[of _ "draws db"]) simp_all
next
  case (Cons sn sns)
  obtain c us' where c: "map_of (rev pairs) (sn_shift sn) = Some c"
    and rest: "for_each (clone_snapshot uuid r pairs) sns (db\<lparr>draws := draws db + 1, snapshot_rows := snapshot_rows db @
        [sn\<lparr>sn_id := uuid (draws db), sn_version := r, sn_shift := c, sn_origin := OriginClone,
          sn_supersedes := Some (sn_id sn)\<rparr>]\<rparr>) = Inr (us', db')"
    using Cons.prems by (fastforce simp: seq_Inr elim: clone_snapshot_Inr)
  let ?sn = "sn\<lparr>sn_id := uuid (draws db), sn_version := r, sn_shift := c, sn_origin := OriginClone,
      sn_supersedes := Some (sn_id sn)\<rparr>"
  obtain new k where new: "list_all2 (snapshot_copy r pairs) sns new"
      "db' = db\<lparr>snapshot_rows := (snapshot_rows db @ [?sn]) @ new, draws := k\<rparr>"
    using Cons.IH[OF rest] by auto
  show ?case
    by (intro exI[of _ "?sn # new"] conjI exI[of _ k])
      (use new c in \<open>simp_all add: snapshot_copy_def [of r pairs sn]\<close>)
qed

definition credit_copy :: "string \<Rightarrow> CreditRow \<Rightarrow> CreditRow \<Rightarrow> bool" where
  "credit_copy r cr cr' \<longleftrightarrow> cr' = cr\<lparr>cr_id := cr_id cr', cr_version := r, cr_snapshot := cr_snapshot cr'\<rparr>"

lemma clone_credits:
  "for_each (clone_credit uuid r f) crs db = Inr (ns, db') \<Longrightarrow>
   \<exists>new. list_all2 (credit_copy r) (filter (\<lambda>c. f (cr_identity c) \<noteq> None) crs) new \<and>
     (\<exists>k. db' = db\<lparr>credit_rows := credit_rows db @ new, draws := k\<rparr>)"
proof (induction crs arbitrary: db ns)
  case Nil
  then show ?case by (intro exI[of _ "[]"] conjI exI[of _ "draws db"]) simp_all
next
  case (Cons cr crs)
  obtain n db1 ns' where 1: "clone_credit uuid r f cr db = Inr (n, db1)"
    and rest: "for_each (clone_credit uuid r f) crs db1 = Inr (ns', db')"
    using Cons.prems by (auto simp: seq_Inr)
  obtain new k where new: "list_all2 (credit_copy r) (filter (\<lambda>c. f (cr_identity c) \<noteq> None) crs) new"
      "db' = db1\<lparr>credit_rows := credit_rows db1 @ new, draws := k\<rparr>"
    using Cons.IH[OF rest] by auto
  show ?case
  proof (cases "f (cr_identity cr)")
    case None
    then have "db1 = db" using 1 by (auto simp: clone_credit_def)
    then show ?thesis using new None by auto
  next
    case (Some i)
    let ?cr = "cr\<lparr>cr_id := uuid (draws db), cr_version := r, cr_snapshot := i\<rparr>"
    have "db1 = db\<lparr>draws := draws db + 1, credit_rows := credit_rows db @ [?cr]\<rparr>"
      using 1 Some by (auto simp: clone_credit_def seq_Inr randomUUID_def)
    then show ?thesis using new Some
      by (intro exI[of _ "?cr # new"] conjI exI[of _ k]) (simp_all add: credit_copy_def [of r cr])
  qed
qed

text \<open>The tables after a clone.\<close>
lemma cloneVersion_copies:
  assumes "cloneVersion uuid permit s db = Inr (r, db')"
  shows "\<exists>shs sns crs (f :: string \<rightharpoonup> string) pairs.
    list_all2 (shift_copy r) (filter (\<lambda>x. sh_version x = s) (shift_rows db)) shs \<and>
    pairs = map2 (\<lambda>sh sh'. (sh_id sh, sh_id sh')) (filter (\<lambda>x. sh_version x = s) (shift_rows db)) shs \<and>
    list_all2 (snapshot_copy r pairs) (filter (\<lambda>x. sn_version x = s) (snapshot_rows db)) sns \<and>
    list_all2 (credit_copy r) (filter (\<lambda>c. f (cr_identity c) \<noteq> None) (filter (\<lambda>c. cr_version c = s) (credit_rows db))) crs \<and>
    dom f = sn_identity ` {x \<in> set (snapshot_rows db @ sns). sn_version x = r} \<and>
    shift_rows db' = shift_rows db @ shs \<and> snapshot_rows db' = snapshot_rows db @ sns \<and>
    credit_rows db' = credit_rows db @ crs \<and> r = uuid (draws db)"
proof -
  let ?shifts = "filter (\<lambda>x. sh_version x = s) (shift_rows db)"
  let ?sns = "filter (\<lambda>x. sn_version x = s) (snapshot_rows db)"
  obtain dbA pairs dbB us dbC n dbD where
    dbA: "shift_rows dbA = shift_rows db" "snapshot_rows dbA = snapshot_rows db" "credit_rows dbA = credit_rows db"
    and c1: "for_each (clone_shift uuid r) ?shifts dbA = Inr (pairs, dbB)"
    and c2: "for_each (clone_snapshot uuid r pairs) (filter (\<lambda>x. sn_version x = s) (snapshot_rows dbB)) dbB = Inr (us, dbC)"
    and c3: "cloneCredits uuid s r dbC = Inr (n, dbD)"
    and db': "shift_rows db' = shift_rows dbD" "snapshot_rows db' = snapshot_rows dbD" "credit_rows db' = credit_rows dbD"
    and r: "r = uuid (draws db)"
  proof -
    obtain v dbA pairs dbB us dbC n dbD where "insert_version v (db\<lparr>draws := draws db + 1\<rparr>) = Inr ((), dbA)"
      "for_each (clone_shift uuid r) (filter (\<lambda>x. sh_version x = s) (shift_rows dbA)) dbA = Inr (pairs, dbB)"
      "for_each (clone_snapshot uuid r pairs) (filter (\<lambda>x. sn_version x = s) (snapshot_rows dbB)) dbB = Inr (us, dbC)"
      "cloneCredits uuid s r dbC = Inr (n, dbD)" "recordAudit ''schedule.version.created'' r dbD = Inr ((), db')"
      "r = uuid (draws db)"
      using assms unfolding cloneVersion_def by (auto simp: seq_Inr randomUUID_def)
    then show thesis
      by (intro that[of dbA pairs dbB us dbC n dbD])
        (auto simp: insert_version_def seq_Inr recordAudit_def dest!: period_open_guard_Inr)
  qed
  obtain shs k where shs: "list_all2 (shift_copy r) ?shifts shs" "pairs = map2 (\<lambda>sh sh'. (sh_id sh, sh_id sh')) ?shifts shs"
      and dbB: "dbB = dbA\<lparr>shift_rows := shift_rows dbA @ shs, draws := k\<rparr>"
    using clone_shifts[OF c1] by blast
  obtain sns k where sns: "list_all2 (snapshot_copy r pairs) ?sns sns"
      and dbC: "dbC = dbB\<lparr>snapshot_rows := snapshot_rows dbB @ sns, draws := k\<rparr>"
    using clone_snapshots[OF c2] by (auto simp: dbB dbA)
  let ?f = "map_of (rev (map (\<lambda>x. (sn_identity x, sn_id x)) (filter (\<lambda>x. sn_version x = r) (snapshot_rows dbC))))"
  have "\<exists>crs. list_all2 (credit_copy r) (filter (\<lambda>c. ?f (cr_identity c) \<noteq> None) (filter (\<lambda>c. cr_version c = s) (credit_rows dbC))) crs \<and>
      (\<exists>k. dbD = dbC\<lparr>credit_rows := credit_rows dbC @ crs, draws := k\<rparr>)"
  proof (cases "filter (\<lambda>c. cr_version c = s) (credit_rows dbC) = []")
    case True
    then have "dbD = dbC" using c3 by (auto simp: cloneCredits_def seq_Inr)
    with True show ?thesis by (intro exI[of _ "[]"] conjI exI[of _ "draws dbC"]) simp_all
  next
    case False
    then obtain ns where "for_each (clone_credit uuid r ?f) (filter (\<lambda>c. cr_version c = s) (credit_rows dbC)) dbC = Inr (ns, dbD)"
      using c3 by (auto simp: cloneCredits_def seq_Inr Let_def)
    then show ?thesis by (rule clone_credits)
  qed
  then obtain crs k where crs: "list_all2 (credit_copy r)
        (filter (\<lambda>c. ?f (cr_identity c) \<noteq> None) (filter (\<lambda>c. cr_version c = s) (credit_rows db))) crs"
      and dbD: "dbD = dbC\<lparr>credit_rows := credit_rows dbC @ crs, draws := k\<rparr>"
    by (auto simp: dbC dbB dbA)
  have "dom ?f = sn_identity ` {x \<in> set (snapshot_rows db @ sns). sn_version x = r}"
    by (auto simp: dom_map_of_conv_image_fst image_image dbC dbB dbA)
  note dom = this
  show ?thesis
  proof (rule exI[of _ shs], rule exI[of _ sns], rule exI[of _ crs], rule exI[of _ ?f], rule exI[of _ pairs], intro conjI)
    show "list_all2 (credit_copy r)
        (filter (\<lambda>c. ?f (cr_identity c) \<noteq> None) (filter (\<lambda>c. cr_version c = s) (credit_rows db))) crs" by (rule crs)
    show "list_all2 (snapshot_copy r pairs) ?sns sns" by (rule sns)
    show "list_all2 (shift_copy r) ?shifts shs" by (rule shs)
    show "pairs = map2 (\<lambda>sh sh'. (sh_id sh, sh_id sh')) ?shifts shs" by (rule shs)
    show "dom ?f = sn_identity ` {x \<in> set (snapshot_rows db @ sns). sn_version x = r}" by (rule dom)
    show "r = uuid (draws db)" by (rule r)
  qed (simp_all add: db' dbD dbC dbB dbA)
qed

section \<open>The clone reads as its source\<close>

text \<open>The rows of \<open>activeSnapshotsOf\<close> that one snapshot gives.\<close>
definition reading_rows :: "SnapshotRow \<Rightarrow> ShiftRow \<Rightarrow> (string \<times> string) list \<Rightarrow> DiffSnapshot list" where
  "reading_rows s sh credits =
     (let row = (\<lambda>credited w. \<lparr>ds_identity = sn_identity s, ds_member = sn_member s, ds_starts = sn_starts s,
              ds_ends = sn_ends s, ds_status = sn_status s, ds_date = sn_date s, ds_type = sh_type sh,
              ds_location = sh_location sh, ds_pinned = sn_pinned s, ds_credited = credited, ds_weight = w\<rparr>)
      in if credits = [] then [row None None] else map (\<lambda>(m, w). row (Some m) (Some w)) credits)"

definition credits_of :: "string \<Rightarrow> string \<Rightarrow> CreditRow list \<Rightarrow> (string \<times> string) list" where
  "credits_of i x crs = map (\<lambda>c. (cr_member c, cr_weight c))
     (filter (\<lambda>c. cr_identity c = x \<and> cr_version c = i \<and> cr_status c \<noteq> CreditVoided) crs)"

definition snapshot_reading :: "string \<Rightarrow> ScheduleDb \<Rightarrow> SnapshotRow \<Rightarrow> DiffSnapshot list" where
  "snapshot_reading i db s = concat (map (\<lambda>sh. reading_rows s sh (credits_of i (sn_identity s) (credit_rows db)))
     (filter (\<lambda>sh. sh_id sh = sn_shift s) (shift_rows db)))"

lemma activeSnapshotsOf_reading:
  "activeSnapshotsOf i db = concat (map (snapshot_reading i db) (filter (\<lambda>s. sn_version s = i) (snapshot_rows db)))"
  by (simp add: activeSnapshotsOf_def snapshot_reading_def[abs_def] reading_rows_def credits_of_def Let_def comp_def
      cong: if_cong)

lemma concat_list_all2: "list_all2 (\<lambda>x y. f x = g y) xs ys \<Longrightarrow> concat (map f xs) = concat (map g ys)"
  by (induction rule: list_all2_induct) auto

lemma copies_filter:
  assumes "list_all2 (credit_copy r) crs new" "\<And>c. cr_version c = r \<Longrightarrow> c \<notin> set old"
  shows "credits_of r x (old @ new) =
    map (\<lambda>c. (cr_member c, cr_weight c)) (filter (\<lambda>c. cr_identity c = x \<and> cr_status c \<noteq> CreditVoided) crs)"
proof -
  have "filter (\<lambda>c. cr_identity c = x \<and> cr_version c = r \<and> cr_status c \<noteq> CreditVoided) old = []"
    using assms(2) by (auto simp: filter_empty_conv)
  moreover have "map (\<lambda>c. (cr_member c, cr_weight c))
      (filter (\<lambda>c. cr_identity c = x \<and> cr_version c = r \<and> cr_status c \<noteq> CreditVoided) new) =
    map (\<lambda>c. (cr_member c, cr_weight c)) (filter (\<lambda>c. cr_identity c = x \<and> cr_status c \<noteq> CreditVoided) crs)"
    using assms(1)
  proof (induction rule: list_all2_induct)
    case (Cons c cs d ds)
    have "cr_identity d = cr_identity c \<and> cr_version d = r \<and> cr_status d = cr_status c \<and>
        cr_member d = cr_member c \<and> cr_weight d = cr_weight c"
    proof -
      obtain i k where "d = c\<lparr>cr_id := i, cr_version := r, cr_snapshot := k\<rparr>"
        using Cons(1) unfolding credit_copy_def by blast
      then show ?thesis by simp
    qed
    then show ?case using Cons(3) by simp
  qed simp
  ultimately show ?thesis by (simp add: credits_of_def)
qed

lemma shift_of_id:
  assumes "distinct (map sh_id shs)" "sh \<in> set shs"
  shows "filter (\<lambda>x. sh_id x = sh_id sh) shs = [sh]"
  using assms
proof (induction shs)
  case (Cons x xs)
  then show ?case
  proof (cases "sh = x")
    case True
    with Cons.prems have "\<forall>y \<in> set xs. sh_id y \<noteq> sh_id sh" by (auto simp: image_iff)
    then show ?thesis using True by (simp add: filter_empty_conv)
  next
    case False
    with Cons.prems have "sh \<in> set xs" "sh_id x \<noteq> sh_id sh" by (auto simp: image_iff)
    then show ?thesis using Cons by simp
  qed
qed simp

lemma map_of_rev_pairs:
  assumes "map_of (rev (map2 (\<lambda>x y. (f x, f y)) xs ys)) k = Some k'" "length xs = length ys"
  obtains x y where "(x, y) \<in> set (zip xs ys)" "k = f x" "k' = f y"
proof -
  have "(k, k') \<in> set (map2 (\<lambda>x y. (f x, f y)) xs ys)" using map_of_SomeD[OF assms(1)] by simp
  then show thesis by (auto intro: that)
qed

section \<open>No content without its version\<close>

definition no_content :: VersionContent where
  "no_content = \<lparr>vc_shifts = [], vc_snapshots = [], vc_credits = [], vc_conflicts = []\<rparr>"

definition no_orphans :: "ScheduleDb \<Rightarrow> bool" where
  "no_orphans db \<longleftrightarrow> (\<forall>j. j \<notin> set (map v_id (version_rows db)) \<longrightarrow> content j db = no_content)"

lemma no_orphans_quiet: "quiet uuid db db' \<Longrightarrow> no_orphans db \<Longrightarrow> no_orphans db'"
  by (simp add: no_orphans_def quiet_def published_part_def)

lemma no_orphans_effect:
  assumes "schedule_inv uuid db" "schedule_effect uuid db db'" "no_orphans db"
  shows "no_orphans db'"
  using assms(2)
proof cases
  case (editing i)
  then obtain v where "find_version i db = Some v" by (auto simp: draft_in_def)
  then have "i \<in> set (map v_id (version_rows db))" using find_version_mem by fastforce
  then show ?thesis using editing(1) assms(3) unfolding no_orphans_def edits_def published_part_def
    by (metis fst_conv)
next
  case quietly
  then show ?thesis using no_orphans_quiet assms(3) by blast
next
  case (creating v)
  then show ?thesis using assms(3) by (auto simp: no_orphans_def new_version_def)
next
  case (moving i v f)
  have "map v_id (version_rows (update_version i f db)) = map v_id (version_rows db)"
    using moving(3) by (simp add: update_version_def)
  moreover have "content j (update_version i f db) = content j db" for j
    by (simp add: content_def update_version_def)
  ultimately have "no_orphans (update_version i f db)" using assms(3) by (simp add: no_orphans_def del: set_map)
  then show ?thesis using no_orphans_quiet moving(5) by blast
next
  case (publishing h tables permit pin res db1)
  have "no_orphans db1"
  proof (cases "ps_replay res")
    case True
    then show ?thesis using publishVersion_replay[OF publishing(1)] assms(3) by simp
  next
    case False
    have inv: "ids_ok uuid db" "published_ok db" using assms(1) by (simp_all add: schedule_inv_def)
    obtain v rec where "publish_effect v (next_number (pi_period pin) db) (pi_expectedPrior pin) rec db db1"
      by (rule publishVersion_fresh[OF inv publishing(1) False]) (rule that; assumption)
    then show ?thesis using assms(3) by (simp add: no_orphans_def publish_effect_def content_def image_image)
  qed
  then show ?thesis using no_orphans_quiet publishing(2) by blast
qed

interpretation orphans: step_system "\<lambda>db. inj uuid \<and> no_schedule db" "schedule_step uuid"
    "\<lambda>db. inj uuid \<and> schedule_inv uuid db \<and> no_orphans db" "\<lambda>_ _. True" for uuid
proof
  show "inj uuid \<and> schedule_inv uuid s \<and> no_orphans s" if "inj uuid \<and> no_schedule s" for s
    using that no_schedule_inv by (simp add: no_orphans_def no_schedule_def content_def no_content_def)
  show "inj uuid \<and> schedule_inv uuid t \<and> no_orphans t"
    if "schedule_step uuid s t" "inj uuid \<and> schedule_inv uuid s \<and> no_orphans s" for s t
    using that schedule_effect_inv schedule_step_effect no_orphans_effect by blast
qed simp_all

section \<open>Fidelity\<close>

lemma shift_copyD: "shift_copy r sh sh' \<Longrightarrow> sh_type sh' = sh_type sh \<and> sh_location sh' = sh_location sh"
  unfolding shift_copy_def by (cases sh; cases sh') simp

lemma credit_copyD: "credit_copy r cr cr' \<Longrightarrow> cr_version cr' = r"
  unfolding credit_copy_def by (cases cr; cases cr') simp

lemma snapshot_copyD:
  "snapshot_copy r pairs sn sn' \<Longrightarrow> map_of (rev pairs) (sn_shift sn) = Some (sn_shift sn') \<and>
     sn_version sn' = r \<and> sn_identity sn' = sn_identity sn \<and> sn_member sn' = sn_member sn \<and>
     sn_starts sn' = sn_starts sn \<and> sn_ends sn' = sn_ends sn \<and> sn_status sn' = sn_status sn \<and>
     sn_date sn' = sn_date sn \<and> sn_pinned sn' = sn_pinned sn"
  unfolding snapshot_copy_def by (cases sn; cases sn') simp

lemma list_all2_set2: "list_all2 P xs ys \<Longrightarrow> y \<in> set ys \<Longrightarrow> \<exists>x \<in> set xs. P x y"
  by (induction rule: list_all2_induct) auto

lemma list_all2_set1: "list_all2 P xs ys \<Longrightarrow> x \<in> set xs \<Longrightarrow> \<exists>y \<in> set ys. P x y"
  by (induction rule: list_all2_induct) auto

lemma reading_of_shift:
  assumes "distinct (map sh_id (shift_rows db))" "sh \<in> set (shift_rows db)" "sh_id sh = sn_shift s"
  shows "snapshot_reading i db s = reading_rows s sh (credits_of i (sn_identity s) (credit_rows db))"
  using shift_of_id[OF assms(1,2)] by (simp add: snapshot_reading_def assms(3))

lemma clone_reading:
  assumes "inj uuid" "schedule_inv uuid db" "no_orphans db" "cloneVersion uuid permit s db = Inr (r, db')"
  shows "activeSnapshotsOf r db' = activeSnapshotsOf s db \<and> activeSnapshotsOf s db' = activeSnapshotsOf s db"
proof -
  let ?shifts = "filter (\<lambda>x. sh_version x = s) (shift_rows db)"
  let ?sns = "filter (\<lambda>x. sn_version x = s) (snapshot_rows db)"
  obtain v where new: "new_version uuid db v db'" "v_id v = r" using cloneVersion_new[OF assms(4)] by blast
  have ids': "ids_ok uuid db'" and ids: "ids_ok uuid db"
    using new_version_inv[OF assms(1,2) new(1)] assms(2) by (simp_all add: schedule_inv_def)
  obtain shs sns crs and f :: "string \<rightharpoonup> string" and pairs where shs: "list_all2 (shift_copy r) ?shifts shs"
    and pairs: "pairs = map2 (\<lambda>sh sh'. (sh_id sh, sh_id sh')) ?shifts shs"
    and sns: "list_all2 (snapshot_copy r pairs) ?sns sns"
    and crs: "list_all2 (credit_copy r)
      (filter (\<lambda>c. f (cr_identity c) \<noteq> None) (filter (\<lambda>c. cr_version c = s) (credit_rows db))) crs"
    and dom: "dom f = sn_identity ` {x \<in> set (snapshot_rows db @ sns). sn_version x = r}"
    and db': "shift_rows db' = shift_rows db @ shs" "snapshot_rows db' = snapshot_rows db @ sns"
      "credit_rows db' = credit_rows db @ crs"
    using cloneVersion_copies[OF assms(4)] by blast
  have rn: "r \<notin> set (map v_id (version_rows db))"
    using ids_ok_distinct(1)[OF ids'] new by (simp add: new_version_def)
  then have "content r db = no_content" using assms(3) by (simp add: no_orphans_def del: set_map)
  then have none: "filter (\<lambda>x. sn_version x = r) (snapshot_rows db) = []" "filter (\<lambda>c. cr_version c = r) (credit_rows db) = []"
    by (simp_all add: content_def no_content_def)
  have "find_version s db \<noteq> None" using assms(4) unfolding cloneVersion_def by (auto simp: seq_Inr)
  then have sr: "s \<noteq> r" using rn find_version_mem by fastforce
  have shift: "\<exists>sh sh'. sh \<in> set (shift_rows db) \<and> sh' \<in> set shs \<and> sh_id sh = sn_shift sn \<and> sh_id sh' = sn_shift sn' \<and>
      shift_copy r sh sh'" if "snapshot_copy r pairs sn sn'" for sn sn'
  proof -
    have "map_of (rev (map2 (\<lambda>x y. (sh_id x, sh_id y)) ?shifts shs)) (sn_shift sn) = Some (sn_shift sn')"
      using snapshot_copyD[OF that] pairs by simp
    then obtain sh sh' where z: "(sh, sh') \<in> set (zip ?shifts shs)" "sn_shift sn = sh_id sh" "sn_shift sn' = sh_id sh'"
      using list_all2_lengthD[OF shs] by (rule map_of_rev_pairs)
    have "shift_copy r sh sh'" using shs z(1) by (auto simp: list_all2_iff)
    then show ?thesis using z set_zip_leftD[OF z(1)] set_zip_rightD[OF z(1)] by (intro exI[of _ sh] exI[of _ sh']) simp
  qed
  have d: "distinct (map sh_id (shift_rows db))" "distinct (map sh_id (shift_rows db'))"
    using ids_ok_distinct(3) ids ids' by blast+
  have same: "snapshot_reading r db' sn' = snapshot_reading s db sn" if c: "snapshot_copy r pairs sn sn'" "sn' \<in> set sns" for sn sn'
  proof -
    obtain sh sh' where sh: "sh \<in> set (shift_rows db)" "sh' \<in> set shs" "sh_id sh = sn_shift sn" "sh_id sh' = sn_shift sn'"
        "shift_copy r sh sh'" using shift[OF c(1)] by blast
    note sc = snapshot_copyD[OF c(1)] and hc = shift_copyD[OF sh(5)]
    have "sn_identity sn \<in> dom f" unfolding dom using c(2) sc by (intro image_eqI[of _ _ sn']) simp_all
    then have inf: "f (sn_identity sn) \<noteq> None" by blast
    have "credits_of r (sn_identity sn) (credit_rows db @ crs) =
      map (\<lambda>c. (cr_member c, cr_weight c)) (filter (\<lambda>c. cr_identity c = sn_identity sn \<and> cr_status c \<noteq> CreditVoided)
        (filter (\<lambda>c. f (cr_identity c) \<noteq> None) (filter (\<lambda>c. cr_version c = s) (credit_rows db))))"
      using none(2) by (intro copies_filter[OF crs]) (auto simp: filter_empty_conv)
    also have "\<dots> = credits_of s (sn_identity sn) (credit_rows db)"
      using inf by (auto simp: credits_of_def filter_filter intro!: arg_cong[where f = "map _"] filter_cong)
    finally have "credits_of r (sn_identity sn') (credit_rows db') = credits_of s (sn_identity sn) (credit_rows db)"
      using sc db'(3) by simp
    moreover have "reading_rows sn' sh' cs = reading_rows sn sh cs" for cs
      using sc hc by (simp add: reading_rows_def)
    ultimately show ?thesis
      using reading_of_shift[OF d(1) sh(1,3)] reading_of_shift[OF d(2) _ sh(4)] sh(2) db'(1) by simp
  qed
  have mine: "filter (\<lambda>x. sn_version x = r) (snapshot_rows db') = sns"
    using none(1) list_all2_set2[OF sns] snapshot_copyD by (fastforce simp: db' filter_id_conv)
  have "activeSnapshotsOf r db' = activeSnapshotsOf s db"
    unfolding activeSnapshotsOf_reading mine
    using sns same by (intro concat_list_all2[symmetric]) (auto simp: list_all2_conv_all_nth)
  moreover have "activeSnapshotsOf s db' = activeSnapshotsOf s db"
  proof -
    have c: "content s db' = content s db" using new sr by (simp add: new_version_def)
    have other: "cr_version c \<noteq> s" if "c \<in> set crs" for c
      using list_all2_set2[OF crs that] credit_copyD sr by metis
    have "snapshot_reading s db' sn = snapshot_reading s db sn" if m: "sn \<in> set ?sns" for sn
    proof -
      obtain sn' where "snapshot_copy r pairs sn sn'" using list_all2_set1[OF sns m] by blast
      then obtain sh where sh: "sh \<in> set (shift_rows db)" "sh_id sh = sn_shift sn" using shift by blast
      have "credits_of s x (credit_rows db') = credits_of s x (credit_rows db)" for x
        using other by (simp add: credits_of_def db'(3) filter_empty_conv)
      then show ?thesis using reading_of_shift[OF d(1) sh] reading_of_shift[OF d(2) _ sh(2)] sh(1) db'(1) by simp
    qed
    moreover have "filter (\<lambda>x. sn_version x = s) (snapshot_rows db') = ?sns"
      using c by (simp add: content_def)
    ultimately show ?thesis
      unfolding activeSnapshotsOf_reading by (metis (no_types, lifting) map_cong)
  qed
  ultimately show ?thesis by simp
qed

lemma difference_self: "vd_changes (differenceByIdentity rows rows) = []"
proof -
  have "set (map ch_identity (vd_changes (differenceByIdentity rows rows))) = {}"
    unfolding difference_identities by (simp add: changed_def)
  then show ?thesis by simp
qed

text \<open>C5: a clone reads, assignment by assignment with its shift, place, pin and credits, exactly as the version it
  was made from, which is itself untouched; publishing a clone nobody has edited changes no assignment.\<close>
theorem clone_reads_as_source:
  assumes "inj uuid" "schedule_reachable uuid db" "cloneVersion uuid permit s db = Inr (r, db')"
  shows "activeSnapshotsOf r db' = activeSnapshotsOf s db \<and> activeSnapshotsOf s db' = activeSnapshotsOf s db \<and>
    vd_changes (differenceByIdentity (activeSnapshotsOf s db') (activeSnapshotsOf r db')) = []"
proof -
  have "inj uuid \<and> schedule_inv uuid db \<and> no_orphans db"
    using orphans.reachable_inv[OF reachable_mono[OF assms(2)]] assms(1) by simp
  then show ?thesis using clone_reading[OF _ _ _ assms(3)] difference_self by simp
qed

theorem clone_reads_as_source_witness:
  "\<exists>r db'. cloneVersion sample_uuid anyone (sample_uuid 1) sample_published = Inr (r, db') \<and>
     map ds_member (activeSnapshotsOf r db') = [''m'']"
proof -
  obtain r db' where c: "cloneVersion sample_uuid anyone (sample_uuid 1) sample_published = Inr (r, db')"
    using accepted_Inr[OF sample_accepted_clone(1)] by blast
  have "map ds_member (activeSnapshotsOf (sample_uuid 1) sample_published) = [''m'']"
    unfolding sample_published_state by code_simp
  then show ?thesis using c clone_reads_as_source[OF sample_uuid_inj sample_reachable(2) c] by auto
qed

end
