(* ===== verification/VacationService.thy ===== *)
theory VacationService
  imports ScheduleTables RequestService
begin

text \<open>
  \<open>apps/api/src/requests/vacation-approval.ts\<close> and \<open>vacation-selection.ts\<close>: the calls that move a vacation
  selection, its root and its grant in one unit of work. A call that throws leaves nothing behind; one that
  returns is committed, which the deferred check of migration 0022 refuses when a selection and its root
  disagree. Whether the acting member holds the override capability, which the authorization core decides, is
  the parameter \<open>holdsOverride\<close>; the identifiers the database draws are arguments.
\<close>

section \<open>Errors and the unit of work\<close>

datatype VacationApprovalFailure =
  QuotaExhausted | VersionConflict | SelectionNotPending | OverrideRequired | OverrideReasonRequired

datatype VacationSelectionFailure = NoLongerPending | VacationRoundNotOpen | VacationWeekAlreadySelected

datatype VacationCommitFailure =
    CommitTargetNotDraft | CommitPeriodNotFound | CommitPeriodVersionMismatch | CommitNoOffShiftType
  | CommitSelectionNotApproved | CommitNothingToCommit | CommitRaceLost

datatype VacationReversalFailure =
  ReversalSelectionNotCommitted | ReversalOverrideRequired | ReversalReasonRequired | ReversalGrantConflict

text \<open>What a call throws: a typed rollback, a host error, an error of the schedule services, or a refusal of the
  database by its constraint.\<close>
datatype vacation_error =
    VacationApprovalRolledBack VacationApprovalFailure
  | VacationSelectionRolledBack VacationSelectionFailure
  | VacationCommitRolledBack VacationCommitFailure
  | VacationReversalRolledBack VacationReversalFailure
  | VacationFault thrown
  | VacationScheduleError schedule_error
  | VacationConstraint string

type_synonym 'a vacation = "(RequestDb, vacation_error, 'a) action"

text \<open>A statement that answers and leaves the tables changed.\<close>
definition perform :: "('s \<Rightarrow> 'a \<times> 's) \<Rightarrow> ('s, 'e, 'a) action" where
  "perform f s = Inr (f s)"

text \<open>A guarded \<open>UPDATE ... RETURNING\<close>: no row is the failure \<open>e\<close>.\<close>
definition update_or :: "'e \<Rightarrow> ('s \<Rightarrow> 'a option \<times> 's) \<Rightarrow> ('s, 'e, 'a) action" where
  "update_or e f = seq (perform f) (require_row e)"

definition lift_result :: "('e \<Rightarrow> 'f) \<Rightarrow> 'e + 'a \<Rightarrow> ('s, 'f, 'a) action" where
  "lift_result wrap r = (case r of Inl e \<Rightarrow> refuse (wrap e) | Inr a \<Rightarrow> ret a)"

text \<open>\<open>app_guard_vacation_status_mapping\<close>, deferred to the commit: every selection that names a root has the
  root its status derives.\<close>
definition root_status :: "RequestDb \<Rightarrow> string \<Rightarrow> RequestStatus option" where
  "root_status db r = map_option rq_status (loadRoot db r)"

definition pairs_agree :: "RequestDb \<Rightarrow> bool" where
  "pairs_agree db \<longleftrightarrow>
     list_all (\<lambda>s. case vs_requestId s of None \<Rightarrow> True
       | Some r \<Rightarrow> (case root_status db r of None \<Rightarrow> True
           | Some st \<Rightarrow> derivedRequestStatus (vs_status s) = Some st)) (selections_t db)"

text \<open>A unit of work: its calls, then the commit.\<close>
definition unit_of_work ::
  "('s \<Rightarrow> RequestDb) \<Rightarrow> ('s, vacation_error, 'a) action \<Rightarrow> ('s, vacation_error, 'a) action" where
  "unit_of_work part m =
     seq m (\<lambda>a. seq (query (\<lambda>s. pairs_agree (part s))) (\<lambda>ok.
     seq (demand ok (VacationConstraint ''VACATION_STATUS_MAPPING_VIOLATED'')) (\<lambda>_. ret a)))"

text \<open>The three \<open>CHECK\<close>s of \<open>vacation_grants\<close>.\<close>
definition grant_checks :: "VacationGrantRow \<Rightarrow> bool" where
  "grant_checks g \<longleftrightarrow> 0 \<le> unitsConsumed g \<and> unitsConsumed g \<le> unitsTotal g + overrideUnits g \<and> 0 \<le> overrideUnits g"

definition releaseUnits :: "vacation_error \<Rightarrow> string \<Rightarrow> int \<Rightarrow> int \<Rightarrow> int \<Rightarrow> int vacation" where
  "releaseUnits e grantId expectedVersion units override =
     seq (perform (releaseGrantUnits grantId expectedVersion units override)) (\<lambda>version.
     seq (query (\<lambda>db. list_all grant_checks (grants_t db))) (\<lambda>ok.
     seq (demand ok (VacationConstraint ''vacation_grants_units_not_negative'')) (\<lambda>_.
     require_row e version)))"

section \<open>Approval and denial\<close>

record VacationDecisionCommand =
  vd_selectionId :: string
  vd_key :: string
  vd_expectedSelectionVersion :: int
  vd_grantId :: "string option"
  vd_expectedGrantVersion :: "int option"
  vd_overrideReason :: "string option"
  vd_decidedBy :: string
  vd_now :: int

record VacationDecisionResult =
  vr_selectionId :: string
  vr_requestId :: string
  vr_outcome :: VacationApprovalOutcome
  vr_selectionVersion :: int
  vr_grantId :: "string option"
  vr_isOverride :: bool
  vr_replayed :: bool

abbreviation approval_refused :: "VacationApprovalFailure \<Rightarrow> vacation_error" where
  "approval_refused f \<equiv> VacationApprovalRolledBack f"

definition loadPendingSelection :: "string \<Rightarrow> VacationSelectionRow vacation" where
  "loadPendingSelection i =
     seq (query (\<lambda>db. loadSelection db i)) (require_row (approval_refused SelectionNotPending))"

definition findGrant :: "VacationSelectionRow \<Rightarrow> string \<Rightarrow> RequestDb \<Rightarrow> VacationGrantRow option" where
  "findGrant selection grantId db = find (\<lambda>g. g_id g = grantId) (listGrants db (vs_periodId selection))"

definition resolveGrant :: "VacationSelectionRow \<Rightarrow> VacationDecisionCommand \<Rightarrow> VacationGrantRow vacation" where
  "resolveGrant selection command =
     seq (query (\<lambda>db. listGrants db (vs_periodId selection))) (\<lambda>grants.
     require_row (approval_refused QuotaExhausted)
       (case vd_grantId command of
          None \<Rightarrow> find (\<lambda>g. g_kind g = PersonalEntitlement (vs_membershipId selection)) grants
        | Some i \<Rightarrow> find (\<lambda>g. g_id g = i) grants))"

definition replayOutcome :: "VacationDecisionCommand \<Rightarrow> VacationDecisionResult vacation" where
  "replayOutcome command =
     seq (query (\<lambda>db. findApprovalCommand db (vd_selectionId command) (vd_key command))) (\<lambda>recorded.
     seq (query (\<lambda>db. loadSelection db (vd_selectionId command))) (\<lambda>selection.
     seq (require_row (approval_refused SelectionNotPending) recorded) (\<lambda>rec.
     seq (require_row (approval_refused SelectionNotPending) selection) (\<lambda>s.
     seq (require_row (approval_refused SelectionNotPending) (vs_requestId s)) (\<lambda>r.
     ret \<lparr>vr_selectionId = vd_selectionId command, vr_requestId = r,
          vr_outcome = (case cm_outcome rec of None \<Rightarrow> OutcomeApproved | Some oc \<Rightarrow> oc),
          vr_selectionVersion = vs_version s, vr_grantId = vs_grantId s, vr_isOverride = vs_isOverride s,
          vr_replayed = True\<rparr>)))))"

text \<open>Step 0, the insert on which a second delivery is a replay. Its foreign key wants the selection to exist.\<close>
definition recordCommand :: "string \<Rightarrow> string \<Rightarrow> bool vacation" where
  "recordCommand selectionId key =
     seq (query (\<lambda>db. loadSelection db selectionId)) (\<lambda>found.
     seq (demand (found \<noteq> None) (VacationConstraint ''vacation_approval_commands_selection_fk'')) (\<lambda>_.
     perform (\<lambda>db. case recordApprovalCommand selectionId key db of None \<Rightarrow> (False, db) | Some db' \<Rightarrow> (True, db'))))"

text \<open>A grant without headroom has its bound raised, for an actor who may and who gives a reason: the grant version
  to consume at, and the override recorded with the decision.\<close>
definition coverShortfall ::
  "bool \<Rightarrow> VacationGrantRow \<Rightarrow> VacationDecisionCommand \<Rightarrow> (int \<times> bool \<times> string option) vacation" where
  "coverShortfall holdsOverride grant command =
     (let grantVersion = (case vd_expectedGrantVersion command of None \<Rightarrow> g_version grant | Some v \<Rightarrow> v) in
      if grantHasHeadroom grant then ret (grantVersion, False, None)
      else
        seq (demand holdsOverride (approval_refused OverrideRequired)) (\<lambda>_.
        let reason = (case vd_overrideReason command of None \<Rightarrow> [] | Some r \<Rightarrow> trim r) in
        seq (demand (length reason \<noteq> 0) (approval_refused OverrideReasonRequired)) (\<lambda>_.
        seq (update_or (approval_refused VersionConflict)
              (raiseOverrideUnits (g_id grant) grantVersion (overrideUnitsNeeded grant 1))) (\<lambda>raised.
        ret (raised, True, Some reason)))))"

text \<open>The quota half of an approval: the grant, whether it was overridden, and the reason.\<close>
definition consumeQuota ::
  "bool \<Rightarrow> VacationSelectionRow \<Rightarrow> VacationDecisionCommand \<Rightarrow> (string \<times> bool \<times> string option) vacation" where
  "consumeQuota holdsOverride selection command =
     seq (resolveGrant selection command) (\<lambda>grant.
     seq (coverShortfall holdsOverride grant command) (\<lambda>(version, isOverride, overrideReason).
     seq (perform (consumeGrantUnit (g_id grant) version)) (\<lambda>consumed.
     case consumed of
       Some _ \<Rightarrow> ret (g_id grant, isOverride, overrideReason)
     | None \<Rightarrow>
         seq (query (findGrant selection (g_id grant))) (\<lambda>fresh.
         refuse (approval_refused
           (case fresh of None \<Rightarrow> VersionConflict
            | Some g \<Rightarrow> if \<not> grantHasHeadroom g then QuotaExhausted else VersionConflict))))))"

text \<open>The tail the two decisions share: the derived root, the approval row, the event, the recorded outcome.\<close>
definition settleDecision ::
  "string \<Rightarrow> VacationDecisionCommand \<Rightarrow> VacationSelectionRow \<Rightarrow> RequestStatus list \<Rightarrow> RequestDecision \<Rightarrow>
   string option \<Rightarrow> bool \<Rightarrow> string \<Rightarrow> string \<Rightarrow> VacationApprovalOutcome \<Rightarrow> string vacation" where
  "settleDecision newId command selection path decision reason isOverride eventName outboxPrefix outcome =
     seq (require_row (approval_refused SelectionNotPending) (vs_requestId selection)) (\<lambda>requestId.
     seq (update_or (approval_refused SelectionNotPending)
           (writeDerivedRootStatus requestId path (vd_decidedBy command) (vd_now command))) (\<lambda>_.
     seq (store (recordApproval
           \<lparr>ap_id = newId, ap_requestId = requestId, ap_decision = decision, ap_decidedBy = vd_decidedBy command,
            ap_decidedAt = vd_now command, ap_reason = reason, ap_isOverride = isOverride,
            ap_vacationSelectionId = Some (vd_selectionId command), ap_supersedes = None\<rparr>)) (\<lambda>_.
     seq (store (emit eventName requestId eventName
           (outboxPrefix @ vd_selectionId command @ '':'' @ vd_key command))) (\<lambda>_.
     seq (store (setApprovalCommandOutcome (vd_selectionId command) (vd_key command) outcome)) (\<lambda>_.
     ret requestId)))))"

definition approveVacationSelection ::
  "string \<Rightarrow> bool \<Rightarrow> VacationDecisionCommand \<Rightarrow> VacationDecisionResult vacation" where
  "approveVacationSelection newId holdsOverride command =
     seq (recordCommand (vd_selectionId command) (vd_key command)) (\<lambda>fresh.
     if \<not> fresh then replayOutcome command
     else
       seq (loadPendingSelection (vd_selectionId command)) (\<lambda>selection.
       seq (query (\<lambda>db. loadPeriod db (vs_periodId selection))) (\<lambda>found.
       seq (require_row (approval_refused SelectionNotPending) found) (\<lambda>period.
       seq (if approvalConsumesQuota (vp_mode period)
            then seq (consumeQuota holdsOverride selection command) (\<lambda>(g, isOverride, reason).
              ret (Some g, isOverride, reason))
            else ret (None, False, None)) (\<lambda>(grantId, isOverride, overrideReason).
       seq (update_or (approval_refused SelectionNotPending)
             (decideSelection (vd_selectionId command) (vd_expectedSelectionVersion command) SApproved grantId
               isOverride overrideReason (vd_key command))) (\<lambda>selectionVersion.
       seq (settleDecision newId command selection VACATION_APPROVAL_ROOT_PATH DecisionApproved overrideReason
             isOverride ''requests.vacation_selection.approved'' ''vacation-approved:'' OutcomeApproved) (\<lambda>requestId.
       ret \<lparr>vr_selectionId = vd_selectionId command, vr_requestId = requestId, vr_outcome = OutcomeApproved,
            vr_selectionVersion = selectionVersion, vr_grantId = grantId, vr_isOverride = isOverride,
            vr_replayed = False\<rparr>)))))))"

definition denyVacationSelection ::
  "string \<Rightarrow> string \<Rightarrow> VacationDecisionCommand \<Rightarrow> VacationDecisionResult vacation" where
  "denyVacationSelection newId reason command =
     seq (demand (length (trim reason) \<noteq> 0) (approval_refused OverrideReasonRequired)) (\<lambda>_.
     seq (recordCommand (vd_selectionId command) (vd_key command)) (\<lambda>fresh.
     if \<not> fresh then replayOutcome command
     else
       seq (loadPendingSelection (vd_selectionId command)) (\<lambda>selection.
       seq (update_or (approval_refused SelectionNotPending)
             (decideSelection (vd_selectionId command) (vd_expectedSelectionVersion command) SDenied None
               False None (vd_key command))) (\<lambda>selectionVersion.
       seq (settleDecision newId command selection VACATION_DENIAL_ROOT_PATH DecisionDenied (Some reason)
             False ''requests.request.denied'' ''vacation-denied:'' OutcomeDenied) (\<lambda>requestId.
       ret \<lparr>vr_selectionId = vd_selectionId command, vr_requestId = requestId, vr_outcome = OutcomeDenied,
            vr_selectionVersion = selectionVersion, vr_grantId = None, vr_isOverride = False,
            vr_replayed = False\<rparr>)))))"

section \<open>Submission and withdrawal\<close>

datatype VacationSelectionServiceFailure =
    VacationNotFound
  | VacationRefused VacationSelectionFailure
  | VacationKeyReused RequestSubtype
  | VacationWindowClosed
  | VacationLateRejected string

text \<open>A call returns a failure without writing, or a value.\<close>
type_synonym 'a vacation_outcome = "(VacationSelectionServiceFailure + 'a) vacation"

record SubmitVacationSelectionCommand =
  vc_membershipId :: string
  vc_periodId :: string
  vc_weekStart :: string
  vc_key :: string
  vc_now :: int

record VacationSelectionWriteResult =
  vw_selectionId :: string
  vw_requestId :: string
  vw_status :: VacationSelectionStatus
  vw_version :: int
  vw_isLate :: bool
  vw_unitReleased :: bool
  vw_replayed :: bool

definition fail :: "VacationSelectionServiceFailure \<Rightarrow> 'a vacation_outcome" where
  "fail f = ret (Inl f)"

fun timing_failure :: "SubmissionTiming \<Rightarrow> VacationSelectionServiceFailure option" where
  "timing_failure WindowClosed = Some VacationWindowClosed"
| "timing_failure (LateRejected d) = Some (VacationLateRejected d)"
| "timing_failure (OnTime _) = None"
| "timing_failure (LateAccepted _) = None"

fun is_late :: "SubmissionTiming \<Rightarrow> bool" where
  "is_late (LateAccepted _) = True"
| "is_late (OnTime _) = False"
| "is_late WindowClosed = False"
| "is_late (LateRejected _) = False"

text \<open>The row trigger: the week lies in its period and is a Monday.\<close>
definition week_in_period :: "VacationPeriodRow \<Rightarrow> string \<Rightarrow> bool" where
  "week_in_period period week \<longleftrightarrow>
     vp_startDate period \<le> week \<and> week \<le> vp_endDate period \<and> dayOfWeek week = Inr 1"

text \<open>The selection and its version: the one there is, or one created and read back.\<close>
definition ensureSelection ::
  "string \<Rightarrow> VacationPeriodRow \<Rightarrow> SubmitVacationSelectionCommand \<Rightarrow> VacationSelectionRow option \<Rightarrow>
   (string \<times> int) option vacation" where
  "ensureSelection newId period command existing =
     (case existing of
        Some s \<Rightarrow> ret (Some (vs_id s, vs_version s))
      | None \<Rightarrow>
          seq (demand (week_in_period period (vc_weekStart command)) (VacationConstraint ''VACATION_WEEK_OUTSIDE_PERIOD'')) (\<lambda>_.
          seq (store (createSelection newId (vc_membershipId command) (vc_periodId command) (vc_weekStart command))) (\<lambda>_.
          seq (query (\<lambda>db. loadSelection db newId)) (\<lambda>created.
          ret (map_option (\<lambda>s. (newId, vs_version s)) created)))))"

text \<open>The root of an accepted submission, linked to its selection, and the event.\<close>
definition openRequest ::
  "zone_database \<Rightarrow> GroupDeadlineContext \<Rightarrow> VacationPeriodRow \<Rightarrow> SubmissionTiming \<Rightarrow> string \<Rightarrow> string \<Rightarrow> int \<Rightarrow>
   SubmitVacationSelectionCommand \<Rightarrow> VacationSelectionWriteResult vacation_outcome" where
  "openRequest tz context period timing newRoot selectionId version command =
     seq (lift_result VacationFault (expiryInstant tz context (Some (vp_startDate period)) (vc_now command))) (\<lambda>expiresAt.
     seq (store (createRoot newRoot (vc_membershipId command) expiresAt (vc_key command) (vc_now command))) (\<lambda>_.
     seq (update_or (VacationSelectionRolledBack NoLongerPending)
           (linkSelectionToRoot selectionId version newRoot)) (\<lambda>linked.
     seq (if is_late timing then store (markRootLate newRoot) else ret ()) (\<lambda>_.
     seq (store (emit ''requests.request.submitted'' newRoot ''requests.request.submitted''
           (''request-submitted:'' @ newRoot))) (\<lambda>_.
     ret (Inr
       \<lparr>vw_selectionId = selectionId, vw_requestId = newRoot, vw_status = SPending, vw_version = linked,
        vw_isLate = is_late timing, vw_unitReleased = False, vw_replayed = False\<rparr>))))))"

definition submitVacationSelection ::
  "zone_database \<Rightarrow> string \<Rightarrow> string \<Rightarrow> SubmitVacationSelectionCommand \<Rightarrow>
   VacationSelectionWriteResult vacation_outcome" where
  "submitVacationSelection tz newSelection newRoot command =
     seq (query (\<lambda>db. classifyIdempotencyKey db (vc_membershipId command) (vc_key command) VacationSel)) (\<lambda>known.
     case known of
       Reused subtype \<Rightarrow> fail (VacationKeyReused subtype)
     | Replay rt \<Rightarrow>
         seq (query (\<lambda>db. findSelectionByRequest db (rq_id rt))) (\<lambda>recorded.
         case recorded of
           None \<Rightarrow> fail VacationNotFound
         | Some s \<Rightarrow> ret (Inr
             \<lparr>vw_selectionId = vs_id s, vw_requestId = rq_id rt, vw_status = vs_status s, vw_version = vs_version s,
              vw_isLate = rq_isLate rt, vw_unitReleased = False, vw_replayed = True\<rparr>))
     | Fresh \<Rightarrow>
         seq (query (\<lambda>db. loadPeriod db (vc_periodId command))) (\<lambda>found.
         case found of None \<Rightarrow> fail VacationNotFound | Some period \<Rightarrow>
         if vp_state period \<noteq> PeriodOpen then fail (VacationRefused VacationRoundNotOpen)
         else seq (query loadGroupDeadlineContext) (\<lambda>group.
         case group of None \<Rightarrow> fail VacationNotFound | Some context \<Rightarrow>
         seq (lift_result VacationFault (classifyAt tz context (Some (vp_startDate period)) (vc_now command))) (\<lambda>timing.
         case timing_failure timing of Some f \<Rightarrow> fail f | None \<Rightarrow>
         seq (query (\<lambda>db. findSelection db (vc_membershipId command) (vc_periodId command) (vc_weekStart command)))
           (\<lambda>existing.
         if (case existing of None \<Rightarrow> False | Some s \<Rightarrow> vs_status s \<noteq> SAvailable)
         then fail (VacationRefused VacationWeekAlreadySelected)
         else seq (ensureSelection newSelection period command existing) (\<lambda>target.
         case target of None \<Rightarrow> fail VacationNotFound | Some (selectionId, version) \<Rightarrow>
         if selectionOperationVerdict (case existing of None \<Rightarrow> SAvailable | Some s \<Rightarrow> vs_status s) SelSubmit = None
         then fail (VacationRefused NoLongerPending)
         else openRequest tz context period timing newRoot selectionId version command))))))"

record WithdrawVacationSelectionCommand =
  vx_selectionId :: string
  vx_expectedSelectionVersion :: int
  vx_membershipId :: string
  vx_now :: int

text \<open>The release of the unit a selection holds; whether there was one.\<close>
definition releaseHeldUnit :: "vacation_error \<Rightarrow> VacationSelectionRow \<Rightarrow> bool vacation" where
  "releaseHeldUnit e selection =
     (case vs_grantId selection of
        None \<Rightarrow> ret False
      | Some i \<Rightarrow>
          seq (query (\<lambda>db. find (\<lambda>g. g_id g = i) (listGrants db (vs_periodId selection)))) (\<lambda>found.
          case found of
            None \<Rightarrow> ret False
          | Some grant \<Rightarrow>
              let releasedOverride = overrideUnits grant - overrideUnits (countersAfterReversal grant 1) in
              seq (releaseUnits e (g_id grant) (g_version grant) 1
                    (if vs_isOverride selection then releasedOverride else 0)) (\<lambda>_.
              ret True)))"

definition withdrawVacationSelection ::
  "WithdrawVacationSelectionCommand \<Rightarrow> VacationSelectionWriteResult vacation_outcome" where
  "withdrawVacationSelection command =
     seq (query (\<lambda>db. loadSelection db (vx_selectionId command))) (\<lambda>found.
     case found of None \<Rightarrow> fail VacationNotFound | Some selection \<Rightarrow>
     if vs_membershipId selection \<noteq> vx_membershipId command then fail VacationNotFound
     else if selectionOperationVerdict (vs_status selection) SelWithdraw = None
     then fail (VacationRefused NoLongerPending)
     else
       seq (perform (withdrawSelection (vx_selectionId command) (vx_expectedSelectionVersion command)
             (vs_status selection))) (\<lambda>withdrawn.
       case withdrawn of None \<Rightarrow> fail (VacationRefused NoLongerPending) | Some version \<Rightarrow>
       seq (require_row (VacationSelectionRolledBack NoLongerPending) (vs_requestId selection)) (\<lambda>requestId.
       seq (update_or (VacationSelectionRolledBack NoLongerPending)
             (writeRootWithdrawal requestId (vx_now command))) (\<lambda>_.
       seq (if vs_status selection = SApproved
            then releaseHeldUnit (VacationSelectionRolledBack NoLongerPending) selection else ret False) (\<lambda>released.
       seq (store (emit ''requests.vacation_selection.withdrawn'' requestId ''requests.vacation_selection.withdrawn''
             (''vacation-withdrawn:'' @ vx_selectionId command @ '':'' @ string_of_int version))) (\<lambda>_.
       ret (Inr
         \<lparr>vw_selectionId = vx_selectionId command, vw_requestId = requestId, vw_status = SWithdrawn,
          vw_version = version, vw_isLate = False, vw_unitReleased = released, vw_replayed = False\<rparr>)))))))"

section \<open>Reading\<close>

text \<open>The left join of the selections with their roots.\<close>
definition selection_view :: "RequestDb \<Rightarrow> VacationSelectionRow \<Rightarrow> VacationSelectionRow \<times> RequestRow option" where
  "selection_view db s = (s, case vs_requestId s of None \<Rightarrow> None | Some r \<Rightarrow> loadRoot db r)"

definition listSelectionsForMembership ::
  "RequestDb \<Rightarrow> string \<Rightarrow> (VacationSelectionRow \<times> RequestRow option) list" where
  "listSelectionsForMembership db m =
     map (selection_view db) (filter (\<lambda>s. vs_membershipId s = m) (selections_t db))"

definition listSelectionsInPeriod ::
  "RequestDb \<Rightarrow> string \<Rightarrow> (VacationSelectionRow \<times> RequestRow option) list" where
  "listSelectionsInPeriod db p =
     map (selection_view db) (filter (\<lambda>s. vs_periodId s = p) (selections_t db))"


definition view_key :: "VacationSelectionRow \<times> RequestRow option \<Rightarrow> SelectionOrderKey" where
  "view_key v =
     \<lparr>weekStart = vs_weekStart (fst v),
      submittedAt = (case snd v of None \<Rightarrow> None | Some rt \<Rightarrow> rq_submittedAt rt), order_id = vs_id (fst v)\<rparr>"

definition view_agrees :: "VacationSelectionRow \<times> RequestRow option \<Rightarrow> bool" where
  "view_agrees v \<longleftrightarrow> vacationStatusPairAgrees (vs_status (fst v)) (map_option rq_status (snd v))"

record VacationRound =
  vround_period :: VacationPeriodRow
  vround_selections :: "(VacationSelectionRow \<times> RequestRow option) list"
  vround_variance :: "(VacationGrantRow \<times> GrantVariance) list"

definition readVacationRound :: "string \<Rightarrow> bool \<Rightarrow> string \<Rightarrow> VacationRound vacation_outcome" where
  "readVacationRound periodId own membershipId =
     seq (query (\<lambda>db. loadPeriod db periodId)) (\<lambda>found.
     case found of None \<Rightarrow> fail VacationNotFound | Some period \<Rightarrow>
     seq (query (\<lambda>db.
           if own then filter (\<lambda>v. vs_periodId (fst v) = periodId) (listSelectionsForMembership db membershipId)
           else listSelectionsInPeriod db periodId)) (\<lambda>views.
     seq (demand (list_all view_agrees views) (VacationFault (GenericError ''VACATION_STATUS_PAIR_DISAGREES''))) (\<lambda>_.
     seq (query (\<lambda>db. listGrants db periodId)) (\<lambda>grants.
     ret (Inr
       \<lparr>vround_period = period,
        vround_selections = sort_by (\<lambda>a b. compareSelectionsForDisplay (view_key a) (view_key b)) views,
        vround_variance = map (\<lambda>g. (g, grantVariance g)) grants\<rparr>)))))"

definition loadVacationRequest :: "string \<Rightarrow> (RequestRow \<times> VacationSelectionRow) option vacation" where
  "loadVacationRequest requestId =
     seq (query (\<lambda>db. loadRoot db requestId)) (\<lambda>found.
     case found of None \<Rightarrow> ret None | Some rt \<Rightarrow>
     if rq_subtype rt \<noteq> VacationSel then ret None
     else seq (query (\<lambda>db. findSelectionByRequest db requestId)) (\<lambda>record.
     case record of None \<Rightarrow> ret None | Some s \<Rightarrow>
     seq (demand (vacationStatusPairAgrees (vs_status s) (Some (rq_status rt)))
           (VacationFault (GenericError ''VACATION_STATUS_PAIR_DISAGREES''))) (\<lambda>_.
     ret (Some (rt, s)))))"

end
