(* ===== verification/VacationCommit.thy ===== *)
theory VacationCommit
  imports VacationService ScheduleAuthoring
begin

text \<open>
  \<open>apps/api/src/requests/vacation-commit.ts\<close>: a vacation round is committed into a draft schedule version, one
  assignment per weekday of every approved selection, and a committed selection is reversed. The calls work on
  the request tables and the schedule tables at once.
\<close>

section \<open>Both halves of the database\<close>

record ShiftTypeRow =
  st_id :: string
  st_startTime :: string
  st_endTime :: string
  st_isLeave :: bool
  st_status :: string
  st_reportOrder :: int

record CommitCommandRow =
  cc_key :: string
  cc_periodId :: string
  cc_targetVersionId :: string
  cc_actingMembershipId :: string
  cc_receivedAt :: int

record PlanningDb =
  requests_part :: RequestDb
  schedule_part :: ScheduleDb
  commit_commands_t :: "CommitCommandRow list"
  shift_types_t :: "ShiftTypeRow list"

type_synonym 'a planning = "(PlanningDb, vacation_error, 'a) action"

definition in_requests :: "'a vacation \<Rightarrow> 'a planning" where
  "in_requests m w =
     (case m (requests_part w) of Inl e \<Rightarrow> Inl e | Inr (a, db) \<Rightarrow> Inr (a, w\<lparr>requests_part := db\<rparr>))"

definition in_schedule :: "'a service \<Rightarrow> 'a planning" where
  "in_schedule m w =
     (case m (schedule_part w) of
        Inl e \<Rightarrow> Inl (VacationScheduleError e)
      | Inr (a, db) \<Rightarrow> Inr (a, w\<lparr>schedule_part := db\<rparr>))"

fun version_state_name :: "VersionState \<Rightarrow> string" where
  "version_state_name VDraft = ''draft''"
| "version_state_name VInReview = ''in_review''"
| "version_state_name VApproved = ''approved''"
| "version_state_name VPublishing = ''publishing''"
| "version_state_name VPublished = ''published''"
| "version_state_name VSuperseded = ''superseded''"
| "version_state_name VCancelled = ''cancelled''"

section \<open>Commit\<close>

record CommitVacationRoundCommand =
  cv_periodId :: string
  cv_targetVersionId :: string
  cv_key :: string
  cv_actingMembershipId :: string
  cv_now :: int

record CommitVacationRoundResult =
  co_periodId :: string
  co_targetVersionId :: string
  co_selectionIds :: "string list"
  co_snapshotIds :: "string list"
  co_replayed :: bool

definition findCommitCommand :: "string \<Rightarrow> PlanningDb \<Rightarrow> CommitCommandRow option" where
  "findCommitCommand key w = find (\<lambda>c. cc_key c = key) (commit_commands_t w)"

text \<open>\<open>INSERT ... ON CONFLICT DO NOTHING\<close>; the answer is whether a row was written.\<close>
definition recordCommitCommand :: "CommitCommandRow \<Rightarrow> PlanningDb \<Rightarrow> bool \<times> PlanningDb" where
  "recordCommitCommand row w =
     (case findCommitCommand (cc_key row) w of
        Some _ \<Rightarrow> (False, w)
      | None \<Rightarrow> (True, w\<lparr>commit_commands_t := commit_commands_t w @ [row]\<rparr>))"

definition replayedOutcome :: "CommitCommandRow \<Rightarrow> CommitVacationRoundResult planning" where
  "replayedOutcome recorded =
     seq (query (\<lambda>w. listSelectionsByStatus (requests_part w) (cc_periodId recorded) SCommitted)) (\<lambda>committed.
     ret \<lparr>co_periodId = cc_periodId recorded, co_targetVersionId = cc_targetVersionId recorded,
          co_selectionIds = map vs_id (filter (\<lambda>s. vs_committedTo s = Some (cc_targetVersionId recorded)) committed),
          co_snapshotIds = [], co_replayed = True\<rparr>)"

definition loadTargetVersion :: "string \<Rightarrow> PlanningDb \<Rightarrow> (VersionState \<times> string) option" where
  "loadTargetVersion i w = map_option (\<lambda>v. (v_state v, v_period v)) (find_version i (schedule_part w))"

definition versionCoversPeriod :: "string \<Rightarrow> string \<Rightarrow> string \<Rightarrow> PlanningDb \<Rightarrow> bool" where
  "versionCoversPeriod schedulePeriodId roundStart roundEnd w =
     (case find_period schedulePeriodId (schedule_part w) of
        None \<Rightarrow> False
      | Some p \<Rightarrow> pr_start p \<le> roundStart \<and> pr_end p \<ge> roundEnd)"

text \<open>\<open>ORDER BY report_order, id LIMIT 1\<close>\<close>
definition loadOffShiftType :: "PlanningDb \<Rightarrow> ShiftTypeRow option" where
  "loadOffShiftType w =
     (case sort_key (\<lambda>t. (st_reportOrder t, st_id t))
        (filter (\<lambda>t. st_isLeave t \<and> st_status t = ''active'') (shift_types_t w)) of
        [] \<Rightarrow> None
      | t # _ \<Rightarrow> Some t)"

definition assertDeadlineDoesNotGateCommit :: "unit planning" where
  "assertDeadlineDoesNotGateCommit =
     demand (\<not> deadlineBindsInStatus ''approved'') (VacationFault (GenericError ''VACATION_COMMIT_DEADLINE_RULE_CHANGED''))"

text \<open>The assignment of one weekday.\<close>
definition commitDate ::
  "(nat \<Rightarrow> string) \<Rightarrow> (string \<Rightarrow> bool) \<Rightarrow> zone_database \<Rightarrow> string \<Rightarrow> ShiftTypeRow \<Rightarrow> CommitVacationRoundCommand \<Rightarrow>
   VacationSelectionRow \<Rightarrow> string \<Rightarrow> string planning" where
  "commitDate uuid permit tz zone off command selection date =
     seq (lift_result VacationFault
           (resolveShiftInterval tz zone date (take 5 (st_startTime off)) (take 5 (st_endTime off)))) (\<lambda>interval.
     seq (in_schedule (addManualAssignment uuid permit
           \<lparr>ai_version = cv_targetVersionId command, ai_member = vs_membershipId selection, ai_type = st_id off,
            ai_date = date, ai_starts = si_startsAt interval, ai_ends = si_endsAt interval, ai_pick = None,
            ai_pinned = False, ai_override = None, ai_identity = None, ai_location = None,
            ai_origin = OriginVacationCommit\<rparr>)) (\<lambda>added.
     ret (added_snapshot added)))"

text \<open>One approved selection: its weekdays, its own row, its root.\<close>
definition commitOne ::
  "(nat \<Rightarrow> string) \<Rightarrow> (string \<Rightarrow> bool) \<Rightarrow> zone_database \<Rightarrow> string \<Rightarrow> ShiftTypeRow \<Rightarrow> CommitVacationRoundCommand \<Rightarrow>
   VacationSelectionRow \<Rightarrow> (string \<times> string list) planning" where
  "commitOne uuid permit tz zone off command selection =
     seq assertDeadlineDoesNotGateCommit (\<lambda>_.
     seq (lift_result VacationFault (vacationWeekDates (vs_weekStart selection))) (\<lambda>dates.
     seq (for_each (commitDate uuid permit tz zone off command selection) dates) (\<lambda>snapshots.
     seq (in_requests (update_or (VacationCommitRolledBack CommitSelectionNotApproved)
           (commitSelection (vs_id selection) (cv_targetVersionId command) (cv_key command)))) (\<lambda>_.
     seq (require_row (VacationCommitRolledBack CommitSelectionNotApproved) (vs_requestId selection)) (\<lambda>requestId.
     seq (demand (selectionEdgeRootPath SApproved SCommitted \<notin> {None, Some []})
           (VacationFault (GenericError ''VACATION_COMMIT_PATH_MISSING''))) (\<lambda>_.
     seq (in_requests (update_or (VacationCommitRolledBack CommitSelectionNotApproved)
           (writeDerivedRootStatus requestId (the (selectionEdgeRootPath SApproved SCommitted))
             (cv_actingMembershipId command) (cv_now command)))) (\<lambda>_.
     ret (vs_id selection, snapshots))))))))"

text \<open>The guards of a commit: the approved selections, the shift type they are rendered with, and the zone.\<close>
definition prepareCommit ::
  "string \<Rightarrow> CommitVacationRoundCommand \<Rightarrow> (VacationSelectionRow list \<times> ShiftTypeRow \<times> string) planning" where
  "prepareCommit tzdb command =
     seq (query (\<lambda>w. loadPeriod (requests_part w) (cv_periodId command))) (\<lambda>foundPeriod.
     seq (require_row (VacationCommitRolledBack CommitPeriodNotFound) foundPeriod) (\<lambda>period.
     seq (query (loadTargetVersion (cv_targetVersionId command))) (\<lambda>foundVersion.
     seq (require_row (VacationCommitRolledBack CommitTargetNotDraft) foundVersion) (\<lambda>(state, schedulePeriod).
     seq (demand (versionAcceptsCommit (version_state_name state)) (VacationCommitRolledBack CommitTargetNotDraft)) (\<lambda>_.
     seq (query (\<lambda>w. listSelectionsByStatus (requests_part w) (cv_periodId command) SApproved)) (\<lambda>selections.
     seq (demand (selections \<noteq> []) (VacationCommitRolledBack CommitNothingToCommit)) (\<lambda>_.
     seq (query (versionCoversPeriod schedulePeriod (vp_startDate period) (vp_endDate period))) (\<lambda>covers.
     seq (demand covers (VacationCommitRolledBack CommitPeriodVersionMismatch)) (\<lambda>_.
     seq (query loadOffShiftType) (\<lambda>foundType.
     seq (require_row (VacationCommitRolledBack CommitNoOffShiftType) foundType) (\<lambda>off.
     seq (query (\<lambda>w. fst (resolveRenderTimezone tzdb (Some (cv_targetVersionId command)) (schedule_part w)))) (\<lambda>zone.
     ret (selections, off, zone)))))))))))))"

definition commitVacationRound ::
  "(nat \<Rightarrow> string) \<Rightarrow> (string \<Rightarrow> bool) \<Rightarrow> zone_database \<Rightarrow> string \<Rightarrow> CommitVacationRoundCommand \<Rightarrow>
   CommitVacationRoundResult planning" where
  "commitVacationRound uuid permit tz tzdb command =
     seq (query (findCommitCommand (cv_key command))) (\<lambda>recorded.
     case recorded of Some row \<Rightarrow> replayedOutcome row | None \<Rightarrow>
     seq (prepareCommit tzdb command) (\<lambda>(selections, off, zone).
     seq (for_each (commitOne uuid permit tz zone off command) selections) (\<lambda>done.
     seq (perform (recordCommitCommand
           \<lparr>cc_key = cv_key command, cc_periodId = cv_periodId command,
            cc_targetVersionId = cv_targetVersionId command,
            cc_actingMembershipId = cv_actingMembershipId command, cc_receivedAt = cv_now command\<rparr>)) (\<lambda>written.
     seq (demand written (VacationCommitRolledBack CommitRaceLost)) (\<lambda>_.
     seq (in_requests (store (emit ''requests.vacation_round.committed'' (cv_periodId command)
           ''requests.vacation_round.committed'' (''vacation-committed:'' @ cv_periodId command @ '':'' @ cv_key command))))
       (\<lambda>_.
     ret \<lparr>co_periodId = cv_periodId command, co_targetVersionId = cv_targetVersionId command,
          co_selectionIds = map fst done, co_snapshotIds = concat (map snd done), co_replayed = False\<rparr>))))))"

section \<open>Reversal\<close>

record ReverseVacationCommitCommand =
  cr_selectionId :: string
  cr_reasonText :: string
  cr_actingMembershipId :: string
  cr_now :: int

text \<open>The value: the request, the new selection version, and whether a unit was released.\<close>
definition reverseVacationCommit ::
  "bool \<Rightarrow> ReverseVacationCommitCommand \<Rightarrow> (string \<times> int \<times> bool) vacation" where
  "reverseVacationCommit holdsOverride command =
     seq (demand (reversalReasonIsWellFormed (cr_reasonText command)) (VacationReversalRolledBack ReversalReasonRequired)) (\<lambda>_.
     seq (demand holdsOverride (VacationReversalRolledBack ReversalOverrideRequired)) (\<lambda>_.
     seq (query (\<lambda>db. loadSelection db (cr_selectionId command))) (\<lambda>found.
     seq (require_row (VacationReversalRolledBack ReversalSelectionNotCommitted) found) (\<lambda>selection.
     seq (demand (vs_status selection = SCommitted) (VacationReversalRolledBack ReversalSelectionNotCommitted)) (\<lambda>_.
     seq (require_row (VacationReversalRolledBack ReversalSelectionNotCommitted) (vs_requestId selection)) (\<lambda>requestId.
     seq (releaseHeldUnit (VacationReversalRolledBack ReversalGrantConflict) selection) (\<lambda>unitReleased.
     seq (update_or (VacationReversalRolledBack ReversalSelectionNotCommitted)
           (reverseSelection (cr_selectionId command) (trim (cr_reasonText command)))) (\<lambda>selectionVersion.
     seq (demand (selectionEdgeRootPath SCommitted SReversed \<notin> {None, Some []})
           (VacationFault (GenericError ''VACATION_REVERSAL_PATH_MISSING''))) (\<lambda>_.
     seq (update_or (VacationReversalRolledBack ReversalSelectionNotCommitted)
           (writeDerivedRootStatus requestId (the (selectionEdgeRootPath SCommitted SReversed))
             (cr_actingMembershipId command) (cr_now command))) (\<lambda>rootVersion.
     seq (store (emit ''requests.vacation_selection.reversed'' requestId ''requests.vacation_selection.reversed''
           (''vacation-reversed:'' @ cr_selectionId command @ '':'' @ string_of_int selectionVersion))) (\<lambda>_.
     seq (store (emit ''requests.request.revision_requested'' requestId ''schedule.revision_requested''
           (''schedule-revision-requested:'' @ requestId @ '':'' @ string_of_int rootVersion))) (\<lambda>_.
     ret (requestId, selectionVersion, unitReleased)))))))))))))"

end
