(* ===== verification/VacationLedger.thy ===== *)
theory VacationLedger
  imports VacationCommit
begin

text \<open>
  The quota ledger: what the vacation services keep true of the selections, their roots and their grants.
  \<open>ledger_inv\<close> is the invariant and \<open>ledger_step\<close> a change that keeps it and moves every selection along its
  machine; \<open>moved_to_step\<close> and \<open>moved_to_step_grant\<close> give one for a selection moved with its root and its grant.
\<close>

section \<open>The invariant\<close>

type_synonym root_map = "string \<rightharpoonup> RequestSubtype \<times> RequestStatus"

definition roots :: "RequestDb \<Rightarrow> root_map" where
  "roots db = map_of (map (\<lambda>r. (rq_id r, rq_subtype r, rq_status r)) (requests_t db))"

text \<open>The parts of the tables the invariant is about.\<close>
definition ledger :: "RequestDb \<Rightarrow> VacationSelectionRow list \<times> VacationGrantRow list \<times> root_map" where
  "ledger db = (selections_t db, grants_t db, roots db)"

definition holds_unit :: "string \<Rightarrow> VacationSelectionRow \<Rightarrow> int" where
  "holds_unit i s = (if vs_grantId s = Some i \<and> vs_status s \<in> {SApproved, SCommitted} then 1 else 0)"

definition units_held :: "string \<Rightarrow> VacationSelectionRow list \<Rightarrow> int" where
  "units_held i sel = sum_list (map (holds_unit i) sel)"

text \<open>One selection: without a root it is available and holds no grant; with one, the root is a vacation request
  in the derived status, and a grant it names is one of its own round.\<close>
definition row_ok :: "(string \<times> string) set \<Rightarrow> root_map \<Rightarrow> VacationSelectionRow \<Rightarrow> bool" where
  "row_ok gr rts s \<longleftrightarrow>
     (case vs_requestId s of
        None \<Rightarrow> vs_status s = SAvailable \<and> vs_grantId s = None
      | Some r \<Rightarrow>
          vs_status s \<noteq> SAvailable \<and>
          (\<exists>st. rts r = Some (VacationSel, st) \<and> derivedRequestStatus (vs_status s) = Some st) \<and>
          (\<forall>i. vs_grantId s = Some i \<longrightarrow> (i, vs_periodId s) \<in> gr))"

definition grant_keys :: "VacationGrantRow list \<Rightarrow> (string \<times> string) set" where
  "grant_keys gr = (\<lambda>g. (g_id g, g_periodId g)) ` set gr"

text \<open>No two selections name one root.\<close>
definition roots_unshared :: "VacationSelectionRow list \<Rightarrow> bool" where
  "roots_unshared sel \<longleftrightarrow>
     (\<forall>s \<in> set sel. \<forall>t \<in> set sel. \<forall>r. vs_requestId s = Some r \<longrightarrow> vs_requestId t = Some r \<longrightarrow> vs_id s = vs_id t)"

definition selections_ok :: "VacationSelectionRow list \<Rightarrow> (string \<times> string) set \<Rightarrow> root_map \<Rightarrow> bool" where
  "selections_ok sel gr rts \<longleftrightarrow>
     distinct (map vs_id sel) \<and> (\<forall>s \<in> set sel. row_ok gr rts s) \<and> roots_unshared sel"

definition counters_ok :: "VacationSelectionRow list \<Rightarrow> VacationGrantRow list \<Rightarrow> bool" where
  "counters_ok sel gr \<longleftrightarrow>
     distinct (map g_id gr) \<and>
     (\<forall>g \<in> set gr. unitsConsumed g = units_held (g_id g) sel \<and> grant_checks g)"

definition ledger_ok :: "RequestDb \<Rightarrow> bool" where
  "ledger_ok db \<longleftrightarrow>
     (case ledger db of (sel, gr, rts) \<Rightarrow> selections_ok sel (grant_keys gr) rts \<and> counters_ok sel gr)"

lemma ledger_ok_parts:
  "ledger_ok db \<longleftrightarrow> selections_ok (selections_t db) (grant_keys (grants_t db)) (roots db) \<and>
     counters_ok (selections_t db) (grants_t db)"
  by (simp add: ledger_ok_def ledger_def)

lemma ledger_ok_cong: "ledger db = ledger db' \<Longrightarrow> ledger_ok db = ledger_ok db'"
  by (simp add: ledger_ok_def)

section \<open>Statements\<close>

lemma perform_Inr [simp]: "perform f s = Inr (a, t) \<longleftrightarrow> f s = (a, t)"
  by (simp add: perform_def)

lemma update_or_Inr [simp]: "update_or e f s = Inr (a, t) \<longleftrightarrow> f s = (Some a, t)"
  by (auto simp: update_or_def seq_Inr perform_def)

lemma lift_result_Inr [simp]: "lift_result w r s = Inr (a, t) \<longleftrightarrow> r = Inr a \<and> t = s"
  by (auto simp: lift_result_def split: sum.splits)

lemma in_requests_Inr:
  "in_requests m w = Inr (a, w') \<longleftrightarrow>
     (\<exists>db. m (requests_part w) = Inr (a, db) \<and> w' = w\<lparr>requests_part := db\<rparr>)"
  by (auto simp: in_requests_def split: sum.splits)

lemma in_schedule_leaves [leaving]: "leaves requests_part (in_schedule m)"
  unfolding leaves_def in_schedule_def by (auto split: sum.splits)

lemma lift_result_leaves [leaving]: "leaves v (lift_result w r)"
  by (simp add: leaves_def)

lemma perform_leaves: "(\<And>s a t. f s = (a, t) \<Longrightarrow> v t = v s) \<Longrightarrow> leaves v (perform f)"
  by (simp add: leaves_def)

lemma find_Some_in: "find P xs = Some x \<Longrightarrow> x \<in> set xs \<and> P x"
  by (induction xs) (auto split: if_splits)

lemma find_unique: "distinct (map k xs) \<Longrightarrow> x \<in> set xs \<Longrightarrow> find (\<lambda>y. k y = k x) xs = Some x"
  by (induction xs) (auto simp: image_iff)

lemma distinct_key: "distinct (map k xs) \<Longrightarrow> x \<in> set xs \<Longrightarrow> y \<in> set xs \<Longrightarrow> k x = k y \<Longrightarrow> x = y"
  by (auto simp: distinct_map dest: inj_onD)

text \<open>The row with the key of \<open>y\<close> becomes \<open>y\<close>; an update of one row is such a replacement when keys are
  distinct.\<close>
definition replace_by :: "('a \<Rightarrow> 'k) \<Rightarrow> 'a \<Rightarrow> 'a list \<Rightarrow> 'a list" where
  "replace_by k y xs = map (\<lambda>x. if k x = k y then y else x) xs"

lemma replace_by_keys [simp]: "map k (replace_by k y xs) = map k xs"
  by (auto simp: replace_by_def)

lemma map_update_replace:
  assumes "distinct (map k xs)" "find P xs = Some y" "\<And>x. P x \<Longrightarrow> k x = k y" "k (f y) = k y"
  shows "map (\<lambda>x. if P x then f x else x) xs = replace_by k (f y) xs"
proof -
  have y: "y \<in> set xs" "P y" using find_Some_in[OF assms(2)] by auto
  have "P x \<longleftrightarrow> x = y" if "x \<in> set xs" for x
    using assms(3)[of x] y(2) distinct_key[OF assms(1) that y(1)] by blast
  moreover have "k x = k y \<longleftrightarrow> x = y" if "x \<in> set xs" for x
    using distinct_key[OF assms(1) that y(1)] by blast
  ultimately show ?thesis using assms(4) by (auto simp: replace_by_def)
qed

lemma replace_by_twice: "k z = k y \<Longrightarrow> replace_by k z (replace_by k y xs) = replace_by k z xs"
  by (auto simp: replace_by_def)

lemma update_selections_Some:
  "update_selections P f db = (Some v, db') \<longleftrightarrow>
     (\<exists>s. find P (selections_t db) = Some s \<and> v = vs_version (f s) \<and>
       db' = db\<lparr>selections_t := map (\<lambda>x. if P x then f x else x) (selections_t db)\<rparr>)"
  by (auto simp: update_selections_def sql_update_def)

lemma update_none: "find P xs = None \<Longrightarrow> map (\<lambda>x. if P x then f x else x) xs = xs"
  by (induction xs) (auto split: if_splits)

lemma update_selections_None:
  "update_selections P f db = (None, db') \<longleftrightarrow> find P (selections_t db) = None \<and> db' = db"
  by (auto simp: update_selections_def sql_update_def update_none)

lemma update_grants_Some:
  "update_grants P f db = (Some v, db') \<longleftrightarrow>
     (\<exists>g. find P (grants_t db) = Some g \<and> v = g_version (f g) \<and>
       db' = db\<lparr>grants_t := map (\<lambda>x. if P x then f x else x) (grants_t db)\<rparr>)"
  by (auto simp: update_grants_def sql_update_def)

lemma update_requests_Some:
  "update_requests P f db = (Some v, db') \<longleftrightarrow>
     (\<exists>r. find P (requests_t db) = Some r \<and> v = rq_version (f r) \<and>
       db' = db\<lparr>requests_t := map (\<lambda>x. if P x then f x else x) (requests_t db)\<rparr>)"
  by (auto simp: update_requests_def sql_update_def)

lemma update_requests_frame:
  "update_requests P f db = (x, db') \<Longrightarrow>
     selections_t db' = selections_t db \<and> grants_t db' = grants_t db \<and> periods_t db' = periods_t db"
  by (auto simp: update_requests_def sql_update_def)

text \<open>A root moved to a status.\<close>
definition moved :: "string \<Rightarrow> RequestStatus \<Rightarrow> root_map \<Rightarrow> root_map" where
  "moved r st rts = (case rts r of None \<Rightarrow> rts | Some (sub, _) \<Rightarrow> rts(r \<mapsto> (sub, st)))"

lemma moved_moved [simp]: "moved r st' (moved r st rts) = moved r st' rts"
  by (auto simp: moved_def split: option.splits)

lemma moved_apply: "moved r st rts q = (if q = r then map_option (\<lambda>p. (fst p, st)) (rts r) else rts q)"
  by (auto simp: moved_def split: option.splits)

lemma roots_update:
  assumes "\<And>x. P x \<Longrightarrow> rq_id x = r" "\<And>x. rq_id (f x) = rq_id x" "\<And>x. rq_subtype (f x) = rq_subtype x"
    and "\<And>x. rq_status (f x) = st" "\<And>x. x \<in> set (requests_t db) \<Longrightarrow> rq_id x = r \<Longrightarrow> P x"
  shows "roots (db\<lparr>requests_t := map (\<lambda>x. if P x then f x else x) (requests_t db)\<rparr>) = moved r st (roots db)"
proof -
  let ?k = "\<lambda>x. (rq_id x, rq_subtype x, rq_status x)"
  have "map_of (map ?k (map (\<lambda>x. if P x then f x else x) rows)) q =
      (if q = r then map_option (\<lambda>p. (fst p, st)) (map_of (map ?k rows) r) else map_of (map ?k rows) q)"
    if "\<And>x. x \<in> set rows \<Longrightarrow> rq_id x = r \<Longrightarrow> P x" for rows q
    using that
  proof (induction rows)
    case (Cons x rows)
    have IH: "map_of (map ?k (map (\<lambda>x. if P x then f x else x) rows)) q =
        (if q = r then map_option (\<lambda>p. (fst p, st)) (map_of (map ?k rows) r) else map_of (map ?k rows) q)"
      by (rule Cons.IH) (use Cons.prems in auto)
    show ?case
    proof (cases "rq_id x = r")
      case True
      then have "P x" using Cons.prems by simp
      then show ?thesis using IH True assms(2)[of x] assms(3)[of x] assms(4)[of x] by simp
    next
      case False
      then have "\<not> P x" using assms(1) by blast
      then show ?thesis using IH False by (cases "q = r") auto
    qed
  qed simp
  then show ?thesis using assms(5) by (simp add: roots_def fun_eq_iff moved_apply)
qed

definition request_ids_ok :: "RequestDb \<Rightarrow> bool" where
  "request_ids_ok db \<longleftrightarrow> distinct (map rq_id (requests_t db))"

lemma update_requests_effect:
  assumes u: "update_requests (\<lambda>x. rq_id x = r \<and> Q x) f db = (Some v, db')" and d: "request_ids_ok db"
    and f: "\<And>x. rq_id (f x) = rq_id x" "\<And>x. rq_subtype (f x) = rq_subtype x" "\<And>x. rq_status (f x) = st"
  shows "selections_t db' = selections_t db \<and> grants_t db' = grants_t db \<and> periods_t db' = periods_t db \<and>
    request_ids_ok db' \<and> roots db' = moved r st (roots db) \<and> roots db r \<noteq> None"
proof -
  let ?P = "\<lambda>x. rq_id x = r \<and> Q x"
  obtain q where q: "find ?P (requests_t db) = Some q"
    "db' = db\<lparr>requests_t := map (\<lambda>x. if ?P x then f x else x) (requests_t db)\<rparr>"
    using u unfolding update_requests_Some by blast
  have m: "q \<in> set (requests_t db)" "rq_id q = r" "Q q" using find_Some_in[OF q(1)] by auto
  have "?P x" if "x \<in> set (requests_t db)" "rq_id x = r" for x
    using that m d by (metis request_ids_ok_def inj_on_eq_iff distinct_map)
  then have rts: "roots db' = moved r st (roots db)"
    unfolding q(2) by (intro roots_update) (use f in auto)
  have "map rq_id (requests_t db') = map rq_id (requests_t db)" using q(2) f(1) by simp
  then have "request_ids_ok db'" using d by (simp only: request_ids_ok_def)
  moreover have "roots db r \<noteq> None" using m by (auto simp: roots_def map_of_eq_None_iff image_image)
  ultimately show ?thesis using rts q(2) by simp
qed

lemma walk_root_effect:
  assumes "walk_root r by t path version db = (Some v, db')" "request_ids_ok db" "path \<noteq> []"
  shows "selections_t db' = selections_t db \<and> grants_t db' = grants_t db \<and> periods_t db' = periods_t db \<and>
    request_ids_ok db' \<and> roots db' = moved r (last path) (roots db) \<and> roots db r \<noteq> None"
  using assms
proof (induction path arbitrary: version db)
  case (Cons st path)
  obtain u db1 where s: "update_requests
      (\<lambda>q. rq_id q = r \<and> (case version of None \<Rightarrow> True | Some v \<Rightarrow> rq_version q = v))
      (\<lambda>q. let q' = q\<lparr>rq_status := st, rq_version := rq_version q + 1\<rparr> in
         if path = [] then q'\<lparr>rq_decidedAt := Some t, rq_decidedBy := Some by\<rparr> else q') db = (Some u, db1)"
      "walk_root r by t path (Some u) db1 = (Some v, db')"
    using Cons.prems(1) by (auto split: prod.splits option.splits)
  note e = update_requests_effect[OF s(1) Cons.prems(2), of st]
  show ?case
  proof (cases path)
    case Nil
    then show ?thesis using e s(2) by (simp add: Let_def)
  next
    case (Cons st' path')
    then show ?thesis using e Cons.IH[OF s(2)] by (simp add: Let_def)
  qed
qed simp

lemma writeDerivedRootStatus_effect:
  assumes "writeDerivedRootStatus r path by t db = (Some v, db')" "request_ids_ok db" "path \<noteq> []"
  shows "selections_t db' = selections_t db \<and> grants_t db' = grants_t db \<and> periods_t db' = periods_t db \<and>
    request_ids_ok db' \<and> roots db' = moved r (last path) (roots db) \<and> roots db r \<noteq> None"
  using assms walk_root_effect by (simp add: writeDerivedRootStatus_def)


section \<open>Counting the units\<close>

lemma sum_list_update_unique:
  fixes h :: "'a \<Rightarrow> int"
  assumes "distinct (map k xs)" "x \<in> set xs" "\<And>y. P y \<longleftrightarrow> k y = k x"
  shows "sum_list (map h (map (\<lambda>y. if P y then f y else y) xs)) = sum_list (map h xs) - h x + h (f x)"
  using assms(1,2)
proof (induction xs)
  case (Cons y ys)
  show ?case
  proof (cases "y = x")
    case True
    then have "\<And>z. z \<in> set ys \<Longrightarrow> \<not> P z" using Cons.prems assms(3) by (auto simp: image_iff)
    then have "map (\<lambda>y. if P y then f y else y) ys = ys" by (intro map_idI) auto
    then show ?thesis using True assms(3)[of x] by simp
  next
    case False
    then have "x \<in> set ys" "\<not> P y" using Cons.prems assms(3) by (auto simp: image_iff)
    then show ?thesis using Cons by simp
  qed
qed simp

lemma units_held_replace:
  assumes "distinct (map vs_id sel)" "s \<in> set sel" "vs_id s' = vs_id s"
  shows "units_held i (replace_by vs_id s' sel) = units_held i sel - holds_unit i s + holds_unit i s'"
  unfolding units_held_def replace_by_def
  by (rule sum_list_update_unique[where k = vs_id and x = s and f = "\<lambda>_. s'"]) (use assms in auto)

lemma units_held_nonneg: "0 \<le> units_held i sel"
  by (auto simp: units_held_def holds_unit_def intro!: sum_list_nonneg)

lemma units_held_member: "s \<in> set sel \<Longrightarrow> holds_unit i s \<le> units_held i sel"
proof (induction sel)
  case (Cons x sel)
  then show ?case
    using units_held_nonneg[of i sel] by (cases "s = x") (auto simp: units_held_def holds_unit_def)
qed simp

section \<open>Moving a selection\<close>

text \<open>The selection \<open>s\<close> becomes \<open>s'\<close>, and its root follows.\<close>
lemma selections_moved:
  assumes ok: "selections_ok sel gr rts" and s: "s \<in> set sel" "vs_requestId s = Some r"
    and s': "vs_id s' = vs_id s" "vs_requestId s' = Some r" "vs_periodId s' = vs_periodId s"
    and st: "derivedRequestStatus (vs_status s') = Some st"
    and g: "\<And>i. vs_grantId s' = Some i \<Longrightarrow> (i, vs_periodId s) \<in> gr"
  shows "selections_ok (replace_by vs_id s' sel) gr (moved r st rts)"
proof -
  have d: "distinct (map vs_id sel)" and rows: "\<And>x. x \<in> set sel \<Longrightarrow> row_ok gr rts x"
    and inj: "\<And>x y q. x \<in> set sel \<Longrightarrow> y \<in> set sel \<Longrightarrow> vs_requestId x = Some q \<Longrightarrow> vs_requestId y = Some q \<Longrightarrow> vs_id x = vs_id y"
    using ok unfolding selections_ok_def roots_unshared_def by blast+
  note ids = replace_by_keys[of vs_id s' sel]
  have root: "rts r = Some (VacationSel, st0)" if "row_ok gr rts s" "derivedRequestStatus (vs_status s) = Some st0" for st0
    using that s by (auto simp: row_ok_def)
  obtain st0 where st0: "derivedRequestStatus (vs_status s) = Some st0" "rts r = Some (VacationSel, st0)"
    using rows[OF s(1)] s(2) by (auto simp: row_ok_def)
  have mem: "x = s' \<or> x \<in> set sel \<and> vs_id x \<noteq> vs_id s" if "x \<in> set (replace_by vs_id s' sel)" for x
    using that s'(1) by (auto simp: replace_by_def split: if_splits)
  have rows': "row_ok gr (moved r st rts) x" if x: "x \<in> set (replace_by vs_id s' sel)" for x
  proof (cases "x = s'")
    case True
    have "vs_status s' \<noteq> SAvailable" using st by (auto simp: derivedRequestStatus_def)
    then show ?thesis using True s' st g st0 by (simp add: row_ok_def moved_apply)
  next
    case False
    then have x': "x \<in> set sel" "vs_id x \<noteq> vs_id s" using mem[OF x] by auto
    have "vs_requestId x \<noteq> Some r" using inj[OF x'(1) s(1) _ s(2)] x'(2) by blast
    then have "row_ok gr (moved r st rts) x = row_ok gr rts x"
      by (auto simp: row_ok_def moved_apply split: option.split)
    then show ?thesis using rows[OF x'(1)] by simp
  qed
  have "vs_id x = vs_id y"
    if xy: "x \<in> set (replace_by vs_id s' sel)" "y \<in> set (replace_by vs_id s' sel)"
      and q: "vs_requestId x = Some q" "vs_requestId y = Some q" for x y q
  proof -
    have e: "\<exists>x0 \<in> set sel. vs_id x0 = vs_id z \<and> vs_requestId x0 = vs_requestId z"
      if "z \<in> set (replace_by vs_id s' sel)" for z
      using mem[OF that] s s' by auto
    obtain x0 where x0: "x0 \<in> set sel" "vs_id x0 = vs_id x" "vs_requestId x0 = Some q" using e[OF xy(1)] q(1) by auto
    obtain y0 where y0: "y0 \<in> set sel" "vs_id y0 = vs_id y" "vs_requestId y0 = Some q" using e[OF xy(2)] q(2) by auto
    show ?thesis using inj[OF x0(1) y0(1) x0(3) y0(3)] x0(2) y0(2) by simp
  qed
  with rows' d show ?thesis unfolding selections_ok_def roots_unshared_def ids by blast
qed

lemma grant_keys_replace:
  assumes "distinct (map g_id gr)" "g \<in> set gr" "g_id g' = g_id g" "g_periodId g' = g_periodId g"
  shows "grant_keys (replace_by g_id g' gr) = grant_keys gr"
proof -
  let ?u = "\<lambda>x. if g_id x = g_id g' then g' else x"
  have "(g_id (?u x), g_periodId (?u x)) = (g_id x, g_periodId x)" if "x \<in> set gr" for x
    using distinct_key[OF assms(1) that assms(2)] assms(3,4) by auto
  then show ?thesis unfolding grant_keys_def replace_by_def set_map image_image by (rule image_cong[OF refl])
qed

lemma counters_kept:
  assumes "counters_ok sel gr" "s \<in> set sel" "distinct (map vs_id sel)" "vs_id s' = vs_id s"
    and "\<And>i. holds_unit i s' = holds_unit i s"
  shows "counters_ok (replace_by vs_id s' sel) gr"
  using assms units_held_replace[OF assms(3,2,4)] by (simp add: counters_ok_def)

lemma counters_moved:
  assumes ok: "counters_ok sel gr" and s: "s \<in> set sel" "distinct (map vs_id sel)" "vs_id s' = vs_id s"
    and g: "g \<in> set gr" "g_id g' = g_id g" "grant_checks g'"
    and delta: "unitsConsumed g' = unitsConsumed g - holds_unit (g_id g) s + holds_unit (g_id g) s'"
    and other: "\<And>i. i \<noteq> g_id g \<Longrightarrow> holds_unit i s' = holds_unit i s"
  shows "counters_ok (replace_by vs_id s' sel) (replace_by g_id g' gr)"
proof -
  have d: "distinct (map g_id gr)" and c: "\<And>x. x \<in> set gr \<Longrightarrow> unitsConsumed x = units_held (g_id x) sel \<and> grant_checks x"
    using ok unfolding counters_ok_def by blast+
  have "unitsConsumed x = units_held (g_id x) (replace_by vs_id s' sel) \<and> grant_checks x"
    if x: "x \<in> set (replace_by g_id g' gr)" for x
  proof -
    obtain y where "y \<in> set gr" "x = (if g_id y = g_id g then g' else y)"
      using x g(2) by (auto simp: replace_by_def)
    then consider "x = g'" | "x \<in> set gr" "g_id x \<noteq> g_id g" by (cases "g_id y = g_id g") auto
    then show ?thesis
    proof cases
      case 1
      then show ?thesis using units_held_replace[OF s(2,1,3)] c[OF g(1)] g(2,3) delta by simp
    next
      case 2
      then show ?thesis using units_held_replace[OF s(2,1,3)] c[OF 2(1)] other by simp
    qed
  qed
  then show ?thesis using d unfolding counters_ok_def by simp
qed


section \<open>What the calls do\<close>

lemma update_grants_effect:
  assumes "update_grants (\<lambda>g. g_id g = i \<and> Q g) f db = (Some n, db')" "distinct (map g_id (grants_t db))"
    and "\<And>g. g_id (f g) = g_id g"
  shows "\<exists>g \<in> set (grants_t db). g_id g = i \<and> Q g \<and> n = g_version (f g) \<and>
    db' = db\<lparr>grants_t := replace_by g_id (f g) (grants_t db)\<rparr>"
proof -
  obtain g where g: "find (\<lambda>g. g_id g = i \<and> Q g) (grants_t db) = Some g" "n = g_version (f g)"
    "db' = db\<lparr>grants_t := map (\<lambda>x. if g_id x = i \<and> Q x then f x else x) (grants_t db)\<rparr>"
    using assms(1) unfolding update_grants_Some by blast
  have m: "g \<in> set (grants_t db)" "g_id g = i" "Q g" using find_Some_in[OF g(1)] by auto
  have "map (\<lambda>x. if g_id x = i \<and> Q x then f x else x) (grants_t db) = replace_by g_id (f g) (grants_t db)"
    by (rule map_update_replace[OF assms(2) g(1)]) (use m assms(3) in auto)
  then show ?thesis using m g(2,3) by auto
qed

lemma update_selections_effect:
  assumes "update_selections (\<lambda>s. vs_id s = i \<and> Q s) f db = (Some n, db')" "distinct (map vs_id (selections_t db))"
    and "\<And>s. vs_id (f s) = vs_id s"
  shows "\<exists>s \<in> set (selections_t db). vs_id s = i \<and> Q s \<and> n = vs_version (f s) \<and>
    db' = db\<lparr>selections_t := replace_by vs_id (f s) (selections_t db)\<rparr>"
proof -
  obtain s where s: "find (\<lambda>s. vs_id s = i \<and> Q s) (selections_t db) = Some s" "n = vs_version (f s)"
    "db' = db\<lparr>selections_t := map (\<lambda>x. if vs_id x = i \<and> Q x then f x else x) (selections_t db)\<rparr>"
    using assms(1) unfolding update_selections_Some by blast
  have m: "s \<in> set (selections_t db)" "vs_id s = i" "Q s" using find_Some_in[OF s(1)] by auto
  have "map (\<lambda>x. if vs_id x = i \<and> Q x then f x else x) (selections_t db) = replace_by vs_id (f s) (selections_t db)"
    by (rule map_update_replace[OF assms(2) s(1)]) (use m assms(3) in auto)
  then show ?thesis using m s(2,3) by auto
qed

lemma loadSelection_unique:
  "distinct (map vs_id (selections_t db)) \<Longrightarrow> s \<in> set (selections_t db) \<Longrightarrow> loadSelection db (vs_id s) = Some s"
  unfolding loadSelection_def by (rule find_unique)

lemma loadSelection_in: "loadSelection db i = Some s \<Longrightarrow> s \<in> set (selections_t db) \<and> vs_id s = i"
  unfolding loadSelection_def by (rule find_Some_in)

text \<open>The guarded update of a selection that was read.\<close>
lemma update_loaded:
  assumes "update_selections (\<lambda>s. vs_id s = i \<and> Q s) f db = (Some n, db')" "loadSelection db i = Some s"
    and "distinct (map vs_id (selections_t db))" "\<And>s. vs_id (f s) = vs_id s"
  shows "s \<in> set (selections_t db) \<and> vs_id s = i \<and> Q s \<and> n = vs_version (f s) \<and>
    db' = db\<lparr>selections_t := replace_by vs_id (f s) (selections_t db)\<rparr>"
proof -
  obtain s0 where s0: "s0 \<in> set (selections_t db)" "vs_id s0 = i" "Q s0" "n = vs_version (f s0)"
    "db' = db\<lparr>selections_t := replace_by vs_id (f s0) (selections_t db)\<rparr>"
    using update_selections_effect[OF assms(1,3,4)] by blast
  have "s0 = s" using loadSelection_unique[OF assms(3) s0(1)] s0(2) assms(2) by simp
  then show ?thesis using s0 by simp
qed

lemma listGrants_in: "g \<in> set (listGrants db p) \<longleftrightarrow> g \<in> set (grants_t db) \<and> g_periodId g = p"
  by (auto simp: listGrants_def)

lemma recordCommand_effect:
  "recordCommand i k db = Inr (fresh, db') \<Longrightarrow> \<exists>c. db' = db\<lparr>commands_t := c\<rparr>"
  by (auto simp: recordCommand_def seq_Inr recordApprovalCommand_def split: option.splits)
    (metis RequestDb.surjective RequestDb.update_convs(6))+

lemma resolveGrant_Inr:
  "resolveGrant s c db = Inr (g, db') \<longleftrightarrow> db' = db \<and>
     (case vd_grantId c of
        None \<Rightarrow> find (\<lambda>g. g_kind g = PersonalEntitlement (vs_membershipId s)) (listGrants db (vs_periodId s))
      | Some i \<Rightarrow> find (\<lambda>g. g_id g = i) (listGrants db (vs_periodId s))) = Some g"
  by (auto simp: resolveGrant_def seq_Inr)

lemma resolveGrant_effect:
  "resolveGrant s c db = Inr (g, db') \<Longrightarrow> db' = db \<and> g \<in> set (grants_t db) \<and> g_periodId g = vs_periodId s"
  by (auto simp: resolveGrant_Inr listGrants_in dest!: find_Some_in split: option.splits)

text \<open>Raising the bound leaves the units consumed, and the override non-negative.\<close>
lemma coverShortfall_effect:
  assumes "coverShortfall holds g c db = Inr (x, db')" "distinct (map g_id (grants_t db))" "g \<in> set (grants_t db)"
    and "grant_checks g"
  shows "\<exists>g1. g_id g1 = g_id g \<and> g_periodId g1 = g_periodId g \<and> unitsConsumed g1 = unitsConsumed g \<and>
    0 \<le> overrideUnits g1 \<and> db' = db\<lparr>grants_t := replace_by g_id g1 (grants_t db)\<rparr>"
proof (cases "grantHasHeadroom g")
  case True
  have "replace_by g_id g (grants_t db) = grants_t db"
    unfolding replace_by_def by (rule map_idI) (use distinct_key[OF assms(2) _ assms(3)] in auto)
  then show ?thesis
    using assms True by (intro exI[of _ g]) (simp add: coverShortfall_def grant_checks_def)
next
  case False
  have need: "0 \<le> overrideUnitsNeeded g 1" by (simp add: overrideUnitsNeeded_def Let_def)
  obtain v n where "raiseOverrideUnits (g_id g) v (overrideUnitsNeeded g 1) db = (Some n, db')"
    using assms(1) False by (auto simp: coverShortfall_def Let_def seq_Inr)
  from update_grants_effect[OF this[unfolded raiseOverrideUnits_def] assms(2)]
  obtain g0 where g0: "g0 \<in> set (grants_t db)" "g_id g0 = g_id g"
    "db' = db\<lparr>grants_t := replace_by g_id
       (g0\<lparr>overrideUnits := overrideUnits g0 + overrideUnitsNeeded g 1, g_version := g_version g0 + 1\<rparr>) (grants_t db)\<rparr>"
    by auto
  have "g0 = g" by (rule distinct_key[OF assms(2) g0(1) assms(3) g0(2)])
  then show ?thesis
    using g0(3) assms(4) need
    by (intro exI[of _ "g\<lparr>overrideUnits := overrideUnits g + overrideUnitsNeeded g 1, g_version := g_version g + 1\<rparr>"])
      (simp add: grant_checks_def)
qed

text \<open>The quota step takes exactly one unit of a grant of the round, and leaves it within its bound.\<close>
lemma consumeQuota_effect:
  assumes "consumeQuota holds s c db = Inr ((i, ov, why), db')" "counters_ok sel (grants_t db)"
  shows "\<exists>g g'. g \<in> set (grants_t db) \<and> g_id g = i \<and> g_periodId g = vs_periodId s \<and>
    g_id g' = i \<and> g_periodId g' = vs_periodId s \<and> unitsConsumed g' = unitsConsumed g + 1 \<and> grant_checks g' \<and>
    db' = db\<lparr>grants_t := replace_by g_id g' (grants_t db)\<rparr>"
proof -
  have d: "distinct (map g_id (grants_t db))" and chk: "\<And>g. g \<in> set (grants_t db) \<Longrightarrow> grant_checks g"
    using assms(2) by (auto simp: counters_ok_def)
  from assms(1) obtain g version o' r' db1 n where
    g: "resolveGrant s c db = Inr (g, db)" and h: "coverShortfall holds g c db = Inr ((version, o', r'), db1)"
    and cu: "consumeGrantUnit (g_id g) version db1 = (Some n, db')" and i: "i = g_id g"
    by (auto simp: consumeQuota_def seq_Inr resolveGrant_Inr simp del: case_prod_conv split: option.splits)
  have gm: "g \<in> set (grants_t db)" "g_periodId g = vs_periodId s" using resolveGrant_effect[OF g] by auto
  obtain g1 where g1: "g_id g1 = g_id g" "g_periodId g1 = g_periodId g" "unitsConsumed g1 = unitsConsumed g"
    "0 \<le> overrideUnits g1" "db1 = db\<lparr>grants_t := replace_by g_id g1 (grants_t db)\<rparr>"
    using coverShortfall_effect[OF h d gm(1) chk[OF gm(1)]] by blast
  have d1: "distinct (map g_id (grants_t db1))" using d g1 by simp
  from update_grants_effect[OF cu[unfolded consumeGrantUnit_def] d1]
  obtain g2 where g2: "g2 \<in> set (grants_t db1)" "g_id g2 = g_id g" "unitsConsumed g2 < unitsTotal g2 + overrideUnits g2"
    "db' = db1\<lparr>grants_t := replace_by g_id
       (g2\<lparr>unitsConsumed := unitsConsumed g2 + 1, g_version := g_version g2 + 1\<rparr>) (grants_t db1)\<rparr>"
    by auto
  have "g1 \<in> set (grants_t db1)" using g1 gm by (auto simp: replace_by_def)
  then have e: "g2 = g1" using distinct_key[OF d1 g2(1)] g1(1) g2(2) by simp
  have "0 \<le> unitsConsumed g" using chk[OF gm(1)] by (simp add: grant_checks_def)
  then show ?thesis
    using gm g1 g2(3,4) i unfolding e
    by (intro exI[of _ g] exI[of _ "g1\<lparr>unitsConsumed := unitsConsumed g1 + 1, g_version := g_version g1 + 1\<rparr>"])
      (simp add: grant_checks_def replace_by_twice)
qed


text \<open>The statements that write neither a selection, a grant nor a root.\<close>
definition same_ledger :: "RequestDb \<Rightarrow> RequestDb \<Rightarrow> bool" where
  "same_ledger db db' \<longleftrightarrow> selections_t db' = selections_t db \<and> grants_t db' = grants_t db \<and> requests_t db' = requests_t db"

lemma same_ledger_frames [simp]:
  "same_ledger db (emit a b c d db)" "same_ledger db (recordApproval row db)"
  "same_ledger db (setApprovalCommandOutcome i k oc db)" "same_ledger db (db\<lparr>commands_t := cs\<rparr>)" "same_ledger db db"
  by (simp_all add: same_ledger_def emit_def recordApproval_def setApprovalCommandOutcome_def)

lemma same_ledger_trans: "same_ledger a b \<Longrightarrow> same_ledger b c \<Longrightarrow> same_ledger a c"
  by (simp add: same_ledger_def)

definition ledger_inv :: "RequestDb \<Rightarrow> bool" where
  "ledger_inv db \<longleftrightarrow> ledger_ok db \<and> request_ids_ok db"

lemma same_ledger_inv: "same_ledger db db' \<Longrightarrow> ledger_inv db' = ledger_inv db"
  by (simp add: same_ledger_def ledger_inv_def ledger_ok_parts request_ids_ok_def roots_def)

lemma same_ledger_parts:
  "same_ledger db db' \<Longrightarrow>
     selections_t db' = selections_t db \<and> grants_t db' = grants_t db \<and> roots db' = roots db \<and>
     request_ids_ok db' = request_ids_ok db"
  by (simp add: same_ledger_def request_ids_ok_def roots_def)

text \<open>What the life of a selection keeps: its member, its round and its week, a root once it has one, and a status
  that moves along the selection machine.\<close>
definition selection_kept :: "VacationSelectionRow \<Rightarrow> VacationSelectionRow \<Rightarrow> bool" where
  "selection_kept s s' \<longleftrightarrow>
     vs_membershipId s' = vs_membershipId s \<and> vs_periodId s' = vs_periodId s \<and> vs_weekStart s' = vs_weekStart s \<and>
     (vs_requestId s \<noteq> None \<longrightarrow> vs_requestId s' = vs_requestId s) \<and>
     selectionTransitionIsLegal\<^sup>*\<^sup>* (vs_status s) (vs_status s')"

definition history :: "VacationSelectionRow list \<Rightarrow> VacationSelectionRow list \<Rightarrow> bool" where
  "history sel sel' \<longleftrightarrow> (\<forall>s \<in> set sel. \<exists>s' \<in> set sel'. vs_id s' = vs_id s \<and> selection_kept s s')"

definition ledger_step :: "RequestDb \<Rightarrow> RequestDb \<Rightarrow> bool" where
  "ledger_step db db' \<longleftrightarrow> ledger_inv db' \<and> history (selections_t db) (selections_t db')"

lemma selection_kept_refl [simp]: "selection_kept s s"
  by (simp add: selection_kept_def)

lemma selection_kept_trans: "selection_kept s t \<Longrightarrow> selection_kept t u \<Longrightarrow> selection_kept s u"
  by (auto simp: selection_kept_def intro: rtranclp_trans)

lemma history_refl [simp]: "history sel sel"
  by (auto simp: history_def)

lemma history_trans: "history a b \<Longrightarrow> history b c \<Longrightarrow> history a c"
  unfolding history_def by (metis selection_kept_trans)

lemma history_replace:
  assumes "s \<in> set sel" "distinct (map vs_id sel)" "vs_id s' = vs_id s" "selection_kept s s'"
  shows "history sel (replace_by vs_id s' sel)"
proof -
  have "vs_id (if vs_id x = vs_id s' then s' else x) = vs_id x \<and> selection_kept x (if vs_id x = vs_id s' then s' else x)"
    if "x \<in> set sel" for x
    using distinct_key[OF assms(2) that assms(1)] assms(3,4) by auto
  then show ?thesis unfolding history_def replace_by_def set_map by (intro ballI bexI[OF _ imageI]) auto
qed

lemma ledger_step_inv: "ledger_step db db' \<Longrightarrow> ledger_inv db'"
  by (simp add: ledger_step_def)

lemma ledger_step_trans: "ledger_step a b \<Longrightarrow> ledger_step b c \<Longrightarrow> ledger_step a c"
  unfolding ledger_step_def using history_trans by blast

lemma same_ledger_step: "same_ledger db db' \<Longrightarrow> ledger_inv db \<Longrightarrow> ledger_step db db'"
  using same_ledger_inv[of db db'] same_ledger_parts[of db db'] by (simp add: ledger_step_def)

lemma legal_edges [simp]:
  "selectionTransitionIsLegal SPending SApproved" "selectionTransitionIsLegal SPending SDenied"
  "selectionTransitionIsLegal SPending SWithdrawn" "selectionTransitionIsLegal SApproved SWithdrawn"
  "selectionTransitionIsLegal SApproved SCommitted" "selectionTransitionIsLegal SCommitted SReversed"
  "selectionTransitionIsLegal SAvailable SPending"
  by (simp_all add: selection_edge VACATION_SELECTION_TRANSITIONS_def)

text \<open>A call that moved one selection and its root, and perhaps one grant.\<close>
definition moved_to :: "VacationSelectionRow \<Rightarrow> VacationSelectionRow \<Rightarrow> RequestDb \<Rightarrow> RequestDb \<Rightarrow> bool" where
  "moved_to s s' db db' \<longleftrightarrow>
     s \<in> set (selections_t db) \<and> vs_id s' = vs_id s \<and> vs_requestId s' = vs_requestId s \<and>
     vs_periodId s' = vs_periodId s \<and> vs_membershipId s' = vs_membershipId s \<and> vs_weekStart s' = vs_weekStart s \<and>
     selectionTransitionIsLegal (vs_status s) (vs_status s') \<and>
     selections_t db' = replace_by vs_id s' (selections_t db) \<and> request_ids_ok db' \<and>
     (\<exists>r st. vs_requestId s = Some r \<and> derivedRequestStatus (vs_status s') = Some st \<and>
        roots db' = moved r st (roots db))"

lemma moved_to_history:
  assumes "moved_to s s' db db'" "distinct (map vs_id (selections_t db))"
  shows "history (selections_t db) (selections_t db')"
proof -
  have "selection_kept s s'" using assms(1) by (auto simp: moved_to_def selection_kept_def)
  then show ?thesis using history_replace[of s "selections_t db" s'] assms by (simp add: moved_to_def)
qed

lemma moved_to_step:
  assumes "moved_to s s' db db'" "ledger_inv db" "grants_t db' = grants_t db"
    and "\<And>i. holds_unit i s' = holds_unit i s"
    and "\<And>i. vs_grantId s' = Some i \<Longrightarrow> (i, vs_periodId s) \<in> grant_keys (grants_t db)"
  shows "ledger_step db db'"
proof -
  have ok: "selections_ok (selections_t db) (grant_keys (grants_t db)) (roots db)" "counters_ok (selections_t db) (grants_t db)"
    using assms(2) by (simp_all add: ledger_inv_def ledger_ok_parts)
  obtain r st where m: "s \<in> set (selections_t db)" "vs_id s' = vs_id s" "vs_periodId s' = vs_periodId s"
    "selections_t db' = replace_by vs_id s' (selections_t db)" "request_ids_ok db'" "vs_requestId s = Some r"
    "vs_requestId s' = Some r" "derivedRequestStatus (vs_status s') = Some st" "roots db' = moved r st (roots db)"
    using assms(1) unfolding moved_to_def by auto
  have d: "distinct (map vs_id (selections_t db))" using ok(1) by (simp add: selections_ok_def)
  show ?thesis
    using selections_moved[OF ok(1) m(1,6,2,7,3,8) assms(5)] counters_kept[OF ok(2) m(1) d m(2) assms(4)] m(4,5,9)
      moved_to_history[OF assms(1) d]
    by (simp add: ledger_step_def ledger_inv_def ledger_ok_parts assms(3))
qed

lemma moved_to_step_grant:
  assumes "moved_to s s' db db'" "ledger_inv db"
    and g: "g \<in> set (grants_t db)" "g_id g' = g_id g" "g_periodId g' = g_periodId g" "grant_checks g'"
    and gr: "grants_t db' = replace_by g_id g' (grants_t db)"
    and delta: "unitsConsumed g' = unitsConsumed g - holds_unit (g_id g) s + holds_unit (g_id g) s'"
    and other: "\<And>i. i \<noteq> g_id g \<Longrightarrow> holds_unit i s' = holds_unit i s"
    and key: "\<And>i. vs_grantId s' = Some i \<Longrightarrow> (i, vs_periodId s) \<in> grant_keys (grants_t db)"
  shows "ledger_step db db'"
proof -
  have ok: "selections_ok (selections_t db) (grant_keys (grants_t db)) (roots db)" "counters_ok (selections_t db) (grants_t db)"
    using assms(2) by (simp_all add: ledger_inv_def ledger_ok_parts)
  obtain r st where m: "s \<in> set (selections_t db)" "vs_id s' = vs_id s" "vs_periodId s' = vs_periodId s"
    "selections_t db' = replace_by vs_id s' (selections_t db)" "request_ids_ok db'" "vs_requestId s = Some r"
    "vs_requestId s' = Some r" "derivedRequestStatus (vs_status s') = Some st" "roots db' = moved r st (roots db)"
    using assms(1) unfolding moved_to_def by auto
  have d: "distinct (map vs_id (selections_t db))" "distinct (map g_id (grants_t db))"
    using ok by (simp_all add: selections_ok_def counters_ok_def)
  have "grant_keys (grants_t db') = grant_keys (grants_t db)"
    unfolding gr by (rule grant_keys_replace[OF d(2) g(1,2,3)])
  then show ?thesis
    using selections_moved[OF ok(1) m(1,6,2,7,3,8) key]
      counters_moved[OF ok(2) m(1) d(1) m(2) g(1,2,4) delta other] m(4,5,9) moved_to_history[OF assms(1) d(1)]
    by (simp add: ledger_step_def ledger_inv_def ledger_ok_parts gr)
qed

end
