(* ===== verification/VacationCalls.thy ===== *)
theory VacationCalls
  imports VacationLedger
begin

text \<open>
  What each call of the request and vacation services does to the ledger: one move of a selection with its root
  and its grant, a root of another subtype, or nothing. Every call is a \<open>ledger_step\<close> from a state that satisfies
  the invariant.
\<close>

section \<open>Decisions\<close>

lemma settleDecision_effect:
  assumes "settleDecision newId c s path dec why ov ev px oc db = Inr (r, db')" "request_ids_ok db" "path \<noteq> []"
  shows "vs_requestId s = Some r \<and> selections_t db' = selections_t db \<and> grants_t db' = grants_t db \<and>
    request_ids_ok db' \<and> roots db' = moved r (last path) (roots db)"
proof -
  obtain v db1 row k where w: "vs_requestId s = Some r"
      "writeDerivedRootStatus r path (vd_decidedBy c) (vd_now c) db = (Some v, db1)"
    and d: "db' = setApprovalCommandOutcome (vd_selectionId c) (vd_key c) oc (emit ev r ev k (recordApproval row db1))"
    using assms(1) by (auto simp: settleDecision_def seq_Inr)
  have "same_ledger db1 db'"
    unfolding d same_ledger_def by (simp add: emit_def recordApproval_def setApprovalCommandOutcome_def)
  then show ?thesis using writeDerivedRootStatus_effect[OF w(2) assms(2,3)] same_ledger_parts[of db1 db'] w(1) by simp
qed

lemma derived_statuses [simp]:
  "derivedRequestStatus SApproved = Some Approved" "derivedRequestStatus SDenied = Some Denied"
  "derivedRequestStatus SPending = Some Submitted" "derivedRequestStatus SWithdrawn = Some Withdrawn"
  "derivedRequestStatus SCommitted = Some ReflectedInVersion" "derivedRequestStatus SReversed = Some Reversed"
  "derivedRequestStatus SAvailable = None"
  by (simp_all add: derivedRequestStatus_def)

lemma ledger_inv_distinct:
  "ledger_inv db \<Longrightarrow> distinct (map vs_id (selections_t db)) \<and> distinct (map g_id (grants_t db)) \<and> request_ids_ok db"
  by (auto simp: ledger_inv_def ledger_ok_parts selections_ok_def counters_ok_def)

lemma grant_key_in: "g \<in> set gr \<Longrightarrow> (g_id g, g_periodId g) \<in> grant_keys gr"
  by (auto simp: grant_keys_def)

text \<open>The decision on a pending selection: its row, then its root.\<close>
lemma decision_moves:
  assumes "decideSelection (vd_selectionId c) v st g ov why k db = (Some n, db3)"
    and "settleDecision newId c s path dec why' ov' ev px oc db3 = Inr (r, db')"
    and "loadSelection db (vd_selectionId c) = Some s" "distinct (map vs_id (selections_t db))" "request_ids_ok db"
    and "path \<noteq> []" "derivedRequestStatus st = Some (last path)" "selectionTransitionIsLegal SPending st"
  shows "vs_status s = SPending \<and> grants_t db' = grants_t db \<and>
    (\<exists>s'. vs_status s' = st \<and> vs_grantId s' = g \<and> moved_to s s' db db')"
proof -
  let ?s' = "s\<lparr>vs_status := st, vs_grantId := g, vs_isOverride := ov, vs_overrideReason := why,
      vs_approvalKey := Some k, vs_version := vs_version s + 1\<rparr>"
  have u: "s \<in> set (selections_t db)" "vs_status s = SPending"
    "db3 = db\<lparr>selections_t := replace_by vs_id ?s' (selections_t db)\<rparr>"
    using update_loaded[OF assms(1)[unfolded decideSelection_def] assms(3,4)] by simp_all
  have "request_ids_ok db3" using assms(5) u(3) by (simp add: request_ids_ok_def)
  note e = settleDecision_effect[OF assms(2) this assms(6)]
  have "moved_to s ?s' db db'" using e u assms(7,8) by (simp add: moved_to_def roots_def)
  then show ?thesis using e u by (intro conjI exI[of _ ?s']) simp_all
qed

text \<open>An approval that is not a replay moves a pending selection to \<open>approved\<close> and takes its unit.\<close>
lemma approve_step:
  assumes "approveVacationSelection newId holds c db = Inr (res, db')" "ledger_inv db"
  shows "ledger_step db db'"
proof -
  from assms(1) obtain fresh db1 where rc: "recordCommand (vd_selectionId c) (vd_key c) db = Inr (fresh, db1)"
    and rest: "fresh \<or> db' = db1"
    unfolding approveVacationSelection_def
    by (elim seq_InrE) (auto simp: replayOutcome_def seq_Inr split: if_splits)
  obtain cs where db1: "db1 = db\<lparr>commands_t := cs\<rparr>" using recordCommand_effect[OF rc] by blast
  have step1: "ledger_step db db1" using assms(2) by (intro same_ledger_step) (simp add: db1)
  then have inv1: "ledger_inv db1" by (rule ledger_step_inv)
  note d = ledger_inv_distinct[OF inv1]
  have "ledger_step db1 db'" if f: fresh
  proof -
    consider
      (quota) s i ov why db2 n db3 ev px r where "loadSelection db1 (vd_selectionId c) = Some s"
        "consumeQuota holds s c db1 = Inr ((i, ov, why), db2)"
        "decideSelection (vd_selectionId c) (vd_expectedSelectionVersion c) SApproved (Some i) ov why (vd_key c) db2 = (Some n, db3)"
        "settleDecision newId c s VACATION_APPROVAL_ROOT_PATH DecisionApproved why ov ev px OutcomeApproved db3 = Inr (r, db')"
    | (open_mode) s n db3 ev px r where "loadSelection db1 (vd_selectionId c) = Some s"
        "decideSelection (vd_selectionId c) (vd_expectedSelectionVersion c) SApproved None False None (vd_key c) db1 = (Some n, db3)"
        "settleDecision newId c s VACATION_APPROVAL_ROOT_PATH DecisionApproved None False ev px OutcomeApproved db3 = Inr (r, db')"
      using assms(1) rc f
      by (auto simp: approveVacationSelection_def seq_Inr loadPendingSelection_def split: if_splits)
    then show ?thesis
    proof cases
      case quota
      have ok: "counters_ok (selections_t db1) (grants_t db1)" using inv1 by (simp add: ledger_inv_def ledger_ok_parts)
      obtain g g' where g: "g \<in> set (grants_t db1)" "g_id g = i" "g_periodId g = vs_periodId s" "g_id g' = i"
        "g_periodId g' = vs_periodId s" "unitsConsumed g' = unitsConsumed g + 1" "grant_checks g'"
        "db2 = db1\<lparr>grants_t := replace_by g_id g' (grants_t db1)\<rparr>"
        using consumeQuota_effect[OF quota(2) ok] by blast
      have l: "loadSelection db2 (vd_selectionId c) = Some s" "distinct (map vs_id (selections_t db2))" "request_ids_ok db2"
        using quota(1) d g(8) by (simp_all add: loadSelection_def request_ids_ok_def)
      obtain s' where s': "vs_status s = SPending" "grants_t db' = grants_t db2" "vs_status s' = SApproved"
        "vs_grantId s' = Some i" "moved_to s s' db2 db'"
        using decision_moves[OF quota(3,4) l] by (auto simp: VACATION_APPROVAL_ROOT_PATH_def)
      have "moved_to s s' db1 db'" using s'(5) g(8) by (simp add: moved_to_def roots_def)
      then show ?thesis
        by (rule moved_to_step_grant[OF _ inv1 g(1)])
          (use g s' grant_key_in[OF g(1)] in \<open>simp_all add: holds_unit_def\<close>)
    next
      case open_mode
      obtain s' where s': "vs_status s = SPending" "grants_t db' = grants_t db1" "vs_status s' = SApproved"
        "vs_grantId s' = None" "moved_to s s' db1 db'"
        using decision_moves[OF open_mode(2,3,1)] d by (auto simp: VACATION_APPROVAL_ROOT_PATH_def)
      show ?thesis by (rule moved_to_step[OF s'(5) inv1 s'(2)]) (use s' in \<open>simp_all add: holds_unit_def\<close>)
    qed
  qed
  then show ?thesis using ledger_step_trans[OF step1] rest step1 by (cases fresh) auto
qed

lemma deny_step:
  assumes "denyVacationSelection newId reason c db = Inr (res, db')" "ledger_inv db"
  shows "ledger_step db db'"
proof -
  from assms(1) obtain fresh db1 where rc: "recordCommand (vd_selectionId c) (vd_key c) db = Inr (fresh, db1)"
    and rest: "fresh \<or> db' = db1"
    by (auto simp: denyVacationSelection_def seq_Inr replayOutcome_def split: if_splits)
  obtain cs where db1: "db1 = db\<lparr>commands_t := cs\<rparr>" using recordCommand_effect[OF rc] by blast
  have step1: "ledger_step db db1" using assms(2) by (intro same_ledger_step) (simp add: db1)
  then have inv1: "ledger_inv db1" by (rule ledger_step_inv)
  note d = ledger_inv_distinct[OF inv1]
  have "ledger_step db1 db'" if f: fresh
  proof -
    obtain s n db3 ev px r where e: "loadSelection db1 (vd_selectionId c) = Some s"
        "decideSelection (vd_selectionId c) (vd_expectedSelectionVersion c) SDenied None False None (vd_key c) db1 = (Some n, db3)"
        "settleDecision newId c s VACATION_DENIAL_ROOT_PATH DecisionDenied (Some reason) False ev px OutcomeDenied db3 = Inr (r, db')"
      using assms(1) rc f
      by (auto simp: denyVacationSelection_def seq_Inr loadPendingSelection_def split: if_splits)
    obtain s' where s': "vs_status s = SPending" "grants_t db' = grants_t db1" "vs_status s' = SDenied"
        "vs_grantId s' = None" "moved_to s s' db1 db'"
      using decision_moves[OF e(2,3,1)] d by (auto simp: VACATION_DENIAL_ROOT_PATH_def)
    show ?thesis by (rule moved_to_step[OF s'(5) inv1 s'(2)]) (use s' in \<open>simp_all add: holds_unit_def\<close>)
  qed
  then show ?thesis using ledger_step_trans[OF step1] rest step1 by (cases fresh) auto
qed


section \<open>Withdrawal, reversal and commit\<close>

text \<open>The grants after the unit the selection holds, if any, is given back.\<close>
definition released :: "VacationSelectionRow \<Rightarrow> VacationGrantRow list \<Rightarrow> VacationGrantRow list \<Rightarrow> bool \<Rightarrow> bool" where
  "released s gr gr' b \<longleftrightarrow>
     (vs_grantId s = None \<and> \<not> b \<and> gr' = gr) \<or>
     (\<exists>g g'. vs_grantId s = Some (g_id g) \<and> b \<and> g \<in> set gr \<and> g_id g' = g_id g \<and>
        g_periodId g' = g_periodId g \<and> unitsConsumed g' = unitsConsumed g - 1 \<and> grant_checks g' \<and>
        gr' = replace_by g_id g' gr)"

lemma releaseHeldUnit_effect:
  assumes "releaseHeldUnit e s db = Inr (b, db')" "distinct (map g_id (grants_t db))"
    and "\<And>i. vs_grantId s = Some i \<Longrightarrow> (i, vs_periodId s) \<in> grant_keys (grants_t db)"
  shows "\<exists>gr'. db' = db\<lparr>grants_t := gr'\<rparr> \<and> released s (grants_t db) gr' b"
proof (cases "vs_grantId s")
  case None
  then show ?thesis using assms(1) by (intro exI[of _ "grants_t db"]) (simp add: releaseHeldUnit_def released_def)
next
  case (Some i)
  obtain g where g: "g \<in> set (grants_t db)" "g_id g = i" "g_periodId g = vs_periodId s"
    using assms(3)[OF Some] by (auto simp: grant_keys_def)
  have "distinct (map g_id (listGrants db (vs_periodId s)))"
    using assms(2) by (simp add: listGrants_def distinct_map inj_on_def)
  then have "find (\<lambda>x. g_id x = i) (listGrants db (vs_periodId s)) = Some g"
    using find_unique[of g_id "listGrants db (vs_periodId s)" g] g by (simp add: listGrants_in)
  then obtain u n where r: "b" "releaseGrantUnits (g_id g) (g_version g) 1 u db = (Some n, db')"
      "list_all grant_checks (grants_t db')"
    using assms(1) Some by (auto simp: releaseHeldUnit_def releaseUnits_def seq_Inr Let_def)
  from update_grants_effect[OF r(2)[unfolded releaseGrantUnits_def] assms(2)]
  obtain g0 where g0: "g0 \<in> set (grants_t db)" "g_id g0 = g_id g"
    "db' = db\<lparr>grants_t := replace_by g_id (g0\<lparr>unitsConsumed := unitsConsumed g0 - 1,
       overrideUnits := overrideUnits g0 - u, g_version := g_version g0 + 1\<rparr>) (grants_t db)\<rparr>"
    by auto
  have "g0 = g" by (rule distinct_key[OF assms(2) g0(1) g(1) g0(2)])
  note g0 = g0[unfolded this]
  let ?g' = "g\<lparr>unitsConsumed := unitsConsumed g - 1, overrideUnits := overrideUnits g - u, g_version := g_version g + 1\<rparr>"
  have "?g' \<in> set (grants_t db')" using g g0(3) by (force simp: replace_by_def)
  then have "grant_checks ?g'" using r(3) by (simp add: list_all_iff)
  then have "released s (grants_t db) (replace_by g_id ?g' (grants_t db)) b"
    unfolding released_def using Some g r(1) by (intro disjI2 exI[of _ g] exI[of _ ?g']) simp
  then show ?thesis using g0(3) by blast
qed

lemma withdraw_legal: "selectionOperationVerdict st SelWithdraw \<noteq> None \<longleftrightarrow> st = SPending \<or> st = SApproved"
  by (cases st) (simp_all add: selectionOperationVerdict_def selection_edge VACATION_SELECTION_TRANSITIONS_def)

lemma ledger_inv_row:
  assumes "ledger_inv db" "s \<in> set (selections_t db)"
  shows "row_ok (grant_keys (grants_t db)) (roots db) s"
  using assms by (auto simp: ledger_inv_def ledger_ok_parts selections_ok_def)

lemma ledger_inv_grant_key:
  "ledger_inv db \<Longrightarrow> s \<in> set (selections_t db) \<Longrightarrow> vs_grantId s = Some i \<Longrightarrow> (i, vs_periodId s) \<in> grant_keys (grants_t db)"
  using ledger_inv_row[of db s] by (auto simp: row_ok_def split: option.splits)

text \<open>A release after or before the move: the unit the selection held is given back.\<close>
lemma release_step:
  assumes "moved_to s s' db db'" "ledger_inv db" "vs_grantId s' = vs_grantId s"
    and "vs_status s \<in> {SApproved, SCommitted}" "vs_status s' \<notin> {SApproved, SCommitted}"
    and "released s (grants_t db) (grants_t db') b"
  shows "ledger_step db db'"
  using assms(6) unfolding released_def
proof (elim disjE exE conjE)
  assume "vs_grantId s = None" "grants_t db' = grants_t db"
  then show ?thesis by (intro moved_to_step[OF assms(1,2)]) (use assms(3) in \<open>simp_all add: holds_unit_def\<close>)
next
  fix g g'
  assume g: "vs_grantId s = Some (g_id g)" "g \<in> set (grants_t db)" "g_id g' = g_id g" "g_periodId g' = g_periodId g"
    "unitsConsumed g' = unitsConsumed g - 1" "grant_checks g'" "grants_t db' = replace_by g_id g' (grants_t db)"
  have "s \<in> set (selections_t db)" using assms(1) by (simp add: moved_to_def)
  from ledger_inv_grant_key[OF assms(2) this g(1)] have k: "(g_id g, vs_periodId s) \<in> grant_keys (grants_t db)" .
  show ?thesis
    by (rule moved_to_step_grant[OF assms(1,2) g(2,3,4,6,7)])
      (use g assms(3,4,5) k in \<open>auto simp: holds_unit_def\<close>)
qed

lemma withdraw_step:
  assumes "withdrawVacationSelection c db = Inr (res, db')" "ledger_inv db"
  shows "ledger_step db db'"
proof -
  note d = ledger_inv_distinct[OF assms(2)]
  consider "same_ledger db db'" | (moved) s n db1 r m db2 b db3 where
      "loadSelection db (vx_selectionId c) = Some s" "vs_status s = SPending \<or> vs_status s = SApproved"
      "withdrawSelection (vx_selectionId c) (vx_expectedSelectionVersion c) (vs_status s) db = (Some n, db1)"
      "vs_requestId s = Some r" "writeRootWithdrawal r (vx_now c) db1 = (Some m, db2)"
      "(if vs_status s = SApproved then releaseHeldUnit (VacationSelectionRolledBack NoLongerPending) s else ret False) db2
         = Inr (b, db3)"
      "same_ledger db3 db'"
  proof (cases "loadSelection db (vx_selectionId c)")
    case None
    then show ?thesis using assms(1) that(1) by (simp add: withdrawVacationSelection_def seq_Inr fail_def)
  next
    case (Some s)
    show ?thesis
    proof (cases "vs_membershipId s \<noteq> vx_membershipId c \<or> selectionOperationVerdict (vs_status s) SelWithdraw = None")
      case True
      then show ?thesis
        using assms(1) Some that(1) by (auto simp: withdrawVacationSelection_def seq_Inr fail_def split: if_splits)
    next
      case False
      obtain x db1 where w: "withdrawSelection (vx_selectionId c) (vx_expectedSelectionVersion c) (vs_status s) db = (x, db1)"
        by fastforce
      show ?thesis
      proof (cases x)
        case None
        have "db1 = db" using w None unfolding withdrawSelection_def by (simp add: update_selections_None)
        then show ?thesis
          using assms(1) Some False w None that(1)
          by (auto simp: withdrawVacationSelection_def seq_Inr fail_def split: if_splits)
      next
        case (Some n)
        have st: "vs_status s = SPending \<or> vs_status s = SApproved" using False withdraw_legal by blast
        have nv: "(selectionOperationVerdict (vs_status s) SelWithdraw = None) = False" using False by simp
        obtain r m db2 b db3 k where rest: "vs_requestId s = Some r" "writeRootWithdrawal r (vx_now c) db1 = (Some m, db2)"
          "(if vs_status s = SApproved then releaseHeldUnit (VacationSelectionRolledBack NoLongerPending) s else ret False) db2
             = Inr (b, db3)"
          "db' = emit ''requests.vacation_selection.withdrawn'' r ''requests.vacation_selection.withdrawn'' k db3"
          using assms(1) nv False w Some \<open>loadSelection db (vx_selectionId c) = Some s\<close>
          by (simp add: withdrawVacationSelection_def seq_Inr del: not_None_eq) blast
        have "same_ledger db3 db'" unfolding rest(4) by simp
        then show ?thesis using that(2) \<open>loadSelection db (vx_selectionId c) = Some s\<close> st w Some rest(1-3) by blast
      qed
    qed
  qed
  then show ?thesis
  proof cases
    case 1
    then show ?thesis using assms(2) by (rule same_ledger_step)
  next
    case moved
    let ?s' = "s\<lparr>vs_status := SWithdrawn, vs_version := vs_version s + 1\<rparr>"
    have u: "s \<in> set (selections_t db)" "db1 = db\<lparr>selections_t := replace_by vs_id ?s' (selections_t db)\<rparr>"
      using update_loaded[OF moved(3)[unfolded withdrawSelection_def] moved(1)] d by simp_all
    have rid: "request_ids_ok db1" using d u(2) by (simp add: request_ids_ok_def)
    have root: "selections_t db2 = selections_t db1 \<and> grants_t db2 = grants_t db1 \<and> request_ids_ok db2 \<and>
        roots db2 = moved r Withdrawn (roots db1)"
      using update_requests_effect[where Q = "\<lambda>_. True" and st = Withdrawn, OF _ rid] moved(5)
      by (simp add: writeRootWithdrawal_def)
    have key: "\<And>i. vs_grantId s = Some i \<Longrightarrow> (i, vs_periodId s) \<in> grant_keys (grants_t db)"
      by (rule ledger_inv_grant_key[OF assms(2) u(1)])
    have gr: "grants_t db2 = grants_t db" using root u(2) by simp
    have legal: "selectionTransitionIsLegal (vs_status s) SWithdrawn" using moved(2) by auto
    have move: "moved_to s ?s' db db'"
      if "selections_t db3 = selections_t db2" "roots db3 = roots db2" "request_ids_ok db3 = request_ids_ok db2"
      using that root u moved(4) legal same_ledger_parts[OF moved(7)] by (simp add: moved_to_def roots_def)
    show ?thesis
    proof (cases "vs_status s = SApproved")
      case False
      then have "db3 = db2" using moved(6) by simp
      then have "moved_to s ?s' db db'" "grants_t db' = grants_t db"
        using move gr same_ledger_parts[OF moved(7)] by simp_all
      then show ?thesis
        by (rule moved_to_step[OF _ assms(2)]) (use False key in \<open>simp_all add: holds_unit_def\<close>, use moved(2) in auto)
    next
      case True
      have "releaseHeldUnit (VacationSelectionRolledBack NoLongerPending) s db2 = Inr (b, db3)" using moved(6) True by simp
      from releaseHeldUnit_effect[OF this] obtain gr' where
        rel: "db3 = db2\<lparr>grants_t := gr'\<rparr>" "released s (grants_t db) gr' b"
        using d key gr by auto
      then have "moved_to s ?s' db db'" "grants_t db' = gr'"
        using move same_ledger_parts[OF moved(7)] by (simp_all add: roots_def request_ids_ok_def)
      then show ?thesis using release_step[OF _ assms(2), of s ?s' db' b] True rel(2) by simp
    qed
  qed
qed


lemma commit_paths:
  "selectionEdgeRootPath SApproved SCommitted = Some [ReflectedInVersion]"
  "selectionEdgeRootPath SCommitted SReversed = Some [Reversed]"
  by code_simp+

lemma reverse_step:
  assumes "reverseVacationCommit holds c db = Inr (res, db')" "ledger_inv db"
  shows "ledger_step db db'"
proof -
  note d = ledger_inv_distinct[OF assms(2)]
  obtain s r b db1 n db2 m db3 where e: "loadSelection db (cr_selectionId c) = Some s" "vs_status s = SCommitted"
    "vs_requestId s = Some r" "releaseHeldUnit (VacationReversalRolledBack ReversalGrantConflict) s db = Inr (b, db1)"
    "reverseSelection (cr_selectionId c) (trim (cr_reasonText c)) db1 = (Some n, db2)"
    "writeDerivedRootStatus r [Reversed] (cr_actingMembershipId c) (cr_now c) db2 = (Some m, db3)"
    "\<exists>k1 k2. db' = emit ''requests.request.revision_requested'' r ''schedule.revision_requested'' k2
       (emit ''requests.vacation_selection.reversed'' r ''requests.vacation_selection.reversed'' k1 db3)"
    using assms(1) by (simp add: reverseVacationCommit_def seq_Inr commit_paths) blast
  have s: "s \<in> set (selections_t db)" using loadSelection_in[OF e(1)] by simp
  have key: "\<And>i. vs_grantId s = Some i \<Longrightarrow> (i, vs_periodId s) \<in> grant_keys (grants_t db)"
    by (rule ledger_inv_grant_key[OF assms(2) s])
  obtain gr' where rel: "db1 = db\<lparr>grants_t := gr'\<rparr>" "released s (grants_t db) gr' b"
    using releaseHeldUnit_effect[OF e(4)] d key by auto
  let ?s' = "s\<lparr>vs_status := SReversed, vs_committedTo := None, vs_isOverride := True,
      vs_overrideReason := Some (trim (cr_reasonText c)), vs_version := vs_version s + 1\<rparr>"
  have u: "db2 = db1\<lparr>selections_t := replace_by vs_id ?s' (selections_t db1)\<rparr>"
    using update_loaded[OF e(5)[unfolded reverseSelection_def], of s] e(1) d rel(1) by (simp add: loadSelection_def)
  have rid: "request_ids_ok db2" using d u rel(1) by (simp add: request_ids_ok_def)
  note root = writeDerivedRootStatus_effect[OF e(6) rid]
  have same: "same_ledger db3 db'" using e(7) by (auto simp: same_ledger_def emit_def)
  have "moved_to s ?s' db db'" "grants_t db' = gr'"
    using root same_ledger_parts[OF same] u rel(1) s e(2,3) by (simp_all add: moved_to_def roots_def)
  then show ?thesis using release_step[OF _ assms(2), of s ?s' db' b] e(2) rel(2) by simp
qed

text \<open>A row that was read earlier still names the root the table has for it.\<close>
definition still_linked :: "RequestDb \<Rightarrow> VacationSelectionRow \<Rightarrow> bool" where
  "still_linked db s \<longleftrightarrow> (\<forall>s0 \<in> set (selections_t db). vs_id s0 = vs_id s \<longrightarrow> vs_requestId s0 = vs_requestId s)"

lemma moved_to_linked:
  assumes "moved_to s0 s' db db'" "distinct (map vs_id (selections_t db))" "still_linked db t"
  shows "still_linked db' t"
proof -
  have "vs_requestId x = vs_requestId t" if x: "x \<in> set (selections_t db')" "vs_id x = vs_id t" for x
  proof (cases "x = s'")
    case True
    then show ?thesis using assms x by (auto simp: moved_to_def still_linked_def)
  next
    case False
    then have "x \<in> set (selections_t db)" using assms(1) x by (auto simp: moved_to_def replace_by_def split: if_splits)
    then show ?thesis using assms(3) x(2) by (simp add: still_linked_def)
  qed
  then show ?thesis by (simp add: still_linked_def)
qed

lemma commitOne_moves:
  assumes "commitOne uuid permit tz zone off c s w = Inr (res, w')" "ledger_inv (requests_part w)"
    and "still_linked (requests_part w) s"
  shows "\<exists>s0 s'. moved_to s0 s' (requests_part w) (requests_part w') \<and> vs_id s0 = vs_id s \<and>
    vs_status s0 = SApproved \<and> vs_status s' = SCommitted \<and> vs_grantId s' = vs_grantId s0 \<and>
    grants_t (requests_part w') = grants_t (requests_part w)"
proof -
  note d = ledger_inv_distinct[OF assms(2)]
  obtain dates snaps w1 n db2 r m db3 where e:
    "for_each (commitDate uuid permit tz zone off c s) dates w = Inr (snaps, w1)"
    "commitSelection (vs_id s) (cv_targetVersionId c) (cv_key c) (requests_part w1) = (Some n, db2)"
    "vs_requestId s = Some r"
    "writeDerivedRootStatus r [ReflectedInVersion] (cv_actingMembershipId c) (cv_now c) db2 = (Some m, db3)"
    "requests_part w' = db3"
    using assms(1)
    by (simp add: commitOne_def seq_Inr commit_paths assertDeadlineDoesNotGateCommit_def in_requests_Inr) auto
  have "leaves requests_part (for_each (commitDate uuid permit tz zone off c s) dates)"
    unfolding commitDate_def by (intro leaving)
  from leavesD[OF this e(1)] have w1: "requests_part w1 = requests_part w" .
  have ds: "distinct (map vs_id (selections_t (requests_part w1)))" using d w1 by simp
  from update_selections_effect[OF e(2)[unfolded commitSelection_def] ds]
  obtain s0 where s0: "s0 \<in> set (selections_t (requests_part w))" "vs_id s0 = vs_id s" "vs_status s0 = SApproved"
    "db2 = (requests_part w)\<lparr>selections_t := replace_by vs_id (s0\<lparr>vs_status := SCommitted,
       vs_committedTo := Some (cv_targetVersionId c), vs_commitKey := Some (cv_key c),
       vs_version := vs_version s0 + 1\<rparr>) (selections_t (requests_part w))\<rparr>"
    using w1 by auto
  have r: "vs_requestId s0 = Some r" using assms(3) s0(1,2) e(3) by (simp add: still_linked_def)
  have "request_ids_ok db2" using d s0(4) by (simp add: request_ids_ok_def)
  note root = writeDerivedRootStatus_effect[OF e(4) this]
  show ?thesis
    by (rule exI[of _ s0], rule exI[of _ "s0\<lparr>vs_status := SCommitted, vs_committedTo := Some (cv_targetVersionId c),
        vs_commitKey := Some (cv_key c), vs_version := vs_version s0 + 1\<rparr>"])
      (use root s0 r e(5) in \<open>simp add: moved_to_def roots_def\<close>)
qed

definition loop_inv :: "RequestDb \<Rightarrow> VacationSelectionRow list \<Rightarrow> PlanningDb \<Rightarrow> bool" where
  "loop_inv db rows w \<longleftrightarrow> ledger_step db (requests_part w) \<and> (\<forall>s \<in> set rows. still_linked (requests_part w) s)"

lemma commitOne_keeps:
  assumes "s \<in> set rows"
  shows "keeps (loop_inv db rows) (commitOne uuid permit tz zone off c s)"
proof (rule keepsI)
  fix w a w'
  assume P: "loop_inv db rows w" and r: "commitOne uuid permit tz zone off c s w = Inr (a, w')"
  have inv: "ledger_inv (requests_part w)" using P by (auto simp: loop_inv_def dest: ledger_step_inv)
  obtain s0 s' where m: "moved_to s0 s' (requests_part w) (requests_part w')" "vs_status s0 = SApproved"
    "vs_status s' = SCommitted" "vs_grantId s' = vs_grantId s0" "grants_t (requests_part w') = grants_t (requests_part w)"
    using commitOne_moves[OF r inv] P assms by (auto simp: loop_inv_def)
  have "s0 \<in> set (selections_t (requests_part w))" using m(1) by (simp add: moved_to_def)
  then have "ledger_step (requests_part w) (requests_part w')"
    using moved_to_step[OF m(1) inv m(5)] m(2-4) ledger_inv_grant_key[OF inv] by (simp add: holds_unit_def)
  then show "loop_inv db rows w'"
    using moved_to_linked[OF m(1)] ledger_inv_distinct[OF inv] P ledger_step_trans by (auto simp: loop_inv_def)
qed

lemma prepareCommit_effect:
  "prepareCommit tzdb c w = Inr ((rows, off, zone), w') \<Longrightarrow>
     w' = w \<and> rows = listSelectionsByStatus (requests_part w) (cv_periodId c) SApproved"
  unfolding prepareCommit_def by (elim seq_InrE) (auto split: prod.splits elim!: seq_InrE)

lemma commit_step:
  assumes "commitVacationRound uuid permit tz tzdb c w = Inr (res, w')" "ledger_inv (requests_part w)"
  shows "ledger_step (requests_part w) (requests_part w')"
proof (cases "findCommitCommand (cv_key c) w")
  case (Some row)
  then show ?thesis using assms by (simp add: commitVacationRound_def seq_Inr replayedOutcome_def ledger_step_def)
next
  case None
  let ?rows = "listSelectionsByStatus (requests_part w) (cv_periodId c) SApproved"
  obtain rows off zone w0 finished w1 b w2 where p: "prepareCommit tzdb c w = Inr ((rows, off, zone), w0)"
    and e0: "for_each (commitOne uuid permit tz zone off c) rows w0 = Inr (finished, w1)"
    and e1: "recordCommitCommand \<lparr>cc_key = cv_key c, cc_periodId = cv_periodId c,
       cc_targetVersionId = cv_targetVersionId c, cc_actingMembershipId = cv_actingMembershipId c,
       cc_receivedAt = cv_now c\<rparr> w1 = (b, w2)"
    and e2: "same_ledger (requests_part w2) (requests_part w')"
    using assms(1) None by (auto simp: commitVacationRound_def seq_Inr in_requests_Inr)
  have p': "w0 = w" "rows = ?rows" using prepareCommit_effect[OF p] by auto
  have "loop_inv (requests_part w) ?rows w"
    using assms(2) ledger_inv_distinct[OF assms(2)] distinct_key[of vs_id "selections_t (requests_part w)"]
    by (auto simp: loop_inv_def still_linked_def listSelectionsByStatus_def ledger_step_def)
  moreover have k: "keeps (loop_inv (requests_part w) ?rows) (for_each (commitOne uuid permit tz zone off c) ?rows)"
    by (rule keeps_for_each) (rule commitOne_keeps)
  ultimately have "loop_inv (requests_part w) ?rows w1"
    using keepsD[where P = "loop_inv (requests_part w) ?rows" and s = w and t = w1, OF k] e0[unfolded p'] by blast
  then have "ledger_step (requests_part w) (requests_part w1)" by (simp add: loop_inv_def)
  moreover have "requests_part w2 = requests_part w1"
    using e1 by (auto simp: recordCommitCommand_def split: option.splits)
  ultimately show ?thesis using same_ledger_step[OF e2] ledger_step_trans by (metis ledger_step_inv)
qed


section \<open>Submissions\<close>

lemma roots_unshared_append: "roots_unshared sel \<Longrightarrow> vs_requestId x = None \<Longrightarrow> roots_unshared (sel @ [x])"
  unfolding roots_unshared_def by (metis Un_iff list.set(1,2) insert_iff empty_iff option.distinct(1) set_append)

text \<open>An available selection is created: a row with a fresh identifier, no root and no grant.\<close>
lemma create_step:
  assumes "ledger_inv db" "newId \<notin> vs_id ` set (selections_t db)"
  shows "ledger_step db (createSelection newId m p wk db)"
proof -
  let ?n = "\<lparr>vs_id = newId, vs_requestId = None, vs_membershipId = m, vs_periodId = p, vs_weekStart = wk,
      vs_status = SAvailable, vs_version = 1, vs_grantId = None, vs_isOverride = False,
      vs_overrideReason = None, vs_approvalKey = None, vs_committedTo = None, vs_commitKey = None\<rparr>"
  have n: "row_ok gr rts ?n" "holds_unit i ?n = 0" "vs_requestId ?n = None" "vs_id ?n = newId" for gr rts i
    by (simp_all add: row_ok_def holds_unit_def)
  have ok: "selections_ok (selections_t db) (grant_keys (grants_t db)) (roots db)" "counters_ok (selections_t db) (grants_t db)"
    "request_ids_ok db"
    using assms(1) by (simp_all add: ledger_inv_def ledger_ok_parts)
  have "selections_ok (selections_t db @ [x]) gr rts"
    if "selections_ok (selections_t db) gr rts" "row_ok gr rts x" "vs_requestId x = None" "vs_id x = newId" for gr rts x
  proof -
    have "roots_unshared (selections_t db @ [x])"
      by (rule roots_unshared_append) (use that(1,3) in \<open>simp_all add: selections_ok_def\<close>)
    then show ?thesis using that(1,2,4) assms(2) by (simp add: selections_ok_def)
  qed
  from this[OF ok(1) n(1,3,4)] have s: "selections_ok (selections_t db @ [?n]) (grant_keys (grants_t db)) (roots db)" .
  have "units_held i (selections_t db @ [?n]) = units_held i (selections_t db)" for i
    using n(2) by (simp add: units_held_def)
  then have c: "counters_ok (selections_t db @ [?n]) (grants_t db)" using ok(2) by (simp add: counters_ok_def)
  show ?thesis
    using s c ok(3) unfolding ledger_step_def ledger_inv_def ledger_ok_parts createSelection_def
    by (auto simp: roots_def request_ids_ok_def history_def)
qed

text \<open>A new root for an available selection.\<close>
lemma link_step:
  assumes inv: "ledger_inv db" and s: "s \<in> set (selections_t db)" "vs_status s = SAvailable"
    and fresh: "r \<notin> rq_id ` set (requests_t db)"
    and s': "vs_id s' = vs_id s" "vs_requestId s' = Some r" "vs_status s' = SPending" "vs_grantId s' = vs_grantId s"
      "vs_membershipId s' = vs_membershipId s" "vs_periodId s' = vs_periodId s" "vs_weekStart s' = vs_weekStart s"
    and db': "selections_t db' = replace_by vs_id s' (selections_t db)" "grants_t db' = grants_t db"
      "roots db' = (roots db)(r \<mapsto> (VacationSel, Submitted))" "request_ids_ok db'"
  shows "ledger_step db db'"
proof -
  let ?gr = "grant_keys (grants_t db)"
  have ok: "selections_ok (selections_t db) ?gr (roots db)" "counters_ok (selections_t db) (grants_t db)"
    using inv by (simp_all add: ledger_inv_def ledger_ok_parts)
  have d: "distinct (map vs_id (selections_t db))" using ok(1) by (simp add: selections_ok_def)
  have none: "roots db r = None" using fresh by (auto simp: roots_def map_of_eq_None_iff image_image)
  have rows: "row_ok ?gr (roots db) x" if "x \<in> set (selections_t db)" for x using ok(1) that by (simp add: selections_ok_def)
  have unlinked: "vs_requestId x \<noteq> Some r" if "x \<in> set (selections_t db)" for x
    using rows[OF that] none by (auto simp: row_ok_def)
  have "vs_requestId s = None" "vs_grantId s = None" using rows[OF s(1)] s(2) by (auto simp: row_ok_def split: option.splits)
  note s0 = this
  have mem: "x = s' \<or> x \<in> set (selections_t db) \<and> vs_id x \<noteq> vs_id s" if "x \<in> set (selections_t db')" for x
    using that db'(1) s'(1) by (auto simp: replace_by_def split: if_splits)
  have "row_ok ?gr (roots db') x" if "x \<in> set (selections_t db')" for x
  proof (cases "x = s'")
    case True
    then show ?thesis using s' s0 db'(3) by (simp add: row_ok_def)
  next
    case False
    then have x: "x \<in> set (selections_t db)" using mem[OF that] by simp
    show ?thesis using rows[OF x] unlinked[OF x] db'(3) by (auto simp: row_ok_def split: option.splits)
  qed
  moreover have "vs_id x = vs_id y"
    if xy: "x \<in> set (selections_t db')" "y \<in> set (selections_t db')" "vs_requestId x = Some q" "vs_requestId y = Some q" for x y q
  proof -
    have "x = s' \<longleftrightarrow> y = s'" using mem[OF xy(1)] mem[OF xy(2)] unlinked xy(3,4) s'(2) by auto
    moreover have "vs_id x = vs_id y" if "x \<in> set (selections_t db)" "y \<in> set (selections_t db)"
      using ok(1) that xy(3,4) unfolding selections_ok_def roots_unshared_def by blast
    ultimately show ?thesis using mem[OF xy(1)] mem[OF xy(2)] by auto
  qed
  ultimately have "selections_ok (selections_t db') ?gr (roots db')"
    using d unfolding selections_ok_def roots_unshared_def db'(1) replace_by_keys by blast
  moreover have "counters_ok (selections_t db') (grants_t db)"
    unfolding db'(1) by (rule counters_kept[OF ok(2) s(1) d s'(1)]) (use s s' s0 in \<open>simp add: holds_unit_def\<close>)
  moreover have "selection_kept s s'" using s(2) s' s0(1) by (simp add: selection_kept_def r_into_rtranclp)
  then have "history (selections_t db) (selections_t db')"
    unfolding db'(1) by (intro history_replace[OF s(1) d s'(1)])
  ultimately show ?thesis using db'(2,4) by (simp add: ledger_step_def ledger_inv_def ledger_ok_parts)
qed

lemma createRoot_frame:
  "selections_t (createRoot r m e k t db) = selections_t db \<and> grants_t (createRoot r m e k t db) = grants_t db"
  by (simp add: createRoot_def)

lemma createRoot_roots:
  assumes "r \<notin> rq_id ` set (requests_t db)" "request_ids_ok db"
  shows "roots (createRoot r m e k t db) = (roots db)(r \<mapsto> (VacationSel, Submitted))" "request_ids_ok (createRoot r m e k t db)"
proof -
  have "roots db r = None" using assms(1) by (auto simp: roots_def map_of_eq_None_iff image_image)
  then show "roots (createRoot r m e k t db) = (roots db)(r \<mapsto> (VacationSel, Submitted))"
    by (auto simp: roots_def createRoot_def map_add_def fun_eq_iff initialRequestStatus_def split: option.splits)
  show "request_ids_ok (createRoot r m e k t db)" using assms by (auto simp: request_ids_ok_def createRoot_def)
qed


lemma markRootLate_same: "roots (markRootLate r db) = roots db \<and> selections_t (markRootLate r db) = selections_t db \<and>
  grants_t (markRootLate r db) = grants_t db \<and> request_ids_ok (markRootLate r db) = request_ids_ok db"
proof -
  have "(rq_id x, rq_subtype x, rq_status x) =
      (let y = (if rq_id x = r then x\<lparr>rq_isLate := True, rq_version := rq_version x + 1\<rparr> else x)
       in (rq_id y, rq_subtype y, rq_status y))" for x
    by (simp add: Let_def)
  then show ?thesis
    by (simp add: markRootLate_def update_requests_def sql_update_def roots_def request_ids_ok_def Let_def comp_def)
      (simp add: if_distrib cong: if_cong)
qed

lemma openRequest_step:
  assumes "openRequest tz ctx period timing r i v c db = Inr (res, db')" "ledger_inv db"
    and fresh: "r \<notin> rq_id ` set (requests_t db)"
  shows "ledger_step db db'"
proof -
  note d = ledger_inv_distinct[OF assms(2)]
  obtain e n db2 where l: "linkSelectionToRoot i v r (createRoot r (vc_membershipId c) e (vc_key c) (vc_now c) db) = (Some n, db2)"
    and t: "\<exists>k. db' = emit ''requests.request.submitted'' r ''requests.request.submitted'' k
        (if is_late timing then markRootLate r db2 else db2)"
    using assms(1) by (auto simp: openRequest_def seq_Inr split: if_splits)
  let ?db1 = "createRoot r (vc_membershipId c) e (vc_key c) (vc_now c) db"
  have "distinct (map vs_id (selections_t ?db1))" using d by (simp add: createRoot_frame)
  from update_selections_effect[OF l[unfolded linkSelectionToRoot_def] this]
  obtain s where s: "s \<in> set (selections_t db)" "vs_status s = SAvailable"
    "db2 = ?db1\<lparr>selections_t := replace_by vs_id (s\<lparr>vs_requestId := Some r, vs_status := SPending,
        vs_version := vs_version s + 1\<rparr>) (selections_t db)\<rparr>"
    by (auto simp: createRoot_frame)
  let ?late = "if is_late timing then markRootLate r db2 else db2"
  have late: "roots ?late = roots db2 \<and> selections_t ?late = selections_t db2 \<and> grants_t ?late = grants_t db2 \<and>
      request_ids_ok ?late = request_ids_ok db2"
    using markRootLate_same[of r db2] by simp
  have same: "same_ledger ?late db'" using t by auto
  have "roots db2 = roots ?db1" "grants_t db2 = grants_t ?db1" "request_ids_ok db2 = request_ids_ok ?db1"
    using s(3) by (simp_all add: roots_def request_ids_ok_def)
  then show ?thesis
    using link_step[OF assms(2) s(1,2) fresh, of "s\<lparr>vs_requestId := Some r, vs_status := SPending,
        vs_version := vs_version s + 1\<rparr>" db'] late same_ledger_parts[OF same] s(3) createRoot_frame
      createRoot_roots[OF fresh, of "vc_membershipId c" e "vc_key c" "vc_now c"] d
    by simp
qed

definition fresh_ids :: "string \<Rightarrow> string \<Rightarrow> RequestDb \<Rightarrow> bool" where
  "fresh_ids sid r db \<longleftrightarrow> sid \<notin> vs_id ` set (selections_t db) \<and> r \<notin> rq_id ` set (requests_t db)"

lemma read_then: "keeps P m \<Longrightarrow> (\<And>a. triple P (f a) Q) \<Longrightarrow> triple P (seq m f) Q"
  unfolding keeps_def by (rule triple_seq)

lemma triple_ret: "(\<And>s. P s \<Longrightarrow> Q a s) \<Longrightarrow> triple P (ret a) Q"
  by (auto simp: triple_def)

lemma keeps_lift [keeping]: "keeps P (lift_result w r)"
  by (simp add: keeps_def triple_def)

lemma submit_step:
  "triple (\<lambda>db. ledger_step db0 db \<and> fresh_ids sid r db) (submitVacationSelection tz sid r c) (\<lambda>_. ledger_step db0)"
proof -
  let ?P = "\<lambda>db. ledger_step db0 db \<and> fresh_ids sid r db"
  let ?R = "\<lambda>db. ledger_step db0 db \<and> r \<notin> rq_id ` set (requests_t db)"
  have created: "ledger_step db0 (createSelection i m p w db)"
    if "ledger_step db0 db" "i \<notin> vs_id ` set (selections_t db)" for i m p w db
    using ledger_step_trans[OF that(1) create_step[OF ledger_step_inv[OF that(1)] that(2)]] .
  have fail: "triple P (fail f) (\<lambda>_. ledger_step db0)" if "\<And>db. P db \<Longrightarrow> ledger_step db0 db" for P f
    using that by (simp add: fail_def triple_ret)
  have ensure: "triple ?P (ensureSelection sid period c existing) (\<lambda>_. ?R)" for period existing
    by (rule tripleI) (auto simp: ensureSelection_def seq_Inr fresh_ids_def createSelection_def[symmetric]
        created split: option.splits, simp add: createSelection_def)
  have tail: "triple ?R (openRequest tz ctx period timing r i v c) (\<lambda>_. ledger_step db0)" for ctx period timing i v
    using openRequest_step ledger_step_inv ledger_step_trans by (intro tripleI) blast
  show ?thesis
    unfolding submitVacationSelection_def
    by (intro read_then keeping triple_ret fail triple_seq[OF ensure] tail
        | (auto intro: triple_ret fail tail split: option.splits IdempotentReplay.splits)[1])+
qed


section \<open>The other request services\<close>

text \<open>Selections and grants are untouched and the roots \<open>same\<close> allows keep what they were.\<close>
definition roots_kept :: "(RequestStatus \<Rightarrow> RequestStatus \<Rightarrow> bool) \<Rightarrow> RequestDb \<Rightarrow> RequestDb \<Rightarrow> bool" where
  "roots_kept same db db' \<longleftrightarrow>
     selections_t db' = selections_t db \<and> grants_t db' = grants_t db \<and> (request_ids_ok db \<longrightarrow> request_ids_ok db') \<and>
     (\<forall>q st. roots db q = Some (VacationSel, st) \<longrightarrow> (\<exists>st'. roots db' q = Some (VacationSel, st') \<and> same st st'))"

lemma roots_kept_refl [simp]: "(\<And>st. same st st) \<Longrightarrow> roots_kept same db db"
  by (auto simp: roots_kept_def)

lemma roots_kept_trans:
  "roots_kept same a b \<Longrightarrow> roots_kept same b c \<Longrightarrow> (\<And>x y z. same x y \<Longrightarrow> same y z \<Longrightarrow> same x z) \<Longrightarrow> roots_kept same a c"
  unfolding roots_kept_def by (metis (no_types, lifting))

lemma roots_kept_same: "same_ledger db db' \<Longrightarrow> (\<And>st. same st st) \<Longrightarrow> roots_kept same db db'"
  using same_ledger_parts[of db db'] by (auto simp: roots_kept_def)

lemma roots_kept_step:
  assumes "roots_kept (=) db db'" "ledger_inv db"
  shows "ledger_step db db'"
proof -
  have "row_ok gr (roots db') s" if "row_ok gr (roots db) s" for gr s
    using that assms(1) by (auto simp: row_ok_def roots_kept_def split: option.splits)
  then have "selections_ok sel gr (roots db')" if "selections_ok sel gr (roots db)" for sel gr
    using that by (simp add: selections_ok_def)
  then show ?thesis using assms by (simp add: ledger_step_def ledger_inv_def ledger_ok_parts roots_kept_def)
qed

lemma roots_kept_checked:
  assumes "roots_kept (\<lambda>_ _. True) db db'" "ledger_inv db" "pairs_agree db'"
  shows "ledger_step db db'"
proof -
  have rs: "root_status db' q = map_option snd (roots db' q)" for q
  proof -
    have "map_option rq_status (find (\<lambda>x. rq_id x = q) rows) =
        map_option snd (map_of (map (\<lambda>r. (rq_id r, rq_subtype r, rq_status r)) rows) q)" for rows
      by (induction rows) auto
    then show ?thesis by (simp add: root_status_def loadRoot_def roots_def)
  qed
  have rows: "row_ok gr (roots db') s" if s: "s \<in> set (selections_t db)" "row_ok gr (roots db) s" for gr s
  proof (cases "vs_requestId s")
    case (Some r)
    obtain st where st: "roots db' r = Some (VacationSel, st)"
      using s(2) Some assms(1) unfolding row_ok_def roots_kept_def by auto
    have "s \<in> set (selections_t db')" using s(1) assms(1) by (simp add: roots_kept_def)
    then have "derivedRequestStatus (vs_status s) = Some st"
      using assms(3) Some rs[of r] st by (auto simp: pairs_agree_def list_all_iff)
    then show ?thesis using s(2) Some st by (simp add: row_ok_def)
  qed (use s(2) in \<open>simp add: row_ok_def\<close>)
  have "selections_ok (selections_t db) gr (roots db')" if "selections_ok (selections_t db) gr (roots db)" for gr
    using that rows by (simp add: selections_ok_def)
  then show ?thesis using assms(1,2) by (simp add: ledger_step_def ledger_inv_def ledger_ok_parts roots_kept_def)
qed

lemma update_requests_None: "update_requests P f db = (None, db') \<longleftrightarrow> find P (requests_t db) = None \<and> db' = db"
  by (auto simp: update_requests_def sql_update_def update_none)

text \<open>An update of one root keeps every vacation root, if that root is none or \<open>same\<close> allows it.\<close>
lemma update_requests_kept:
  assumes u: "update_requests (\<lambda>x. rq_id x = i \<and> Q x) f db = (res, db')" and d: "request_ids_ok db"
    and f: "\<And>x. rq_id (f x) = rq_id x" "\<And>x. rq_subtype (f x) = rq_subtype x" "\<And>x. rq_status (f x) = st"
    and same: "\<And>st. same st st" "\<And>st0. roots db i = Some (VacationSel, st0) \<Longrightarrow> same st0 st"
  shows "roots_kept same db db' \<and> (\<forall>sub st0. roots db i = Some (sub, st0) \<longrightarrow> (\<exists>st1. roots db' i = Some (sub, st1)))"
proof (cases res)
  case None
  then show ?thesis using u same(1) by (simp add: update_requests_None)
next
  case (Some v)
  note e = update_requests_effect[OF u[unfolded Some] d f]
  then show ?thesis using same by (auto simp: roots_kept_def moved_apply split: option.splits)
qed

lemma walk_root_kept:
  assumes "walk_root i by t path version db = (res, db')" "request_ids_ok db"
    and "roots db i = Some (sub, st0)" "sub \<noteq> VacationSel"
  shows "roots_kept (=) db db'"
  using assms(1-3)
proof (induction path arbitrary: version db st0)
  case (Cons st path)
  obtain r1 db1 where u: "update_requests
      (\<lambda>q. rq_id q = i \<and> (case version of None \<Rightarrow> True | Some v \<Rightarrow> rq_version q = v))
      (\<lambda>q. let q' = q\<lparr>rq_status := st, rq_version := rq_version q + 1\<rparr> in
         if path = [] then q'\<lparr>rq_decidedAt := Some t, rq_decidedBy := Some by\<rparr> else q') db = (r1, db1)"
    by fastforce
  have k: "roots_kept (=) db db1 \<and> (\<exists>st1. roots db1 i = Some (sub, st1))"
    using update_requests_kept[OF u Cons.prems(2), of st "(=)"] Cons.prems(3) assms(4) by (auto simp: Let_def)
  show ?case
  proof (cases r1)
    case None
    then show ?thesis using Cons.prems(1) u k by simp
  next
    case (Some v)
    then have w: "walk_root i by t path (Some v) db1 = (res, db')" using Cons.prems(1) u by simp
    have "request_ids_ok db1" using k Cons.prems(2) by (simp add: roots_kept_def)
    then have "roots_kept (=) db1 db'" using Cons.IH[OF w] k by blast
    with k show ?thesis using roots_kept_trans[of "(=)" db db1 db'] by simp
  qed
qed simp

lemma loadRoot_roots: "loadRoot db i = Some rt \<Longrightarrow> roots db i = Some (rq_subtype rt, rq_status rt)"
proof -
  have "find (\<lambda>x. rq_id x = i) rows = Some rt \<Longrightarrow>
      map_of (map (\<lambda>r. (rq_id r, rq_subtype r, rq_status r)) rows) i = Some (rq_subtype rt, rq_status rt)" for rows
    by (induction rows) (auto split: if_splits)
  then show "loadRoot db i = Some rt \<Longrightarrow> ?thesis" by (simp add: loadRoot_def roots_def)
qed


lemma verdict_not_vacation:
  "operationVerdict sub st Withdraw = Allowed t \<Longrightarrow> sub \<noteq> VacationSel"
  "operationVerdict sub st Approve = Allowed t \<Longrightarrow> sub \<noteq> VacationSel"
  "operationVerdict sub st Deny = Allowed t \<Longrightarrow> sub \<noteq> VacationSel"
  "operationVerdict sub st ReverseDecision = Allowed t \<Longrightarrow> sub \<noteq> VacationSel"
  by (auto simp: operationVerdict_def withdrawVerdict_def approveVerdict_def denyVerdict_def decisionVerdict_def
      reverseDecisionVerdict_def DECIDABLE_SUBTYPES_def split: if_splits)

lemma kept_then_same: "roots_kept same db db1 \<Longrightarrow> same_ledger db1 db2 \<Longrightarrow> roots_kept same db db2"
  using same_ledger_parts[of db1 db2] by (simp add: roots_kept_def)

lemma withdrawRequest_kept:
  assumes "withdrawRequest c db = (res, db')" "request_ids_ok db"
  shows "roots_kept (=) db db'"
proof (cases "\<exists>rt t. loadRoot db (wc_requestId c) = Some rt \<and> rq_membershipId rt = wc_membershipId c \<and>
    operationVerdict (rq_subtype rt) (rq_status rt) Withdraw = Allowed t")
  case False
  then show ?thesis
    using assms(1) by (auto simp: withdrawRequest_def Let_def split: option.splits if_splits OperationVerdict.splits)
next
  case True
  then obtain rt t where rt: "loadRoot db (wc_requestId c) = Some rt" "rq_membershipId rt = wc_membershipId c"
    "operationVerdict (rq_subtype rt) (rq_status rt) Withdraw = Allowed t" by blast
  obtain x db1 where w: "withdraw (wc_requestId c) (wc_expectedVersion c) (wc_now c)
      (withdrawalRequiresRevision (rq_status rt)) db = (x, db1)" by fastforce
  have "roots_kept (=) db db1"
    using update_requests_kept[OF w[unfolded withdraw_def] assms(2), of Withdrawn "(=)"] loadRoot_roots[OF rt(1)]
      verdict_not_vacation(1)[OF rt(3)] by simp
  moreover have "same_ledger db1 db'"
    using assms(1) rt w
    by (auto simp: withdrawRequest_def Let_def same_ledger_def emit_def split: option.splits if_splits)
  ultimately show ?thesis by (rule kept_then_same)
qed

lemma roots_kept_frames [simp]:
  "roots_kept same db (emit a b c d db1) = roots_kept same db db1"
  "roots_kept same db (recordApproval row db1) = roots_kept same db db1"
  by (simp_all add: roots_kept_def emit_def recordApproval_def roots_def request_ids_ok_def)

lemma decideRequest_kept:
  assumes "decideRequest newId c db = (res, db')" "request_ids_ok db"
  shows "roots_kept (=) db db'"
proof (cases "loadRoot db (dd_requestId c)")
  case None
  then show ?thesis using assms(1) by (simp add: decideRequest_def Let_def)
next
  case (Some rt)
  have k: "roots_kept (=) db db1"
    if "decide i v path by t db = (x, db1)" "i = dd_requestId c" "rq_subtype rt \<noteq> VacationSel" for i v path t x db1 "by"
    using walk_root_kept[OF _ assms(2) loadRoot_roots[OF Some] that(3)] that(1,2) unfolding decide_def by blast
  show ?thesis
  proof (cases "operationVerdict (rq_subtype rt) (rq_status rt) (if dd_approve c then Approve else Deny)")
    case (Refused r)
    then show ?thesis using assms(1) Some by (simp add: decideRequest_def Let_def)
  next
    case (Allowed t)
    then have "rq_subtype rt \<noteq> VacationSel" using verdict_not_vacation(2,3) by (auto split: if_splits)
    then show ?thesis
      using assms(1) Some Allowed k
      by (auto simp: decideRequest_def Let_def publishDecision_def split: option.splits if_splits prod.splits)
  qed
qed

lemma batch_loop_kept:
  "batch_loop c items db = (res, db') \<Longrightarrow> request_ids_ok db \<Longrightarrow> roots_kept (=) db db'"
proof (induction c items db arbitrary: res db' rule: batch_loop.induct)
  case (2 c i v newId items db)
  obtain oc db1 where d: "decideRequest newId \<lparr>dd_requestId = i, dd_expectedVersion = v, dd_approve = bd_approve c,
      dd_reason = bd_reason c, dd_decidedBy = bd_decidedBy c, dd_now = bd_now c\<rparr> db = (oc, db1)" by fastforce
  obtain ocs db2 where r: "batch_loop c items db1 = (ocs, db2)" by fastforce
  have k: "roots_kept (=) db db1" by (rule decideRequest_kept[OF d 2(3)])
  then have "request_ids_ok db1" using 2(3) by (simp add: roots_kept_def)
  from 2(1)[OF d[symmetric] r this] have "roots_kept (=) db1 db2" .
  moreover have "db' = db2" using 2(2) d r by simp
  ultimately show ?case using roots_kept_trans[OF k, of db2] by simp
qed simp

lemma reverseDecision_kept:
  assumes "reverseDecision newId c db = (res, db')" "request_ids_ok db"
  shows "roots_kept (=) db db'"
proof (cases "loadRoot db (rv_requestId c)")
  case None
  then show ?thesis using assms(1) by (simp add: reverseDecision_def Let_def)
next
  case (Some rt)
  show ?thesis
  proof (cases "operationVerdict (rq_subtype rt) (rq_status rt) ReverseDecision")
    case (Refused r)
    then show ?thesis using assms(1) Some by (simp add: reverseDecision_def Let_def)
  next
    case (Allowed t)
    have "roots_kept (=) db db1"
      if "reverseDecisionRow (rv_requestId c) (rv_expectedVersion c) (rv_reversedBy c) (rv_now c) db = (x, db1)" for x db1
      using update_requests_kept[OF that[unfolded reverseDecisionRow_def] assms(2), of SupersededByRevision "(=)"]
        loadRoot_roots[OF Some] verdict_not_vacation(4)[OF Allowed] by simp
    then show ?thesis
      using assms(1) Some Allowed
      by (auto simp: reverseDecision_def Let_def publishDecision_def split: option.splits if_splits prod.splits)
  qed
qed

lemma expireRequest_kept:
  assumes "expireRequest rt db = (res, db')" "request_ids_ok db"
  shows "roots_kept (\<lambda>_ _. True) db db'"
proof -
  have "roots_kept (\<lambda>_ _. True) db db1" if "expire (rq_id rt) db = (x, db1)" for x db1
    using update_requests_kept[OF that[unfolded expire_def] assms(2), of Expired "\<lambda>_ _. True"] by simp
  then show ?thesis
    using assms(1) by (auto simp: expireRequest_def split: option.splits if_splits OperationVerdict.splits prod.splits)
qed

lemma sweep_loop_kept:
  "sweep_loop rts db = (res, db') \<Longrightarrow> request_ids_ok db \<Longrightarrow> roots_kept (\<lambda>_ _. True) db db'"
proof (induction rts db arbitrary: res db' rule: sweep_loop.induct)
  case (2 rt rts db)
  obtain oc db1 where e: "expireRequest rt db = (oc, db1)" by fastforce
  obtain ex rf db2 where r: "sweep_loop rts db1 = ((ex, rf), db2)" by (metis prod.exhaust)
  have k: "roots_kept (\<lambda>_ _. True) db db1" by (rule expireRequest_kept[OF e 2(3)])
  then have "request_ids_ok db1" using 2(3) by (simp add: roots_kept_def)
  from 2(1)[OF e[symmetric] r this] have "roots_kept (\<lambda>_ _. True) db1 db2" .
  moreover have "db' = db2" using 2(2) e r by (auto split: sum.splits)
  ultimately show ?case using roots_kept_trans[OF k, of db2] by simp
qed simp

lemma submitRequest_kept:
  assumes "submitRequest tz newId c db = Inr (res, db')" "request_ids_ok db" "newId \<notin> rq_id ` set (requests_t db)"
  shows "roots_kept (=) db db'"
proof -
  have fresh: "roots db newId = None" using assms(3) by (auto simp: roots_def map_of_eq_None_iff image_image)
  have cr: "roots_kept (=) db (create newId m sub e k r db) \<and> request_ids_ok (create newId m sub e k r db) \<and>
      roots (create newId m sub e k r db) newId = Some (sub, initialRequestStatus sub)" for m sub e k r
    using fresh assms(2,3)
    by (auto simp: roots_kept_def create_def request_ids_ok_def roots_def map_add_def split: option.splits)
  have sb: "roots_kept (=) db db2" if "submit newId 1 e l t (create newId m sub e k r db) = (x, db2)" "sub \<noteq> VacationSel"
    for m sub e k r l t x db2
  proof -
    note c = cr[of m sub e k r]
    have "roots_kept (=) (create newId m sub e k r db) db2"
      using update_requests_kept[OF that(1)[unfolded submit_def], of Submitted "(=)"] c that(2) by simp
    then show ?thesis using roots_kept_trans[of "(=)" db _ db2] c by blast
  qed
  have nv: "sub \<noteq> VacationSel" if "initialRequestStatus sub = Draft" for sub
    using that by (auto simp: initialRequestStatus_def)
  show ?thesis
    using assms(1) cr sb nv
    by (auto simp: submitRequest_def Let_def split: option.splits sum.splits if_splits OperationVerdict.splits
        prod.splits IdempotentReplay.splits)
qed

end
