(* ===== verification/VacationRuns.thy ===== *)
theory VacationRuns
  imports VacationCalls StepSystem
begin

text \<open>
  The runs of the request half: any sequence of units of work of the request services, the vacation services and
  the round commit, with provisioning of grants in between. The ledger invariant holds in every state, no
  selection leaves its machine, and the deferred check of the status pairs refuses no vacation service; it does
  refuse the expiry sweep when an overdue vacation request is among the rows it claims.
\<close>

section \<open>Units of work\<close>

definition throwing :: "('s \<Rightarrow> thrown + 'a \<times> 's) \<Rightarrow> ('s, vacation_error, 'a) action" where
  "throwing f s = (case f s of Inl e \<Rightarrow> Inl (VacationFault e) | Inr r \<Rightarrow> Inr r)"

text \<open>A unit of work on the request tables, inside the whole database.\<close>
definition request_work :: "'a vacation \<Rightarrow> 'a planning" where
  "request_work m = unit_of_work requests_part (in_requests m)"

lemma throwing_Inr [simp]: "throwing f s = Inr r \<longleftrightarrow> f s = Inr r"
  by (auto simp: throwing_def split: sum.splits)

lemma unit_of_work_Inr: "unit_of_work part m s = Inr (a, t) \<longleftrightarrow> m s = Inr (a, t) \<and> pairs_agree (part t)"
  by (auto simp: unit_of_work_def seq_Inr)

lemma request_work_Inr:
  "request_work m w = Inr (a, w') \<longleftrightarrow>
     (\<exists>db. m (requests_part w) = Inr (a, db) \<and> w' = w\<lparr>requests_part := db\<rparr> \<and> pairs_agree db)"
  by (auto simp: request_work_def unit_of_work_Inr in_requests_Inr)

text \<open>A call whose result keeps the pairs is not stopped at the commit.\<close>
lemma unit_of_work_passes:
  "(\<And>a t. m s = Inr (a, t) \<Longrightarrow> pairs_agree (part t)) \<Longrightarrow> unit_of_work part m s = m s"
  by (cases "m s") (auto simp: unit_of_work_def seq_def query_def demand_def ret_def)

text \<open>The invariant implies the deferred check.\<close>
lemma ledger_inv_pairs: "ledger_inv db \<Longrightarrow> pairs_agree db"
proof -
  have rs: "root_status db q = map_option snd (roots db q)" for q
  proof -
    have "map_option rq_status (find (\<lambda>x. rq_id x = q) rows) =
        map_option snd (map_of (map (\<lambda>r. (rq_id r, rq_subtype r, rq_status r)) rows) q)" for rows
      by (induction rows) auto
    then show ?thesis by (simp add: root_status_def loadRoot_def roots_def)
  qed
  assume inv: "ledger_inv db"
  show ?thesis
    unfolding pairs_agree_def list_all_iff
  proof
    fix s assume "s \<in> set (selections_t db)"
    from ledger_inv_row[OF inv this]
    show "case vs_requestId s of None \<Rightarrow> True
       | Some r \<Rightarrow> (case root_status db r of None \<Rightarrow> True
           | Some st \<Rightarrow> derivedRequestStatus (vs_status s) = Some st)"
      by (auto simp: row_ok_def rs split: option.splits)
  qed
qed

section \<open>The step relation\<close>

inductive vacation_step :: "PlanningDb \<Rightarrow> PlanningDb \<Rightarrow> bool" where
  submit_request:
    "newId \<notin> rq_id ` set (requests_t (requests_part w)) \<Longrightarrow>
     request_work (throwing (submitRequest tz newId c)) w = Inr (a, w') \<Longrightarrow> vacation_step w w'"
| withdraw_request: "request_work (perform (withdrawRequest cw)) w = Inr (b, w') \<Longrightarrow> vacation_step w w'"
| sweep: "request_work (perform (sweepExpiredRequests now)) w = Inr (swept, w') \<Longrightarrow> vacation_step w w'"
| decide_batch: "request_work (throwing (decideRequestsBatch ids cb)) w = Inr (outcomes, w') \<Longrightarrow> vacation_step w w'"
| reverse_decision: "request_work (perform (reverseDecision newId cr)) w = Inr (d, w') \<Longrightarrow> vacation_step w w'"
| submit_selection:
    "fresh_ids sid r (requests_part w) \<Longrightarrow>
     request_work (submitVacationSelection tz sid r cs) w = Inr (e, w') \<Longrightarrow> vacation_step w w'"
| withdraw_selection: "request_work (withdrawVacationSelection cx) w = Inr (e, w') \<Longrightarrow> vacation_step w w'"
| approve: "request_work (approveVacationSelection newId holds cd) w = Inr (f, w') \<Longrightarrow> vacation_step w w'"
| deny: "request_work (denyVacationSelection newId reason cd) w = Inr (f, w') \<Longrightarrow> vacation_step w w'"
| commit_round:
    "unit_of_work requests_part (commitVacationRound uuid permit tz tzdb cv) w = Inr (g, w') \<Longrightarrow> vacation_step w w'"
| reverse_commit: "request_work (reverseVacationCommit holds cc) w = Inr (h, w') \<Longrightarrow> vacation_step w w'"
| provision:
    "g_id gr \<notin> g_id ` set (grants_t (requests_part w)) \<Longrightarrow> unitsConsumed gr = 0 \<Longrightarrow> grant_checks gr \<Longrightarrow>
     vacation_step w (w\<lparr>requests_part := (requests_part w)\<lparr>grants_t := grants_t (requests_part w) @ [gr]\<rparr>\<rparr>)"
| elsewhere: "same_ledger (requests_part w) (requests_part w') \<Longrightarrow> vacation_step w w'"

definition fresh_group :: "PlanningDb \<Rightarrow> bool" where
  "fresh_group w \<longleftrightarrow>
     selections_t (requests_part w) = [] \<and> grants_t (requests_part w) = [] \<and> requests_t (requests_part w) = []"

abbreviation planning_inv :: "PlanningDb \<Rightarrow> bool" where
  "planning_inv w \<equiv> ledger_inv (requests_part w)"

abbreviation planning_history :: "PlanningDb \<Rightarrow> PlanningDb \<Rightarrow> bool" where
  "planning_history w w' \<equiv> history (selections_t (requests_part w)) (selections_t (requests_part w'))"

lemma row_ok_more: "row_ok gr rts s \<Longrightarrow> gr \<subseteq> gr' \<Longrightarrow> row_ok gr' rts s"
  by (auto simp: row_ok_def split: option.splits)

lemma provision_step:
  assumes "ledger_inv db" "g_id gr \<notin> g_id ` set (grants_t db)" "unitsConsumed gr = 0" "grant_checks gr"
  shows "ledger_step db (db\<lparr>grants_t := grants_t db @ [gr]\<rparr>)"
proof -
  have row: "row_ok (grant_keys (grants_t db)) (roots db) s" if "s \<in> set (selections_t db)" for s
    using ledger_inv_row[OF assms(1) that] .
  have "vs_grantId s \<noteq> Some (g_id gr)" if "s \<in> set (selections_t db)" for s
    using row[OF that] assms(2) by (auto simp: row_ok_def grant_keys_def split: option.splits)
  then have "\<And>s. s \<in> set (selections_t db) \<Longrightarrow> holds_unit (g_id gr) s = 0" by (simp add: holds_unit_def)
  then have "units_held (g_id gr) (selections_t db) = 0" by (simp add: units_held_def cong: map_cong)
  moreover have "row_ok (grant_keys (grants_t db @ [gr])) (roots db) s" if "s \<in> set (selections_t db)" for s
    by (rule row_ok_more[OF row[OF that]]) (auto simp: grant_keys_def)
  ultimately show ?thesis
    using assms
    by (auto simp: ledger_step_def ledger_inv_def ledger_ok_parts selections_ok_def counters_ok_def roots_def
        request_ids_ok_def)
qed

lemma planning_step:
  assumes "vacation_step w w'" "planning_inv w"
  shows "ledger_step (requests_part w) (requests_part w')"
  using assms
proof (induction rule: vacation_step.induct)
  case (submit_request newId w tz c a w')
  then obtain db where "submitRequest tz newId c (requests_part w) = Inr (a, db)" "w' = w\<lparr>requests_part := db\<rparr>"
    by (auto simp: request_work_Inr)
  then show ?case
    using roots_kept_step[OF submitRequest_kept] submit_request ledger_inv_distinct by simp
next
  case (withdraw_request cw w b w')
  then show ?case
    using roots_kept_step[OF withdrawRequest_kept] ledger_inv_distinct by (auto simp: request_work_Inr)
next
  case (sweep now w swept w')
  then obtain db where s: "sweepExpiredRequests now (requests_part w) = (swept, db)" "w' = w\<lparr>requests_part := db\<rparr>"
    "pairs_agree db" by (auto simp: request_work_Inr)
  then have "roots_kept (\<lambda>_ _. True) (requests_part w) db"
    using sweep_loop_kept[of _ "requests_part w" _ db] ledger_inv_distinct[OF sweep(2)]
    by (auto simp: sweepExpiredRequests_def Let_def split: prod.splits)
  then show ?case using roots_kept_checked[OF _ sweep(2) s(3)] s(2) by simp
next
  case (decide_batch ids cb w outcomes w')
  then show ?case
    using roots_kept_step[OF batch_loop_kept] ledger_inv_distinct
    by (auto simp: request_work_Inr decideRequestsBatch_def split: if_splits)
next
  case (reverse_decision newId cr w d w')
  then show ?case
    using roots_kept_step[OF reverseDecision_kept] ledger_inv_distinct by (auto simp: request_work_Inr)
next
  case (submit_selection sid r w tz cs e w')
  then have "ledger_step (requests_part w) (requests_part w) \<and> fresh_ids sid r (requests_part w)"
    by (simp add: ledger_step_def)
  then show ?case using submit_selection(2) tripleD[OF submit_step] by (auto simp: request_work_Inr)
next
  case (provision gr w)
  then show ?case using provision_step[of "requests_part w" gr] by simp
next
  case (elsewhere w w')
  then show ?case by (rule same_ledger_step)
next
  case (commit_round uuid permit tz tzdb cv w g w')
  then show ?case using commit_step[of uuid permit tz tzdb cv w g w'] by (simp add: unit_of_work_Inr)
qed (auto simp: request_work_Inr intro: withdraw_step approve_step deny_step reverse_step)

lemma fresh_group_inv: "fresh_group w \<Longrightarrow> planning_inv w"
  by (simp add: fresh_group_def ledger_inv_def ledger_ok_parts selections_ok_def counters_ok_def roots_unshared_def
      request_ids_ok_def)

interpretation vacation: step_system fresh_group vacation_step planning_inv planning_history
proof unfold_locales
  show "fresh_group s \<Longrightarrow> planning_inv s" for s by (rule fresh_group_inv)
  show "vacation_step s t \<Longrightarrow> planning_inv s \<Longrightarrow> planning_inv t" for s t
    using planning_step ledger_step_inv by blast
  show "vacation_step s t \<Longrightarrow> planning_inv s \<Longrightarrow> planning_history s t" for s t
    using planning_step by (simp add: ledger_step_def)
  show "planning_history s s" for s by simp
  show "planning_history s t \<Longrightarrow> planning_history t u \<Longrightarrow> planning_history s u" for s t u by (rule history_trans)
qed

end
