(* ===== verification/CommandLedger.thy ===== *)
theory CommandLedger
  imports VacationRuns
begin

text \<open>
  The ledger of delivered decisions, \<open>vacation_approval_commands\<close>. Approval and denial write it, at step 0 and with
  the outcome; no other service does. A row that is there stays as it is over any later run.
\<close>

section \<open>Statements that leave the ledger alone\<close>

named_theorems ledger_free \<open>statements that do not write the ledger of commands\<close>

lemma update_commands [ledger_free]:
  "commands_t (snd (update_grants P g db)) = commands_t db"
  "commands_t (snd (update_selections Q s db)) = commands_t db"
  "commands_t (snd (update_requests R r db)) = commands_t db"
  by (simp_all add: update_grants_def update_selections_def update_requests_def sql_update_def)

lemma walk_commands [ledger_free]: "commands_t (snd (walk_root r by t path version db)) = commands_t db"
proof (induction path arbitrary: version db)
  case (Cons st path)
  then show ?case by (simp add: case_prod_beta update_commands split: option.split)
qed simp

lemma statement_commands [ledger_free]:
  "commands_t (snd (consumeGrantUnit i v db)) = commands_t db"
  "commands_t (snd (raiseOverrideUnits i v n db)) = commands_t db"
  "commands_t (snd (releaseGrantUnits i v n o' db)) = commands_t db"
  "commands_t (snd (decideSelection i v st g ov why k db)) = commands_t db"
  "commands_t (snd (linkSelectionToRoot i v q db)) = commands_t db"
  "commands_t (snd (withdrawSelection i v st db)) = commands_t db"
  "commands_t (snd (commitSelection i q k db)) = commands_t db"
  "commands_t (snd (reverseSelection i k db)) = commands_t db"
  "commands_t (snd (writeDerivedRootStatus q path by t db)) = commands_t db"
  "commands_t (snd (decide q v path by t db)) = commands_t db"
  "commands_t (snd (writeRootWithdrawal q t db)) = commands_t db"
  "commands_t (snd (submit q v t late t' db)) = commands_t db"
  "commands_t (snd (withdraw q v t late db)) = commands_t db"
  "commands_t (snd (expire q db)) = commands_t db"
  "commands_t (snd (reverseDecisionRow q v by t db)) = commands_t db"
  by (simp_all add: consumeGrantUnit_def raiseOverrideUnits_def releaseGrantUnits_def decideSelection_def
      linkSelectionToRoot_def withdrawSelection_def commitSelection_def reverseSelection_def
      writeDerivedRootStatus_def decide_def writeRootWithdrawal_def submit_def withdraw_def expire_def
      reverseDecisionRow_def ledger_free)

lemma insert_commands [ledger_free]:
  "commands_t (emit a b c d db) = commands_t db" "commands_t (recordApproval row db) = commands_t db"
  "commands_t (createSelection n m p w db) = commands_t db" "commands_t (createRoot n m n' k t db) = commands_t db"
  "commands_t (create n m sub n' k r db) = commands_t db" "commands_t (markRootLate q db) = commands_t db"
  "commands_t (publishDecision ev i v db) = commands_t db"
  by (simp_all add: emit_def recordApproval_def createSelection_def createRoot_def create_def markRootLate_def
      publishDecision_def update_commands)

section \<open>The request service\<close>

lemma withdrawRequest_commands [ledger_free]: "commands_t (snd (withdrawRequest c db)) = commands_t db"
  by (simp add: withdrawRequest_def Let_def case_prod_beta ledger_free split: option.split OperationVerdict.split)

lemma decideRequest_commands [ledger_free]: "commands_t (snd (decideRequest i c db)) = commands_t db"
  by (simp add: decideRequest_def Let_def case_prod_beta ledger_free split: option.split OperationVerdict.split)

lemma batch_commands [ledger_free]: "commands_t (snd (batch_loop c items db)) = commands_t db"
proof (induction c items db rule: batch_loop.induct)
  case (2 c i v newId items db)
  then show ?case by (simp add: case_prod_beta 2[OF prod.collapse] ledger_free)
qed simp

lemma reverseDecision_commands [ledger_free]: "commands_t (snd (reverseDecision i c db)) = commands_t db"
  by (simp add: reverseDecision_def Let_def case_prod_beta ledger_free split: option.split OperationVerdict.split)

lemma expireRequest_commands [ledger_free]: "commands_t (snd (expireRequest rt db)) = commands_t db"
  by (simp add: expireRequest_def case_prod_beta ledger_free split: option.split OperationVerdict.split)

lemma sweep_loop_commands [ledger_free]: "commands_t (snd (sweep_loop rts db)) = commands_t db"
proof (induction rts db rule: sweep_loop.induct)
  case (2 rt rts db)
  then show ?case by (simp add: case_prod_beta 2[OF prod.collapse] ledger_free split: sum.split)
qed simp

lemma sweep_commands [ledger_free]: "commands_t (snd (sweepExpiredRequests now db)) = commands_t db"
  by (simp add: sweepExpiredRequests_def Let_def case_prod_beta ledger_free)

lemma submitRequest_commands: "leaves commands_t (throwing (submitRequest tz i c))"
proof (unfold leaves_def throwing_Inr, intro allI impI)
  fix db res db'
  assume call: "submitRequest tz i c db = Inr (res, db')"
  have "commands_t db2 = commands_t db1" if "submit n v t late t' db1 = (x, db2)" for n v t late t' db1 x db2
    using that statement_commands(12)[of n v t late t' db1] by simp
  then show "commands_t db' = commands_t db"
    using call insert_commands
    by (auto simp: submitRequest_def Let_def split: option.splits sum.splits if_splits OperationVerdict.splits
        prod.splits IdempotentReplay.splits)
qed

section \<open>The vacation services\<close>

lemma leaves_perform [leaving]: "(\<And>db. commands_t (snd (f db)) = commands_t db) \<Longrightarrow> leaves commands_t (perform f)"
  by (simp add: leaves_def perform_def) (metis snd_conv)

lemma leaves_update [leaving]: "(\<And>db. commands_t (snd (f db)) = commands_t db) \<Longrightarrow> leaves commands_t (update_or e f)"
  unfolding update_or_def by (intro leaving)

lemma leaves_write [leaving]: "(\<And>db. commands_t (f db) = commands_t db) \<Longrightarrow> leaves commands_t (store f)"
  by (rule leaves_store)

lemma leaves_lift [leaving]: "leaves v (lift_result g r)"
  by (simp add: leaves_def lift_result_def split: sum.split)

lemma leaves_fail [leaving]: "leaves v (fail f)"
  by (simp add: fail_def leaving)

lemma leaves_cases [leaving]:
  "leaves v n \<Longrightarrow> (\<And>a. x = Some a \<Longrightarrow> leaves v (m a)) \<Longrightarrow> leaves v (case x of None \<Rightarrow> n | Some a \<Rightarrow> m a)"
  "(\<And>a b. p = (a, b) \<Longrightarrow> leaves v (l a b)) \<Longrightarrow> leaves v (case p of (a, b) \<Rightarrow> l a b)"
  "(\<And>s. leaves v (j s)) \<Longrightarrow> (\<And>rt. leaves v (k rt)) \<Longrightarrow> leaves v q \<Longrightarrow>
   leaves v (case y of Fresh \<Rightarrow> q | Replay rt \<Rightarrow> k rt | Reused s \<Rightarrow> j s)"
  by (simp_all split: option.split prod.split IdempotentReplay.split)

lemma release_commands [leaving]: "leaves commands_t (releaseHeldUnit e s)"
  unfolding releaseHeldUnit_def releaseUnits_def Let_def by (intro leaving ledger_free)

lemma withdraw_commands: "leaves commands_t (withdrawVacationSelection c)"
  unfolding withdrawVacationSelection_def by (intro leaving ledger_free)

lemma reverse_commands: "leaves commands_t (reverseVacationCommit holds c)"
  unfolding reverseVacationCommit_def by (intro leaving ledger_free)

lemma ensure_commands [leaving]: "leaves commands_t (ensureSelection i p c e)"
  unfolding ensureSelection_def by (intro leaving ledger_free)

lemma open_commands [leaving]: "leaves commands_t (openRequest tz g p t r i v c)"
  unfolding openRequest_def by (intro leaving ledger_free)

lemma submit_commands: "leaves commands_t (submitVacationSelection tz i r c)"
  unfolding submitVacationSelection_def by (intro leaving ledger_free)

section \<open>The round commit\<close>

abbreviation request_commands :: "PlanningDb \<Rightarrow> ApprovalCommandRow list" where
  "request_commands w \<equiv> commands_t (requests_part w)"

lemma leaves_in_requests [leaving]: "leaves commands_t m \<Longrightarrow> leaves request_commands (in_requests m)"
  by (auto simp: leaves_def in_requests_Inr)

lemma leaves_in_schedule [leaving]: "leaves request_commands (in_schedule m)"
  by (auto simp: leaves_def in_schedule_def split: sum.splits)

lemma leaves_commit_command [leaving]: "leaves request_commands (perform (recordCommitCommand row))"
  by (auto simp: leaves_def perform_def recordCommitCommand_def split: option.splits)

lemma commit_commands: "leaves request_commands (commitVacationRound uuid permit tz tzdb c)"
  unfolding commitVacationRound_def replayedOutcome_def prepareCommit_def commitOne_def commitDate_def
    assertDeadlineDoesNotGateCommit_def
  by (intro leaving ledger_free)

section \<open>Decisions\<close>

lemma update_requests_other:
  "update_requests P f db = (x, db') \<Longrightarrow> commands_t db' = commands_t db \<and> selections_t db' = selections_t db"
  by (auto simp: update_requests_def sql_update_def)

lemma walk_root_other:
  "walk_root r by t path version db = (x, db') \<Longrightarrow> commands_t db' = commands_t db \<and> selections_t db' = selections_t db"
  by (induction path arbitrary: version db)
    (auto dest!: update_requests_other split: prod.splits option.splits)

lemma settleDecision_other:
  assumes "settleDecision newId c s path dec why ov ev px oc db = Inr (r, db')"
  shows "commands_t db' = map (\<lambda>x. if cm_selectionId x = vd_selectionId c \<and> cm_key x = vd_key c
      then x\<lparr>cm_outcome := Some oc\<rparr> else x) (commands_t db) \<and> selections_t db' = selections_t db \<and> vs_requestId s = Some r"
proof -
  obtain v db1 row k where w: "writeDerivedRootStatus r path (vd_decidedBy c) (vd_now c) db = (Some v, db1)" "vs_requestId s = Some r"
    and d: "db' = setApprovalCommandOutcome (vd_selectionId c) (vd_key c) oc (emit ev r ev k (recordApproval row db1))"
    using assms by (auto simp: settleDecision_def seq_Inr)
  have "commands_t db1 = commands_t db \<and> selections_t db1 = selections_t db"
    using w walk_root_other unfolding writeDerivedRootStatus_def by blast
  then show ?thesis
    unfolding d using w(2) by (simp add: setApprovalCommandOutcome_def emit_def recordApproval_def sql_update_def)
qed

lemma consumeQuota_commands: "consumeQuota holds s c db = Inr (x, db') \<Longrightarrow> commands_t db' = commands_t db \<and> selections_t db' = selections_t db"
  by (auto simp: consumeQuota_def coverShortfall_def resolveGrant_def seq_Inr Let_def consumeGrantUnit_def raiseOverrideUnits_def
      update_grants_def sql_update_def split: if_splits option.splits)

lemma approve_fresh:
  assumes "approveVacationSelection newId holds c db = Inr (res, db')"
    and "recordCommand (vd_selectionId c) (vd_key c) db = Inr (True, db1)"
  shows "\<exists>s db2 g ov why n db3 ev px r. loadSelection db1 (vd_selectionId c) = Some s \<and>
    commands_t db2 = commands_t db1 \<and> selections_t db2 = selections_t db1 \<and>
    decideSelection (vd_selectionId c) (vd_expectedSelectionVersion c) SApproved g ov why (vd_key c) db2 = (Some n, db3) \<and>
    settleDecision newId c s VACATION_APPROVAL_ROOT_PATH DecisionApproved why ov ev px OutcomeApproved db3 = Inr (r, db') \<and>
    res = \<lparr>vr_selectionId = vd_selectionId c, vr_requestId = r, vr_outcome = OutcomeApproved,
      vr_selectionVersion = n, vr_grantId = g, vr_isOverride = ov, vr_replayed = False\<rparr>"
proof -
  consider
    (quota) s i ov why db2 n db3 ev px r where "loadSelection db1 (vd_selectionId c) = Some s"
      "consumeQuota holds s c db1 = Inr ((i, ov, why), db2)"
      "decideSelection (vd_selectionId c) (vd_expectedSelectionVersion c) SApproved (Some i) ov why (vd_key c) db2 = (Some n, db3)"
      "settleDecision newId c s VACATION_APPROVAL_ROOT_PATH DecisionApproved why ov ev px OutcomeApproved db3 = Inr (r, db')"
      "res = \<lparr>vr_selectionId = vd_selectionId c, vr_requestId = r, vr_outcome = OutcomeApproved,
        vr_selectionVersion = n, vr_grantId = Some i, vr_isOverride = ov, vr_replayed = False\<rparr>"
  | (open_mode) s n db3 ev px r where "loadSelection db1 (vd_selectionId c) = Some s"
      "decideSelection (vd_selectionId c) (vd_expectedSelectionVersion c) SApproved None False None (vd_key c) db1 = (Some n, db3)"
      "settleDecision newId c s VACATION_APPROVAL_ROOT_PATH DecisionApproved None False ev px OutcomeApproved db3 = Inr (r, db')"
      "res = \<lparr>vr_selectionId = vd_selectionId c, vr_requestId = r, vr_outcome = OutcomeApproved,
        vr_selectionVersion = n, vr_grantId = None, vr_isOverride = False, vr_replayed = False\<rparr>"
    using assms by (auto simp: approveVacationSelection_def seq_Inr loadPendingSelection_def split: if_splits)
  then show ?thesis
  proof cases
    case quota
    then show ?thesis using consumeQuota_commands[OF quota(2)] by blast
  next
    case open_mode
    then show ?thesis by blast
  qed
qed

lemma recordCommand_cases:
  assumes "recordCommand i k db = Inr (fresh, db')"
  shows "if fresh then findApprovalCommand db i k = None \<and>
      db' = db\<lparr>commands_t := commands_t db @ [\<lparr>cm_selectionId = i, cm_key = k, cm_outcome = None\<rparr>]\<rparr>
    else findApprovalCommand db i k \<noteq> None \<and> db' = db" and "loadSelection db i \<noteq> None"
  using assms by (auto simp: recordCommand_def seq_Inr recordApprovalCommand_def split: option.splits)

lemma find_append_new: "find Q xs = None \<Longrightarrow> find Q (xs @ [x]) = (if Q x then Some x else None)"
  by (induction xs) (auto split: if_splits)

lemma find_mark: "find Q xs = Some x \<Longrightarrow> (\<And>y. Q (f y) = Q y) \<Longrightarrow> Q x \<Longrightarrow>
   find Q (map (\<lambda>y. if Q y then f y else y) xs) = Some (f x)"
  by (induction xs) (auto split: if_splits)

text \<open>The rows a later state has kept.\<close>
definition commands_kept :: "RequestDb \<Rightarrow> RequestDb \<Rightarrow> bool" where
  "commands_kept db db' \<longleftrightarrow>
     (\<forall>i k c. findApprovalCommand db i k = Some c \<longrightarrow> findApprovalCommand db' i k = Some c)"

lemma commands_kept_refl [simp]: "commands_kept db db"
  by (simp add: commands_kept_def)

lemma commands_kept_trans: "commands_kept db db' \<Longrightarrow> commands_kept db' db'' \<Longrightarrow> commands_kept db db''"
  by (simp add: commands_kept_def)

lemma commands_kept_same: "commands_t db' = commands_t db \<Longrightarrow> commands_kept db db'"
  by (simp add: commands_kept_def findApprovalCommand_def)

text \<open>A new row, with the outcome it gets, leaves the rows that were there.\<close>
lemma commands_kept_new:
  assumes "findApprovalCommand db i k = None"
    and "commands_t db' = map (\<lambda>x. if cm_selectionId x = i \<and> cm_key x = k then f x else x) (commands_t db @ [new])"
    and "cm_selectionId new = i" "cm_key new = k"
    and "\<And>x. cm_selectionId (f x) = cm_selectionId x \<and> cm_key (f x) = cm_key x"
  shows "commands_kept db db'"
proof -
  have none: "\<not> (cm_selectionId x = i \<and> cm_key x = k)" if "x \<in> set (commands_t db)" for x
    using assms(1) that by (auto simp: findApprovalCommand_def find_None_iff)
  have "map (\<lambda>x. if cm_selectionId x = i \<and> cm_key x = k then f x else x) (commands_t db) = commands_t db"
    by (rule map_idI) (use none in auto)
  then have "commands_t db' = commands_t db @ [f new]" using assms(2-4) by simp
  moreover have "find Q (xs @ [y]) = Some c" if "find Q xs = Some c" for Q xs y and c :: ApprovalCommandRow
    using that by (induction xs) (auto split: if_splits)
  ultimately show ?thesis by (simp add: commands_kept_def findApprovalCommand_def)
qed

lemma settled_kept:
  assumes "recordCommand (vd_selectionId c) (vd_key c) db = Inr (True, db1)"
    and "commands_t db2 = commands_t db1"
    and "decideSelection i v st g ov why k db2 = (n, db3)"
    and "settleDecision newId c s path dec why' ov' ev px oc db3 = Inr (r, db')"
  shows "commands_kept db db'"
proof -
  have n: "findApprovalCommand db (vd_selectionId c) (vd_key c) = None"
    "commands_t db1 = commands_t db @ [\<lparr>cm_selectionId = vd_selectionId c, cm_key = vd_key c, cm_outcome = None\<rparr>]"
    using recordCommand_cases[OF assms(1)] by simp_all
  have db3: "commands_t db3 = commands_t db @ [\<lparr>cm_selectionId = vd_selectionId c, cm_key = vd_key c, cm_outcome = None\<rparr>]"
    using statement_commands(4)[of i v st g ov why k db2] assms(2,3) n(2) by simp
  have "commands_t db' = map (\<lambda>x. if cm_selectionId x = vd_selectionId c \<and> cm_key x = vd_key c
      then x\<lparr>cm_outcome := Some oc\<rparr> else x)
      (commands_t db @ [\<lparr>cm_selectionId = vd_selectionId c, cm_key = vd_key c, cm_outcome = None\<rparr>])"
    using settleDecision_other[OF assms(4)] unfolding db3 by simp
  then show ?thesis by (rule commands_kept_new[OF n(1)]) simp_all
qed

lemma approve_kept:
  assumes "approveVacationSelection newId holds c db = Inr (res, db')"
  shows "commands_kept db db'"
proof -
  obtain fresh db1 where rc: "recordCommand (vd_selectionId c) (vd_key c) db = Inr (fresh, db1)"
    and rest: "fresh \<or> db' = db1"
    using assms unfolding approveVacationSelection_def
    by (elim seq_InrE) (auto simp: replayOutcome_def seq_Inr split: if_splits)
  show ?thesis
  proof (cases fresh)
    case True
    with rc have rc: "recordCommand (vd_selectionId c) (vd_key c) db = Inr (True, db1)" by simp
    obtain s db2 g ov why n db3 ev px r where f: "commands_t db2 = commands_t db1"
      "decideSelection (vd_selectionId c) (vd_expectedSelectionVersion c) SApproved g ov why (vd_key c) db2 = (Some n, db3)"
      "settleDecision newId c s VACATION_APPROVAL_ROOT_PATH DecisionApproved why ov ev px OutcomeApproved db3 = Inr (r, db')"
      using approve_fresh[OF assms rc] by blast
    show ?thesis by (rule settled_kept[OF rc f])
  qed (use rest recordCommand_cases(1)[OF rc] in simp)
qed

lemma deny_kept:
  assumes "denyVacationSelection newId reason c db = Inr (res, db')"
  shows "commands_kept db db'"
proof -
  consider "db' = db" | db1 s n db3 ev px r where "recordCommand (vd_selectionId c) (vd_key c) db = Inr (True, db1)"
      "decideSelection (vd_selectionId c) (vd_expectedSelectionVersion c) SDenied None False None (vd_key c) db1 = (Some n, db3)"
      "settleDecision newId c s VACATION_DENIAL_ROOT_PATH DecisionDenied (Some reason) False ev px OutcomeDenied db3 = Inr (r, db')"
    using assms recordCommand_cases(1)[of "vd_selectionId c" "vd_key c" db False]
    by (auto simp: denyVacationSelection_def seq_Inr loadPendingSelection_def replayOutcome_def split: if_splits)
  then show ?thesis
  proof cases
    case 2
    show ?thesis by (rule settled_kept[OF 2(1) refl 2(2,3)])
  qed simp
qed

section \<open>Runs\<close>

text \<open>A step of a run in which the rest of the program leaves the ledger of commands to the approval service: a
  step that changes no selection, grant or root changes no command either.\<close>
definition ledger_run :: "PlanningDb \<Rightarrow> PlanningDb \<Rightarrow> bool" where
  "ledger_run w w' \<longleftrightarrow> vacation_step w w' \<and>
     (same_ledger (requests_part w) (requests_part w') \<longrightarrow> request_commands w' = request_commands w)"

lemma call_kept:
  "leaves commands_t m \<Longrightarrow> request_work m w = Inr (x, w') \<Longrightarrow> commands_kept (requests_part w) (requests_part w')"
  by (auto simp: request_work_Inr dest: leavesD intro!: commands_kept_same)

lemmas performed_kept = call_kept[OF leaves_perform]

lemma ledger_run_kept:
  assumes "ledger_run w w'"
  shows "commands_kept (requests_part w) (requests_part w')"
proof -
  have "vacation_step w w'" using assms by (simp add: ledger_run_def)
  then show ?thesis
  proof (cases rule: vacation_step.cases)
    case (submit_request newId tz c a)
    then show ?thesis using call_kept[OF submitRequest_commands] by blast
  next
    case (withdraw_request cw b)
    then show ?thesis using performed_kept[OF withdrawRequest_commands[of cw]] by blast
  next
    case (sweep now swept)
    then show ?thesis using performed_kept[OF sweep_commands[of now]] by blast
  next
    case (decide_batch ids cb outcomes)
    then show ?thesis
      using batch_commands[of cb "zip (bd_items cb) ids" "requests_part w"]
      by (auto simp: request_work_Inr decideRequestsBatch_def split: if_splits intro!: commands_kept_same)
  next
    case (reverse_decision newId cr d)
    then show ?thesis using performed_kept[OF reverseDecision_commands[of newId cr]] by blast
  next
    case (submit_selection sid r tz cs e)
    then show ?thesis using call_kept[OF submit_commands] by blast
  next
    case (withdraw_selection cx e)
    then show ?thesis using call_kept[OF withdraw_commands] by blast
  next
    case (approve newId holds cd f)
    then show ?thesis using approve_kept by (auto simp: request_work_Inr)
  next
    case (deny newId reason cd f)
    then show ?thesis using deny_kept by (auto simp: request_work_Inr)
  next
    case (commit_round uuid permit tz tzdb cv g)
    then show ?thesis
      by (auto simp: unit_of_work_Inr intro!: commands_kept_same dest: leavesD[OF commit_commands])
  next
    case (reverse_commit holds cc h)
    then show ?thesis using call_kept[OF reverse_commands] by blast
  next
    case (provision gr)
    then show ?thesis by (intro commands_kept_same) simp
  next
    case elsewhere
    then show ?thesis using assms by (intro commands_kept_same) (simp add: ledger_run_def)
  qed
qed

interpretation replay: step_system fresh_group ledger_run planning_inv
  "\<lambda>w w'. planning_history w w' \<and> commands_kept (requests_part w) (requests_part w')"
proof unfold_locales
  show "fresh_group s \<Longrightarrow> planning_inv s" for s by (rule fresh_group_inv)
  show "ledger_run s t \<Longrightarrow> planning_inv s \<Longrightarrow> planning_inv t" for s t
    using vacation.step_inv unfolding ledger_run_def by blast
  show "ledger_run s t \<Longrightarrow> planning_inv s \<Longrightarrow>
      planning_history s t \<and> commands_kept (requests_part s) (requests_part t)" for s t
    using vacation.step_kept ledger_run_kept unfolding ledger_run_def by blast
qed (auto intro: history_trans commands_kept_trans)

end
