(* ===== verification/VacationFacts.thy ===== *)
theory VacationFacts
  imports CommandLedger DeadlineInstant
begin

text \<open>
  The properties of the vacation services over their runs, with a sample group in New York: one open round, one
  personal grant of one week.
\<close>

section \<open>A sample group\<close>

definition round_tables :: RequestDb where
  "round_tables =
     \<lparr>periods_t = [\<lparr>vp_id = ''round'', vp_startDate = ''2024-07-01'', vp_endDate = ''2024-07-31'',
        vp_mode = QuotaMode, vp_state = PeriodOpen\<rparr>],
      grants_t = [], selections_t = [], requests_t = [], records_t = [], commands_t = [], approvals_t = [],
      group_t = Some \<lparr>gp_timezone = ''America/New_York'', gp_untilMode = ModeFixedDate,
        gp_untilDate = Some ''2024-06-03'', gp_leadDays = None, gp_rolls = ExactRoll, gp_late = RejectLate\<rparr>,
      holidays_t = [], audit_t = [], outbox_t = []\<rparr>"

definition round_grant :: VacationGrantRow where
  "round_grant = \<lparr>unitsTotal = 1, unitsConsumed = 0, overrideUnits = 0, g_id = ''grant'', g_periodId = ''round'',
     g_kind = PersonalEntitlement ''member'', g_version = 1\<rparr>"

definition round_submit :: SubmitVacationSelectionCommand where
  "round_submit = \<lparr>vc_membershipId = ''member'', vc_periodId = ''round'', vc_weekStart = ''2024-07-08'',
     vc_key = ''k1'', vc_now = 1717000000000\<rparr>"

definition round_context :: GroupDeadlineContext where
  "round_context = \<lparr>dc_policy = \<lparr>requestUntil = UntilFixedDate ''2024-06-03'', deadlineRolls = ExactRoll,
     lateSubmission = RejectLate\<rparr>, dc_holidays = [], dc_timezone = ''America/New_York''\<rparr>"

lemma round_expiry: "expiryInstant sample_zones round_context p now = Inr 1717473600000"
proof -
  let ?off = "\<lambda>t::int. if t < 1710054000000 then - 18000000 else if t < 1730613600000 then - 14400000 else - 18000000 :: int"
  have d: "daysFromEpoch ''2024-06-03'' = Inr 19877" by code_simp
  have z: "sample_zones ''America/New_York'' = Some ?off" by (simp add: sample_zones_def)
  have tr: "one_transition ?off (1717459200000 - MS_PER_DAY) (1717459200000 + MS_PER_DAY) 0 0 (- 14400000)"
    by (simp add: one_transition_def MS_PER_DAY_def MS_PER_MINUTE_def)
  have "deadlineInstant sample_zones ''2024-06-03'' ''America/New_York'' = Inr 1717473600000"
    using deadlineInstant_one[where tz = sample_zones and zone = "''America/New_York''", OF d _ _ z _ tr]
    by (simp add: first_day_def last_day_def MS_PER_DAY_def)
  then show ?thesis
    by (simp add: expiryInstant_def deadlineFor_def effectiveDeadline_def nominalDeadline_def rollDeadline_def
        round_context_def)
qed

definition round_selection :: VacationSelectionRow where
  "round_selection = \<lparr>vs_id = ''sel'', vs_requestId = Some ''root'', vs_membershipId = ''member'', vs_periodId = ''round'',
     vs_weekStart = ''2024-07-08'', vs_status = SPending, vs_version = 2, vs_grantId = None, vs_isOverride = False,
     vs_overrideReason = None, vs_approvalKey = None, vs_committedTo = None, vs_commitKey = None\<rparr>"

lemma round_checks:
  "classifyAt sample_zones round_context (Some ''2024-07-01'') 1717000000000 = Inr (OnTime ''2024-06-03'')"
  "dayOfWeek ''2024-07-08'' = Inr 1"
  "selectionOperationVerdict SAvailable SelSubmit = Some SPending"
  by code_simp+

definition round_submitted :: RequestDb where
  "round_submitted = round_tables\<lparr>grants_t := [round_grant], selections_t := [round_selection],
     requests_t := [\<lparr>rq_id = ''root'', rq_membershipId = ''member'', rq_subtype = VacationSel, rq_status = Submitted,
       rq_submittedAt = Some 1717000000000, rq_decidedAt = None, rq_decidedBy = None, rq_withdrawnAt = None,
       rq_expiresAt = 1717473600000, rq_idempotencyKey = ''k1'', rq_version = 1, rq_isLate = False,
       rq_revisionRequested = False\<rparr>],
     audit_t := [(''requests.request.submitted'', ''root'')],
     outbox_t := [(''requests.request.submitted'', ''request-submitted:root'')]\<rparr>"

lemma seq_perform: "seq (perform f) g s = (case f s of (a, t) \<Rightarrow> g a t)"
  by (simp add: seq_def perform_def)

lemma round_submission:
  "\<exists>res. submitVacationSelection sample_zones ''sel'' ''root'' round_submit (round_tables\<lparr>grants_t := [round_grant]\<rparr>)
     = Inr (Inr res, round_submitted)"
proof -
  have ctx: "loadGroupDeadlineContext (round_tables\<lparr>grants_t := [round_grant]\<rparr>) = Some round_context"
    by (simp add: loadGroupDeadlineContext_def round_tables_def toRequestUntilPolicy_def round_context_def)
  have tables: "loadPeriod (round_tables\<lparr>grants_t := [round_grant]\<rparr>) ''round'' = Some \<lparr>vp_id = ''round'',
      vp_startDate = ''2024-07-01'', vp_endDate = ''2024-07-31'', vp_mode = QuotaMode, vp_state = PeriodOpen\<rparr>"
    "classifyIdempotencyKey (round_tables\<lparr>grants_t := [round_grant]\<rparr>) ''member'' ''k1'' VacationSel = Fresh"
    "findSelection (round_tables\<lparr>grants_t := [round_grant]\<rparr>) ''member'' ''round'' ''2024-07-08'' = None"
    "week_in_period \<lparr>vp_id = ''round'', vp_startDate = ''2024-07-01'', vp_endDate = ''2024-07-31'', vp_mode = QuotaMode,
      vp_state = PeriodOpen\<rparr> ''2024-07-08''"
    by code_simp+
  show ?thesis
    unfolding submitVacationSelection_def
    by (simp add: running ctx tables round_checks round_submit_def lift_result_def ensureSelection_def
      openRequest_def round_expiry update_or_def seq_perform)
      (simp add: running seq_perform createSelection_def loadSelection_def createRoot_def linkSelectionToRoot_def
        update_selections_def sql_update_def emit_def ret_def initialRequestStatus_def round_tables_def
        round_submitted_def round_selection_def)
qed

definition round_world :: "RequestDb \<Rightarrow> PlanningDb" where
  "round_world db = \<lparr>requests_part = db, schedule_part = \<lparr>period_rows = [], version_rows = [], shift_rows = [],
     identity_rows = [], snapshot_rows = [], credit_rows = [], conflict_rows = [], requirement_rows = [],
     reality_rows = [], publication_rows = [], supersession_rows = [], membership_rows = [], group_zone = None,
     set_versions = [], schedule_audit = [], schedule_outbox = [], draws = 0\<rparr>, commit_commands_t = [], shift_types_t = []\<rparr>"

definition round_decision :: VacationDecisionCommand where
  "round_decision = \<lparr>vd_selectionId = ''sel'', vd_key = ''k2'', vd_expectedSelectionVersion = 2, vd_grantId = None,
     vd_expectedGrantVersion = None, vd_overrideReason = None, vd_decidedBy = ''manager'', vd_now = 1717000100000\<rparr>"

definition round_approved :: RequestDb where
  "round_approved = (case approveVacationSelection ''ap'' False round_decision round_submitted of
     Inl _ \<Rightarrow> round_submitted | Inr (_, db) \<Rightarrow> db)"

lemma round_approval:
  "\<exists>res. approveVacationSelection ''ap'' False round_decision round_submitted = Inr (res, round_approved) \<and> \<not> vr_replayed res"
proof -
  have "case approveVacationSelection ''ap'' False round_decision round_submitted of
      Inl _ \<Rightarrow> False | Inr (res, _) \<Rightarrow> \<not> vr_replayed res"
    by code_simp
  then show ?thesis by (auto simp: round_approved_def split: sum.splits)
qed

lemma round_pairs: "pairs_agree round_submitted" "pairs_agree round_approved"
  unfolding round_approved_def by code_simp+

lemma round_steps:
  "vacation_step (round_world (round_tables\<lparr>grants_t := [round_grant]\<rparr>)) (round_world round_submitted)"
  "vacation_step (round_world round_submitted) (round_world round_approved)"
proof -
  obtain res where r: "submitVacationSelection sample_zones ''sel'' ''root'' round_submit (round_tables\<lparr>grants_t := [round_grant]\<rparr>)
     = Inr (Inr res, round_submitted)" using round_submission by blast
  show "vacation_step (round_world (round_tables\<lparr>grants_t := [round_grant]\<rparr>)) (round_world round_submitted)"
    by (rule vacation_step.submit_selection[of "''sel''" "''root''" _ sample_zones round_submit "Inr res"])
      (use r round_pairs in \<open>simp_all add: fresh_ids_def round_tables_def request_work_Inr round_world_def\<close>)
  obtain a where "approveVacationSelection ''ap'' False round_decision round_submitted = Inr (a, round_approved)"
    using round_approval by blast
  then show "vacation_step (round_world round_submitted) (round_world round_approved)"
    using round_pairs
    by (intro vacation_step.approve[of "''ap''" False round_decision _ a]) (simp add: request_work_Inr round_world_def)
qed

lemma round_reachable:
  "reachable fresh_group vacation_step (round_world round_submitted)"
  "reachable fresh_group vacation_step (round_world round_approved)"
proof -
  have "reachable fresh_group vacation_step (round_world round_tables)"
    by (rule reachable.start) (simp add: fresh_group_def round_world_def round_tables_def)
  then have "reachable fresh_group vacation_step
      (round_world round_tables\<lparr>requests_part := (requests_part (round_world round_tables))\<lparr>grants_t :=
         grants_t (requests_part (round_world round_tables)) @ [round_grant]\<rparr>\<rparr>)"
    by (rule reachable.step) (rule vacation_step.provision;
      simp add: round_world_def round_tables_def round_grant_def grant_checks_def)
  then have "reachable fresh_group vacation_step (round_world (round_tables\<lparr>grants_t := [round_grant]\<rparr>))"
    by (simp add: round_world_def round_tables_def)
  then show "reachable fresh_group vacation_step (round_world round_submitted)"
    by (rule reachable.step) (rule round_steps)
  then show "reachable fresh_group vacation_step (round_world round_approved)"
    by (rule reachable.step) (rule round_steps)
qed

section \<open>The ledger\<close>

lemma units_held_count:
  "units_held i sel = int (length (filter (\<lambda>s. vs_grantId s = Some i \<and> vs_status s \<in> {SApproved, SCommitted}) sel))"
  by (induction sel) (auto simp: units_held_def holds_unit_def)

lemma roots_loadRoot: "roots db i = Some (sub, st) \<Longrightarrow> \<exists>rt. loadRoot db i = Some rt \<and> rq_subtype rt = sub \<and> rq_status rt = st"
proof -
  have "map_of (map (\<lambda>r. (rq_id r, rq_subtype r, rq_status r)) rows) i = Some (sub, st) \<Longrightarrow>
      \<exists>rt. find (\<lambda>x. rq_id x = i) rows = Some rt \<and> rq_subtype rt = sub \<and> rq_status rt = st" for rows
    by (induction rows) (auto split: if_splits)
  then show "roots db i = Some (sub, st) \<Longrightarrow> ?thesis" by (simp add: loadRoot_def roots_def)
qed

text \<open>C17: in every state the runs of a group reach, the units a grant has consumed are exactly the approved and
  committed selections that hold it, within its total and the overrides given; and a selection that names a root
  names a vacation request in the status its own status derives, no two selections the same one.\<close>
theorem ledger_balanced:
  assumes "reachable fresh_group vacation_step w" and db: "db = requests_part w"
  shows "(\<forall>g \<in> set (grants_t db).
      unitsConsumed g = int (length (filter (\<lambda>s. vs_grantId s = Some (g_id g) \<and> vs_status s \<in> {SApproved, SCommitted})
        (selections_t db))) \<and>
      unitsConsumed g \<le> unitsTotal g + overrideUnits g \<and> 0 \<le> overrideUnits g) \<and>
    (\<forall>s \<in> set (selections_t db). case vs_requestId s of
       None \<Rightarrow> vs_status s = SAvailable
     | Some r \<Rightarrow> (\<exists>rt. loadRoot db r = Some rt \<and> rq_subtype rt = VacationSel \<and>
           derivedRequestStatus (vs_status s) = Some (rq_status rt)) \<and>
         (\<forall>t \<in> set (selections_t db). vs_requestId t = Some r \<longrightarrow> t = s))"
proof -
  have inv: "ledger_inv db" using vacation.reachable_inv[OF assms(1)] db by simp
  have g: "unitsConsumed g = units_held (g_id g) (selections_t db) \<and> grant_checks g" if "g \<in> set (grants_t db)" for g
    using inv that by (simp add: ledger_inv_def ledger_ok_parts counters_ok_def)
  have d: "distinct (map vs_id (selections_t db))" and un: "roots_unshared (selections_t db)"
    using inv by (simp_all add: ledger_inv_def ledger_ok_parts selections_ok_def)
  have s: "case vs_requestId s of
       None \<Rightarrow> vs_status s = SAvailable
     | Some r \<Rightarrow> (\<exists>rt. loadRoot db r = Some rt \<and> rq_subtype rt = VacationSel \<and>
           derivedRequestStatus (vs_status s) = Some (rq_status rt)) \<and>
         (\<forall>t \<in> set (selections_t db). vs_requestId t = Some r \<longrightarrow> t = s)" if "s \<in> set (selections_t db)" for s
  proof (cases "vs_requestId s")
    case (Some r)
    have "t = s" if "t \<in> set (selections_t db)" "vs_requestId t = Some r" for t
      using un that \<open>s \<in> set (selections_t db)\<close> Some distinct_key[OF d] unfolding roots_unshared_def by blast
    then show ?thesis
      using ledger_inv_row[OF inv that] Some roots_loadRoot[of db r] by (fastforce simp: row_ok_def)
  qed (use ledger_inv_row[OF inv that] in \<open>simp add: row_ok_def\<close>)
  show ?thesis using g s unfolding units_held_count grant_checks_def by blast
qed

lemma ledger_balanced_witness:
  "map unitsConsumed (grants_t round_approved) = [1] \<and>
   list_all (\<lambda>g. unitsConsumed g = int (length (filter (\<lambda>s. vs_grantId s = Some (g_id g) \<and> vs_status s \<in> {SApproved, SCommitted})
     (selections_t round_approved)))) (grants_t round_approved)"
proof -
  have "map unitsConsumed (grants_t round_approved) = [1]" unfolding round_approved_def by code_simp
  then show ?thesis
    using ledger_balanced[OF round_reachable(2) refl] by (simp add: list_all_iff round_world_def)
qed

section \<open>The life of a selection\<close>

definition over :: "VacationSelectionStatus \<Rightarrow> bool" where
  "over st \<longleftrightarrow> st \<in> {SDenied, SWithdrawn, SExpired, SReversed}"

lemma over_stays: "selectionTransitionIsLegal\<^sup>*\<^sup>* st st' \<Longrightarrow> over st \<Longrightarrow> st' = st"
  by (induction rule: rtranclp_induct)
    (auto simp: over_def selection_edge VACATION_SELECTION_TRANSITIONS_def)

text \<open>C20: over any run, a selection keeps its identifier, member, round and week, keeps its root once it has one, and
  its status moves along the legal edges of the selection machine only; a denied, withdrawn, expired or reversed
  selection stays as it is for good.\<close>
theorem selection_life:
  assumes "reachable fresh_group vacation_step w" "steps vacation_step w w'" "s \<in> set (selections_t (requests_part w))"
  shows "\<exists>s' \<in> set (selections_t (requests_part w')).
    vs_id s' = vs_id s \<and> vs_membershipId s' = vs_membershipId s \<and> vs_periodId s' = vs_periodId s \<and>
    vs_weekStart s' = vs_weekStart s \<and> (vs_requestId s \<noteq> None \<longrightarrow> vs_requestId s' = vs_requestId s) \<and>
    selectionTransitionIsLegal\<^sup>*\<^sup>* (vs_status s) (vs_status s') \<and>
    (vs_status s \<in> {SDenied, SWithdrawn, SExpired, SReversed} \<longrightarrow> vs_status s' = vs_status s)"
proof -
  have "planning_history w w'" using vacation.steps_inv[OF assms(2) vacation.reachable_inv[OF assms(1)]] by simp
  then obtain s' where "s' \<in> set (selections_t (requests_part w'))" "vs_id s' = vs_id s" "selection_kept s s'"
    using assms(3) by (auto simp: history_def)
  then show ?thesis
    using over_stays[of "vs_status s" "vs_status s'"] by (intro bexI[of _ s']) (auto simp: selection_kept_def over_def)
qed

lemma selection_life_witness:
  "\<exists>s'. s' \<in> set (selections_t round_approved) \<and> vs_id s' = ''sel'' \<and>
     selectionTransitionIsLegal\<^sup>*\<^sup>* SPending (vs_status s') \<and> vs_status s' = SApproved"
proof -
  have s: "round_selection \<in> set (selections_t (requests_part (round_world round_submitted)))"
    by (simp add: round_world_def round_submitted_def)
  have "steps vacation_step (round_world round_submitted) (round_world round_approved)"
    by (rule steps.more[OF steps.none]) (rule round_steps)
  from selection_life[OF round_reachable(1) this s] obtain s' where "s' \<in> set (selections_t round_approved)"
    "vs_id s' = ''sel''" "selectionTransitionIsLegal\<^sup>*\<^sup>* SPending (vs_status s')"
    by (auto simp: round_world_def round_selection_def)
  moreover have "list_all (\<lambda>s. vs_status s = SApproved) (selections_t round_approved)"
    unfolding round_approved_def by code_simp
  ultimately show ?thesis by (auto simp: list_all_iff)
qed


section \<open>The deferred check\<close>

text \<open>At a state with the invariant, the deferred check of the status pairs stops none of the vacation
  services: the unit of work ends as its call does.\<close>
theorem vacation_services_keep_pairs:
  assumes "reachable fresh_group vacation_step w" and db: "db = requests_part w"
  shows "unit_of_work (\<lambda>db. db) (approveVacationSelection i holds d) db = approveVacationSelection i holds d db \<and>
    unit_of_work (\<lambda>db. db) (denyVacationSelection i reason d) db = denyVacationSelection i reason d db \<and>
    unit_of_work (\<lambda>db. db) (withdrawVacationSelection x) db = withdrawVacationSelection x db \<and>
    unit_of_work (\<lambda>db. db) (reverseVacationCommit holds r) db = reverseVacationCommit holds r db \<and>
    unit_of_work requests_part (commitVacationRound uuid permit tz tzdb cv) w = commitVacationRound uuid permit tz tzdb cv w \<and>
    (fresh_ids sid rid db \<longrightarrow>
      unit_of_work (\<lambda>db. db) (submitVacationSelection tz sid rid c) db = submitVacationSelection tz sid rid c db)"
proof -
  have inv: "ledger_inv db" using vacation.reachable_inv[OF assms(1)] db by simp
  have ok: "pairs_agree t" if "ledger_step db t" for t using that ledger_step_inv ledger_inv_pairs by blast
  have sub: "pairs_agree t" if "fresh_ids sid rid db" "submitVacationSelection tz sid rid c db = Inr (a, t)" for a t
    using tripleD[OF submit_step _ that(2), of db] that(1) inv ok by (simp add: ledger_step_def)
  show ?thesis
    using inv db ok sub
    by (intro conjI impI; intro unit_of_work_passes)
      (auto dest: approve_step deny_step withdraw_step reverse_step commit_step)
qed

lemma vacation_services_keep_pairs_witness:
  "\<exists>res. unit_of_work (\<lambda>db. db) (approveVacationSelection ''ap'' False round_decision) round_submitted = Inr (res, round_approved)"
  using vacation_services_keep_pairs[OF round_reachable(1) refl, of "''ap''" False round_decision] round_approval
  by (auto simp: round_world_def)

section \<open>The sweep\<close>

lemma expire_roots:
  assumes "expire i db = (x, db')" "request_ids_ok db"
  shows "selections_t db' = selections_t db \<and> request_ids_ok db' \<and>
    (roots db' = roots db \<or> roots db' = moved i Expired (roots db)) \<and>
    (roots db i = Some (sub, Submitted) \<longrightarrow> roots db' = moved i Expired (roots db))"
proof (cases x)
  case None
  then have n: "find (\<lambda>r. rq_id r = i \<and> rq_status r \<in> set [Submitted, UnderReview, AcceptedAsInput]) (requests_t db) = None"
    "db' = db" using assms(1) unfolding expire_def by (simp_all add: update_requests_None)
  have "roots db i \<noteq> Some (sub, Submitted)"
  proof
    assume "roots db i = Some (sub, Submitted)"
    from roots_loadRoot[OF this] obtain r where "loadRoot db i = Some r" "rq_status r = Submitted" by blast
    then have "r \<in> set (requests_t db)" "rq_id r = i" by (auto simp: loadRoot_def dest: find_Some_in)
    then show False using n(1) \<open>rq_status r = Submitted\<close> by (auto simp: find_None_iff)
  qed
  then show ?thesis using n(2) assms(2) by simp
next
  case (Some v)
  from update_requests_effect[OF assms(1)[unfolded expire_def Some] assms(2), of Expired] show ?thesis by simp
qed

lemma expireRequest_roots:
  assumes "expireRequest rt db = (x, db')" "request_ids_ok db"
  shows "selections_t db' = selections_t db \<and> request_ids_ok db' \<and>
    (roots db' = roots db \<or> roots db' = moved (rq_id rt) Expired (roots db)) \<and>
    (rq_subtype rt = VacationSel \<longrightarrow> rq_status rt = Submitted \<longrightarrow> roots db (rq_id rt) = Some (sub, Submitted) \<longrightarrow>
       roots db' = moved (rq_id rt) Expired (roots db))"
proof -
  have v: "operationVerdict VacationSel Submitted Expire = Allowed Expired" "deadlineBindsInStatus (status_name Submitted)"
    by code_simp+
  obtain y db1 where e: "expire (rq_id rt) db = (y, db1)" by fastforce
  have em: "selections_t (emit a b c d q) = selections_t q \<and> roots (emit a b c d q) = roots q \<and>
      request_ids_ok (emit a b c d q) = request_ids_ok q" for a b c d q
    by (simp add: emit_def roots_def request_ids_ok_def)
  have c: "db' = db \<or> (selections_t db' = selections_t db1 \<and> roots db' = roots db1 \<and> request_ids_ok db' = request_ids_ok db1)"
    using assms(1) e em by (auto simp: expireRequest_def split: OperationVerdict.splits if_splits option.splits)
  have n: "selections_t db' = selections_t db1 \<and> roots db' = roots db1"
    if "rq_subtype rt = VacationSel" "rq_status rt = Submitted"
    using assms(1) e em v that by (auto simp: expireRequest_def split: option.splits)
  note r = expire_roots[OF e assms(2), of sub]
  show ?thesis using c
  proof
    assume d: "db' = db"
    have "roots db = moved (rq_id rt) Expired (roots db)"
      if "rq_subtype rt = VacationSel" "rq_status rt = Submitted" "roots db (rq_id rt) = Some (sub, Submitted)"
      using n[OF that(1,2)] r that(3) d by (elim conjE) (drule mp, assumption, simp)
    then show ?thesis unfolding d using assms(2) by blast
  next
    assume "selections_t db' = selections_t db1 \<and> roots db' = roots db1 \<and> request_ids_ok db' = request_ids_ok db1"
    then show ?thesis using r by (elim conjE) (simp only: simp_thms, blast)
  qed
qed

lemma sweep_expires:
  assumes "sweep_loop rts db = (res, db')" "request_ids_ok db" "roots db i = Some (VacationSel, st)"
    and "st = Expired \<or> st = Submitted \<and> (\<exists>rt \<in> set rts. rq_id rt = i \<and> rq_subtype rt = VacationSel \<and> rq_status rt = Submitted)"
  shows "selections_t db' = selections_t db \<and> roots db' i = Some (VacationSel, Expired)"
  using assms
proof (induction rts db arbitrary: res db' st rule: sweep_loop.induct)
  case (2 rt rts db)
  obtain oc db1 where e: "expireRequest rt db = (oc, db1)" by fastforce
  obtain ex rf db2 where r: "sweep_loop rts db1 = ((ex, rf), db2)" by (metis prod.exhaust)
  note f = expireRequest_roots[OF e 2(3), of VacationSel]
  have db': "db' = db2" using 2(2) e r by (auto split: sum.splits)
  define st1 where "st1 = (if roots db1 = roots db then st else if rq_id rt = i then Expired else st)"
  have ri: "roots db1 i = Some (VacationSel, st1)"
    using f 2(4) by (auto simp: st1_def moved_apply split: if_splits)
  have "st1 = Expired \<or> st1 = Submitted \<and> (\<exists>rt \<in> set rts. rq_id rt = i \<and> rq_subtype rt = VacationSel \<and> rq_status rt = Submitted)"
  proof (cases "st = Submitted \<and> rq_id rt = i \<and> rq_subtype rt = VacationSel \<and> rq_status rt = Submitted")
    case True
    then have "roots db1 = moved i Expired (roots db)" using f 2(4) by simp
    then show ?thesis using ri 2(4) by (simp add: moved_apply)
  next
    case False
    then show ?thesis using 2(5) by (auto simp: st1_def)
  qed
  with 2(1)[OF e[symmetric] r _ ri] show ?case using f db' by simp
qed simp

lemma derived_expirable:
  "derivedRequestStatus v = Some st \<Longrightarrow> st \<in> {Submitted, UnderReview, AcceptedAsInput} \<Longrightarrow> v = SPending \<and> st = Submitted"
  by (cases v) (auto simp: derivedRequestStatus_def)

text \<open>C18: the expiry sweep moves an overdue vacation request without its selection, so the deferred check of the
  status pairs refuses the whole unit of work: while one such request is among the rows a sweep claims, no
  request of the group expires.\<close>
theorem sweep_blocked_by_vacation:
  assumes "reachable fresh_group vacation_step w" and db: "db = requests_part w"
    and rt: "rt \<in> set (claimExpirable db now SWEEP_LIMIT)" "rq_subtype rt = VacationSel"
    and s: "s \<in> set (selections_t db)" "vs_requestId s = Some (rq_id rt)"
  shows "unit_of_work (\<lambda>db. db) (perform (sweepExpiredRequests now)) db =
    Inl (VacationConstraint ''VACATION_STATUS_MAPPING_VIOLATED'')"
proof -
  have inv: "ledger_inv db" using vacation.reachable_inv[OF assms(1)] db by simp
  have q: "rt \<in> set (requests_t db)" "rq_status rt \<in> {Submitted, UnderReview, AcceptedAsInput}"
    using rt(1) by (auto simp: claimExpirable_def dest!: in_set_takeD)
  have "find (\<lambda>x. rq_id x = rq_id rt) (requests_t db) = Some rt"
    using find_unique[of rq_id "requests_t db" rt] q(1) ledger_inv_distinct[OF inv] by (simp add: request_ids_ok_def)
  then have root: "roots db (rq_id rt) = Some (VacationSel, rq_status rt)"
    using loadRoot_roots[of db "rq_id rt" rt] rt(2) by (simp add: loadRoot_def)
  then have "derivedRequestStatus (vs_status s) = Some (rq_status rt)"
    using ledger_inv_row[OF inv s(1)] s(2) by (simp add: row_ok_def)
  from derived_expirable[OF this q(2)] have st: "vs_status s = SPending" "rq_status rt = Submitted" by auto
  obtain res db' where sw: "sweep_loop (claimExpirable db now SWEEP_LIMIT) db = (res, db')" by fastforce
  have "selections_t db' = selections_t db" "roots db' (rq_id rt) = Some (VacationSel, Expired)"
    using sweep_expires[OF sw _ root] rt st ledger_inv_distinct[OF inv] by auto
  then have "\<not> pairs_agree db'"
    using roots_loadRoot[of db' "rq_id rt" VacationSel Expired] s st(1)
    by (auto simp: pairs_agree_def list_all_iff root_status_def intro!: bexI[of _ s])
  then show ?thesis
    using sw by (simp add: unit_of_work_def seq_perform running sweepExpiredRequests_def Let_def split: prod.splits)
qed

lemma sweep_blocked_by_vacation_witness:
  "unit_of_work (\<lambda>db. db) (perform (sweepExpiredRequests 1717473600001)) round_submitted =
    Inl (VacationConstraint ''VACATION_STATUS_MAPPING_VIOLATED'')"
proof -
  have db: "round_submitted = requests_part (round_world round_submitted)" by (simp add: round_world_def)
  have "list_ex (\<lambda>rt. rq_subtype rt = VacationSel \<and> rq_id rt = ''root'') (claimExpirable round_submitted 1717473600001 SWEEP_LIMIT)"
    by code_simp
  then obtain rt where rt: "rt \<in> set (claimExpirable round_submitted 1717473600001 SWEEP_LIMIT)" "rq_subtype rt = VacationSel"
    "rq_id rt = ''root''" by (auto simp: list_ex_iff)
  have "round_selection \<in> set (selections_t round_submitted)" "vs_requestId round_selection = Some (rq_id rt)"
    by (simp_all add: round_submitted_def round_selection_def rt(3))
  then show ?thesis by (rule sweep_blocked_by_vacation[OF round_reachable(1) db rt(1,2)])
qed

section \<open>Giving a week back\<close>

lemma find_the:
  assumes "distinct (map k xs)" "x \<in> set xs" "P x" and key: "\<And>y. P y \<Longrightarrow> k y = k x"
  shows "find P xs = Some x"
  using assms(1,2)
proof (induction xs)
  case (Cons z zs)
  show ?case
  proof (cases "P z")
    case True
    then have "z = x" using distinct_key[OF Cons.prems(1), of z x] Cons.prems(2) key by simp
    then show ?thesis using True by simp
  next
    case False
    then show ?thesis using Cons assms(3) by auto
  qed
qed simp

lemma update_selections_the:
  assumes "distinct (map vs_id (selections_t db))" "s \<in> set (selections_t db)" "P s" "\<And>x. P x \<Longrightarrow> vs_id x = vs_id s"
  shows "\<exists>db'. update_selections P f db = (Some (vs_version (f s)), db') \<and> grants_t db' = grants_t db \<and>
    requests_t db' = requests_t db"
proof -
  have "find P (selections_t db) = Some s" by (rule find_the[where k = vs_id]) (rule assms, assumption?)+
  then show ?thesis unfolding update_selections_def sql_update_def by simp
qed

text \<open>A grant with a unit consumed can always give it back: neither its version nor its checks are in the way.\<close>
lemma release_returns:
  assumes inv: "ledger_inv db" and s: "s \<in> set (selections_t db)" "vs_status s \<in> {SApproved, SCommitted}"
    and gr: "grants_t db1 = grants_t db"
  shows "\<exists>db2. releaseHeldUnit e s db1 = Inr (vs_grantId s \<noteq> None, db2) \<and> requests_t db2 = requests_t db1 \<and>
    selections_t db2 = selections_t db1"
proof (cases "vs_grantId s")
  case None
  then show ?thesis by (simp add: releaseHeldUnit_def ret_def)
next
  case (Some i)
  note d = ledger_inv_distinct[OF inv]
  obtain g where g: "g \<in> set (grants_t db)" "g_id g = i" "g_periodId g = vs_periodId s"
    using ledger_inv_grant_key[OF inv s(1) Some] by (auto simp: grant_keys_def)
  have c: "unitsConsumed x = units_held (g_id x) (selections_t db) \<and> grant_checks x" if "x \<in> set (grants_t db)" for x
    using inv that by (simp add: ledger_inv_def ledger_ok_parts counters_ok_def)
  have "holds_unit i s = 1" using Some s(2) by (simp add: holds_unit_def)
  then have one: "1 \<le> unitsConsumed g" using units_held_member[OF s(1), of i] c[OF g(1)] g(2) by simp
  have "distinct (map g_id (listGrants db1 (vs_periodId s)))"
    using d gr by (simp add: listGrants_def distinct_map inj_on_def)
  then have fd: "find (\<lambda>x. g_id x = i) (listGrants db1 (vs_periodId s)) = Some g"
    using find_unique[of g_id "listGrants db1 (vs_periodId s)" g] g gr by (simp add: listGrants_def)
  define u where "u = (if vs_isOverride s then overrideUnits g - overrideUnits (countersAfterReversal g 1) else 0)"
  have u: "0 \<le> u" "u \<le> 1" "u \<le> overrideUnits g"
    using c[OF g(1)] by (auto simp: u_def countersAfterReversal_def Let_def grant_checks_def)
  let ?P = "\<lambda>x. g_id x = g_id g \<and> g_version x = g_version g"
  let ?f = "\<lambda>x. x\<lparr>unitsConsumed := unitsConsumed x - 1, overrideUnits := overrideUnits x - u, g_version := g_version x + 1\<rparr>"
  have fp: "find ?P (grants_t db1) = Some g" by (rule find_the[where k = g_id]) (use d g gr in auto)
  have eq: "x = g" if "x \<in> set (grants_t db)" "?P x" for x
    using distinct_key[of g_id "grants_t db" x g] d g(1) that by blast
  have "grant_checks (if ?P x then ?f x else x)" if "x \<in> set (grants_t db)" for x
    using eq[OF that] c[OF that] one u by (auto simp: grant_checks_def)
  then have chk: "list_all grant_checks (map (\<lambda>x. if ?P x then ?f x else x) (grants_t db1))"
    unfolding list_all_iff set_map ball_simps(9) gr by blast
  have rel: "releaseGrantUnits (g_id g) (g_version g) 1 u db1 =
      (Some (g_version g + 1), db1\<lparr>grants_t := map (\<lambda>x. if ?P x then ?f x else x) (grants_t db1)\<rparr>)"
    using fp by (simp add: releaseGrantUnits_def update_grants_def sql_update_def)
  show ?thesis
    by (simp add: releaseHeldUnit_def Some running fd Let_def u_def[symmetric] releaseUnits_def seq_perform rel chk ret_def)
qed

lemma root_withdrawn:
  assumes "loadRoot db r \<noteq> None"
  shows "\<exists>v db'. writeRootWithdrawal r t db = (Some v, db') \<and> grants_t db' = grants_t db"
  using assms by (auto simp: writeRootWithdrawal_def update_requests_def sql_update_def loadRoot_def)

text \<open>C19: a member can always give a week back: the withdrawal of a pending or approved selection of one's own, at
  its current version, succeeds through the commit, and says whether a unit of a grant was released.\<close>
theorem withdrawal_succeeds:
  assumes "reachable fresh_group vacation_step w" and db: "db = requests_part w"
    and s: "s \<in> set (selections_t db)" "vs_status s = SPending \<or> vs_status s = SApproved"
    and c: "vx_selectionId c = vs_id s" "vx_expectedSelectionVersion c = vs_version s" "vx_membershipId c = vs_membershipId s"
  shows "\<exists>res db'. unit_of_work (\<lambda>db. db) (withdrawVacationSelection c) db = Inr (Inr res, db') \<and>
    vw_status res = SWithdrawn \<and> vw_unitReleased res = (vs_status s = SApproved \<and> vs_grantId s \<noteq> None)"
proof -
  have inv: "ledger_inv db" using vacation.reachable_inv[OF assms(1)] db by simp
  note d = ledger_inv_distinct[OF inv]
  have "vs_status s \<noteq> SAvailable" using s(2) by auto
  then obtain r rt where r: "vs_requestId s = Some r" "loadRoot db r = Some rt"
    using ledger_inv_row[OF inv s(1)] roots_loadRoot[of db] by (auto simp: row_ok_def split: option.splits) blast
  have ls: "loadSelection db (vs_id s) = Some s" using d s(1) by (simp add: loadSelection_unique)
  have nv: "(selectionOperationVerdict (vs_status s) SelWithdraw = None) = False" using withdraw_legal s(2) by blast
  obtain db1 where w1: "withdrawSelection (vs_id s) (vs_version s) (vs_status s) db = (Some (vs_version s + 1), db1)"
    "grants_t db1 = grants_t db" "requests_t db1 = requests_t db"
    using update_selections_the[of db s "\<lambda>x. vs_id x = vs_id s \<and> vs_status x = vs_status s \<and> vs_version x = vs_version s"
        "\<lambda>s. s\<lparr>vs_status := SWithdrawn, vs_version := vs_version s + 1\<rparr>"] d s(1)
    by (auto simp: withdrawSelection_def)
  have "loadRoot db1 r \<noteq> None" using r(2) w1(3) by (simp add: loadRoot_def)
  from root_withdrawn[OF this, of "vx_now c"] obtain v db2
    where w2: "writeRootWithdrawal r (vx_now c) db1 = (Some v, db2)" "grants_t db2 = grants_t db"
    unfolding w1(2) by blast
  let ?m = "if vs_status s = SApproved then releaseHeldUnit (VacationSelectionRolledBack NoLongerPending) s else ret False"
  obtain db3 where w3: "?m db2 = Inr (vs_status s = SApproved \<and> vs_grantId s \<noteq> None, db3)"
    using release_returns[OF inv s(1) _ w2(2)] by (cases "vs_status s = SApproved") (auto simp: ret_def)
  have run: "\<exists>res db'. withdrawVacationSelection c db = Inr (Inr res, db') \<and> vw_status res = SWithdrawn \<and>
      vw_unitReleased res = (vs_status s = SApproved \<and> vs_grantId s \<noteq> None)"
  proof (cases "vs_status s = SApproved")
    case True
    note w3' = w3[unfolded if_P[OF True] simp_thms]
    show ?thesis
      by (simp add: withdrawVacationSelection_def running seq_perform update_or_def c ls nv[unfolded True] w1(1)[unfolded True]
          r(1) w2(1) True del: not_None_eq)
        (simp add: seq_def w3'[unfolded True] store_def ret_def)
  next
    case False
    then show ?thesis
      by (simp add: withdrawVacationSelection_def running seq_perform update_or_def c ls nv w1(1) r(1) w2(1) ret_def
          del: not_None_eq)
  qed
  moreover have "unit_of_work (\<lambda>db. db) (withdrawVacationSelection c) db = withdrawVacationSelection c db"
    by (rule unit_of_work_passes) (use withdraw_step[OF _ inv] ledger_step_inv ledger_inv_pairs in blast)
  ultimately show ?thesis by simp
qed

lemma withdrawal_succeeds_witness:
  "\<exists>res db'. unit_of_work (\<lambda>db. db) (withdrawVacationSelection
      \<lparr>vx_selectionId = ''sel'', vx_expectedSelectionVersion = 3, vx_membershipId = ''member'', vx_now = 1717000200000\<rparr>)
      round_approved = Inr (Inr res, db') \<and> vw_status res = SWithdrawn \<and> vw_unitReleased res"
proof -
  have db: "round_approved = requests_part (round_world round_approved)" by (simp add: round_world_def)
  have "list_ex (\<lambda>s. vs_id s = ''sel'' \<and> vs_version s = 3 \<and> vs_membershipId s = ''member'' \<and> vs_status s = SApproved \<and>
      vs_grantId s = Some ''grant'') (selections_t round_approved)"
    unfolding round_approved_def by code_simp
  then obtain s where s: "s \<in> set (selections_t round_approved)" "vs_id s = ''sel''" "vs_version s = 3"
    "vs_membershipId s = ''member''" "vs_status s = SApproved" "vs_grantId s = Some ''grant''"
    by (auto simp: list_ex_iff)
  show ?thesis
    using withdrawal_succeeds[OF round_reachable(2) db s(1), of "\<lparr>vx_selectionId = ''sel'', vx_expectedSelectionVersion = 3,
        vx_membershipId = ''member'', vx_now = 1717000200000\<rparr>"] s
    by simp
qed

section \<open>Replay\<close>

lemma replay_answer:
  assumes "findApprovalCommand db (vd_selectionId c) (vd_key c) = Some row"
    and "loadSelection db (vd_selectionId c) = Some s" "vs_requestId s = Some r"
  shows "approveVacationSelection i holds c db = Inr (\<lparr>vr_selectionId = vd_selectionId c, vr_requestId = r,
    vr_outcome = (case cm_outcome row of None \<Rightarrow> OutcomeApproved | Some oc \<Rightarrow> oc), vr_selectionVersion = vs_version s,
    vr_grantId = vs_grantId s, vr_isOverride = vs_isOverride s, vr_replayed = True\<rparr>, db)"
proof -
  have "recordCommand (vd_selectionId c) (vd_key c) db = Inr (False, db)"
    using assms by (simp add: recordCommand_def running perform_def recordApprovalCommand_def)
  then show ?thesis
    using assms by (simp add: approveVacationSelection_def seq_def[of "recordCommand _ _"] replayOutcome_def running ret_def)
qed

text \<open>What an approval that returns has left in the tables: its row in the ledger, and its selection.\<close>
lemma approval_recorded:
  assumes inv: "ledger_inv db" and first: "approveVacationSelection i holds c db = Inr (res, db')"
  shows "\<exists>row s. findApprovalCommand db' (vd_selectionId c) (vd_key c) = Some row \<and>
    loadSelection db' (vd_selectionId c) = Some s \<and> vs_requestId s = Some (vr_requestId res) \<and>
    res\<lparr>vr_replayed := True\<rparr> = \<lparr>vr_selectionId = vd_selectionId c, vr_requestId = vr_requestId res,
      vr_outcome = (case cm_outcome row of None \<Rightarrow> OutcomeApproved | Some oc \<Rightarrow> oc), vr_selectionVersion = vs_version s,
      vr_grantId = vs_grantId s, vr_isOverride = vs_isOverride s, vr_replayed = True\<rparr>"
proof -
  let ?i = "vd_selectionId c" and ?k = "vd_key c"
  obtain fresh db1 where rc: "recordCommand ?i ?k db = Inr (fresh, db1)"
    using first unfolding approveVacationSelection_def by (elim seq_InrE) blast
  note rcc = recordCommand_cases[OF rc]
  show ?thesis
  proof (cases fresh)
    case False
    then have "replayOutcome c db = Inr (res, db')"
      using first rc rcc by (simp add: approveVacationSelection_def seq_def)
    then show ?thesis by (auto simp: replayOutcome_def seq_Inr)
  next
    case True
    have rc': "recordCommand ?i ?k db = Inr (True, db1)" using rc True by simp
    have db1: "findApprovalCommand db ?i ?k = None"
      "db1 = db\<lparr>commands_t := commands_t db @ [\<lparr>cm_selectionId = ?i, cm_key = ?k, cm_outcome = None\<rparr>]\<rparr>"
      using rcc True by auto
    from approve_fresh[OF first rc'] obtain s db2 g ov why n db3 ev px r where f: "loadSelection db1 ?i = Some s"
      "commands_t db2 = commands_t db1" "selections_t db2 = selections_t db1"
      "decideSelection ?i (vd_expectedSelectionVersion c) SApproved g ov why ?k db2 = (Some n, db3)"
      "settleDecision i c s VACATION_APPROVAL_ROOT_PATH DecisionApproved why ov ev px OutcomeApproved db3 = Inr (r, db')"
      "res = \<lparr>vr_selectionId = ?i, vr_requestId = r, vr_outcome = OutcomeApproved, vr_selectionVersion = n,
         vr_grantId = g, vr_isOverride = ov, vr_replayed = False\<rparr>" by blast
    have d: "distinct (map vs_id (selections_t db2))" using ledger_inv_distinct[OF inv] f(3) db1(2) by simp
    have l: "loadSelection db2 ?i = Some s" using f(1,3) by (simp add: loadSelection_def)
    let ?s' = "s\<lparr>vs_status := SApproved, vs_grantId := g, vs_isOverride := ov, vs_overrideReason := why,
        vs_approvalKey := Some ?k, vs_version := vs_version s + 1\<rparr>"
    have u: "vs_id s = ?i" "n = vs_version s + 1" "s \<in> set (selections_t db2)"
      "db3 = db2\<lparr>selections_t := replace_by vs_id ?s' (selections_t db2)\<rparr>"
      using update_loaded[OF f(4)[unfolded decideSelection_def] l d] by simp_all
    note e = settleDecision_other[OF f(5)]
    have sel: "selections_t db' = replace_by vs_id ?s' (selections_t db2)" using e u(4) by simp
    have "?s' \<in> set (selections_t db')" using sel u(1,3) by (force simp: replace_by_def)
    then have l': "loadSelection db' ?i = Some ?s'"
      using loadSelection_unique[of db' ?s'] d sel u(1) by simp
    have "findApprovalCommand db1 ?i ?k = Some \<lparr>cm_selectionId = ?i, cm_key = ?k, cm_outcome = None\<rparr>"
      using db1 by (simp add: findApprovalCommand_def find_append_new)
    then have "findApprovalCommand db' ?i ?k = Some \<lparr>cm_selectionId = ?i, cm_key = ?k, cm_outcome = Some OutcomeApproved\<rparr>"
      using find_mark[of "\<lambda>x. cm_selectionId x = ?i \<and> cm_key x = ?k" "commands_t db1" _ "\<lambda>x. x\<lparr>cm_outcome := Some OutcomeApproved\<rparr>"]
        e u(4) f(2) by (auto simp: findApprovalCommand_def)
    then show ?thesis using l' e f(6) u(2) by simp
  qed
qed

text \<open>C21: an approval delivered again at any later time. Once an approval has returned and committed, the row of its
  command stays for good, provided the rest of the program leaves the ledger of commands to the approval service. So
  in every state a run reaches from there, the same selection and key, whatever else the second command carries,
  answer with the recorded selection, request and outcome, marked as a replay, and with the version, grant and
  override flag the selection has by then; the unit of work commits and leaves every table as it is. Before anything
  else happens, that is the first answer itself, marked as a replay.\<close>
theorem approval_replays:
  assumes "reachable fresh_group vacation_step w"
    and first: "request_work (approveVacationSelection i holds c) w = Inr (res, w1)"
    and later: "steps ledger_run w1 w2"
    and again: "vd_selectionId c' = vd_selectionId c" "vd_key c' = vd_key c"
  shows "\<exists>s answer. loadSelection (requests_part w2) (vd_selectionId c) = Some s \<and>
    request_work (approveVacationSelection i' holds' c') w2 = Inr (answer, w2) \<and>
    answer = res\<lparr>vr_selectionVersion := vs_version s, vr_grantId := vs_grantId s, vr_isOverride := vs_isOverride s,
      vr_replayed := True\<rparr> \<and>
    (w2 = w1 \<longrightarrow> answer = res\<lparr>vr_replayed := True\<rparr>)"
proof -
  have inv: "planning_inv w" by (rule vacation.reachable_inv[OF assms(1)])
  have call: "approveVacationSelection i holds c (requests_part w) = Inr (res, requests_part w1)"
    using first by (auto simp: request_work_Inr)
  have inv1: "planning_inv w1" using ledger_step_inv[OF approve_step[OF call inv]] .
  from replay.steps_inv[OF later inv1] have inv2: "planning_inv w2" and kept: "planning_history w1 w2"
    "commands_kept (requests_part w1) (requests_part w2)" by simp_all
  from approval_recorded[OF inv call] obtain row s where recorded:
    "findApprovalCommand (requests_part w1) (vd_selectionId c) (vd_key c) = Some row"
    "loadSelection (requests_part w1) (vd_selectionId c) = Some s" "vs_requestId s = Some (vr_requestId res)"
    "res\<lparr>vr_replayed := True\<rparr> = \<lparr>vr_selectionId = vd_selectionId c, vr_requestId = vr_requestId res,
      vr_outcome = (case cm_outcome row of None \<Rightarrow> OutcomeApproved | Some oc \<Rightarrow> oc), vr_selectionVersion = vs_version s,
      vr_grantId = vs_grantId s, vr_isOverride = vs_isOverride s, vr_replayed = True\<rparr>" by blast
  have row: "findApprovalCommand (requests_part w2) (vd_selectionId c') (vd_key c') = Some row"
    using kept(2) recorded(1) again by (simp add: commands_kept_def)
  obtain s' where s': "s' \<in> set (selections_t (requests_part w2))" "vs_id s' = vd_selectionId c" "selection_kept s s'"
    using kept(1) loadSelection_in[OF recorded(2)] by (auto simp: history_def)
  have l: "loadSelection (requests_part w2) (vd_selectionId c') = Some s'"
    using loadSelection_unique[of "requests_part w2" s'] ledger_inv_distinct[OF inv2] s'(1,2) again by simp
  have "vs_requestId s' = Some (vr_requestId res)" using s'(3) recorded(3) by (simp add: selection_kept_def)
  from replay_answer[OF row l this, of i' holds']
  have "request_work (approveVacationSelection i' holds' c') w2 = Inr (res\<lparr>vr_selectionVersion := vs_version s',
      vr_grantId := vs_grantId s', vr_isOverride := vs_isOverride s', vr_replayed := True\<rparr>, w2)"
    using ledger_inv_pairs[OF inv2] recorded(4) again by (cases res) (simp add: request_work_Inr)
  moreover have "res\<lparr>vr_selectionVersion := vs_version s', vr_grantId := vs_grantId s', vr_isOverride := vs_isOverride s',
      vr_replayed := True\<rparr> = res\<lparr>vr_replayed := True\<rparr>" if "w2 = w1"
    using recorded(2,4) l again that by (cases res) simp
  ultimately show ?thesis using l again by (intro exI[of _ s']) simp
qed

definition round_withdrawal :: WithdrawVacationSelectionCommand where
  "round_withdrawal = \<lparr>vx_selectionId = ''sel'', vx_expectedSelectionVersion = 3, vx_membershipId = ''member'',
     vx_now = 1717000200000\<rparr>"

definition round_withdrawn :: RequestDb where
  "round_withdrawn = (case withdrawVacationSelection round_withdrawal round_approved of
     Inl _ \<Rightarrow> round_approved | Inr (_, db) \<Rightarrow> db)"

lemma round_later:
  "case withdrawVacationSelection round_withdrawal round_approved of Inl _ \<Rightarrow> False | Inr (e, _) \<Rightarrow> True"
  "pairs_agree round_withdrawn" "map vs_version (selections_t round_withdrawn) = [4]"
  "map vs_version (selections_t round_approved) = [3]"
  unfolding round_withdrawn_def round_approved_def by code_simp+

lemma approval_replays_witness:
  "\<exists>answer. request_work (approveVacationSelection ''other'' True (round_decision\<lparr>vd_expectedSelectionVersion := 99\<rparr>))
       (round_world round_withdrawn) = Inr (answer, round_world round_withdrawn) \<and>
     vr_replayed answer \<and> vr_outcome answer = OutcomeApproved \<and> vr_selectionVersion answer = 4"
proof -
  obtain res where r: "approveVacationSelection ''ap'' False round_decision round_submitted = Inr (res, round_approved)"
    using round_approval by blast
  have "case recordCommand ''sel'' ''k2'' round_submitted of Inl _ \<Rightarrow> False | Inr (fresh, _) \<Rightarrow> fresh" by code_simp
  then obtain fresh db1 where rc: "recordCommand ''sel'' ''k2'' round_submitted = Inr (fresh, db1)" "fresh"
    by (auto split: sum.splits)
  have oc: "vr_outcome res = OutcomeApproved"
    using approve_fresh[of "''ap''" False round_decision round_submitted res round_approved db1] r rc
    by (auto simp: round_decision_def)
  have first: "request_work (approveVacationSelection ''ap'' False round_decision) (round_world round_submitted) =
      Inr (res, round_world round_approved)"
    using r round_pairs(2) by (simp add: request_work_Inr round_world_def)
  obtain e where "withdrawVacationSelection round_withdrawal round_approved = Inr (e, round_withdrawn)"
    using round_later(1) by (auto simp: round_withdrawn_def split: sum.splits)
  then have "vacation_step (round_world round_approved) (round_world round_withdrawn)"
    using round_later(2) by (intro vacation_step.withdraw_selection[of round_withdrawal _ e])
      (simp add: request_work_Inr round_world_def)
  moreover have "\<not> same_ledger round_approved round_withdrawn"
    using round_later(3,4) by (auto simp: same_ledger_def)
  ultimately have "steps ledger_run (round_world round_approved) (round_world round_withdrawn)"
    by (intro steps.more[OF steps.none]) (simp add: ledger_run_def round_world_def)
  from approval_replays[OF round_reachable(1) first this, of "round_decision\<lparr>vd_expectedSelectionVersion := 99\<rparr>" "''other''" True]
  obtain s answer where "loadSelection (requests_part (round_world round_withdrawn)) (vd_selectionId round_decision) = Some s"
    and again: "request_work (approveVacationSelection ''other'' True (round_decision\<lparr>vd_expectedSelectionVersion := 99\<rparr>))
       (round_world round_withdrawn) = Inr (answer, round_world round_withdrawn)"
    and "answer = res\<lparr>vr_selectionVersion := vs_version s, vr_grantId := vs_grantId s, vr_isOverride := vs_isOverride s,
       vr_replayed := True\<rparr>"
    by auto
  then have a: "loadSelection round_withdrawn ''sel'' = Some s" "vr_replayed answer" "vr_outcome answer = OutcomeApproved"
    "vr_selectionVersion answer = vs_version s"
    using oc by (simp_all add: round_world_def round_decision_def)
  moreover have "vs_version s \<in> set (map vs_version (selections_t round_withdrawn))"
    using loadSelection_in[OF a(1)] by auto
  then have "vs_version s = 4" unfolding round_later(3) by simp
  ultimately show ?thesis using again by (intro exI[of _ answer]) simp
qed

end
