(* ===== verification/AuthzCatalogue.thy ===== *)
theory AuthzCatalogue
  imports Prelude
begin

text \<open>
  \<open>packages/domain/src/authz/catalogue.ts\<close>: the modules, the dependencies between them and their closure, and
  the closed vocabulary of capabilities, each declared once in one namespace.
\<close>

section \<open>Modules\<close>

datatype ModuleKey = CoreScheduling | RequestsVacation | Marketplace | Communications | ReportingDocuments
  | Picklist | HospitalIntegration | OrganizationAdministration | EntitlementsModule

definition MODULE_KEYS :: "ModuleKey list" where
  "MODULE_KEYS = [CoreScheduling, RequestsVacation, Marketplace, Communications, ReportingDocuments,
     Picklist, HospitalIntegration, OrganizationAdministration, EntitlementsModule]"

text \<open>The strings the code writes for the modules.\<close>
fun module_string :: "ModuleKey \<Rightarrow> string" where
  "module_string CoreScheduling = ''core_scheduling''"
| "module_string RequestsVacation = ''requests_vacation''"
| "module_string Marketplace = ''marketplace''"
| "module_string Communications = ''communications''"
| "module_string ReportingDocuments = ''reporting_documents''"
| "module_string Picklist = ''picklist''"
| "module_string HospitalIntegration = ''hospital_integration''"
| "module_string OrganizationAdministration = ''organization_administration''"
| "module_string EntitlementsModule = ''entitlements''"

fun MODULE_DEPENDENCIES :: "ModuleKey \<Rightarrow> ModuleKey list" where
  "MODULE_DEPENDENCIES CoreScheduling = []"
| "MODULE_DEPENDENCIES RequestsVacation = [CoreScheduling]"
| "MODULE_DEPENDENCIES Marketplace = [CoreScheduling]"
| "MODULE_DEPENDENCIES Communications = [CoreScheduling]"
| "MODULE_DEPENDENCIES ReportingDocuments = [CoreScheduling]"
| "MODULE_DEPENDENCIES Picklist = [CoreScheduling]"
| "MODULE_DEPENDENCIES HospitalIntegration = [Picklist]"
| "MODULE_DEPENDENCIES OrganizationAdministration = []"
| "MODULE_DEPENDENCIES EntitlementsModule = []"

lemma MODULE_KEYS_UNIV [simp]: "m \<in> set MODULE_KEYS"
  by (cases m) (simp_all add: MODULE_KEYS_def)

lemma module_string_inj [simp]: "module_string a = module_string b \<longleftrightarrow> a = b"
  by (cases a; cases b) simp_all

text \<open>
  The recursive \<open>walk\<close> of \<open>moduleClosure\<close>: the first list is the calls still to make, the innermost first,
  the second is \<open>seen\<close>.
\<close>
function closure_walk :: "ModuleKey list \<Rightarrow> ModuleKey list \<Rightarrow> ModuleKey list" where
  "closure_walk [] seen = seen"
| "closure_walk (current # calls) seen =
     (if current \<in> set seen then closure_walk calls seen
      else closure_walk (MODULE_DEPENDENCIES current @ calls) (seen @ [current]))"
  by pat_completeness auto
termination
proof (relation "measures [\<lambda>(_, seen). card (- set seen), \<lambda>(calls, _). length calls]")
  fix current calls and seen :: "ModuleKey list"
  assume "current \<notin> set seen"
  moreover have "finite (UNIV :: ModuleKey set)"
    by (rule finite_subset[OF _ finite_set[of MODULE_KEYS]]) auto
  ultimately have "card (- set (seen @ [current])) < card (- set seen)"
    by (intro psubset_card_mono) (auto intro: finite_subset)
  then show "((MODULE_DEPENDENCIES current @ calls, seen @ [current]), current # calls, seen)
      \<in> measures [\<lambda>(_, seen). card (- set seen), \<lambda>(calls, _). length calls]"
    by (simp del: set_append)
qed (rule wf_measures, simp)

definition moduleClosure :: "ModuleKey \<Rightarrow> ModuleKey list" where
  "moduleClosure key = closure_walk [key] []"

text \<open>The walk of \<open>moduleDependencyCycles\<close> starts at the dependencies, so a module is reached only through one.\<close>
definition moduleDependencyCycles :: "ModuleKey list" where
  "moduleDependencyCycles =
     filter (\<lambda>key. key \<in> set (closure_walk (MODULE_DEPENDENCIES key) [])) MODULE_KEYS"

section \<open>Capabilities\<close>

datatype CapabilityScope = GroupScope | OrganizationScope

text \<open>The description is prose no code reads.\<close>
record CapabilityDefinition =
  cd_key :: string
  cd_scope :: CapabilityScope
  cd_module :: ModuleKey

abbreviation capability :: "string \<Rightarrow> CapabilityScope \<Rightarrow> ModuleKey \<Rightarrow> CapabilityDefinition" where
  "capability key scope governing \<equiv> \<lparr>cd_key = key, cd_scope = scope, cd_module = governing\<rparr>"

definition CAPABILITIES :: "CapabilityDefinition list" where
  "CAPABILITIES =
    [capability ''membership.touch_self'' GroupScope CoreScheduling,
     capability ''schedule.publish'' GroupScope CoreScheduling,
     capability ''schedule.revert'' GroupScope CoreScheduling,
     capability ''schedule.period.administer'' GroupScope CoreScheduling,
     capability ''schedule.version.edit'' GroupScope CoreScheduling,
     capability ''schedule.own_published.read'' GroupScope CoreScheduling,
     capability ''schedule.published.read'' GroupScope CoreScheduling,
     capability ''requests.batch_approve'' GroupScope RequestsVacation,
     capability ''requests.own.submit'' GroupScope RequestsVacation,
     capability ''requests.own.withdraw'' GroupScope RequestsVacation,
     capability ''requests.own.read'' GroupScope RequestsVacation,
     capability ''requests.read_any'' GroupScope RequestsVacation,
     capability ''requests.administer'' GroupScope RequestsVacation,
     capability ''requests.approve'' GroupScope RequestsVacation,
     capability ''requests.deny'' GroupScope RequestsVacation,
     capability ''requests.own.comment'' GroupScope RequestsVacation,
     capability ''requests.comment_any'' GroupScope RequestsVacation,
     capability ''vacation.commit'' GroupScope RequestsVacation,
     capability ''vacation.override_quota'' GroupScope RequestsVacation,
     capability ''picklist.administer'' GroupScope Picklist,
     capability ''picklist.intervene'' GroupScope Picklist,
     capability ''messaging.bulk_send'' GroupScope Communications,
     capability ''documents.manage'' GroupScope ReportingDocuments,
     capability ''connectors.manage'' GroupScope HospitalIntegration,
     capability ''staffing.work_profile.administer'' GroupScope CoreScheduling,
     capability ''staffing.work_profile.read'' GroupScope CoreScheduling,
     capability ''staffing.qualification.administer'' GroupScope CoreScheduling,
     capability ''staffing.qualification_holding.administer'' GroupScope CoreScheduling,
     capability ''staffing.qualification_holding.read'' GroupScope CoreScheduling,
     capability ''staffing.qualification_holding.read_any'' GroupScope CoreScheduling,
     capability ''schedule.catalogue.administer'' GroupScope CoreScheduling,
     capability ''group.holiday_calendar.administer'' GroupScope CoreScheduling,
     capability ''group.holiday_calendar.read'' GroupScope CoreScheduling,
     capability ''group.pick_positions.administer'' GroupScope CoreScheduling,
     capability ''group.settings.administer'' GroupScope CoreScheduling,
     capability ''group.timezone.administer'' GroupScope CoreScheduling,
     capability ''group.location.administer'' GroupScope CoreScheduling,
     capability ''organization.membership.touch_self'' OrganizationScope CoreScheduling,
     capability ''organization.membership.administer'' OrganizationScope OrganizationAdministration,
     capability ''organization.group.administer'' OrganizationScope OrganizationAdministration,
     capability ''organization.role.administer'' OrganizationScope OrganizationAdministration,
     capability ''organization.entitlement.administer'' OrganizationScope EntitlementsModule,
     capability ''organization.profile.administer'' OrganizationScope OrganizationAdministration,
     capability ''identity.change_login_email'' OrganizationScope OrganizationAdministration,
     capability ''identity.impersonate'' OrganizationScope OrganizationAdministration,
     capability ''identity.reset_mfa'' OrganizationScope OrganizationAdministration,
     capability ''identity.administer_sessions'' OrganizationScope OrganizationAdministration,
     capability ''audit.export'' OrganizationScope ReportingDocuments,
     capability ''audit.read'' GroupScope CoreScheduling]"

text \<open>\<open>new Map(CAPABILITIES.map(\<dots>))\<close>: of two entries of one key the later would win.\<close>
definition BY_KEY :: "(string \<times> CapabilityDefinition) list" where
  "BY_KEY = rev (map (\<lambda>c. (cd_key c, c)) CAPABILITIES)"

definition capabilityDefinition :: "string \<Rightarrow> CapabilityDefinition option" where
  "capabilityDefinition key = map_of BY_KEY key"

definition isKnownCapability :: "string \<Rightarrow> bool" where
  "isKnownCapability key \<longleftrightarrow> map_of BY_KEY key \<noteq> None"

definition capabilityKeys :: "CapabilityScope option \<Rightarrow> string list" where
  "capabilityKeys scope = map cd_key (filter (\<lambda>c. scope = None \<or> Some (cd_scope c) = scope) CAPABILITIES)"

definition overlappingCapabilityKeys :: "string list" where
  "overlappingCapabilityKeys =
     filter (\<lambda>key. key \<in> set (capabilityKeys (Some GroupScope))) (capabilityKeys (Some OrganizationScope))"

text \<open>A \<open>Map\<close> keeps its keys in the order of their first \<open>set\<close>.\<close>
definition duplicateCapabilityKeys :: "string list" where
  "duplicateCapabilityKeys =
     (let keys = map cd_key CAPABILITIES
      in filter (\<lambda>key. 1 < count_list keys key) (rev (remdups (rev keys))))"

section \<open>The closure\<close>

definition depends :: "(ModuleKey \<times> ModuleKey) set" where
  "depends = {(a, b). b \<in> set (MODULE_DEPENDENCIES a)}"

lemma closure_walk_seen: "set seen \<subseteq> set (closure_walk calls seen)"
  by (induction calls seen rule: closure_walk.induct) auto

lemma closure_walk_distinct: "distinct seen \<Longrightarrow> distinct (closure_walk calls seen)"
  by (induction calls seen rule: closure_walk.induct) auto

lemma closure_walk_sound: "set (closure_walk calls seen) \<subseteq> set seen \<union> depends\<^sup>* `` set calls"
proof (induction calls seen rule: closure_walk.induct)
  case (2 current calls seen)
  have "depends\<^sup>* `` set (MODULE_DEPENDENCIES current) \<subseteq> depends\<^sup>* `` {current}"
    by (auto simp: depends_def intro: converse_rtrancl_into_rtrancl)
  then show ?case using 2 by (cases "current \<in> set seen") (auto simp: Image_Un, blast+)
qed simp

text \<open>What is seen is closed but for the calls still to make; so the result is closed.\<close>
lemma closure_walk_closed:
  assumes "\<forall>s \<in> set seen. set (MODULE_DEPENDENCIES s) \<subseteq> set seen \<union> set calls"
  shows "set calls \<subseteq> set (closure_walk calls seen) \<and>
    (\<forall>s \<in> set (closure_walk calls seen). set (MODULE_DEPENDENCIES s) \<subseteq> set (closure_walk calls seen))"
  using assms
proof (induction calls seen rule: closure_walk.induct)
  case (2 current calls seen)
  show ?case
  proof (cases "current \<in> set seen")
    case True
    then have "\<forall>s \<in> set seen. set (MODULE_DEPENDENCIES s) \<subseteq> set seen \<union> set calls" using 2(3) by fastforce
    then show ?thesis using 2(1)[OF True] True closure_walk_seen[of seen calls] by auto
  next
    case False
    let ?R = "closure_walk (MODULE_DEPENDENCIES current @ calls) (seen @ [current])"
    have "\<forall>s \<in> set (seen @ [current]).
        set (MODULE_DEPENDENCIES s) \<subseteq> set (seen @ [current]) \<union> set (MODULE_DEPENDENCIES current @ calls)"
      using 2(3) by fastforce
    then show ?thesis
      using 2(2)[OF False] False closure_walk_seen[of "seen @ [current]" "MODULE_DEPENDENCIES current @ calls"]
      by simp
  qed
qed simp

lemma closure_walk_set: "set (closure_walk calls []) = depends\<^sup>* `` set calls"
proof
  show "set (closure_walk calls []) \<subseteq> depends\<^sup>* `` set calls" using closure_walk_sound[of calls "[]"] by simp
  have c: "set calls \<subseteq> set (closure_walk calls [])"
    "\<forall>s \<in> set (closure_walk calls []). set (MODULE_DEPENDENCIES s) \<subseteq> set (closure_walk calls [])"
    using closure_walk_closed[of "[]" calls] by auto
  have "(a, b) \<in> depends\<^sup>* \<Longrightarrow> a \<in> set (closure_walk calls []) \<Longrightarrow> b \<in> set (closure_walk calls [])" for a b
    by (induction rule: rtrancl_induct) (use c(2) in \<open>auto simp: depends_def\<close>)
  then show "depends\<^sup>* `` set calls \<subseteq> set (closure_walk calls [])" using c(1) by auto
qed

lemma moduleClosure_set: "set (moduleClosure key) = {m. (key, m) \<in> depends\<^sup>*}"
  unfolding moduleClosure_def closure_walk_set by auto

lemma moduleClosure_distinct: "distinct (moduleClosure key)"
  by (simp add: moduleClosure_def closure_walk_distinct)

lemma moduleClosure_values:
  "moduleClosure key = (case key of
     HospitalIntegration \<Rightarrow> [HospitalIntegration, Picklist, CoreScheduling]
   | _ \<Rightarrow> key # MODULE_DEPENDENCIES key)"
  by (cases key) (simp_all add: moduleClosure_def)

lemma moduleClosure_self [simp]: "key \<in> set (moduleClosure key)"
  by (simp add: moduleClosure_set)

lemma cycle_reached:
  "key \<in> set (closure_walk (MODULE_DEPENDENCIES key) []) \<longleftrightarrow> (key, key) \<in> depends\<^sup>+"
  unfolding closure_walk_set trancl_unfold_left by (auto simp: depends_def)

section \<open>The vocabulary\<close>

lemma distinct_capabilities: "distinct (map cd_key CAPABILITIES)"
  by code_simp

lemma capabilityDefinition_iff:
  "capabilityDefinition key = Some d \<longleftrightarrow> d \<in> set CAPABILITIES \<and> cd_key d = key"
proof -
  have "distinct (map fst BY_KEY)" using distinct_capabilities by (simp add: BY_KEY_def rev_map comp_def distinct_rev[of "map _ _", unfolded rev_map])
  then show ?thesis by (auto simp: capabilityDefinition_def BY_KEY_def)
qed

lemma isKnownCapability_iff: "isKnownCapability key \<longleftrightarrow> key \<in> set (capabilityKeys None)"
  by (auto simp: isKnownCapability_def capabilityKeys_def BY_KEY_def map_of_eq_None_iff image_image)

end
