(* ===== verification/Authorize.thy ===== *)
theory Authorize
  imports AuthzCatalogue InForce RowDigest
begin

text \<open>
  \<open>packages/domain/src/authz/\<close>: the decisions (\<open>decision.ts\<close>), the snapshot a decision is made from
  (\<open>policy-input.ts\<close>) and the evaluator (\<open>evaluate.ts\<close>), layer by layer. An instant is a string the host's
  \<open>Date.parse\<close> (the parameter \<open>dateParse\<close>) reads; \<open>None\<close> is \<open>NaN\<close>.
  Explanations are the source's strings, with a hyphen for the one en dash among them.
\<close>

section \<open>Decisions\<close>

datatype PolicyStep = L0_1 | L0_2 | L1_1 | L1_2 | L1_3 | L1_4 | L2_1 | L3_1 | L3_2 | L3_3 | L4_1 | L4_2
  | L5_1 | L6_1 | L6_2 | P_4

datatype DenyReason = ORG_INACTIVE | GROUP_INACTIVE | NOT_ENTITLED | ENTITLEMENT_SUSPENDED | ENTITLEMENT_REVOKED
  | ENTITLEMENT_EXPIRED | MODULE_DEPENDENCY_UNSATISFIED | MODULE_UNAVAILABLE_IN_GROUP | NO_MEMBERSHIP
  | NO_ORG_MEMBERSHIP | MEMBERSHIP_INVITED | MEMBERSHIP_SUSPENDED | MEMBERSHIP_ENDED | MEMBERSHIP_EXPIRED
  | EXPLICIT_DENY | NO_CAPABILITY | OBJECT_POLICY | PROXY_INVALID | PROXY_SCOPE | PROXY_GRANTOR_DENIED
  | PROXY_MEMBERSHIP | IMPERSONATION_EXPIRED | IMPERSONATION_FORBIDDEN_SURFACE | UNDECLARED_ACTION

datatype Disclosure = DiscloseNotFound | DiscloseForbidden

datatype Via = ViaRole | ViaGrant

record Denial =
  dn_step :: PolicyStep
  dn_reason :: DenyReason
  dn_explanation :: string

datatype Decision = AllowVia Via | DenyWith Denial

abbreviation deny :: "PolicyStep \<Rightarrow> DenyReason \<Rightarrow> string \<Rightarrow> Denial" where
  "deny s reason explanation \<equiv> \<lparr>dn_step = s, dn_reason = reason, dn_explanation = explanation\<rparr>"

fun denialDisclosure :: "DenyReason \<Rightarrow> Disclosure" where
  "denialDisclosure EXPLICIT_DENY = DiscloseForbidden"
| "denialDisclosure NO_CAPABILITY = DiscloseForbidden"
| "denialDisclosure PROXY_INVALID = DiscloseForbidden"
| "denialDisclosure PROXY_SCOPE = DiscloseForbidden"
| "denialDisclosure PROXY_GRANTOR_DENIED = DiscloseForbidden"
| "denialDisclosure PROXY_MEMBERSHIP = DiscloseForbidden"
| "denialDisclosure IMPERSONATION_EXPIRED = DiscloseForbidden"
| "denialDisclosure IMPERSONATION_FORBIDDEN_SURFACE = DiscloseForbidden"
| "denialDisclosure _ = DiscloseNotFound"

fun is_allowed :: "Decision \<Rightarrow> bool" where
  "is_allowed (AllowVia _) = True"
| "is_allowed (DenyWith _) = False"

fun passedCapabilityLayer :: "Decision \<Rightarrow> bool" where
  "passedCapabilityLayer (AllowVia _) = True"
| "passedCapabilityLayer (DenyWith d) = (dn_step d = L5_1 \<or> dn_step d = L6_1 \<or> dn_step d = L6_2)"

section \<open>The snapshot\<close>

datatype ActiveStatus = StatusActive | StatusInactive
datatype EntitlementState = EntTrial | EntActive | EntSuspended | EntRevoked
datatype MembershipInputStatus = MemInvited | MemActive | MemSuspended | MemEnded
datatype ProxyScope = ActOnBehalf | NotificationsOnly
datatype ProxyStatus = ProxyActive | ProxyRevoked | ProxyExpired

text \<open>The strings of the unions, which the explanations quote.\<close>
fun status_string :: "ActiveStatus \<Rightarrow> string" where
  "status_string StatusActive = ''active''"
| "status_string StatusInactive = ''inactive''"

fun entitlement_string :: "EntitlementState \<Rightarrow> string" where
  "entitlement_string EntTrial = ''trial''"
| "entitlement_string EntActive = ''active''"
| "entitlement_string EntSuspended = ''suspended''"
| "entitlement_string EntRevoked = ''revoked''"

fun membership_string :: "MembershipInputStatus \<Rightarrow> string" where
  "membership_string MemInvited = ''invited''"
| "membership_string MemActive = ''active''"
| "membership_string MemSuspended = ''suspended''"
| "membership_string MemEnded = ''ended''"

fun proxy_scope_string :: "ProxyScope \<Rightarrow> string" where
  "proxy_scope_string ActOnBehalf = ''act-on-behalf''"
| "proxy_scope_string NotificationsOnly = ''notifications-only''"

fun scope_string :: "CapabilityScope \<Rightarrow> string" where
  "scope_string GroupScope = ''group''"
| "scope_string OrganizationScope = ''organization''"

record TenantInput =
  tn_id :: string
  tn_status :: ActiveStatus

record EntitlementInput =
  en_moduleKey :: ModuleKey
  en_state :: EntitlementState
  en_effectiveFrom :: string
  en_effectiveTo :: "string option"

record AvailabilityInput =
  av_moduleKey :: ModuleKey
  av_available :: bool

record MembershipInput =
  mi_id :: string
  mi_status :: MembershipInputStatus
  mi_roleId :: "string option"
  mi_validFrom :: string
  mi_validTo :: "string option"

record RoleInput =
  ri_id :: string
  ri_isSystemRole :: bool

record GrantInput =
  gi_capabilityKey :: string
  gi_granted :: bool
  gi_validFrom :: string
  gi_validTo :: "string option"

record ProxyInput =
  px_grantorMembershipId :: string
  px_scope :: ProxyScope
  px_status :: ProxyStatus
  px_validFrom :: string
  px_validTo :: "string option"
  px_grantorPassed :: bool

record ImpersonationInput =
  im_operatorUserId :: string
  im_expiresAt :: string
  im_targetIsCredentialSurface :: bool
  im_operatorHoldsCapability :: bool

record TargetInput =
  tg_organizationId :: string
  tg_groupId :: "string option"
  tg_type :: string
  tg_ownerMembershipId :: "string option"
  tg_state :: "string option"

text \<open>An optional field that is absent is \<open>None\<close>.\<close>
record ActionInput =
  ac_key :: string
  ac_moduleKey :: ModuleKey
  ac_scope :: CapabilityScope
  ac_requiresObjectPolicy :: bool
  ac_ownershipRequired :: "bool option"
  ac_ownershipOverrideCapability :: "string option"
  ac_permittedTargetStates :: "string list option"

record EvaluationContext =
  ec_principalUserId :: string
  ec_expectedOrganizationId :: string
  ec_expectedGroupId :: "string option"
  ec_membershipId :: string

record PolicyInput =
  pi_context :: EvaluationContext
  pi_organization :: "TenantInput option"
  pi_group :: "TenantInput option"
  pi_entitlement :: "EntitlementInput option"
  pi_moduleDependencies :: "(ModuleKey \<times> EntitlementInput option) list"
  pi_availability :: "AvailabilityInput option"
  pi_membership :: "MembershipInput option"
  pi_role :: "RoleInput option"
  pi_roleCapabilities :: "string list"
  pi_organizationMembership :: "MembershipInput option"
  pi_organizationRole :: "RoleInput option"
  pi_organizationRoleCapabilities :: "string list"
  pi_grants :: "GrantInput list"
  pi_proxy :: "ProxyInput option"
  pi_impersonation :: "ImpersonationInput option"
  pi_target :: "TargetInput option"
  pi_action :: ActionInput
  pi_now :: string

section \<open>Windows\<close>

definition withinWindow :: "date_parse \<Rightarrow> string \<Rightarrow> string \<Rightarrow> string option \<Rightarrow> bool" where
  "withinWindow dateParse now from till =
     (case (dateParse now, dateParse from) of
        (Some instant, Some start) \<Rightarrow>
          if instant < start then False
          else (case till of
                  None \<Rightarrow> True
                | Some bound \<Rightarrow> (case dateParse bound of None \<Rightarrow> False | Some end_ \<Rightarrow> instant < end_))
      | _ \<Rightarrow> False)"

section \<open>L0: organization and group\<close>

definition step0 :: "PolicyInput \<Rightarrow> Denial option" where
  "step0 input =
     (case pi_organization input of
        None \<Rightarrow> Some (deny L0_1 ORG_INACTIVE ''the declared organization is not visible'')
      | Some organization \<Rightarrow>
          if tn_id organization \<noteq> ec_expectedOrganizationId (pi_context input)
          then Some (deny L0_1 ORG_INACTIVE ''the organization in the snapshot is not the declared organization'')
          else if tn_status organization \<noteq> StatusActive
          then Some (deny L0_1 ORG_INACTIVE (''organization status is '' @ status_string (tn_status organization)))
          else if ac_scope (pi_action input) = GroupScope then
            (case pi_group input of
               None \<Rightarrow> Some (deny L0_2 GROUP_INACTIVE ''the declared group is not visible'')
             | Some grp \<Rightarrow>
                 if Some (tn_id grp) \<noteq> ec_expectedGroupId (pi_context input)
                 then Some (deny L0_2 GROUP_INACTIVE ''the group in the snapshot is not the declared group'')
                 else if tn_status grp \<noteq> StatusActive
                 then Some (deny L0_2 GROUP_INACTIVE (''group status is '' @ status_string (tn_status grp)))
                 else None)
          else None)"

section \<open>L1: entitlement and the dependency closure\<close>

definition ENTITLED_STATES :: "EntitlementState list" where
  "ENTITLED_STATES = [EntTrial, EntActive]"

definition entitlementFailure ::
  "date_parse \<Rightarrow> EntitlementInput option \<Rightarrow> string \<Rightarrow> (DenyReason \<times> string) option" where
  "entitlementFailure dateParse entitlement now =
     (case entitlement of
        None \<Rightarrow> Some (NOT_ENTITLED, ''no entitlement row exists'')
      | Some e \<Rightarrow>
          if en_state e \<notin> set ENTITLED_STATES
          then Some (if en_state e = EntRevoked then ENTITLEMENT_REVOKED else ENTITLEMENT_SUSPENDED,
                     ''entitlement state is '' @ entitlement_string (en_state e))
          else if \<not> withinWindow dateParse now (en_effectiveFrom e) (en_effectiveTo e)
          then Some (ENTITLEMENT_EXPIRED, ''now is outside the effective window'')
          else None)"

text \<open>The loop that refuses a dependency whose row is for another module.\<close>
fun dependency_mismatch :: "(ModuleKey \<times> EntitlementInput option) list \<Rightarrow> Denial option" where
  "dependency_mismatch [] = None"
| "dependency_mismatch ((key, entitlement) # rest) =
     (case entitlement of
        Some e \<Rightarrow>
          if en_moduleKey e \<noteq> key
          then Some (deny L1_4 MODULE_DEPENDENCY_UNSATISFIED
                 (''the entitlement supplied for '' @ module_string key @ '' is for '' @ module_string (en_moduleKey e)))
          else dependency_mismatch rest
      | None \<Rightarrow> dependency_mismatch rest)"

fun dependency_failure ::
  "date_parse \<Rightarrow> string \<Rightarrow> (ModuleKey \<times> EntitlementInput option) list \<Rightarrow> Denial option" where
  "dependency_failure dateParse now [] = None"
| "dependency_failure dateParse now ((key, entitlement) # rest) =
     (case entitlementFailure dateParse entitlement now of
        Some (_, detail) \<Rightarrow>
          Some (deny L1_4 MODULE_DEPENDENCY_UNSATISFIED (''dependency '' @ module_string key @ '': '' @ detail))
      | None \<Rightarrow> dependency_failure dateParse now rest)"

definition missing_dependencies :: "PolicyInput \<Rightarrow> ModuleKey list" where
  "missing_dependencies input =
     (let required = filter (\<lambda>key. key \<noteq> ac_moduleKey (pi_action input)) (moduleClosure (ac_moduleKey (pi_action input)));
          supplied = set (map fst (pi_moduleDependencies input))
      in filter (\<lambda>key. key \<notin> supplied) required)"

text \<open>The checks of L1 after the two that compare the rows' modules.\<close>
definition step1_entitled :: "date_parse \<Rightarrow> PolicyInput \<Rightarrow> Denial option" where
  "step1_entitled dateParse input =
     (case entitlementFailure dateParse (pi_entitlement input) (pi_now input) of
        Some (reason, detail) \<Rightarrow>
          Some (deny (if reason = NOT_ENTITLED then L1_1 else if reason = ENTITLEMENT_EXPIRED then L1_3 else L1_2) reason
            (module_string (ac_moduleKey (pi_action input)) @ '': '' @ detail))
      | None \<Rightarrow>
          (let missing = missing_dependencies input in
           if 0 < length missing
           then Some (deny L1_4 MODULE_DEPENDENCY_UNSATISFIED
                  (''the snapshot omits the transitive dependencies '' @ join '', '' (map module_string missing)))
           else dependency_failure dateParse (pi_now input) (pi_moduleDependencies input)))"

definition step1 :: "date_parse \<Rightarrow> PolicyInput \<Rightarrow> Denial option" where
  "step1 dateParse input =
     (let rest = (case dependency_mismatch (pi_moduleDependencies input) of
                    Some d \<Rightarrow> Some d
                  | None \<Rightarrow> step1_entitled dateParse input)
      in case pi_entitlement input of
           Some e \<Rightarrow>
             if en_moduleKey e \<noteq> ac_moduleKey (pi_action input)
             then Some (deny L1_1 NOT_ENTITLED
                    (''the entitlement in the snapshot is for '' @ module_string (en_moduleKey e) @ '', not '' @
                     module_string (ac_moduleKey (pi_action input))))
             else rest
         | None \<Rightarrow> rest)"

section \<open>L2: availability in the group\<close>

definition step2 :: "PolicyInput \<Rightarrow> Denial option" where
  "step2 input =
     (if ac_scope (pi_action input) \<noteq> GroupScope then None
      else (case pi_availability input of
              None \<Rightarrow> Some (deny L2_1 MODULE_UNAVAILABLE_IN_GROUP
                 (''no availability row for '' @ module_string (ac_moduleKey (pi_action input)) @ '' in this group''))
            | Some availability \<Rightarrow>
                if av_moduleKey availability \<noteq> ac_moduleKey (pi_action input)
                then Some (deny L2_1 MODULE_UNAVAILABLE_IN_GROUP ''the availability row is for a different module'')
                else if \<not> av_available availability
                then Some (deny L2_1 MODULE_UNAVAILABLE_IN_GROUP
                       (module_string (ac_moduleKey (pi_action input)) @ '' is disabled in this group''))
                else None))"

section \<open>L3: the membership the scope selects\<close>

record SelectedMembership =
  sel_membership :: MembershipInput
  sel_capabilities :: "string list"

text \<open>The last two checks of L3: the role in the snapshot is the one the membership names.\<close>
definition step3_role ::
  "DenyReason \<Rightarrow> MembershipInput \<Rightarrow> RoleInput option \<Rightarrow> string list \<Rightarrow> Denial + SelectedMembership" where
  "step3_role absent membership role capabilities =
     (case (role, mi_roleId membership) of
        (Some r, Some roleId) \<Rightarrow>
          if ri_id r \<noteq> roleId
          then Inl (deny L3_1 absent
                 (''the role in the snapshot ('' @ ri_id r @ '') is not the one the membership names ('' @ roleId @ '')''))
          else Inr \<lparr>sel_membership = membership, sel_capabilities = capabilities\<rparr>
      | (Some r, None) \<Rightarrow> Inl (deny L3_1 absent ''a role was supplied for a membership that carries none'')
      | (None, _) \<Rightarrow> Inr \<lparr>sel_membership = membership, sel_capabilities = []\<rparr>)"

definition step3 :: "date_parse \<Rightarrow> PolicyInput \<Rightarrow> Denial + SelectedMembership" where
  "step3 dateParse input =
     (let organizationScoped = (ac_scope (pi_action input) = OrganizationScope);
          membership = (if organizationScoped then pi_organizationMembership input else pi_membership input);
          role = (if organizationScoped then pi_organizationRole input else pi_role input);
          capabilities = (if organizationScoped then pi_organizationRoleCapabilities input
                          else pi_roleCapabilities input);
          absent = (if organizationScoped then NO_ORG_MEMBERSHIP else NO_MEMBERSHIP)
      in case membership of
           None \<Rightarrow> Inl (deny L3_1 absent
             (if organizationScoped
              then ''no organization membership for the principal in the declared organization (P-9)''
              else ''no group membership for the principal in the declared group (P-8)''))
         | Some m \<Rightarrow>
             if mi_id m \<noteq> ec_membershipId (pi_context input)
             then Inl (deny L3_1 absent
                    (''the membership in the snapshot is not the acting membership resolved at SPEC-01 '' @ [CHR 0xA7] @ ''2.3 step 2''))
             else if organizationScoped \<and> (mi_roleId m = None \<or> role = None)
             then Inl (deny L3_1 NO_ORG_MEMBERSHIP ''the organization membership carries no organization role'')
             else if mi_status m \<noteq> MemActive
             then Inl (deny L3_2
                    (if mi_status m = MemSuspended then MEMBERSHIP_SUSPENDED
                     else if mi_status m = MemInvited then MEMBERSHIP_INVITED else MEMBERSHIP_ENDED)
                    (''membership status is '' @ membership_string (mi_status m)))
             else if \<not> withinWindow dateParse (pi_now input) (mi_validFrom m) (mi_validTo m)
             then Inl (deny L3_3 MEMBERSHIP_EXPIRED ''now is outside the membership validity window'')
             else step3_role absent m role capabilities)"

section \<open>L4: explicit deny, then explicit allow or the role\<close>

definition windowIsComparable :: "date_parse \<Rightarrow> GrantInput \<Rightarrow> bool" where
  "windowIsComparable dateParse grant =
     (if dateParse (gi_validFrom grant) = None then False
      else (case gi_validTo grant of None \<Rightarrow> True | Some till \<Rightarrow> dateParse till \<noteq> None))"

definition inWindowGrants :: "date_parse \<Rightarrow> GrantInput list \<Rightarrow> string \<Rightarrow> string \<Rightarrow> GrantInput list" where
  "inWindowGrants dateParse grants capabilityKey now =
     filter (\<lambda>grant. gi_capabilityKey grant = capabilityKey \<and> windowIsComparable dateParse grant \<and>
        withinWindow dateParse now (gi_validFrom grant) (gi_validTo grant)) grants"

definition hasExplicitDeny :: "date_parse \<Rightarrow> GrantInput list \<Rightarrow> string \<Rightarrow> string \<Rightarrow> bool" where
  "hasExplicitDeny dateParse grants capabilityKey now =
     list_ex (\<lambda>grant. gi_capabilityKey grant = capabilityKey \<and> \<not> gi_granted grant \<and>
        (\<not> windowIsComparable dateParse grant \<or>
         withinWindow dateParse now (gi_validFrom grant) (gi_validTo grant))) grants"

definition holdsCapability :: "date_parse \<Rightarrow> PolicyInput \<Rightarrow> SelectedMembership \<Rightarrow> string \<Rightarrow> bool" where
  "holdsCapability dateParse input selected capabilityKey =
     (if hasExplicitDeny dateParse (pi_grants input) capabilityKey (pi_now input) then False
      else if list_ex gi_granted (inWindowGrants dateParse (pi_grants input) capabilityKey (pi_now input)) then True
      else capabilityKey \<in> set (sel_capabilities selected))"

definition step4 :: "date_parse \<Rightarrow> PolicyInput \<Rightarrow> SelectedMembership \<Rightarrow> Denial + Via" where
  "step4 dateParse input selected =
     (let key = ac_key (pi_action input) in
      if hasExplicitDeny dateParse (pi_grants input) key (pi_now input)
      then Inl (deny L4_1 EXPLICIT_DENY (''an in-force deny grant exists for '' @ key))
      else if list_ex gi_granted (inWindowGrants dateParse (pi_grants input) key (pi_now input)) then Inr ViaGrant
      else if key \<in> set (sel_capabilities selected) then Inr ViaRole
      else Inl (deny L4_2 NO_CAPABILITY (''neither an in-window allow grant nor the role carries '' @ key)))"

section \<open>L5: the object policy\<close>

fun string_or_null :: "string option \<Rightarrow> string" where
  "string_or_null None = ''null''"
| "string_or_null (Some s) = s"

definition owned_elsewhere :: "date_parse \<Rightarrow> PolicyInput \<Rightarrow> SelectedMembership \<Rightarrow> TargetInput \<Rightarrow> bool" where
  "owned_elsewhere dateParse input selected target \<longleftrightarrow>
     ac_ownershipRequired (pi_action input) = Some True \<and>
     \<not> (case ac_ownershipOverrideCapability (pi_action input) of
          None \<Rightarrow> False
        | Some override \<Rightarrow> holdsCapability dateParse input selected override) \<and>
     tg_ownerMembershipId target \<noteq> Some (ec_membershipId (pi_context input))"

definition step5 :: "date_parse \<Rightarrow> PolicyInput \<Rightarrow> SelectedMembership \<Rightarrow> Denial option" where
  "step5 dateParse input selected =
     (if \<not> ac_requiresObjectPolicy (pi_action input) then None
      else (case pi_target input of
              None \<Rightarrow> Some (deny L5_1 OBJECT_POLICY
                 ''the action requires an object policy but no target was resolved'')
            | Some target \<Rightarrow>
                if tg_organizationId target \<noteq> ec_expectedOrganizationId (pi_context input)
                then Some (deny L5_1 OBJECT_POLICY ''the target belongs to a different organization'')
                else if ac_scope (pi_action input) = GroupScope \<and> tg_groupId target \<noteq> ec_expectedGroupId (pi_context input)
                then Some (deny L5_1 OBJECT_POLICY ''the target belongs to a different group'')
                else if owned_elsewhere dateParse input selected target
                then Some (deny L5_1 OBJECT_POLICY ''the target is not owned by the acting membership'')
                else (case ac_permittedTargetStates (pi_action input) of
                        None \<Rightarrow> None
                      | Some permitted \<Rightarrow>
                          if (case tg_state target of None \<Rightarrow> True | Some st \<Rightarrow> st \<notin> set permitted)
                          then Some (deny L5_1 OBJECT_POLICY
                                 (''target state '' @ string_or_null (tg_state target) @ '' is not one of '' @
                                  join '', '' permitted))
                          else None)))"

section \<open>L6: proxy, then impersonation\<close>

definition step6_proxy :: "date_parse \<Rightarrow> PolicyInput \<Rightarrow> Denial option" where
  "step6_proxy dateParse input =
     (case pi_proxy input of
        None \<Rightarrow> None
      | Some proxy \<Rightarrow>
          if px_status proxy \<noteq> ProxyActive \<or>
             \<not> withinWindow dateParse (pi_now input) (px_validFrom proxy) (px_validTo proxy)
          then Some (deny L6_1 PROXY_INVALID ''the proxy grant is not active and in window'')
          else if px_scope proxy \<noteq> ActOnBehalf
          then Some (deny L6_1 PROXY_SCOPE (''a '' @ proxy_scope_string (px_scope proxy) @ '' proxy cannot act''))
          else if \<not> px_grantorPassed proxy
          then Some (deny L6_1 PROXY_GRANTOR_DENIED
                 ''the grantor does not independently pass L0-L5 for this action'')
          else None)"

definition step6_impersonation :: "date_parse \<Rightarrow> PolicyInput \<Rightarrow> Denial option" where
  "step6_impersonation dateParse input =
     (case pi_impersonation input of
        None \<Rightarrow> None
      | Some impersonation \<Rightarrow>
          if \<not> withinWindow dateParse (pi_now input) ''1970-01-01T00:00:00.000Z'' (Some (im_expiresAt impersonation))
          then Some (deny L6_2 IMPERSONATION_EXPIRED ''the impersonation window is not open'')
          else if im_targetIsCredentialSurface impersonation
          then Some (deny L6_2 IMPERSONATION_FORBIDDEN_SURFACE
                 ''credential, MFA and token surfaces are unreachable while impersonating'')
          else if \<not> im_operatorHoldsCapability impersonation
          then Some (deny L6_2 IMPERSONATION_FORBIDDEN_SURFACE
                 ''the operator does not hold this capability in their own right (intersection rule)'')
          else None)"

definition step6 :: "date_parse \<Rightarrow> PolicyInput \<Rightarrow> Denial option" where
  "step6 dateParse input =
     (case step6_proxy dateParse input of Some d \<Rightarrow> Some d | None \<Rightarrow> step6_impersonation dateParse input)"

section \<open>The evaluator\<close>

definition step4Precondition :: "PolicyInput \<Rightarrow> Denial option" where
  "step4Precondition input =
     (let action = pi_action input in
      case capabilityDefinition (ac_key action) of
        None \<Rightarrow> Some (deny P_4 UNDECLARED_ACTION (ac_key action @ '' is not in the capability catalogue''))
      | Some definition_ \<Rightarrow>
          if cd_scope definition_ \<noteq> ac_scope action
          then Some (deny P_4 UNDECLARED_ACTION
                 (ac_key action @ '' is declared '' @ scope_string (cd_scope definition_) @
                  ''-scoped but the action says '' @ scope_string (ac_scope action)))
          else if cd_module definition_ \<noteq> ac_moduleKey action
          then Some (deny P_4 UNDECLARED_ACTION
                 (ac_key action @ '' belongs to module '' @ module_string (cd_module definition_) @ '', not '' @
                  module_string (ac_moduleKey action)))
          else None)"

definition authorize :: "date_parse \<Rightarrow> PolicyInput \<Rightarrow> Decision" where
  "authorize dateParse input =
     (case step4Precondition input of Some d \<Rightarrow> DenyWith d | None \<Rightarrow>
     (case step0 input of Some d \<Rightarrow> DenyWith d | None \<Rightarrow>
     (case step1 dateParse input of Some d \<Rightarrow> DenyWith d | None \<Rightarrow>
     (case step2 input of Some d \<Rightarrow> DenyWith d | None \<Rightarrow>
     (case step3 dateParse input of Inl d \<Rightarrow> DenyWith d | Inr selected \<Rightarrow>
     (case step4 dateParse input selected of Inl d \<Rightarrow> DenyWith d | Inr via \<Rightarrow>
     (case step5 dateParse input selected of Some d \<Rightarrow> DenyWith d | None \<Rightarrow>
     (case step6 dateParse input of Some d \<Rightarrow> DenyWith d | None \<Rightarrow> AllowVia via))))))))"

definition authorizeWithoutObjectPolicy :: "date_parse \<Rightarrow> PolicyInput \<Rightarrow> Decision" where
  "authorizeWithoutObjectPolicy dateParse input =
     authorize dateParse
       (input\<lparr>pi_action := (pi_action input)\<lparr>ac_requiresObjectPolicy := False\<rparr>, pi_target := None\<rparr>)"

end
