(* ===== verification/AuthorizeFacts.thy ===== *)
theory AuthorizeFacts
  imports Authorize
begin

text \<open>
  What the evaluator answers: each row of the truth table as a predicate on the snapshot, one lemma per layer that
  says when the layer lets a snapshot through, and the properties of the whole evaluation.
\<close>

section \<open>The rows of the truth table\<close>

text \<open>\<open>now \<in> [from, till)\<close>, on instants that can all be read.\<close>
definition in_force :: "date_parse \<Rightarrow> string \<Rightarrow> string \<Rightarrow> string option \<Rightarrow> bool" where
  "in_force dp now from till \<longleftrightarrow>
     (\<exists>t s. dp now = Some t \<and> dp from = Some s \<and> s \<le> t \<and>
        (case till of None \<Rightarrow> True | Some e \<Rightarrow> \<exists>u. dp e = Some u \<and> t < u))"

definition entitled :: "date_parse \<Rightarrow> string \<Rightarrow> EntitlementInput option \<Rightarrow> bool" where
  "entitled dp now entitlement \<longleftrightarrow>
     (\<exists>e. entitlement = Some e \<and> en_state e \<in> {EntTrial, EntActive} \<and>
        in_force dp now (en_effectiveFrom e) (en_effectiveTo e))"

text \<open>The membership, role and role capabilities of the action's scope.\<close>
fun scoped :: "PolicyInput \<Rightarrow> MembershipInput option \<times> RoleInput option \<times> string list" where
  "scoped i = (if ac_scope (pi_action i) = OrganizationScope
     then (pi_organizationMembership i, pi_organizationRole i, pi_organizationRoleCapabilities i)
     else (pi_membership i, pi_role i, pi_roleCapabilities i))"

definition acting_membership :: "PolicyInput \<Rightarrow> MembershipInput option" where
  "acting_membership i = fst (scoped i)"

definition acting_role :: "PolicyInput \<Rightarrow> RoleInput option" where
  "acting_role i = fst (snd (scoped i))"

definition role_capabilities :: "PolicyInput \<Rightarrow> string list" where
  "role_capabilities i = (if acting_role i = None then [] else snd (snd (scoped i)))"

text \<open>A deny counts while its window cannot be read, an allow does not.\<close>
definition denied :: "date_parse \<Rightarrow> PolicyInput \<Rightarrow> string \<Rightarrow> bool" where
  "denied dp i key \<longleftrightarrow> (\<exists>g \<in> set (pi_grants i). gi_capabilityKey g = key \<and> \<not> gi_granted g \<and>
     (dp (gi_validFrom g) = None \<or> (\<exists>e. gi_validTo g = Some e \<and> dp e = None) \<or>
      in_force dp (pi_now i) (gi_validFrom g) (gi_validTo g)))"

definition granted :: "date_parse \<Rightarrow> PolicyInput \<Rightarrow> string \<Rightarrow> bool" where
  "granted dp i key \<longleftrightarrow> (\<exists>g \<in> set (pi_grants i). gi_capabilityKey g = key \<and> gi_granted g \<and>
     in_force dp (pi_now i) (gi_validFrom g) (gi_validTo g))"

definition holds :: "date_parse \<Rightarrow> PolicyInput \<Rightarrow> string \<Rightarrow> bool" where
  "holds dp i key \<longleftrightarrow> \<not> denied dp i key \<and> (granted dp i key \<or> key \<in> set (role_capabilities i))"

definition object_permitted :: "date_parse \<Rightarrow> PolicyInput \<Rightarrow> TargetInput \<Rightarrow> bool" where
  "object_permitted dp i target \<longleftrightarrow>
     tg_organizationId target = ec_expectedOrganizationId (pi_context i) \<and>
     (ac_scope (pi_action i) = GroupScope \<longrightarrow> tg_groupId target = ec_expectedGroupId (pi_context i)) \<and>
     (ac_ownershipRequired (pi_action i) = Some True \<longrightarrow>
        tg_ownerMembershipId target = Some (ec_membershipId (pi_context i)) \<or>
        (\<exists>override. ac_ownershipOverrideCapability (pi_action i) = Some override \<and> holds dp i override)) \<and>
     (\<forall>permitted. ac_permittedTargetStates (pi_action i) = Some permitted \<longrightarrow>
        (\<exists>st. tg_state target = Some st \<and> st \<in> set permitted))"

fun policy_row :: "date_parse \<Rightarrow> PolicyInput \<Rightarrow> PolicyStep \<Rightarrow> bool" where
  "policy_row dp i P_4 \<longleftrightarrow>
     (\<exists>d \<in> set CAPABILITIES. cd_key d = ac_key (pi_action i) \<and> cd_scope d = ac_scope (pi_action i) \<and>
        cd_module d = ac_moduleKey (pi_action i))"
| "policy_row dp i L0_1 \<longleftrightarrow>
     (\<exists>t. pi_organization i = Some t \<and> tn_id t = ec_expectedOrganizationId (pi_context i) \<and> tn_status t = StatusActive)"
| "policy_row dp i L0_2 \<longleftrightarrow> (ac_scope (pi_action i) = GroupScope \<longrightarrow>
     (\<exists>g. pi_group i = Some g \<and> Some (tn_id g) = ec_expectedGroupId (pi_context i) \<and> tn_status g = StatusActive))"
| "policy_row dp i L1_1 \<longleftrightarrow>
     (\<exists>e. pi_entitlement i = Some e \<and> en_moduleKey e = ac_moduleKey (pi_action i))"
| "policy_row dp i L1_2 \<longleftrightarrow> (\<forall>e. pi_entitlement i = Some e \<longrightarrow> en_state e \<in> {EntTrial, EntActive})"
| "policy_row dp i L1_3 \<longleftrightarrow> (\<forall>e. pi_entitlement i = Some e \<longrightarrow>
     in_force dp (pi_now i) (en_effectiveFrom e) (en_effectiveTo e))"
| "policy_row dp i L1_4 \<longleftrightarrow>
     (\<forall>m. (ac_moduleKey (pi_action i), m) \<in> depends\<^sup>* \<and> m \<noteq> ac_moduleKey (pi_action i) \<longrightarrow>
        m \<in> fst ` set (pi_moduleDependencies i)) \<and>
     (\<forall>m e. (m, e) \<in> set (pi_moduleDependencies i) \<longrightarrow> entitled dp (pi_now i) e) \<and>
     (\<forall>m e. (m, Some e) \<in> set (pi_moduleDependencies i) \<longrightarrow> en_moduleKey e = m)"
| "policy_row dp i L2_1 \<longleftrightarrow> (ac_scope (pi_action i) = GroupScope \<longrightarrow>
     (\<exists>a. pi_availability i = Some a \<and> av_moduleKey a = ac_moduleKey (pi_action i) \<and> av_available a))"
| "policy_row dp i L3_1 \<longleftrightarrow>
     (\<exists>m. acting_membership i = Some m \<and> mi_id m = ec_membershipId (pi_context i) \<and>
        (case acting_role i of None \<Rightarrow> ac_scope (pi_action i) = GroupScope | Some r \<Rightarrow> mi_roleId m = Some (ri_id r)))"
| "policy_row dp i L3_2 \<longleftrightarrow> (\<forall>m. acting_membership i = Some m \<longrightarrow> mi_status m = MemActive)"
| "policy_row dp i L3_3 \<longleftrightarrow> (\<forall>m. acting_membership i = Some m \<longrightarrow>
     in_force dp (pi_now i) (mi_validFrom m) (mi_validTo m))"
| "policy_row dp i L4_1 \<longleftrightarrow> \<not> denied dp i (ac_key (pi_action i))"
| "policy_row dp i L4_2 \<longleftrightarrow>
     granted dp i (ac_key (pi_action i)) \<or> ac_key (pi_action i) \<in> set (role_capabilities i)"
| "policy_row dp i L5_1 \<longleftrightarrow> (ac_requiresObjectPolicy (pi_action i) \<longrightarrow>
     (\<exists>target. pi_target i = Some target \<and> object_permitted dp i target))"
| "policy_row dp i L6_1 \<longleftrightarrow> (\<forall>p. pi_proxy i = Some p \<longrightarrow>
     px_status p = ProxyActive \<and> in_force dp (pi_now i) (px_validFrom p) (px_validTo p) \<and>
     px_scope p = ActOnBehalf \<and> px_grantorPassed p)"
| "policy_row dp i L6_2 \<longleftrightarrow> (\<forall>p. pi_impersonation i = Some p \<longrightarrow>
     in_force dp (pi_now i) ''1970-01-01T00:00:00.000Z'' (Some (im_expiresAt p)) \<and>
     \<not> im_targetIsCredentialSurface p \<and> im_operatorHoldsCapability p)"

text \<open>The layer a row belongs to: the precondition first, then L0 to L6.\<close>
fun layer :: "PolicyStep \<Rightarrow> nat" where
  "layer P_4 = 0"
| "layer L0_1 = 1" | "layer L0_2 = 1"
| "layer L1_1 = 2" | "layer L1_2 = 2" | "layer L1_3 = 2" | "layer L1_4 = 2"
| "layer L2_1 = 3"
| "layer L3_1 = 4" | "layer L3_2 = 4" | "layer L3_3 = 4"
| "layer L4_1 = 5" | "layer L4_2 = 5"
| "layer L5_1 = 6"
| "layer L6_1 = 7" | "layer L6_2 = 7"

section \<open>Windows and grants\<close>

lemma withinWindow_iff: "withinWindow dp now from till \<longleftrightarrow> in_force dp now from till"
  by (auto simp: withinWindow_def in_force_def split: option.splits)

lemma windowIsComparable_iff:
  "windowIsComparable dp g \<longleftrightarrow> \<not> (dp (gi_validFrom g) = None \<or> (\<exists>e. gi_validTo g = Some e \<and> dp e = None))"
  by (auto simp: windowIsComparable_def split: option.splits)

lemma in_force_comparable:
  "in_force dp now (gi_validFrom g) (gi_validTo g) \<Longrightarrow> windowIsComparable dp g"
  by (auto simp: windowIsComparable_def in_force_def split: option.splits)

lemma hasExplicitDeny_iff: "hasExplicitDeny dp (pi_grants i) key (pi_now i) \<longleftrightarrow> denied dp i key"
  unfolding hasExplicitDeny_def denied_def windowIsComparable_iff withinWindow_iff list_ex_iff by auto

lemma inWindowGrants_iff:
  "list_ex gi_granted (inWindowGrants dp (pi_grants i) key (pi_now i)) \<longleftrightarrow> granted dp i key"
  unfolding inWindowGrants_def granted_def withinWindow_iff list_ex_iff using in_force_comparable by fastforce

lemma entitlementFailure_None: "entitlementFailure dp e now = None \<longleftrightarrow> entitled dp now e"
  by (auto simp: entitlementFailure_def entitled_def withinWindow_iff ENTITLED_STATES_def split: option.splits)

lemma holdsCapability_iff:
  "sel_capabilities sel = role_capabilities i \<Longrightarrow> holdsCapability dp i sel key \<longleftrightarrow> holds dp i key"
  by (simp add: holdsCapability_def holds_def hasExplicitDeny_iff inWindowGrants_iff)

section \<open>One lemma per layer\<close>

text \<open>A layer either passes, and all its rows hold, or denies at a row of its own that fails.\<close>
definition layer_answer :: "date_parse \<Rightarrow> PolicyInput \<Rightarrow> nat \<Rightarrow> Denial option \<Rightarrow> bool" where
  "layer_answer dp i n answer \<longleftrightarrow>
     (case answer of
        None \<Rightarrow> \<forall>s. layer s = n \<longrightarrow> policy_row dp i s
      | Some d \<Rightarrow> layer (dn_step d) = n \<and> \<not> policy_row dp i (dn_step d))"

lemma all_PolicyStep:
  "(\<forall>s. P s) \<longleftrightarrow> P P_4 \<and> P L0_1 \<and> P L0_2 \<and> P L1_1 \<and> P L1_2 \<and> P L1_3 \<and> P L1_4 \<and> P L2_1 \<and> P L3_1 \<and> P L3_2 \<and>
     P L3_3 \<and> P L4_1 \<and> P L4_2 \<and> P L5_1 \<and> P L6_1 \<and> P L6_2"
proof
  assume "P P_4 \<and> P L0_1 \<and> P L0_2 \<and> P L1_1 \<and> P L1_2 \<and> P L1_3 \<and> P L1_4 \<and> P L2_1 \<and> P L3_1 \<and> P L3_2 \<and>
     P L3_3 \<and> P L4_1 \<and> P L4_2 \<and> P L5_1 \<and> P L6_1 \<and> P L6_2"
  then show "\<forall>s. P s" by (intro allI) (case_tac s; simp)
qed blast

lemmas answer_simps = layer_answer_def all_PolicyStep

lemma P_4_iff:
  "policy_row dp i P_4 \<longleftrightarrow>
     (\<exists>d. capabilityDefinition (ac_key (pi_action i)) = Some d \<and> cd_scope d = ac_scope (pi_action i) \<and>
        cd_module d = ac_moduleKey (pi_action i))"
  unfolding capabilityDefinition_iff by auto

lemma precondition_answer: "layer_answer dp i 0 (step4Precondition i)"
  by (auto simp: answer_simps step4Precondition_def P_4_iff Let_def simp del: policy_row.simps split: option.splits)

lemma step0_answer: "layer_answer dp i 1 (step0 i)"
  by (auto simp: answer_simps step0_def split: option.splits)

lemma dependency_mismatch_None:
  "dependency_mismatch ds = None \<longleftrightarrow> (\<forall>m e. (m, Some e) \<in> set ds \<longrightarrow> en_moduleKey e = m)"
  by (induction ds rule: dependency_mismatch.induct) (auto split: option.splits)

lemma dependency_mismatch_Some: "dependency_mismatch ds = Some d \<Longrightarrow> dn_step d = L1_4"
  by (induction ds rule: dependency_mismatch.induct) (auto split: option.splits if_splits)

lemma dependency_failure_None:
  "dependency_failure dp now ds = None \<longleftrightarrow> (\<forall>m e. (m, e) \<in> set ds \<longrightarrow> entitled dp now e)"
  by (induction ds) (auto simp: entitlementFailure_None[symmetric] split: option.splits)

lemma dependency_failure_Some: "dependency_failure dp now ds = Some d \<Longrightarrow> dn_step d = L1_4"
  by (induction ds) (auto split: option.splits)

lemma missing_dependencies_Nil:
  "missing_dependencies i = [] \<longleftrightarrow>
     (\<forall>m. (ac_moduleKey (pi_action i), m) \<in> depends\<^sup>* \<and> m \<noteq> ac_moduleKey (pi_action i) \<longrightarrow>
        m \<in> fst ` set (pi_moduleDependencies i))"
  by (auto simp: missing_dependencies_def Let_def filter_empty_conv moduleClosure_set)

lemma step1_entitled_answer:
  assumes "policy_row dp i L1_1 \<or> pi_entitlement i = None"
    and "\<forall>m e. (m, Some e) \<in> set (pi_moduleDependencies i) \<longrightarrow> en_moduleKey e = m"
  shows "layer_answer dp i 2 (step1_entitled dp i)"
proof (cases "pi_entitlement i")
  case None
  then show ?thesis by (simp add: answer_simps step1_entitled_def entitlementFailure_def)
next
  case e: (Some e)
  show ?thesis
  proof (cases "entitled dp (pi_now i) (Some e)")
    case False
    then show ?thesis
      by (auto simp: answer_simps step1_entitled_def e entitlementFailure_def entitled_def withinWindow_iff ENTITLED_STATES_def)
  next
    case True
    then have own: "entitlementFailure dp (pi_entitlement i) (pi_now i) = None"
      "policy_row dp i L1_1" "policy_row dp i L1_2" "policy_row dp i L1_3"
      using assms(1) by (simp_all add: e entitlementFailure_None) (auto simp: entitled_def)
    have eq: "step1_entitled dp i = (if missing_dependencies i \<noteq> []
        then Some (deny L1_4 MODULE_DEPENDENCY_UNSATISFIED (''the snapshot omits the transitive dependencies '' @
          join '', '' (map module_string (missing_dependencies i))))
        else dependency_failure dp (pi_now i) (pi_moduleDependencies i))"
      by (simp add: step1_entitled_def own(1))
    have row: "policy_row dp i L1_4 \<longleftrightarrow> missing_dependencies i = [] \<and>
        dependency_failure dp (pi_now i) (pi_moduleDependencies i) = None"
      using assms(2) by (simp add: missing_dependencies_Nil dependency_failure_None)
    show ?thesis using row own(2-4)
      by (auto simp: answer_simps eq simp del: policy_row.simps split: option.splits dest: dependency_failure_Some)
  qed
qed

lemma step1_answer: "layer_answer dp i 2 (step1 dp i)"
proof (cases "\<exists>e. pi_entitlement i = Some e \<and> en_moduleKey e \<noteq> ac_moduleKey (pi_action i)")
  case True
  then show ?thesis by (auto simp: answer_simps step1_def)
next
  case own: False
  then have eq: "step1 dp i = (case dependency_mismatch (pi_moduleDependencies i) of
      Some d \<Rightarrow> Some d | None \<Rightarrow> step1_entitled dp i)"
    by (auto simp: step1_def Let_def split: option.splits)
  show ?thesis
  proof (cases "dependency_mismatch (pi_moduleDependencies i)")
    case None
    then have "\<forall>m e. (m, Some e) \<in> set (pi_moduleDependencies i) \<longrightarrow> en_moduleKey e = m"
      by (simp only: dependency_mismatch_None)
    moreover have "policy_row dp i L1_1 \<or> pi_entitlement i = None" using own by auto
    ultimately show ?thesis by (simp add: eq None step1_entitled_answer del: policy_row.simps)
  next
    case (Some d)
    then have "\<not> (\<forall>m e. (m, Some e) \<in> set (pi_moduleDependencies i) \<longrightarrow> en_moduleKey e = m)"
      by (simp only: dependency_mismatch_None[symmetric]) simp
    then have "\<not> policy_row dp i L1_4" by simp
    then show ?thesis using dependency_mismatch_Some[OF Some] by (simp add: layer_answer_def eq Some del: policy_row.simps)
  qed
qed

lemma step2_answer: "layer_answer dp i 3 (step2 i)"
  by (auto simp: answer_simps step2_def split: option.splits)

text \<open>L3 answers with the membership of the scope and the capabilities of its role.\<close>
lemma step3_answer:
  "(case step3 dp i of
      Inl d \<Rightarrow> layer_answer dp i 4 (Some d)
    | Inr sel \<Rightarrow> layer_answer dp i 4 None \<and> acting_membership i = Some (sel_membership sel) \<and>
        sel_capabilities sel = role_capabilities i)"
proof (cases "ac_scope (pi_action i)")
  case GroupScope
  then show ?thesis
    by (auto simp: answer_simps step3_def step3_role_def Let_def acting_membership_def acting_role_def role_capabilities_def
        withinWindow_iff split: option.splits)
next
  case OrganizationScope
  then show ?thesis
    by (auto simp: answer_simps step3_def step3_role_def Let_def acting_membership_def acting_role_def role_capabilities_def
        withinWindow_iff split: option.splits)
qed

lemma step4_answer:
  assumes "sel_capabilities sel = role_capabilities i"
  shows "(case step4 dp i sel of
      Inl d \<Rightarrow> layer_answer dp i 5 (Some d)
    | Inr via \<Rightarrow> layer_answer dp i 5 None \<and> (via = ViaGrant \<longleftrightarrow> granted dp i (ac_key (pi_action i))))"
  using assms by (simp add: answer_simps step4_def Let_def hasExplicitDeny_iff inWindowGrants_iff)

lemma step5_answer:
  assumes "sel_capabilities sel = role_capabilities i"
  shows "layer_answer dp i 6 (step5 dp i sel)"
proof -
  have eq: "owned_elsewhere dp i sel target \<longleftrightarrow> \<not> (ac_ownershipRequired (pi_action i) = Some True \<longrightarrow>
        tg_ownerMembershipId target = Some (ec_membershipId (pi_context i)) \<or>
        (\<exists>override. ac_ownershipOverrideCapability (pi_action i) = Some override \<and> holds dp i override))" for target
    by (auto simp: owned_elsewhere_def holdsCapability_iff[OF assms] split: option.splits)
  show ?thesis
    by (auto simp: answer_simps step5_def object_permitted_def eq split: option.splits)
qed

lemma step6_answer: "layer_answer dp i 7 (step6 dp i)"
  by (auto simp: answer_simps step6_def step6_proxy_def step6_impersonation_def withinWindow_iff split: option.splits)

section \<open>The evaluator\<close>

text \<open>The answers of the layers in turn: the first denial ends the evaluation.\<close>
lemma layer_answer_None: "layer_answer dp i n None \<Longrightarrow> layer s = n \<Longrightarrow> policy_row dp i s"
  by (simp add: layer_answer_def)

lemma layer_answer_Some:
  "layer_answer dp i n (Some d) \<Longrightarrow> layer (dn_step d) = n \<and> \<not> policy_row dp i (dn_step d)"
  by (simp add: layer_answer_def)

definition passed_below :: "date_parse \<Rightarrow> PolicyInput \<Rightarrow> nat \<Rightarrow> bool" where
  "passed_below dp i n \<longleftrightarrow> (\<forall>s. layer s < n \<longrightarrow> policy_row dp i s)"

lemma passed_below_0 [simp]: "passed_below dp i 0"
  by (simp add: passed_below_def)

lemma passed_below_Suc: "passed_below dp i n \<Longrightarrow> layer_answer dp i n None \<Longrightarrow> passed_below dp i (Suc n)"
  by (auto simp: passed_below_def layer_answer_def less_Suc_eq)

lemma layer_bound: "layer s < 8"
  by (cases s) simp_all

lemma passed_below_all: "passed_below dp i 8 \<longleftrightarrow> (\<forall>s. policy_row dp i s)"
  by (simp add: passed_below_def layer_bound)

definition decision_sound :: "date_parse \<Rightarrow> PolicyInput \<Rightarrow> Decision \<Rightarrow> bool" where
  "decision_sound dp i decision \<longleftrightarrow>
     (case decision of
        AllowVia via \<Rightarrow> (\<forall>s. policy_row dp i s) \<and> (via = ViaGrant \<longleftrightarrow> granted dp i (ac_key (pi_action i)))
      | DenyWith d \<Rightarrow> \<not> policy_row dp i (dn_step d) \<and> passed_below dp i (layer (dn_step d)))"

lemma decision_sound_deny:
  "passed_below dp i n \<Longrightarrow> layer_answer dp i n (Some d) \<Longrightarrow> decision_sound dp i (DenyWith d)"
  using layer_answer_Some[of dp i n d] by (simp add: decision_sound_def)

text \<open>One layer of the chain, for the layers that only pass or deny.\<close>
lemma decision_layer:
  assumes "layer_answer dp i n answer" "passed_below dp i n" "m = Suc n"
    and "passed_below dp i m \<Longrightarrow> decision_sound dp i rest"
  shows "decision_sound dp i (case answer of Some d \<Rightarrow> DenyWith d | None \<Rightarrow> rest)"
  using assms passed_below_Suc[of dp i n] decision_sound_deny[of dp i n] by (cases answer) auto

lemma authorize_sound: "decision_sound dp i (authorize dp i)"
proof -
  have after_l4: "decision_sound dp i
      (case step5 dp i sel of Some d \<Rightarrow> DenyWith d | None \<Rightarrow>
       (case step6 dp i of Some d \<Rightarrow> DenyWith d | None \<Rightarrow> AllowVia via))"
    if sel: "sel_capabilities sel = role_capabilities i" and p: "passed_below dp i 6"
      and via: "via = ViaGrant \<longleftrightarrow> granted dp i (ac_key (pi_action i))" for sel via
  proof (rule decision_layer[where m = 7, OF step5_answer[OF sel] p], simp)
    assume p: "passed_below dp i 7"
    show "decision_sound dp i (case step6 dp i of Some d \<Rightarrow> DenyWith d | None \<Rightarrow> AllowVia via)"
      by (rule decision_layer[where m = 8, OF step6_answer p]) (simp_all add: decision_sound_def passed_below_all via)
  qed
  have after_l2: "decision_sound dp i
      (case step3 dp i of Inl d \<Rightarrow> DenyWith d | Inr selected \<Rightarrow>
       (case step4 dp i selected of Inl d \<Rightarrow> DenyWith d | Inr via \<Rightarrow>
       (case step5 dp i selected of Some d \<Rightarrow> DenyWith d | None \<Rightarrow>
       (case step6 dp i of Some d \<Rightarrow> DenyWith d | None \<Rightarrow> AllowVia via))))"
    if p: "passed_below dp i 4"
  proof (cases "step3 dp i")
    case (Inl d)
    then show ?thesis using step3_answer[of dp i] decision_sound_deny[OF p] by simp
  next
    case (Inr sel)
    then have 3: "layer_answer dp i 4 None" "sel_capabilities sel = role_capabilities i"
      using step3_answer[of dp i] by simp_all
    have p5: "passed_below dp i 5" using passed_below_Suc[OF p 3(1)] by simp
    show ?thesis
    proof (cases "step4 dp i sel")
      case (Inl d)
      then show ?thesis using Inr step4_answer[OF 3(2), of dp] decision_sound_deny[OF p5] by simp
    next
      case via: (Inr via)
      then have 4: "layer_answer dp i 5 None" "via = ViaGrant \<longleftrightarrow> granted dp i (ac_key (pi_action i))"
        using step4_answer[OF 3(2), of dp] by simp_all
      have "passed_below dp i 6" using passed_below_Suc[OF p5 4(1)] by simp
      then show ?thesis using after_l4[OF 3(2) _ 4(2)] Inr via by simp
    qed
  qed
  show ?thesis unfolding authorize_def
    by (rule decision_layer[where m = 1, OF precondition_answer passed_below_0], simp,
        rule decision_layer[where m = 2, OF step0_answer _], assumption, simp,
        rule decision_layer[where m = 3, OF step1_answer _], assumption, simp,
        rule decision_layer[where m = 4, OF step2_answer _], assumption, simp, rule after_l2)
qed

lemma authorize_Allow: "authorize dp i = AllowVia via \<Longrightarrow> policy_row dp i s"
  using authorize_sound[of dp i] by (simp add: decision_sound_def)

lemma authorize_Deny:
  "authorize dp i = DenyWith d \<Longrightarrow> \<not> policy_row dp i (dn_step d) \<and> passed_below dp i (layer (dn_step d))"
  using authorize_sound[of dp i] by (simp add: decision_sound_def)

lemma is_allowed_iff: "is_allowed (authorize dp i) \<longleftrightarrow> (\<forall>s. policy_row dp i s)"
  using authorize_Allow[of dp i] authorize_Deny[of dp i] by (cases "authorize dp i") auto

lemma passedCapabilityLayer_iff: "passedCapabilityLayer (authorize dp i) \<longleftrightarrow> passed_below dp i 6"
proof (cases "authorize dp i")
  case (AllowVia via)
  then show ?thesis using authorize_Allow[OF AllowVia] by (simp add: passed_below_def)
next
  case (DenyWith d)
  note d = authorize_Deny[OF DenyWith]
  have "passedCapabilityLayer (DenyWith d) \<longleftrightarrow> 6 \<le> layer (dn_step d)" by (cases "dn_step d") simp_all
  moreover have "6 \<le> layer (dn_step d) \<longleftrightarrow> passed_below dp i 6"
    using d unfolding passed_below_def by (meson not_le less_le_trans)
  ultimately show ?thesis using DenyWith by simp
qed

text \<open>The rows below L5 read neither the target nor whether the action has an object policy.\<close>
lemma without_object_policy_rows:
  "layer s < 6 \<Longrightarrow>
     policy_row dp (i\<lparr>pi_action := (pi_action i)\<lparr>ac_requiresObjectPolicy := False\<rparr>, pi_target := None\<rparr>) s \<longleftrightarrow> policy_row dp i s"
  by (cases s) (simp_all add: acting_membership_def acting_role_def role_capabilities_def denied_def granted_def
      cong: option.case_cong)

lemma without_object_policy_passed:
  "passedCapabilityLayer (authorizeWithoutObjectPolicy dp i) \<longleftrightarrow> passedCapabilityLayer (authorize dp i)"
  unfolding authorizeWithoutObjectPolicy_def passedCapabilityLayer_iff passed_below_def
  using without_object_policy_rows by blast

section \<open>Grants\<close>

text \<open>Every layer but L4 and the ownership override of L5 ignores the grants.\<close>
lemma grants_ignored [simp]:
  "step4Precondition (i\<lparr>pi_grants := gs\<rparr>) = step4Precondition i"
  "step0 (i\<lparr>pi_grants := gs\<rparr>) = step0 i"
  "step1 dp (i\<lparr>pi_grants := gs\<rparr>) = step1 dp i"
  "step2 (i\<lparr>pi_grants := gs\<rparr>) = step2 i"
  "step3 dp (i\<lparr>pi_grants := gs\<rparr>) = step3 dp i"
  by (simp_all add: step4Precondition_def step0_def step1_def step1_entitled_def missing_dependencies_def step2_def
      step3_def cong: option.case_cong if_cong)

lemma deny_grant_denies:
  assumes "g \<in> set (pi_grants i)" "\<not> gi_granted g"
    and "\<not> windowIsComparable dp g \<or> withinWindow dp (pi_now i) (gi_validFrom g) (gi_validTo g)"
  shows "denied dp i (gi_capabilityKey g)"
  using assms unfolding denied_def windowIsComparable_iff withinWindow_iff by blast

section \<open>Reasons\<close>

definition well_reasoned :: "Denial \<Rightarrow> bool" where
  "well_reasoned d \<longleftrightarrow>
     (denialDisclosure (dn_reason d) = DiscloseForbidden \<longleftrightarrow> dn_step d \<in> {L4_1, L4_2, L6_1, L6_2}) \<and>
     dn_reason d \<noteq> PROXY_MEMBERSHIP"

lemma dependency_mismatch_denial: "dependency_mismatch ds = Some d \<Longrightarrow> well_reasoned d"
  by (induction ds rule: dependency_mismatch.induct) (auto simp: well_reasoned_def split: option.splits if_splits)

lemma dependency_failure_denial: "dependency_failure dp now ds = Some d \<Longrightarrow> well_reasoned d"
  by (induction ds) (auto simp: well_reasoned_def split: option.splits)

lemmas dependency_denials = dependency_mismatch_denial dependency_failure_denial

lemma layer_denials:
  "step4Precondition i = Some d \<Longrightarrow> well_reasoned d"
  "step0 i = Some d \<Longrightarrow> well_reasoned d"
  "step1 dp i = Some d \<Longrightarrow> well_reasoned d"
  "step2 i = Some d \<Longrightarrow> well_reasoned d"
  "step3 dp i = Inl d \<Longrightarrow> well_reasoned d"
  "step4 dp i sel = Inl d \<Longrightarrow> well_reasoned d"
  "step5 dp i sel = Some d \<Longrightarrow> well_reasoned d"
  "step6 dp i = Some d \<Longrightarrow> well_reasoned d"
proof -
  show "step4Precondition i = Some d \<Longrightarrow> well_reasoned d"
    by (auto simp: step4Precondition_def Let_def well_reasoned_def split: option.splits if_splits)
  show "step0 i = Some d \<Longrightarrow> well_reasoned d"
    by (auto simp: step0_def well_reasoned_def split: option.splits if_splits)
  have "step1_entitled dp i = Some d \<Longrightarrow> well_reasoned d"
    by (auto simp: step1_entitled_def entitlementFailure_def Let_def well_reasoned_def dest: dependency_denials(2)[unfolded well_reasoned_def]
        split: option.splits if_splits)
  then show "step1 dp i = Some d \<Longrightarrow> well_reasoned d"
    by (auto simp: step1_def Let_def intro: dependency_denials split: option.splits if_splits) (auto simp: well_reasoned_def)
  show "step2 i = Some d \<Longrightarrow> well_reasoned d"
    by (auto simp: step2_def well_reasoned_def split: option.splits if_splits)
  show "step3 dp i = Inl d \<Longrightarrow> well_reasoned d"
    by (auto simp: step3_def step3_role_def Let_def well_reasoned_def split: option.splits if_splits)
  show "step4 dp i sel = Inl d \<Longrightarrow> well_reasoned d"
    by (auto simp: step4_def Let_def well_reasoned_def split: if_splits)
  show "step5 dp i sel = Some d \<Longrightarrow> well_reasoned d"
    by (auto simp: step5_def well_reasoned_def split: option.splits if_splits)
  show "step6 dp i = Some d \<Longrightarrow> well_reasoned d"
    by (auto simp: step6_def step6_proxy_def step6_impersonation_def well_reasoned_def split: option.splits if_splits)
qed

lemma authorize_reason: "authorize dp i = DenyWith d \<Longrightarrow> well_reasoned d"
  unfolding authorize_def by (auto split: option.splits sum.splits intro: layer_denials)

section \<open>Properties\<close>

text \<open>The instants of the sample, as \<open>Date.parse\<close> reads them.\<close>
definition sample_dates :: date_parse where
  "sample_dates = map_of
     [(''1970-01-01T00:00:00.000Z'', 0), (''2020-01-01T00:00:00.000Z'', 1577836800000),
      (''2026-08-01T00:00:00.000Z'', 1785542400000), (''2026-08-02T12:00:00.000Z'', 1785672000000),
      (''2026-08-03T00:00:00.000Z'', 1785715200000), (''2030-01-01T00:00:00.000Z'', 1893456000000)]"

text \<open>A scheduler acting on a draft version of their group.\<close>
definition sample_policy :: PolicyInput where
  "sample_policy = \<lparr>
     pi_context = \<lparr>ec_principalUserId = ''u'', ec_expectedOrganizationId = ''o'', ec_expectedGroupId = Some ''g'',
       ec_membershipId = ''m''\<rparr>,
     pi_organization = Some \<lparr>tn_id = ''o'', tn_status = StatusActive\<rparr>,
     pi_group = Some \<lparr>tn_id = ''g'', tn_status = StatusActive\<rparr>,
     pi_entitlement = Some \<lparr>en_moduleKey = RequestsVacation, en_state = EntTrial,
       en_effectiveFrom = ''2020-01-01T00:00:00.000Z'', en_effectiveTo = Some ''2030-01-01T00:00:00.000Z''\<rparr>,
     pi_moduleDependencies = [(CoreScheduling, Some \<lparr>en_moduleKey = CoreScheduling, en_state = EntActive,
       en_effectiveFrom = ''2020-01-01T00:00:00.000Z'', en_effectiveTo = None\<rparr>)],
     pi_availability = Some \<lparr>av_moduleKey = RequestsVacation, av_available = True\<rparr>,
     pi_membership = Some \<lparr>mi_id = ''m'', mi_status = MemActive, mi_roleId = Some ''scheduler'',
       mi_validFrom = ''2020-01-01T00:00:00.000Z'', mi_validTo = None\<rparr>,
     pi_role = Some \<lparr>ri_id = ''scheduler'', ri_isSystemRole = True\<rparr>,
     pi_roleCapabilities = [''requests.approve''],
     pi_organizationMembership = None, pi_organizationRole = None, pi_organizationRoleCapabilities = [],
     pi_grants = [], pi_proxy = None, pi_impersonation = None,
     pi_target = Some \<lparr>tg_organizationId = ''o'', tg_groupId = Some ''g'', tg_type = ''request'',
       tg_ownerMembershipId = Some ''m2'', tg_state = Some ''pending''\<rparr>,
     pi_action = \<lparr>ac_key = ''requests.approve'', ac_moduleKey = RequestsVacation, ac_scope = GroupScope,
       ac_requiresObjectPolicy = True, ac_ownershipRequired = Some False, ac_ownershipOverrideCapability = None,
       ac_permittedTargetStates = Some [''pending'']\<rparr>,
     pi_now = ''2026-08-02T12:00:00.000Z''\<rparr>"

text \<open>A deny whose lower bound is no instant the host can read.\<close>
definition sample_deny :: GrantInput where
  "sample_deny = \<lparr>gi_capabilityKey = ''requests.approve'', gi_granted = False, gi_validFrom = ''unparsable-instant'',
     gi_validTo = None\<rparr>"

text \<open>C10: The evaluator is its truth table: it allows exactly the snapshots in which all the sixteen rows of the
  table hold, through a grant exactly when an allow grant for the action is in force and otherwise through the
  role; and a denial names a row that does fail, all the rows of the layers before it holding.\<close>
theorem authorization_is_the_table:
  "case authorize dp i of
     AllowVia via \<Rightarrow> (\<forall>s. policy_row dp i s) \<and> (via = ViaGrant \<longleftrightarrow> granted dp i (ac_key (pi_action i)))
   | DenyWith d \<Rightarrow> \<not> policy_row dp i (dn_step d) \<and> passed_below dp i (layer (dn_step d))"
  using authorize_sound[of dp i] by (simp add: decision_sound_def)

text \<open>C11: An explicit deny is absolute. Put anywhere among the grants of a snapshot that was allowed, a deny for
  the action whose window contains the evaluation instant, or whose window cannot be read, turns the answer into the
  denial at L4.1; and a deny for the ownership override leaves the actor nothing but their own objects.\<close>
theorem explicit_deny_is_absolute:
  assumes "\<not> gi_granted g"
    and "\<not> windowIsComparable dp g \<or> withinWindow dp (pi_now i) (gi_validFrom g) (gi_validTo g)"
    and "is_allowed (authorize dp (i\<lparr>pi_grants := before @ after\<rparr>))"
  shows "(gi_capabilityKey g = ac_key (pi_action i) \<longrightarrow>
      (\<exists>d. authorize dp (i\<lparr>pi_grants := before @ g # after\<rparr>) = DenyWith d \<and> dn_step d = L4_1 \<and>
         dn_reason d = EXPLICIT_DENY)) \<and>
    (ac_requiresObjectPolicy (pi_action i) \<and> ac_ownershipRequired (pi_action i) = Some True \<and>
     ac_ownershipOverrideCapability (pi_action i) = Some (gi_capabilityKey g) \<and>
     is_allowed (authorize dp (i\<lparr>pi_grants := before @ g # after\<rparr>)) \<longrightarrow>
      (\<exists>target. pi_target i = Some target \<and> tg_ownerMembershipId target = Some (ec_membershipId (pi_context i))))"
proof -
  let ?i = "i\<lparr>pi_grants := before @ g # after\<rparr>"
  have denied: "denied dp ?i (gi_capabilityKey g)" using assms(1,2) deny_grant_denies[of g ?i dp] by simp
  have a: "\<exists>d. authorize dp ?i = DenyWith d \<and> dn_step d = L4_1 \<and> dn_reason d = EXPLICIT_DENY"
    if key: "gi_capabilityKey g = ac_key (pi_action i)"
  proof -
    have "hasExplicitDeny dp (before @ g # after) (ac_key (pi_action i)) (pi_now i)"
      using denied key hasExplicitDeny_iff[of dp ?i] by simp
    then have 4: "step4 dp ?i sel = Inl (deny L4_1 EXPLICIT_DENY
        (''an in-force deny grant exists for '' @ ac_key (pi_action i)))" for sel
      by (simp add: step4_def)
    show ?thesis using assms(3) unfolding authorize_def by (auto simp: 4 split: option.splits sum.splits)
  qed
  have "\<exists>target. pi_target i = Some target \<and> tg_ownerMembershipId target = Some (ec_membershipId (pi_context i))"
    if "ac_requiresObjectPolicy (pi_action i)" "ac_ownershipRequired (pi_action i) = Some True"
      "ac_ownershipOverrideCapability (pi_action i) = Some (gi_capabilityKey g)" "is_allowed (authorize dp ?i)"
  proof -
    have "policy_row dp ?i L5_1" using that(4) is_allowed_iff by blast
    then show ?thesis using that(1-3) denied by (auto simp: object_permitted_def holds_def)
  qed
  then show ?thesis using a by blast
qed

theorem explicit_deny_is_absolute_witness:
  "\<exists>d. authorize sample_dates (sample_policy\<lparr>pi_grants := [] @ sample_deny # []\<rparr>) = DenyWith d \<and> dn_step d = L4_1 \<and>
     dn_reason d = EXPLICIT_DENY"
proof -
  have "\<not> gi_granted sample_deny" "\<not> windowIsComparable sample_dates sample_deny"
    "is_allowed (authorize sample_dates (sample_policy\<lparr>pi_grants := [] @ []\<rparr>))"
    "gi_capabilityKey sample_deny = ac_key (pi_action sample_policy)"
    by code_simp+
  then show ?thesis using explicit_deny_is_absolute[of sample_deny sample_dates sample_policy "[]" "[]"] by blast
qed

text \<open>What a denial discloses: the answer is 403 exactly for the rows of L4 and L6, so an actor who is told that
  something is forbidden has passed every row up to L3 (the organization, the group, the module and an active
  membership in force are theirs); every other denial, the object policy's included, answers 404. The reason
  \<open>PROXY_MEMBERSHIP\<close> is never given.\<close>
theorem forbidden_only_to_members:
  assumes "authorize dp i = DenyWith d"
  shows "(denialDisclosure (dn_reason d) = DiscloseForbidden \<longleftrightarrow> dn_step d \<in> {L4_1, L4_2, L6_1, L6_2}) \<and>
    (denialDisclosure (dn_reason d) = DiscloseForbidden \<longrightarrow>
       (\<forall>s \<in> {P_4, L0_1, L0_2, L1_1, L1_2, L1_3, L1_4, L2_1, L3_1, L3_2, L3_3}. policy_row dp i s)) \<and>
    dn_reason d \<noteq> PROXY_MEMBERSHIP"
proof -
  have r: "well_reasoned d" by (rule authorize_reason[OF assms])
  have "policy_row dp i s"
    if "denialDisclosure (dn_reason d) = DiscloseForbidden" "s \<in> {P_4, L0_1, L0_2, L1_1, L1_2, L1_3, L1_4, L2_1, L3_1, L3_2, L3_3}" for s
  proof -
    have "layer s < 5" using that(2) by auto
    moreover have "5 \<le> layer (dn_step d)" using r that(1) by (auto simp: well_reasoned_def)
    ultimately show ?thesis using authorize_Deny[OF assms] by (simp add: passed_below_def)
  qed
  then show ?thesis using r by (simp add: well_reasoned_def del: policy_row.simps)
qed

theorem forbidden_only_to_members_witness:
  "\<exists>d. authorize sample_dates (sample_policy\<lparr>pi_grants := [sample_deny]\<rparr>) = DenyWith d \<and>
     denialDisclosure (dn_reason d) = DiscloseForbidden \<and> dn_step d = L4_1 \<and>
     policy_row sample_dates (sample_policy\<lparr>pi_grants := [sample_deny]\<rparr>) L3_2"
proof -
  let ?i = "sample_policy\<lparr>pi_grants := [sample_deny]\<rparr>"
  have e: "authorize sample_dates ?i = DenyWith (deny L4_1 EXPLICIT_DENY ''an in-force deny grant exists for requests.approve'')"
    by code_simp
  show ?thesis using e forbidden_only_to_members[OF e] by simp
qed

end
