(* ===== verification/AuthzOracle.thy ===== *)
theory AuthzOracle
  imports AuthorizeFacts
begin

text \<open>
  \<open>packages/domain/src/authz/cross-product.ts\<close>: the independent reading of the truth table the test battery
  compares the evaluator with. A slot that may be \<open>absent\<close> is an option; a role is the string of its key.
\<close>

section \<open>Cases\<close>

datatype WindowSlot = WindowBefore | WindowWithin | WindowAfter
datatype MembershipWindowSlot = MembershipWithin | MembershipWindowExpired
datatype GrantSlot = GrantAllow | GrantDeny | GrantAbsent
datatype OwnershipSlot = OwnedByActor | OwnedByOther | OwnershipAbsent
datatype ProxySlot = NoProxy | ValidProxy | ExpiredProxy | NotificationsOnlyProxy | GrantorDeniedProxy
datatype ImpersonationSlot = NoImpersonation | ActiveImpersonation | ExpiredImpersonation
  | CredentialSurface | IntersectionDenied

record CrossProductCase =
  cp_capabilityKey :: string
  cp_scope :: CapabilityScope
  cp_orgStatus :: ActiveStatus
  cp_groupStatus :: ActiveStatus
  cp_entitlement :: "EntitlementState option"
  cp_window :: WindowSlot
  cp_dependencySatisfied :: bool
  cp_available :: bool
  cp_membershipStatus :: "MembershipInputStatus option"
  cp_membershipWindow :: MembershipWindowSlot
  cp_role :: "string option"
  cp_organizationMembershipStatus :: "MembershipInputStatus option"
  cp_organizationRole :: "string option"
  cp_grant :: GrantSlot
  cp_ownership :: OwnershipSlot
  cp_proxy :: ProxySlot
  cp_impersonation :: ImpersonationSlot

definition ORG_STATUSES :: "ActiveStatus list" where
  "ORG_STATUSES = [StatusActive, StatusInactive]"

definition ENTITLEMENT_STATES :: "EntitlementState option list" where
  "ENTITLEMENT_STATES = [Some EntTrial, Some EntActive, Some EntSuspended, Some EntRevoked, None]"

definition EFFECTIVE_WINDOWS :: "WindowSlot list" where
  "EFFECTIVE_WINDOWS = [WindowBefore, WindowWithin, WindowAfter]"

definition MEMBERSHIP_STATUSES :: "MembershipInputStatus option list" where
  "MEMBERSHIP_STATUSES = [None, Some MemInvited, Some MemActive, Some MemSuspended, Some MemEnded]"

definition GROUP_ROLE_SLOTS :: "string option list" where
  "GROUP_ROLE_SLOTS =
     [Some ''member'', Some ''viewer'', Some ''telecom'', Some ''scheduler'', Some ''group_admin'', None]"

definition ORGANIZATION_ROLE_SLOTS :: "string option list" where
  "ORGANIZATION_ROLE_SLOTS = [Some ''org_admin'', Some ''org_observer'', None]"

definition GRANT_SLOTS :: "GrantSlot list" where
  "GRANT_SLOTS = [GrantAllow, GrantDeny, GrantAbsent]"

definition OWNERSHIP_SLOTS :: "OwnershipSlot list" where
  "OWNERSHIP_SLOTS = [OwnedByActor, OwnedByOther, OwnershipAbsent]"

definition PROXY_SLOTS :: "ProxySlot list" where
  "PROXY_SLOTS = [NoProxy, ValidProxy, ExpiredProxy, NotificationsOnlyProxy, GrantorDeniedProxy]"

definition IMPERSONATION_SLOTS :: "ImpersonationSlot list" where
  "IMPERSONATION_SLOTS =
     [NoImpersonation, ActiveImpersonation, ExpiredImpersonation, CredentialSurface, IntersectionDenied]"

definition MEMBERSHIP_WINDOWS :: "MembershipWindowSlot list" where
  "MEMBERSHIP_WINDOWS = [MembershipWithin, MembershipWindowExpired]"

section \<open>The system roles\<close>

definition SYSTEM_ROLE_CAPABILITIES :: "(string \<times> string list) list" where
  "SYSTEM_ROLE_CAPABILITIES =
    [(''member'', [''schedule.own_published.read'',
        ''schedule.published.read'',
        ''requests.own.submit'',
        ''requests.own.withdraw'',
        ''requests.own.read'',
        ''requests.own.comment'']),
     (''viewer'', [''schedule.own_published.read'',
        ''schedule.published.read'']),
     (''telecom'', []),
     (''scheduler'', [''membership.touch_self'',
        ''schedule.catalogue.administer'',
        ''group.holiday_calendar.read'',
        ''schedule.period.administer'',
        ''schedule.version.edit'',
        ''schedule.own_published.read'',
        ''schedule.published.read'',
        ''requests.approve'',
        ''requests.deny'',
        ''requests.read_any'',
        ''requests.administer'',
        ''requests.own.submit'',
        ''requests.own.withdraw'',
        ''requests.own.read'',
        ''requests.own.comment'',
        ''requests.comment_any'']),
     (''group_admin'', [''membership.touch_self'',
        ''documents.manage'',
        ''schedule.catalogue.administer'',
        ''schedule.period.administer'',
        ''schedule.version.edit'',
        ''schedule.own_published.read'',
        ''schedule.published.read'',
        ''group.holiday_calendar.read'',
        ''group.holiday_calendar.administer'',
        ''group.pick_positions.administer'',
        ''group.settings.administer'',
        ''group.timezone.administer'',
        ''group.location.administer'']),
     (''org_admin'', [''organization.membership.touch_self'',
        ''organization.membership.administer'',
        ''organization.group.administer'',
        ''organization.role.administer'',
        ''organization.entitlement.administer'',
        ''organization.profile.administer'']),
     (''org_observer'', [])]"

text \<open>\<open>SYSTEM_ROLE_CAPABILITIES[key] ?? []\<close>\<close>
definition system_role_capabilities :: "string \<Rightarrow> string list" where
  "system_role_capabilities key =
     (case map_of SYSTEM_ROLE_CAPABILITIES key of None \<Rightarrow> [] | Some capabilities \<Rightarrow> capabilities)"

definition SYSTEM_GROUP_ROLES :: "string list" where
  "SYSTEM_GROUP_ROLES = [''member'', ''viewer'', ''telecom'', ''scheduler'', ''group_admin'']"

definition SYSTEM_ORGANIZATION_ROLES :: "string list" where
  "SYSTEM_ORGANIZATION_ROLES = [''org_admin'', ''org_observer'']"

section \<open>The snapshot of a case\<close>

definition NOW :: string where "NOW = ''2026-08-02T12:00:00.000Z''"
definition LONG_AGO :: string where "LONG_AGO = ''2020-01-01T00:00:00.000Z''"
definition RECENT_PAST :: string where "RECENT_PAST = ''2026-08-01T00:00:00.000Z''"
definition NEAR_FUTURE :: string where "NEAR_FUTURE = ''2026-08-03T00:00:00.000Z''"
definition FAR_FUTURE :: string where "FAR_FUTURE = ''2030-01-01T00:00:00.000Z''"

definition ORGANIZATION_ID :: string where "ORGANIZATION_ID = ''11111111-1111-4111-8111-111111111111''"
definition GROUP_ID :: string where "GROUP_ID = ''1a1a1a1a-1111-4111-8111-a1a1a1a1a1a1''"
definition MEMBERSHIP_ID :: string where "MEMBERSHIP_ID = ''ac000001-1111-4111-8111-000000000001''"
definition OTHER_MEMBERSHIP_ID :: string where "OTHER_MEMBERSHIP_ID = ''ac000002-1111-4111-8111-000000000002''"
definition PRINCIPAL_ID :: string where "PRINCIPAL_ID = ''a0000001-1111-4111-8111-000000000001''"
definition OPERATOR_ID :: string where "OPERATOR_ID = ''00000000-0000-4000-8000-00000000000f''"

fun windowFor :: "WindowSlot \<Rightarrow> string \<times> string option" where
  "windowFor WindowBefore = (NEAR_FUTURE, Some FAR_FUTURE)"
| "windowFor WindowWithin = (RECENT_PAST, Some FAR_FUTURE)"
| "windowFor WindowAfter = (LONG_AGO, Some RECENT_PAST)"

definition entitlementFor :: "EntitlementState option \<Rightarrow> WindowSlot \<Rightarrow> ModuleKey \<Rightarrow> EntitlementInput option" where
  "entitlementFor slot w moduleKey =
     (case slot of
        None \<Rightarrow> None
      | Some state \<Rightarrow> Some \<lparr>en_moduleKey = moduleKey, en_state = state, en_effectiveFrom = fst (windowFor w),
                              en_effectiveTo = snd (windowFor w)\<rparr>)"

definition proxy_for :: "ProxySlot \<Rightarrow> ProxyInput option" where
  "proxy_for slot =
     (let valid = \<lparr>px_grantorMembershipId = OTHER_MEMBERSHIP_ID, px_scope = ActOnBehalf, px_status = ProxyActive,
                   px_validFrom = fst (windowFor WindowWithin), px_validTo = snd (windowFor WindowWithin),
                   px_grantorPassed = True\<rparr>
      in case slot of
           NoProxy \<Rightarrow> None
         | ValidProxy \<Rightarrow> Some valid
         | ExpiredProxy \<Rightarrow> Some (valid\<lparr>px_validFrom := LONG_AGO, px_validTo := Some RECENT_PAST\<rparr>)
         | NotificationsOnlyProxy \<Rightarrow> Some (valid\<lparr>px_scope := NotificationsOnly\<rparr>)
         | GrantorDeniedProxy \<Rightarrow> Some (valid\<lparr>px_grantorPassed := False\<rparr>))"

definition impersonation_for :: "ImpersonationSlot \<Rightarrow> ImpersonationInput option" where
  "impersonation_for slot =
     (let opened = \<lparr>im_operatorUserId = OPERATOR_ID, im_expiresAt = FAR_FUTURE, im_targetIsCredentialSurface = False,
                   im_operatorHoldsCapability = True\<rparr>
      in case slot of
           NoImpersonation \<Rightarrow> None
         | ActiveImpersonation \<Rightarrow> Some opened
         | ExpiredImpersonation \<Rightarrow> Some (opened\<lparr>im_expiresAt := RECENT_PAST\<rparr>)
         | CredentialSurface \<Rightarrow> Some (opened\<lparr>im_targetIsCredentialSurface := True\<rparr>)
         | IntersectionDenied \<Rightarrow> Some (opened\<lparr>im_operatorHoldsCapability := False\<rparr>))"

text \<open>The snapshot, once the capability's definition is found.\<close>
definition snapshot_of :: "CrossProductCase \<Rightarrow> ModuleKey \<Rightarrow> PolicyInput" where
  "snapshot_of c moduleKey =
     (let groupScoped = (cp_scope c = GroupScope);
          openWindow = windowFor WindowWithin;
          membershipWindow = windowFor (if cp_membershipWindow c = MembershipWithin then WindowWithin else WindowAfter);
          dependencies = map (\<lambda>key. (key, if cp_dependencySatisfied c then entitlementFor (Some EntActive) WindowWithin key
                                          else entitlementFor (Some EntRevoked) WindowWithin key))
                           (filter (\<lambda>key. key \<noteq> moduleKey) (moduleClosure moduleKey));
          membership = (\<lambda>status roleId. case status of None \<Rightarrow> None
                          | Some st \<Rightarrow> Some \<lparr>mi_id = MEMBERSHIP_ID, mi_status = st, mi_roleId = roleId,
                              mi_validFrom = fst membershipWindow, mi_validTo = snd membershipWindow\<rparr>);
          role = map_option (\<lambda>key. \<lparr>ri_id = key, ri_isSystemRole = True\<rparr>);
          capabilities = (\<lambda>roleKey. case roleKey of None \<Rightarrow> [] | Some key \<Rightarrow> system_role_capabilities key)
      in \<lparr>pi_context = \<lparr>ec_principalUserId = PRINCIPAL_ID, ec_expectedOrganizationId = ORGANIZATION_ID,
            ec_expectedGroupId = (if groupScoped then Some GROUP_ID else None), ec_membershipId = MEMBERSHIP_ID\<rparr>,
          pi_organization = Some \<lparr>tn_id = ORGANIZATION_ID, tn_status = cp_orgStatus c\<rparr>,
          pi_group = (if groupScoped then Some \<lparr>tn_id = GROUP_ID, tn_status = cp_groupStatus c\<rparr> else None),
          pi_entitlement = entitlementFor (cp_entitlement c) (cp_window c) moduleKey,
          pi_moduleDependencies = dependencies,
          pi_availability = (if groupScoped then Some \<lparr>av_moduleKey = moduleKey, av_available = cp_available c\<rparr> else None),
          pi_membership = (if groupScoped then membership (cp_membershipStatus c) (cp_role c) else None),
          pi_role = (if groupScoped then role (cp_role c) else None),
          pi_roleCapabilities = (if groupScoped then capabilities (cp_role c) else []),
          pi_organizationMembership =
            (if groupScoped then None else membership (cp_organizationMembershipStatus c) (cp_organizationRole c)),
          pi_organizationRole = (if groupScoped then None else role (cp_organizationRole c)),
          pi_organizationRoleCapabilities = (if groupScoped then [] else capabilities (cp_organizationRole c)),
          pi_grants = (if cp_grant c = GrantAbsent then []
            else [\<lparr>gi_capabilityKey = cp_capabilityKey c, gi_granted = (cp_grant c = GrantAllow),
                   gi_validFrom = fst openWindow, gi_validTo = snd openWindow\<rparr>]),
          pi_proxy = proxy_for (cp_proxy c),
          pi_impersonation = impersonation_for (cp_impersonation c),
          pi_target = (if cp_ownership c = OwnershipAbsent then None
            else Some \<lparr>tg_organizationId = ORGANIZATION_ID, tg_groupId = (if groupScoped then Some GROUP_ID else None),
                   tg_type = ''membership'',
                   tg_ownerMembershipId = Some (if cp_ownership c = OwnedByActor then MEMBERSHIP_ID else OTHER_MEMBERSHIP_ID),
                   tg_state = None\<rparr>),
          pi_action = \<lparr>ac_key = cp_capabilityKey c, ac_moduleKey = moduleKey, ac_scope = cp_scope c,
            ac_requiresObjectPolicy = (cp_ownership c \<noteq> OwnershipAbsent),
            ac_ownershipRequired = Some (cp_ownership c \<noteq> OwnershipAbsent),
            ac_ownershipOverrideCapability = None, ac_permittedTargetStates = None\<rparr>,
          pi_now = NOW\<rparr>)"

definition policyInputFor :: "CrossProductCase \<Rightarrow> PolicyInput result" where
  "policyInputFor c =
     (case capabilityDefinition (cp_capabilityKey c) of
        None \<Rightarrow> Inl (GenericError (''cross-product case names an unknown capability: '' @ cp_capabilityKey c))
      | Some d \<Rightarrow> Inr (snapshot_of c (cd_module d)))"

section \<open>The oracle\<close>

record ExpectedOutcome =
  xo_allowed :: bool
  xo_step :: "PolicyStep option"
  xo_reason :: "DenyReason option"

definition ALLOWED :: ExpectedOutcome where
  "ALLOWED = \<lparr>xo_allowed = True, xo_step = None, xo_reason = None\<rparr>"

abbreviation expect_deny :: "PolicyStep \<Rightarrow> DenyReason \<Rightarrow> ExpectedOutcome" where
  "expect_deny s reason \<equiv> \<lparr>xo_allowed = False, xo_step = Some s, xo_reason = Some reason\<rparr>"

definition expectedOutcome :: "CrossProductCase \<Rightarrow> ExpectedOutcome" where
  "expectedOutcome c =
     (case capabilityDefinition (cp_capabilityKey c) of
        None \<Rightarrow> expect_deny P_4 UNDECLARED_ACTION
      | Some d \<Rightarrow>
     (let groupScoped = (cp_scope c = GroupScope);
          status = (if groupScoped then cp_membershipStatus c else cp_organizationMembershipStatus c);
          roleKey = (if groupScoped then cp_role c else cp_organizationRole c);
          roleHolds = (case roleKey of None \<Rightarrow> False
                       | Some key \<Rightarrow> cp_capabilityKey c \<in> set (system_role_capabilities key))
      in if cp_orgStatus c \<noteq> StatusActive then expect_deny L0_1 ORG_INACTIVE
         else if groupScoped \<and> cp_groupStatus c \<noteq> StatusActive then expect_deny L0_2 GROUP_INACTIVE
         else if cp_entitlement c = None then expect_deny L1_1 NOT_ENTITLED
         else if cp_entitlement c = Some EntSuspended then expect_deny L1_2 ENTITLEMENT_SUSPENDED
         else if cp_entitlement c = Some EntRevoked then expect_deny L1_2 ENTITLEMENT_REVOKED
         else if cp_window c \<noteq> WindowWithin then expect_deny L1_3 ENTITLEMENT_EXPIRED
         else if 1 < length (moduleClosure (cd_module d)) \<and> \<not> cp_dependencySatisfied c
              then expect_deny L1_4 MODULE_DEPENDENCY_UNSATISFIED
         else if groupScoped \<and> \<not> cp_available c then expect_deny L2_1 MODULE_UNAVAILABLE_IN_GROUP
         else if status = None then expect_deny L3_1 (if groupScoped then NO_MEMBERSHIP else NO_ORG_MEMBERSHIP)
         else if \<not> groupScoped \<and> cp_organizationRole c = None then expect_deny L3_1 NO_ORG_MEMBERSHIP
         else if status \<noteq> Some MemActive
              then expect_deny L3_2 (if status = Some MemSuspended then MEMBERSHIP_SUSPENDED
                     else if status = Some MemInvited then MEMBERSHIP_INVITED else MEMBERSHIP_ENDED)
         else if cp_membershipWindow c \<noteq> MembershipWithin then expect_deny L3_3 MEMBERSHIP_EXPIRED
         else if cp_grant c = GrantDeny then expect_deny L4_1 EXPLICIT_DENY
         else if cp_grant c \<noteq> GrantAllow \<and> \<not> roleHolds then expect_deny L4_2 NO_CAPABILITY
         else if cp_ownership c = OwnedByOther then expect_deny L5_1 OBJECT_POLICY
         else if cp_proxy c = ExpiredProxy then expect_deny L6_1 PROXY_INVALID
         else if cp_proxy c = NotificationsOnlyProxy then expect_deny L6_1 PROXY_SCOPE
         else if cp_proxy c = GrantorDeniedProxy then expect_deny L6_1 PROXY_GRANTOR_DENIED
         else if cp_impersonation c = ExpiredImpersonation then expect_deny L6_2 IMPERSONATION_EXPIRED
         else if cp_impersonation c = CredentialSurface \<or> cp_impersonation c = IntersectionDenied
              then expect_deny L6_2 IMPERSONATION_FORBIDDEN_SURFACE
         else ALLOWED))"

section \<open>The battery\<close>

datatype GenerationMode = FullMode | RepresentativeMode

fun REPRESENTATIVE :: "CapabilityScope \<Rightarrow> string" where
  "REPRESENTATIVE GroupScope = ''membership.touch_self''"
| "REPRESENTATIVE OrganizationScope = ''organization.membership.touch_self''"

definition cases_of :: "GenerationMode \<Rightarrow> CapabilityDefinition \<Rightarrow> CrossProductCase list" where
  "cases_of mode d =
     (let isRepresentative = (mode = FullMode \<or> REPRESENTATIVE (cd_scope d) = cd_key d);
          groupScoped = (cd_scope d = GroupScope);
          membershipStatuses = (if isRepresentative then MEMBERSHIP_STATUSES else [Some MemActive])
      in [\<lparr>cp_capabilityKey = cd_key d, cp_scope = cd_scope d, cp_orgStatus = orgStatus, cp_groupStatus = groupStatus,
           cp_entitlement = entitlement, cp_window = w, cp_dependencySatisfied = dependencySatisfied,
           cp_available = available, cp_membershipStatus = membershipStatus, cp_membershipWindow = membershipWindow,
           cp_role = role, cp_organizationMembershipStatus = organizationMembershipStatus,
           cp_organizationRole = organizationRole, cp_grant = grant, cp_ownership = ownership, cp_proxy = proxy,
           cp_impersonation = impersonation\<rparr>.
           orgStatus \<leftarrow> (if isRepresentative then ORG_STATUSES else [StatusActive]),
           groupStatus \<leftarrow> (if isRepresentative \<and> groupScoped then ORG_STATUSES else [StatusActive]),
           entitlement \<leftarrow> ENTITLEMENT_STATES,
           w \<leftarrow> EFFECTIVE_WINDOWS,
           dependencySatisfied \<leftarrow> [True, False],
           available \<leftarrow> (if groupScoped then [True, False] else [True]),
           membershipStatus \<leftarrow> (if groupScoped then membershipStatuses else [Some MemActive]),
           membershipWindow \<leftarrow> (if isRepresentative then MEMBERSHIP_WINDOWS else [MembershipWithin]),
           role \<leftarrow> (if groupScoped then GROUP_ROLE_SLOTS else [None]),
           organizationMembershipStatus \<leftarrow> (if groupScoped then [Some MemActive] else membershipStatuses),
           organizationRole \<leftarrow> (if groupScoped then [None] else ORGANIZATION_ROLE_SLOTS),
           grant \<leftarrow> GRANT_SLOTS,
           ownership \<leftarrow> (if isRepresentative then OWNERSHIP_SLOTS else [OwnershipAbsent]),
           proxy \<leftarrow> (if isRepresentative then PROXY_SLOTS else [NoProxy]),
           impersonation \<leftarrow> (if isRepresentative then IMPERSONATION_SLOTS else [NoImpersonation])])"

definition generateCases :: "GenerationMode \<Rightarrow> CrossProductCase list" where
  "generateCases mode = concat (map (cases_of mode) CAPABILITIES)"

section \<open>The evaluator and the oracle\<close>

text \<open>What the battery compares.\<close>
fun outcome_of :: "Decision \<Rightarrow> ExpectedOutcome" where
  "outcome_of (AllowVia via) = ALLOWED"
| "outcome_of (DenyWith d) = expect_deny (dn_step d) (dn_reason d)"

text \<open>The battery's instants, as \<open>Date.parse\<close> reads the ISO strings.\<close>
definition reads_battery :: "date_parse \<Rightarrow> bool" where
  "reads_battery dp \<longleftrightarrow>
     dp ''1970-01-01T00:00:00.000Z'' = Some 0 \<and> dp LONG_AGO = Some 1577836800000 \<and>
     dp RECENT_PAST = Some 1785542400000 \<and> dp NOW = Some 1785672000000 \<and>
     dp NEAR_FUTURE = Some 1785715200000 \<and> dp FAR_FUTURE = Some 1893456000000"

lemma battery_windows:
  assumes "reads_battery dp"
  shows "withinWindow dp NOW (fst (windowFor w)) (snd (windowFor w)) \<longleftrightarrow> w = WindowWithin"
    and "withinWindow dp NOW ''1970-01-01T00:00:00.000Z'' (Some FAR_FUTURE)"
    and "\<not> withinWindow dp NOW ''1970-01-01T00:00:00.000Z'' (Some RECENT_PAST)"
    and "\<not> withinWindow dp NOW LONG_AGO (Some RECENT_PAST)"
    and "dp (fst (windowFor w)) \<noteq> None" and "snd (windowFor w) = Some e \<Longrightarrow> dp e \<noteq> None"
  using assms by (cases w; auto simp: withinWindow_def reads_battery_def)+

text \<open>The step and reason of an optional denial.\<close>
abbreviation verdict :: "Denial option \<Rightarrow> (PolicyStep \<times> DenyReason) option" where
  "verdict \<equiv> map_option (\<lambda>d. (dn_step d, dn_reason d))"

lemma outcome_chain:
  "outcome_of (case answer of Some d \<Rightarrow> DenyWith d | None \<Rightarrow> rest) =
     (case verdict answer of Some (s, reason) \<Rightarrow> expect_deny s reason | None \<Rightarrow> outcome_of rest)"
  by (cases answer) simp_all

lemma snapshot_fields [simp]:
  "pi_action (snapshot_of c m) = \<lparr>ac_key = cp_capabilityKey c, ac_moduleKey = m, ac_scope = cp_scope c,
     ac_requiresObjectPolicy = (cp_ownership c \<noteq> OwnershipAbsent),
     ac_ownershipRequired = Some (cp_ownership c \<noteq> OwnershipAbsent),
     ac_ownershipOverrideCapability = None, ac_permittedTargetStates = None\<rparr>"
  "pi_now (snapshot_of c m) = NOW"
  "pi_entitlement (snapshot_of c m) = entitlementFor (cp_entitlement c) (cp_window c) m"
  "pi_moduleDependencies (snapshot_of c m) = map (\<lambda>key. (key, entitlementFor
      (Some (if cp_dependencySatisfied c then EntActive else EntRevoked)) WindowWithin key))
      (filter (\<lambda>key. key \<noteq> m) (moduleClosure m))"
  "pi_context (snapshot_of c m) = \<lparr>ec_principalUserId = PRINCIPAL_ID, ec_expectedOrganizationId = ORGANIZATION_ID,
     ec_expectedGroupId = (if cp_scope c = GroupScope then Some GROUP_ID else None), ec_membershipId = MEMBERSHIP_ID\<rparr>"
  "pi_target (snapshot_of c m) = (if cp_ownership c = OwnershipAbsent then None
     else Some \<lparr>tg_organizationId = ORGANIZATION_ID,
       tg_groupId = (if cp_scope c = GroupScope then Some GROUP_ID else None), tg_type = ''membership'',
       tg_ownerMembershipId = Some (if cp_ownership c = OwnedByActor then MEMBERSHIP_ID else OTHER_MEMBERSHIP_ID),
       tg_state = None\<rparr>)"
  "pi_proxy (snapshot_of c m) = proxy_for (cp_proxy c)"
  "pi_impersonation (snapshot_of c m) = impersonation_for (cp_impersonation c)"
  by (simp_all add: snapshot_of_def Let_def)

lemma snapshot_membership [simp]:
  "cp_scope c = GroupScope \<Longrightarrow> pi_membership (snapshot_of c m) = map_option (\<lambda>st. \<lparr>mi_id = MEMBERSHIP_ID, mi_status = st,
     mi_roleId = cp_role c, mi_validFrom = fst (windowFor (if cp_membershipWindow c = MembershipWithin then WindowWithin else WindowAfter)),
     mi_validTo = snd (windowFor (if cp_membershipWindow c = MembershipWithin then WindowWithin else WindowAfter))\<rparr>) (cp_membershipStatus c)"
  "cp_scope c = OrganizationScope \<Longrightarrow> pi_organizationMembership (snapshot_of c m) = map_option (\<lambda>st. \<lparr>mi_id = MEMBERSHIP_ID,
     mi_status = st, mi_roleId = cp_organizationRole c,
     mi_validFrom = fst (windowFor (if cp_membershipWindow c = MembershipWithin then WindowWithin else WindowAfter)),
     mi_validTo = snd (windowFor (if cp_membershipWindow c = MembershipWithin then WindowWithin else WindowAfter))\<rparr>)
     (cp_organizationMembershipStatus c)"
  "cp_scope c = GroupScope \<Longrightarrow> pi_role (snapshot_of c m) = map_option (\<lambda>key. \<lparr>ri_id = key, ri_isSystemRole = True\<rparr>) (cp_role c)"
  "cp_scope c = OrganizationScope \<Longrightarrow>
     pi_organizationRole (snapshot_of c m) = map_option (\<lambda>key. \<lparr>ri_id = key, ri_isSystemRole = True\<rparr>) (cp_organizationRole c)"
  "cp_scope c = GroupScope \<Longrightarrow>
     pi_roleCapabilities (snapshot_of c m) = (case cp_role c of None \<Rightarrow> [] | Some key \<Rightarrow> system_role_capabilities key)"
  "cp_scope c = OrganizationScope \<Longrightarrow>
     pi_organizationRoleCapabilities (snapshot_of c m) =
       (case cp_organizationRole c of None \<Rightarrow> [] | Some key \<Rightarrow> system_role_capabilities key)"
  by (simp_all add: snapshot_of_def Let_def split: option.split)

lemma snapshot_step0:
  "verdict (step0 (snapshot_of c m)) =
     (if cp_orgStatus c \<noteq> StatusActive then Some (L0_1, ORG_INACTIVE)
      else if cp_scope c = GroupScope \<and> cp_groupStatus c \<noteq> StatusActive then Some (L0_2, GROUP_INACTIVE)
      else None)"
  by (simp add: step0_def) (simp add: snapshot_of_def Let_def)

lemma snapshot_dependencies:
  assumes "reads_battery dp"
  shows "dependency_mismatch (pi_moduleDependencies (snapshot_of c m)) = None"
    and "missing_dependencies (snapshot_of c m) = []"
    and "verdict (dependency_failure dp NOW (pi_moduleDependencies (snapshot_of c m))) =
      (if 1 < length (moduleClosure m) \<and> \<not> cp_dependencySatisfied c
       then Some (L1_4, MODULE_DEPENDENCY_UNSATISFIED) else None)"
proof -
  show "dependency_mismatch (pi_moduleDependencies (snapshot_of c m)) = None"
    by (auto simp: dependency_mismatch_None entitlementFor_def)
  show "missing_dependencies (snapshot_of c m) = []"
    by (simp add: missing_dependencies_def Let_def filter_empty_conv comp_def)
  have e: "entitlementFailure dp (entitlementFor (Some EntActive) WindowWithin key) NOW = None"
    "entitlementFailure dp (entitlementFor (Some EntRevoked) WindowWithin key) NOW =
       Some (ENTITLEMENT_REVOKED, ''entitlement state is revoked'')" for key
    using battery_windows(1)[OF assms, of WindowWithin]
    by (simp_all add: entitlementFailure_def entitlementFor_def ENTITLED_STATES_def)
  show "verdict (dependency_failure dp NOW (pi_moduleDependencies (snapshot_of c m))) =
      (if 1 < length (moduleClosure m) \<and> \<not> cp_dependencySatisfied c
       then Some (L1_4, MODULE_DEPENDENCY_UNSATISFIED) else None)"
    by (cases "cp_dependencySatisfied c"; cases m) (simp_all add: moduleClosure_values e)
qed

lemma snapshot_step1:
  assumes "reads_battery dp"
  shows "verdict (step1 dp (snapshot_of c m)) =
     (case cp_entitlement c of
        None \<Rightarrow> Some (L1_1, NOT_ENTITLED)
      | Some st \<Rightarrow>
          if st = EntSuspended then Some (L1_2, ENTITLEMENT_SUSPENDED)
          else if st = EntRevoked then Some (L1_2, ENTITLEMENT_REVOKED)
          else if cp_window c \<noteq> WindowWithin then Some (L1_3, ENTITLEMENT_EXPIRED)
          else if 1 < length (moduleClosure m) \<and> \<not> cp_dependencySatisfied c
          then Some (L1_4, MODULE_DEPENDENCY_UNSATISFIED) else None)"
proof -
  have own: "step1 dp (snapshot_of c m) = step1_entitled dp (snapshot_of c m)"
    unfolding step1_def Let_def snapshot_dependencies(1)[OF assms]
    by (simp add: entitlementFor_def split: option.split)
  show ?thesis unfolding own step1_entitled_def snapshot_dependencies(2)[OF assms]
    using battery_windows(1)[OF assms, of "cp_window c"] snapshot_dependencies(3)[OF assms, of c m]
    by (cases "cp_entitlement c")
      (auto simp: entitlementFailure_def entitlementFor_def ENTITLED_STATES_def simp del: snapshot_fields(4)
        intro: EntitlementState.exhaust)
qed

lemma snapshot_step2:
  "verdict (step2 (snapshot_of c m)) =
     (if cp_scope c = GroupScope \<and> \<not> cp_available c then Some (L2_1, MODULE_UNAVAILABLE_IN_GROUP) else None)"
  by (simp add: step2_def) (simp add: snapshot_of_def Let_def)

definition case_status :: "CrossProductCase \<Rightarrow> MembershipInputStatus option" where
  "case_status c = (if cp_scope c = GroupScope then cp_membershipStatus c else cp_organizationMembershipStatus c)"

definition case_role :: "CrossProductCase \<Rightarrow> string option" where
  "case_role c = (if cp_scope c = GroupScope then cp_role c else cp_organizationRole c)"

definition case_capabilities :: "CrossProductCase \<Rightarrow> string list" where
  "case_capabilities c = (case case_role c of None \<Rightarrow> [] | Some key \<Rightarrow> system_role_capabilities key)"

lemma snapshot_step3:
  assumes "reads_battery dp"
  shows "(case step3 dp (snapshot_of c m) of
        Inl d \<Rightarrow> Inl (dn_step d, dn_reason d) | Inr sel \<Rightarrow> Inr (sel_capabilities sel)) =
     (if case_status c = None then Inl (L3_1, if cp_scope c = GroupScope then NO_MEMBERSHIP else NO_ORG_MEMBERSHIP)
      else if cp_scope c \<noteq> GroupScope \<and> cp_organizationRole c = None then Inl (L3_1, NO_ORG_MEMBERSHIP)
      else if case_status c \<noteq> Some MemActive
      then Inl (L3_2, if case_status c = Some MemSuspended then MEMBERSHIP_SUSPENDED
                  else if case_status c = Some MemInvited then MEMBERSHIP_INVITED else MEMBERSHIP_ENDED)
      else if cp_membershipWindow c \<noteq> MembershipWithin then Inl (L3_3, MEMBERSHIP_EXPIRED)
      else Inr (case_capabilities c))"
proof -
  have w: "withinWindow dp NOW (fst (windowFor WindowWithin)) (snd (windowFor WindowWithin))"
    "\<not> withinWindow dp NOW (fst (windowFor WindowAfter)) (snd (windowFor WindowAfter))"
    using battery_windows(1)[OF assms] by blast+
  show ?thesis
    by (cases "cp_scope c"; cases "case_status c"; cases "case_role c")
      (use w in \<open>simp_all add: step3_def step3_role_def Let_def case_status_def case_capabilities_def case_role_def
         del: windowFor.simps\<close>)
qed

lemma snapshot_step4:
  assumes "reads_battery dp" "sel_capabilities sel = case_capabilities c"
  shows "(case step4 dp (snapshot_of c m) sel of Inl d \<Rightarrow> Some (dn_step d, dn_reason d) | Inr via \<Rightarrow> None) =
     (if cp_grant c = GrantDeny then Some (L4_1, EXPLICIT_DENY)
      else if cp_grant c \<noteq> GrantAllow \<and> cp_capabilityKey c \<notin> set (case_capabilities c) then Some (L4_2, NO_CAPABILITY)
      else None)"
proof -
  have grants: "pi_grants (snapshot_of c m) = (if cp_grant c = GrantAbsent then []
      else [\<lparr>gi_capabilityKey = cp_capabilityKey c, gi_granted = (cp_grant c = GrantAllow),
             gi_validFrom = fst (windowFor WindowWithin), gi_validTo = snd (windowFor WindowWithin)\<rparr>])"
    by (simp add: snapshot_of_def Let_def)
  have w: "withinWindow dp NOW (fst (windowFor WindowWithin)) (snd (windowFor WindowWithin))"
    using battery_windows(1)[OF assms(1)] by blast
  have cmp: "windowIsComparable dp \<lparr>gi_capabilityKey = k, gi_granted = b,
      gi_validFrom = fst (windowFor WindowWithin), gi_validTo = snd (windowFor WindowWithin)\<rparr>" for k b
    using battery_windows(5,6)[OF assms(1), of WindowWithin] by (auto simp: windowIsComparable_def split: option.splits)
  show ?thesis
    by (cases "cp_grant c")
      (simp_all add: step4_def Let_def grants hasExplicitDeny_def inWindowGrants_def w cmp assms(2) del: windowFor.simps)
qed

lemma snapshot_step5:
  "verdict (step5 dp (snapshot_of c m) sel) = (if cp_ownership c = OwnedByOther then Some (L5_1, OBJECT_POLICY) else None)"
proof -
  have "MEMBERSHIP_ID \<noteq> OTHER_MEMBERSHIP_ID" by (simp add: MEMBERSHIP_ID_def OTHER_MEMBERSHIP_ID_def)
  then show ?thesis
    by (cases "cp_ownership c") (simp_all add: step5_def owned_elsewhere_def)
qed

lemma snapshot_step6:
  assumes "reads_battery dp"
  shows "verdict (step6 dp (snapshot_of c m)) =
     (if cp_proxy c = ExpiredProxy then Some (L6_1, PROXY_INVALID)
      else if cp_proxy c = NotificationsOnlyProxy then Some (L6_1, PROXY_SCOPE)
      else if cp_proxy c = GrantorDeniedProxy then Some (L6_1, PROXY_GRANTOR_DENIED)
      else if cp_impersonation c = ExpiredImpersonation then Some (L6_2, IMPERSONATION_EXPIRED)
      else if cp_impersonation c = CredentialSurface \<or> cp_impersonation c = IntersectionDenied
      then Some (L6_2, IMPERSONATION_FORBIDDEN_SURFACE) else None)"
proof -
  have w: "withinWindow dp NOW (fst (windowFor WindowWithin)) (snd (windowFor WindowWithin))"
    using battery_windows(1)[OF assms] by blast
  have p: "verdict (step6_proxy dp (snapshot_of c m)) =
     (if cp_proxy c = ExpiredProxy then Some (L6_1, PROXY_INVALID)
      else if cp_proxy c = NotificationsOnlyProxy then Some (L6_1, PROXY_SCOPE)
      else if cp_proxy c = GrantorDeniedProxy then Some (L6_1, PROXY_GRANTOR_DENIED) else None)"
    using w battery_windows(4)[OF assms]
    by (cases "cp_proxy c") (simp_all add: step6_proxy_def proxy_for_def del: windowFor.simps)
  have q: "verdict (step6_impersonation dp (snapshot_of c m)) =
     (if cp_impersonation c = ExpiredImpersonation then Some (L6_2, IMPERSONATION_EXPIRED)
      else if cp_impersonation c = CredentialSurface \<or> cp_impersonation c = IntersectionDenied
      then Some (L6_2, IMPERSONATION_FORBIDDEN_SURFACE) else None)"
    using battery_windows(2,3)[OF assms]
    by (cases "cp_impersonation c") (simp_all add: step6_impersonation_def impersonation_for_def)
  have "verdict (step6 dp (snapshot_of c m)) =
     (case verdict (step6_proxy dp (snapshot_of c m)) of Some v \<Rightarrow> Some v
      | None \<Rightarrow> verdict (step6_impersonation dp (snapshot_of c m)))"
    by (simp add: step6_def split: option.split)
  then show ?thesis unfolding p q by simp
qed

lemma chain_if:
  "(case (if b then Some (s, r) else x) of Some (s, reason) \<Rightarrow> expect_deny s reason | None \<Rightarrow> rest) =
     (if b then expect_deny s r else (case x of Some (s, reason) \<Rightarrow> expect_deny s reason | None \<Rightarrow> rest))"
  "(case (if b then Inl (s, r) else y) of Inl (s, reason) \<Rightarrow> expect_deny s reason | Inr caps \<Rightarrow> rest) =
     (if b then expect_deny s r else (case y of Inl (s, reason) \<Rightarrow> expect_deny s reason | Inr caps \<Rightarrow> rest))"
  by simp_all

lemma role_holds:
  "(case case_role c of None \<Rightarrow> False | Some key \<Rightarrow> k \<in> set (system_role_capabilities key)) \<longleftrightarrow> k \<in> set (case_capabilities c)"
  by (simp add: case_capabilities_def split: option.split)

lemmas chain_simps = chain_if option.case sum.case prod.case if_False if_True simp_thms role_holds

text \<open>The evaluator on the snapshot of any case of a known capability in its own namespace.\<close>
lemma authorize_expected:
  assumes dates: "reads_battery dp"
    and d: "capabilityDefinition (cp_capabilityKey c) = Some d" "cd_scope d = cp_scope c"
  shows "outcome_of (authorize dp (snapshot_of c (cd_module d))) = expectedOutcome c"
proof -
  let ?i = "snapshot_of c (cd_module d)"
  have pre: "step4Precondition ?i = None" using d by (simp add: step4Precondition_def)
  have tail: "outcome_of (case step4 dp ?i sel of Inl d \<Rightarrow> DenyWith d | Inr via \<Rightarrow>
        (case step5 dp ?i sel of Some d \<Rightarrow> DenyWith d | None \<Rightarrow>
        (case step6 dp ?i of Some d \<Rightarrow> DenyWith d | None \<Rightarrow> AllowVia via))) =
      (if cp_grant c = GrantDeny then expect_deny L4_1 EXPLICIT_DENY
       else if cp_grant c \<noteq> GrantAllow \<and> cp_capabilityKey c \<notin> set (case_capabilities c) then expect_deny L4_2 NO_CAPABILITY
       else if cp_ownership c = OwnedByOther then expect_deny L5_1 OBJECT_POLICY
       else (case verdict (step6 dp ?i) of Some (s, reason) \<Rightarrow> expect_deny s reason | None \<Rightarrow> ALLOWED))"
    if sel: "sel_capabilities sel = case_capabilities c" for sel
    using snapshot_step4[OF dates sel, of "cd_module d"]
    by (cases "step4 dp ?i sel"; cases "step6 dp ?i") (auto simp: outcome_chain snapshot_step5 split: if_splits)
  have l3: "outcome_of (case step3 dp ?i of Inl d \<Rightarrow> DenyWith d | Inr sel \<Rightarrow> f sel) =
      (case (case step3 dp ?i of Inl d \<Rightarrow> Inl (dn_step d, dn_reason d) | Inr sel \<Rightarrow> Inr (sel_capabilities sel)) of
         Inl (s, reason) \<Rightarrow> expect_deny s reason | Inr caps \<Rightarrow> g)"
    if "\<And>sel. sel_capabilities sel = case_capabilities c \<Longrightarrow> outcome_of (f sel) = g" for f g
    using that snapshot_step3[OF dates, of c "cd_module d"]
    by (cases "step3 dp ?i") (auto split: if_splits)
  have after_l2: "outcome_of (case step3 dp ?i of Inl d \<Rightarrow> DenyWith d | Inr sel \<Rightarrow>
       (case step4 dp ?i sel of Inl d \<Rightarrow> DenyWith d | Inr via \<Rightarrow>
        (case step5 dp ?i sel of Some d \<Rightarrow> DenyWith d | None \<Rightarrow>
        (case step6 dp ?i of Some d \<Rightarrow> DenyWith d | None \<Rightarrow> AllowVia via)))) =
      (case (case step3 dp ?i of Inl d \<Rightarrow> Inl (dn_step d, dn_reason d) | Inr sel \<Rightarrow> Inr (sel_capabilities sel)) of
         Inl (s, reason) \<Rightarrow> expect_deny s reason
       | Inr caps \<Rightarrow>
           (if cp_grant c = GrantDeny then expect_deny L4_1 EXPLICIT_DENY
            else if cp_grant c \<noteq> GrantAllow \<and> cp_capabilityKey c \<notin> set (case_capabilities c)
            then expect_deny L4_2 NO_CAPABILITY
            else if cp_ownership c = OwnedByOther then expect_deny L5_1 OBJECT_POLICY
            else (case verdict (step6 dp ?i) of Some (s, reason) \<Rightarrow> expect_deny s reason | None \<Rightarrow> ALLOWED)))"
    by (rule l3) (rule tail)
  show ?thesis
    unfolding authorize_def pre option.case(1) outcome_chain snapshot_step0 snapshot_step1[OF dates] snapshot_step2
      after_l2 snapshot_step3[OF dates] snapshot_step6[OF dates]
    unfolding expectedOutcome_def d(1) option.case(2) Let_def case_status_def[symmetric] case_role_def[symmetric] role_holds
    by (cases "cp_entitlement c"; cases "the (cp_entitlement c)")
      (simp_all only: chain_simps option.sel option.distinct option.inject EntitlementState.distinct)
qed

text \<open>What every element of a nested loop has, and one element of it.\<close>
lemma concat_map_all: "(\<And>x. x \<in> set xs \<Longrightarrow> \<forall>c \<in> set (f x). P c) \<Longrightarrow> \<forall>c \<in> set (concat (map f xs)). P c"
  by auto

lemma map_all: "(\<And>x. x \<in> set xs \<Longrightarrow> P (f x)) \<Longrightarrow> \<forall>c \<in> set (map f xs). P c"
  by auto

lemma concat_mapI: "z \<in> set (f y) \<Longrightarrow> y \<in> set xs \<Longrightarrow> z \<in> set (concat (map f xs))"
  by auto

lemma mapI: "z = f y \<Longrightarrow> y \<in> set xs \<Longrightarrow> z \<in> set (map f xs)"
  by auto

lemma cases_of_capability:
  "\<forall>c \<in> set (cases_of mode d). cp_capabilityKey c = cd_key d \<and> cp_scope c = cd_scope d"
  unfolding cases_of_def Let_def by (intro concat_map_all map_all) simp

text \<open>C12: The evaluator agrees with the independent oracle on the whole cross product: for every case the battery
  generates, in either mode, the snapshot of the case exists and \<open>authorize\<close> answers it as
  \<open>expectedOutcome\<close> says, allowed or denied at the same step for the same reason.\<close>
theorem evaluator_agrees_with_oracle:
  assumes "reads_battery dp" "c \<in> set (generateCases mode)"
  shows "\<exists>i. policyInputFor c = Inr i \<and> outcome_of (authorize dp i) = expectedOutcome c"
proof -
  obtain d where d: "d \<in> set CAPABILITIES" "c \<in> set (cases_of mode d)"
    using assms(2) by (auto simp: generateCases_def)
  then have "capabilityDefinition (cp_capabilityKey c) = Some d" "cd_scope d = cp_scope c"
    using cases_of_capability[of mode d] by (auto simp: capabilityDefinition_iff)
  then show ?thesis using authorize_expected[OF assms(1)] by (simp add: policyInputFor_def)
qed

definition sample_case :: CrossProductCase where
  "sample_case = \<lparr>cp_capabilityKey = ''connectors.manage'', cp_scope = GroupScope, cp_orgStatus = StatusActive,
     cp_groupStatus = StatusActive, cp_entitlement = Some EntTrial, cp_window = WindowWithin,
     cp_dependencySatisfied = True, cp_available = True, cp_membershipStatus = Some MemActive,
     cp_membershipWindow = MembershipWithin, cp_role = Some ''group_admin'',
     cp_organizationMembershipStatus = Some MemActive, cp_organizationRole = None, cp_grant = GrantAllow,
     cp_ownership = OwnedByActor, cp_proxy = ValidProxy, cp_impersonation = IntersectionDenied\<rparr>"

theorem evaluator_agrees_with_oracle_witness:
  "\<exists>i. policyInputFor sample_case = Inr i \<and> outcome_of (authorize sample_dates i) = expectedOutcome sample_case"
proof (rule evaluator_agrees_with_oracle[where mode = FullMode])
  show "reads_battery sample_dates" by code_simp
  have "sample_case \<in> set (cases_of FullMode (capability ''connectors.manage'' GroupScope HospitalIntegration))"
    unfolding cases_of_def Let_def
    by (rule concat_mapI, rule concat_mapI, rule concat_mapI, rule concat_mapI, rule concat_mapI, rule concat_mapI,
        rule concat_mapI, rule concat_mapI, rule concat_mapI, rule concat_mapI, rule concat_mapI, rule concat_mapI,
        rule concat_mapI, rule concat_mapI, rule mapI, unfold sample_case_def CapabilityDefinition.select_convs, rule refl)
      (simp_all add: ORG_STATUSES_def ENTITLEMENT_STATES_def EFFECTIVE_WINDOWS_def MEMBERSHIP_STATUSES_def
        MEMBERSHIP_WINDOWS_def GROUP_ROLE_SLOTS_def GRANT_SLOTS_def OWNERSHIP_SLOTS_def PROXY_SLOTS_def
        IMPERSONATION_SLOTS_def)
  moreover have "capability ''connectors.manage'' GroupScope HospitalIntegration \<in> set CAPABILITIES" by code_simp
  ultimately show "sample_case \<in> set (generateCases FullMode)" by (auto simp: generateCases_def)
qed

end
