(* ===== verification/AuthzTables.thy ===== *)
theory AuthzTables
  imports EcmaDate InForce
begin

text \<open>
  The tables the context and authorization layers read (\<open>apps/api/src/authz/load-policy-input.ts\<close>,
  \<open>apps/api/src/http/context/snapshot.ts\<close>), with the columns they select. The tables hold the rows that row level
  security shows the transaction, in the order a query returns them. A \<open>timestamptz\<close> column holds an instant in
  milliseconds or an infinity, which \<open>node-postgres\<close> returns as a number and not a \<open>Date\<close>.
\<close>

section \<open>Instants\<close>

datatype stored_instant = StoredNegInfinity | StoredAt int | StoredInfinity

text \<open>The order PostgreSQL gives the column.\<close>
fun stored_key :: "stored_instant \<Rightarrow> int \<times> int" where
  "stored_key StoredNegInfinity = (0, 0)"
| "stored_key (StoredAt t) = (1, t)"
| "stored_key StoredInfinity = (2, 0)"

text \<open>\<open>toISOString\<close> of a \<open>Date\<close> in the years 0 to 9999.\<close>
definition toISOString :: "int \<Rightarrow> string" where
  "toISOString t =
     (let ms = t mod MS_PER_DAY; two = (\<lambda>n. pad_start 2 (string_of_int n)) in
      iso_date (t div MS_PER_DAY) @ ''T'' @ two (ms div 3600000) @ '':'' @ two (ms div 60000 mod 60) @ '':'' @
      two (ms div 1000 mod 60) @ ''.'' @ pad_start 3 (string_of_int (ms mod 1000)) @ ''Z'')"

fun instantOf :: "stored_instant \<Rightarrow> string option" where
  "instantOf (StoredAt t) = Some (toISOString t)"
| "instantOf _ = None"

definition UNPARSABLE_INSTANT :: string where
  "UNPARSABLE_INSTANT = ''unparsable-instant''"

text \<open>\<open>instantOf(row.from) ?? UNPARSABLE_INSTANT\<close>, and the same of a nullable column.\<close>
definition instant_or_sentinel :: "stored_instant \<Rightarrow> string" where
  "instant_or_sentinel v = (case instantOf v of Some s \<Rightarrow> s | None \<Rightarrow> UNPARSABLE_INSTANT)"

section \<open>Rows\<close>

record OrganizationRow =
  ogr_id :: string
  ogr_status :: string
  ogr_version :: int

record GroupRow =
  gpr_id :: string
  gpr_organization_id :: string
  gpr_status :: string
  gpr_version :: int

record MembershipRow =
  mbr_id :: string
  mbr_kind :: string
  mbr_organization_id :: string
  mbr_group_id :: "string option"
  mbr_user_id :: string
  mbr_status :: string
  mbr_organization_role :: "string option"
  mbr_group_role :: "string option"
  mbr_valid_from :: stored_instant
  mbr_valid_to :: "stored_instant option"

record UserRow =
  usr_id :: string
  usr_status :: string
  usr_membership_set_version :: int
  usr_session_epoch :: int

record EntitlementRow =
  etr_organization_id :: string
  etr_module_key :: string
  etr_state :: string
  etr_effective_from :: stored_instant
  etr_effective_to :: "stored_instant option"

record AvailabilityRow =
  avr_group_id :: string
  avr_module_key :: string
  avr_available :: bool

record RoleRow =
  rlr_id :: string
  rlr_organization_id :: string
  rlr_scope :: string
  rlr_key :: string
  rlr_status :: string
  rlr_is_system_role :: bool

record RoleCapabilityRow =
  rcr_organization_id :: string
  rcr_role_id :: string
  rcr_capability_key :: string

record GrantRow =
  gtr_organization_id :: string
  gtr_membership_id :: string
  gtr_capability_key :: string
  gtr_granted :: bool
  gtr_valid_from :: stored_instant
  gtr_valid_to :: "stored_instant option"

record AuthzTables =
  organization_rows :: "OrganizationRow list"
  group_rows :: "GroupRow list"
  authz_membership_rows :: "MembershipRow list"
  user_rows :: "UserRow list"
  entitlement_rows :: "EntitlementRow list"
  availability_rows :: "AvailabilityRow list"
  role_rows :: "RoleRow list"
  role_capability_rows :: "RoleCapabilityRow list"
  grant_rows :: "GrantRow list"

text \<open>The first row of a query: \<open>rows[0]\<close>.\<close>
definition first_row :: "('r \<Rightarrow> bool) \<Rightarrow> 'r list \<Rightarrow> 'r option" where
  "first_row p rows = find p rows"

text \<open>What the host reads of a stored bound: an instant it can write it reads back, the sentinel it does not.\<close>
definition reads_stored :: "date_parse \<Rightarrow> stored_instant \<Rightarrow> bool" where
  "reads_stored dp v \<longleftrightarrow>
     (case v of StoredAt t \<Rightarrow> dp (toISOString t) = Some t | _ \<Rightarrow> dp UNPARSABLE_INSTANT = None)"

lemma reads_stored_sentinel:
  "reads_stored dp v \<Longrightarrow> dp (instant_or_sentinel v) = (case v of StoredAt t \<Rightarrow> Some t | _ \<Rightarrow> None)"
  by (cases v) (simp_all add: reads_stored_def instant_or_sentinel_def)

end
