(* ===== verification/RequestContext.thy ===== *)
theory RequestContext
  imports AuthzTables AuthorizeFacts
begin

text \<open>
  The tenant context of a request: \<open>packages/domain/src/context/request-context.ts\<close> and \<open>verification.ts\<close>, and
  the resolution of the snapshot they are given (\<open>apps/api/src/http/context/snapshot.ts\<close>). The reasons are the
  source's strings.
\<close>

section \<open>Declared and verified contexts\<close>

record ContextVersion =
  cv_organizationVersion :: int
  cv_groupVersion :: "int option"
  cv_membershipSetVersion :: int

record DeclaredContext =
  dc_principalUserId :: string
  dc_actionScope :: CapabilityScope
  dc_expectedOrganizationId :: string
  dc_expectedGroupId :: "string option"
  dc_contextVersion :: "ContextVersion option"
  dc_sessionEpoch :: "int option"
  dc_correlationId :: string
  dc_onBehalfOfMembershipId :: "string option"

record RequestContext =
  rc_principalUserId :: string
  rc_actionScope :: CapabilityScope
  rc_expectedOrganizationId :: string
  rc_expectedGroupId :: "string option"
  rc_membershipId :: string
  rc_contextVersion :: ContextVersion
  rc_sessionEpoch :: int
  rc_authorizationVersion :: string
  rc_correlationId :: string
  rc_onBehalfOfMembershipId :: "string option"

definition authorizationVersionOf :: "ContextVersion \<Rightarrow> int \<Rightarrow> string" where
  "authorizationVersionOf version sessionEpoch =
     ''av1:'' @ string_of_int (cv_organizationVersion version) @ ''.'' @
     (case cv_groupVersion version of None \<Rightarrow> ''-'' | Some g \<Rightarrow> string_of_int g) @ ''.'' @
     string_of_int (cv_membershipSetVersion version) @ ''.'' @ string_of_int sessionEpoch"

definition contextVersionsMatch :: "ContextVersion \<Rightarrow> ContextVersion \<Rightarrow> bool" where
  "contextVersionsMatch declared current \<longleftrightarrow>
     cv_organizationVersion declared = cv_organizationVersion current \<and>
     cv_groupVersion declared = cv_groupVersion current \<and>
     cv_membershipSetVersion declared = cv_membershipSetVersion current"

section \<open>The snapshot\<close>

record OrganizationSnapshot =
  os_id :: string
  os_status :: ActiveStatus
  os_organizationVersion :: int

record GroupSnapshot =
  gs_id :: string
  gs_organizationId :: string
  gs_status :: ActiveStatus
  gs_groupVersion :: int

datatype MembershipKind = OrganizationKind | GroupKind

record MembershipSnapshot =
  ms_id :: string
  ms_kind :: MembershipKind
  ms_organizationId :: string
  ms_groupId :: "string option"
  ms_userId :: string
  ms_status :: MembershipInputStatus
  ms_organizationRole :: "string option"
  ms_groupRole :: "string option"
  ms_validFrom :: string
  ms_validTo :: "string option"

datatype PrincipalStatus = PrincipalActive | PrincipalDeactivated

record PrincipalSnapshot =
  ps_id :: string
  ps_status :: PrincipalStatus
  ps_membershipSetVersion :: int
  ps_sessionEpoch :: int

record ContextSnapshot =
  cs_organization :: "OrganizationSnapshot option"
  cs_group :: "GroupSnapshot option"
  cs_membership :: "MembershipSnapshot option"
  cs_principal :: "PrincipalSnapshot option"
  cs_now :: string

datatype ContextFailureCode = CtxNotFound | CtxStale | CtxSessionStale | CtxTargetMismatch

record ContextFailure =
  cf_code :: ContextFailureCode
  cf_step :: nat
  cf_reason :: string
  cf_securityEvent :: bool

type_synonym ContextVerification = "ContextFailure + RequestContext"

definition ctx_deny :: "nat \<Rightarrow> string \<Rightarrow> ContextFailureCode option \<Rightarrow> bool option \<Rightarrow> ContextVerification" where
  "ctx_deny step reason code securityEvent =
     Inl \<lparr>cf_code = (case code of None \<Rightarrow> CtxNotFound | Some c \<Rightarrow> c), cf_step = step, cf_reason = reason,
          cf_securityEvent = (case securityEvent of None \<Rightarrow> False | Some b \<Rightarrow> b)\<rparr>"

section \<open>The validation sequence\<close>

text \<open>A comparison with \<open>NaN\<close> is false.\<close>
definition membershipIsActive :: "date_parse \<Rightarrow> MembershipSnapshot \<Rightarrow> string \<Rightarrow> bool" where
  "membershipIsActive dateParse membership now =
     (if ms_status membership \<noteq> MemActive then False
      else (case dateParse now of
              None \<Rightarrow> False
            | Some instant \<Rightarrow>
                if (case dateParse (ms_validFrom membership) of None \<Rightarrow> False | Some start \<Rightarrow> instant < start) then False
                else if (case ms_validTo membership of
                           None \<Rightarrow> False
                         | Some till \<Rightarrow> (case dateParse till of None \<Rightarrow> False | Some bound \<Rightarrow> bound \<le> instant)) then False
                else True))"

definition verify_freshness ::
  "DeclaredContext \<Rightarrow> ContextSnapshot \<Rightarrow> OrganizationSnapshot \<Rightarrow> MembershipSnapshot \<Rightarrow> ContextVerification" where
  "verify_freshness declared snapshot organization membership =
     (case cs_principal snapshot of
        None \<Rightarrow> ctx_deny 2 ''principal is not visible in the declared tenant'' None None
      | Some acting \<Rightarrow>
          if ps_id acting \<noteq> dc_principalUserId declared
          then ctx_deny 2 ''principal is not visible in the declared tenant'' None None
          else if ps_status acting \<noteq> PrincipalActive then ctx_deny 2 ''principal is deactivated'' None None
          else
            (let current = \<lparr>cv_organizationVersion = os_organizationVersion organization,
                 cv_groupVersion = (if dc_actionScope declared = GroupScope
                                    then map_option gs_groupVersion (cs_group snapshot) else None),
                 cv_membershipSetVersion = ps_membershipSetVersion acting\<rparr>
             in case dc_contextVersion declared of
                  None \<Rightarrow> ctx_deny 4 ''no context version declared'' (Some CtxStale) None
                | Some version \<Rightarrow>
                    if \<not> contextVersionsMatch version current
                    then ctx_deny 4 ''declared context version does not match current counters'' (Some CtxStale) None
                    else (case dc_sessionEpoch declared of
                            None \<Rightarrow> ctx_deny 5 ''no session epoch declared'' (Some CtxSessionStale) None
                          | Some epoch \<Rightarrow>
                              if epoch \<noteq> ps_sessionEpoch acting
                              then ctx_deny 5 ''declared session epoch does not match the current epoch''
                                     (Some CtxSessionStale) None
                              else Inr \<lparr>rc_principalUserId = dc_principalUserId declared,
                                rc_actionScope = dc_actionScope declared,
                                rc_expectedOrganizationId = dc_expectedOrganizationId declared,
                                rc_expectedGroupId = dc_expectedGroupId declared,
                                rc_membershipId = ms_id membership,
                                rc_contextVersion = current,
                                rc_sessionEpoch = ps_sessionEpoch acting,
                                rc_authorizationVersion = authorizationVersionOf current (ps_sessionEpoch acting),
                                rc_correlationId = dc_correlationId declared,
                                rc_onBehalfOfMembershipId = dc_onBehalfOfMembershipId declared\<rparr>)))"

text \<open>Step 3: the group declaration matches the scope.\<close>
definition verify_group :: "DeclaredContext \<Rightarrow> ContextSnapshot \<Rightarrow> ContextVerification \<Rightarrow> ContextVerification" where
  "verify_group declared snapshot rest =
     (if dc_actionScope declared = GroupScope then
        (case dc_expectedGroupId declared of
           None \<Rightarrow> ctx_deny 3 ''group-scoped action declared no group'' None None
         | Some groupId \<Rightarrow>
             (case cs_group snapshot of
                None \<Rightarrow> ctx_deny 3 ''declared group is not visible in the declared organization'' None (Some True)
              | Some grp \<Rightarrow>
                  if gs_id grp \<noteq> groupId
                  then ctx_deny 3 ''resolved group does not match the declared group'' None None
                  else if gs_organizationId grp \<noteq> dc_expectedOrganizationId declared
                  then ctx_deny 3 ''declared group belongs to a different organization'' None None
                  else if gs_status grp \<noteq> StatusActive then ctx_deny 3 ''declared group is not active'' None None
                  else rest))
      else if dc_expectedGroupId declared \<noteq> None
      then ctx_deny 3 ''organization-scoped action declared a group'' None None
      else rest)"

text \<open>The branch of step 2 the scope selects.\<close>
definition verify_kind :: "DeclaredContext \<Rightarrow> MembershipSnapshot \<Rightarrow> ContextVerification \<Rightarrow> ContextVerification" where
  "verify_kind declared membership rest =
     (if dc_actionScope declared = GroupScope then
        if ms_kind membership \<noteq> GroupKind
        then ctx_deny 2 ''an organization membership never satisfies a group-scoped action (P-8)'' None None
        else if ms_groupId membership = None \<or> ms_groupId membership \<noteq> dc_expectedGroupId declared
        then ctx_deny 2 ''membership is not in the declared group'' None None
        else if ms_groupRole membership = None
        then ctx_deny 2 ''group membership carries no group role'' None None
        else rest
      else
        if ms_kind membership \<noteq> OrganizationKind
        then ctx_deny 2 ''a group membership never satisfies an organization-scoped action (P-9)'' None None
        else if ms_groupId membership \<noteq> None
        then ctx_deny 2 ''organization membership must not name a group'' None None
        else if ms_organizationRole membership = None
        then ctx_deny 2 ''organization membership carries no organization role'' None None
        else rest)"

definition verifyDeclaredContext ::
  "date_parse \<Rightarrow> DeclaredContext \<Rightarrow> ContextSnapshot \<Rightarrow> ContextVerification" where
  "verifyDeclaredContext dateParse declared snapshot =
     (case cs_organization snapshot of
        None \<Rightarrow> ctx_deny 1 ''declared organization is not visible in its own tenant context'' None (Some True)
      | Some organization \<Rightarrow>
          if os_id organization \<noteq> dc_expectedOrganizationId declared
          then ctx_deny 1 ''resolved organization does not match the declared organization'' None None
          else if os_status organization \<noteq> StatusActive
          then ctx_deny 1 ''declared organization is not active'' None None
          else (case cs_membership snapshot of
                  None \<Rightarrow> ctx_deny 2 (''no '' @ scope_string (dc_actionScope declared) @
                            '' membership for the principal in the declared tenant'') None (Some True)
                | Some membership \<Rightarrow>
                    if ms_userId membership \<noteq> dc_principalUserId declared
                    then ctx_deny 2 ''resolved membership belongs to a different principal'' None None
                    else if ms_organizationId membership \<noteq> dc_expectedOrganizationId declared
                    then ctx_deny 2 ''resolved membership belongs to a different organization'' None None
                    else if \<not> membershipIsActive dateParse membership (cs_now snapshot)
                    then ctx_deny 2 (''membership is '' @ membership_string (ms_status membership) @
                           '' or outside its validity window'') None None
                    else verify_kind declared membership
                           (verify_group declared snapshot
                             (verify_freshness declared snapshot organization membership))))"

section \<open>Target binding\<close>

record TargetDescriptor =
  td_organizationId :: string
  td_groupId :: "string option"
  td_aggregateType :: string

text \<open>\<open>None\<close> is \<open>{ ok: true }\<close>.\<close>
definition bindTarget :: "RequestContext \<Rightarrow> TargetDescriptor option \<Rightarrow> string \<Rightarrow> bool \<Rightarrow> ContextFailure option" where
  "bindTarget ctx target expectedAggregateType authorizedInDeclaredTenant =
     (let mismatch = (\<lambda>reason. Some \<lparr>cf_code = (if authorizedInDeclaredTenant then CtxTargetMismatch else CtxNotFound),
            cf_step = 6, cf_reason = reason, cf_securityEvent = \<not> authorizedInDeclaredTenant\<rparr>)
      in case target of
           None \<Rightarrow> Some \<lparr>cf_code = CtxNotFound, cf_step = 6, cf_reason = ''target does not resolve'', cf_securityEvent = False\<rparr>
         | Some t \<Rightarrow>
             if td_aggregateType t \<noteq> expectedAggregateType
             then mismatch ''target is not the aggregate type this route operates on''
             else if td_organizationId t \<noteq> rc_expectedOrganizationId ctx
             then mismatch ''target belongs to a different organization''
             else if rc_actionScope ctx = GroupScope \<and> td_groupId t \<noteq> rc_expectedGroupId ctx
             then mismatch ''target belongs to a different group''
             else None)"

section \<open>Resolving the snapshot\<close>

text \<open>A \<open>bigint\<close> counter as a number: past the safe integers it throws.\<close>
definition counter :: "int \<Rightarrow> int result" where
  "counter n =
     (if \<bar>n\<bar> \<le> 9007199254740991 then Inr n
      else Inl (GenericError ''a freshness counter exceeded the safe integer range''))"

definition asActiveStatus :: "string \<Rightarrow> ActiveStatus" where
  "asActiveStatus value = (if value = ''active'' then StatusActive else StatusInactive)"

definition asMemberStatus :: "string \<Rightarrow> MembershipInputStatus" where
  "asMemberStatus value =
     (if value = ''invited'' then MemInvited else if value = ''active'' then MemActive
      else if value = ''suspended'' then MemSuspended else MemEnded)"

definition asPrincipalStatus :: "string \<Rightarrow> PrincipalStatus" where
  "asPrincipalStatus value = (if value = ''active'' then PrincipalActive else PrincipalDeactivated)"

definition membership_snapshot :: "MembershipRow \<Rightarrow> MembershipSnapshot" where
  "membership_snapshot r =
     \<lparr>ms_id = mbr_id r, ms_kind = (if mbr_kind r = ''organization'' then OrganizationKind else GroupKind),
      ms_organizationId = mbr_organization_id r, ms_groupId = mbr_group_id r, ms_userId = mbr_user_id r,
      ms_status = asMemberStatus (mbr_status r), ms_organizationRole = mbr_organization_role r,
      ms_groupRole = mbr_group_role r, ms_validFrom = instant_or_sentinel (mbr_valid_from r),
      ms_validTo = map_option instant_or_sentinel (mbr_valid_to r)\<rparr>"

definition resolve_membership :: "AuthzTables \<Rightarrow> DeclaredContext \<Rightarrow> MembershipSnapshot option" where
  "resolve_membership tables declared =
     map_option membership_snapshot
       (first_row (\<lambda>r. mbr_user_id r = dc_principalUserId declared \<and>
            mbr_kind r = (if dc_actionScope declared = GroupScope then ''group'' else ''organization'') \<and>
            (if dc_actionScope declared = GroupScope
             then mbr_group_id r \<noteq> None \<and> mbr_group_id r = dc_expectedGroupId declared
             else mbr_group_id r = None))
          (authz_membership_rows tables))"

definition resolveContextSnapshot :: "AuthzTables \<Rightarrow> int \<Rightarrow> DeclaredContext \<Rightarrow> ContextSnapshot result" where
  "resolveContextSnapshot tables now declared =
     (case (case first_row (\<lambda>r. ogr_id r = dc_expectedOrganizationId declared) (organization_rows tables) of
              None \<Rightarrow> Inr None
            | Some r \<Rightarrow> (case counter (ogr_version r) of Inl e \<Rightarrow> Inl e
                | Inr v \<Rightarrow> Inr (Some \<lparr>os_id = ogr_id r, os_status = asActiveStatus (ogr_status r), os_organizationVersion = v\<rparr>))) of
        Inl e \<Rightarrow> Inl e
      | Inr organization \<Rightarrow>
     (case (case dc_expectedGroupId declared of
              None \<Rightarrow> Inr None
            | Some groupId \<Rightarrow>
                (case first_row (\<lambda>r. gpr_id r = groupId) (group_rows tables) of
                   None \<Rightarrow> Inr None
                 | Some r \<Rightarrow> (case counter (gpr_version r) of Inl e \<Rightarrow> Inl e
                     | Inr v \<Rightarrow> Inr (Some \<lparr>gs_id = gpr_id r, gs_organizationId = gpr_organization_id r,
                         gs_status = asActiveStatus (gpr_status r), gs_groupVersion = v\<rparr>)))) of
        Inl e \<Rightarrow> Inl e
      | Inr grp \<Rightarrow>
     (let membership = resolve_membership tables declared in
      case (case first_row (\<lambda>r. usr_id r = dc_principalUserId declared) (user_rows tables) of
              None \<Rightarrow> Inr None
            | Some r \<Rightarrow> (case counter (usr_membership_set_version r) of Inl e \<Rightarrow> Inl e
                | Inr v \<Rightarrow> (case counter (usr_session_epoch r) of Inl e \<Rightarrow> Inl e
                    | Inr epoch \<Rightarrow> Inr (Some \<lparr>ps_id = usr_id r, ps_status = asPrincipalStatus (usr_status r),
                        ps_membershipSetVersion = v, ps_sessionEpoch = epoch\<rparr>)))) of
        Inl e \<Rightarrow> Inl e
      | Inr acting \<Rightarrow>
          Inr \<lparr>cs_organization = organization, cs_group = grp, cs_membership = membership, cs_principal = acting,
               cs_now = toISOString now\<rparr>)))"

end
