(* ===== verification/AuthzLoad.thy ===== *)
theory AuthzLoad
  imports RequestContext AuthzOracle
begin

text \<open>
  \<open>apps/api/src/authz/\<close>: the snapshot read from the tables (\<open>load-policy-input.ts\<close>), the evaluation every surface
  calls and the response to a denial (\<open>authorize-request.ts\<close>), and the provisioning of an organization's roles and
  entitlements (\<open>provisioning.ts\<close>).
\<close>

section \<open>The entitlement in force\<close>

definition entitlement_in_force :: "date_parse \<Rightarrow> int \<Rightarrow> EntitlementInput \<Rightarrow> bool" where
  "entitlement_in_force dateParse instant row =
     (case dateParse (en_effectiveFrom row) of
        None \<Rightarrow> False
      | Some from \<Rightarrow>
          if instant < from then False
          else (case en_effectiveTo row of
                  None \<Rightarrow> True
                | Some till \<Rightarrow> (case dateParse till of None \<Rightarrow> False | Some bound \<Rightarrow> instant < bound)))"

definition head_of :: "'a list \<Rightarrow> 'a option" where
  "head_of xs = (case xs of [] \<Rightarrow> None | x # _ \<Rightarrow> Some x)"

definition parsed_from :: "date_parse \<Rightarrow> EntitlementInput \<Rightarrow> int" where
  "parsed_from dateParse row = (case dateParse (en_effectiveFrom row) of None \<Rightarrow> 0 | Some t \<Rightarrow> t)"

text \<open>
  The two sorts by descending start are of rows whose start can be read. The last is not: where a start is \<open>NaN\<close> the
  comparator is inconsistent and the order is the host's, so \<open>hostFirst\<close> gives the row it puts first.
\<close>
definition pickEntitlementInForce ::
  "date_parse \<Rightarrow> (EntitlementInput list \<Rightarrow> EntitlementInput option) \<Rightarrow> EntitlementInput list \<Rightarrow> int \<Rightarrow> EntitlementInput option" where
  "pickEntitlementInForce dateParse hostFirst rows now =
     (if rows = [] then None
      else
        (let inForce = filter (entitlement_in_force dateParse now) rows in
         if inForce \<noteq> [] then head_of (sort_key (\<lambda>r. - parsed_from dateParse r) inForce)
         else
           (let ended = filter (\<lambda>r. case dateParse (en_effectiveFrom r) of None \<Rightarrow> False | Some from \<Rightarrow> from \<le> now) rows in
            if ended \<noteq> [] then head_of (sort_key (\<lambda>r. - parsed_from dateParse r) ended)
            else if list_all (\<lambda>r. dateParse (en_effectiveFrom r) \<noteq> None) rows
            then head_of (sort_key (parsed_from dateParse) rows)
            else hostFirst rows)))"

section \<open>The snapshot\<close>

definition asMembershipStatus :: "string \<Rightarrow> MembershipInputStatus" where
  "asMembershipStatus value =
     (if value = ''invited'' then MemInvited else if value = ''active'' then MemActive
      else if value = ''suspended'' then MemSuspended else MemEnded)"

definition asEntitlementState :: "string \<Rightarrow> EntitlementState" where
  "asEntitlementState value =
     (if value = ''trial'' then EntTrial else if value = ''active'' then EntActive
      else if value = ''suspended'' then EntSuspended else EntRevoked)"

text \<open>The rows of one module the query returns, as the loader keys them.\<close>
definition entitlement_candidates :: "AuthzTables \<Rightarrow> string \<Rightarrow> ModuleKey \<Rightarrow> EntitlementInput list" where
  "entitlement_candidates tables organizationId key =
     map (\<lambda>r. \<lparr>en_moduleKey = key, en_state = asEntitlementState (etr_state r),
               en_effectiveFrom = instant_or_sentinel (etr_effective_from r),
               en_effectiveTo = map_option instant_or_sentinel (etr_effective_to r)\<rparr>)
       (sort_key (\<lambda>r. stored_key (etr_effective_from r))
         (filter (\<lambda>r. etr_organization_id r = organizationId \<and> etr_module_key r = module_string key)
            (entitlement_rows tables)))"

definition kind_matches :: "EvaluationContext \<Rightarrow> bool \<Rightarrow> MembershipRow \<Rightarrow> bool" where
  "kind_matches ctx groupScoped r \<longleftrightarrow>
     mbr_kind r = (if groupScoped then ''group'' else ''organization'') \<and>
     mbr_user_id r = ec_principalUserId ctx \<and> mbr_organization_id r = ec_expectedOrganizationId ctx \<and>
     (if groupScoped then mbr_group_id r = ec_expectedGroupId ctx else mbr_group_id r = None)"

definition membership_input :: "bool \<Rightarrow> MembershipRow \<Rightarrow> MembershipInput" where
  "membership_input groupScoped r =
     \<lparr>mi_id = mbr_id r, mi_status = asMembershipStatus (mbr_status r),
      mi_roleId = (if groupScoped then mbr_group_role r else mbr_organization_role r),
      mi_validFrom = instant_or_sentinel (mbr_valid_from r),
      mi_validTo = map_option instant_or_sentinel (mbr_valid_to r)\<rparr>"

text \<open>The acting membership, if it is of the scope's kind.\<close>
definition load_membership :: "AuthzTables \<Rightarrow> EvaluationContext \<Rightarrow> bool \<Rightarrow> MembershipInput option" where
  "load_membership tables ctx groupScoped =
     (case first_row (\<lambda>r. mbr_id r = ec_membershipId ctx) (authz_membership_rows tables) of
        None \<Rightarrow> None
      | Some r \<Rightarrow> if \<not> kind_matches ctx groupScoped r then None else Some (membership_input groupScoped r))"

text \<open>The role a key names and the capabilities of its row.\<close>
definition load_role :: "AuthzTables \<Rightarrow> string \<Rightarrow> bool \<Rightarrow> string option \<Rightarrow> RoleInput option \<times> string list" where
  "load_role tables organizationId groupScoped roleKey =
     (case roleKey of
        None \<Rightarrow> (None, [])
      | Some key \<Rightarrow>
          (case first_row (\<lambda>r. rlr_organization_id r = organizationId \<and>
                  rlr_scope r = (if groupScoped then ''group'' else ''organization'') \<and> rlr_key r = key \<and>
                  rlr_status r = ''active'') (role_rows tables) of
             None \<Rightarrow> (None, [])
           | Some r \<Rightarrow>
               (Some \<lparr>ri_id = rlr_key r, ri_isSystemRole = rlr_is_system_role r\<rparr>,
                map rcr_capability_key
                  (filter (\<lambda>c. rcr_organization_id c = organizationId \<and> rcr_role_id c = rlr_id r)
                     (role_capability_rows tables)))))"

definition loadPolicyInput ::
  "date_parse \<Rightarrow> (EntitlementInput list \<Rightarrow> EntitlementInput option) \<Rightarrow> AuthzTables \<Rightarrow> EvaluationContext \<Rightarrow> ActionInput \<Rightarrow>
     TargetInput option \<Rightarrow> int \<Rightarrow> PolicyInput" where
  "loadPolicyInput dateParse hostFirst tables ctx action target now =
     (let groupScoped = (ac_scope action = GroupScope);
          organizationId = ec_expectedOrganizationId ctx;
          inForce = (\<lambda>key. pickEntitlementInForce dateParse hostFirst (entitlement_candidates tables organizationId key) now);
          membership = load_membership tables ctx groupScoped;
          roleKey = (case membership of None \<Rightarrow> None | Some m \<Rightarrow> mi_roleId m);
          role = load_role tables organizationId groupScoped roleKey
      in \<lparr>pi_context = ctx,
          pi_organization = map_option (\<lambda>r. \<lparr>tn_id = ogr_id r, tn_status = asActiveStatus (ogr_status r)\<rparr>)
            (first_row (\<lambda>r. ogr_id r = organizationId) (organization_rows tables)),
          pi_group = (if groupScoped then
              (case ec_expectedGroupId ctx of None \<Rightarrow> None
               | Some groupId \<Rightarrow> map_option (\<lambda>r. \<lparr>tn_id = gpr_id r, tn_status = asActiveStatus (gpr_status r)\<rparr>)
                   (first_row (\<lambda>r. gpr_id r = groupId) (group_rows tables))) else None),
          pi_entitlement = inForce (ac_moduleKey action),
          pi_moduleDependencies = map (\<lambda>key. (key, inForce key))
            (filter (\<lambda>key. key \<noteq> ac_moduleKey action) (moduleClosure (ac_moduleKey action))),
          pi_availability = (if groupScoped then
              (case ec_expectedGroupId ctx of None \<Rightarrow> None
               | Some groupId \<Rightarrow> map_option (\<lambda>r. \<lparr>av_moduleKey = ac_moduleKey action, av_available = avr_available r\<rparr>)
                   (first_row (\<lambda>r. avr_group_id r = groupId \<and> avr_module_key r = module_string (ac_moduleKey action))
                      (availability_rows tables))) else None),
          pi_membership = (if groupScoped then membership else None),
          pi_role = (if groupScoped then fst role else None),
          pi_roleCapabilities = (if groupScoped then snd role else []),
          pi_organizationMembership = (if groupScoped then None else membership),
          pi_organizationRole = (if groupScoped then None else fst role),
          pi_organizationRoleCapabilities = (if groupScoped then [] else snd role),
          pi_grants = map (\<lambda>g. \<lparr>gi_capabilityKey = gtr_capability_key g, gi_granted = gtr_granted g,
              gi_validFrom = instant_or_sentinel (gtr_valid_from g),
              gi_validTo = map_option instant_or_sentinel (gtr_valid_to g)\<rparr>)
            (filter (\<lambda>g. gtr_organization_id g = organizationId \<and> gtr_membership_id g = ec_membershipId ctx)
               (grant_rows tables)),
          pi_proxy = None, pi_impersonation = None, pi_target = target, pi_action = action,
          pi_now = toISOString now\<rparr>)"

section \<open>The evaluation of a request\<close>

definition evaluationContextOf :: "RequestContext \<Rightarrow> EvaluationContext" where
  "evaluationContextOf ctx = \<lparr>ec_principalUserId = rc_principalUserId ctx,
     ec_expectedOrganizationId = rc_expectedOrganizationId ctx, ec_expectedGroupId = rc_expectedGroupId ctx,
     ec_membershipId = rc_membershipId ctx\<rparr>"

record RequestVerdict =
  rv_decision :: Decision
  rv_authorizedInDeclaredTenant :: bool

definition evaluateAction ::
  "date_parse \<Rightarrow> (EntitlementInput list \<Rightarrow> EntitlementInput option) \<Rightarrow> AuthzTables \<Rightarrow> EvaluationContext \<Rightarrow> ActionInput \<Rightarrow>
     TargetInput option \<Rightarrow> int \<Rightarrow> RequestVerdict" where
  "evaluateAction dateParse hostFirst tables ctx action target now =
     (let input = loadPolicyInput dateParse hostFirst tables ctx action target now;
          decision = authorize dateParse input
      in \<lparr>rv_decision = decision,
          rv_authorizedInDeclaredTenant =
            (if passedCapabilityLayer decision then True
             else is_allowed (authorizeWithoutObjectPolicy dateParse input))\<rparr>)"

text \<open>The status of the response; the log line is not modelled.\<close>
definition respondToDenial :: "Decision \<Rightarrow> nat result" where
  "respondToDenial decision =
     (case decision of
        AllowVia _ \<Rightarrow> Inl (GenericError ''respondToDenial called with an ALLOW - the caller has inverted a branch'')
      | DenyWith d \<Rightarrow> Inr (if denialDisclosure (dn_reason d) = DiscloseForbidden then 403 else 404))"

section \<open>Provisioning\<close>

definition hex_value :: "char \<Rightarrow> nat" where
  "hex_value c = (let n = of_char c :: nat in if n < 58 then n - 48 else n - 87)"

text \<open>\<open>sha256\<close> is the hash's lower-case hexadecimal digest.\<close>
definition derivedUuid :: "(string \<Rightarrow> string) \<Rightarrow> string \<Rightarrow> string \<Rightarrow> string" where
  "derivedUuid sha256 organizationId discriminator =
     (let digest = sha256 (organizationId @ [CHR 0x00] @ discriminator);
          variant = ''89ab'' ! (hex_value (digest ! 16) mod 4)
      in take 8 digest @ ''-'' @ take 4 (drop 8 digest) @ ''-4'' @ take 3 (drop 13 digest) @ ''-'' @
         [variant] @ take 3 (drop 17 digest) @ ''-'' @ take 12 (drop 20 digest))"

definition roleId :: "(string \<Rightarrow> string) \<Rightarrow> string \<Rightarrow> string \<Rightarrow> string \<Rightarrow> string" where
  "roleId sha256 organizationId scope key = derivedUuid sha256 organizationId (''role:'' @ scope @ '':'' @ key)"

record ProvisionedRole =
  pr_id :: string
  pr_scope :: CapabilityScope
  pr_key :: string

record ProvisionOptions =
  po_organizationId :: string
  po_entitledModules :: "(ModuleKey \<times> EntitlementState option) list option"
  po_groupIds :: "string list option"

definition provisioned_roles :: "(string \<Rightarrow> string) \<Rightarrow> string \<Rightarrow> ProvisionedRole list" where
  "provisioned_roles sha256 organizationId =
     map (\<lambda>key. \<lparr>pr_id = roleId sha256 organizationId ''group'' key, pr_scope = GroupScope, pr_key = key\<rparr>) SYSTEM_GROUP_ROLES @
     map (\<lambda>key. \<lparr>pr_id = roleId sha256 organizationId ''organization'' key, pr_scope = OrganizationScope, pr_key = key\<rparr>)
       SYSTEM_ORGANIZATION_ROLES"

text \<open>The pairs of one role, each checked against the catalogue and the role's namespace.\<close>
definition role_pair :: "ProvisionedRole \<Rightarrow> string \<Rightarrow> (string \<times> CapabilityScope \<times> string) list result" where
  "role_pair role capabilityKey =
     (case find (\<lambda>c. cd_key c = capabilityKey) CAPABILITIES of
        None \<Rightarrow> Inl (GenericError (''role '' @ pr_key role @ '' claims the unknown capability '' @ capabilityKey @
                  '' - the catalogue and SYSTEM_ROLE_CAPABILITIES have diverged''))
      | Some d \<Rightarrow>
          if cd_scope d \<noteq> pr_scope role
          then Inl (GenericError (''role '' @ pr_key role @ '' is '' @ scope_string (pr_scope role) @ ''-scoped but '' @
                 capabilityKey @ '' is '' @ scope_string (cd_scope d) @ ''-scoped (P-10)''))
          else Inr [(pr_id role, pr_scope role, capabilityKey)])"

definition role_pairs :: "ProvisionedRole list \<Rightarrow> (string \<times> CapabilityScope \<times> string) list result" where
  "role_pairs roles = collect (\<lambda>role. collect (role_pair role) (system_role_capabilities (pr_key role))) roles"

text \<open>
  The rows written: roles, role capabilities, entitlements, availability. \<open>instant\<close> is the database's \<open>now()\<close>, the
  default of \<open>effective_from\<close>; \<open>status\<close> defaults to \<open>active\<close>. Row ids nothing reads are left out.
\<close>
definition provisionAuthorization ::
  "(string \<Rightarrow> string) \<Rightarrow> ProvisionOptions \<Rightarrow> int \<Rightarrow> AuthzTables \<Rightarrow> (ProvisionedRole list \<times> AuthzTables) result" where
  "provisionAuthorization sha256 options instant tables =
     (let organizationId = po_organizationId options;
          entitled = (case po_entitledModules options of
                        Some ms \<Rightarrow> ms
                      | None \<Rightarrow> [(CoreScheduling, None), (OrganizationAdministration, None), (EntitlementsModule, None)]);
          groupIds = (case po_groupIds options of Some gs \<Rightarrow> gs | None \<Rightarrow> []);
          roles = provisioned_roles sha256 organizationId
      in case role_pairs roles of
           Inl e \<Rightarrow> Inl e
         | Inr pairs \<Rightarrow>
             Inr (roles, tables\<lparr>
               role_rows := role_rows tables @ map (\<lambda>r. \<lparr>rlr_id = pr_id r, rlr_organization_id = organizationId,
                  rlr_scope = scope_string (pr_scope r), rlr_key = pr_key r, rlr_status = ''active'',
                  rlr_is_system_role = True\<rparr>) roles,
               role_capability_rows := role_capability_rows tables @ map (\<lambda>(role, _, capability_key).
                  \<lparr>rcr_organization_id = organizationId, rcr_role_id = role, rcr_capability_key = capability_key\<rparr>) pairs,
               entitlement_rows := entitlement_rows tables @ map (\<lambda>(m, state).
                  \<lparr>etr_organization_id = organizationId, etr_module_key = module_string m,
                   etr_state = entitlement_string (case state of None \<Rightarrow> EntActive | Some st \<Rightarrow> st),
                   etr_effective_from = StoredAt instant, etr_effective_to = None\<rparr>) entitled,
               availability_rows := availability_rows tables @ concat (map (\<lambda>groupId. map (\<lambda>(m, _).
                  \<lparr>avr_group_id = groupId, avr_module_key = module_string m, avr_available = True\<rparr>) entitled) groupIds)\<rparr>))"

section \<open>What is picked\<close>

lemma entitlement_in_force_iff:
  "dp nowIso = Some now \<Longrightarrow> entitlement_in_force dp now r \<longleftrightarrow> in_force dp nowIso (en_effectiveFrom r) (en_effectiveTo r)"
  by (auto simp: entitlement_in_force_def in_force_def split: option.splits)

lemma head_of_set: "head_of xs = Some x \<Longrightarrow> x \<in> set xs"
  by (auto simp: head_of_def split: list.splits)

lemma head_of_None [simp]: "head_of xs = None \<longleftrightarrow> xs = []"
  by (auto simp: head_of_def split: list.splits)

lemma sort_key_Nil [simp]: "sort_key f xs = [] \<longleftrightarrow> xs = []"
  by (metis set_empty set_sort)

text \<open>The row picked is one of the rows, and in force when one is.\<close>
lemma pick_member:
  assumes "\<And>rs r. hostFirst rs = Some r \<Longrightarrow> r \<in> set rs" "pickEntitlementInForce dp hostFirst rows now = Some r"
  shows "r \<in> set rows"
  using assms(2) by (auto simp: pickEntitlementInForce_def Let_def dest!: head_of_set assms(1) split: if_splits)

lemma pick_in_force:
  assumes "\<exists>r \<in> set rows. entitlement_in_force dp now r"
  shows "\<exists>r \<in> set rows. pickEntitlementInForce dp hostFirst rows now = Some r \<and> entitlement_in_force dp now r"
proof -
  let ?F = "filter (entitlement_in_force dp now) rows"
  have ne: "rows \<noteq> []" "?F \<noteq> []" using assms by (auto simp: filter_empty_conv)
  then obtain r where r: "head_of (sort_key (\<lambda>r. - parsed_from dp r) ?F) = Some r"
    by (cases "head_of (sort_key (\<lambda>r. - parsed_from dp r) ?F)") auto
  then show ?thesis using ne head_of_set[OF r] by (auto simp: pickEntitlementInForce_def)
qed

lemma pick_None:
  assumes "\<And>rs. rs \<noteq> [] \<Longrightarrow> hostFirst rs \<noteq> None"
  shows "pickEntitlementInForce dp hostFirst rows now = None \<longleftrightarrow> rows = []"
  using assms[of rows] by (auto simp: pickEntitlementInForce_def Let_def filter_empty_conv simp del: not_None_eq)

text \<open>A sort puts some row of a non-empty list first.\<close>
definition sorts_host :: "(EntitlementInput list \<Rightarrow> EntitlementInput option) \<Rightarrow> bool" where
  "sorts_host hostFirst \<longleftrightarrow> (\<forall>rs. case hostFirst rs of None \<Rightarrow> rs = [] | Some r \<Rightarrow> r \<in> set rs)"

lemma sorts_hostD:
  "sorts_host hostFirst \<Longrightarrow> hostFirst rs = Some r \<Longrightarrow> r \<in> set rs"
  "sorts_host hostFirst \<Longrightarrow> rs \<noteq> [] \<Longrightarrow> hostFirst rs \<noteq> None"
  unfolding sorts_host_def by (auto dest!: spec[of _ rs] split: option.splits)

text \<open>The module is entitled by the row picked exactly when a row in force entitles it.\<close>
lemma pick_entitled:
  assumes "sorts_host hostFirst" "dp nowIso = Some now"
    and one: "\<And>r r'. r \<in> set rows \<Longrightarrow> r' \<in> set rows \<Longrightarrow> entitlement_in_force dp now r \<Longrightarrow>
      entitlement_in_force dp now r' \<Longrightarrow> r = r'"
  shows "entitled dp nowIso (pickEntitlementInForce dp hostFirst rows now) \<longleftrightarrow>
    (\<exists>r \<in> set rows. entitlement_in_force dp now r \<and> en_state r \<in> {EntTrial, EntActive})"
proof (cases "\<exists>r \<in> set rows. entitlement_in_force dp now r")
  case True
  then obtain r where r: "r \<in> set rows" "pickEntitlementInForce dp hostFirst rows now = Some r" "entitlement_in_force dp now r"
    using pick_in_force[of rows dp now hostFirst] by blast
  then show ?thesis using one[OF r(1)] entitlement_in_force_iff[where dp = dp and nowIso = nowIso, OF assms(2)]
    unfolding entitled_def r(2) by blast
next
  case False
  have "r \<in> set rows" if "pickEntitlementInForce dp hostFirst rows now = Some r" for r
    using pick_member[OF sorts_hostD(1)[OF assms(1)] that] .
  then show ?thesis using False entitlement_in_force_iff[where dp = dp and nowIso = nowIso, OF assms(2)] unfolding entitled_def by blast
qed

section \<open>The loaded snapshot\<close>

text \<open>\<open>now \<in> [from, to)\<close> of stored bounds: an infinite bound is not read.\<close>
fun stored_in_force :: "int \<Rightarrow> stored_instant \<Rightarrow> stored_instant option \<Rightarrow> bool" where
  "stored_in_force now (StoredAt from) None = (from \<le> now)"
| "stored_in_force now (StoredAt from) (Some (StoredAt till)) = (from \<le> now \<and> now < till)"
| "stored_in_force now _ _ = False"

lemma stored_in_force_iff:
  assumes "dp (toISOString now) = Some now" "reads_stored dp from" "\<And>e. till = Some e \<Longrightarrow> reads_stored dp e"
  shows "in_force dp (toISOString now) (instant_or_sentinel from) (map_option instant_or_sentinel till) \<longleftrightarrow>
    stored_in_force now from till"
proof -
  have f: "dp (instant_or_sentinel from) = (case from of StoredAt t \<Rightarrow> Some t | _ \<Rightarrow> None)"
    by (rule reads_stored_sentinel[OF assms(2)])
  show ?thesis
  proof (cases till)
    case None
    then show ?thesis using f assms(1) by (cases "from") (simp_all add: in_force_def)
  next
    case (Some e)
    then have "dp (instant_or_sentinel e) = (case e of StoredAt t \<Rightarrow> Some t | _ \<Rightarrow> None)"
      using reads_stored_sentinel assms(3) by blast
    then show ?thesis using Some f assms(1) by (cases "from"; cases e) (simp_all add: in_force_def)
  qed
qed

definition module_row :: "string \<Rightarrow> ModuleKey \<Rightarrow> EntitlementRow \<Rightarrow> bool" where
  "module_row organizationId key r \<longleftrightarrow> etr_organization_id r = organizationId \<and> etr_module_key r = module_string key"

text \<open>A row that entitles at an instant, as PostgreSQL stores it.\<close>
definition entitles :: "int \<Rightarrow> EntitlementRow \<Rightarrow> bool" where
  "entitles now r \<longleftrightarrow> stored_in_force now (etr_effective_from r) (etr_effective_to r) \<and> etr_state r \<in> {''trial'', ''active''}"

text \<open>The exclusion constraint of the table and the reading of its bounds.\<close>
definition entitlements_ok :: "date_parse \<Rightarrow> int \<Rightarrow> EntitlementRow list \<Rightarrow> bool" where
  "entitlements_ok dp now rows \<longleftrightarrow>
     list_all (\<lambda>r. reads_stored dp (etr_effective_from r) \<and> (case etr_effective_to r of None \<Rightarrow> True | Some e \<Rightarrow> reads_stored dp e)) rows \<and>
     (\<forall>r \<in> set rows. \<forall>r' \<in> set rows. etr_organization_id r = etr_organization_id r' \<and>
        etr_module_key r = etr_module_key r' \<and> stored_in_force now (etr_effective_from r) (etr_effective_to r) \<and>
        stored_in_force now (etr_effective_from r') (etr_effective_to r') \<longrightarrow> r = r')"

lemma asEntitlementState_entitled:
  "asEntitlementState s \<in> {EntTrial, EntActive} \<longleftrightarrow> s \<in> {''trial'', ''active''}"
  by (simp add: asEntitlementState_def)

text \<open>The row of one module, read at one instant.\<close>
lemma loaded_entitled:
  assumes "sorts_host hostFirst" "dp (toISOString now) = Some now" "entitlements_ok dp now (entitlement_rows T)"
  shows "entitled dp (toISOString now) (pickEntitlementInForce dp hostFirst (entitlement_candidates T org key) now) \<longleftrightarrow>
    (\<exists>r \<in> set (entitlement_rows T). module_row org key r \<and> entitles now r)"
proof -
  define input where "input = (\<lambda>r :: EntitlementRow. \<lparr>en_moduleKey = key, en_state = asEntitlementState (etr_state r),
               en_effectiveFrom = instant_or_sentinel (etr_effective_from r),
               en_effectiveTo = map_option instant_or_sentinel (etr_effective_to r)\<rparr>)"
  have c: "set (entitlement_candidates T org key) = input ` {r \<in> set (entitlement_rows T). module_row org key r}"
    by (simp add: entitlement_candidates_def module_row_def input_def)
  have f: "entitlement_in_force dp now (input r) \<longleftrightarrow> stored_in_force now (etr_effective_from r) (etr_effective_to r)"
    if "r \<in> set (entitlement_rows T)" for r
  proof -
    have "reads_stored dp (etr_effective_from r)" "\<And>e. etr_effective_to r = Some e \<Longrightarrow> reads_stored dp e"
      using assms(3) that by (auto simp: entitlements_ok_def list_all_iff split: option.splits)
    from stored_in_force_iff[where dp = dp, OF assms(2) this]
    show ?thesis unfolding entitlement_in_force_iff[where dp = dp and nowIso = "toISOString now", OF assms(2)]
      by (simp add: input_def)
  qed
  have st: "en_state (input r) \<in> {EntTrial, EntActive} \<longleftrightarrow> etr_state r \<in> {''trial'', ''active''}" for r
    unfolding input_def by (simp only: asEntitlementState_entitled EntitlementInput.select_convs)
  have one: "input r = input r'" if "r \<in> set (entitlement_rows T)" "r' \<in> set (entitlement_rows T)" "module_row org key r"
      "module_row org key r'" "entitlement_in_force dp now (input r)" "entitlement_in_force dp now (input r')" for r r'
  proof -
    have "r = r'" using assms(3) that f unfolding entitlements_ok_def module_row_def by metis
    then show ?thesis by simp
  qed
  have "entitled dp (toISOString now) (pickEntitlementInForce dp hostFirst (entitlement_candidates T org key) now) \<longleftrightarrow>
      (\<exists>r \<in> set (entitlement_candidates T org key). entitlement_in_force dp now r \<and> en_state r \<in> {EntTrial, EntActive})"
    by (rule pick_entitled[where dp = dp and nowIso = "toISOString now", OF assms(1,2)]) (use one in \<open>unfold c, blast\<close>)
  also have "\<dots> \<longleftrightarrow> (\<exists>r \<in> set (entitlement_rows T). module_row org key r \<and> entitles now r)"
    unfolding c entitles_def using f st by auto
  finally show ?thesis .
qed

lemma loaded_fields [simp]:
  "pi_action (loadPolicyInput dp hostFirst T ctx action target now) = action"
  "pi_context (loadPolicyInput dp hostFirst T ctx action target now) = ctx"
  "pi_now (loadPolicyInput dp hostFirst T ctx action target now) = toISOString now"
  "pi_target (loadPolicyInput dp hostFirst T ctx action target now) = target"
  "pi_proxy (loadPolicyInput dp hostFirst T ctx action target now) = None"
  "pi_impersonation (loadPolicyInput dp hostFirst T ctx action target now) = None"
  "pi_entitlement (loadPolicyInput dp hostFirst T ctx action target now) =
     pickEntitlementInForce dp hostFirst
       (entitlement_candidates T (ec_expectedOrganizationId ctx) (ac_moduleKey action)) now"
  "pi_moduleDependencies (loadPolicyInput dp hostFirst T ctx action target now) =
     map (\<lambda>key. (key, pickEntitlementInForce dp hostFirst (entitlement_candidates T (ec_expectedOrganizationId ctx) key) now))
       (filter (\<lambda>key. key \<noteq> ac_moduleKey action) (moduleClosure (ac_moduleKey action)))"
  by (simp_all add: loadPolicyInput_def Let_def)

lemma picked_module:
  assumes "sorts_host hostFirst" "pickEntitlementInForce dp hostFirst (entitlement_candidates T org key) now = Some e"
  shows "en_moduleKey e = key"
  using pick_member[OF sorts_hostD(1)[OF assms(1)] assms(2)] by (auto simp: entitlement_candidates_def)

text \<open>The four rows of L1 on the loaded snapshot, in the terms of the table.\<close>
lemma loaded_module_rows:
  assumes "sorts_host hostFirst" "dp (toISOString now) = Some now" "entitlements_ok dp now (entitlement_rows T)"
  shows "list_all (policy_row dp (loadPolicyInput dp hostFirst T ctx action target now)) [L1_1, L1_2, L1_3, L1_4] \<longleftrightarrow>
    (\<forall>m. (ac_moduleKey action, m) \<in> depends\<^sup>* \<longrightarrow>
       (\<exists>r \<in> set (entitlement_rows T). module_row (ec_expectedOrganizationId ctx) m r \<and> entitles now r))"
proof -
  let ?i = "loadPolicyInput dp hostFirst T ctx action target now"
  let ?own = "ac_moduleKey action"
  let ?pick = "\<lambda>key. pickEntitlementInForce dp hostFirst (entitlement_candidates T (ec_expectedOrganizationId ctx) key) now"
  let ?open = "\<lambda>m. \<exists>r \<in> set (entitlement_rows T). module_row (ec_expectedOrganizationId ctx) m r \<and> entitles now r"
  have e: "entitled dp (toISOString now) (?pick m) \<longleftrightarrow> ?open m" for m
    by (rule loaded_entitled[where dp = dp, OF assms])
  have m: "\<And>key x. ?pick key = Some x \<Longrightarrow> en_moduleKey x = key" by (rule picked_module[OF assms(1)])
  have own: "policy_row dp ?i L1_1 \<and> policy_row dp ?i L1_2 \<and> policy_row dp ?i L1_3 \<longleftrightarrow> ?open ?own"
    unfolding e[symmetric] using m[of ?own] by (auto simp: entitled_def)
  have deps: "policy_row dp ?i L1_4 \<longleftrightarrow> (\<forall>m. (?own, m) \<in> depends\<^sup>* \<and> m \<noteq> ?own \<longrightarrow> ?open m)"
  proof -
    have d: "(k, p) \<in> set (pi_moduleDependencies ?i) \<longleftrightarrow> (?own, k) \<in> depends\<^sup>* \<and> k \<noteq> ?own \<and> p = ?pick k" for k p
      by (auto simp: moduleClosure_set)
    have f: "fst ` set (pi_moduleDependencies ?i) = {k. (?own, k) \<in> depends\<^sup>* \<and> k \<noteq> ?own}"
      by (auto simp: moduleClosure_set image_image)
    show ?thesis unfolding policy_row.simps d f e[symmetric] loaded_fields(1,3) using m by (auto simp: eq_commute)
  qed
  show ?thesis using own deps by (simp del: policy_row.simps) blast
qed

end
