(* ===== verification/AuthzFacts.thy ===== *)
theory AuthzFacts
  imports AuthzLoad
begin

text \<open>
  How the parts of authorization work together: the verified tenant context and the evaluator read the same tables,
  what a target binding tells an actor depends on the evaluator's verdict, and a freshly provisioned organization
  authorizes its members by their roles.
\<close>

section \<open>The verdict and the target\<close>

lemma evaluateAction_decision:
  "rv_decision (evaluateAction dp hostFirst T ctx action target now) =
     authorize dp (loadPolicyInput dp hostFirst T ctx action target now)"
  by (simp add: evaluateAction_def Let_def)

lemma allowed_passed: "is_allowed d \<Longrightarrow> passedCapabilityLayer d"
  by (cases d) simp_all

text \<open>The second evaluation never adds to the first.\<close>
lemma evaluateAction_tenant:
  "rv_authorizedInDeclaredTenant (evaluateAction dp hostFirst T ctx action target now) \<longleftrightarrow>
     passed_below dp (loadPolicyInput dp hostFirst T ctx action target now) 6"
proof -
  let ?i = "loadPolicyInput dp hostFirst T ctx action target now"
  have "is_allowed (authorizeWithoutObjectPolicy dp ?i) \<Longrightarrow> passedCapabilityLayer (authorize dp ?i)"
    using allowed_passed without_object_policy_passed by blast
  then show ?thesis unfolding passedCapabilityLayer_iff[symmetric] by (auto simp: evaluateAction_def Let_def)
qed

text \<open>What a target outside the declared tenant discloses: bound with the verdict of the evaluator on the tables,
  a target that resolves but is of another aggregate or tenant answers \<open>409 CONTEXT_TARGET_MISMATCH\<close> exactly when
  the actor passes every layer up to L4 in the declared tenant, and otherwise the same 404 as a target that does not
  exist, with a security event; a target within the tenant binds.\<close>
theorem target_mismatch_only_to_authorized:
  "(case bindTarget rc target aggregate
       (rv_authorizedInDeclaredTenant (evaluateAction dp hostFirst T (evaluationContextOf rc) action tg now)) of
      None \<Rightarrow> (\<exists>t. target = Some t \<and> td_aggregateType t = aggregate \<and>
          td_organizationId t = rc_expectedOrganizationId rc \<and>
          (rc_actionScope rc = OrganizationScope \<or> td_groupId t = rc_expectedGroupId rc))
    | Some f \<Rightarrow>
        cf_code f = (if target \<noteq> None \<and> passed_below dp (loadPolicyInput dp hostFirst T (evaluationContextOf rc) action tg now) 6
                     then CtxTargetMismatch else CtxNotFound) \<and>
        (cf_securityEvent f \<longleftrightarrow> target \<noteq> None \<and>
           \<not> passed_below dp (loadPolicyInput dp hostFirst T (evaluationContextOf rc) action tg now) 6))"
  unfolding evaluateAction_tenant
  by (cases "rc_actionScope rc") (auto simp: bindTarget_def Let_def split: option.splits)

section \<open>The window of a membership\<close>


section \<open>The verified context and the evaluator\<close>

lemma first_row_Some: "first_row p rows = Some r \<Longrightarrow> r \<in> set rows \<and> p r"
  by (auto simp: first_row_def find_Some_iff)

lemma first_row_unique:
  assumes "distinct (map key rows)" "r \<in> set rows"
  shows "first_row (\<lambda>x. key x = key r) rows = Some r"
  using assms by (induction rows) (auto simp: first_row_def)

lemma asMember_eq: "asMemberStatus s = asMembershipStatus s"
  by (simp add: asMemberStatus_def asMembershipStatus_def)

lemmas verify_defs = verifyDeclaredContext_def verify_kind_def verify_group_def verify_freshness_def ctx_deny_def

text \<open>What a verified context has checked of its snapshot.\<close>
lemma verified:
  assumes "verifyDeclaredContext dp declared snapshot = Inr rc"
  obtains org m where
    "cs_organization snapshot = Some org" "os_id org = dc_expectedOrganizationId declared" "os_status org = StatusActive"
    "cs_membership snapshot = Some m" "ms_userId m = dc_principalUserId declared"
    "ms_organizationId m = dc_expectedOrganizationId declared" "membershipIsActive dp m (cs_now snapshot)"
    "dc_actionScope declared = GroupScope \<longrightarrow> ms_kind m = GroupKind \<and> ms_groupId m = dc_expectedGroupId declared \<and>
       ms_groupRole m \<noteq> None \<and> (\<exists>g. cs_group snapshot = Some g \<and> Some (gs_id g) = dc_expectedGroupId declared \<and>
         gs_organizationId g = dc_expectedOrganizationId declared \<and> gs_status g = StatusActive)"
    "dc_actionScope declared = OrganizationScope \<longrightarrow> ms_kind m = OrganizationKind \<and> ms_groupId m = None \<and>
       ms_organizationRole m \<noteq> None \<and> dc_expectedGroupId declared = None"
    "evaluationContextOf rc = \<lparr>ec_principalUserId = dc_principalUserId declared,
       ec_expectedOrganizationId = dc_expectedOrganizationId declared,
       ec_expectedGroupId = dc_expectedGroupId declared, ec_membershipId = ms_id m\<rparr>"
    "rc_actionScope rc = dc_actionScope declared"
proof -
  obtain org where org: "cs_organization snapshot = Some org"
    using assms by (cases "cs_organization snapshot") (simp_all add: verify_defs)
  obtain m where m: "cs_membership snapshot = Some m"
    using assms org by (cases "cs_membership snapshot") (simp_all add: verify_defs split: if_splits)
  obtain p where p: "cs_principal snapshot = Some p"
    using assms org m by (cases "cs_principal snapshot") (simp_all add: verify_defs split: if_splits option.splits)
  show thesis
    by (rule that[OF org _ _ m])
      (use assms org m p in \<open>auto simp: verify_defs evaluationContextOf_def Let_def split: if_splits option.splits\<close>)
qed

lemma resolved:
  assumes "resolveContextSnapshot T now declared = Inr snapshot"
  shows "cs_now snapshot = toISOString now" "cs_membership snapshot = resolve_membership T declared"
    "map_option (\<lambda>g. (os_id g, os_status g)) (cs_organization snapshot) =
       map_option (\<lambda>r. (ogr_id r, asActiveStatus (ogr_status r)))
         (first_row (\<lambda>r. ogr_id r = dc_expectedOrganizationId declared) (organization_rows T))"
    "map_option (\<lambda>g. (gs_id g, gs_status g)) (cs_group snapshot) =
       (case dc_expectedGroupId declared of None \<Rightarrow> None
        | Some g \<Rightarrow> map_option (\<lambda>r. (gpr_id r, asActiveStatus (gpr_status r))) (first_row (\<lambda>r. gpr_id r = g) (group_rows T)))"
  using assms by (auto simp: resolveContextSnapshot_def Let_def split: option.splits sum.splits)


lemma first_row_None: "first_row p rows = None \<longleftrightarrow> (\<forall>r \<in> set rows. \<not> p r)"
  by (auto simp: first_row_def find_None_iff)

lemma load_role_id: "fst (load_role T org groupScoped (Some key)) = Some r \<Longrightarrow> ri_id r = key"
  by (auto simp: load_role_def dest!: first_row_Some split: option.splits)


lemma loaded_scoped:
  "scoped (loadPolicyInput dp hostFirst T ctx action target now) =
     (let m = load_membership T ctx (ac_scope action = GroupScope);
          role = load_role T (ec_expectedOrganizationId ctx) (ac_scope action = GroupScope)
                   (case m of None \<Rightarrow> None | Some m \<Rightarrow> mi_roleId m)
      in (m, fst role, snd role))"
  by (cases "ac_scope action") (simp_all add: loadPolicyInput_def Let_def)

text \<open>The stored windows of the memberships: finite bounds, read back as they were written.\<close>
definition finite_instant :: "date_parse \<Rightarrow> stored_instant \<Rightarrow> bool" where
  "finite_instant dp v \<longleftrightarrow> (case v of StoredAt t \<Rightarrow> dp (toISOString t) = Some t | _ \<Rightarrow> False)"



text \<open>The acting membership the loader finds is the one the context verified.\<close>
lemma loaded_membership:
  assumes rc: "resolveContextSnapshot T now declared = Inr snapshot" "verifyDeclaredContext dp declared snapshot = Inr rc"
    and ids: "distinct (map mbr_id (authz_membership_rows T))"
    and scope: "ac_scope action = dc_actionScope declared"
  obtains r where "r \<in> set (authz_membership_rows T)"
    "load_membership T (evaluationContextOf rc) (ac_scope action = GroupScope) =
       Some (membership_input (ac_scope action = GroupScope) r)"
    "mbr_id r = ec_membershipId (evaluationContextOf rc)"
    "mi_roleId (membership_input (ac_scope action = GroupScope) r) \<noteq> None"
    "membershipIsActive dp (membership_snapshot r) (toISOString now)"
proof -
  obtain m where v: "cs_membership snapshot = Some m" "ms_userId m = dc_principalUserId declared"
    "ms_organizationId m = dc_expectedOrganizationId declared" "membershipIsActive dp m (cs_now snapshot)"
    "dc_actionScope declared = GroupScope \<longrightarrow> ms_kind m = GroupKind \<and> ms_groupId m = dc_expectedGroupId declared \<and>
       ms_groupRole m \<noteq> None \<and> (\<exists>g. cs_group snapshot = Some g \<and> Some (gs_id g) = dc_expectedGroupId declared \<and>
         gs_organizationId g = dc_expectedOrganizationId declared \<and> gs_status g = StatusActive)"
    "dc_actionScope declared = OrganizationScope \<longrightarrow> ms_kind m = OrganizationKind \<and> ms_groupId m = None \<and>
       ms_organizationRole m \<noteq> None \<and> dc_expectedGroupId declared = None"
    "evaluationContextOf rc = \<lparr>ec_principalUserId = dc_principalUserId declared,
       ec_expectedOrganizationId = dc_expectedOrganizationId declared,
       ec_expectedGroupId = dc_expectedGroupId declared, ec_membershipId = ms_id m\<rparr>"
    by (rule verified[OF rc(2)]) blast
  obtain r where r: "r \<in> set (authz_membership_rows T)"
    "mbr_kind r = (if dc_actionScope declared = GroupScope then ''group'' else ''organization'')"
    "m = membership_snapshot r"
    using v(1) unfolding resolved(2)[OF rc(1)] by (auto simp: resolve_membership_def dest!: first_row_Some)
  have f: "first_row (\<lambda>x. mbr_id x = mbr_id r) (authz_membership_rows T) = Some r"
    by (rule first_row_unique[OF ids r(1)])
  have k: "kind_matches (evaluationContextOf rc) (ac_scope action = GroupScope) r"
    using v(2,3,5,6) r(2,3) scope
    by (cases "dc_actionScope declared") (simp_all add: kind_matches_def v(7) membership_snapshot_def)
  show thesis
  proof (rule that[OF r(1)])
    show id: "mbr_id r = ec_membershipId (evaluationContextOf rc)" using v(7) r(3) by (simp add: membership_snapshot_def)
    show "load_membership T (evaluationContextOf rc) (ac_scope action = GroupScope) =
       Some (membership_input (ac_scope action = GroupScope) r)"
      using f k by (simp add: id load_membership_def)
    show "mi_roleId (membership_input (ac_scope action = GroupScope) r) \<noteq> None"
      using v(5,6) r(3) scope
      by (cases "dc_actionScope declared") (simp_all add: membership_snapshot_def membership_input_def)
    show "membershipIsActive dp (membership_snapshot r) (toISOString now)"
      using v(4) unfolding r(3)[symmetric] resolved(1)[OF rc(1)] .
  qed
qed

text \<open>The organization and the group of a verified context, as the loader reads them.\<close>
lemma loaded_tenant:
  assumes rc: "resolveContextSnapshot T now declared = Inr snapshot" "verifyDeclaredContext dp declared snapshot = Inr rc"
    and scope: "ac_scope action = dc_actionScope declared"
  shows "policy_row dp (loadPolicyInput dp hostFirst T (evaluationContextOf rc) action target now) L0_1"
    and "policy_row dp (loadPolicyInput dp hostFirst T (evaluationContextOf rc) action target now) L0_2"
proof -
  obtain org and m :: MembershipSnapshot where v: "cs_organization snapshot = Some org" "os_id org = dc_expectedOrganizationId declared"
    "os_status org = StatusActive"
    "dc_actionScope declared = GroupScope \<longrightarrow> ms_kind m = GroupKind \<and> ms_groupId m = dc_expectedGroupId declared \<and>
       ms_groupRole m \<noteq> None \<and> (\<exists>g. cs_group snapshot = Some g \<and> Some (gs_id g) = dc_expectedGroupId declared \<and>
         gs_organizationId g = dc_expectedOrganizationId declared \<and> gs_status g = StatusActive)"
    "evaluationContextOf rc = \<lparr>ec_principalUserId = dc_principalUserId declared,
       ec_expectedOrganizationId = dc_expectedOrganizationId declared,
       ec_expectedGroupId = dc_expectedGroupId declared, ec_membershipId = ms_id m\<rparr>"
    by (rule verified[OF rc(2)]) blast
  show "policy_row dp (loadPolicyInput dp hostFirst T (evaluationContextOf rc) action target now) L0_1"
    using resolved(3)[OF rc(1)] v(1-3,5) by (auto simp: loadPolicyInput_def Let_def eq_commute[of "Some _" "map_option _ _"])
  show "policy_row dp (loadPolicyInput dp hostFirst T (evaluationContextOf rc) action target now) L0_2"
    using resolved(4)[OF rc(1)] v(4,5) scope
    by (cases "dc_actionScope declared") (auto simp: loadPolicyInput_def Let_def eq_commute[of "Some _" "map_option _ _"] split: option.splits)
qed



section \<open>An infinite bound of the membership\<close>

text \<open>The tables with other bounds for one membership.\<close>
definition with_window :: "AuthzTables \<Rightarrow> string \<Rightarrow> stored_instant \<Rightarrow> stored_instant option \<Rightarrow> AuthzTables" where
  "with_window T i from till = T\<lparr>authz_membership_rows :=
     map (\<lambda>r. if mbr_id r = i then r\<lparr>mbr_valid_from := from, mbr_valid_to := till\<rparr> else r) (authz_membership_rows T)\<rparr>"

text \<open>A window with an infinite bound, either one, whose finite bound does not exclude the instant.\<close>
definition infinite_window :: "date_parse \<Rightarrow> int \<Rightarrow> stored_instant \<Rightarrow> stored_instant option \<Rightarrow> bool" where
  "infinite_window dp now from till \<longleftrightarrow>
     (from \<in> {StoredNegInfinity, StoredInfinity} \<or> till \<in> {Some StoredNegInfinity, Some StoredInfinity}) \<and>
     (case from of StoredAt t \<Rightarrow> dp (toISOString t) = Some t \<and> t \<le> now | _ \<Rightarrow> True) \<and>
     (case till of Some (StoredAt t) \<Rightarrow> dp (toISOString t) = Some t \<and> now < t | _ \<Rightarrow> True)"

lemma infinite_window_read:
  assumes "infinite_window dp now from till" "dp (toISOString now) = Some now" "dp UNPARSABLE_INSTANT = None"
  shows "\<not> in_force dp (toISOString now) (instant_or_sentinel from) (map_option instant_or_sentinel till)"
    and "ms_status m = MemActive \<Longrightarrow> ms_validFrom m = instant_or_sentinel from \<Longrightarrow>
      ms_validTo m = map_option instant_or_sentinel till \<Longrightarrow> membershipIsActive dp m (toISOString now)"
  using assms
  by (auto simp: infinite_window_def in_force_def membershipIsActive_def instant_or_sentinel_def
      split: stored_instant.splits option.splits)

lemma first_row_map: "(\<And>x. p (f x) = p x) \<Longrightarrow> first_row p (map f xs) = map_option f (first_row p xs)"
  by (induction xs) (simp_all add: first_row_def)

lemma resolve_membership_window:
  "resolve_membership (with_window T i from till) declared = map_option (\<lambda>m. if ms_id m = i
     then m\<lparr>ms_validFrom := instant_or_sentinel from, ms_validTo := map_option instant_or_sentinel till\<rparr> else m)
     (resolve_membership T declared)"
proof -
  let ?f = "\<lambda>r. if mbr_id r = i then r\<lparr>mbr_valid_from := from, mbr_valid_to := till\<rparr> else r"
  have f: "first_row p (authz_membership_rows (with_window T i from till)) = map_option ?f (first_row p (authz_membership_rows T))"
    if "\<And>x. p (?f x) = p x" for p
    unfolding with_window_def using first_row_map[of p ?f, OF that] by simp
  have "membership_snapshot (?f r) = (if ms_id (membership_snapshot r) = i then (membership_snapshot r)
      \<lparr>ms_validFrom := instant_or_sentinel from, ms_validTo := map_option instant_or_sentinel till\<rparr> else membership_snapshot r)" for r
    by (simp add: membership_snapshot_def)
  then show ?thesis
    unfolding resolve_membership_def by (subst f) (simp_all add: option.map_comp comp_def)
qed

lemma resolve_window:
  "resolveContextSnapshot T now declared = Inr snapshot \<Longrightarrow>
     resolveContextSnapshot (with_window T i from till) now declared =
       Inr (snapshot\<lparr>cs_membership := resolve_membership (with_window T i from till) declared\<rparr>)"
  by (auto simp: resolveContextSnapshot_def Let_def with_window_def split: option.splits sum.splits)

lemma verify_window:
  assumes "verifyDeclaredContext dp declared snapshot = Inr rc" "cs_membership snapshot = Some m"
    and "m' = m\<lparr>ms_validFrom := a, ms_validTo := b\<rparr>" "membershipIsActive dp m' (cs_now snapshot)"
  shows "verifyDeclaredContext dp declared (snapshot\<lparr>cs_membership := Some m'\<rparr>) = Inr rc"
proof -
  obtain org where org: "cs_organization snapshot = Some org"
    using assms(1) by (cases "cs_organization snapshot") (simp_all add: verify_defs)
  have active: "membershipIsActive dp m (cs_now snapshot)" by (rule verified[OF assms(1)]) (use assms(2) in simp)
  have same: "verify_kind declared m' rest = verify_kind declared m rest"
    "verify_group declared (snapshot\<lparr>cs_membership := x\<rparr>) rest = verify_group declared snapshot rest"
    "verify_freshness declared (snapshot\<lparr>cs_membership := x\<rparr>) org m' = verify_freshness declared snapshot org m" for rest x
    by (simp_all add: verify_kind_def verify_group_def verify_freshness_def assms(3) cong: option.case_cong if_cong)
  have "ms_userId m' = ms_userId m" "ms_organizationId m' = ms_organizationId m" by (simp_all add: assms(3))
  then show ?thesis
    using assms(1,2,4) org active by (simp add: verifyDeclaredContext_def same split: if_splits)
qed

lemma denied_in_window:
  assumes rows: "list_all (policy_row dp i) [L0_1, L0_2, L3_2]" and l33: "\<not> policy_row dp i L3_3"
  shows "case authorize dp i of
      AllowVia _ \<Rightarrow> False
    | DenyWith d \<Rightarrow> dn_step d \<notin> {L0_1, L0_2, L3_2} \<and>
        (list_all (policy_row dp i) [P_4, L1_1, L1_2, L1_3, L1_4, L2_1, L3_1] \<longrightarrow> dn_step d = L3_3)"
proof (cases "authorize dp i")
  case (AllowVia via)
  then show ?thesis using authorize_Allow[of dp i via L3_3] l33 by blast
next
  case (DenyWith d)
  note deny = authorize_Deny[OF DenyWith]
  then have "layer (dn_step d) \<le> 4" using l33 by (force simp: passed_below_def not_less[symmetric] simp del: policy_row.simps)
  then show ?thesis
    using deny rows DenyWith by (cases "dn_step d") (simp_all del: policy_row.simps)
qed

text \<open>C16: An infinite bound of the membership is refused by the evaluator and not by the context. Take a verified
  context, and give its membership a window with an infinite lower or upper bound (its finite bound, if any, in
  force): the snapshot then carries a sentinel that reads as \<open>NaN\<close>, and a comparison with \<open>NaN\<close> is false. The context is
  resolved and verified as before, with the same result. The evaluator on the same tables still accepts the
  organization, the group and the status of the membership (L0.1, L0.2, L3.2), but L3.3 fails, so it denies every action,
  at L3.3 when the action is in the catalogue, the module is open and available and L3.1 holds.\<close>
theorem unreadable_window_passes_context:
  assumes "resolveContextSnapshot T now declared = Inr snapshot"
    and "verifyDeclaredContext dp declared snapshot = Inr rc"
    and "ac_scope action = dc_actionScope declared"
    and "distinct (map mbr_id (authz_membership_rows T))"
    and "dp (toISOString now) = Some now" "dp UNPARSABLE_INSTANT = None"
    and "infinite_window dp now from till"
    and T': "T' = with_window T (rc_membershipId rc) from till"
  shows "\<exists>snapshot'. resolveContextSnapshot T' now declared = Inr snapshot' \<and>
    verifyDeclaredContext dp declared snapshot' = Inr rc \<and>
    (let i = loadPolicyInput dp hostFirst T' (evaluationContextOf rc) action target now in
      list_all (policy_row dp i) [L0_1, L0_2, L3_2] \<and> \<not> policy_row dp i L3_3 \<and>
      (case authorize dp i of
         AllowVia _ \<Rightarrow> False
       | DenyWith d \<Rightarrow> dn_step d \<notin> {L0_1, L0_2, L3_2} \<and>
           (list_all (policy_row dp i) [P_4, L1_1, L1_2, L1_3, L1_4, L2_1, L3_1] \<longrightarrow> dn_step d = L3_3)))"
proof -
  let ?i = "loadPolicyInput dp hostFirst T' (evaluationContextOf rc) action target now"
  let ?g = "ac_scope action = GroupScope"
  obtain m where m: "cs_membership snapshot = Some m" "membershipIsActive dp m (cs_now snapshot)"
    "ec_membershipId (evaluationContextOf rc) = ms_id m"
    by (rule verified[OF assms(2)]) simp
  have id: "rc_membershipId rc = ms_id m" using m(3) by (simp add: evaluationContextOf_def)
  let ?m' = "m\<lparr>ms_validFrom := instant_or_sentinel from, ms_validTo := map_option instant_or_sentinel till\<rparr>"
  have m': "resolve_membership T' declared = Some ?m'"
    unfolding T' resolve_membership_window using m(1) resolved(2)[OF assms(1)] id by simp
  have "ms_status ?m' = MemActive" using m(2) by (simp add: membershipIsActive_def split: if_splits)
  then have "membershipIsActive dp ?m' (cs_now snapshot)"
    unfolding resolved(1)[OF assms(1)] using infinite_window_read(2)[OF assms(7,5,6), of ?m'] by simp
  from verify_window[OF assms(2) m(1) refl this]
  have verify: "verifyDeclaredContext dp declared (snapshot\<lparr>cs_membership := Some ?m'\<rparr>) = Inr rc" .
  have resolve: "resolveContextSnapshot T' now declared = Inr (snapshot\<lparr>cs_membership := Some ?m'\<rparr>)"
    using resolve_window[OF assms(1)] m' unfolding T' by metis
  have ids: "map mbr_id (authz_membership_rows T') = map mbr_id (authz_membership_rows T)"
    by (simp add: T' with_window_def comp_def)
  obtain r where r: "r \<in> set (authz_membership_rows T')" "mbr_id r = ec_membershipId (evaluationContextOf rc)"
    "load_membership T' (evaluationContextOf rc) ?g = Some (membership_input ?g r)"
    "membershipIsActive dp (membership_snapshot r) (toISOString now)"
    by (rule loaded_membership[OF resolve verify _ assms(3)]) (use ids assms(4) in simp_all)
  have w: "mbr_valid_from r = from" "mbr_valid_to r = till"
    using r(1,2) m(3) id by (auto simp: T' with_window_def split: if_splits)
  have am: "acting_membership ?i = Some (membership_input ?g r)"
    using r(3) by (simp add: acting_membership_def loaded_scoped del: scoped.simps)
  have "asMembershipStatus (mbr_status r) = MemActive"
    using r(4) by (simp add: membershipIsActive_def membership_snapshot_def asMember_eq split: if_splits)
  then have rows: "list_all (policy_row dp ?i) [L0_1, L0_2, L3_2]"
    using loaded_tenant[OF resolve verify assms(3)] am by (simp add: membership_input_def)
  have l33: "\<not> policy_row dp ?i L3_3"
    using am infinite_window_read(1)[OF assms(7,5,6)] w by (simp add: membership_input_def)
  show ?thesis
    using resolve verify rows l33 denied_in_window[OF rows l33] unfolding Let_def by blast
qed

section \<open>A provisioned organization\<close>

definition known_in :: "CapabilityScope \<Rightarrow> string \<Rightarrow> bool" where
  "known_in scope k \<longleftrightarrow> (case find (\<lambda>c. cd_key c = k) CAPABILITIES of None \<Rightarrow> False | Some d \<Rightarrow> cd_scope d = scope)"

text \<open>Every capability of a system role is in the catalogue, in the role's namespace.\<close>
lemma system_roles_known:
  "list_all (\<lambda>key. list_all (known_in GroupScope) (system_role_capabilities key)) SYSTEM_GROUP_ROLES"
  "list_all (\<lambda>key. list_all (known_in OrganizationScope) (system_role_capabilities key)) SYSTEM_ORGANIZATION_ROLES"
  by code_simp+

lemma role_pair_ok:
  assumes "role \<in> set (provisioned_roles sha256 org)" "k \<in> set (system_role_capabilities (pr_key role))"
  shows "role_pair role k = Inr [(pr_id role, pr_scope role, k)]"
proof -
  have "known_in (pr_scope role) k"
    using assms system_roles_known by (auto simp: provisioned_roles_def list_all_iff)
  then show ?thesis by (auto simp: role_pair_def known_in_def split: option.splits)
qed

definition all_pairs :: "ProvisionedRole list \<Rightarrow> (string \<times> CapabilityScope \<times> string) list" where
  "all_pairs roles = concat (map (\<lambda>role. map (\<lambda>k. (pr_id role, pr_scope role, k)) (system_role_capabilities (pr_key role))) roles)"

lemma role_pairs_ok: "role_pairs (provisioned_roles sha256 org) = Inr (all_pairs (provisioned_roles sha256 org))"
  unfolding role_pairs_def all_pairs_def
proof (rule collect_Inr)
  fix role assume r: "role \<in> set (provisioned_roles sha256 org)"
  have "collect (role_pair role) (system_role_capabilities (pr_key role)) =
      Inr (concat (map (\<lambda>k. [(pr_id role, pr_scope role, k)]) (system_role_capabilities (pr_key role))))"
    by (rule collect_Inr) (rule role_pair_ok[OF r])
  then show "collect (role_pair role) (system_role_capabilities (pr_key role)) =
      Inr (map (\<lambda>k. (pr_id role, pr_scope role, k)) (system_role_capabilities (pr_key role)))"
    by simp
qed

lemma first_row_only:
  assumes "x \<in> set xs" "p x" "\<And>y. y \<in> set xs \<Longrightarrow> p y \<Longrightarrow> y = x"
  shows "first_row p xs = Some x"
proof (cases "first_row p xs")
  case None
  then show ?thesis using assms(1,2) by (simp add: first_row_None)
next
  case (Some y)
  then show ?thesis using first_row_Some[OF Some] assms(3) by simp
qed

lemma capabilities_of_pairs:
  "set (map rcr_capability_key (filter (\<lambda>c. rcr_organization_id c = org \<and> rcr_role_id c = i) (map (\<lambda>(role, _, capability_key).
       \<lparr>rcr_organization_id = org, rcr_role_id = role, rcr_capability_key = capability_key\<rparr>) pairs))) =
     {k. \<exists>s. (i, s, k) \<in> set pairs}"
  by (induction pairs) auto

lemma all_pairs_iff:
  "(i, s, k) \<in> set (all_pairs roles) \<longleftrightarrow>
     (\<exists>r \<in> set roles. i = pr_id r \<and> s = pr_scope r \<and> k \<in> set (system_role_capabilities (pr_key r)))"
  by (auto simp: all_pairs_def)

text \<open>No row of the organization is there before it is provisioned.\<close>
definition unprovisioned :: "AuthzTables \<Rightarrow> string \<Rightarrow> string list \<Rightarrow> bool" where
  "unprovisioned T organizationId groupIds \<longleftrightarrow>
     list_all (\<lambda>r. rlr_organization_id r \<noteq> organizationId) (role_rows T) \<and>
     list_all (\<lambda>r. rcr_organization_id r \<noteq> organizationId) (role_capability_rows T) \<and>
     list_all (\<lambda>r. etr_organization_id r \<noteq> organizationId) (entitlement_rows T) \<and>
     list_all (\<lambda>r. avr_group_id r \<notin> set groupIds) (availability_rows T)"

lemma provisioned_role:
  assumes p: "provisionAuthorization sha256 options instant T0 = Inr (roles, T)"
    and fresh: "unprovisioned T0 (po_organizationId options) groups"
    and ids: "distinct (map pr_id (provisioned_roles sha256 (po_organizationId options)))"
    and key: "key \<in> set SYSTEM_GROUP_ROLES"
  shows "\<exists>caps. load_role T (po_organizationId options) True (Some key) = (Some \<lparr>ri_id = key, ri_isSystemRole = True\<rparr>, caps) \<and>
    set caps = set (system_role_capabilities key)"
proof -
  let ?o = "po_organizationId options"
  let ?roles = "provisioned_roles sha256 ?o"
  let ?row = "\<lambda>r. \<lparr>rlr_id = pr_id r, rlr_organization_id = ?o, rlr_scope = scope_string (pr_scope r), rlr_key = pr_key r,
      rlr_status = ''active'', rlr_is_system_role = True\<rparr>"
  have rows: "role_rows T = role_rows T0 @ map ?row ?roles"
    "role_capability_rows T = role_capability_rows T0 @ map (\<lambda>(role, _, capability_key).
       \<lparr>rcr_organization_id = ?o, rcr_role_id = role, rcr_capability_key = capability_key\<rparr>) (all_pairs ?roles)"
    using p by (auto simp: provisionAuthorization_def role_pairs_ok Let_def)
  define role where "role = \<lparr>pr_id = roleId sha256 ?o ''group'' key, pr_scope = GroupScope, pr_key = key\<rparr>"
  have role: "role \<in> set ?roles" using key by (simp add: role_def provisioned_roles_def)
  have only: "r = role" if "r \<in> set ?roles" "pr_scope r = GroupScope" "pr_key r = key" for r
    using that by (auto simp: role_def provisioned_roles_def)
  have found: "first_row (\<lambda>r. rlr_organization_id r = ?o \<and> rlr_scope r = ''group'' \<and> rlr_key r = key \<and> rlr_status r = ''active'')
      (role_rows T) = Some (?row role)"
  proof (rule first_row_only)
    show "?row role \<in> set (role_rows T)" using role by (simp add: rows)
    show "rlr_organization_id (?row role) = ?o \<and> rlr_scope (?row role) = ''group'' \<and> rlr_key (?row role) = key \<and>
        rlr_status (?row role) = ''active''"
      by (simp add: role_def)
    fix y assume y: "y \<in> set (role_rows T)"
      "rlr_organization_id y = ?o \<and> rlr_scope y = ''group'' \<and> rlr_key y = key \<and> rlr_status y = ''active''"
    then have "y \<in> ?row ` set ?roles" using fresh by (auto simp: rows unprovisioned_def list_all_iff)
    then obtain r where r: "r \<in> set ?roles" "y = ?row r" by blast
    have "pr_scope r = GroupScope" using y(2) r(2) by (cases "pr_scope r") simp_all
    then show "y = ?row role" using only[OF r(1)] y(2) r(2) by simp
  qed
  have same: "r = role" if "r \<in> set ?roles" "pr_id r = pr_id role" for r
    using ids that role by (meson distinct_map inj_onD)
  have old: "filter (\<lambda>c. rcr_organization_id c = ?o \<and> rcr_role_id c = pr_id role) (role_capability_rows T0) = []"
    using fresh by (auto simp: unprovisioned_def list_all_iff filter_empty_conv)
  have "set (map rcr_capability_key (filter (\<lambda>c. rcr_organization_id c = ?o \<and> rcr_role_id c = pr_id role) (role_capability_rows T))) =
      {k. \<exists>s. (pr_id role, s, k) \<in> set (all_pairs ?roles)}"
    unfolding rows(2) filter_append old append_Nil by (rule capabilities_of_pairs)
  also have "\<dots> = set (system_role_capabilities (pr_key role))"
  proof (intro set_eqI iffI)
    fix k assume "k \<in> {k. \<exists>s. (pr_id role, s, k) \<in> set (all_pairs ?roles)}"
    then obtain r where "r \<in> set ?roles" "pr_id role = pr_id r" "k \<in> set (system_role_capabilities (pr_key r))"
      unfolding all_pairs_iff mem_Collect_eq by (elim exE bexE conjE)
    then show "k \<in> set (system_role_capabilities (pr_key role))" using same[of r] by simp
  next
    fix k assume "k \<in> set (system_role_capabilities (pr_key role))"
    then show "k \<in> {k. \<exists>s. (pr_id role, s, k) \<in> set (all_pairs ?roles)}"
      unfolding all_pairs_iff mem_Collect_eq by (intro exI[of _ "pr_scope role"] bexI[OF _ role] conjI refl)
  qed
  finally show ?thesis using found by (simp add: load_role_def role_def)
qed

text \<open>The modules the options entitle, each with its state, and those whose state is a trial or active.\<close>
definition provisioned_modules :: "ProvisionOptions \<Rightarrow> (ModuleKey \<times> EntitlementState option) list" where
  "provisioned_modules options = (case po_entitledModules options of
     Some ms \<Rightarrow> ms
   | None \<Rightarrow> [(CoreScheduling, None), (OrganizationAdministration, None), (EntitlementsModule, None)])"

definition entitled_modules :: "ProvisionOptions \<Rightarrow> ModuleKey list" where
  "entitled_modules options =
     map fst (filter (\<lambda>(_, state). state \<in> {None, Some EntTrial, Some EntActive}) (provisioned_modules options))"

text \<open>The module and every module it transitively depends on.\<close>
definition module_opened :: "ProvisionOptions \<Rightarrow> ModuleKey \<Rightarrow> bool" where
  "module_opened options key \<longleftrightarrow> set (moduleClosure key) \<subseteq> set (entitled_modules options)"

lemma provisioned_rows:
  assumes "provisionAuthorization sha256 options instant T0 = Inr (roles, T)"
  shows "entitlement_rows T = entitlement_rows T0 @ map (\<lambda>(m, state).
      \<lparr>etr_organization_id = po_organizationId options, etr_module_key = module_string m,
       etr_state = entitlement_string (case state of None \<Rightarrow> EntActive | Some st \<Rightarrow> st),
       etr_effective_from = StoredAt instant, etr_effective_to = None\<rparr>) (provisioned_modules options)"
    and "availability_rows T = availability_rows T0 @ concat (map (\<lambda>groupId. map (\<lambda>(m, _).
       \<lparr>avr_group_id = groupId, avr_module_key = module_string m, avr_available = True\<rparr>) (provisioned_modules options))
       (case po_groupIds options of Some gs \<Rightarrow> gs | None \<Rightarrow> []))"
  using assms by (auto simp: provisionAuthorization_def role_pairs_ok Let_def provisioned_modules_def)

lemma entitled_state:
  "entitlement_string (case state of None \<Rightarrow> EntActive | Some st \<Rightarrow> st) \<in> {''trial'', ''active''} \<longleftrightarrow>
     state \<in> {None, Some EntTrial, Some EntActive}"
  by (cases state; cases "the state") simp_all

lemma provisioned_entitlement:
  assumes p: "provisionAuthorization sha256 options instant T0 = Inr (roles, T)"
    and fresh: "unprovisioned T0 (po_organizationId options) groups" and "instant \<le> now"
  shows "(\<exists>r \<in> set (entitlement_rows T). module_row (po_organizationId options) m r \<and> entitles now r) \<longleftrightarrow>
    m \<in> set (entitled_modules options)"
proof -
  let ?row = "\<lambda>(m, state). \<lparr>etr_organization_id = po_organizationId options, etr_module_key = module_string m,
       etr_state = entitlement_string (case state of None \<Rightarrow> EntActive | Some st \<Rightarrow> st),
       etr_effective_from = StoredAt instant, etr_effective_to = None\<rparr>"
  have row: "module_row (po_organizationId options) m (?row x) \<and> entitles now (?row x) \<longleftrightarrow>
      fst x = m \<and> snd x \<in> {None, Some EntTrial, Some EntActive}" for x
    using assms(3) entitled_state[of "snd x"]
    by (cases x) (auto simp: module_row_def entitles_def)
  have "\<not> module_row (po_organizationId options) m r" if "r \<in> set (entitlement_rows T0)" for r
    using fresh that by (auto simp: unprovisioned_def list_all_iff module_row_def)
  then have "(\<exists>r \<in> set (entitlement_rows T). module_row (po_organizationId options) m r \<and> entitles now r) \<longleftrightarrow>
      (\<exists>x \<in> set (provisioned_modules options). module_row (po_organizationId options) m (?row x) \<and> entitles now (?row x))"
    unfolding provisioned_rows(1)[OF p] set_append set_map by blast
  also have "\<dots> \<longleftrightarrow> m \<in> set (entitled_modules options)"
    unfolding row by (force simp: entitled_modules_def)
  finally show ?thesis .
qed

lemma provisioned_available:
  assumes p: "provisionAuthorization sha256 options instant T0 = Inr (roles, T)"
    and groups: "po_groupIds options = Some groups" "grp \<in> set groups"
    and fresh: "unprovisioned T0 (po_organizationId options) groups" and m: "m \<in> set (entitled_modules options)"
  shows "\<exists>r. first_row (\<lambda>r. avr_group_id r = grp \<and> avr_module_key r = module_string m) (availability_rows T) = Some r \<and>
    avr_available r"
proof -
  let ?row = "\<lparr>avr_group_id = grp, avr_module_key = module_string m, avr_available = True\<rparr>"
  have "first_row (\<lambda>r. avr_group_id r = grp \<and> avr_module_key r = module_string m) (availability_rows T) = Some ?row"
  proof (rule first_row_only)
    show "?row \<in> set (availability_rows T)" using groups m by (force simp: provisioned_rows(2)[OF p] entitled_modules_def)
    show "avr_group_id ?row = grp \<and> avr_module_key ?row = module_string m" by simp
    fix y assume "y \<in> set (availability_rows T)" "avr_group_id y = grp \<and> avr_module_key y = module_string m"
    then show "y = ?row" using fresh groups by (auto simp: provisioned_rows(2)[OF p] unprovisioned_def list_all_iff)
  qed
  then show ?thesis by simp
qed

lemma core_depends: "(CoreScheduling, m) \<in> depends\<^sup>* \<longleftrightarrow> m = CoreScheduling"
  using moduleClosure_set[of CoreScheduling] by (auto simp: moduleClosure_values)

text \<open>
  The rows of an active organization, group and membership, beside the provisioned ones: the acting membership holds
  the role and has no grants of its own.
\<close>
definition staffed :: "date_parse \<Rightarrow> int \<Rightarrow> AuthzTables \<Rightarrow> EvaluationContext \<Rightarrow> string \<Rightarrow> bool" where
  "staffed dp now T ctx role \<longleftrightarrow>
     (case first_row (\<lambda>r. ogr_id r = ec_expectedOrganizationId ctx) (organization_rows T) of
        None \<Rightarrow> False | Some r \<Rightarrow> ogr_status r = ''active'') \<and>
     (case ec_expectedGroupId ctx of None \<Rightarrow> False
      | Some g \<Rightarrow> (case first_row (\<lambda>r. gpr_id r = g) (group_rows T) of None \<Rightarrow> False | Some r \<Rightarrow> gpr_status r = ''active'')) \<and>
     (case first_row (\<lambda>r. mbr_id r = ec_membershipId ctx) (authz_membership_rows T) of
        None \<Rightarrow> False
      | Some r \<Rightarrow> kind_matches ctx True r \<and> mbr_status r = ''active'' \<and> mbr_group_role r = Some role \<and>
          withinWindow dp (toISOString now) (instant_or_sentinel (mbr_valid_from r)) (map_option instant_or_sentinel (mbr_valid_to r))) \<and>
     list_all (\<lambda>g. gtr_membership_id g \<noteq> ec_membershipId ctx) (grant_rows T)"

lemma staffed_rows:
  fixes hostFirst :: "EntitlementInput list \<Rightarrow> EntitlementInput option" and target :: "TargetInput option"
  assumes "staffed dp now T ctx role" "ac_scope action = GroupScope"
  defines "i \<equiv> loadPolicyInput dp hostFirst T ctx action target now"
  shows "policy_row dp i L0_1" "policy_row dp i L0_2" "policy_row dp i L3_2" "policy_row dp i L3_3"
    "policy_row dp i L3_1" "policy_row dp i L4_1" "policy_row dp i L6_1" "policy_row dp i L6_2"
    "granted dp i k \<longleftrightarrow> False"
    "role_capabilities i = (case load_role T (ec_expectedOrganizationId ctx) True (Some role) of
       (None, caps) \<Rightarrow> [] | (Some _, caps) \<Rightarrow> caps)"
proof -
  obtain org where o: "first_row (\<lambda>r. ogr_id r = ec_expectedOrganizationId ctx) (organization_rows T) = Some org"
    "ogr_status org = ''active''"
    using assms(1) by (auto simp: staffed_def split: option.splits)
  obtain g gr where g: "ec_expectedGroupId ctx = Some g" "first_row (\<lambda>r. gpr_id r = g) (group_rows T) = Some gr"
    "gpr_status gr = ''active''"
    using assms(1) by (auto simp: staffed_def split: option.splits)
  obtain r where r: "first_row (\<lambda>r. mbr_id r = ec_membershipId ctx) (authz_membership_rows T) = Some r"
    "kind_matches ctx True r" "mbr_status r = ''active''" "mbr_group_role r = Some role"
    "in_force dp (toISOString now) (instant_or_sentinel (mbr_valid_from r)) (map_option instant_or_sentinel (mbr_valid_to r))"
    using assms(1) by (auto simp: staffed_def withinWindow_iff split: option.splits)
  have "filter (\<lambda>g. gtr_organization_id g = ec_expectedOrganizationId ctx \<and> gtr_membership_id g = ec_membershipId ctx)
      (grant_rows T) = []"
    using assms(1) by (auto simp: staffed_def list_all_iff filter_empty_conv)
  then have gs: "pi_grants i = []" by (simp add: i_def loadPolicyInput_def Let_def)
  have m: "load_membership T ctx True = Some (membership_input True r)" using r(1,2) by (simp add: load_membership_def)
  have am: "acting_membership i = Some (membership_input True r)"
    using m assms(2) by (simp add: acting_membership_def i_def loaded_scoped del: scoped.simps)
  have ar: "acting_role i = fst (load_role T (ec_expectedOrganizationId ctx) True (Some role))"
    using m assms(2) r(4) by (simp add: acting_role_def i_def loaded_scoped membership_input_def del: scoped.simps)
  have sc: "snd (snd (scoped i)) = snd (load_role T (ec_expectedOrganizationId ctx) True (Some role))"
    using m assms(2) r(4) by (simp add: i_def loaded_scoped membership_input_def del: scoped.simps)
  show "policy_row dp i L0_1" using o first_row_Some[OF o(1)] by (simp add: i_def loadPolicyInput_def Let_def asActiveStatus_def)
  show "policy_row dp i L0_2"
    using g first_row_Some[OF g(2)] assms(2) by (simp add: i_def loadPolicyInput_def Let_def asActiveStatus_def)
  show "policy_row dp i L3_2" using r(3) by (simp add: am membership_input_def asMembershipStatus_def)
  show "policy_row dp i L3_3" using r(5) by (simp add: am[unfolded i_def] membership_input_def i_def)
  have "mi_id (membership_input True r) = ec_membershipId ctx" using first_row_Some[OF r(1)] by (simp add: membership_input_def)
  moreover have "mi_roleId (membership_input True r) = Some role" using r(4) by (simp add: membership_input_def)
  ultimately show "policy_row dp i L3_1"
    using load_role_id[of T "ec_expectedOrganizationId ctx" True role] assms(2)
    by (auto simp: am[unfolded i_def] ar[unfolded i_def] i_def split: option.split)
  show "policy_row dp i L4_1" by (simp add: denied_def gs)
  show "policy_row dp i L6_1" "policy_row dp i L6_2" by (simp_all add: i_def)
  show "granted dp i k \<longleftrightarrow> False" by (simp add: granted_def gs)
  show "role_capabilities i = (case load_role T (ec_expectedOrganizationId ctx) True (Some role) of
       (None, caps) \<Rightarrow> [] | (Some _, caps) \<Rightarrow> caps)"
    unfolding role_capabilities_def sc ar by (simp split: prod.split option.split)
qed

text \<open>The rows of the snapshot loaded for such a member.\<close>
lemma provisioned_member_rows:
  fixes target :: "TargetInput option"
  assumes p: "provisionAuthorization sha256 options instant T0 = Inr (roles, P)"
    and opts: "po_groupIds options = Some groups" "grp \<in> set groups"
    and fresh: "unprovisioned T0 (po_organizationId options) groups"
    and ids: "distinct (map pr_id (provisioned_roles sha256 (po_organizationId options)))"
    and later: "T = P\<lparr>organization_rows := orgs, group_rows := grps, authz_membership_rows := mems, grant_rows := grants\<rparr>"
    and ctx: "ec_expectedOrganizationId ctx = po_organizationId options" "ec_expectedGroupId ctx = Some grp"
    and staff: "staffed dp now T ctx role" "role \<in> set SYSTEM_GROUP_ROLES"
    and host: "sorts_host hostFirst" "dp (toISOString now) = Some now" "entitlements_ok dp now (entitlement_rows T)" "instant \<le> now"
    and action: "capabilityDefinition (ac_key action) =
        Some \<lparr>cd_key = ac_key action, cd_scope = GroupScope, cd_module = ac_moduleKey action\<rparr>"
      "ac_scope action = GroupScope" "\<not> ac_requiresObjectPolicy action"
  defines "i \<equiv> loadPolicyInput dp hostFirst T ctx action target now"
  shows "list_all (policy_row dp i) [P_4, L0_1, L0_2]"
    and "list_all (policy_row dp i) [L1_1, L1_2, L1_3, L1_4] \<longleftrightarrow> module_opened options (ac_moduleKey action)"
    and "module_opened options (ac_moduleKey action) \<Longrightarrow> x \<noteq> L4_2 \<Longrightarrow> policy_row dp i x"
    and "policy_row dp i L4_2 \<longleftrightarrow> ac_key action \<in> set (system_role_capabilities role)"
    and "\<not> granted dp i (ac_key action)"
proof -
  let ?i = "loadPolicyInput dp hostFirst T ctx action target now"
  let ?open = "module_opened options (ac_moduleKey action)"
  note s = staffed_rows[where hostFirst = hostFirst and target = target, OF staff(1) action(2)]
  have same: "role_rows T = role_rows P" "role_capability_rows T = role_capability_rows P"
    "entitlement_rows T = entitlement_rows P" "availability_rows T = availability_rows P"
    by (simp_all add: later)
  have lr: "load_role T org b k = load_role P org b k" for org b k unfolding load_role_def same by (rule refl)
  obtain caps where caps: "load_role T (po_organizationId options) True (Some role) =
      (Some \<lparr>ri_id = role, ri_isSystemRole = True\<rparr>, caps)" "set caps = set (system_role_capabilities role)"
    using provisioned_role[OF p fresh ids staff(2)] lr by metis
  have rc: "set (role_capabilities ?i) = set (system_role_capabilities role)" using s(10) caps ctx(1) by simp
  have entitled: "list_all (policy_row dp ?i) [L1_1, L1_2, L1_3, L1_4] \<longleftrightarrow> ?open"
    unfolding loaded_module_rows[where dp = dp, OF host(1-3)] same ctx(1) provisioned_entitlement[OF p fresh host(4)]
    by (auto simp: module_opened_def moduleClosure_set)
  have available: "policy_row dp ?i L2_1" if ?open
  proof -
    have "ac_moduleKey action \<in> set (entitled_modules options)" using that by (auto simp: module_opened_def)
    from provisioned_available[OF p opts fresh this] show ?thesis
      using ctx(2) action(2) by (auto simp: loadPolicyInput_def Let_def same)
  qed
  have known: "policy_row dp ?i P_4" using action by (simp add: P_4_iff del: policy_row.simps)
  have object: "policy_row dp ?i L5_1" using action(3) by simp
  show "list_all (policy_row dp i) [P_4, L0_1, L0_2]" using known s(1,2) by (simp add: i_def del: policy_row.simps)
  show "list_all (policy_row dp i) [L1_1, L1_2, L1_3, L1_4] \<longleftrightarrow> ?open" unfolding i_def by (rule entitled)
  show "policy_row dp i x" if ?open "x \<noteq> L4_2"
    using that s(1-8) entitled available known object by (cases x) (simp_all add: i_def del: policy_row.simps)
  show "policy_row dp i L4_2 \<longleftrightarrow> ac_key action \<in> set (system_role_capabilities role)" "\<not> granted dp i (ac_key action)"
    using s(9) rc by (simp_all add: i_def)
qed

lemma denied_in_entitlement:
  assumes "list_all (policy_row dp i) [P_4, L0_1, L0_2]" "\<not> list_all (policy_row dp i) [L1_1, L1_2, L1_3, L1_4]"
    and "authorize dp i = DenyWith d"
  shows "dn_step d \<in> {L1_1, L1_2, L1_3, L1_4}"
proof -
  obtain x where x: "x \<in> {L1_1, L1_2, L1_3, L1_4}" "\<not> policy_row dp i x"
    using assms(2) by (auto simp del: policy_row.simps)
  then have "\<not> layer x < layer (dn_step d)" using authorize_Deny[OF assms(3)] by (auto simp: passed_below_def)
  moreover have "layer x = 2" using x(1) by auto
  moreover have "dn_step d \<notin> {P_4, L0_1, L0_2}"
    using authorize_Deny[OF assms(3)] assms(1) by (auto simp del: policy_row.simps)
  ultimately show ?thesis by (cases "dn_step d") simp_all
qed

text \<open>C15: A provisioned organization authorizes by role. After \<open>provisionAuthorization\<close>, which never throws, take a
  member of one of its groups with a system group role, an active membership in force and no grants, and a group-scoped
  action of the catalogue without an object policy, of any module. Where the options entitle the module and every
  module it transitively depends on, as a trial or active, the action is allowed by role exactly when the role's list in
  \<open>SYSTEM_ROLE_CAPABILITIES\<close> has its key, and otherwise denied at L4.2. Where they do not, it is denied in L1, whatever
  the role holds.\<close>
theorem provisioned_member_authorized_by_role:
  assumes p: "provisionAuthorization sha256 options instant T0 = Inr (roles, P)"
    and opts: "po_groupIds options = Some groups" "grp \<in> set groups"
    and fresh: "unprovisioned T0 (po_organizationId options) groups"
    and ids: "distinct (map pr_id (provisioned_roles sha256 (po_organizationId options)))"
    and later: "T = P\<lparr>organization_rows := orgs, group_rows := grps, authz_membership_rows := mems, grant_rows := grants\<rparr>"
    and ctx: "ec_expectedOrganizationId ctx = po_organizationId options" "ec_expectedGroupId ctx = Some grp"
    and staff: "staffed dp now T ctx role" "role \<in> set SYSTEM_GROUP_ROLES"
    and host: "sorts_host hostFirst" "dp (toISOString now) = Some now" "entitlements_ok dp now (entitlement_rows T)" "instant \<le> now"
    and action: "capabilityDefinition (ac_key action) =
        Some \<lparr>cd_key = ac_key action, cd_scope = GroupScope, cd_module = ac_moduleKey action\<rparr>"
      "ac_scope action = GroupScope" "\<not> ac_requiresObjectPolicy action"
  shows "case rv_decision (evaluateAction dp hostFirst T ctx action target now) of
      AllowVia via \<Rightarrow> via = ViaRole \<and> module_opened options (ac_moduleKey action) \<and>
        ac_key action \<in> set (system_role_capabilities role)
    | DenyWith d \<Rightarrow> if module_opened options (ac_moduleKey action)
        then dn_step d = L4_2 \<and> ac_key action \<notin> set (system_role_capabilities role)
        else dn_step d \<in> {L1_1, L1_2, L1_3, L1_4}"
proof -
  let ?i = "loadPolicyInput dp hostFirst T ctx action target now"
  note r = provisioned_member_rows[where target = target, OF assms]
  show ?thesis unfolding evaluateAction_decision
  proof (cases "authorize dp ?i")
    case (AllowVia via)
    then have "policy_row dp ?i L4_2" "via = ViaGrant \<longleftrightarrow> granted dp ?i (ac_key action)"
      "module_opened options (ac_moduleKey action)"
      using authorize_sound[of dp ?i] r(2) by (auto simp: decision_sound_def simp del: policy_row.simps)
    then show "case authorize dp ?i of
        AllowVia via \<Rightarrow> via = ViaRole \<and> module_opened options (ac_moduleKey action) \<and>
          ac_key action \<in> set (system_role_capabilities role)
      | DenyWith d \<Rightarrow> if module_opened options (ac_moduleKey action)
          then dn_step d = L4_2 \<and> ac_key action \<notin> set (system_role_capabilities role)
          else dn_step d \<in> {L1_1, L1_2, L1_3, L1_4}"
      using AllowVia r(4,5) by (cases via) simp_all
  next
    case (DenyWith d)
    then show "case authorize dp ?i of
        AllowVia via \<Rightarrow> via = ViaRole \<and> module_opened options (ac_moduleKey action) \<and>
          ac_key action \<in> set (system_role_capabilities role)
      | DenyWith d \<Rightarrow> if module_opened options (ac_moduleKey action)
          then dn_step d = L4_2 \<and> ac_key action \<notin> set (system_role_capabilities role)
          else dn_step d \<in> {L1_1, L1_2, L1_3, L1_4}"
      using authorize_Deny[OF DenyWith] r(3)[of "dn_step d"] r(4) denied_in_entitlement[OF r(1) _ DenyWith] r(2)
      by (cases "dn_step d = L4_2") (auto simp del: policy_row.simps)
  qed
qed

section \<open>A sample\<close>

definition sample_now :: int where "sample_now = 1785672000000"

text \<open>A host that reads the one instant of the sample.\<close>
definition sample_read :: date_parse where
  "sample_read s = (if s = toISOString sample_now then Some sample_now else None)"

text \<open>Sixty-four digits that end in the last of the argument.\<close>
definition sample_sha :: "string \<Rightarrow> string" where
  "sample_sha s = replicate 20 (CHR ''0'') @ take 44 (rev s @ replicate 44 (CHR ''0''))"

definition no_rows :: AuthzTables where
  "no_rows = \<lparr>organization_rows = [], group_rows = [], authz_membership_rows = [], user_rows = [], entitlement_rows = [],
     availability_rows = [], role_rows = [], role_capability_rows = [], grant_rows = []\<rparr>"

definition sample_options :: ProvisionOptions where
  "sample_options = \<lparr>po_organizationId = ''o'', po_entitledModules = None, po_groupIds = Some [''g'']\<rparr>"

definition sample_organization :: OrganizationRow where
  "sample_organization = \<lparr>ogr_id = ''o'', ogr_status = ''active'', ogr_version = 3\<rparr>"

definition sample_group :: GroupRow where
  "sample_group = \<lparr>gpr_id = ''g'', gpr_organization_id = ''o'', gpr_status = ''active'', gpr_version = 5\<rparr>"

definition sample_member :: MembershipRow where
  "sample_member = \<lparr>mbr_id = ''m'', mbr_kind = ''group'', mbr_organization_id = ''o'', mbr_group_id = Some ''g'',
     mbr_user_id = ''u'', mbr_status = ''active'', mbr_organization_role = None, mbr_group_role = Some ''scheduler'',
     mbr_valid_from = StoredAt sample_now, mbr_valid_to = None\<rparr>"

definition sample_tables :: AuthzTables where
  "sample_tables =
     (case provisionAuthorization sample_sha sample_options sample_now
             (no_rows\<lparr>user_rows := [\<lparr>usr_id = ''u'', usr_status = ''active'', usr_membership_set_version = 7, usr_session_epoch = 1\<rparr>]\<rparr>) of
        Inl _ \<Rightarrow> no_rows
      | Inr (_, P) \<Rightarrow> P\<lparr>organization_rows := [sample_organization], group_rows := [sample_group],
          authz_membership_rows := [sample_member], grant_rows := []\<rparr>)"

definition sample_action :: "string \<Rightarrow> ActionInput" where
  "sample_action key = \<lparr>ac_key = key, ac_moduleKey = CoreScheduling, ac_scope = GroupScope,
     ac_requiresObjectPolicy = False, ac_ownershipRequired = None, ac_ownershipOverrideCapability = None,
     ac_permittedTargetStates = None\<rparr>"

definition sample_context :: EvaluationContext where
  "sample_context = \<lparr>ec_principalUserId = ''u'', ec_expectedOrganizationId = ''o'', ec_expectedGroupId = Some ''g'',
     ec_membershipId = ''m''\<rparr>"

lemma sorts_host_head: "sorts_host head_of"
  by (auto simp: sorts_host_def head_of_def split: list.split)

lemma toISOString_sentinel: "toISOString t \<noteq> UNPARSABLE_INSTANT"
proof
  assume "toISOString t = UNPARSABLE_INSTANT"
  then have "last (toISOString t) = last UNPARSABLE_INSTANT" by simp
  then show False by (simp add: toISOString_def Let_def UNPARSABLE_INSTANT_def)
qed

lemma sample_reads: "sample_read (toISOString sample_now) = Some sample_now" "sample_read UNPARSABLE_INSTANT = None"
  using toISOString_sentinel[of sample_now] by (simp_all add: sample_read_def)

lemma sample_stored:
  "reads_stored sample_read (StoredAt sample_now)" "finite_instant sample_read (StoredAt sample_now)"
  "instant_or_sentinel (StoredAt sample_now) = toISOString sample_now"
  "withinWindow sample_read (toISOString sample_now) (toISOString sample_now) None"
  by (simp_all add: reads_stored_def finite_instant_def instant_or_sentinel_def withinWindow_def sample_reads)

definition sample_entitlement :: "string \<Rightarrow> EntitlementRow" where
  "sample_entitlement key = \<lparr>etr_organization_id = ''o'', etr_module_key = key, etr_state = ''active'',
     etr_effective_from = StoredAt sample_now, etr_effective_to = None\<rparr>"

lemma sample_rows:
  "organization_rows sample_tables = [sample_organization]" "group_rows sample_tables = [sample_group]"
  "authz_membership_rows sample_tables = [sample_member]" "grant_rows sample_tables = []"
  "user_rows sample_tables = [\<lparr>usr_id = ''u'', usr_status = ''active'', usr_membership_set_version = 7, usr_session_epoch = 1\<rparr>]"
  "entitlement_rows sample_tables = map sample_entitlement [''core_scheduling'', ''organization_administration'', ''entitlements'']"
  by (simp_all add: sample_tables_def provisionAuthorization_def role_pairs_ok Let_def sample_options_def no_rows_def
      sample_entitlement_def)

lemma sample_entitlements: "entitlements_ok sample_read sample_now (entitlement_rows sample_tables)"
  unfolding sample_rows by (simp add: entitlements_ok_def sample_entitlement_def sample_stored)

lemma sample_staffed: "staffed sample_read sample_now sample_tables sample_context ''scheduler''"
  by (simp add: staffed_def sample_rows sample_stored first_row_def sample_organization_def sample_group_def
      sample_member_def sample_context_def kind_matches_def)

text \<open>C14: The module of an action is open exactly when the module and every module it transitively depends on has an
  entitlement row, in the organization, that is a trial or active and whose stored window contains the instant: the
  four rows of L1 on the snapshot the loader reads say that of the table, whatever other rows (ended, future or
  unreadable ones) the modules have.\<close>
theorem module_open_iff_entitled:
  assumes "sorts_host hostFirst" "dp (toISOString now) = Some now" "entitlements_ok dp now (entitlement_rows T)"
  shows "list_all (policy_row dp (loadPolicyInput dp hostFirst T ctx action target now)) [L1_1, L1_2, L1_3, L1_4] \<longleftrightarrow>
    (\<forall>m. (ac_moduleKey action, m) \<in> depends\<^sup>* \<longrightarrow>
       (\<exists>r \<in> set (entitlement_rows T). module_row (ec_expectedOrganizationId ctx) m r \<and> entitles now r))"
  by (rule loaded_module_rows[where dp = dp, OF assms])

theorem module_open_iff_entitled_witness:
  "list_all (policy_row sample_read (loadPolicyInput sample_read head_of sample_tables sample_context
     (sample_action ''schedule.publish'') None sample_now)) [L1_1, L1_2, L1_3, L1_4]"
proof -
  have "\<exists>r \<in> set (entitlement_rows sample_tables). module_row ''o'' CoreScheduling r \<and> entitles sample_now r"
    by (simp add: sample_rows module_row_def entitles_def sample_entitlement_def)
  then show ?thesis
    unfolding module_open_iff_entitled[where dp = sample_read, OF sorts_host_head sample_reads(1) sample_entitlements]
    by (simp add: core_depends sample_action_def sample_context_def)
qed

definition sample_declared :: DeclaredContext where
  "sample_declared = \<lparr>dc_principalUserId = ''u'', dc_actionScope = GroupScope, dc_expectedOrganizationId = ''o'',
     dc_expectedGroupId = Some ''g'',
     dc_contextVersion = Some \<lparr>cv_organizationVersion = 3, cv_groupVersion = Some 5, cv_membershipSetVersion = 7\<rparr>,
     dc_sessionEpoch = Some 1, dc_correlationId = ''c'', dc_onBehalfOfMembershipId = None\<rparr>"

lemma sample_verified:
  "case resolveContextSnapshot sample_tables sample_now sample_declared of Inl _ \<Rightarrow> False
   | Inr snapshot \<Rightarrow> (case verifyDeclaredContext sample_read sample_declared snapshot of Inl _ \<Rightarrow> False
      | Inr rc \<Rightarrow> evaluationContextOf rc = sample_context)"
proof -
  have "membershipIsActive sample_read (membership_snapshot sample_member) (toISOString sample_now)"
    by (simp add: membershipIsActive_def membership_snapshot_def sample_member_def sample_stored sample_reads asMemberStatus_def)
  then show ?thesis
    by (simp add: resolveContextSnapshot_def resolve_membership_def sample_rows sample_declared_def first_row_def counter_def
        sample_organization_def sample_group_def Let_def verify_defs asActiveStatus_def asPrincipalStatus_def
        contextVersionsMatch_def evaluationContextOf_def sample_context_def)
      (simp add: sample_member_def membership_snapshot_def)
qed


theorem unreadable_window_passes_context_witness:
  "\<exists>snapshot rc. resolveContextSnapshot (with_window sample_tables ''m'' StoredNegInfinity None) sample_now sample_declared =
       Inr snapshot \<and> verifyDeclaredContext sample_read sample_declared snapshot = Inr rc \<and>
     \<not> is_allowed (authorize sample_read (loadPolicyInput sample_read head_of
        (with_window sample_tables ''m'' StoredNegInfinity None) (evaluationContextOf rc)
        (sample_action ''schedule.version.edit'') None sample_now))"
proof -
  obtain snapshot rc where v: "resolveContextSnapshot sample_tables sample_now sample_declared = Inr snapshot"
    "verifyDeclaredContext sample_read sample_declared snapshot = Inr rc" "evaluationContextOf rc = sample_context"
    using sample_verified by (auto split: sum.splits)
  have i: "rc_membershipId rc = ''m''" using v(3) by (simp add: evaluationContextOf_def sample_context_def)
  have h: "ac_scope (sample_action ''schedule.version.edit'') = dc_actionScope sample_declared"
    "distinct (map mbr_id (authz_membership_rows sample_tables))" "infinite_window sample_read sample_now StoredNegInfinity None"
    by (simp_all add: sample_rows sample_action_def sample_declared_def infinite_window_def)
  show ?thesis
    using unreadable_window_passes_context[where dp = sample_read and hostFirst = head_of and target = None,
        OF v(1,2) h(1,2) sample_reads h(3) refl] i
    by (auto simp: Let_def split: Decision.splits)
qed

lemma provision_returns:
  "\<exists>P. provisionAuthorization sha256 options instant T0 = Inr (provisioned_roles sha256 (po_organizationId options), P)"
  by (simp add: provisionAuthorization_def role_pairs_ok Let_def)

theorem provisioned_member_authorized_by_role_witness:
  "(case rv_decision (evaluateAction sample_read head_of sample_tables sample_context (sample_action ''schedule.version.edit'')
      None sample_now) of AllowVia via \<Rightarrow> via = ViaRole | DenyWith d \<Rightarrow> False) \<and>
   (case rv_decision (evaluateAction sample_read head_of sample_tables sample_context (sample_action ''schedule.publish'')
      None sample_now) of AllowVia via \<Rightarrow> False | DenyWith d \<Rightarrow> dn_step d = L4_2) \<and>
   ''requests.approve'' \<in> set (system_role_capabilities ''scheduler'') \<and>
   (case rv_decision (evaluateAction sample_read head_of sample_tables sample_context
        ((sample_action ''requests.approve'')\<lparr>ac_moduleKey := RequestsVacation\<rparr>) None sample_now) of
      AllowVia via \<Rightarrow> False | DenyWith d \<Rightarrow> dn_step d \<in> {L1_1, L1_2, L1_3, L1_4})"
proof -
  let ?T0 = "no_rows\<lparr>user_rows := [\<lparr>usr_id = ''u'', usr_status = ''active'', usr_membership_set_version = 7, usr_session_epoch = 1\<rparr>]\<rparr>"
  obtain P where P: "provisionAuthorization sample_sha sample_options sample_now ?T0 =
      Inr (provisioned_roles sample_sha (po_organizationId sample_options), P)"
    using provision_returns by blast
  have T: "sample_tables = P\<lparr>organization_rows := [sample_organization], group_rows := [sample_group],
      authz_membership_rows := [sample_member], grant_rows := []\<rparr>"
    by (simp add: sample_tables_def P)
  have o: "po_groupIds sample_options = Some [''g'']" "''g'' \<in> set [''g'']"
    "unprovisioned ?T0 (po_organizationId sample_options) [''g'']"
    "distinct (map pr_id (provisioned_roles sample_sha (po_organizationId sample_options)))"
    "ec_expectedOrganizationId sample_context = po_organizationId sample_options"
    "ec_expectedGroupId sample_context = Some ''g''" "''scheduler'' \<in> set SYSTEM_GROUP_ROLES" "sample_now \<le> sample_now"
    by code_simp+
  let ?a = "\<lambda>k m. (sample_action k)\<lparr>ac_moduleKey := m\<rparr>"
  have a: "ac_scope (?a k m) = GroupScope" "\<not> ac_requiresObjectPolicy (?a k m)" "ac_key (?a k m) = k"
    "ac_moduleKey (?a k m) = m" "?a k CoreScheduling = sample_action k" for k m
    by (simp_all add: sample_action_def)
  note t = provisioned_member_authorized_by_role[where dp = sample_read, OF P o(1-4) T o(5,6) sample_staffed o(7)
      sorts_host_head sample_reads(1) sample_entitlements o(8) _ a(1,2), of _ _ None, unfolded a(3,4)]
  have k: "capabilityDefinition ''schedule.version.edit'' = Some \<lparr>cd_key = ''schedule.version.edit'', cd_scope = GroupScope, cd_module = CoreScheduling\<rparr>"
    "capabilityDefinition ''schedule.publish'' = Some \<lparr>cd_key = ''schedule.publish'', cd_scope = GroupScope, cd_module = CoreScheduling\<rparr>"
    "capabilityDefinition ''requests.approve'' = Some \<lparr>cd_key = ''requests.approve'', cd_scope = GroupScope, cd_module = RequestsVacation\<rparr>"
    "''schedule.version.edit'' \<in> set (system_role_capabilities ''scheduler'')"
    "''schedule.publish'' \<notin> set (system_role_capabilities ''scheduler'')"
    "''requests.approve'' \<in> set (system_role_capabilities ''scheduler'')"
    by code_simp+
  have opened: "module_opened sample_options CoreScheduling" "\<not> module_opened sample_options RequestsVacation"
    by (simp_all add: module_opened_def entitled_modules_def provisioned_modules_def sample_options_def moduleClosure_values)
  show ?thesis using t[OF k(1)] t[OF k(2)] t[OF k(3)] k(4-6) opened by (auto simp: a(5) split: Decision.splits)
qed

end
