(* ===== verification/SolverSnapshot.thy ===== *)
theory SolverSnapshot
  imports HardRuleEntry InForce ScheduleTables
begin

text \<open>
  The canonical input of a build (\<open>packages/domain/src/ports/solver-snapshot.ts\<close>): the document, what makes it
  refused, and the two structural checks of \<open>apps/api/src/builds/readiness.ts\<close> that run before a solve. The
  projection of requests, which neither reads, is left out of the document. Rule scopes and predicates, stored as
  JSON, are the values they parse to.
\<close>

section \<open>The document\<close>

record SnapshotConstituent =
  ct_kind :: string
  ct_key :: string
  ct_revision :: string

record SnapshotTimezone =
  tz_basis :: string
  tz_version :: string
  tz_source :: string

record SnapshotLocation =
  lo_id :: string
  lo_name :: string
  lo_status :: string
  lo_timezone :: "string option"

record SnapshotShiftType =
  ty_id :: string
  ty_code :: string
  ty_start :: string
  ty_end :: string
  ty_crosses :: bool
  ty_manualOnly :: bool
  ty_onCall :: bool
  ty_credit :: string
  ty_status :: string
  ty_required :: "string list"

datatype DemandSource = WeekdayDefault | PeriodRequirement

record SnapshotDemandCell =
  dc_source :: DemandSource
  dc_type :: string
  dc_on :: string
  dc_required :: int

record SnapshotWeekdayTarget =
  wt_day :: string
  wt_fte :: jsnum
  wt_max :: "jsnum option"

record SnapshotWorkProfile =
  wp_id :: string
  wp_from :: string
  wp_to :: "string option"
  wp_percentage :: jsnum
  wp_maxWeek :: "int option"
  wp_maxPeriod :: "int option"
  wp_maxConsecutive :: "int option"
  wp_targets :: "SnapshotWeekdayTarget list"

record SnapshotHolding =
  ho_qualification :: string
  ho_from :: string
  ho_until :: "string option"
  ho_status :: string

record SnapshotEligibility =
  el_type :: string
  el_eligible :: bool
  el_outcomes :: "string list"

record SnapshotParticipant =
  pa_member :: string
  pa_kind :: string
  pa_staffing :: string
  pa_status :: string
  pa_from :: string
  pa_to :: "string option"
  pa_profile :: "SnapshotWorkProfile option"
  pa_holdings :: "SnapshotHolding list"
  pa_eligibility :: "SnapshotEligibility list"

record SnapshotFixedAssignment =
  fx_identity :: string
  fx_member :: string
  fx_date :: string
  fx_type :: string
  fx_location :: "string option"
  fx_pinned :: bool
  fx_origin :: string
  fx_credited :: "string option"
  fx_weight :: "string option"

record SnapshotStaffGroup =
  sg_id :: string
  sg_members :: "string list"

record SnapshotValidGroup =
  vg_id :: string
  vg_positions :: "int list"
  vg_types :: "string list"

record SnapshotQualification =
  qu_id :: string
  qu_key :: string
  qu_status :: string

record SnapshotRuleRevision =
  rv_key :: string
  rv_revision :: string
  rv_schema :: int
  rv_classification :: string
  rv_category :: string
  rv_weight :: "string option"
  rv_status :: string
  rv_scope :: RuleScope
  rv_predicate :: RuleNode

record SolverInputSnapshotDocument =
  sd_schemaVersion :: int
  sd_compilerVersion :: int
  sd_ruleSchemaVersion :: int
  sd_organization :: string
  sd_group :: string
  sd_period :: string
  sd_version :: string
  sd_periodName :: string
  sd_periodStatus :: PeriodStatus
  sd_start :: string
  sd_end :: string
  sd_dayCount :: int
  sd_timezone :: SnapshotTimezone
  sd_locations :: "SnapshotLocation list"
  sd_shiftTypes :: "SnapshotShiftType list"
  sd_demand :: "SnapshotDemandCell list"
  sd_participants :: "SnapshotParticipant list"
  sd_fixed :: "SnapshotFixedAssignment list"
  sd_rules :: "SnapshotRuleRevision list"
  sd_staffGroups :: "SnapshotStaffGroup list"
  sd_validGroups :: "SnapshotValidGroup list"
  sd_qualifications :: "SnapshotQualification list"
  sd_constituents :: "SnapshotConstituent list"

section \<open>Refusals\<close>

datatype SnapshotRefusalReason =
  Ambiguous | StaleRevision | CrossGroup | InactiveParticipant | InvalidDate | MissingRequiredInput

record SnapshotRefusal =
  re_reason :: SnapshotRefusalReason
  re_subject :: string

definition refusal :: "SnapshotRefusalReason \<Rightarrow> string \<Rightarrow> SnapshotRefusal" where
  "refusal r s = \<lparr>re_reason = r, re_subject = s\<rparr>"

text \<open>The keys that occur again, each once.\<close>
fun repeated :: "string list \<Rightarrow> string list \<Rightarrow> string list" where
  "repeated seen [] = []"
| "repeated seen (k # ks) = (if k \<in> set seen then k # repeated seen ks else repeated (k # seen) ks)"

definition pushDuplicates :: "string list \<Rightarrow> string \<Rightarrow> SnapshotRefusal list" where
  "pushDuplicates keys subject =
     map (\<lambda>k. refusal Ambiguous (subject @ ''.'' @ k)) (sort (remdups (repeated [] keys)))"

fun source_string :: "DemandSource \<Rightarrow> string" where
  "source_string WeekdayDefault = ''weekday-default''"
| "source_string PeriodRequirement = ''period-requirement''"

definition demand_key :: "SnapshotDemandCell \<Rightarrow> string" where
  "demand_key d = source_string (dc_source d) @ '':'' @ dc_type d @ '':'' @ dc_on d"

definition constituent_key :: "SnapshotConstituent \<Rightarrow> string" where
  "constituent_key c = ct_kind c @ '':'' @ ct_key c"

definition missing_refusals :: "SolverInputSnapshotDocument \<Rightarrow> SnapshotRefusal list" where
  "missing_refusals d =
     (if sd_shiftTypes d = [] then [refusal MissingRequiredInput ''shiftTypes''] else []) @
     (if sd_demand d = [] then [refusal MissingRequiredInput ''demand'']
      else if \<not> list_ex (\<lambda>c. dc_source c = PeriodRequirement) (sd_demand d)
      then [refusal MissingRequiredInput ''demand.periodRequirements''] else []) @
     (if sd_participants d = [] then [refusal MissingRequiredInput ''participants''] else []) @
     (if trim (tz_basis (sd_timezone d)) = [] then [refusal MissingRequiredInput ''timezone.basis''] else [])"

definition demand_subject :: "SnapshotDemandCell \<Rightarrow> string" where
  "demand_subject c = ''demand.'' @ dc_type c @ ''.'' @ dc_on c"

definition fixed_subject :: "SnapshotFixedAssignment \<Rightarrow> string" where
  "fixed_subject f = ''fixedAssignments.'' @ fx_identity f"

definition date_refusals :: "SolverInputSnapshotDocument \<Rightarrow> SnapshotRefusal list" where
  "date_refusals d =
     (let real = isCalendarDate (sd_start d) \<and> isCalendarDate (sd_end d) in
      (if \<not> isCalendarDate (sd_start d) then [refusal InvalidDate ''startDate''] else []) @
      (if \<not> isCalendarDate (sd_end d) then [refusal InvalidDate ''endDate''] else []) @
      (if real \<and> compareCalendarDates (sd_start d) (sd_end d) > 0 then [refusal InvalidDate ''dateRange''] else []) @
      concat (map (\<lambda>c.
        if dc_source c \<noteq> PeriodRequirement then []
        else if \<not> isCalendarDate (dc_on c) then [refusal InvalidDate (demand_subject c)]
        else if real \<and> (compareCalendarDates (dc_on c) (sd_start d) < 0 \<or> compareCalendarDates (dc_on c) (sd_end d) > 0)
        then [refusal InvalidDate (demand_subject c)] else []) (sd_demand d)) @
      concat (map (\<lambda>f. if \<not> isCalendarDate (fx_date f) then [refusal InvalidDate (fixed_subject f)] else []) (sd_fixed d)))"

definition ambiguous_refusals :: "SolverInputSnapshotDocument \<Rightarrow> SnapshotRefusal list" where
  "ambiguous_refusals d =
     pushDuplicates (map pa_member (sd_participants d)) ''participants'' @
     pushDuplicates (map ty_id (sd_shiftTypes d)) ''shiftTypes'' @
     pushDuplicates (map demand_key (sd_demand d)) ''demand'' @
     pushDuplicates (map rv_key (sd_rules d)) ''ruleRevisions'' @
     pushDuplicates (map constituent_key (sd_constituents d)) ''constituents'' @
     pushDuplicates (map qu_key (sd_qualifications d)) ''qualifications'' @
     pushDuplicates (map qu_id (sd_qualifications d)) ''qualifications'' @
     pushDuplicates (map sg_id (sd_staffGroups d)) ''staffGroups'' @
     pushDuplicates (map vg_id (sd_validGroups d)) ''validGroups''"

text \<open>One refusal for each element of the list that is not known.\<close>
definition unknown :: "SnapshotRefusalReason \<Rightarrow> string \<Rightarrow> string list \<Rightarrow> string list \<Rightarrow> SnapshotRefusal list" where
  "unknown r subject known xs = map (\<lambda>_. refusal r subject) (filter (\<lambda>x. x \<notin> set known) xs)"

definition reference_refusals :: "SolverInputSnapshotDocument \<Rightarrow> SnapshotRefusal list" where
  "reference_refusals d =
     (let types = map ty_id (sd_shiftTypes d); members = map pa_member (sd_participants d);
          locations = map lo_id (sd_locations d); quals = map qu_id (sd_qualifications d) in
      concat (map (\<lambda>c. unknown CrossGroup (''demand.'' @ dc_type c) types [dc_type c]) (sd_demand d)) @
      concat (map (\<lambda>f. unknown CrossGroup (fixed_subject f) types [fx_type f] @
        (case fx_location f of None \<Rightarrow> [] | Some l \<Rightarrow> unknown CrossGroup (fixed_subject f) locations [l])) (sd_fixed d)) @
      concat (map (\<lambda>g. unknown CrossGroup (''staffGroups.'' @ sg_id g) members (sg_members g)) (sd_staffGroups d)) @
      concat (map (\<lambda>g. unknown CrossGroup (''validGroups.'' @ vg_id g) types (vg_types g)) (sd_validGroups d)) @
      concat (map (\<lambda>t. unknown MissingRequiredInput (''shiftTypes.'' @ ty_id t) quals (ty_required t)) (sd_shiftTypes d)) @
      concat (map (\<lambda>p. unknown MissingRequiredInput (''participants.'' @ pa_member p @ ''.holdings'') quals
        (map ho_qualification (pa_holdings p))) (sd_participants d)) @
      concat (map (\<lambda>f. unknown InactiveParticipant (fixed_subject f) members [fx_member f] @
        (case fx_credited f of None \<Rightarrow> [] | Some m \<Rightarrow>
           unknown InactiveParticipant (fixed_subject f @ ''.credit'') members [m])) (sd_fixed d)) @
      concat (map (\<lambda>p. if pa_status p \<noteq> ''active'' then [refusal InactiveParticipant (''participants.'' @ pa_member p)]
        else []) (sd_participants d)))"

definition revision_refusals :: "SnapshotConstituent list \<Rightarrow> SolverInputSnapshotDocument \<Rightarrow> SnapshotRefusal list" where
  "revision_refusals expected d =
     (let observed = map_of (rev (map (\<lambda>c. (constituent_key c, ct_revision c)) (sd_constituents d))) in
      concat (map (\<lambda>e.
        case observed (constituent_key e) of
          None \<Rightarrow> [refusal StaleRevision (constituent_key e)]
        | Some r \<Rightarrow> if r \<noteq> ct_revision e then [refusal StaleRevision (constituent_key e)] else []) expected))"

definition snapshotRefusals :: "SolverInputSnapshotDocument \<Rightarrow> SnapshotConstituent list \<Rightarrow> SnapshotRefusal list" where
  "snapshotRefusals d expected =
     missing_refusals d @ date_refusals d @ ambiguous_refusals d @ reference_refusals d @ revision_refusals expected d"

end
