(* ===== verification/CandidateCheck.thy ===== *)
theory CandidateCheck
  imports SolverSnapshot
begin

text \<open>
  What the services decide about a build before and after the solver runs: the readiness check
  (\<open>apps/api/src/builds/readiness.ts\<close>), demand coverage (\<open>packages/domain/src/rules/demand-coverage.ts\<close>) and the
  validation of a returned candidate (\<open>apps/api/src/solver/candidate-validation.ts\<close>), which evaluates the hard
  rules of the snapshot over it. \<open>dateParse\<close> is the host's \<open>Date.parse\<close> and \<open>toNumber\<close> its \<open>Number\<close>.
\<close>

definition NUL :: char where "NUL = CHR 0x00"

definition map_set :: "'k \<Rightarrow> 'v \<Rightarrow> ('k \<times> 'v) list \<Rightarrow> ('k \<times> 'v) list" where
  "map_set k v = map_update k (\<lambda>_. v)"

text \<open>The dates from \<open>a\<close> to \<open>b\<close>, one a day.\<close>
definition datesBetween :: "date_parse \<Rightarrow> string \<Rightarrow> string \<Rightarrow> string list" where
  "datesBetween dateParse a b =
     (case (dateParse (a @ ''T00:00:00Z''), dateParse (b @ ''T00:00:00Z'')) of
        (Some s, Some e) \<Rightarrow> map (\<lambda>k. iso_date ((s + k * MS_PER_DAY) div MS_PER_DAY)) [0..(e - s) div MS_PER_DAY]
      | _ \<Rightarrow> [])"

section \<open>Demand coverage\<close>

record DemandRequirementCell =
  rc_date :: string
  rc_type :: string
  rc_count :: int

record DemandPlacement =
  pl_date :: string
  pl_type :: string

record DemandShortfall =
  sf_date :: string
  sf_type :: string
  sf_required :: int
  sf_filled :: nat

record DemandOverfill =
  of_date :: string
  of_type :: string
  of_filled :: nat

record DemandCoverage =
  dv_requiredSlots :: int
  dv_filledSlots :: int
  dv_rate :: "jsnum option"
  dv_shortfalls :: "DemandShortfall list"
  dv_overfills :: "DemandOverfill list"

definition cellKey :: "string \<Rightarrow> string \<Rightarrow> string" where
  "cellKey d t = d @ NUL # t"

definition required_map :: "DemandRequirementCell list \<Rightarrow> (string \<times> DemandRequirementCell) list" where
  "required_map cells =
     foldl (\<lambda>m c. if rc_count c \<le> 0 then m
       else map_update (cellKey (rc_date c) (rc_type c))
         (\<lambda>old. case old of None \<Rightarrow> c | Some e \<Rightarrow> e\<lparr>rc_count := rc_count e + rc_count c\<rparr>) m) [] cells"

definition placed_map :: "DemandPlacement list \<Rightarrow> (string \<times> nat) list" where
  "placed_map ps = foldl (\<lambda>m p. map_count (cellKey (pl_date p) (pl_type p)) m) [] ps"

definition shortfall_of :: "(string \<times> nat) list \<Rightarrow> string \<times> DemandRequirementCell \<Rightarrow> DemandShortfall option" where
  "shortfall_of placed = (\<lambda>(key, c).
     (let filled = get_or 0 placed key in
      if int filled < rc_count c
      then Some \<lparr>sf_date = rc_date c, sf_type = rc_type c, sf_required = rc_count c, sf_filled = filled\<rparr> else None))"

definition overfill_of :: "(string \<times> DemandRequirementCell) list \<Rightarrow> string \<times> nat \<Rightarrow> DemandOverfill option" where
  "overfill_of required = (\<lambda>(key, filled).
     case map_of required key of
       None \<Rightarrow> Some \<lparr>of_date = takeWhile (\<lambda>c. c \<noteq> NUL) key, of_type = tl (dropWhile (\<lambda>c. c \<noteq> NUL) key), of_filled = filled\<rparr>
     | Some c \<Rightarrow> if int filled > rc_count c
         then Some \<lparr>of_date = rc_date c, of_type = rc_type c, of_filled = filled\<rparr> else None)"

definition demandCoverage :: "DemandRequirementCell list \<Rightarrow> DemandPlacement list \<Rightarrow> DemandCoverage" where
  "demandCoverage cells placements =
     (let required = required_map cells; placed = placed_map placements;
          requiredSlots = sum_list (map (\<lambda>(_, c). rc_count c) required);
          filledSlots = sum_list (map (\<lambda>(key, c). min (int (get_or 0 placed key)) (rc_count c)) required) in
      \<lparr>dv_requiredSlots = requiredSlots, dv_filledSlots = filledSlots,
       dv_rate = (if requiredSlots = 0 then None else Some (js_div (num filledSlots) (num requiredSlots))),
       dv_shortfalls = List.map_filter (shortfall_of placed) required,
       dv_overfills = List.map_filter (overfill_of required) placed\<rparr>)"

section \<open>Readiness\<close>

record BuildFinding =
  bf_code :: string
  bf_tier :: string
  bf_date :: "string option"
  bf_type :: "string option"
  bf_detail :: string

definition t0 :: "string \<Rightarrow> string \<Rightarrow> string option \<Rightarrow> string \<Rightarrow> BuildFinding" where
  "t0 code d t detail = \<lparr>bf_code = code, bf_tier = ''T0'', bf_date = Some d, bf_type = t, bf_detail = detail\<rparr>"

text \<open>The pairs of a member and a shift type the snapshot admits, joined by \<open>sep\<close>.\<close>
definition eligible_keys :: "char \<Rightarrow> SolverInputSnapshotDocument \<Rightarrow> string list" where
  "eligible_keys sep s =
     concat (map (\<lambda>p. map (\<lambda>v. pa_member p @ sep # el_type v) (filter el_eligible (pa_eligibility p)))
       (sd_participants s))"

definition requirement_map :: "SnapshotDemandCell list \<Rightarrow> (string \<times> DemandRequirementCell) list" where
  "requirement_map cells =
     foldl (\<lambda>m c. if dc_source c \<noteq> PeriodRequirement then m
       else map_set (cellKey (dc_on c) (dc_type c))
         \<lparr>rc_date = dc_on c, rc_type = dc_type c, rc_count = dc_required c\<rparr> m) [] cells"

definition positive_cells :: "SolverInputSnapshotDocument \<Rightarrow> DemandRequirementCell list" where
  "positive_cells s =
     filter (\<lambda>c. \<not> rc_count c \<le> 0) (sort_key (\<lambda>c. (rc_date c, rc_type c)) (map snd (requirement_map (sd_demand s))))"

definition cell_findings ::
  "date_parse \<Rightarrow> SolverInputSnapshotDocument \<Rightarrow> DemandRequirementCell \<Rightarrow> BuildFinding list" where
  "cell_findings dateParse s c =
     (if rc_type c \<notin> set (map ty_id (sd_shiftTypes s))
      then [t0 ''requirement_shift_type_unknown'' (rc_date c) (Some (rc_type c))
              ''a period requirement names a shift type this snapshot does not carry'']
      else if rc_date c \<notin> set (datesBetween dateParse (sd_start s) (sd_end s))
      then [t0 ''requirement_outside_period'' (rc_date c) (Some (rc_type c))
              (''a period requirement is dated outside the period'' @ CHR 0x27 # ''s own range'')]
      else
        (let eligibleCount = length (filter (\<lambda>m. m @ NUL # rc_type c \<in> set (eligible_keys NUL s))
               (map pa_member (sd_participants s))) in
         if eligibleCount = 0
         then [t0 ''no_eligible_member'' (rc_date c) (Some (rc_type c))
                 (''demand is '' @ string_of_int (rc_count c) @ '' and no participant is eligible'')]
         else if int eligibleCount < rc_count c
         then [t0 ''eligible_capacity_below_demand'' (rc_date c) (Some (rc_type c))
                 (''demand is '' @ string_of_int (rc_count c) @ '' and '' @ string_of_nat eligibleCount @
                  '' participants are eligible'')]
         else []))"

definition demand_by_day :: "DemandRequirementCell list \<Rightarrow> (string \<times> int) list" where
  "demand_by_day cells =
     foldl (\<lambda>m c. map_update (rc_date c) (\<lambda>old. (case old of None \<Rightarrow> 0 | Some n \<Rightarrow> n) + rc_count c) m) [] cells"

definition day_findings :: "SolverInputSnapshotDocument \<Rightarrow> (string \<times> int) list \<Rightarrow> BuildFinding list" where
  "day_findings s byDay =
     concat (map (\<lambda>d.
       (let demanded = get_or 0 byDay d in
        if demanded > int (length (sd_participants s))
        then [t0 ''day_demand_exceeds_participants'' d None
                (''demand is '' @ string_of_int demanded @ '' across '' @
                 string_of_nat (length (sd_participants s)) @ '' participants'')]
        else [])) (sort (map fst byDay)))"

fun fixed_findings :: "(string \<times> string) list \<Rightarrow> SnapshotFixedAssignment list \<Rightarrow> BuildFinding list" where
  "fixed_findings placed [] = []"
| "fixed_findings placed (f # fs) =
     (let key = fx_member f @ NUL # fx_date f in
      (case map_of placed key of
         None \<Rightarrow> []
       | Some already \<Rightarrow>
           if already \<noteq> fx_type f
           then [t0 ''conflicting_fixed_assignments'' (fx_date f) (Some (fx_type f))
                   ''two fixed inputs place one membership on one date''] else []) @
      fixed_findings (map_set key (fx_type f) placed) fs)"

definition readinessFindings :: "date_parse \<Rightarrow> SolverInputSnapshotDocument \<Rightarrow> BuildFinding list" where
  "readinessFindings dateParse s =
     concat (map (cell_findings dateParse s) (positive_cells s)) @
     day_findings s (demand_by_day (positive_cells s)) @
     fixed_findings [] (sort_key (\<lambda>f. (fx_member f, fx_date f, fx_type f)) (sd_fixed s))"

definition configuration_finding :: "string \<Rightarrow> string \<Rightarrow> BuildFinding" where
  "configuration_finding code detail =
     \<lparr>bf_code = code, bf_tier = ''configuration'', bf_date = None, bf_type = None, bf_detail = detail\<rparr>"

definition configurationFindings :: "SolverInputSnapshotDocument \<Rightarrow> BuildFinding list" where
  "configurationFindings s =
     (if sd_shiftTypes s = [] then [configuration_finding ''no_shift_types''
        ''this group has no shift types, so there is nothing for a build to place''] else []) @
     (if sd_participants s = [] then [configuration_finding ''no_participants''
        ''this period has no active effective participants''] else []) @
     (if filter (\<lambda>c. dc_source c = PeriodRequirement) (sd_demand s) = [] then [configuration_finding ''no_demand''
        ''this period carries no requirement rows, so a build would be asked to staff nothing''] else []) @
     (if sd_periodStatus s = PClosed then [configuration_finding ''period_closed''
        ''a closed period is not built into''] else [])"

section \<open>Candidates\<close>

record SolverCandidateAssignment =
  ca_member :: string
  ca_date :: string
  ca_type :: string
  ca_location :: "string option"

datatype CandidateRejection =
    InputHashMismatch
  | UnknownReference string
  | DuplicateAssignment
  | IneligibleAssignment
  | ProtectedAssignmentDropped
  | DemandNotMet string
  | HardViolation "HardRuleFinding list"

record CandidateVerdict =
  cv_usable :: bool
  cv_rejections :: "CandidateRejection list"
  cv_findings :: "HardRuleFinding list"
  cv_hardViolations :: nat

definition placement_key :: "string \<Rightarrow> string \<Rightarrow> string \<Rightarrow> string" where
  "placement_key m d t = m @ CHR ''|'' # d @ CHR ''|'' # t"

definition candidate_key :: "SolverCandidateAssignment \<Rightarrow> string" where
  "candidate_key a = placement_key (ca_member a) (ca_date a) (ca_type a)"

definition assignment_rejections ::
  "date_parse \<Rightarrow> SolverInputSnapshotDocument \<Rightarrow> string list \<Rightarrow> SolverCandidateAssignment \<Rightarrow> CandidateRejection list" where
  "assignment_rejections dateParse s seen a =
     (if ca_member a \<notin> set (map pa_member (sd_participants s)) then [UnknownReference ''membership''] else []) @
     (if ca_type a \<notin> set (map ty_id (sd_shiftTypes s)) then [UnknownReference ''shift type''] else []) @
     (if ca_date a \<notin> set (datesBetween dateParse (sd_start s) (sd_end s)) then [UnknownReference ''date''] else []) @
     (if ca_member a @ CHR '' '' # ca_type a \<notin> set (eligible_keys (CHR '' '') s) then [IneligibleAssignment] else []) @
     (if candidate_key a \<in> set seen then [DuplicateAssignment] else [])"

fun all_rejections ::
  "date_parse \<Rightarrow> SolverInputSnapshotDocument \<Rightarrow> string list \<Rightarrow> SolverCandidateAssignment list \<Rightarrow> CandidateRejection list" where
  "all_rejections dateParse s seen [] = []"
| "all_rejections dateParse s seen (a # as) =
     assignment_rejections dateParse s seen a @ all_rejections dateParse s (candidate_key a # seen) as"

definition dropped_rejections ::
  "SolverInputSnapshotDocument \<Rightarrow> SolverCandidateAssignment list \<Rightarrow> CandidateRejection list" where
  "dropped_rejections s as =
     concat (map (\<lambda>f. if \<not> fx_pinned f then []
       else if placement_key (fx_member f) (fx_date f) (fx_type f) \<in> set (map candidate_key as) then []
       else [ProtectedAssignmentDropped]) (sd_fixed s))"

definition candidateDemandCoverage ::
  "SolverInputSnapshotDocument \<Rightarrow> SolverCandidateAssignment list \<Rightarrow> DemandCoverage" where
  "candidateDemandCoverage s as =
     demandCoverage
       (map (\<lambda>c. \<lparr>rc_date = dc_on c, rc_type = dc_type c, rc_count = dc_required c\<rparr>)
         (filter (\<lambda>c. dc_source c = PeriodRequirement) (sd_demand s)))
       (map (\<lambda>a. \<lparr>pl_date = ca_date a, pl_type = ca_type a\<rparr>) as)"

definition coverage_rejections :: "DemandCoverage \<Rightarrow> CandidateRejection list" where
  "coverage_rejections coverage =
     (case dv_shortfalls coverage of [] \<Rightarrow> []
      | worst # _ \<Rightarrow> [DemandNotMet
          (string_of_nat (length (dv_shortfalls coverage)) @ '' requirement cell(s) are not fully staffed ('' @
           string_of_int (dv_filledSlots coverage) @ '' of '' @ string_of_int (dv_requiredSlots coverage) @
           '' required slot(s) filled; first shortfall places '' @ string_of_nat (sf_filled worst) @ '' of '' @
           string_of_int (sf_required worst) @ ''); a demand shortfall is a violation, not a metric'')]) @
     (if dv_overfills coverage = [] then []
      else [DemandNotMet
          (string_of_nat (length (dv_overfills coverage)) @ '' cell(s) are staffed beyond what the period asked '' @
           ''for; a cell nothing asked for must not be fillable, or a day left deliberately empty '' @
           ''can be staffed by the solve'')])"

section \<open>The hard rules over a candidate\<close>

definition rule_of_revision :: "(string \<Rightarrow> jsnum) \<Rightarrow> SnapshotRuleRevision \<Rightarrow> Rule" where
  "rule_of_revision toNumber r =
     \<lparr>ruleKey = rv_key r, rule_name = rv_key r, ruleSchemaVersion = rv_schema r, classification = rv_classification r,
      weight = (if rv_classification r = ''SOFT''
        then Some (case rv_weight r of None \<Rightarrow> num 0 | Some w \<Rightarrow> toNumber w) else None),
      rscope = rv_scope r, predicate = rv_predicate r, surplus = no_surplus\<rparr>"

definition compiledRulesOf :: "(string \<Rightarrow> jsnum) \<Rightarrow> SolverInputSnapshotDocument \<Rightarrow> CompiledRule list" where
  "compiledRulesOf toNumber s =
     map (\<lambda>r. compileRule (rule_of_revision toNumber r)) (filter (\<lambda>r. rv_status r = ''active'') (sd_rules s))"

text \<open>\<open>new Map(xs.map((x) => [k x, v x])).get(key)\<close>: the last entry wins.\<close>
definition keyed :: "('x \<Rightarrow> string) \<Rightarrow> ('x \<Rightarrow> 'v) \<Rightarrow> 'x list \<Rightarrow> string \<rightharpoonup> 'v" where
  "keyed k v xs = map_of (rev (map (\<lambda>x. (k x, v x)) xs))"

definition type_row :: "SolverInputSnapshotDocument \<Rightarrow> string \<rightharpoonup> SnapshotShiftType" where
  "type_row s = keyed ty_id id (sd_shiftTypes s)"

definition identityOf :: "SolverInputSnapshotDocument \<Rightarrow> SolverCandidateAssignment \<Rightarrow> string option" where
  "identityOf s a =
     map_option fx_identity (find (\<lambda>f. fx_member f = ca_member a \<and> fx_date f = ca_date a \<and> fx_type f = ca_type a) (sd_fixed s))"

text \<open>A time that does not parse, \<open>NaN\<close> in the source, is read as zero; its assignment is rejected as an unknown
  reference before the rules are looked at.\<close>
definition ms_at :: "date_parse \<Rightarrow> string \<Rightarrow> string \<Rightarrow> int" where
  "ms_at dateParse d time = (case dateParse (d @ CHR ''T'' # time @ ''Z'') of None \<Rightarrow> 0 | Some t \<Rightarrow> t)"

definition checked_candidate ::
  "date_parse \<Rightarrow> SolverInputSnapshotDocument \<Rightarrow> nat \<times> SolverCandidateAssignment \<Rightarrow> CheckedAssignment" where
  "checked_candidate dateParse s = (\<lambda>(index, a).
     (let row = type_row s (ca_type a); label = ''candidate#'' @ string_of_nat index;
          endBase = ms_at dateParse (ca_date a) (case row of None \<Rightarrow> ''00:00:00'' | Some t \<Rightarrow> ty_end t) in
      \<lparr>snapshotId = label, assignmentIdentityId = (case identityOf s a of None \<Rightarrow> label | Some i \<Rightarrow> i),
       membershipId = ca_member a, date = ca_date a,
       startsAtMs = ms_at dateParse (ca_date a) (case row of None \<Rightarrow> ''00:00:00'' | Some t \<Rightarrow> ty_start t),
       endsAtMs = (if map_option ty_crosses row = Some True then endBase + 86400000 else endBase),
       shiftTypeCode = (case row of None \<Rightarrow> [] | Some t \<Rightarrow> ty_code t),
       isOnCall = (map_option ty_onCall row = Some True), pickPosition = Some None\<rparr>))"

definition code_of :: "SolverInputSnapshotDocument \<Rightarrow> string \<Rightarrow> string" where
  "code_of s i = (case type_row s i of None \<Rightarrow> [] | Some t \<Rightarrow> ty_code t)"

definition candidate_held :: "SolverInputSnapshotDocument \<Rightarrow> string \<Rightarrow> string \<Rightarrow> string \<Rightarrow> bool" where
  "candidate_held s m key d =
     (case keyed qu_key qu_id (sd_qualifications s) key of
        None \<Rightarrow> False
      | Some q \<Rightarrow>
          list_ex (\<lambda>p. list_ex (\<lambda>h.
            pa_member p @ NUL # ho_qualification h = m @ NUL # q \<and>
            ho_status h = ''active'' \<and> \<not> d < take 10 (ho_from h) \<and>
            (case ho_until h of None \<Rightarrow> True | Some u \<Rightarrow> \<not> d \<ge> take 10 u)) (pa_holdings p)) (sd_participants s))"

definition candidate_facts :: "SolverInputSnapshotDocument \<Rightarrow> CandidateFacts" where
  "candidate_facts s =
     (let groups = keyed sg_id sg_members (sd_staffGroups s);
          valid = keyed vg_id (\<lambda>g. map (code_of s) (vg_types g)) (sd_validGroups s);
          profile = (\<lambda>m. case keyed pa_member pa_profile (sd_participants s) m of None \<Rightarrow> None | Some p \<Rightarrow> p) in
      \<lparr>horizon = \<lparr>dr_from = sd_start s, dr_to = sd_end s\<rparr>,
       knownStaffGroupIds = js_set (map sg_id (sd_staffGroups s)), staffGroupMembers = groups,
       knownValidGroupIds = js_set (map vg_id (sd_validGroups s)), validGroupShiftTypes = valid,
       weekdayTarget = (\<lambda>m day. case profile m of None \<Rightarrow> None
         | Some p \<Rightarrow> map_option (\<lambda>t. (wt_fte t, wt_max t)) (find (\<lambda>t. wt_day t = day) (wp_targets p))),
       CandidateFacts.workPercentage = (\<lambda>m. map_option wp_percentage (profile m)),
       priorAssignments = map (\<lambda>f. \<lparr>p_assignmentIdentityId = fx_identity f, p_membershipId = fx_member f,
         p_date = fx_date f, p_shiftTypeCode = code_of s (fx_type f), p_isPinned = fx_pinned f\<rparr>) (sd_fixed s)\<rparr>)"

definition checkedVersionOf ::
  "date_parse \<Rightarrow> SolverInputSnapshotDocument \<Rightarrow> SolverCandidateAssignment list \<Rightarrow> CheckedVersion" where
  "checkedVersionOf dateParse s as =
     \<lparr>assignments = map (checked_candidate dateParse s) (enumerate 0 as),
      knownShiftTypeCodes = js_set (map ty_code (sd_shiftTypes s)),
      knownMembershipIds = js_set (map pa_member (sd_participants s)),
      qualifications = \<lparr>heldOn = candidate_held s,
        knownQualificationKeys = js_set (map snd (foldl (\<lambda>m q. map_set (qu_id q) (qu_key q) m) [] (sd_qualifications s)))\<rparr>,
      candidateFacts = Some (candidate_facts s)\<rparr>"

definition validateCandidate ::
  "date_parse \<Rightarrow> (string \<Rightarrow> jsnum) \<Rightarrow> SolverInputSnapshotDocument \<Rightarrow> SolverCandidateAssignment list \<Rightarrow> string \<Rightarrow> string \<Rightarrow>
   CandidateVerdict result" where
  "validateCandidate dateParse toNumber s as expectedInputHash reportedInputHash =
     (case evaluateHardRules (compiledRulesOf toNumber s) (checkedVersionOf dateParse s as) of
        Inl e \<Rightarrow> Inl e
      | Inr fs \<Rightarrow>
          (let rejections =
             (if reportedInputHash \<noteq> expectedInputHash then [InputHashMismatch] else []) @
             all_rejections dateParse s [] as @ dropped_rejections s as @
             coverage_rejections (candidateDemandCoverage s as) @
             (if blocksPublication fs then [HardViolation fs] else []) in
           Inr \<lparr>cv_usable = (rejections = []), cv_rejections = rejections, cv_findings = fs,
                cv_hardViolations = length (filter (\<lambda>f. finding f = Breach) fs)\<rparr>))"

end
