(* ===== verification/CandidateExact.thy ===== *)
theory CandidateExact
  imports CandidateCheck HardRuleCoverage
begin

text \<open>
  What the decisions of \<open>CandidateCheck\<close> mean. A candidate is usable exactly when it fulfils the snapshot, a
  condition stated without maps and keys: known members and shift types, dates of the period, admitted pairs, no
  placement twice, every pin kept, every cell staffed by exactly the number asked for, and every active hard rule
  satisfied. The readiness check is compared with it: which of its findings a usable candidate excludes.
\<close>

section \<open>What a candidate has to fulfil\<close>

definition admitted :: "SolverInputSnapshotDocument \<Rightarrow> string \<Rightarrow> string \<Rightarrow> bool" where
  "admitted s m t \<longleftrightarrow>
     (\<exists>p \<in> set (sd_participants s). pa_member p = m \<and> (\<exists>v \<in> set (pa_eligibility p). el_eligible v \<and> el_type v = t))"

definition placements :: "SolverCandidateAssignment list \<Rightarrow> (string \<times> string \<times> string) list" where
  "placements as = map (\<lambda>a. (ca_member a, ca_date a, ca_type a)) as"

definition staffing :: "SolverCandidateAssignment list \<Rightarrow> string \<Rightarrow> string \<Rightarrow> nat" where
  "staffing as d t = length (filter (\<lambda>a. ca_date a = d \<and> ca_type a = t) as)"

definition demanded :: "SolverInputSnapshotDocument \<Rightarrow> string \<Rightarrow> string \<Rightarrow> int" where
  "demanded s d t =
     sum_list (map dc_required (filter (\<lambda>c. dc_source c = PeriodRequirement \<and> 0 < dc_required c \<and>
       dc_on c = d \<and> dc_type c = t) (sd_demand s)))"

definition fulfils :: "SolverInputSnapshotDocument \<Rightarrow> SolverCandidateAssignment list \<Rightarrow> bool" where
  "fulfils s as \<longleftrightarrow>
     (\<forall>a \<in> set as. ca_member a \<in> pa_member ` set (sd_participants s) \<and> ca_type a \<in> ty_id ` set (sd_shiftTypes s) \<and>
        isCalendarDate (ca_date a) \<and> sd_start s \<le> ca_date a \<and> ca_date a \<le> sd_end s \<and>
        admitted s (ca_member a) (ca_type a)) \<and>
     distinct (placements as) \<and>
     (\<forall>f \<in> set (sd_fixed s). fx_pinned f \<longrightarrow> (fx_member f, fx_date f, fx_type f) \<in> set (placements as)) \<and>
     (\<forall>d t. int (staffing as d t) = demanded s d t)"

definition rules_hold ::
  "date_parse \<Rightarrow> (string \<Rightarrow> jsnum) \<Rightarrow> SolverInputSnapshotDocument \<Rightarrow> SolverCandidateAssignment list \<Rightarrow> bool" where
  "rules_hold dateParse toNumber s as \<longleftrightarrow>
     (\<forall>r \<in> set (sd_rules s). rv_status r = ''active'' \<and> rv_classification r = ''HARD'' \<longrightarrow>
        satisfied (checkedVersionOf dateParse s as) (compileRule (rule_of_revision toNumber r)))"

text \<open>What the proofs use of \<open>Date.parse\<close>, and of identifiers: a member's identifier, a UUID, has neither of the
  separators of the keys.\<close>
definition parses_days :: "date_parse \<Rightarrow> bool" where
  "parses_days dateParse \<longleftrightarrow>
     (\<forall>d n. daysFromEpoch d = Inr n \<longrightarrow> dateParse (d @ ''T00:00:00Z'') = Some (n * MS_PER_DAY))"

definition plain_members :: "SolverInputSnapshotDocument \<Rightarrow> bool" where
  "plain_members s \<longleftrightarrow>
     (\<forall>p \<in> set (sd_participants s). CHR '' '' \<notin> set (pa_member p) \<and> CHR ''|'' \<notin> set (pa_member p) \<and> NUL \<notin> set (pa_member p))"

section \<open>A snapshot that is accepted\<close>

lemma repeated_Nil: "repeated seen ks = [] \<longleftrightarrow> distinct ks \<and> set seen \<inter> set ks = {}"
  by (induction seen ks rule: repeated.induct) auto

lemma pushDuplicates_Nil: "pushDuplicates ks subject = [] \<longleftrightarrow> distinct ks"
proof -
  have "pushDuplicates ks subject = [] \<longleftrightarrow> sort (remdups (repeated [] ks)) = []"
    by (simp only: pushDuplicates_def map_is_Nil_conv)
  also have "\<dots> \<longleftrightarrow> repeated [] ks = []" by (metis set_sort set_remdups set_empty)
  finally show ?thesis by (simp only: repeated_Nil) simp
qed

definition accepted :: "SolverInputSnapshotDocument \<Rightarrow> bool" where
  "accepted s \<longleftrightarrow> snapshotRefusals s [] = []"

lemma concat_Nil: "concat (map f xs) = [] \<longleftrightarrow> (\<forall>x \<in> set xs. f x = [])"
  by auto

lemma accepted_dates:
  assumes "accepted s"
  shows "isCalendarDate (sd_start s)" "isCalendarDate (sd_end s)" "sd_start s \<le> sd_end s"
    and "\<And>c. c \<in> set (sd_demand s) \<Longrightarrow> dc_source c = PeriodRequirement \<Longrightarrow>
      isCalendarDate (dc_on c) \<and> sd_start s \<le> dc_on c \<and> dc_on c \<le> sd_end s"
    and "\<And>f. f \<in> set (sd_fixed s) \<Longrightarrow> isCalendarDate (fx_date f)"
proof -
  have n: "date_refusals s = []" using assms by (simp add: accepted_def snapshotRefusals_def)
  show se: "isCalendarDate (sd_start s)" "isCalendarDate (sd_end s)"
    using n by (simp_all add: date_refusals_def Let_def split: if_splits)
  have "\<not> 0 < compareCalendarDates (sd_start s) (sd_end s)"
    using n unfolding date_refusals_def Let_def append_is_Nil_conv by (metis se list.discI)
  then show "sd_start s \<le> sd_end s" by (simp add: compareCalendarDates_def not_less split: if_splits)
  have c: "(if dc_source c \<noteq> PeriodRequirement then []
        else if \<not> isCalendarDate (dc_on c) then [refusal InvalidDate (demand_subject c)]
        else if compareCalendarDates (dc_on c) (sd_start s) < 0 \<or> compareCalendarDates (dc_on c) (sd_end s) > 0
        then [refusal InvalidDate (demand_subject c)] else []) = []" if "c \<in> set (sd_demand s)" for c
    using n that unfolding date_refusals_def Let_def append_is_Nil_conv concat_Nil by (simp only: se simp_thms)
  show "isCalendarDate (dc_on c) \<and> sd_start s \<le> dc_on c \<and> dc_on c \<le> sd_end s"
    if "c \<in> set (sd_demand s)" "dc_source c = PeriodRequirement" for c
    using c[OF that(1)] that(2) by (simp add: compareCalendarDates_def not_less split: if_splits)
  show "isCalendarDate (fx_date f)" if "f \<in> set (sd_fixed s)" for f
    using n that unfolding date_refusals_def Let_def append_is_Nil_conv concat_Nil by (metis list.discI)
qed

lemma accepted_references:
  assumes "accepted s"
  shows "\<And>c. c \<in> set (sd_demand s) \<Longrightarrow> dc_type c \<in> ty_id ` set (sd_shiftTypes s)"
    and "\<And>f. f \<in> set (sd_fixed s) \<Longrightarrow> fx_member f \<in> pa_member ` set (sd_participants s)"
proof -
  have n: "reference_refusals s = []" using assms by (simp add: accepted_def snapshotRefusals_def)
  show "dc_type c \<in> ty_id ` set (sd_shiftTypes s)" if "c \<in> set (sd_demand s)" for c
    using n that by (auto simp: reference_refusals_def Let_def concat_Nil unknown_def split: if_splits)
  show "fx_member f \<in> pa_member ` set (sd_participants s)" if "f \<in> set (sd_fixed s)" for f
    using n that by (auto simp: reference_refusals_def Let_def concat_Nil unknown_def split: if_splits)
qed

lemma accepted_distinct:
  assumes "accepted s"
  shows "distinct (map pa_member (sd_participants s))" "distinct (map demand_key (sd_demand s))"
  using assms by (simp_all add: accepted_def snapshotRefusals_def ambiguous_refusals_def pushDuplicates_Nil)

section \<open>Dates and keys\<close>

lemma datesBetween_set:
  assumes "parses_days dateParse" "isCalendarDate a" "isCalendarDate b"
  shows "set (datesBetween dateParse a b) = {d. isCalendarDate d \<and> a \<le> d \<and> d \<le> b}"
proof -
  obtain x y where xy: "daysFromEpoch a = Inr x" "daysFromEpoch b = Inr y"
    using assms(2,3) by (auto simp: isCalendarDate_days)
  then have p: "dateParse (a @ ''T00:00:00Z'') = Some (x * MS_PER_DAY)" "dateParse (b @ ''T00:00:00Z'') = Some (y * MS_PER_DAY)"
    using assms(1) by (simp_all add: parses_days_def)
  have r: "first_day \<le> x" "y \<le> last_day" using xy by (simp_all add: days_bij)
  have k: "(x * MS_PER_DAY + k * MS_PER_DAY) div MS_PER_DAY = x + k" for k
    unfolding distrib_right[symmetric] by (simp add: MS_PER_DAY_def)
  have len: "(y * MS_PER_DAY - x * MS_PER_DAY) div MS_PER_DAY = y - x"
    unfolding left_diff_distrib[symmetric] by (simp add: MS_PER_DAY_def)
  have s: "set (datesBetween dateParse a b) = (\<lambda>k. iso_date (x + k)) ` {0..y - x}"
    by (simp add: datesBetween_def p k len)
  have iso: "iso_date n = dateFromEpochDays n" "daysFromEpoch (dateFromEpochDays n) = Inr n"
    if "x \<le> n" "n \<le> y" for n
    using that r iso_date_dateFromEpochDays[of n] days_of_date[of n] by auto
  show ?thesis
  proof (intro set_eqI iffI)
    fix d assume "d \<in> set (datesBetween dateParse a b)"
    then obtain k where "k \<in> {0..y - x}" "d = iso_date (x + k)" unfolding s by blast
    then have "x \<le> x + k" "x + k \<le> y" "d = dateFromEpochDays (x + k)" using iso(1)[of "x + k"] by auto
    then obtain n where n: "x \<le> n" "n \<le> y" "d = dateFromEpochDays n" by blast
    then show "d \<in> {d. isCalendarDate d \<and> a \<le> d \<and> d \<le> b}"
      using iso(2)[OF n(1,2)] days_le_iff[OF xy(1) iso(2)[OF n(1,2)]] days_le_iff[OF iso(2)[OF n(1,2)] xy(2)]
      by (auto simp: isCalendarDate_days)
  next
    fix d assume d: "d \<in> {d. isCalendarDate d \<and> a \<le> d \<and> d \<le> b}"
    then obtain n where n: "daysFromEpoch d = Inr n" by (auto simp: isCalendarDate_days)
    then have "x \<le> n" "n \<le> y" using d days_le_iff[OF xy(1) n] days_le_iff[OF n xy(2)] by auto
    then show "d \<in> set (datesBetween dateParse a b)"
      unfolding s using iso(1)[of n] date_of_days[OF n] by (intro image_eqI[of _ _ "n - x"]) auto
  qed
qed

lemma date_chars:
  assumes "isCalendarDate d"
  shows "NUL \<notin> set d" "CHR ''|'' \<notin> set d"
proof -
  have "c = CHR ''-'' \<or> is_digit c" if "c \<in> set d" for c
    using assms that by (auto simp: isCalendarDate_civil SHAPE_Some list_all_iff)
  moreover have "\<not> is_digit NUL" "\<not> is_digit (CHR ''|'')" by (simp_all add: NUL_def is_digit_def)
  ultimately show "NUL \<notin> set d" "CHR ''|'' \<notin> set d" by (auto simp: NUL_def)
qed

lemma cellKey_inj:
  "isCalendarDate d \<Longrightarrow> isCalendarDate e \<Longrightarrow> cellKey d t = cellKey e u \<longleftrightarrow> d = e \<and> t = u"
  by (simp add: cellKey_def append_sep date_chars)


section \<open>Demand coverage\<close>

abbreviation cell_key_of :: "DemandRequirementCell \<Rightarrow> string" where
  "cell_key_of c \<equiv> cellKey (rc_date c) (rc_type c)"

abbreviation placement_cell :: "DemandPlacement \<Rightarrow> string" where
  "placement_cell p \<equiv> cellKey (pl_date p) (pl_type p)"

definition asked :: "DemandRequirementCell list \<Rightarrow> string \<Rightarrow> int" where
  "asked cells k = sum_list (map rc_count (filter (\<lambda>c. 0 < rc_count c \<and> cell_key_of c = k) cells))"

definition merged :: "string \<Rightarrow> DemandRequirementCell list \<Rightarrow> DemandRequirementCell" where
  "merged k cells =
     (let own = filter (\<lambda>c. cell_key_of c = k) cells in (hd own)\<lparr>rc_count := sum_list (map rc_count own)\<rparr>)"

lemma foldl_guard: "foldl (\<lambda>m x. if P x then m else f m x) a xs = foldl f a (filter (\<lambda>x. \<not> P x) xs)"
  by (induction xs arbitrary: a) auto

lemma filter_eq_singleton:
  "distinct xs \<Longrightarrow> x \<in> set xs \<Longrightarrow> P x \<Longrightarrow> (\<And>y. y \<in> set xs \<Longrightarrow> P y \<Longrightarrow> y = x) \<Longrightarrow> filter P xs = [x]"
proof (induction xs)
  case (Cons y ys)
  show ?case
  proof (cases "y = x")
    case True
    then have "filter P ys = []" using Cons.prems unfolding filter_empty_conv by (metis distinct.simps(2) list.set_intros(2))
    then show ?thesis using True Cons.prems(3) by simp
  next
    case False
    then have "\<not> P y" using Cons.prems(4) by auto
    moreover have "filter P ys = [x]" by (rule Cons.IH) (use Cons.prems False in \<open>auto\<close>)
    ultimately show ?thesis by simp
  qed
qed simp

lemma required_map_eq:
  "required_map cells =
     map (\<lambda>k. (k, merged k (filter (\<lambda>c. \<not> rc_count c \<le> 0) cells)))
       (js_set (map cell_key_of (filter (\<lambda>c. \<not> rc_count c \<le> 0) cells)))"
  unfolding required_map_def foldl_guard
  by (rule group_fold) (auto simp: merged_def Let_def filter_absent hd_append filter_empty_conv)

lemma merged_count: "rc_count (merged k (filter (\<lambda>c. \<not> rc_count c \<le> 0) cells)) = asked cells k"
  by (simp add: merged_def asked_def Let_def not_le)

lemma asked_positive: "0 < asked cells k \<longleftrightarrow> k \<in> cell_key_of ` set (filter (\<lambda>c. \<not> rc_count c \<le> 0) cells)"
  and asked_nonneg: "0 \<le> asked cells k"
proof -
  show n: "0 \<le> asked cells k" by (auto simp: asked_def intro!: sum_list_nonneg)
  have "asked cells k = 0 \<longleftrightarrow> filter (\<lambda>c. 0 < rc_count c \<and> cell_key_of c = k) cells = []"
    unfolding asked_def by (subst sum_list_nonneg_eq_0_iff) (auto simp: filter_empty_conv)
  then show "0 < asked cells k \<longleftrightarrow> k \<in> cell_key_of ` set (filter (\<lambda>c. \<not> rc_count c \<le> 0) cells)"
    using n by (auto simp: filter_empty_conv order_less_le)
qed

lemma map_filter_Nil: "List.map_filter f xs = [] \<longleftrightarrow> (\<forall>x \<in> set xs. f x = None)"
  by (induction xs) (auto simp: List.map_filter_simps split: option.splits)

lemma shortfalls_Nil:
  "dv_shortfalls (demandCoverage cells ps) = [] \<longleftrightarrow>
     (\<forall>k. asked cells k \<le> int (length (filter (\<lambda>p. placement_cell p = k) ps)))"
proof -
  have "shortfall_of (placed_map ps) (k, merged k (filter (\<lambda>c. \<not> rc_count c \<le> 0) cells)) = None \<longleftrightarrow>
      asked cells k \<le> int (length (filter (\<lambda>p. placement_cell p = k) ps))" for k
    by (simp add: shortfall_of_def Let_def merged_count placed_map_def count_get not_less)
  then have "dv_shortfalls (demandCoverage cells ps) = [] \<longleftrightarrow>
      (\<forall>k \<in> cell_key_of ` set (filter (\<lambda>c. \<not> rc_count c \<le> 0) cells).
         asked cells k \<le> int (length (filter (\<lambda>p. placement_cell p = k) ps)))"
    by (simp add: demandCoverage_def Let_def map_filter_Nil required_map_eq)
  also have "\<dots> \<longleftrightarrow> (\<forall>k. 0 < asked cells k \<longrightarrow> asked cells k \<le> int (length (filter (\<lambda>p. placement_cell p = k) ps)))"
    unfolding asked_positive by blast
  finally show ?thesis using asked_nonneg by (smt (verit) of_nat_0_le_iff)
qed

lemma overfills_Nil:
  "dv_overfills (demandCoverage cells ps) = [] \<longleftrightarrow>
     (\<forall>k. int (length (filter (\<lambda>p. placement_cell p = k) ps)) \<le> asked cells k)"
proof -
  let ?n = "\<lambda>k. length (filter (\<lambda>p. placement_cell p = k) ps)"
  let ?pos = "filter (\<lambda>c. \<not> rc_count c \<le> 0) cells"
  have placed: "placed_map ps = map (\<lambda>k. (k, ?n k)) (js_set (map placement_cell ps))"
    unfolding placed_map_def by (rule count_eq)
  have lookup: "map_of (required_map cells) k = (if 0 < asked cells k then Some (merged k ?pos) else None)" for k
    by (simp add: required_map_eq map_of_graph asked_positive)
  have "overfill_of (required_map cells) (k, ?n k) = None \<longleftrightarrow> int (?n k) \<le> asked cells k"
    if "k \<in> placement_cell ` set ps" for k
  proof (cases "0 < asked cells k")
    case True
    then show ?thesis by (simp add: overfill_of_def lookup merged_count not_less)
  next
    case False
    have "0 < ?n k" using that by (auto simp: filter_empty_conv)
    then have "\<not> int (?n k) \<le> asked cells k" using False by linarith
    then show ?thesis using False by (simp add: overfill_of_def lookup)
  qed
  then have "dv_overfills (demandCoverage cells ps) = [] \<longleftrightarrow>
      (\<forall>k \<in> placement_cell ` set ps. int (?n k) \<le> asked cells k)"
    by (simp add: demandCoverage_def Let_def map_filter_Nil placed)
  also have "\<dots> \<longleftrightarrow> (\<forall>k. int (?n k) \<le> asked cells k)"
  proof -
    have "int (?n k) \<le> asked cells k" if "k \<notin> placement_cell ` set ps" for k
      using asked_nonneg[of cells k] by (simp add: filter_absent[OF that])
    then show ?thesis by blast
  qed
  finally show ?thesis .
qed

lemma coverage_rejections_Nil:
  "coverage_rejections (demandCoverage cells ps) = [] \<longleftrightarrow>
     (\<forall>k. int (length (filter (\<lambda>p. placement_cell p = k) ps)) = asked cells k)"
proof -
  have r: "coverage_rejections v = [] \<longleftrightarrow> dv_shortfalls v = [] \<and> dv_overfills v = []" for v
    unfolding coverage_rejections_def append_is_Nil_conv
    by (cases "dv_shortfalls v"; cases "dv_overfills v = []") (simp_all only: list.case if_True if_False list.distinct simp_thms)
  show ?thesis unfolding r shortfalls_Nil overfills_Nil by (auto intro: order_antisym)
qed

section \<open>The verdict\<close>

definition known_assignment :: "date_parse \<Rightarrow> SolverInputSnapshotDocument \<Rightarrow> SolverCandidateAssignment \<Rightarrow> bool" where
  "known_assignment dateParse s a \<longleftrightarrow>
     ca_member a \<in> pa_member ` set (sd_participants s) \<and> ca_type a \<in> ty_id ` set (sd_shiftTypes s) \<and>
     ca_date a \<in> set (datesBetween dateParse (sd_start s) (sd_end s)) \<and>
     ca_member a @ CHR '' '' # ca_type a \<in> set (eligible_keys (CHR '' '') s)"

lemma assignment_rejections_Nil:
  "assignment_rejections dateParse s seen a = [] \<longleftrightarrow> known_assignment dateParse s a \<and> candidate_key a \<notin> set seen"
  by (simp add: assignment_rejections_def known_assignment_def)

lemma all_rejections_Nil:
  "all_rejections dateParse s seen as = [] \<longleftrightarrow>
     (\<forall>a \<in> set as. known_assignment dateParse s a) \<and> distinct (map candidate_key as) \<and>
     set seen \<inter> candidate_key ` set as = {}"
  by (induction dateParse s seen as rule: all_rejections.induct) (auto simp: assignment_rejections_Nil)

lemma eligible_keys_admitted:
  assumes "sep \<notin> set m" "\<And>p. p \<in> set (sd_participants s) \<Longrightarrow> sep \<notin> set (pa_member p)"
  shows "m @ sep # t \<in> set (eligible_keys sep s) \<longleftrightarrow> admitted s m t"
  using assms by (force simp: eligible_keys_def admitted_def append_sep image_iff)

lemma distinct_same_kernel:
  "(\<And>x y. x \<in> set xs \<Longrightarrow> y \<in> set xs \<Longrightarrow> f x = f y \<longleftrightarrow> g x = g y) \<Longrightarrow> distinct (map f xs) \<longleftrightarrow> distinct (map g xs)"
  by (simp add: distinct_map inj_on_def cong: conj_cong)

lemma placement_key_inj:
  assumes "CHR ''|'' \<notin> set m" "CHR ''|'' \<notin> set m'" "isCalendarDate d" "isCalendarDate d'"
  shows "placement_key m d t = placement_key m' d' t' \<longleftrightarrow> (m, d, t) = (m', d', t')"
  using assms date_chars by (auto simp: placement_key_def append_sep)

lemma coverage_by_cell:
  assumes "\<And>a. a \<in> set as \<Longrightarrow> isCalendarDate (ca_date a)"
    and "\<And>c. c \<in> set (sd_demand s) \<Longrightarrow> dc_source c = PeriodRequirement \<Longrightarrow> isCalendarDate (dc_on c)"
  shows "coverage_rejections (candidateDemandCoverage s as) = [] \<longleftrightarrow> (\<forall>d t. int (staffing as d t) = demanded s d t)"
proof -
  let ?cells = "map (\<lambda>c. \<lparr>rc_date = dc_on c, rc_type = dc_type c, rc_count = dc_required c\<rparr>)
      (filter (\<lambda>c. dc_source c = PeriodRequirement) (sd_demand s))"
  let ?ps = "map (\<lambda>a. \<lparr>pl_date = ca_date a, pl_type = ca_type a\<rparr>) as"
  let ?n = "\<lambda>k. length (filter (\<lambda>p. placement_cell p = k) ?ps)"
  have n: "?n (cellKey d t) = staffing as d t" if "isCalendarDate d" for d t
    using assms(1) that by (auto simp: staffing_def filter_map comp_def cellKey_inj intro!: arg_cong[where f = length] filter_cong)
  have ask: "asked ?cells (cellKey d t) = demanded s d t" if "isCalendarDate d" for d t
    using assms(2) that
    by (auto simp: asked_def demanded_def filter_map comp_def cellKey_inj conj_ac
        intro!: arg_cong[where f = sum_list] map_cong filter_cong)
  have off: "?n k = 0" "asked ?cells k = 0" if "\<And>d t. isCalendarDate d \<Longrightarrow> k \<noteq> cellKey d t" for k
  proof -
    show "?n k = 0" using assms(1) that by (auto simp: filter_empty_conv)
    have "filter (\<lambda>c. 0 < rc_count c \<and> cell_key_of c = k) ?cells = []"
      using assms(2) that by (auto simp: filter_empty_conv)
    then show "asked ?cells k = 0" by (simp add: asked_def)
  qed
  have none: "staffing as d t = 0" "demanded s d t = 0" if "\<not> isCalendarDate d" for d t
  proof -
    show "staffing as d t = 0" using assms(1) that by (auto simp: staffing_def filter_empty_conv)
    have "filter (\<lambda>c. dc_source c = PeriodRequirement \<and> 0 < dc_required c \<and> dc_on c = d \<and> dc_type c = t) (sd_demand s) = []"
      using assms(2) that by (auto simp: filter_empty_conv)
    then show "demanded s d t = 0" by (simp add: demanded_def)
  qed
  have "(\<forall>k. int (?n k) = asked ?cells k) \<longleftrightarrow> (\<forall>d t. int (staffing as d t) = demanded s d t)"
  proof (intro iffI allI)
    fix d t
    assume k: "\<forall>k. int (?n k) = asked ?cells k"
    show "int (staffing as d t) = demanded s d t"
    proof (cases "isCalendarDate d")
      case True
      then show ?thesis using k[rule_format, of "cellKey d t"] unfolding n[OF True] ask[OF True] by simp
    next
      case False
      then show ?thesis unfolding none[OF False] by simp
    qed
  next
    fix k
    assume c: "\<forall>d t. int (staffing as d t) = demanded s d t"
    show "int (?n k) = asked ?cells k"
    proof (cases "\<exists>d t. isCalendarDate d \<and> k = cellKey d t")
      case True
      then obtain d t where k: "isCalendarDate d" "k = cellKey d t" by blast
      show ?thesis unfolding k(2) n[OF k(1)] ask[OF k(1)] using c by blast
    next
      case False
      then have f: "\<And>d t. isCalendarDate d \<Longrightarrow> k \<noteq> cellKey d t" by blast
      have "?n k = 0" "asked ?cells k = 0" by (rule off, erule f)+
      then show ?thesis by (simp only: of_nat_0)
    qed
  qed
  then show ?thesis by (simp only: candidateDemandCoverage_def coverage_rejections_Nil)
qed

lemma compile_role: "c_role (compileRule r) = ''constraint'' \<longleftrightarrow> classification r = ''HARD''"
  by (simp add: compileRule_def split: prod.split)

lemma rules_pass:
  assumes "evaluateHardRules (compiledRulesOf toNumber s) version = Inr fs"
  shows "fs = [] \<longleftrightarrow> (\<forall>r \<in> set (sd_rules s). rv_status r = ''active'' \<and> rv_classification r = ''HARD'' \<longrightarrow>
    satisfied version (compileRule (rule_of_revision toNumber r)))"
proof -
  have "fs = [] \<longleftrightarrow> evaluateHardRules (compiledRulesOf toNumber s) version = Inr []" using assms by auto
  also have "\<dots> \<longleftrightarrow> (\<forall>r \<in> set (sd_rules s). rv_status r = ''active'' \<and> rv_classification r = ''HARD'' \<longrightarrow>
      satisfied version (compileRule (rule_of_revision toNumber r)))"
    by (auto simp: evaluateHardRules_def collect_Inr_Nil_iff rule_findings_Nil compiledRulesOf_def compile_role
        rule_of_revision_def)
  finally show ?thesis .
qed

lemma usable_iff:
  assumes "accepted s" "plain_members s" "parses_days dateParse"
    and "validateCandidate dateParse toNumber s as expected reported = Inr v"
  shows "cv_usable v \<longleftrightarrow> reported = expected \<and> fulfils s as \<and> rules_hold dateParse toNumber s as"
proof -
  obtain fs where fs: "evaluateHardRules (compiledRulesOf toNumber s) (checkedVersionOf dateParse s as) = Inr fs"
    using assms(4) by (auto simp: validateCandidate_def split: sum.splits)
  have "cv_usable v \<longleftrightarrow> reported = expected \<and> all_rejections dateParse s [] as = [] \<and> dropped_rejections s as = [] \<and>
      coverage_rejections (candidateDemandCoverage s as) = [] \<and> fs = []"
    using assms(4) fs by (auto simp: validateCandidate_def Let_def blocksPublication_def split: if_splits)
  also have "\<dots> \<longleftrightarrow> reported = expected \<and> fulfils s as \<and> fs = []"
  proof -
    have plain: "CHR '' '' \<notin> set m \<and> CHR ''|'' \<notin> set m" if "m \<in> pa_member ` set (sd_participants s)" for m
      using that assms(2) by (auto simp: plain_members_def)
    have known: "known_assignment dateParse s a \<longleftrightarrow>
        ca_member a \<in> pa_member ` set (sd_participants s) \<and> ca_type a \<in> ty_id ` set (sd_shiftTypes s) \<and>
        isCalendarDate (ca_date a) \<and> sd_start s \<le> ca_date a \<and> ca_date a \<le> sd_end s \<and>
        admitted s (ca_member a) (ca_type a)" for a
      using plain eligible_keys_admitted[of "CHR '' ''" "ca_member a" s "ca_type a"] accepted_dates[OF assms(1)]
      by (auto simp: known_assignment_def datesBetween_set[OF assms(3)])
    have "all_rejections dateParse s [] as = [] \<and> dropped_rejections s as = [] \<and>
        coverage_rejections (candidateDemandCoverage s as) = [] \<longleftrightarrow> fulfils s as"
      if k: "\<forall>a \<in> set as. known_assignment dateParse s a"
    proof -
      have inj: "candidate_key a = placement_key m d t \<longleftrightarrow> (ca_member a, ca_date a, ca_type a) = (m, d, t)"
        if "a \<in> set as" "CHR ''|'' \<notin> set m" "isCalendarDate d" for a m d t
      proof -
        have "CHR ''|'' \<notin> set (ca_member a)" "isCalendarDate (ca_date a)"
          using k known[of a] plain[of "ca_member a"] that(1) by blast+
        then show ?thesis unfolding candidate_key_def using that(2,3) by (intro placement_key_inj)
      qed
      have dist: "distinct (map candidate_key as) \<longleftrightarrow> distinct (placements as)"
        unfolding placements_def
      proof (rule distinct_same_kernel)
        fix a b assume "a \<in> set as" "b \<in> set as"
        moreover from this have "CHR ''|'' \<notin> set (ca_member b)" "isCalendarDate (ca_date b)"
          using k known[of b] plain[of "ca_member b"] by blast+
        ultimately show "candidate_key a = candidate_key b \<longleftrightarrow>
            (ca_member a, ca_date a, ca_type a) = (ca_member b, ca_date b, ca_type b)"
          unfolding candidate_key_def[of b] by (intro inj)
      qed
      have pin: "placement_key (fx_member f) (fx_date f) (fx_type f) \<in> candidate_key ` set as \<longleftrightarrow>
          (fx_member f, fx_date f, fx_type f) \<in> set (placements as)" if "f \<in> set (sd_fixed s)" for f
      proof -
        have m: "CHR ''|'' \<notin> set (fx_member f)" using plain accepted_references(2)[OF assms(1) that] by blast
        have "placement_key (fx_member f) (fx_date f) (fx_type f) = candidate_key a \<longleftrightarrow>
            (fx_member f, fx_date f, fx_type f) = (ca_member a, ca_date a, ca_type a)" if "a \<in> set as" for a
          using inj[OF that m accepted_dates(5)[OF assms(1) \<open>f \<in> set (sd_fixed s)\<close>]] by (metis (no_types))
        then show ?thesis unfolding placements_def set_map image_iff by (simp only: cong: bex_cong)
      qed
      then have drop: "dropped_rejections s as = [] \<longleftrightarrow>
          (\<forall>f \<in> set (sd_fixed s). fx_pinned f \<longrightarrow> (fx_member f, fx_date f, fx_type f) \<in> set (placements as))"
        unfolding dropped_rejections_def concat_Nil by (auto split: if_splits)
      have "coverage_rejections (candidateDemandCoverage s as) = [] \<longleftrightarrow> (\<forall>d t. int (staffing as d t) = demanded s d t)"
        using k known accepted_dates(4)[OF assms(1)] by (intro coverage_by_cell) auto
      then show ?thesis using k known dist drop by (simp add: all_rejections_Nil fulfils_def)
    qed
    moreover have "\<forall>a \<in> set as. known_assignment dateParse s a" if "fulfils s as"
      using that known by (auto simp: fulfils_def)
    ultimately show ?thesis by (auto simp: all_rejections_Nil)
  qed
  finally show ?thesis by (simp add: rules_pass[OF fs] rules_hold_def)
qed

section \<open>Readiness\<close>

lemma distinct_map_filter_sort: "distinct (map f xs) \<Longrightarrow> distinct (map f (filter P (sort_key k xs)))"
  by (auto simp: distinct_map intro: inj_on_subset)

lemma requirement_map_eq:
  "requirement_map cells =
     (let own = filter (\<lambda>c. dc_source c = PeriodRequirement) cells in
      map (\<lambda>k. (k, (\<lambda>c. \<lparr>rc_date = dc_on c, rc_type = dc_type c, rc_count = dc_required c\<rparr>)
          (last (filter (\<lambda>c. cellKey (dc_on c) (dc_type c) = k) own))))
        (js_set (map (\<lambda>c. cellKey (dc_on c) (dc_type c)) own)))"
  unfolding requirement_map_def foldl_guard map_set_def Let_def not_not
  by (rule group_fold) auto

text \<open>Of a snapshot whose demand cells are distinct, the positive cells are the period requirements as they stand.\<close>
lemma positive_cells_accepted:
  assumes "accepted s"
  shows "c \<in> set (positive_cells s) \<longleftrightarrow>
    (\<exists>x \<in> set (sd_demand s). dc_source x = PeriodRequirement \<and> 0 < dc_required x \<and>
       c = \<lparr>rc_date = dc_on x, rc_type = dc_type x, rc_count = dc_required x\<rparr>)"
    and "x \<in> set (sd_demand s) \<Longrightarrow> dc_source x = PeriodRequirement \<Longrightarrow> 0 < dc_required x \<Longrightarrow>
      demanded s (dc_on x) (dc_type x) = dc_required x"
    and "distinct (map cell_key_of (positive_cells s))"
proof -
  let ?own = "filter (\<lambda>c. dc_source c = PeriodRequirement) (sd_demand s)"
  let ?key = "\<lambda>c. cellKey (dc_on c) (dc_type c)"
  have one: "y = x" if "x \<in> set ?own" "y \<in> set ?own" "dc_on y = dc_on x" "dc_type y = dc_type x" for x y
    using accepted_distinct(2)[OF assms] that by (auto simp: distinct_map inj_on_def demand_key_def)
  have key: "y = x" if "x \<in> set ?own" "y \<in> set ?own" "?key y = ?key x" for x y
    using that one cellKey_inj accepted_dates(4)[OF assms] by auto
  have dist: "distinct ?own" using accepted_distinct(2)[OF assms] by (simp add: distinct_map)
  have only: "filter (\<lambda>c. ?key c = ?key x) ?own = [x]" if "x \<in> set ?own" for x
    using that dist key by (intro filter_eq_singleton) auto
  let ?cell = "\<lambda>x. \<lparr>rc_date = dc_on x, rc_type = dc_type x, rc_count = dc_required x\<rparr>"
  have vals: "map snd (requirement_map (sd_demand s)) = map ?cell (map (\<lambda>k. last (filter (\<lambda>c. ?key c = k) ?own)) (js_set (map ?key ?own)))"
    by (simp add: requirement_map_eq Let_def)
  show "c \<in> set (positive_cells s) \<longleftrightarrow> (\<exists>x \<in> set (sd_demand s). dc_source x = PeriodRequirement \<and> 0 < dc_required x \<and> c = ?cell x)"
  proof -
    have "set (map snd (requirement_map (sd_demand s))) = ?cell ` set ?own"
      unfolding vals using only by (auto simp: image_image image_iff)
    then show ?thesis by (auto simp: positive_cells_def not_le)
  qed
  show "demanded s (dc_on x) (dc_type x) = dc_required x"
    if "x \<in> set (sd_demand s)" "dc_source x = PeriodRequirement" "0 < dc_required x"
  proof -
    have "filter (\<lambda>c. dc_source c = PeriodRequirement \<and> 0 < dc_required c \<and> dc_on c = dc_on x \<and> dc_type c = dc_type x) (sd_demand s) = [x]"
      using that one accepted_distinct(2)[OF assms] by (intro filter_eq_singleton) (auto simp: distinct_map)
    then show ?thesis by (simp add: demanded_def)
  qed
  have "map cell_key_of (map snd (requirement_map (sd_demand s))) = js_set (map ?key ?own)"
    unfolding vals map_map comp_def using only by (intro map_idI) auto
  then have "distinct (map cell_key_of (map snd (requirement_map (sd_demand s))))" by simp
  then show "distinct (map cell_key_of (positive_cells s))"
    unfolding positive_cells_def by (rule distinct_map_filter_sort)
qed

end
