(* ===== verification/ReadinessFacts.thy ===== *)
theory ReadinessFacts
  imports CandidateExact
begin

text \<open>
  The readiness check against the candidates: what a period that can be staffed is still refused for. The check of a
  cell is exact when it fires; the check of a day and the check of fixed inputs assume that nobody is placed twice
  on one date, which no rule of the candidate demands.
\<close>

section \<open>Cells\<close>

lemma staffed_by_eligible:
  assumes "accepted s" "plain_members s" "fulfils s as"
  shows "staffing as d t \<le> length (filter (\<lambda>m. m @ NUL # t \<in> set (eligible_keys NUL s)) (map pa_member (sd_participants s)))"
proof -
  let ?at = "filter (\<lambda>a. ca_date a = d \<and> ca_type a = t) as"
  let ?el = "filter (\<lambda>m. m @ NUL # t \<in> set (eligible_keys NUL s)) (map pa_member (sd_participants s))"
  have "distinct (map ca_member ?at)"
  proof -
    have "inj_on (\<lambda>a. (ca_member a, ca_date a, ca_type a)) (set as)" "distinct as"
      using assms(3) by (simp_all add: fulfils_def placements_def distinct_map)
    then show ?thesis by (auto simp: distinct_map inj_on_def)
  qed
  then have "staffing as d t = card (ca_member ` set ?at)"
    using distinct_card[of "map ca_member ?at"] by (simp add: staffing_def)
  also have "\<dots> \<le> card (set ?el)"
  proof (rule card_mono)
    show "ca_member ` set ?at \<subseteq> set ?el"
    proof
      fix m assume "m \<in> ca_member ` set ?at"
      then obtain a where a: "a \<in> set as" "ca_member a = m" "ca_type a = t" by auto
      then have m: "m \<in> pa_member ` set (sd_participants s)" "admitted s m t"
        using assms(3) by (auto simp: fulfils_def)
      then have "NUL \<notin> set m" using assms(2) by (auto simp: plain_members_def)
      then have "m @ NUL # t \<in> set (eligible_keys NUL s)"
        using m(2) assms(2) by (subst eligible_keys_admitted) (auto simp: plain_members_def)
      then show "m \<in> set ?el" using m(1) by simp
    qed
  qed simp
  also have "\<dots> \<le> length ?el" by (rule card_length)
  finally show ?thesis .
qed

lemma cell_findings_fulfilled:
  assumes "accepted s" "plain_members s" "parses_days dateParse" "fulfils s as" "c \<in> set (positive_cells s)"
  shows "cell_findings dateParse s c = []"
proof -
  obtain x where x: "x \<in> set (sd_demand s)" "dc_source x = PeriodRequirement" "0 < dc_required x"
    and c: "c = \<lparr>rc_date = dc_on x, rc_type = dc_type x, rc_count = dc_required x\<rparr>"
    using assms(5) positive_cells_accepted(1)[OF assms(1)] by blast
  let ?n = "length (filter (\<lambda>m. m @ NUL # rc_type c \<in> set (eligible_keys NUL s)) (map pa_member (sd_participants s)))"
  have "rc_type c \<in> set (map ty_id (sd_shiftTypes s))" using accepted_references(1)[OF assms(1) x(1)] by (simp add: c)
  moreover have "rc_date c \<in> set (datesBetween dateParse (sd_start s) (sd_end s))"
    using accepted_dates[OF assms(1)] x by (simp add: c datesBetween_set[OF assms(3)])
  moreover have n: "rc_count c \<le> int ?n"
  proof -
    have "int (staffing as (dc_on x) (dc_type x)) = dc_required x"
      using assms(4) positive_cells_accepted(2)[OF assms(1) x] by (simp add: fulfils_def)
    then show ?thesis using staffed_by_eligible[OF assms(1,2,4), of "dc_on x" "dc_type x"] unfolding c by simp
  qed
  moreover have "0 < rc_count c" using x(3) by (simp add: c)
  then have "?n \<noteq> 0" "\<not> int ?n < rc_count c" using n by linarith+
  ultimately show ?thesis unfolding cell_findings_def Let_def by (simp only: simp_thms if_False not_True_eq_False)
qed

section \<open>Days and fixed inputs\<close>

lemma int_sum_list: "int (sum_list ns) = sum_list (map int ns)"
  by (induction ns) simp_all

lemma demand_by_day_eq:
  "demand_by_day cells =
     map (\<lambda>d. (d, sum_list (map rc_count (filter (\<lambda>c. rc_date c = d) cells)))) (js_set (map rc_date cells))"
  unfolding demand_by_day_def by (rule group_fold) (auto simp: filter_absent)

lemma sum_bump:
  "distinct ts \<Longrightarrow> sum_list (map (\<lambda>t. g t + (if t = u then 1 else 0)) ts) \<le> sum_list (map g ts) + (1::nat)"
proof (induction ts)
  case (Cons t ts)
  show ?case
  proof (cases "t = u")
    case True
    then have "map (\<lambda>t. g t + (if t = u then 1 else 0)) ts = map g ts" using Cons.prems by (intro map_cong) auto
    then have "sum_list (map (\<lambda>t. g t + (if t = u then 1 else 0)) ts) = sum_list (map g ts)" by (rule arg_cong)
    then show ?thesis using True by (simp only: list.map sum_list.Cons) simp
  qed (use Cons in simp)
qed simp

lemma sum_by_type:
  "distinct ts \<Longrightarrow> sum_list (map (\<lambda>t. length (filter (\<lambda>a. P a \<and> f a = t) xs)) ts) \<le> length (filter P xs)"
proof (induction xs)
  case (Cons a xs)
  let ?g = "\<lambda>t. length (filter (\<lambda>a. P a \<and> f a = t) xs)"
  show ?case
  proof (cases "P a")
    case True
    have "map (\<lambda>t. length (filter (\<lambda>a. P a \<and> f a = t) (a # xs))) ts = map (\<lambda>t. ?g t + (if t = f a then 1 else 0)) ts"
      using True by (intro map_cong) auto
    then have "sum_list (map (\<lambda>t. length (filter (\<lambda>a. P a \<and> f a = t) (a # xs))) ts) \<le> sum_list (map ?g ts) + 1"
      using sum_bump[OF Cons.prems, of ?g "f a"] by (simp only:)
    moreover have "length (filter P (a # xs)) = length (filter P xs) + 1" using True by simp
    ultimately show ?thesis using Cons.IH[OF Cons.prems] by linarith
  qed (use Cons in simp)
qed simp

lemma day_findings_fulfilled:
  assumes "accepted s" "fulfils s as" "distinct (map (\<lambda>a. (ca_member a, ca_date a)) as)"
  shows "day_findings s (demand_by_day (positive_cells s)) = []"
proof -
  have le: "sum_list (map rc_count (filter (\<lambda>c. rc_date c = d) (positive_cells s))) \<le> int (length (sd_participants s))" for d
  proof -
    let ?own = "filter (\<lambda>c. rc_date c = d) (positive_cells s)"
    have "rc_count c = int (staffing as d (rc_type c))" if "c \<in> set ?own" for c
      using that positive_cells_accepted(1,2)[OF assms(1)] assms(2) by (auto simp: fulfils_def)
    then have "sum_list (map rc_count ?own) = sum_list (map (\<lambda>c. int (staffing as d (rc_type c))) ?own)"
      by (metis (no_types, lifting) map_cong)
    also have "\<dots> = int (sum_list (map (\<lambda>t. length (filter (\<lambda>a. ca_date a = d \<and> ca_type a = t) as)) (map rc_type ?own)))"
      unfolding int_sum_list by (simp add: staffing_def comp_def)
    also have "\<dots> \<le> int (length (filter (\<lambda>a. ca_date a = d) as))"
    proof -
      have "distinct (map rc_type ?own)"
        using positive_cells_accepted(3)[OF assms(1)] by (auto simp: distinct_map inj_on_def)
      then show ?thesis using sum_by_type by (simp only: of_nat_le_iff)
    qed
    also have "length (filter (\<lambda>a. ca_date a = d) as) = card (ca_member ` set (filter (\<lambda>a. ca_date a = d) as))"
    proof -
      have "distinct (map ca_member (filter (\<lambda>a. ca_date a = d) as))"
        using assms(3) by (auto simp: distinct_map inj_on_def)
      then show ?thesis using distinct_card by fastforce
    qed
    also have "\<dots> \<le> card (set (map pa_member (sd_participants s)))"
      using assms(2) by (intro card_mono) (auto simp: fulfils_def)
    also have "\<dots> \<le> length (sd_participants s)" using card_length[of "map pa_member (sd_participants s)"] by simp
    finally show ?thesis by simp
  qed
  have "get_or 0 (demand_by_day (positive_cells s)) d \<le> int (length (sd_participants s))" for d
    using le[of d] by (simp add: demand_by_day_eq get_or_graph)
  then have "\<not> get_or 0 (demand_by_day (positive_cells s)) d > int (length (sd_participants s))" for d
    by (simp only: not_less)
  then show ?thesis unfolding day_findings_def concat_Nil Let_def by (simp only: if_False simp_thms ball_triv)
qed

lemma map_of_map_set: "map_of (map_set k v m) j = (if j = k then Some v else map_of m j)"
proof -
  have "map_of (map_update k f m) j = (if j = k then Some (f (map_of m k)) else map_of m j)" for f
    by (induction m) auto
  then show ?thesis by (simp add: map_set_def)
qed

abbreviation fixed_key :: "SnapshotFixedAssignment \<Rightarrow> string" where
  "fixed_key f \<equiv> fx_member f @ NUL # fx_date f"

lemma fixed_findings_consistent:
  assumes "\<And>f g. f \<in> set fs \<Longrightarrow> g \<in> set fs \<Longrightarrow> fixed_key f = fixed_key g \<Longrightarrow> fx_type f = fx_type g"
    and "\<And>f t. f \<in> set fs \<Longrightarrow> map_of placed (fixed_key f) = Some t \<Longrightarrow> t = fx_type f"
  shows "fixed_findings placed fs = []"
  using assms
proof (induction fs arbitrary: placed)
  case (Cons f fs)
  have "fixed_findings (map_set (fixed_key f) (fx_type f) placed) fs = []"
  proof (rule Cons.IH)
    fix g h assume "g \<in> set fs" "h \<in> set fs" "fixed_key g = fixed_key h"
    then show "fx_type g = fx_type h" using Cons.prems(1)[of g h] by (meson list.set_intros(2))
  next
    fix g t assume g: "g \<in> set fs" "map_of (map_set (fixed_key f) (fx_type f) placed) (fixed_key g) = Some t"
    show "t = fx_type g"
    proof (cases "fixed_key g = fixed_key f")
      case True
      have "fx_type f = fx_type g" by (rule Cons.prems(1)[of f g]) (use g(1) True[symmetric] in \<open>simp_all only: list.set_intros\<close>)
      moreover have "t = fx_type f" using g(2) unfolding map_of_map_set if_P[OF True] by (rule option.inject[THEN iffD1, symmetric])
      ultimately show ?thesis by (rule trans[rotated])
    next
      case False
      have "map_of placed (fixed_key g) = Some t" using g(2) unfolding map_of_map_set if_not_P[OF False] .
      then show ?thesis using Cons.prems(2)[of g t] g(1) by (simp only: list.set_intros)
    qed
  qed
  moreover have "(case map_of placed (fixed_key f) of None \<Rightarrow> []
      | Some already \<Rightarrow> if already \<noteq> fx_type f then xs else []) = []" for xs :: "BuildFinding list"
  proof (cases "map_of placed (fixed_key f)")
    case (Some t)
    then have "t = fx_type f" using Cons.prems(2)[of f t] by (simp only: list.set_intros)
    then show ?thesis using Some by simp
  qed simp
  ultimately show ?case unfolding fixed_findings.simps Let_def by (simp only: append_Nil)
qed (rule fixed_findings.simps(1))

lemma plain_NUL: "plain_members s \<Longrightarrow> m \<in> pa_member ` set (sd_participants s) \<Longrightarrow> NUL \<notin> set m"
  by (auto simp: plain_members_def)

lemma fixed_findings_fulfilled:
  assumes "accepted s" "plain_members s" "fulfils s as" "distinct (map (\<lambda>a. (ca_member a, ca_date a)) as)"
    and "\<And>f. f \<in> set (sd_fixed s) \<Longrightarrow> fx_pinned f"
  shows "fixed_findings [] (sort_key k (sd_fixed s)) = []"
proof (rule fixed_findings_consistent)
  fix f g assume f: "f \<in> set (sort_key k (sd_fixed s))" and g: "g \<in> set (sort_key k (sd_fixed s))"
    and eq: "fixed_key f = fixed_key g"
  have fg: "f \<in> set (sd_fixed s)" "g \<in> set (sd_fixed s)" using f g by simp_all
  have "NUL \<notin> set (fx_member f)" "NUL \<notin> set (fx_member g)"
    using accepted_references(2)[OF assms(1)] fg plain_NUL[OF assms(2)] by blast+
  then have md: "fx_member f = fx_member g" "fx_date f = fx_date g" using eq by (simp_all add: append_sep)
  have p: "(fx_member h, fx_date h, fx_type h) \<in> (\<lambda>a. (ca_member a, ca_date a, ca_type a)) ` set as" if "h \<in> set (sd_fixed s)" for h
    using assms(3) assms(5)[OF that] that unfolding fulfils_def placements_def set_map by blast
  obtain a where a: "a \<in> set as" "(fx_member f, fx_date f, fx_type f) = (ca_member a, ca_date a, ca_type a)"
    using p[OF fg(1)] by blast
  obtain b where b: "b \<in> set as" "(fx_member g, fx_date g, fx_type g) = (ca_member b, ca_date b, ca_type b)"
    using p[OF fg(2)] by blast
  have "(ca_member a, ca_date a) = (ca_member b, ca_date b)" using a(2) b(2) md by simp
  then have "a = b" using assms(4) a(1) b(1) unfolding distinct_map by (blast dest: inj_onD)
  then show "fx_type f = fx_type g" using a(2) b(2) by simp
qed simp

section \<open>What readiness refuses\<close>

lemma finding_codes:
  "f \<in> set (day_findings s m) \<Longrightarrow> bf_code f = ''day_demand_exceeds_participants''"
  "f \<in> set (fixed_findings placed fs) \<Longrightarrow> bf_code f = ''conflicting_fixed_assignments''"
proof -
  show "f \<in> set (day_findings s m) \<Longrightarrow> bf_code f = ''day_demand_exceeds_participants''"
    by (auto simp: day_findings_def Let_def t0_def split: if_splits)
  show "f \<in> set (fixed_findings placed fs) \<Longrightarrow> bf_code f = ''conflicting_fixed_assignments''"
    by (induction placed fs rule: fixed_findings.induct) (auto simp: Let_def t0_def split: option.splits if_splits)
qed

text \<open>C8: When some candidate fulfils an accepted snapshot, the readiness check can only complain of a day whose demand
  exceeds the participants or of fixed inputs that meet on a date; and of neither when that candidate places nobody
  twice on a date and every fixed input is pinned.\<close>
theorem readiness_of_solvable:
  assumes "accepted s" "plain_members s" "parses_days dateParse" "fulfils s as"
  shows "bf_code ` set (readinessFindings dateParse s) \<subseteq>
      {''day_demand_exceeds_participants'', ''conflicting_fixed_assignments''} \<and>
    (distinct (map (\<lambda>a. (ca_member a, ca_date a)) as) \<and> (\<forall>f \<in> set (sd_fixed s). fx_pinned f) \<longrightarrow>
       readinessFindings dateParse s = [])"
proof -
  have "concat (map (cell_findings dateParse s) (positive_cells s)) = []"
    unfolding concat_Nil using cell_findings_fulfilled[OF assms] by blast
  then have r: "readinessFindings dateParse s = day_findings s (demand_by_day (positive_cells s)) @
      fixed_findings [] (sort_key (\<lambda>f. (fx_member f, fx_date f, fx_type f)) (sd_fixed s))"
    by (simp only: readinessFindings_def append_Nil)
  show ?thesis
  proof (intro conjI impI)
    show "bf_code ` set (readinessFindings dateParse s) \<subseteq> {''day_demand_exceeds_participants'', ''conflicting_fixed_assignments''}"
      unfolding r using finding_codes by fastforce
    assume d: "distinct (map (\<lambda>a. (ca_member a, ca_date a)) as) \<and> (\<forall>f \<in> set (sd_fixed s). fx_pinned f)"
    show "readinessFindings dateParse s = []"
      unfolding r using d day_findings_fulfilled[OF assms(1,4)] fixed_findings_fulfilled[OF assms(1,2,4)] by simp
  qed
qed

section \<open>A period that can be staffed and is refused\<close>

text \<open>One member, one date, and two shifts that do not overlap.\<close>
definition sample_shift :: "string \<Rightarrow> string \<Rightarrow> string \<Rightarrow> bool \<Rightarrow> SnapshotShiftType" where
  "sample_shift t a b call =
     \<lparr>ty_id = t, ty_code = t, ty_start = a, ty_end = b, ty_crosses = False, ty_manualOnly = False, ty_onCall = call,
      ty_credit = ''1'', ty_status = ''active'', ty_required = []\<rparr>"

definition two_shifts :: SolverInputSnapshotDocument where
  "two_shifts =
     \<lparr>sd_schemaVersion = 3, sd_compilerVersion = 1, sd_ruleSchemaVersion = 1, sd_organization = ''o'', sd_group = ''g'',
      sd_period = ''p'', sd_version = ''v'', sd_periodName = ''January'', sd_periodStatus = PPlanning,
      sd_start = ''2024-01-01'', sd_end = ''2024-01-01'', sd_dayCount = 1,
      sd_timezone = \<lparr>tz_basis = ''UTC'', tz_version = ''2024a'', tz_source = ''group-current''\<rparr>, sd_locations = [],
      sd_shiftTypes = [sample_shift ''D'' ''07:00:00'' ''15:00:00'' False, sample_shift ''C'' ''20:00:00'' ''22:00:00'' True],
      sd_demand = [\<lparr>dc_source = PeriodRequirement, dc_type = ''D'', dc_on = ''2024-01-01'', dc_required = 1\<rparr>,
                   \<lparr>dc_source = PeriodRequirement, dc_type = ''C'', dc_on = ''2024-01-01'', dc_required = 1\<rparr>],
      sd_participants = [\<lparr>pa_member = ''m'', pa_kind = ''group'', pa_staffing = ''staff'', pa_status = ''active'',
        pa_from = ''2023-01-01'', pa_to = None, pa_profile = None, pa_holdings = [],
        pa_eligibility = [\<lparr>el_type = ''D'', el_eligible = True, el_outcomes = []\<rparr>,
                          \<lparr>el_type = ''C'', el_eligible = True, el_outcomes = []\<rparr>]\<rparr>],
      sd_fixed = [], sd_rules = [], sd_staffGroups = [], sd_validGroups = [], sd_qualifications = [], sd_constituents = []\<rparr>"

definition both_shifts :: "SolverCandidateAssignment list" where
  "both_shifts =
     [\<lparr>ca_member = ''m'', ca_date = ''2024-01-01'', ca_type = ''D'', ca_location = None\<rparr>,
      \<lparr>ca_member = ''m'', ca_date = ''2024-01-01'', ca_type = ''C'', ca_location = None\<rparr>]"

lemma two_shifts_accepted: "accepted two_shifts" "plain_members two_shifts"
  by code_simp+

lemma both_fulfil: "fulfils two_shifts both_shifts"
proof -
  have "isCalendarDate ''2024-01-01''" by code_simp
  then show ?thesis
    by (auto simp: fulfils_def two_shifts_def both_shifts_def sample_shift_def admitted_def placements_def staffing_def demanded_def)
qed

lemma both_validate:
  "validateCandidate dateParse toNumber two_shifts both_shifts h h =
     Inr \<lparr>cv_usable = cv_usable (projr (validateCandidate dateParse toNumber two_shifts both_shifts h h)),
          cv_rejections = cv_rejections (projr (validateCandidate dateParse toNumber two_shifts both_shifts h h)),
          cv_findings = [], cv_hardViolations = 0\<rparr>"
  by (simp add: validateCandidate_def Let_def evaluateHardRules_def compiledRulesOf_def two_shifts_def)

text \<open>C9: Readiness refuses a period the solver can staff: with one member and two shifts on one date the candidate that
  gives the member both is usable, and the check reports that the day asks for more than there are participants.\<close>
theorem readiness_refuses_solvable:
  assumes "parses_days dateParse"
  shows "(\<exists>v. validateCandidate dateParse toNumber two_shifts both_shifts h h = Inr v \<and> cv_usable v) \<and>
    bf_code ` set (readinessFindings dateParse two_shifts) = {''day_demand_exceeds_participants''}"
proof
  have "rules_hold dateParse toNumber two_shifts both_shifts" by (simp add: rules_hold_def two_shifts_def)
  then show "\<exists>v. validateCandidate dateParse toNumber two_shifts both_shifts h h = Inr v \<and> cv_usable v"
    using both_validate usable_iff[OF two_shifts_accepted assms both_validate] both_fulfil by blast
  have "day_findings two_shifts (demand_by_day (positive_cells two_shifts)) \<noteq> []" "sd_fixed two_shifts = []"
    by code_simp+
  moreover have "concat (map (cell_findings dateParse two_shifts) (positive_cells two_shifts)) = []"
    unfolding concat_Nil using cell_findings_fulfilled[OF two_shifts_accepted assms both_fulfil] by blast
  ultimately have "readinessFindings dateParse two_shifts = day_findings two_shifts (demand_by_day (positive_cells two_shifts))"
    unfolding readinessFindings_def by (simp only: append_Nil sort_key_simps fixed_findings.simps append_Nil2)
  then show "bf_code ` set (readinessFindings dateParse two_shifts) = {''day_demand_exceeds_participants''}"
    using \<open>day_findings _ _ \<noteq> []\<close> finding_codes(1)[of _ two_shifts "demand_by_day (positive_cells two_shifts)"]
    by (cases "day_findings two_shifts (demand_by_day (positive_cells two_shifts))") auto
qed

text \<open>C7: For a snapshot the refusals accept, a returned candidate is usable exactly when it answers for the input that
  was dispatched, fulfils the snapshot cell by cell and satisfies every active hard rule.\<close>
theorem usable_exactly:
  assumes "accepted s" "plain_members s" "parses_days dateParse"
    and "validateCandidate dateParse toNumber s as expected reported = Inr v"
  shows "cv_usable v \<longleftrightarrow> reported = expected \<and> fulfils s as \<and> rules_hold dateParse toNumber s as"
  by (rule usable_iff[OF assms])

text \<open>A parser of days that has the law.\<close>
definition sample_parse :: date_parse where
  "sample_parse text =
     (if drop 10 text = ''T00:00:00Z''
      then (case daysFromEpoch (take 10 text) of Inl _ \<Rightarrow> None | Inr n \<Rightarrow> Some (n * MS_PER_DAY)) else None)"

lemma sample_parses: "parses_days sample_parse"
proof -
  have "length d = 10" if "daysFromEpoch d = Inr n" for d n
    using that calendar_length isCalendarDate_days by blast
  then show ?thesis by (simp add: parses_days_def sample_parse_def)
qed

lemma readiness_of_solvable_witness:
  "bf_code ` set (readinessFindings sample_parse two_shifts) \<subseteq>
     {''day_demand_exceeds_participants'', ''conflicting_fixed_assignments''}"
  using readiness_of_solvable[OF two_shifts_accepted sample_parses both_fulfil] by blast

lemma readiness_refuses_solvable_witness:
  "bf_code ` set (readinessFindings sample_parse two_shifts) = {''day_demand_exceeds_participants''}"
  using readiness_refuses_solvable[OF sample_parses, where toNumber = "\<lambda>_. num 0" and h = "''h''"] by blast

lemma usable_exactly_witness:
  "\<exists>v. validateCandidate sample_parse (\<lambda>_. num 0) two_shifts both_shifts ''h'' ''h'' = Inr v \<and>
     cv_usable v = rules_hold sample_parse (\<lambda>_. num 0) two_shifts both_shifts"
  using both_validate usable_exactly[OF two_shifts_accepted sample_parses both_validate] both_fulfil by blast

end
