(* ===== verification/Spec2Isabelle.thy ===== *)
theory Spec2Isabelle
  imports Prelude CalendarDate JsNumber EcmaDate ZonedTime RuleAst RuleBounds RuleValidate RuleCompile HardRuleCheck HardRuleFacts
    HardRuleSpacing HardRuleCoverage HardRuleEntry RequestStatus RequestLifecycle Deadlines
    VacationSelection RequestTables RequestService DeadlineInstant Effects StepSystem ScheduleTables ScheduleService ScheduleAuthoring
    ScheduleDiff InForce RowDigest HardRuleRevalidation Publication ScheduleFrames PublicationInvariant PublicationFacts
    ScheduleClone VacationService VacationCommit VacationLedger VacationCalls VacationRuns CommandLedger VacationFacts
    AuthzCatalogue Authorize AuthorizeFacts AuthzOracle AuthzTables RequestContext AuthzLoad AuthzFacts
    SolverSnapshot CandidateCheck CandidateExact ReadinessFacts
begin

text \<open>
  SchedulePoint plans the shifts of a group: members ask for time off, versions of a schedule are drafted, checked
  against the rules of the group and published. The theories model the decision logic of the two TypeScript
  packages \<open>packages/domain\<close> (pure) and \<open>apps/api\<close> (services over PostgreSQL).

  \<^bold>\<open>Parts and theories.\<close>
  \<^item> Calendar dates (\<open>CalendarDate\<close>, \<open>EcmaDate\<close>): \<open>calendar/calendar-date.ts\<close> and the \<open>Date.UTC\<close> arithmetic the
    checker uses. \<open>JsNumber\<close> holds binary64 numbers with the rounding of JavaScript. Day numbers are a bijection
    with the dates of the years 1 to 9999, and string order is time order.
  \<^item> Zoned time (\<open>ZonedTime\<close>): \<open>time/zoned-time.ts\<close>. A zone is a function from instants to offsets; around at most
    one change of offset a local time resolves to exactly the instants that read as it, and a shift interval ends
    after it starts.
  \<^item> Rules (\<open>RuleAst\<close>, \<open>RuleBounds\<close>, \<open>RuleValidate\<close>, \<open>RuleCompile\<close>): \<open>rules/ast.ts\<close>, \<open>bounds.ts\<close>, \<open>validate.ts\<close>,
    \<open>compile.ts\<close>, \<open>serialize.ts\<close>. The validator accepts exactly the well-formed rules, a valid rule compiles to one
    that evaluates, canonical form does not depend on member order.
  \<^item> Hard-rule checks (\<open>HardRuleCheck\<close>; proofs in \<open>HardRuleFacts\<close>, \<open>HardRuleSpacing\<close>, \<open>HardRuleCoverage\<close>,
    \<open>HardRuleEntry\<close>): \<open>rules/hard-rule-check.ts\<close>. Each check is proved equal to the condition on all pairs, windows,
    runs or cells that it stands for, and a version passes the gate exactly when every constraint holds.
  \<^item> Requests (\<open>RequestStatus\<close>, \<open>RequestLifecycle\<close>, \<open>Deadlines\<close>, \<open>VacationSelection\<close>): the pure part of \<open>requests/\<close>.
    The transition matrix terminates, operations are sound and complete for it, the vacation machine refines it.
  \<^item> Request services (\<open>RequestTables\<close>, \<open>RequestService\<close>): \<open>apps/api/src/requests\<close>, the rows and statements, submission
    with idempotency and deadlines, withdrawal, expiry, decisions. \<open>DeadlineInstant\<close> says when a deadline expires.
  \<^item> Vacation services (\<open>VacationService\<close>, \<open>VacationCommit\<close>): \<open>vacation-approval.ts\<close>, \<open>vacation-selection.ts\<close>,
    \<open>vacation-commit.ts\<close> of \<open>apps/api/src/requests\<close>: a selection, its root and its grant move together. \<open>VacationLedger\<close>
    states the invariant of the quota ledger and the move of a selection, \<open>VacationCalls\<close> has one lemma per call,
    \<open>VacationRuns\<close> makes all calls the steps of one machine over both halves of the database, \<open>CommandLedger\<close> shows that
    no call changes a recorded row of the ledger of delivered decisions, and \<open>VacationFacts\<close> derives what holds in
    every run, what always succeeds, what a repeated approval answers, and where the sweep fails.
  \<^item> Effective dating and eligibility (\<open>InForce\<close>): \<open>profiles/in-force.ts\<close>, \<open>eligibility/verdict.ts\<close>.
  \<^item> Schedule services (\<open>ScheduleTables\<close>, \<open>ScheduleService\<close>, \<open>ScheduleAuthoring\<close>): \<open>apps/api/src/schedule/service.ts\<close>,
    \<open>actions.ts\<close>, \<open>timezone.ts\<close>. \<open>Effects\<close> is the monad of a service call: it throws, and the transaction is
    rolled back, or returns a value and the tables it leaves.
  \<^item> Publication (\<open>ScheduleDiff\<close>, \<open>RowDigest\<close>, \<open>HardRuleRevalidation\<close>, \<open>Publication\<close>): \<open>diff.ts\<close>, \<open>review-identity.ts\<close>,
    \<open>render.ts\<close>, \<open>hard-rule-revalidation.ts\<close>, \<open>publication.ts\<close>. \<open>ScheduleFrames\<close> says what each service leaves alone,
    \<open>PublicationInvariant\<close> makes all services the steps of one machine (\<open>StepSystem\<close>) and proves the invariant of
    its reachable states, \<open>PublicationFacts\<close> and \<open>ScheduleClone\<close> derive what callers rely on.
  \<^item> Authorization (\<open>AuthzCatalogue\<close>, \<open>Authorize\<close>, \<open>AuthzOracle\<close>): \<open>authz/catalogue.ts\<close>, \<open>decision.ts\<close>, \<open>evaluate.ts\<close>
    and the independent oracle of \<open>cross-product.ts\<close>. \<open>AuthorizeFacts\<close> states each row of the truth table as a predicate
    and proves one lemma per layer; the evaluator is the table, and agrees with the oracle on every generated case.
  \<^item> Request context and authorization services (\<open>AuthzTables\<close>, \<open>RequestContext\<close>, \<open>AuthzLoad\<close>): \<open>context/\<close>,
    \<open>apps/api/src/http/context/snapshot.ts\<close> and \<open>apps/api/src/authz\<close>. \<open>AuthzFacts\<close> composes them over one set of
    tables: what a verified context leaves for the evaluator to refuse, and what a provisioned organization allows.
  \<^item> Build input and candidates (\<open>SolverSnapshot\<close>, \<open>CandidateCheck\<close>): \<open>ports/solver-snapshot.ts\<close>, \<open>rules/demand-coverage.ts\<close>,
    \<open>apps/api/src/builds/readiness.ts\<close>, \<open>solver/candidate-validation.ts\<close>. \<open>CandidateExact\<close> gives the condition a usable
    candidate stands for, with the hard rules decided by the checker above; \<open>ReadinessFacts\<close> says which refusals before
    a solve a usable candidate excludes, and shows one that it does not.

  \<^bold>\<open>Conventions.\<close> Interfaces are records, string unions datatypes with the constructors of the source. An exception is
  the left of a sum. A table is the list of its rows, an update rewrites the rows it selects. \<open>randomUUID\<close> draws
  \<open>uuid n\<close> for the next \<open>n\<close>, an injective supply. What the host gives (the hash, \<open>Date.parse\<close>, the time-zone
  database) is a parameter. Loops are structural recursions; the only bound in the code that could be mistaken for
  fuel, the 366 steps of a deadline roll, is part of the code and the theorem says when it is exhausted.

  \<^bold>\<open>Not modelled.\<close> Strings hold code units below 256; JSON text is a tree; the negative zero is not told apart from
  zero; sorting is the stable sort on the key, and \<open>localeCompare\<close> on identifiers is the order of strings. The texts of
  the checker's findings are constructors with their interpolated values. Tenant columns (but for authorization), row-level
  security, audit payloads and \<open>updated_at\<close> are left out, and calls are serial, each one transaction; the checks and triggers of the
  migrations that a service relies on are \<open>Database\<close> refusals of the statement. The exclusion of double booking is
  over the rows of one group. The rule revisions in a publication record are left out, and so is the exclusion of overlapping
  snapshots within a version (migration 0009), which only removes states. The services are not called through the evaluator. HTTP routes, contracts,
  authentication, the audit trail, outbox and jobs, the catalogue, profile, rule and settings services, the lifecycle of
  build runs, request comments, objective and quality metrics, the solver and its bridge, and the web application are not modelled.
\<close>

end
